(* ===== verification/Prelude.thy ===== *)
theory Prelude
  imports Main "HOL-Library.List_Lexorder" "HOL-Library.Char_ord"
begin

text \<open>
  Shared vocabulary of the development: results of fallible code, state-passing actions that
  may raise, tables of rows with a key, and stable sorting by a comparison. The collections
  below gather the facts the component theories hand to the simplifier:
  \<^item> \<open>result_simps\<close>: inversion of successful sequential code;
  \<^item> \<open>row_simps\<close>: lookups and keys after an insert, an update or a delete.
\<close>

named_theorems result_simps \<open>inversion of successful results\<close>
named_theorems row_simps \<open>rows of a keyed table\<close>

section \<open>Results\<close>

text \<open>
  A Python call that may raise returns a sum: \<open>Inl\<close> is the raised exception, \<open>Inr\<close> the value.
\<close>

abbreviation Raise :: "'e \<Rightarrow> 'e + 'a" where "Raise \<equiv> Inl"
abbreviation Ok :: "'a \<Rightarrow> 'e + 'a" where "Ok \<equiv> Inr"

fun and_then :: "'e + 'a \<Rightarrow> ('a \<Rightarrow> 'e + 'b) \<Rightarrow> 'e + 'b" where
  "and_then (Inl e) f = Inl e"
| "and_then (Inr x) f = f x"

definition require :: "bool \<Rightarrow> 'e \<Rightarrow> 'e + unit" where
  "require b e = (if b then Inr () else Inl e)"

fun map_error :: "('e \<Rightarrow> 'f) \<Rightarrow> 'e + 'a \<Rightarrow> 'f + 'a" where
  "map_error h (Inl e) = Inl (h e)"
| "map_error h (Inr x) = Inr x"

text \<open>\<open>traverse f xs\<close> is the comprehension \<open>[f(x) for x in xs]\<close> with the first exception raised.\<close>

fun traverse :: "('a \<Rightarrow> 'e + 'b) \<Rightarrow> 'a list \<Rightarrow> 'e + 'b list" where
  "traverse f [] = Inr []"
| "traverse f (x # xs) = and_then (f x) (\<lambda>y. and_then (traverse f xs) (\<lambda>ys. Inr (y # ys)))"

lemma and_then_Ok [result_simps]: "and_then m f = Inr y \<longleftrightarrow> (\<exists>x. m = Inr x \<and> f x = Inr y)"
  by (cases m) auto

lemma and_then_Raise:
  "and_then m f = Inl e \<longleftrightarrow> m = Inl e \<or> (\<exists>x. m = Inr x \<and> f x = Inl e)"
  by (cases m) auto

lemma require_Ok [result_simps]: "require b e = Inr u \<longleftrightarrow> b"
  by (simp add: require_def)

lemma require_Raise: "require b e = Inl e' \<longleftrightarrow> \<not> b \<and> e = e'"
  by (auto simp: require_def)

lemma map_error_Ok [result_simps]: "map_error h m = Inr y \<longleftrightarrow> m = Inr y"
  by (cases m) auto

lemma require_True [simp]: "require True e = Inr ()"
  by (simp add: require_def)

lemma require_False [simp]: "require False e = Inl e"
  by (simp add: require_def)

text \<open>\<open>opt_all P x\<close> is \<open>x is None or P(x)\<close>.\<close>

fun opt_all :: "('a \<Rightarrow> bool) \<Rightarrow> 'a option \<Rightarrow> bool" where
  "opt_all P None \<longleftrightarrow> True"
| "opt_all P (Some x) \<longleftrightarrow> P x"

lemma opt_all_iff: "opt_all P x \<longleftrightarrow> (\<forall>y. x = Some y \<longrightarrow> P y)"
  by (cases x) auto

lemma traverse_Ok_map: "(\<And>x. x \<in> set xs \<Longrightarrow> f x = Inr (g x)) \<Longrightarrow> traverse f xs = Inr (map g xs)"
  by (induction xs) auto

lemma traverse_Ok_ident: "(\<And>x. x \<in> set xs \<Longrightarrow> f x = Inr x) \<Longrightarrow> traverse f xs = Inr xs"
  by (induction xs) auto

section \<open>Actions: state passing with exceptions\<close>

text \<open>
  \<open>('s, 'e, 'a) act\<close> is a piece of imperative code over the state \<open>'s\<close>: it returns or raises,
  and leaves a state in both cases. Undoing the changes of code that raised is the business of
  whoever catches the exception (the transaction of the store, in this program).
\<close>

type_synonym ('s, 'e, 'a) act = "'s \<Rightarrow> ('e + 'a) \<times> 's"

definition act_return :: "'a \<Rightarrow> ('s, 'e, 'a) act" where
  "act_return x s = (Inr x, s)"

definition act_raise :: "'e \<Rightarrow> ('s, 'e, 'a) act" where
  "act_raise e s = (Inl e, s)"

definition act_bind :: "('s, 'e, 'a) act \<Rightarrow> ('a \<Rightarrow> ('s, 'e, 'b) act) \<Rightarrow> ('s, 'e, 'b) act" where
  "act_bind m f s = (case m s of (Inl e, s') \<Rightarrow> (Inl e, s') | (Inr x, s') \<Rightarrow> f x s')"

definition act_get :: "('s \<Rightarrow> 'a) \<Rightarrow> ('s, 'e, 'a) act" where
  "act_get q s = (Inr (q s), s)"

definition act_modify :: "('s \<Rightarrow> 's) \<Rightarrow> ('s, 'e, unit) act" where
  "act_modify f s = (Inr (), f s)"

definition act_lift :: "'e + 'a \<Rightarrow> ('s, 'e, 'a) act" where
  "act_lift r s = (r, s)"

text \<open>\<open>act_require b e\<close> is \<open>if not b: raise e\<close>.\<close>

definition act_require :: "bool \<Rightarrow> 'e \<Rightarrow> ('s, 'e, unit) act" where
  "act_require b e s = (if b then (Inr (), s) else (Inl e, s))"

text \<open>\<open>map_raise h m\<close> is \<open>try: m; except Exception as e: raise h(e)\<close>.\<close>

definition map_raise :: "('e \<Rightarrow> 'f) \<Rightarrow> ('s, 'e, 'a) act \<Rightarrow> ('s, 'f, 'a) act" where
  "map_raise h m s = (case m s of (Inl e, s') \<Rightarrow> (Inl (h e), s') | (Inr x, s') \<Rightarrow> (Inr x, s'))"

text \<open>A query runs without changing the store.\<close>

definition act_query :: "('s \<Rightarrow> 'e + 'a) \<Rightarrow> ('s, 'e, 'a) act" where
  "act_query q s = (q s, s)"

lemma act_return_Ok [result_simps]: "act_return x s = (Inr y, t) \<longleftrightarrow> y = x \<and> t = s"
  by (auto simp: act_return_def)

lemma act_raise_Ok [result_simps]: "act_raise e s = (Inr y, t) \<longleftrightarrow> False"
  by (simp add: act_raise_def)

lemma act_bind_Ok [result_simps]:
  "act_bind m f s = (Inr y, t) \<longleftrightarrow> (\<exists>x u. m s = (Inr x, u) \<and> f x u = (Inr y, t))"
  by (cases "m s"; cases "fst (m s)") (auto simp: act_bind_def)

lemma act_get_Ok [result_simps]: "act_get q s = (Inr y, t) \<longleftrightarrow> y = q s \<and> t = s"
  by (auto simp: act_get_def)

lemma act_modify_Ok [result_simps]: "act_modify f s = (Inr u, t) \<longleftrightarrow> t = f s"
  by (auto simp: act_modify_def)

lemma act_lift_Ok [result_simps]: "act_lift r s = (Inr y, t) \<longleftrightarrow> r = Inr y \<and> t = s"
  by (auto simp: act_lift_def)

lemma act_require_Ok [result_simps]: "act_require b e s = (Inr u, t) \<longleftrightarrow> b \<and> t = s"
  by (auto simp: act_require_def)

lemma map_raise_Ok [result_simps]: "map_raise h m s = (Inr y, t) \<longleftrightarrow> m s = (Inr y, t)"
  by (auto simp: map_raise_def split: prod.splits sum.splits)

lemma snd_map_raise [simp]: "snd (map_raise h m s) = snd (m s)"
  by (simp add: map_raise_def split: prod.splits sum.splits)

lemma act_query_Ok [result_simps]: "act_query q s = (Inr y, t) \<longleftrightarrow> q s = Inr y \<and> t = s"
  by (auto simp: act_query_def)

lemmas act_defs = act_return_def act_raise_def act_bind_def act_get_def act_modify_def
  act_lift_def act_require_def

section \<open>Rows with a key\<close>

text \<open>
  A SQL table with a primary key is the list of its rows. \<open>row_of key k rows\<close> is
  \<open>SELECT * FROM rows WHERE key = k\<close> followed by \<open>fetchone()\<close>.
\<close>

definition row_of :: "('r \<Rightarrow> 'k) \<Rightarrow> 'k \<Rightarrow> 'r list \<Rightarrow> 'r option" where
  "row_of key k rows = find (\<lambda>r. key r = k) rows"

definition insert_row :: "'r \<Rightarrow> 'r list \<Rightarrow> 'r list" where
  "insert_row r rows = rows @ [r]"

definition update_rows :: "('r \<Rightarrow> bool) \<Rightarrow> ('r \<Rightarrow> 'r) \<Rightarrow> 'r list \<Rightarrow> 'r list" where
  "update_rows P f rows = map (\<lambda>r. if P r then f r else r) rows"

definition delete_rows :: "('r \<Rightarrow> bool) \<Rightarrow> 'r list \<Rightarrow> 'r list" where
  "delete_rows P rows = filter (\<lambda>r. \<not> P r) rows"

abbreviation keys :: "('r \<Rightarrow> 'k) \<Rightarrow> 'r list \<Rightarrow> 'k set" where
  "keys key rows \<equiv> key ` set rows"

lemma row_of_None [row_simps]: "row_of key k rows = None \<longleftrightarrow> k \<notin> keys key rows"
  by (auto simp: row_of_def find_None_iff)

lemma row_of_SomeD: "row_of key k rows = Some r \<Longrightarrow> r \<in> set rows \<and> key r = k"
  by (auto simp: row_of_def find_Some_iff)

lemma row_of_Nil [simp]: "row_of key k [] = None"
  by (simp add: row_of_def)

lemma row_of_Cons [simp]: "row_of key k (r # rows) = (if key r = k then Some r else row_of key k rows)"
  by (simp add: row_of_def)

lemma row_of_insert_row [row_simps]:
  "row_of key k (insert_row r rows) =
     (case row_of key k rows of Some r' \<Rightarrow> Some r' | None \<Rightarrow> if key r = k then Some r else None)"
  by (induction rows) (auto simp: insert_row_def)

lemma row_of_update_rows [row_simps]:
  assumes "\<And>r. key (f r) = key r"
  shows "row_of key k (update_rows P f rows) =
           map_option (\<lambda>r. if P r then f r else r) (row_of key k rows)"
  using assms by (induction rows) (auto simp: update_rows_def)

lemma row_of_distinct:
  "distinct (map key rows) \<Longrightarrow> r \<in> set rows \<Longrightarrow> row_of key (key r) rows = Some r"
  by (induction rows) auto

lemma row_of_iff:
  "distinct (map key rows) \<Longrightarrow> row_of key k rows = Some r \<longleftrightarrow> r \<in> set rows \<and> key r = k"
  using row_of_SomeD row_of_distinct by metis

lemma row_of_delete_rows [row_simps]:
  assumes "distinct (map key rows)"
  shows "row_of key k (delete_rows P rows) =
           (case row_of key k rows of Some r \<Rightarrow> if P r then None else Some r | None \<Rightarrow> None)"
  using assms
proof (induction rows)
  case Nil
  then show ?case by (simp add: delete_rows_def)
next
  case (Cons r rows)
  show ?case
  proof (cases "key r = k")
    case True
    with Cons.prems have "row_of key k rows = None" by (simp add: row_of_None)
    with Cons True show ?thesis by (simp add: delete_rows_def)
  next
    case False
    with Cons show ?thesis by (simp add: delete_rows_def)
  qed
qed

lemma keys_insert_row [row_simps]: "keys key (insert_row r rows) = insert (key r) (keys key rows)"
  by (auto simp: insert_row_def)

lemma set_insert_row [row_simps]: "set (insert_row r rows) = insert r (set rows)"
  by (simp add: insert_row_def)

lemma set_update_rows [row_simps]:
  "set (update_rows P f rows) = (\<lambda>r. if P r then f r else r) ` set rows"
  by (simp add: update_rows_def)

lemma set_delete_rows [row_simps]: "set (delete_rows P rows) = {r \<in> set rows. \<not> P r}"
  by (auto simp: delete_rows_def)

lemma map_key_update_rows [row_simps]:
  "(\<And>r. key (f r) = key r) \<Longrightarrow> map key (update_rows P f rows) = map key rows"
  by (simp add: update_rows_def)

lemma keys_update_rows [row_simps]:
  "(\<And>r. key (f r) = key r) \<Longrightarrow> keys key (update_rows P f rows) = keys key rows"
  using map_key_update_rows [of key f P rows] by (metis set_map)

lemma distinct_insert_row [row_simps]:
  "distinct (map key (insert_row r rows)) \<longleftrightarrow> key r \<notin> keys key rows \<and> distinct (map key rows)"
  by (auto simp: insert_row_def)

lemma distinct_delete_rows [row_simps]:
  "distinct (map key rows) \<Longrightarrow> distinct (map key (delete_rows P rows))"
  by (simp add: delete_rows_def distinct_map_filter)

text \<open>The same for a condition on the key itself.\<close>

lemma row_of_update_same:
  assumes "\<And>r. key (f r) = key r"
  shows "row_of key k (update_rows (\<lambda>r. key r = j) f rows) =
     (if k = j then map_option f (row_of key k rows) else row_of key k rows)"
  using assms by (induction rows) (auto simp: update_rows_def)

lemma row_of_delete_same:
  "row_of key k (delete_rows (\<lambda>r. key r = j) rows) = (if k = j then None else row_of key k rows)"
  by (induction rows) (auto simp: delete_rows_def)

section \<open>Stable sorting by a comparison\<close>

text \<open>\<open>order_by le\<close> is \<open>ORDER BY\<close>: a stable insertion sort for the comparison \<open>le\<close>.\<close>

fun insert_by :: "('a \<Rightarrow> 'a \<Rightarrow> bool) \<Rightarrow> 'a \<Rightarrow> 'a list \<Rightarrow> 'a list" where
  "insert_by le x [] = [x]"
| "insert_by le x (y # ys) = (if le x y then x # y # ys else y # insert_by le x ys)"

definition order_by :: "('a \<Rightarrow> 'a \<Rightarrow> bool) \<Rightarrow> 'a list \<Rightarrow> 'a list" where
  "order_by le xs = foldr (insert_by le) xs []"

lemma order_by_simps [simp]:
  "order_by le [] = []" "order_by le (x # xs) = insert_by le x (order_by le xs)"
  by (simp_all add: order_by_def)

lemma set_insert_by [simp]: "set (insert_by le x xs) = insert x (set xs)"
  by (induction xs) auto

lemma length_insert_by [simp]: "length (insert_by le x xs) = Suc (length xs)"
  by (induction xs) auto

lemma distinct_insert_by: "distinct (insert_by le x xs) \<longleftrightarrow> x \<notin> set xs \<and> distinct xs"
  by (induction xs) auto

lemma set_order_by [simp]: "set (order_by le xs) = set xs"
  by (induction xs) auto

lemma length_order_by [simp]: "length (order_by le xs) = length xs"
  by (induction xs) auto

lemma distinct_order_by [simp]: "distinct (order_by le xs) \<longleftrightarrow> distinct xs"
  by (induction xs) (auto simp: distinct_insert_by)

lemma sorted_insert_by:
  assumes total: "\<And>a b. le a b \<or> le b a" and trans: "\<And>a b c. le a b \<Longrightarrow> le b c \<Longrightarrow> le a c"
  shows "sorted_wrt le xs \<Longrightarrow> sorted_wrt le (insert_by le x xs)"
proof (induction xs)
  case Nil
  then show ?case by simp
next
  case (Cons y ys)
  then have "\<not> le x y \<Longrightarrow> le y x" using total by blast
  with Cons show ?case by (auto intro: trans)
qed

lemma sorted_order_by:
  assumes "\<And>a b. le a b \<or> le b a" "\<And>a b c. le a b \<Longrightarrow> le b c \<Longrightarrow> le a c"
  shows "sorted_wrt le (order_by le xs)"
  by (induction xs) (simp_all add: sorted_insert_by assms)

lemma in_set_take_order_by: "x \<in> set (take n (order_by le xs)) \<Longrightarrow> x \<in> set xs"
  using in_set_takeD by fastforce

section \<open>Small facts on lists\<close>

lemma filter_insert_row [row_simps]:
  "filter P (insert_row r rows) = filter P rows @ (if P r then [r] else [])"
  by (simp add: insert_row_def)

lemma map_insert_row [row_simps]: "map f (insert_row r rows) = map f rows @ [f r]"
  by (simp add: insert_row_def)

lemma successively_snoc:
  "successively P (xs @ [x]) \<longleftrightarrow> successively P xs \<and> (xs = [] \<or> P (last xs) x)"
  by (auto simp: successively_append_iff)

end
