(* ===== verification/PyTime.thy ===== *)
theory PyTime
  imports Prelude
begin

text \<open>
  Python's \<open>datetime\<close>, as the program uses it. A timezone-aware value is an instant (\<open>utc\<close>,
  microseconds since 1970-01-01T00:00:00 UTC) with the offset it is written in (\<open>offset\<close>,
  seconds east of UTC). Comparisons look at the instant only; \<open>isoformat\<close> and the JSON text
  show the offset too, so two equal instants may have different texts. A naive value has no
  offset and cannot be compared with an aware one.
\<close>

record aware =
  utc :: int
  offset :: int

datatype pydatetime = Aware aware | Naive int

definition aware_less :: "aware \<Rightarrow> aware \<Rightarrow> bool" where
  "aware_less a b \<longleftrightarrow> utc a < utc b"

text \<open>\<open>at_utc n\<close> is a value of \<open>datetime.now(UTC)\<close>.\<close>

definition at_utc :: "int \<Rightarrow> aware" where
  "at_utc n = \<lparr>utc = n, offset = 0\<rparr>"

lemma at_utc_simps [simp]: "utc (at_utc n) = n" "offset (at_utc n) = 0"
  by (simp_all add: at_utc_def)

lemma at_utc_eq [simp]: "at_utc m = at_utc n \<longleftrightarrow> m = n"
  by (simp add: at_utc_def)

section \<open>Decimal text\<close>

definition digit :: "nat \<Rightarrow> char" where
  "digit d = ''0123456789'' ! d"

text \<open>Fixed-width fields of two, four and six digits, as \<open>f"{n:02d}"\<close> prints them.\<close>

definition pad2 :: "nat \<Rightarrow> string" where
  "pad2 n = [digit (n div 10 mod 10), digit (n mod 10)]"

definition pad4 :: "nat \<Rightarrow> string" where
  "pad4 n = pad2 (n div 100) @ pad2 (n mod 100)"

definition pad6 :: "nat \<Rightarrow> string" where
  "pad6 n = pad2 (n div 10000) @ pad4 (n mod 10000)"

function show_nat :: "nat \<Rightarrow> string" where
  "show_nat n = (if n < 10 then [digit n] else show_nat (n div 10) @ [digit (n mod 10)])"
  by pat_completeness auto
termination
  by (relation "measure id") auto

declare show_nat.simps [simp del]

section \<open>Calendar dates and \<open>isoformat\<close>\<close>

text \<open>
  \<open>civil_of_days d\<close> is the proleptic Gregorian date of day \<open>d\<close> after 1970-01-01, as
  \<open>date.fromordinal\<close> computes it: eras of 400 years beginning on a 1 March.
\<close>

definition year_of_era :: "int \<Rightarrow> int" where
  "year_of_era doe = (doe - doe div 1460 + doe div 36524 - doe div 146096) div 365"

definition day_of_year :: "int \<Rightarrow> int \<Rightarrow> int" where
  "day_of_year doe yoe = doe - (365 * yoe + yoe div 4 - yoe div 100)"

definition month_day :: "int \<Rightarrow> int \<Rightarrow> int \<times> int \<times> int" where
  "month_day year doy =
     (let mp = (5 * doy + 2) div 153;
          day = doy - (153 * mp + 2) div 5 + 1
      in if mp < 10 then (year, mp + 3, day) else (year + 1, mp - 9, day))"

definition civil_of_era :: "int \<Rightarrow> int \<Rightarrow> int \<times> int \<times> int" where
  "civil_of_era era doe =
     month_day (year_of_era doe + era * 400) (day_of_year doe (year_of_era doe))"

definition civil_of_days :: "int \<Rightarrow> int \<times> int \<times> int" where
  "civil_of_days d = civil_of_era ((d + 719468) div 146097) ((d + 719468) mod 146097)"

text \<open>
  \<open>value.isoformat()\<close>: local wall-clock time, microseconds only when they are not zero, then
  the offset as \<open>+HH:MM\<close> (with seconds when there are any).
\<close>

definition iso_offset :: "int \<Rightarrow> string" where
  "iso_offset off =
     (let n = nat \<bar>off\<bar>
      in (if off < 0 then ''-'' else ''+'') @ pad2 (n div 3600) @ '':'' @
         pad2 (n div 60 mod 60) @ (if n mod 60 = 0 then [] else '':'' @ pad2 (n mod 60)))"

definition iso_date :: "int \<times> int \<times> int \<Rightarrow> string" where
  "iso_date ymd = (case ymd of (y, m, d) \<Rightarrow> pad4 (nat y) @ ''-'' @ pad2 (nat m) @ ''-'' @ pad2 (nat d))"

definition iso_time :: "nat \<Rightarrow> nat \<Rightarrow> string" where
  "iso_time sod micros =
     pad2 (sod div 3600) @ '':'' @ pad2 (sod div 60 mod 60) @ '':'' @ pad2 (sod mod 60) @
     (if micros = 0 then [] else ''.'' @ pad6 micros)"

definition wall_clock :: "aware \<Rightarrow> int" where
  "wall_clock a = utc a + offset a * 1000000"

definition isoformat :: "aware \<Rightarrow> string" where
  "isoformat a =
     iso_date (civil_of_days (wall_clock a div 1000000 div 86400)) @ ''T'' @
     iso_time (nat (wall_clock a div 1000000 mod 86400)) (nat (wall_clock a mod 1000000)) @
     iso_offset (offset a)"

text \<open>The facts that evaluate \<open>isoformat\<close> on a concrete value.\<close>

lemmas isoformat_eval = isoformat_def wall_clock_def civil_of_days_def civil_of_era_def
  year_of_era_def day_of_year_def month_day_def iso_date_def iso_time_def iso_offset_def pad2_def pad4_def
  pad6_def digit_def Let_def

lemma isoformat_epoch: "isoformat (at_utc 0) = ''1970-01-01T00:00:00+00:00''"
  by (simp add: isoformat_eval)

lemma isoformat_leap_day:
  "isoformat \<lparr>utc = 1709249400000001, offset = 32400\<rparr> = ''2024-03-01T08:30:00.000001+09:00''"
  by (simp add: isoformat_eval)

end
