(* ===== verification/PyErrors.thy ===== *)
theory PyErrors
  imports Prelude
begin

text \<open>
  The exceptions of the program. \<open>storage_error\<close> is the class tree of \<open>storage/errors.py\<close>;
  \<open>value_error\<close> has one constructor per \<open>raise ValueError\<close> (or subclass of it, pydantic's
  \<open>ValidationError\<close> included) that the modelled code can reach, in place of the message text;
  \<open>sqlite_error\<close> is what the SQLite driver reports. \<open>py_error\<close> joins them.
\<close>

section \<open>Storage errors (storage/errors.py)\<close>

datatype storage_error =
    StorageUnavailableError
  | StorageBusyError
  | StorageCorruptionError
  | MigrationError
  | DataIntegrityError
  | RecordNotFoundError
  | DuplicateTaskError
  | DuplicateRunError
  | DuplicateArtifactError
  | IdempotencyConflictError

text \<open>\<open>isinstance(error, DataIntegrityError)\<close> and \<open>isinstance(error, StorageUnavailableError)\<close>.\<close>

definition is_data_integrity :: "storage_error \<Rightarrow> bool" where
  "is_data_integrity e \<longleftrightarrow>
     e \<in> {DataIntegrityError, DuplicateTaskError, DuplicateRunError, DuplicateArtifactError,
          IdempotencyConflictError}"

definition is_unavailable :: "storage_error \<Rightarrow> bool" where
  "is_unavailable e \<longleftrightarrow> e \<in> {StorageUnavailableError, StorageBusyError}"

section \<open>Value errors\<close>

datatype value_error =
    InvalidField                   \<comment> \<open>a string, number or pattern constraint\<close>
  | InvalidLimit
  | NaiveTimestamp
  | NotTerminal
  | NullResponse
  \<comment> \<open>domain/tasks.py\<close>
  | DuplicateAgents
  | StartedBeforeCreated
  | CompletedBeforeCreated
  | CompletedBeforeStarted
  | TerminalWithoutCompletion
  | CompletionWithoutTerminal
  | InvalidTaskTransition
  | TransitionBeforeCreation
  | TransitionBeforeStart
  \<comment> \<open>domain/events.py\<close>
  | MissingTaskId
  | MissingTeam
  | MissingAgent
  | MissingRouting
  | SelfCausation
  | SecretPayloadField string
  \<comment> \<open>storage/models.py\<close>
  | QueuedRunTimestamps
  | RunningRunTimestamps
  | TerminalRunTimestamps
  | SuccessfulRunError
  | UnsafeArtifactPath
  | SecretResponseField string
  | SecretShapedValue
  | ReservedWithDelivery
  | DeliveredWithoutTime
  | DeliveredBeforeCreated
  \<comment> \<open>gateway/models.py and gateway/service.py\<close>
  | InvalidArguments

section \<open>Errors of the SQLite driver\<close>

text \<open>
  A raised \<open>sqlite3.Error\<close>: whether it is an \<open>IntegrityError\<close>, its \<open>sqlite_errorcode\<close> when it
  has one, and its text.
\<close>

record sqlite_error =
  se_integrity :: bool
  se_code :: "int option"
  se_text :: string

definition integrity_error :: sqlite_error where
  "integrity_error = \<lparr>se_integrity = True, se_code = Some 19, se_text = ''constraint failed''\<rparr>"

datatype py_error =
    ValueError value_error
  | StorageError storage_error
  | SqliteError sqlite_error
  | TypeError
  | RuntimeError   \<comment> \<open>any exception of another component: the runtime, a lookup that cannot fail\<close>

abbreviation data_integrity :: py_error where
  "data_integrity \<equiv> StorageError DataIntegrityError"

lemma is_data_integrity_simps [simp]:
  "is_data_integrity DataIntegrityError" "is_data_integrity DuplicateTaskError"
  "is_data_integrity DuplicateRunError" "is_data_integrity DuplicateArtifactError"
  "is_data_integrity IdempotencyConflictError" "\<not> is_data_integrity RecordNotFoundError"
  "\<not> is_data_integrity StorageUnavailableError" "\<not> is_data_integrity StorageBusyError"
  "\<not> is_data_integrity StorageCorruptionError" "\<not> is_data_integrity MigrationError"
  by (simp_all add: is_data_integrity_def)

end
