(* ===== verification/Validation.thy ===== *)
theory Validation
  imports PyErrors
begin

text \<open>
  The constrained strings of the data models: a declaration
  \<open>StringConstraints(strip_whitespace=True, min_length=a, max_length=b, pattern=p)\<close> is a record
  of the two bounds and the pattern as a recogniser, and \<open>checked\<close> is its documented effect:
  strip, then check length, then check pattern. Strings are ASCII: the patterns admit no other
  character, and free texts are only measured and compared.
\<close>

section \<open>Characters\<close>

definition in_range :: "char \<Rightarrow> char \<Rightarrow> char \<Rightarrow> bool" where
  "in_range lo hi c \<longleftrightarrow> lo \<le> c \<and> c \<le> hi"

definition is_lower :: "char \<Rightarrow> bool" where "is_lower = in_range (CHR ''a'') (CHR ''z'')"
definition is_upper :: "char \<Rightarrow> bool" where "is_upper = in_range (CHR ''A'') (CHR ''Z'')"
definition is_digit :: "char \<Rightarrow> bool" where "is_digit = in_range (CHR ''0'') (CHR ''9'')"

definition is_alnum :: "char \<Rightarrow> bool" where
  "is_alnum c \<longleftrightarrow> is_lower c \<or> is_upper c \<or> is_digit c"

definition is_space :: "char \<Rightarrow> bool" where
  "is_space c \<longleftrightarrow> c = CHR '' '' \<or> in_range (CHR 0x09) (CHR 0x0D) c"

definition is_control :: "char \<Rightarrow> bool" where
  "is_control c \<longleftrightarrow> c \<le> CHR 0x1F \<or> c = CHR 0x7F"

definition char_lower :: "char \<Rightarrow> char" where
  "char_lower c = (if is_upper c then char_of (of_char c + (32::nat)) else c)"

definition lower :: "string \<Rightarrow> string" where
  "lower s = map char_lower s"

definition strip :: "string \<Rightarrow> string" where
  "strip s = rev (dropWhile is_space (rev (dropWhile is_space s)))"

section \<open>Constrained strings\<close>

record constraint =
  min_len :: nat
  max_len :: nat
  pattern :: "string \<Rightarrow> bool"

definition meets :: "constraint \<Rightarrow> string \<Rightarrow> bool" where
  "meets c v \<longleftrightarrow> min_len c \<le> length v \<and> length v \<le> max_len c \<and> pattern c v"

definition checked :: "constraint \<Rightarrow> string \<Rightarrow> value_error + string" where
  "checked c s = (if meets c (strip s) then Inr (strip s) else Inl InvalidField)"

fun checked_opt :: "constraint \<Rightarrow> string option \<Rightarrow> value_error + string option" where
  "checked_opt c None = Inr None"
| "checked_opt c (Some s) = and_then (checked c s) (\<lambda>v. Inr (Some v))"

text \<open>\<open>^[a-z][a-z0-9]*(?:-[a-z0-9]+)*$\<close>: the flag says that a hyphen has just been read.\<close>

fun identifier_tail :: "bool \<Rightarrow> string \<Rightarrow> bool" where
  "identifier_tail hyphen [] \<longleftrightarrow> \<not> hyphen"
| "identifier_tail hyphen (c # cs) \<longleftrightarrow>
     (if c = CHR ''-'' then \<not> hyphen \<and> identifier_tail True cs
      else (is_lower c \<or> is_digit c) \<and> identifier_tail False cs)"

fun identifier_pattern :: "string \<Rightarrow> bool" where
  "identifier_pattern [] \<longleftrightarrow> False"
| "identifier_pattern (c # cs) \<longleftrightarrow> is_lower c \<and> identifier_tail False cs"

definition Identifier :: constraint where
  "Identifier = \<lparr>min_len = 1, max_len = 63, pattern = identifier_pattern\<rparr>"

text \<open>\<open>^PREFIX-[A-Z0-9][A-Z0-9-]*$\<close>, the shape of task, run and artifact identifiers.\<close>

definition is_id_char :: "char \<Rightarrow> bool" where
  "is_id_char c \<longleftrightarrow> is_upper c \<or> is_digit c"

fun record_id_tail :: "string \<Rightarrow> bool" where
  "record_id_tail [] \<longleftrightarrow> False"
| "record_id_tail (c # cs) \<longleftrightarrow> is_id_char c \<and> list_all (\<lambda>d. is_id_char d \<or> d = CHR ''-'') cs"

definition record_id_pattern :: "string \<Rightarrow> string \<Rightarrow> bool" where
  "record_id_pattern prefix s \<longleftrightarrow>
     take (length prefix) s = prefix \<and> record_id_tail (drop (length prefix) s)"

definition TaskId :: constraint where
  "TaskId = \<lparr>min_len = 6, max_len = 69, pattern = record_id_pattern ''TASK-''\<rparr>"

definition RunId :: constraint where
  "RunId = \<lparr>min_len = 5, max_len = 68, pattern = record_id_pattern ''RUN-''\<rparr>"

definition ArtifactId :: constraint where
  "ArtifactId = \<lparr>min_len = 5, max_len = 68, pattern = record_id_pattern ''ART-''\<rparr>"

text \<open>\<open>^[A-Za-z0-9][A-Za-z0-9._:-]*$\<close>, the shape of keys, routes and source event ids.\<close>

definition is_opaque_char :: "char \<Rightarrow> bool" where
  "is_opaque_char c \<longleftrightarrow> is_alnum c \<or> c \<in> {CHR ''.'', CHR ''_'', CHR '':'', CHR ''-''}"

fun opaque_pattern :: "string \<Rightarrow> bool" where
  "opaque_pattern [] \<longleftrightarrow> False"
| "opaque_pattern (c # cs) \<longleftrightarrow> is_alnum c \<and> list_all is_opaque_char cs"

definition IdempotencyKey :: constraint where
  "IdempotencyKey = \<lparr>min_len = 1, max_len = 200, pattern = opaque_pattern\<rparr>"

definition OpaqueRouteValue :: constraint where
  "OpaqueRouteValue = \<lparr>min_len = 1, max_len = 200, pattern = opaque_pattern\<rparr>"

definition ReplyTarget :: constraint where
  "ReplyTarget = \<lparr>min_len = 1, max_len = 200, pattern = opaque_pattern\<rparr>"

definition SourceEventId :: constraint where
  "SourceEventId = \<lparr>min_len = 1, max_len = 135, pattern = opaque_pattern\<rparr>"

text \<open>\<open>^[^\x00-\x1f\x7f]+$\<close>.\<close>

definition OpaqueId :: constraint where
  "OpaqueId = \<lparr>min_len = 1, max_len = 255,
               pattern = (\<lambda>s. s \<noteq> [] \<and> list_all (\<lambda>c. \<not> is_control c) s)\<rparr>"

text \<open>Free texts: only the length is constrained.\<close>

definition TaskRequest :: constraint where
  "TaskRequest = \<lparr>min_len = 1, max_len = 100000, pattern = (\<lambda>_. True)\<rparr>"

definition TaskInstruction :: constraint where
  "TaskInstruction = \<lparr>min_len = 1, max_len = 100000, pattern = (\<lambda>_. True)\<rparr>"

definition EventMessage :: constraint where
  "EventMessage = \<lparr>min_len = 1, max_len = 2000, pattern = (\<lambda>_. True)\<rparr>"

definition SafeMessage :: constraint where
  "SafeMessage = \<lparr>min_len = 1, max_len = 4000, pattern = (\<lambda>_. True)\<rparr>"

text \<open>\<open>^[A-Za-z0-9.+-]+/[A-Za-z0-9.+-]+$\<close>: exactly one slash, between non-empty tokens.\<close>

definition is_media_char :: "char \<Rightarrow> bool" where
  "is_media_char c \<longleftrightarrow> is_alnum c \<or> c \<in> {CHR ''.'', CHR ''+'', CHR ''-''}"

definition content_type_pattern :: "string \<Rightarrow> bool" where
  "content_type_pattern s \<longleftrightarrow>
     (let major = takeWhile is_media_char s; rest = dropWhile is_media_char s
      in major \<noteq> [] \<and> rest \<noteq> [] \<and> hd rest = CHR ''/'' \<and> tl rest \<noteq> [] \<and>
         list_all is_media_char (tl rest))"

definition ContentType :: constraint where
  "ContentType = \<lparr>min_len = 3, max_len = 200, pattern = content_type_pattern\<rparr>"

text \<open>\<open>^[0-9a-f]{64}$\<close>: the values that a validated record holds (the digest is lower case).\<close>

definition Sha256 :: constraint where
  "Sha256 = \<lparr>min_len = 64, max_len = 64,
             pattern = list_all (\<lambda>c. is_digit c \<or> in_range (CHR ''a'') (CHR ''f'') c)\<rparr>"

section \<open>What a checked string satisfies\<close>

definition clean :: "constraint \<Rightarrow> string \<Rightarrow> bool" where
  "clean c s \<longleftrightarrow> checked c s = Inr s"

definition clean_opt :: "constraint \<Rightarrow> string option \<Rightarrow> bool" where
  "clean_opt c s \<longleftrightarrow> (case s of None \<Rightarrow> True | Some v \<Rightarrow> clean c v)"

lemma dropWhile_strip_id:
  "dropWhile P (rev (dropWhile P (rev (dropWhile P s)))) = rev (dropWhile P (rev (dropWhile P s)))"
proof (cases "dropWhile P s")
  case Nil
  show ?thesis unfolding Nil by simp
next
  case (Cons c cs)
  then have "\<not> P c" by (metis hd_dropWhile list.sel(1) list.distinct(1))
  then have "rev (dropWhile P (rev (c # cs))) = c # rev (dropWhile P (rev cs))"
    by (auto simp: dropWhile_append dropWhile_eq_Nil_conv)
  with Cons \<open>\<not> P c\<close> show ?thesis by simp
qed

lemma strip_strip [simp]: "strip (strip s) = strip s"
proof -
  let ?t = "rev (dropWhile is_space (rev (dropWhile is_space s)))"
  have "dropWhile is_space ?t = ?t" by (rule dropWhile_strip_id)
  then have "rev (dropWhile is_space (rev (dropWhile is_space ?t))) =
      rev (dropWhile is_space (rev ?t))"
    by (simp only:)
  also have "\<dots> = ?t" by (simp add: dropWhile_idem)
  finally show ?thesis by (simp add: strip_def)
qed

lemma checked_Ok [result_simps]: "checked c s = Inr v \<longleftrightarrow> v = strip s \<and> meets c (strip s)"
  by (auto simp: checked_def)

lemma clean_iff: "clean c s \<longleftrightarrow> strip s = s \<and> meets c s"
  by (auto simp: clean_def checked_def)

lemma checked_clean: "checked c s = Inr v \<Longrightarrow> clean c v"
  by (auto simp: clean_iff checked_Ok)

lemma clean_checked [simp]: "clean c s \<Longrightarrow> checked c s = Inr s"
  by (simp add: clean_def)

lemma checked_opt_clean: "checked_opt c s = Inr v \<Longrightarrow> clean_opt c v"
  by (cases s) (auto simp: clean_opt_def result_simps clean_iff)

lemma clean_opt_checked [simp]: "clean_opt c s \<Longrightarrow> checked_opt c s = Inr s"
  by (cases s) (auto simp: clean_opt_def)

lemma clean_opt_simps [simp]: "clean_opt c None" "clean_opt c (Some v) \<longleftrightarrow> clean c v"
  by (simp_all add: clean_opt_def)

text \<open>A string without blanks at either end is not changed by \<open>strip\<close>.\<close>

lemma strip_no_space: "list_all (\<lambda>c. \<not> is_space c) s \<Longrightarrow> strip s = s"
proof -
  assume "list_all (\<lambda>c. \<not> is_space c) s"
  then have "dropWhile is_space s = s" "dropWhile is_space (rev s) = rev s"
    by (auto simp: list_all_iff dropWhile_eq_self_iff hd_rev)
  then show ?thesis by (simp add: strip_def)
qed

lemma strip_ends:
  assumes "s \<noteq> []" "\<not> is_space (hd s)" "\<not> is_space (last s)"
  shows "strip s = s"
proof -
  have "dropWhile is_space s = s" "dropWhile is_space (rev s) = rev s"
    using assms by (auto simp: dropWhile_eq_self_iff hd_rev)
  then show ?thesis by (simp add: strip_def)
qed

section \<open>Character classes\<close>

lemmas char_class_defs = is_alnum_def is_lower_def is_upper_def is_digit_def is_space_def
  is_id_char_def is_opaque_char_def is_media_char_def in_range_def

lemma not_space_classes:
  "is_lower c \<Longrightarrow> \<not> is_space c" "is_upper c \<Longrightarrow> \<not> is_space c" "is_digit c \<Longrightarrow> \<not> is_space c"
  by (auto simp: char_class_defs less_eq_char_def)

lemma not_space_alnum: "is_alnum c \<Longrightarrow> \<not> is_space c"
  by (auto simp: is_alnum_def dest: not_space_classes)

lemma not_space_opaque: "is_opaque_char c \<Longrightarrow> \<not> is_space c"
  by (auto simp: is_opaque_char_def dest: not_space_alnum) (simp_all add: char_class_defs)

lemma identifier_tail_chars:
  "identifier_tail h s \<Longrightarrow> c \<in> set s \<Longrightarrow> is_lower c \<or> is_digit c \<or> c = CHR ''-''"
  by (induction h s rule: identifier_tail.induct) (auto split: if_splits)

lemma identifier_chars:
  "identifier_pattern s \<Longrightarrow> c \<in> set s \<Longrightarrow> is_lower c \<or> is_digit c \<or> c = CHR ''-''"
  by (cases s) (auto dest: identifier_tail_chars)

lemma opaque_strip: "opaque_pattern s \<Longrightarrow> strip s = s"
proof (cases s)
  case (Cons c cs)
  assume "opaque_pattern s"
  with Cons have "list_all (\<lambda>c. \<not> is_space c) s"
    by (auto simp: list_all_iff dest: not_space_alnum not_space_opaque)
  then show ?thesis by (rule strip_no_space)
qed (simp add: strip_def)

lemma record_id_tail_strip: "record_id_tail s \<Longrightarrow> list_all (\<lambda>c. \<not> is_space c) s"
proof -
  have hyphen: "\<not> is_space (CHR ''-'')" by (simp add: char_class_defs)
  assume "record_id_tail s"
  then show ?thesis
    using hyphen
    by (cases s) (auto simp: list_all_iff is_id_char_def dest: not_space_classes)
qed

end
