(* ===== verification/Json.thy ===== *)
theory Json
  imports PyTime Validation
begin

text \<open>
  Pydantic's \<open>JsonValue\<close>: a dictionary is its list of entries in insertion order, with distinct
  keys; a number is its JSON literal, since the program never computes with one. The theory holds
  the canonical form in which the store writes documents (\<open>json.dumps(sort_keys=True)\<close>) and the
  search for forbidden keys that events and gateway responses share.
\<close>

datatype json =
    JNull
  | JBool bool
  | JNum string
  | JStr string
  | JArr "json list"
  | JObj "(string \<times> json) list"

type_synonym json_object = "(string \<times> json) list"

fun json_wf :: "json \<Rightarrow> bool" where
  "json_wf (JArr vs) \<longleftrightarrow> list_all json_wf vs"
| "json_wf (JObj kvs) \<longleftrightarrow> distinct (map fst kvs) \<and> list_all (\<lambda>kv. json_wf (snd kv)) kvs"
| "json_wf _ \<longleftrightarrow> True"

section \<open>Canonical documents\<close>

text \<open>
  \<open>json.dumps(value, sort_keys=True)\<close> writes equal texts for two values exactly when they agree
  up to the order of keys. The model keeps the value with every object sorted by key in place of
  the text.
\<close>

fun canonical :: "json \<Rightarrow> json" where
  "canonical (JArr vs) = JArr (map canonical vs)"
| "canonical (JObj kvs) = JObj (sort_key fst (map (\<lambda>kv. (fst kv, canonical (snd kv))) kvs))"
| "canonical v = v"

definition canonical_object :: "json_object \<Rightarrow> json_object" where
  "canonical_object kvs = sort_key fst (map (\<lambda>kv. (fst kv, canonical (snd kv))) kvs)"

lemma canonical_JObj: "canonical (JObj kvs) = JObj (canonical_object kvs)"
  by (simp add: canonical_object_def)

lemma distinct_map_fst_sort: "distinct (map fst (sort_key fst kvs)) \<longleftrightarrow> distinct (map fst kvs)"
  by (simp add: distinct_map)

lemma sort_key_fst_map_snd:
  "sort_key fst (map (\<lambda>kv. (fst kv, f (snd kv))) kvs) =
     map (\<lambda>kv. (fst kv, f (snd kv))) (sort_key fst kvs)"
proof (induction kvs)
  case (Cons a kvs)
  have ins: "insort_key fst (fst a, f (snd a)) (map (\<lambda>kv. (fst kv, f (snd kv))) ys) =
      map (\<lambda>kv. (fst kv, f (snd kv))) (insort_key fst a ys)" for ys
    by (induction ys) auto
  with Cons show ?case by simp
qed simp

lemma canonical_idem [simp]: "canonical (canonical v) = canonical v"
proof (induction v rule: canonical.induct)
  case (1 vs)
  then show ?case by simp
next
  case (2 kvs)
  let ?c = "\<lambda>kv::string \<times> json. (fst kv, canonical (snd kv))"
  have inner: "map ?c (map ?c kvs) = map ?c kvs"
    using 2 by (auto simp: comp_def)
  have "sort_key fst (map ?c (sort_key fst (map ?c kvs))) =
      sort_key fst (sort_key fst (map ?c (map ?c kvs)))"
    by (simp only: sort_key_fst_map_snd)
  also have "\<dots> = sort_key fst (map ?c kvs)"
    by (simp only: inner) (simp add: sort_key_id_if_sorted)
  finally show ?case by simp
qed simp_all

lemma canonical_object_idem [simp]: "canonical_object (canonical_object kvs) = canonical_object kvs"
  using canonical_idem [of "JObj kvs"] by (simp only: canonical_JObj json.inject)

lemma map_of_sort_key_fst:
  assumes "distinct (map fst kvs)"
  shows "map_of (sort_key fst kvs) = map_of kvs"
  using assms by (intro map_of_eqI) (auto simp: distinct_map_fst_sort map_of_eq_Some_iff)

lemma map_of_canonical_object:
  assumes "distinct (map fst kvs)"
  shows "map_of (canonical_object kvs) k = map_option canonical (map_of kvs k)"
proof -
  have "distinct (map fst (map (\<lambda>kv. (fst kv, canonical (snd kv))) kvs))"
    using assms by (simp add: comp_def)
  then have "map_of (canonical_object kvs) k =
      map_of (map (\<lambda>kv. (fst kv, canonical (snd kv))) kvs) k"
    by (simp add: canonical_object_def map_of_sort_key_fst)
  also have "\<dots> = map_option canonical (map_of kvs k)"
    by (induction kvs) auto
  finally show ?thesis .
qed

lemma canonical_JStr_iff [simp]: "canonical v = JStr s \<longleftrightarrow> v = JStr s"
  by (cases v) auto

text \<open>Lookups of text entries, as \<open>payload.get("status") == value\<close>, ignore the key order.\<close>

lemma canonical_object_get_text:
  assumes "distinct (map fst kvs)"
  shows "map_of (canonical_object kvs) k = Some (JStr s) \<longleftrightarrow> map_of kvs k = Some (JStr s)"
  by (auto simp: map_of_canonical_object assms)

lemma json_wf_canonical: "json_wf v \<Longrightarrow> json_wf (canonical v)"
proof (induction v rule: canonical.induct)
  case (1 vs)
  then show ?case by (auto simp: list_all_iff)
next
  case (2 kvs)
  then have "distinct (map fst (map (\<lambda>kv. (fst kv, canonical (snd kv))) kvs))"
    by (simp add: comp_def)
  with 2 show ?case by (auto simp: list_all_iff distinct_map_fst_sort)
qed simp_all

section \<open>Forbidden keys\<close>

text \<open>
  \<open>_find_forbidden_payload_key\<close> (domain/events.py) and \<open>_find_forbidden_key\<close>
  (storage/models.py) are the same depth-first search with different tests on the normalised key
  (lower case, hyphens turned into underscores). The result is the path of the first hit.
\<close>

definition normalized_key :: "string \<Rightarrow> string" where
  "normalized_key key = map (\<lambda>c. if c = CHR ''-'' then CHR ''_'' else c) (lower key)"

fun find_forbidden :: "(string \<Rightarrow> bool) \<Rightarrow> json \<Rightarrow> string \<Rightarrow> string option"
  and find_forbidden_entries :: "(string \<Rightarrow> bool) \<Rightarrow> json_object \<Rightarrow> string \<Rightarrow> string option"
  and find_forbidden_items :: "(string \<Rightarrow> bool) \<Rightarrow> json list \<Rightarrow> nat \<Rightarrow> string \<Rightarrow> string option"
where
  "find_forbidden bad (JObj kvs) path = find_forbidden_entries bad kvs path"
| "find_forbidden bad (JArr vs) path = find_forbidden_items bad vs 0 path"
| "find_forbidden bad _ path = None"
| "find_forbidden_entries bad [] path = None"
| "find_forbidden_entries bad ((key, child) # kvs) path =
     (if bad (normalized_key key) then Some (path @ ''.'' @ key)
      else case find_forbidden bad child (path @ ''.'' @ key) of
             Some found \<Rightarrow> Some found
           | None \<Rightarrow> find_forbidden_entries bad kvs path)"
| "find_forbidden_items bad [] index path = None"
| "find_forbidden_items bad (child # vs) index path =
     (case find_forbidden bad child (path @ ''['' @ show_nat index @ '']'') of
        Some found \<Rightarrow> Some found
      | None \<Rightarrow> find_forbidden_items bad vs (Suc index) path)"

text \<open>What the search decides: no key at any depth passes the test.\<close>

fun keys_allowed :: "(string \<Rightarrow> bool) \<Rightarrow> json \<Rightarrow> bool" where
  "keys_allowed bad (JObj kvs) \<longleftrightarrow>
     list_all (\<lambda>kv. \<not> bad (normalized_key (fst kv)) \<and> keys_allowed bad (snd kv)) kvs"
| "keys_allowed bad (JArr vs) \<longleftrightarrow> list_all (keys_allowed bad) vs"
| "keys_allowed bad _ \<longleftrightarrow> True"

lemma find_forbidden_None:
  "find_forbidden bad v path = None \<longleftrightarrow> keys_allowed bad v"
  "find_forbidden_entries bad kvs path = None \<longleftrightarrow> keys_allowed bad (JObj kvs)"
  "find_forbidden_items bad vs index path = None \<longleftrightarrow> keys_allowed bad (JArr vs)"
  by (induction bad v path and bad kvs path and bad vs index path
      rule: find_forbidden_find_forbidden_entries_find_forbidden_items.induct)
    (auto split: option.splits)

lemma keys_allowed_canonical: "keys_allowed bad (canonical v) \<longleftrightarrow> keys_allowed bad v"
  by (induction v rule: canonical.induct) (auto simp: list_all_iff)

lemma keys_allowed_canonical_object:
  "keys_allowed bad (JObj (canonical_object kvs)) \<longleftrightarrow> keys_allowed bad (JObj kvs)"
  using keys_allowed_canonical [of bad "JObj kvs"] by (simp only: canonical_JObj)

end
