(* ===== verification/Tasks.thy ===== *)
theory Tasks
  imports Json
begin

text \<open>
  \<open>domain/tasks.py\<close>: the task snapshot, its pydantic validation and the lifecycle.
  \<open>Task_validate\<close> is \<open>Task.model_validate\<close>; \<open>transition_task\<close> is the function of that name,
  which validates the updated snapshot again. The lemmas show that validation is idempotent,
  characterise a successful transition exactly, and give the shape of the lifecycle graph.
\<close>

section \<open>Statuses\<close>

datatype task_status =
  Pending | Queued | Planning | Running | Review | QA | Blocked | Completed | Failed | Cancelled

fun status_value :: "task_status \<Rightarrow> string" where
  "status_value Pending = ''pending''"
| "status_value Queued = ''queued''"
| "status_value Planning = ''planning''"
| "status_value Running = ''running''"
| "status_value Review = ''review''"
| "status_value QA = ''qa''"
| "status_value Blocked = ''blocked''"
| "status_value Completed = ''completed''"
| "status_value Failed = ''failed''"
| "status_value Cancelled = ''cancelled''"

definition all_statuses :: "task_status list" where
  "all_statuses =
     [Pending, Queued, Planning, Running, Review, QA, Blocked, Completed, Failed, Cancelled]"

text \<open>\<open>TaskStatus(raw)\<close>.\<close>

definition status_of_value :: "string \<Rightarrow> task_status option" where
  "status_of_value s = find (\<lambda>st. status_value st = s) all_statuses"

definition is_terminal :: "task_status \<Rightarrow> bool" where
  "is_terminal s \<longleftrightarrow> s \<in> {Completed, Failed, Cancelled}"

text \<open>The table \<open>LEGAL_TASK_TRANSITIONS\<close>.\<close>

fun legal_transitions :: "task_status \<Rightarrow> task_status list" where
  "legal_transitions Pending = [Queued, Cancelled]"
| "legal_transitions Queued = [Planning, Running, Failed, Cancelled]"
| "legal_transitions Planning = [Running, Blocked, Failed, Cancelled]"
| "legal_transitions Running = [Review, QA, Blocked, Completed, Failed, Cancelled]"
| "legal_transitions Review = [Running, QA, Blocked, Completed, Failed, Cancelled]"
| "legal_transitions QA = [Running, Review, Blocked, Completed, Failed, Cancelled]"
| "legal_transitions Blocked = [Queued, Planning, Running, Review, QA, Failed, Cancelled]"
| "legal_transitions Completed = []"
| "legal_transitions Failed = []"
| "legal_transitions Cancelled = []"

definition allowed_transitions :: "task_status \<Rightarrow> task_status set" where
  "allowed_transitions s = set (legal_transitions s)"

definition can_transition :: "task_status \<Rightarrow> task_status \<Rightarrow> bool" where
  "can_transition current target \<longleftrightarrow> target \<in> allowed_transitions current"

lemmas lifecycle_defs = can_transition_def allowed_transitions_def is_terminal_def

lemma status_of_value_status_value [simp]: "status_of_value (status_value s) = Some s"
  by (cases s) (simp_all add: status_of_value_def all_statuses_def)

lemma status_value_inject [simp]: "status_value s = status_value t \<longleftrightarrow> s = t"
  by (metis status_of_value_status_value option.inject)

lemma status_of_value_SomeD: "status_of_value v = Some s \<Longrightarrow> v = status_value s"
  by (auto simp: status_of_value_def find_Some_iff)

lemma terminal_no_transition: "is_terminal s \<Longrightarrow> \<not> can_transition s t"
  by (auto simp: lifecycle_defs)

lemma can_transition_not_terminal: "can_transition s t \<Longrightarrow> \<not> is_terminal s"
  using terminal_no_transition by blast

lemma can_transition_irrefl: "\<not> can_transition s s"
  by (cases s) (auto simp: lifecycle_defs)

lemma can_transition_not_pending: "\<not> can_transition s Pending"
  by (cases s) (auto simp: lifecycle_defs)

lemma cancel_or_terminal: "can_transition s Cancelled \<or> is_terminal s"
  by (cases s) (auto simp: lifecycle_defs)

section \<open>Task snapshots\<close>

record task =
  t_id :: string
  t_source :: string
  t_project :: string
  t_team :: string
  t_request :: string
  t_status :: task_status
  t_agents :: "string list"
  t_created :: aware
  t_started :: "aware option"
  t_completed :: "aware option"

definition validate_unique_agents :: "string list \<Rightarrow> value_error + string list" where
  "validate_unique_agents value = (if distinct value then Inr value else Inl DuplicateAgents)"

text \<open>The validator of mode \<open>after\<close>, check by check.\<close>

definition validate_timestamps :: "task \<Rightarrow> value_error + task" where
  "validate_timestamps t =
     and_then (require (opt_all (\<lambda>s. \<not> aware_less s (t_created t)) (t_started t))
        StartedBeforeCreated) (\<lambda>_.
     and_then (require (opt_all (\<lambda>c. \<not> aware_less c (t_created t)) (t_completed t))
        CompletedBeforeCreated) (\<lambda>_.
     and_then (require (opt_all (\<lambda>c. opt_all (\<lambda>s. \<not> aware_less c s) (t_started t)) (t_completed t))
        CompletedBeforeStarted) (\<lambda>_.
     and_then (require (\<not> (is_terminal (t_status t) \<and> t_completed t = None))
        TerminalWithoutCompletion) (\<lambda>_.
     and_then (require (\<not> (\<not> is_terminal (t_status t) \<and> t_completed t \<noteq> None))
        CompletionWithoutTerminal) (\<lambda>_.
     Inr t)))))"

text \<open>
  \<open>Task.model_validate\<close>: the fields in order, then the validators. (Pydantic reports all failing
  fields in one \<open>ValidationError\<close>; the model keeps the first.)
\<close>

definition Task_validate :: "task \<Rightarrow> value_error + task" where
  "Task_validate t =
     and_then (checked TaskId (t_id t)) (\<lambda>i.
     and_then (checked Identifier (t_source t)) (\<lambda>src.
     and_then (checked Identifier (t_project t)) (\<lambda>proj.
     and_then (checked Identifier (t_team t)) (\<lambda>team.
     and_then (checked TaskRequest (t_request t)) (\<lambda>req.
     and_then (traverse (checked Identifier) (t_agents t)) (\<lambda>raw.
     and_then (validate_unique_agents raw) (\<lambda>agents.
     validate_timestamps
       (t\<lparr>t_id := i, t_source := src, t_project := proj, t_team := team, t_request := req,
          t_agents := agents\<rparr>))))))))"

definition valid_task :: "task \<Rightarrow> bool" where
  "valid_task t \<longleftrightarrow> Task_validate t = Inr t"

text \<open>What the two parts of validation establish.\<close>

definition timestamps_ok :: "task \<Rightarrow> bool" where
  "timestamps_ok t \<longleftrightarrow>
     opt_all (\<lambda>s. utc (t_created t) \<le> utc s) (t_started t) \<and>
     opt_all (\<lambda>c. utc (t_created t) \<le> utc c) (t_completed t) \<and>
     opt_all (\<lambda>c. opt_all (\<lambda>s. utc s \<le> utc c) (t_started t)) (t_completed t) \<and>
     (is_terminal (t_status t) \<longleftrightarrow> t_completed t \<noteq> None)"

definition fields_clean :: "task \<Rightarrow> bool" where
  "fields_clean t \<longleftrightarrow>
     clean TaskId (t_id t) \<and> clean Identifier (t_source t) \<and> clean Identifier (t_project t) \<and>
     clean Identifier (t_team t) \<and> clean TaskRequest (t_request t) \<and>
     list_all (clean Identifier) (t_agents t) \<and> distinct (t_agents t)"

lemma validate_timestamps_Ok [result_simps]:
  "validate_timestamps t = Inr t' \<longleftrightarrow> t' = t \<and> timestamps_ok t"
  by (auto simp: validate_timestamps_def timestamps_ok_def result_simps aware_less_def opt_all_iff)

lemma validate_unique_agents_Ok [result_simps]:
  "validate_unique_agents v = Inr w \<longleftrightarrow> w = v \<and> distinct v"
  by (auto simp: validate_unique_agents_def)

lemma traverse_checked_Ok:
  "traverse (checked c) xs = Inr ys \<longleftrightarrow> ys = map strip xs \<and> list_all (\<lambda>x. meets c (strip x)) xs"
  by (induction xs arbitrary: ys) (auto simp: result_simps)

lemma traverse_checked_clean: "list_all (clean c) xs \<Longrightarrow> traverse (checked c) xs = Inr xs"
  by (rule traverse_Ok_ident) (simp add: list_all_iff)

lemma traverse_checked_self: "traverse (checked c) xs = Inr xs \<longleftrightarrow> list_all (clean c) xs"
  by (induction xs) (auto simp: result_simps clean_iff)

lemma Task_validate_Ok:
  "Task_validate t = Inr t' \<Longrightarrow> fields_clean t' \<and> timestamps_ok t'"
  by (auto simp: Task_validate_def result_simps traverse_checked_Ok fields_clean_def clean_iff
      list_all_iff)

lemma valid_task_iff: "valid_task t \<longleftrightarrow> fields_clean t \<and> timestamps_ok t"
proof
  assume "fields_clean t \<and> timestamps_ok t"
  then show "valid_task t"
    by (simp add: valid_task_def Task_validate_def fields_clean_def traverse_checked_clean
        validate_unique_agents_def validate_timestamps_Ok)
qed (simp add: valid_task_def Task_validate_Ok)

text \<open>Validating twice is validating once: what the store writes it can read back.\<close>

lemma Task_validate_valid: "Task_validate t = Inr t' \<Longrightarrow> valid_task t'"
  by (simp add: valid_task_iff Task_validate_Ok)

section \<open>The lifecycle function\<close>

definition active_states :: "task_status list" where
  "active_states = [Planning, Running, Review, QA, Blocked]"

text \<open>The \<open>updates\<close> dictionary applied to the snapshot.\<close>

definition stamp_transition :: "task \<Rightarrow> task_status \<Rightarrow> aware \<Rightarrow> task" where
  "stamp_transition t target at =
     t\<lparr>t_status := target,
       t_started :=
         (if target \<in> set active_states \<and> t_started t = None then Some at else t_started t),
       t_completed := (if is_terminal target then Some at else t_completed t)\<rparr>"

text \<open>
  \<open>transition_task(task, target, at=at)\<close>; \<open>now\<close> is what \<open>datetime.now(UTC)\<close> returns when no time
  is given.
\<close>

definition transition_task ::
  "aware \<Rightarrow> task \<Rightarrow> task_status \<Rightarrow> pydatetime option \<Rightarrow> value_error + task" where
  "transition_task now t target at =
     and_then (require (can_transition (t_status t) target) InvalidTaskTransition) (\<lambda>_.
     case (case at of None \<Rightarrow> Aware now | Some d \<Rightarrow> d) of
       Naive _ \<Rightarrow> Inl NaiveTimestamp
     | Aware time \<Rightarrow>
         and_then (require (\<not> aware_less time (t_created t)) TransitionBeforeCreation) (\<lambda>_.
         and_then (require (opt_all (\<lambda>s. \<not> aware_less time s) (t_started t)) TransitionBeforeStart)
           (\<lambda>_. Task_validate (stamp_transition t target time))))"

lemma stamp_transition_simps [simp]:
  "t_status (stamp_transition t target at) = target"
  "t_id (stamp_transition t target at) = t_id t"
  "t_source (stamp_transition t target at) = t_source t"
  "t_project (stamp_transition t target at) = t_project t"
  "t_team (stamp_transition t target at) = t_team t"
  "t_request (stamp_transition t target at) = t_request t"
  "t_agents (stamp_transition t target at) = t_agents t"
  "t_created (stamp_transition t target at) = t_created t"
  by (simp_all add: stamp_transition_def)

definition time_admissible :: "task \<Rightarrow> aware \<Rightarrow> bool" where
  "time_admissible t at \<longleftrightarrow>
     utc (t_created t) \<le> utc at \<and> opt_all (\<lambda>s. utc s \<le> utc at) (t_started t)"

lemma stamp_transition_valid:
  assumes "valid_task t" "can_transition (t_status t) target" "time_admissible t at"
  shows "valid_task (stamp_transition t target at)"
proof -
  have "t_completed t = None"
    using assms can_transition_not_terminal
    by (auto simp: valid_task_iff timestamps_ok_def)
  then show ?thesis
    using assms
    by (auto simp: valid_task_iff fields_clean_def timestamps_ok_def stamp_transition_def
        time_admissible_def active_states_def is_terminal_def opt_all_iff)
qed

lemma transition_task_Ok:
  assumes "valid_task t"
  shows "transition_task now t target (Some (Aware at)) = Inr t' \<longleftrightarrow>
           can_transition (t_status t) target \<and> time_admissible t at \<and>
           t' = stamp_transition t target at"
    (is "?lhs \<longleftrightarrow> ?rhs")
proof -
  have admissible: "(\<not> aware_less at (t_created t) \<and> opt_all (\<lambda>s. \<not> aware_less at s) (t_started t)) \<longleftrightarrow>
      time_admissible t at"
    by (cases "t_started t") (auto simp: time_admissible_def aware_less_def)
  have valid: "can_transition (t_status t) target \<Longrightarrow> time_admissible t at \<Longrightarrow>
      Task_validate (stamp_transition t target at) = Inr (stamp_transition t target at)"
    using stamp_transition_valid [OF assms] by (simp add: valid_task_def)
  show ?thesis
  proof
    assume ?lhs
    with admissible valid show ?rhs by (auto simp: transition_task_def result_simps)
  next
    assume ?rhs
    with admissible valid show ?lhs by (auto simp: transition_task_def result_simps)
  qed
qed

end
