(* ===== verification/Events.thy ===== *)
theory Events
  imports Tasks "HOL-Library.Word"
begin

text \<open>
  \<open>domain/events.py\<close>: the event envelope and its validation. \<open>Event_validate\<close> is
  \<open>EventEnvelope.model_validate\<close>; a UUID is a 128-bit word. \<open>canonical_event\<close> is the event as the
  store writes it: the same fields, with the keys of the payload sorted. The lemmas characterise a
  valid event and show that canonical form and validation do not interfere.
\<close>

type_synonym uuid = "128 word"

section \<open>Event types and levels\<close>

datatype event_type =
    TASK_CREATED | TASK_QUEUED | TASK_STARTED | TASK_BLOCKED | TASK_COMPLETED | TASK_FAILED
  | TASK_CANCELLED | TEAM_ACTIVATED | TEAM_IDLE | AGENT_ASSIGNED | AGENT_STARTED
  | AGENT_STATUS_CHANGED | AGENT_COMPLETED | AGENT_FAILED | REVIEW_REQUESTED | REVIEW_STARTED
  | REVIEW_COMPLETED | QA_REQUESTED | QA_STARTED | QA_COMPLETED | ARTIFACT_CREATED
  | ARTIFACT_TRANSFERRED | PROJECT_TASK_ROUTED

fun event_type_value :: "event_type \<Rightarrow> string" where
  "event_type_value TASK_CREATED = ''task.created''"
| "event_type_value TASK_QUEUED = ''task.queued''"
| "event_type_value TASK_STARTED = ''task.started''"
| "event_type_value TASK_BLOCKED = ''task.blocked''"
| "event_type_value TASK_COMPLETED = ''task.completed''"
| "event_type_value TASK_FAILED = ''task.failed''"
| "event_type_value TASK_CANCELLED = ''task.cancelled''"
| "event_type_value TEAM_ACTIVATED = ''team.activated''"
| "event_type_value TEAM_IDLE = ''team.idle''"
| "event_type_value AGENT_ASSIGNED = ''agent.assigned''"
| "event_type_value AGENT_STARTED = ''agent.started''"
| "event_type_value AGENT_STATUS_CHANGED = ''agent.status_changed''"
| "event_type_value AGENT_COMPLETED = ''agent.completed''"
| "event_type_value AGENT_FAILED = ''agent.failed''"
| "event_type_value REVIEW_REQUESTED = ''review.requested''"
| "event_type_value REVIEW_STARTED = ''review.started''"
| "event_type_value REVIEW_COMPLETED = ''review.completed''"
| "event_type_value QA_REQUESTED = ''qa.requested''"
| "event_type_value QA_STARTED = ''qa.started''"
| "event_type_value QA_COMPLETED = ''qa.completed''"
| "event_type_value ARTIFACT_CREATED = ''artifact.created''"
| "event_type_value ARTIFACT_TRANSFERRED = ''artifact.transferred''"
| "event_type_value PROJECT_TASK_ROUTED = ''project.task.routed''"

text \<open>\<open>self.event_type.value.split(".", maxsplit=1)[0]\<close>.\<close>

definition category :: "event_type \<Rightarrow> string" where
  "category ty = takeWhile (\<lambda>c. c \<noteq> CHR ''.'') (event_type_value ty)"

datatype event_level = DEBUG | INFO | WARNING | ERROR

section \<open>Forbidden payload keys\<close>

definition FORBIDDEN_PAYLOAD_KEYS :: "string list" where
  "FORBIDDEN_PAYLOAD_KEYS =
     [''access_token'', ''api_key'', ''apikey'', ''authorization'', ''authorization_header'',
      ''client_secret'', ''cookie'', ''credentials'', ''github_token'', ''openai_api_key'',
      ''password'', ''private_key'', ''refresh_token'', ''secret'', ''signing_secret'',
      ''slack_app_token'', ''slack_bot_token'', ''token'']"

definition payload_key_forbidden :: "string \<Rightarrow> bool" where
  "payload_key_forbidden key \<longleftrightarrow> key \<in> set FORBIDDEN_PAYLOAD_KEYS"

definition find_forbidden_payload_key :: "json \<Rightarrow> string option" where
  "find_forbidden_payload_key v = find_forbidden payload_key_forbidden v ''payload''"

section \<open>The envelope\<close>

record event =
  ev_schema :: int
  ev_id :: uuid
  ev_type :: event_type
  ev_time :: aware
  ev_task :: "string option"
  ev_project :: "string option"
  ev_team :: "string option"
  ev_agent :: "string option"
  ev_correlation :: "uuid option"
  ev_causation :: "uuid option"
  ev_level :: event_level
  ev_message :: "string option"
  ev_payload :: json_object

text \<open>The validator \<open>validate_context\<close>, in the order of its checks.\<close>

definition validate_context :: "event \<Rightarrow> value_error + event" where
  "validate_context e =
     (let cat = category (ev_type e) in
      and_then (require (\<not> (cat \<in> {''task'', ''review'', ''qa'', ''artifact''} \<and> ev_task e = None))
        MissingTaskId) (\<lambda>_.
      and_then (require (\<not> (cat = ''team'' \<and> ev_team e = None)) MissingTeam) (\<lambda>_.
      and_then (require (\<not> (cat = ''agent'' \<and> ev_agent e = None)) MissingAgent) (\<lambda>_.
      and_then (require (\<not> (ev_type e = PROJECT_TASK_ROUTED \<and>
          (ev_task e = None \<or> ev_project e = None \<or> ev_team e = None))) MissingRouting) (\<lambda>_.
      and_then (require (ev_causation e \<noteq> Some (ev_id e)) SelfCausation) (\<lambda>_.
      case find_forbidden_payload_key (JObj (ev_payload e)) of
        Some key \<Rightarrow> Inl (SecretPayloadField key)
      | None \<Rightarrow> Inr e))))))"

definition Event_validate :: "event \<Rightarrow> value_error + event" where
  "Event_validate e =
     and_then (require (ev_schema e = 1) InvalidField) (\<lambda>_.
     and_then (checked_opt TaskId (ev_task e)) (\<lambda>i.
     and_then (checked_opt Identifier (ev_project e)) (\<lambda>proj.
     and_then (checked_opt Identifier (ev_team e)) (\<lambda>team.
     and_then (checked_opt Identifier (ev_agent e)) (\<lambda>agent.
     and_then (checked_opt EventMessage (ev_message e)) (\<lambda>msg.
     validate_context
       (e\<lparr>ev_task := i, ev_project := proj, ev_team := team, ev_agent := agent,
          ev_message := msg\<rparr>)))))))"

text \<open>An event that the program holds is validated, and its payload is a real dictionary.\<close>

definition valid_event :: "event \<Rightarrow> bool" where
  "valid_event e \<longleftrightarrow> Event_validate e = Inr e \<and> json_wf (JObj (ev_payload e))"

definition payload_status :: "event \<Rightarrow> string option" where
  "payload_status e =
     (case map_of (ev_payload e) ''status'' of Some (JStr s) \<Rightarrow> Some s | _ \<Rightarrow> None)"

definition canonical_event :: "event \<Rightarrow> event" where
  "canonical_event e = e\<lparr>ev_payload := canonical_object (ev_payload e)\<rparr>"

definition context_ok :: "event \<Rightarrow> bool" where
  "context_ok e \<longleftrightarrow>
     (category (ev_type e) \<in> {''task'', ''review'', ''qa'', ''artifact''} \<longrightarrow> ev_task e \<noteq> None) \<and>
     (category (ev_type e) = ''team'' \<longrightarrow> ev_team e \<noteq> None) \<and>
     (category (ev_type e) = ''agent'' \<longrightarrow> ev_agent e \<noteq> None) \<and>
     (ev_type e = PROJECT_TASK_ROUTED \<longrightarrow>
        ev_task e \<noteq> None \<and> ev_project e \<noteq> None \<and> ev_team e \<noteq> None) \<and>
     ev_causation e \<noteq> Some (ev_id e) \<and>
     keys_allowed payload_key_forbidden (JObj (ev_payload e))"

definition event_fields_clean :: "event \<Rightarrow> bool" where
  "event_fields_clean e \<longleftrightarrow>
     ev_schema e = 1 \<and> clean_opt TaskId (ev_task e) \<and> clean_opt Identifier (ev_project e) \<and>
     clean_opt Identifier (ev_team e) \<and> clean_opt Identifier (ev_agent e) \<and>
     clean_opt EventMessage (ev_message e)"

lemma payload_check_Ok:
  "(case find_forbidden_payload_key v of Some key \<Rightarrow> Inl (SecretPayloadField key) | None \<Rightarrow> Inr e) =
     Inr e' \<longleftrightarrow> e' = e \<and> keys_allowed payload_key_forbidden v"
  using find_forbidden_None(1) [of payload_key_forbidden v "''payload''"]
  by (cases "find_forbidden_payload_key v") (auto simp: find_forbidden_payload_key_def)

lemma validate_context_Ok [result_simps]: "validate_context e = Inr e' \<longleftrightarrow> e' = e \<and> context_ok e"
  unfolding validate_context_def Let_def and_then_Ok require_Ok payload_check_Ok context_ok_def simp_thms
  by argo

lemma Event_validate_Ok:
  "Event_validate e = Inr e' \<Longrightarrow> event_fields_clean e' \<and> context_ok e'"
  by (auto simp: Event_validate_def result_simps event_fields_clean_def dest: checked_opt_clean)

lemma valid_event_iff:
  "valid_event e \<longleftrightarrow> event_fields_clean e \<and> context_ok e \<and> json_wf (JObj (ev_payload e))"
  by (auto simp: valid_event_def Event_validate_Ok)
    (simp add: Event_validate_def event_fields_clean_def validate_context_Ok)

lemma canonical_event_simps [simp]:
  "ev_schema (canonical_event e) = ev_schema e" "ev_id (canonical_event e) = ev_id e"
  "ev_type (canonical_event e) = ev_type e" "ev_time (canonical_event e) = ev_time e"
  "ev_task (canonical_event e) = ev_task e" "ev_project (canonical_event e) = ev_project e"
  "ev_team (canonical_event e) = ev_team e" "ev_agent (canonical_event e) = ev_agent e"
  "ev_correlation (canonical_event e) = ev_correlation e"
  "ev_causation (canonical_event e) = ev_causation e"
  "ev_level (canonical_event e) = ev_level e" "ev_message (canonical_event e) = ev_message e"
  "ev_payload (canonical_event e) = canonical_object (ev_payload e)"
  by (simp_all add: canonical_event_def)

lemma canonical_event_idem [simp]: "canonical_event (canonical_event e) = canonical_event e"
  by (simp add: canonical_event_def)

lemma payload_status_Some:
  "payload_status e = Some s \<longleftrightarrow> map_of (ev_payload e) ''status'' = Some (JStr s)"
  by (auto simp: payload_status_def split: option.splits json.splits)

lemma valid_event_canonical: "valid_event e \<Longrightarrow> valid_event (canonical_event e)"
  using json_wf_canonical [of "JObj (ev_payload e)", unfolded canonical_JObj]
  by (simp add: valid_event_iff event_fields_clean_def context_ok_def keys_allowed_canonical_object
      del: keys_allowed.simps json_wf.simps)

lemma payload_status_canonical:
  "valid_event e \<Longrightarrow> payload_status (canonical_event e) = payload_status e"
proof -
  assume "valid_event e"
  then have "distinct (map fst (ev_payload e))" by (simp add: valid_event_iff)
  then have "payload_status (canonical_event e) = Some s \<longleftrightarrow> payload_status e = Some s" for s
    by (simp add: payload_status_Some canonical_object_get_text)
  then show ?thesis by (cases "payload_status e") (auto simp: option.expand)
qed

end
