(* ===== verification/Paths.thy ===== *)
theory Paths
  imports Validation
begin

text \<open>
  Python's string searches and \<open>PurePosixPath\<close>, as the validators use them: splitting and
  joining, \<open>in\<close>, \<open>startswith\<close>, \<open>endswith\<close>, the root and the parts of a path, and \<open>as_posix\<close>.
\<close>

fun split_on :: "char \<Rightarrow> string \<Rightarrow> string list" where
  "split_on sep [] = [[]]"
| "split_on sep (c # cs) =
     (if c = sep then [] # split_on sep cs
      else case split_on sep cs of [] \<Rightarrow> [[c]] | w # ws \<Rightarrow> (c # w) # ws)"

fun join :: "string \<Rightarrow> string list \<Rightarrow> string" where
  "join sep [] = []"
| "join sep [w] = w"
| "join sep (w # v # ws) = w @ sep @ join sep (v # ws)"

definition startswith :: "string \<Rightarrow> string \<Rightarrow> bool" where
  "startswith p s \<longleftrightarrow> take (length p) s = p"

definition endswith :: "string \<Rightarrow> string \<Rightarrow> bool" where
  "endswith p s \<longleftrightarrow> startswith (rev p) (rev s)"

text \<open>\<open>sub in s\<close>.\<close>

fun contains :: "string \<Rightarrow> string \<Rightarrow> bool" where
  "contains sub [] \<longleftrightarrow> sub = []"
| "contains sub (c # cs) \<longleftrightarrow> startswith sub (c # cs) \<or> contains sub cs"

lemma split_on_not_Nil [simp]: "split_on sep s \<noteq> []"
  by (cases s) (auto split: list.splits)

lemma split_on_no_sep: "sep \<notin> set s \<Longrightarrow> split_on sep s = [s]"
  by (induction s) auto

lemma split_on_append:
  "sep \<notin> set w \<Longrightarrow> split_on sep (w @ sep # s) = w # split_on sep s"
  by (induction w) auto

lemma split_on_pieces: "w \<in> set (split_on sep s) \<Longrightarrow> sep \<notin> set w"
proof (induction s arbitrary: w)
  case (Cons c cs)
  then show ?case by (cases "split_on sep cs") (auto split: if_splits)
qed simp

lemma split_on_join:
  assumes "ws \<noteq> []" "\<And>w. w \<in> set ws \<Longrightarrow> sep \<notin> set w"
  shows "split_on sep (join [sep] ws) = ws"
  using assms
proof (induction "[sep]" ws rule: join.induct)
  case (2 w)
  then show ?case by (simp add: split_on_no_sep)
next
  case (3 w v ws)
  then show ?case by (simp add: split_on_append)
qed simp

section \<open>\<open>PurePosixPath\<close>\<close>

abbreviation slash :: char where "slash \<equiv> CHR ''/''"

definition is_absolute :: "string \<Rightarrow> bool" where
  "is_absolute s \<longleftrightarrow> startswith ''/'' s"

text \<open>The components of the path, without empty ones and single dots; the root is kept apart.\<close>

definition path_components :: "string \<Rightarrow> string list" where
  "path_components s = filter (\<lambda>w. w \<noteq> [] \<and> w \<noteq> ''.'') (split_on slash s)"

definition path_root :: "string \<Rightarrow> string" where
  "path_root s =
     (if startswith ''//'' s \<and> \<not> startswith ''///'' s then ''//''
      else if is_absolute s then ''/'' else [])"

definition path_parts :: "string \<Rightarrow> string list" where
  "path_parts s = (if path_root s = [] then [] else [path_root s]) @ path_components s"

definition as_posix :: "string \<Rightarrow> string" where
  "as_posix s =
     (if path_root s = [] \<and> path_components s = [] then ''.''
      else path_root s @ join ''/'' (path_components s))"

text \<open>
  The check that artifact paths and configured paths share: no backslash, relative, not empty or
  \<open>.\<close> as written, no \<open>..\<close> component. It returns the normalised path.
\<close>

definition safe_relative_path :: "string \<Rightarrow> string option" where
  "safe_relative_path value =
     (if CHR 0x5C \<in> set value then None
      else if is_absolute value \<or> value = [] \<or> value = ''.'' \<or> ''..'' \<in> set (path_parts value)
      then None
      else Some (as_posix value))"

lemma path_component_props:
  "w \<in> set (path_components s) \<Longrightarrow> w \<noteq> [] \<and> w \<noteq> ''.'' \<and> slash \<notin> set w"
  by (auto simp: path_components_def dest: split_on_pieces)

lemma relative_root: "\<not> is_absolute s \<Longrightarrow> path_root s = []"
  by (cases s) (auto simp: path_root_def is_absolute_def startswith_def)

lemma path_components_join:
  assumes "ws \<noteq> []" "\<And>w. w \<in> set ws \<Longrightarrow> w \<noteq> [] \<and> w \<noteq> ''.'' \<and> slash \<notin> set w"
  shows "path_components (join ''/'' ws) = ws"
  using assms by (simp add: path_components_def split_on_join)

lemma join_head:
  "ws \<noteq> [] \<Longrightarrow> hd ws \<noteq> [] \<Longrightarrow> join sep ws \<noteq> [] \<and> hd (join sep ws) = hd (hd ws)"
  by (induction sep ws rule: join.induct) auto

lemma set_join: "set (join sep ws) \<subseteq> \<Union> (set ` set ws) \<union> set sep"
  by (induction sep ws rule: join.induct) auto

lemma set_split_on: "w \<in> set (split_on sep s) \<Longrightarrow> set w \<subseteq> set s"
proof (induction s arbitrary: w)
  case (Cons c cs)
  then show ?case by (cases "split_on sep cs") (fastforce split: if_splits)+
qed simp

lemma join_not_absolute:
  assumes "ws \<noteq> []" "\<And>w. w \<in> set ws \<Longrightarrow> w \<noteq> [] \<and> slash \<notin> set w"
  shows "\<not> is_absolute (join ''/'' ws)"
proof -
  have "hd ws \<noteq> []" "slash \<notin> set (hd ws)" using assms by simp_all
  then have "join ''/'' ws \<noteq> []" "hd (join ''/'' ws) \<noteq> slash"
    using join_head [OF assms(1), of "''/''"] by (auto dest: hd_in_set)
  then show ?thesis by (cases "join ''/'' ws") (auto simp: is_absolute_def startswith_def)
qed

text \<open>
  A path with at least one component normalises to a fixed point of the check. (A path like
  \<open>./\<close>, with none, is accepted and normalises to \<open>.\<close>, which the check rejects.)
\<close>

lemma safe_relative_path_stable:
  assumes "safe_relative_path s = Some p" "path_components s \<noteq> []"
  shows "safe_relative_path p = Some p"
proof -
  from assms(1) have rel: "\<not> is_absolute s" and bs: "CHR 0x5C \<notin> set s"
    and dots: "''..'' \<notin> set (path_parts s)" and p: "p = as_posix s"
    by (auto simp: safe_relative_path_def split: if_splits)
  let ?ws = "path_components s"
  have pj: "p = join ''/'' ?ws" using p rel assms(2) by (simp add: as_posix_def relative_root)
  have parts: "path_components p = ?ws"
    using assms(2) path_component_props by (simp add: pj path_components_join)
  have "\<not> is_absolute p"
    using join_not_absolute [OF assms(2)] path_component_props pj by blast
  moreover have "p \<noteq> ''.'' \<and> p \<noteq> []"
    using parts assms(2) by (auto simp: path_components_def)
  moreover have "CHR 0x5C \<notin> set p"
  proof
    assume "CHR 0x5C \<in> set p"
    then obtain w where "w \<in> set ?ws" "CHR 0x5C \<in> set w"
      using set_join [of "''/''" ?ws] by (auto simp: pj)
    then show False using bs set_split_on [of w slash s] by (auto simp: path_components_def)
  qed
  moreover have "as_posix p = p"
    using \<open>\<not> is_absolute p\<close> parts assms(2) by (simp add: as_posix_def relative_root pj)
  ultimately show ?thesis
    using parts dots rel by (simp add: safe_relative_path_def path_parts_def relative_root)
qed

end
