(* ===== verification/StoreModels.thy ===== *)
theory StoreModels
  imports Events Paths
begin

text \<open>
  \<open>storage/models.py\<close>: the records the store keeps beside tasks and events, with their pydantic
  validation. For each model \<open>M\<close>, \<open>M_validate\<close> is its constructor; what it returns is the
  validated instance. The lemmas say what an instance satisfies and when validating it again
  returns it unchanged, which is what reading it back from the database does.
\<close>

section \<open>Secret-shaped keys and values\<close>

definition FORBIDDEN_RESPONSE_KEYS :: "string list" where
  "FORBIDDEN_RESPONSE_KEYS =
     [''access_token'', ''api_key'', ''apikey'', ''authorization'', ''client_secret'', ''cookie'',
      ''credentials'', ''password'', ''private_key'', ''refresh_token'', ''secret'', ''token'']"

definition FORBIDDEN_RESPONSE_SUFFIXES :: "string list" where
  "FORBIDDEN_RESPONSE_SUFFIXES =
     [''_password'', ''_secret'', ''_token'', ''_api_key'', ''_private_key'']"

definition response_key_forbidden :: "string \<Rightarrow> bool" where
  "response_key_forbidden key \<longleftrightarrow>
     key \<in> set FORBIDDEN_RESPONSE_KEYS \<or> list_ex (\<lambda>suffix. endswith suffix key) FORBIDDEN_RESPONSE_SUFFIXES"

definition find_forbidden_key :: "json \<Rightarrow> string option" where
  "find_forbidden_key v = find_forbidden response_key_forbidden v ''response''"

definition secret_shaped :: "string \<Rightarrow> bool" where
  "secret_shaped value \<longleftrightarrow>
     list_ex (\<lambda>p. startswith p (lower value))
       [''sk-'', ''xapp-'', ''xoxa-'', ''xoxb-'', ''xoxp-'', ''xoxr-'', ''xoxs-''] \<or>
     list_ex (\<lambda>marker. contains marker (lower value))
       [''api_key'', ''apikey'', ''password'', ''private_key'', ''secret='', ''token='']"

definition reject_secret_shaped_value :: "string \<Rightarrow> value_error + string" where
  "reject_secret_shaped_value value =
     (if secret_shaped value then Inl SecretShapedValue else Inr value)"

lemma reject_secret_Ok [result_simps]:
  "reject_secret_shaped_value v = Inr w \<longleftrightarrow> w = v \<and> \<not> secret_shaped v"
  by (auto simp: reject_secret_shaped_value_def)

section \<open>Runs\<close>

datatype run_status =
  RunQueued | RunRunning | RunSucceeded | RunFailed | RunTimedOut | RunCancelled | RunInterrupted

definition run_terminal :: "run_status \<Rightarrow> bool" where
  "run_terminal s \<longleftrightarrow> s \<notin> {RunQueued, RunRunning}"

record run_record =
  run_id :: string
  run_task :: string
  run_agent :: string
  run_runtime :: string
  run_status :: run_status
  run_created :: aware
  run_started :: "aware option"
  run_completed :: "aware option"
  run_exit_code :: "int option"
  run_error_code :: "string option"

definition validate_lifecycle :: "run_record \<Rightarrow> value_error + run_record" where
  "validate_lifecycle r =
     and_then (require (opt_all (\<lambda>s. \<not> aware_less s (run_created r)) (run_started r))
        StartedBeforeCreated) (\<lambda>_.
     and_then
       (if run_status r = RunQueued then
          require (\<not> (run_started r \<noteq> None \<or> run_completed r \<noteq> None)) QueuedRunTimestamps
        else if run_status r = RunRunning then
          require (\<not> (run_started r = None \<or> run_completed r \<noteq> None)) RunningRunTimestamps
        else require (\<not> (run_started r = None \<or> run_completed r = None)) TerminalRunTimestamps) (\<lambda>_.
     and_then
       (require (opt_all (\<lambda>c. opt_all (\<lambda>s. \<not> aware_less c s) (run_started r)) (run_completed r))
          CompletedBeforeStarted) (\<lambda>_.
     and_then (require (\<not> (run_status r = RunSucceeded \<and> run_error_code r \<noteq> None))
        SuccessfulRunError) (\<lambda>_.
     Inr r))))"

definition RunRecord_validate :: "run_record \<Rightarrow> value_error + run_record" where
  "RunRecord_validate r =
     and_then (checked RunId (run_id r)) (\<lambda>i.
     and_then (checked TaskId (run_task r)) (\<lambda>t.
     and_then (checked Identifier (run_agent r)) (\<lambda>a.
     and_then (checked Identifier (run_runtime r)) (\<lambda>rt.
     and_then (checked_opt Identifier (run_error_code r)) (\<lambda>e.
     validate_lifecycle
       (r\<lparr>run_id := i, run_task := t, run_agent := a, run_runtime := rt, run_error_code := e\<rparr>))))))"

definition valid_run :: "run_record \<Rightarrow> bool" where
  "valid_run r \<longleftrightarrow> RunRecord_validate r = Inr r"

definition run_lifecycle_ok :: "run_record \<Rightarrow> bool" where
  "run_lifecycle_ok r \<longleftrightarrow>
     opt_all (\<lambda>s. utc (run_created r) \<le> utc s) (run_started r) \<and>
     opt_all (\<lambda>c. opt_all (\<lambda>s. utc s \<le> utc c) (run_started r)) (run_completed r) \<and>
     (run_started r = None \<longleftrightarrow> run_status r = RunQueued) \<and>
     (run_completed r \<noteq> None \<longleftrightarrow> run_terminal (run_status r)) \<and>
     (run_status r = RunSucceeded \<longrightarrow> run_error_code r = None)"

definition run_fields_clean :: "run_record \<Rightarrow> bool" where
  "run_fields_clean r \<longleftrightarrow>
     clean RunId (run_id r) \<and> clean TaskId (run_task r) \<and> clean Identifier (run_agent r) \<and>
     clean Identifier (run_runtime r) \<and> clean_opt Identifier (run_error_code r)"

lemma validate_lifecycle_Ok [result_simps]:
  "validate_lifecycle r = Inr r' \<longleftrightarrow> r' = r \<and> run_lifecycle_ok r"
  by (cases "run_status r")
    (auto simp: validate_lifecycle_def run_lifecycle_ok_def run_terminal_def result_simps
      aware_less_def opt_all_iff)

lemma RunRecord_validate_Ok:
  "RunRecord_validate r = Inr r' \<Longrightarrow> run_fields_clean r' \<and> run_lifecycle_ok r'"
  by (auto simp: RunRecord_validate_def result_simps run_fields_clean_def clean_iff
      dest: checked_opt_clean)

lemma valid_run_iff: "valid_run r \<longleftrightarrow> run_fields_clean r \<and> run_lifecycle_ok r"
  by (auto simp: valid_run_def RunRecord_validate_Ok)
    (simp add: RunRecord_validate_def run_fields_clean_def validate_lifecycle_Ok)

text \<open>Validating a changed copy of a run whose identity is clean looks at the lifecycle only.\<close>

lemma RunRecord_validate_clean:
  "run_fields_clean r \<Longrightarrow> RunRecord_validate r = validate_lifecycle r"
  by (simp add: RunRecord_validate_def run_fields_clean_def)

lemma RunRecord_validate_valid: "RunRecord_validate r = Inr r' \<Longrightarrow> valid_run r'"
  by (simp add: valid_run_iff RunRecord_validate_Ok)

section \<open>Artifacts\<close>

record artifact =
  art_id :: string
  art_task :: string
  art_run :: "string option"
  art_kind :: string
  art_path :: string
  art_content_type :: string
  art_size :: int
  art_sha256 :: string
  art_created :: aware

definition validate_path :: "string \<Rightarrow> value_error + string" where
  "validate_path value =
     (case safe_relative_path value of None \<Rightarrow> Inl UnsafeArtifactPath | Some p \<Rightarrow> Inr p)"

definition Artifact_validate :: "artifact \<Rightarrow> value_error + artifact" where
  "Artifact_validate a =
     and_then (checked ArtifactId (art_id a)) (\<lambda>i.
     and_then (checked TaskId (art_task a)) (\<lambda>t.
     and_then (checked_opt RunId (art_run a)) (\<lambda>r.
     and_then (checked Identifier (art_kind a)) (\<lambda>k.
     and_then (validate_path (art_path a)) (\<lambda>p.
     and_then (checked ContentType (art_content_type a)) (\<lambda>c.
     and_then (require (0 \<le> art_size a) InvalidField) (\<lambda>_.
     and_then (require (meets Sha256 (art_sha256 a)) InvalidField) (\<lambda>_.
     Inr (a\<lparr>art_id := i, art_task := t, art_run := r, art_kind := k, art_path := p,
            art_content_type := c\<rparr>)))))))))"

definition valid_artifact :: "artifact \<Rightarrow> bool" where
  "valid_artifact a \<longleftrightarrow> Artifact_validate a = Inr a"

lemma validate_path_Ok [result_simps]: "validate_path v = Inr p \<longleftrightarrow> safe_relative_path v = Some p"
  by (auto simp: validate_path_def split: option.splits)

text \<open>An artifact whose path has a component is read back as it was written.\<close>

lemma Artifact_validate_valid:
  assumes "Artifact_validate a = Inr a'" "path_components (art_path a) \<noteq> []"
  shows "valid_artifact a'"
proof -
  from assms(1) have parts: "checked ArtifactId (art_id a) = Inr (art_id a')"
    "checked TaskId (art_task a) = Inr (art_task a')"
    "checked_opt RunId (art_run a) = Inr (art_run a')"
    "checked Identifier (art_kind a) = Inr (art_kind a')"
    "safe_relative_path (art_path a) = Some (art_path a')"
    "checked ContentType (art_content_type a) = Inr (art_content_type a')"
    and same: "art_size a' = art_size a" "art_sha256 a' = art_sha256 a"
    and rest: "0 \<le> art_size a" "meets Sha256 (art_sha256 a)"
    by (auto simp: Artifact_validate_def and_then_Ok require_Ok validate_path_Ok)
  have "clean ArtifactId (art_id a')" "clean TaskId (art_task a')" "clean_opt RunId (art_run a')"
    "clean Identifier (art_kind a')" "clean ContentType (art_content_type a')"
    using parts by (auto dest: checked_clean checked_opt_clean)
  moreover have "validate_path (art_path a') = Inr (art_path a')"
    using safe_relative_path_stable [OF parts(5) assms(2)] by (simp add: validate_path_Ok)
  ultimately show ?thesis
    using same rest by (simp add: valid_artifact_def Artifact_validate_def)
qed

section \<open>Gateway requests, routes and delivery receipts\<close>

record request_record =
  req_key :: string
  req_response :: "json_object option"
  req_created :: aware

definition reject_secret_response_fields :: "json_object option \<Rightarrow> value_error + json_object option" where
  "reject_secret_response_fields value =
     (case value of None \<Rightarrow> Inr None
      | Some doc \<Rightarrow> (case find_forbidden_key (JObj doc) of
          Some forbidden \<Rightarrow> Inl (SecretResponseField forbidden) | None \<Rightarrow> Inr (Some doc)))"

definition GatewayRequestRecord_validate :: "request_record \<Rightarrow> value_error + request_record" where
  "GatewayRequestRecord_validate r =
     and_then (checked IdempotencyKey (req_key r)) (\<lambda>k.
     and_then (reject_secret_response_fields (req_response r)) (\<lambda>d.
     Inr (r\<lparr>req_key := k, req_response := d\<rparr>)))"

record task_route =
  route_task :: string
  route_source :: string
  route_target :: string

definition TaskRoute_validate :: "task_route \<Rightarrow> value_error + task_route" where
  "TaskRoute_validate r =
     and_then (checked TaskId (route_task r)) (\<lambda>t.
     and_then (and_then (checked OpaqueRouteValue (route_source r)) reject_secret_shaped_value) (\<lambda>s.
     and_then (and_then (checked OpaqueRouteValue (route_target r)) reject_secret_shaped_value) (\<lambda>g.
     Inr \<lparr>route_task = t, route_source = s, route_target = g\<rparr>)))"

definition valid_route :: "task_route \<Rightarrow> bool" where
  "valid_route r \<longleftrightarrow> TaskRoute_validate r = Inr r"

datatype delivery_state = RESERVED | DELIVERED

record receipt =
  rc_id :: string
  rc_state :: delivery_state
  rc_created :: aware
  rc_delivered :: "aware option"

definition validate_delivery_state :: "receipt \<Rightarrow> value_error + receipt" where
  "validate_delivery_state r =
     and_then (require (\<not> (rc_state r = RESERVED \<and> rc_delivered r \<noteq> None))
        ReservedWithDelivery) (\<lambda>_.
     and_then (require (\<not> (rc_state r = DELIVERED \<and> rc_delivered r = None))
        DeliveredWithoutTime) (\<lambda>_.
     and_then (require (opt_all (\<lambda>d. \<not> aware_less d (rc_created r)) (rc_delivered r))
        DeliveredBeforeCreated) (\<lambda>_.
     Inr r)))"

definition DeliveryReceipt_validate :: "receipt \<Rightarrow> value_error + receipt" where
  "DeliveryReceipt_validate r =
     and_then (and_then (checked OpaqueRouteValue (rc_id r)) reject_secret_shaped_value) (\<lambda>i.
     validate_delivery_state (r\<lparr>rc_id := i\<rparr>))"

definition valid_receipt :: "receipt \<Rightarrow> bool" where
  "valid_receipt r \<longleftrightarrow> DeliveryReceipt_validate r = Inr r"

definition receipt_state_ok :: "receipt \<Rightarrow> bool" where
  "receipt_state_ok r \<longleftrightarrow>
     (rc_state r = DELIVERED \<longleftrightarrow> rc_delivered r \<noteq> None) \<and>
     opt_all (\<lambda>d. utc (rc_created r) \<le> utc d) (rc_delivered r)"

text \<open>A key that may name a delivery: \<open>DeliveryReceipt(delivery_id=...).delivery_id\<close>.\<close>

definition delivery_key :: "string \<Rightarrow> value_error + string" where
  "delivery_key i = and_then (checked OpaqueRouteValue i) reject_secret_shaped_value"

text \<open>A key that may name a gateway request: \<open>GatewayRequestRecord(idempotency_key=...)\<close>.\<close>

definition request_key :: "string \<Rightarrow> value_error + string" where
  "request_key k = checked IdempotencyKey k"

definition clean_delivery_key :: "string \<Rightarrow> bool" where
  "clean_delivery_key i \<longleftrightarrow> clean OpaqueRouteValue i \<and> \<not> secret_shaped i"

lemma delivery_key_Ok: "delivery_key i = Inr k \<longleftrightarrow> k = strip i \<and> clean_delivery_key k"
  by (auto simp: delivery_key_def clean_delivery_key_def clean_iff result_simps)

lemma clean_delivery_key_id [simp]: "clean_delivery_key k \<Longrightarrow> delivery_key k = Inr k"
  by (simp add: delivery_key_Ok clean_delivery_key_def clean_iff)

lemma validate_delivery_state_Ok [result_simps]:
  "validate_delivery_state r = Inr r' \<longleftrightarrow> r' = r \<and> receipt_state_ok r"
  by (cases "rc_state r")
    (auto simp: validate_delivery_state_def receipt_state_ok_def result_simps aware_less_def
      opt_all_iff)

lemma valid_receipt_iff: "valid_receipt r \<longleftrightarrow> clean_delivery_key (rc_id r) \<and> receipt_state_ok r"
proof
  assume "valid_receipt r"
  then show "clean_delivery_key (rc_id r) \<and> receipt_state_ok r"
    by (auto simp: valid_receipt_def DeliveryReceipt_validate_def delivery_key_def [symmetric]
        and_then_Ok [of "delivery_key _"] delivery_key_Ok validate_delivery_state_Ok)
      (metis receipt.select_convs(1) receipt.surjective receipt.update_convs(1))+
next
  assume "clean_delivery_key (rc_id r) \<and> receipt_state_ok r"
  then show "valid_receipt r"
    by (simp add: valid_receipt_def DeliveryReceipt_validate_def delivery_key_def [symmetric]
        validate_delivery_state_Ok)
qed

definition clean_route_value :: "string \<Rightarrow> bool" where
  "clean_route_value v \<longleftrightarrow> clean OpaqueRouteValue v \<and> \<not> secret_shaped v"

lemma TaskRoute_validate_Ok:
  "TaskRoute_validate r = Inr r' \<Longrightarrow>
     clean TaskId (route_task r') \<and> clean_route_value (route_source r') \<and>
     clean_route_value (route_target r')"
  by (auto simp: TaskRoute_validate_def result_simps clean_route_value_def clean_iff)

lemma valid_route_iff:
  "valid_route r \<longleftrightarrow>
     clean TaskId (route_task r) \<and> clean_route_value (route_source r) \<and>
     clean_route_value (route_target r)"
  by (auto simp: valid_route_def TaskRoute_validate_Ok)
    (simp add: TaskRoute_validate_def clean_route_value_def reject_secret_shaped_value_def)

end
