(* ===== verification/Database.thy ===== *)
theory Database
  imports StoreModels
begin

text \<open>
  The tables of \<open>storage/migrations.py\<close> and the plumbing of \<open>storage/sqlite.py\<close>: rows, the primitive
  writes with the constraints the schema declares, \<open>_transaction\<close> with its rollback, and
  \<open>_execute\<close> for reads. A text column that holds \<open>isoformat()\<close> keeps the time itself (\<open>ORDER BY\<close>
  renders it), and a JSON column keeps the canonical record. The database lives in a \<open>store\<close>
  together with the handle's \<open>_closed\<close> flag and what the SQLite engine currently answers:
  \<open>st_fault\<close> to any statement, \<open>st_commit_fault\<close> to a commit. The store serialises its operations
  with a lock, so each of them is one step.
\<close>

section \<open>Rows\<close>

record task_row =
  tk_id :: string
  tk_status :: task_status
  tk_project :: string
  tk_team :: string
  tk_created :: aware
  tk_updated :: aware
  tk_version :: nat
  tk_json :: task

record event_row =
  er_seq :: nat
  er_id :: uuid
  er_schema :: int
  er_type :: event_type
  er_time :: aware
  er_task :: "string option"
  er_project :: "string option"
  er_team :: "string option"
  er_agent :: "string option"
  er_correlation :: "uuid option"
  er_causation :: "uuid option"
  er_json :: event

record run_row =
  rr_id :: string
  rr_task :: string
  rr_status :: run_status
  rr_created :: aware
  rr_started :: "aware option"
  rr_completed :: "aware option"
  rr_json :: run_record

record artifact_row =
  ar_id :: string
  ar_task :: string
  ar_run :: "string option"
  ar_created :: aware
  ar_json :: artifact

record request_row =
  gq_key :: string
  gq_response :: "json_object option"
  gq_created :: aware

text \<open>The tables \<open>task_routes\<close> and \<open>delivery_receipts\<close> have the columns of their models.\<close>

record db =
  db_tasks :: "task_row list"
  db_events :: "event_row list"
  db_event_seq :: nat
  db_runs :: "run_row list"
  db_artifacts :: "artifact_row list"
  db_requests :: "request_row list"
  db_routes :: "task_route list"
  db_receipts :: "receipt list"

definition empty_db :: db where
  "empty_db = \<lparr>db_tasks = [], db_events = [], db_event_seq = 0, db_runs = [], db_artifacts = [],
               db_requests = [], db_routes = [], db_receipts = []\<rparr>"

type_synonym 'a db_act = "(db, py_error, 'a) act"

section \<open>Primitive statements\<close>

text \<open>An \<open>INSERT\<close> whose constraints fail raises \<open>sqlite3.IntegrityError\<close> and changes nothing.\<close>

definition constrained :: "bool \<Rightarrow> (db \<Rightarrow> db) \<Rightarrow> unit db_act" where
  "constrained ok write d = (if ok then (Inr (), write d) else (Inl (SqliteError integrity_error), d))"

definition select_task :: "string \<Rightarrow> task_row option db_act" where
  "select_task i = act_get (\<lambda>d. row_of tk_id i (db_tasks d))"

definition insert_task :: "task_row \<Rightarrow> unit db_act" where
  "insert_task r d =
     constrained (tk_id r \<notin> keys tk_id (db_tasks d)) (db_tasks_update (insert_row r)) d"

definition new_task_row :: "task \<Rightarrow> aware \<Rightarrow> task_row" where
  "new_task_row t at =
     \<lparr>tk_id = t_id t, tk_status = t_status t, tk_project = t_project t, tk_team = t_team t,
      tk_created = t_created t, tk_updated = at, tk_version = 1, tk_json = t\<rparr>"

text \<open>\<open>UPDATE tasks SET ... WHERE task_id = ? AND version = ?\<close>.\<close>

definition update_task :: "string \<Rightarrow> nat \<Rightarrow> (task_row \<Rightarrow> task_row) \<Rightarrow> unit db_act" where
  "update_task i v f =
     act_modify (db_tasks_update (update_rows (\<lambda>r. tk_id r = i \<and> tk_version r = v) f))"

definition event_row_of :: "nat \<Rightarrow> event \<Rightarrow> event_row" where
  "event_row_of n e =
     \<lparr>er_seq = n, er_id = ev_id e, er_schema = ev_schema e, er_type = ev_type e,
      er_time = ev_time e, er_task = ev_task e, er_project = ev_project e, er_team = ev_team e,
      er_agent = ev_agent e, er_correlation = ev_correlation e, er_causation = ev_causation e,
      er_json = canonical_event e\<rparr>"

definition add_event :: "event \<Rightarrow> db \<Rightarrow> db" where
  "add_event e d =
     d\<lparr>db_events := insert_row (event_row_of (Suc (db_event_seq d)) e) (db_events d),
       db_event_seq := Suc (db_event_seq d)\<rparr>"

definition insert_event :: "event \<Rightarrow> unit db_act" where
  "insert_event e d =
     constrained (ev_id e \<notin> keys er_id (db_events d) \<and>
                  opt_all (\<lambda>t. t \<in> keys tk_id (db_tasks d)) (ev_task e))
       (add_event e) d"

definition event_json_locked :: "uuid \<Rightarrow> event option db_act" where
  "event_json_locked i = act_get (\<lambda>d. map_option er_json (row_of er_id i (db_events d)))"

definition append_event_locked :: "event \<Rightarrow> bool db_act" where
  "append_event_locked e =
     act_bind (event_json_locked (ev_id e)) (\<lambda>existing.
     case existing of
       Some existing_json \<Rightarrow>
         if existing_json = canonical_event e then act_return False
         else act_raise (StorageError IdempotencyConflictError)
     | None \<Rightarrow> act_bind (insert_event e) (\<lambda>_. act_return True))"

definition run_row_of :: "run_record \<Rightarrow> run_row" where
  "run_row_of r =
     \<lparr>rr_id = run_id r, rr_task = run_task r, rr_status = run_status r, rr_created = run_created r,
      rr_started = run_started r, rr_completed = run_completed r, rr_json = r\<rparr>"

text \<open>\<open>_write_run_locked\<close> with \<open>insert=True\<close> and without.\<close>

definition insert_run_locked :: "run_record \<Rightarrow> unit db_act" where
  "insert_run_locked r d =
     constrained (run_id r \<notin> keys rr_id (db_runs d) \<and> run_task r \<in> keys tk_id (db_tasks d))
       (db_runs_update (insert_row (run_row_of r))) d"

definition write_run_locked :: "run_record \<Rightarrow> unit db_act" where
  "write_run_locked r =
     act_modify (db_runs_update (update_rows (\<lambda>row. rr_id row = run_id r)
       (\<lambda>row. row\<lparr>rr_status := run_status r, rr_started := run_started r,
                  rr_completed := run_completed r, rr_json := r\<rparr>)))"

section \<open>Reading models back\<close>

text \<open>\<open>_decode_model\<close>: validation again, any failure being corrupted data.\<close>

definition decode_task :: "task \<Rightarrow> py_error + task" where
  "decode_task t = map_error (\<lambda>_. data_integrity) (Task_validate t)"

definition decode_event :: "event \<Rightarrow> py_error + event" where
  "decode_event e = map_error (\<lambda>_. data_integrity) (Event_validate e)"

definition decode_run :: "run_record \<Rightarrow> py_error + run_record" where
  "decode_run r = map_error (\<lambda>_. data_integrity) (RunRecord_validate r)"

definition decode_artifact :: "artifact \<Rightarrow> py_error + artifact" where
  "decode_artifact a = map_error (\<lambda>_. data_integrity) (Artifact_validate a)"

lemma decode_valid [simp]:
  "valid_task t \<Longrightarrow> decode_task t = Inr t" "valid_event e \<Longrightarrow> decode_event e = Inr e"
  "valid_run r \<Longrightarrow> decode_run r = Inr r" "valid_artifact a \<Longrightarrow> decode_artifact a = Inr a"
  by (simp_all add: decode_task_def valid_task_def decode_event_def valid_event_def
      decode_run_def valid_run_def decode_artifact_def valid_artifact_def)

section \<open>The store and its transactions\<close>

record store =
  st_db :: db
  st_closed :: bool
  st_fault :: "sqlite_error option"
  st_commit_fault :: "sqlite_error option"

type_synonym 'a store_act = "(store, py_error, 'a) act"

definition open_store :: "db \<Rightarrow> store" where
  "open_store d = \<lparr>st_db = d, st_closed = False, st_fault = None, st_commit_fault = None\<rparr>"

text \<open>\<open>_database_error\<close>: corruption by code or text, then busy or locked, then unavailable.\<close>

definition database_error :: "sqlite_error \<Rightarrow> storage_error" where
  "database_error e =
     (if se_code e \<in> {Some 11, Some 26} \<or> contains ''not a database'' (lower (se_text e))
      then StorageCorruptionError
      else if se_code e \<in> {Some 5, Some 6} then StorageBusyError
      else StorageUnavailableError)"

definition translate_sqlite :: "sqlite_error \<Rightarrow> py_error" where
  "translate_sqlite e = (if se_integrity e then data_integrity else StorageError (database_error e))"

text \<open>The \<open>except\<close> clauses of \<open>_transaction\<close>: storage errors and others pass, driver errors are mapped.\<close>

fun transaction_error :: "py_error \<Rightarrow> py_error" where
  "transaction_error (SqliteError e) = translate_sqlite e"
| "transaction_error err = err"

definition rollback :: "db \<Rightarrow> store \<Rightarrow> store" where
  "rollback saved s = s\<lparr>st_db := saved\<rparr>"

definition transaction :: "'a db_act \<Rightarrow> 'a store_act" where
  "transaction body s =
     (if st_closed s then (Inl (StorageError StorageUnavailableError), s)
      else case st_fault s of
        Some e \<Rightarrow> (Inl (translate_sqlite e), rollback (st_db s) s)
      | None \<Rightarrow>
          (case body (st_db s) of
            (Inl err, d) \<Rightarrow> (Inl (transaction_error err), rollback (st_db s) (s\<lparr>st_db := d\<rparr>))
          | (Inr x, d) \<Rightarrow>
              (case st_commit_fault s of
                Some e \<Rightarrow> (Inl (translate_sqlite e), rollback (st_db s) (s\<lparr>st_db := d\<rparr>))
              | None \<Rightarrow> (Inr x, s\<lparr>st_db := d\<rparr>))))"

text \<open>\<open>_ensure_open\<close> and \<open>_execute\<close> around a query.\<close>

definition read_store :: "(db \<Rightarrow> py_error + 'a) \<Rightarrow> store \<Rightarrow> py_error + 'a" where
  "read_store query s =
     (if st_closed s then Inl (StorageError StorageUnavailableError)
      else case st_fault s of Some e \<Rightarrow> Inl (translate_sqlite e) | None \<Rightarrow> query (st_db s))"

definition close_store :: "store \<Rightarrow> store" where
  "close_store s = s\<lparr>st_closed := True\<rparr>"

text \<open>\<open>_aware_time(value)\<close>; \<open>now\<close> is the clock.\<close>

definition aware_time :: "aware \<Rightarrow> pydatetime option \<Rightarrow> py_error + aware" where
  "aware_time now value =
     (case value of None \<Rightarrow> Inr now | Some (Aware t) \<Rightarrow> Inr t
      | Some (Naive _) \<Rightarrow> Inl (ValueError NaiveTimestamp))"

text \<open>\<open>not 1 <= limit <= bound\<close> raises \<open>ValueError\<close>.\<close>

definition check_limit :: "int \<Rightarrow> int \<Rightarrow> py_error + nat" where
  "check_limit bound limit =
     (if 1 \<le> limit \<and> limit \<le> bound then Inr (nat limit) else Inl (ValueError InvalidLimit))"

text \<open>A transaction that raises leaves the store as it was; one that returns ran its body.\<close>

lemma transaction_Raise: "transaction body s = (Inl e, s') \<Longrightarrow> s' = s"
  by (auto simp: transaction_def rollback_def split: if_splits option.splits prod.splits sum.splits)

lemma transaction_Ok [result_simps]:
  "transaction body s = (Inr x, s') \<longleftrightarrow>
     \<not> st_closed s \<and> st_fault s = None \<and> st_commit_fault s = None \<and>
     (\<exists>d. body (st_db s) = (Inr x, d) \<and> s' = s\<lparr>st_db := d\<rparr>)"
  by (auto simp: transaction_def split: option.splits prod.splits sum.splits)

lemma transaction_body_Ok:
  assumes "\<not> st_closed s" "st_fault s = None" "st_commit_fault s = None" "body (st_db s) = (Inr x, d)"
  shows "transaction body s = (Inr x, s\<lparr>st_db := d\<rparr>)"
  using assms by (simp add: transaction_def)

lemma constrained_Ok [result_simps]: "constrained ok w d = (Inr u, d') \<longleftrightarrow> ok \<and> d' = w d"
  by (auto simp: constrained_def)

lemma append_event_locked_Ok:
  "append_event_locked e d = (Inr b, d') \<longleftrightarrow>
     (case row_of er_id (ev_id e) (db_events d) of
        Some r \<Rightarrow> er_json r = canonical_event e \<and> \<not> b \<and> d' = d
      | None \<Rightarrow> opt_all (\<lambda>t. t \<in> keys tk_id (db_tasks d)) (ev_task e) \<and> b \<and> d' = add_event e d)"
proof (cases "row_of er_id (ev_id e) (db_events d)")
  case None
  then have "ev_id e \<notin> keys er_id (db_events d)" using row_of_None by metis
  with None show ?thesis
    by (auto simp: append_event_locked_def event_json_locked_def insert_event_def result_simps)
next
  case (Some r)
  then show ?thesis
    by (auto simp: append_event_locked_def event_json_locked_def result_simps)
qed

end
