(* ===== verification/TaskStore.thy ===== *)
theory TaskStore
  imports Database
begin

text \<open>
  The task and event operations of \<open>SQLiteStore\<close> (\<open>storage/sqlite.py\<close>): creation, creation with
  queueing and routing, transition, assignment, event append, and the queries. An operation is its
  checks before the transaction, then the transaction around a body over the database; the bodies
  are named, since the invariant is proved for them. \<open>now\<close> is the clock that
  \<open>apply_task_transition\<close> would read if it were given no time.
\<close>

section \<open>Lifecycle events\<close>

text \<open>\<open>_EVENT_FOR_STATUS\<close> and \<open>_ATOMIC_TASK_EVENT_TYPES\<close>.\<close>

fun event_for_status :: "task_status \<Rightarrow> event_type" where
  "event_for_status Pending = TASK_CREATED"
| "event_for_status Queued = TASK_QUEUED"
| "event_for_status Planning = TASK_STARTED"
| "event_for_status Running = TASK_STARTED"
| "event_for_status Review = REVIEW_STARTED"
| "event_for_status QA = QA_STARTED"
| "event_for_status Blocked = TASK_BLOCKED"
| "event_for_status Completed = TASK_COMPLETED"
| "event_for_status Failed = TASK_FAILED"
| "event_for_status Cancelled = TASK_CANCELLED"

definition atomic_task_event_types :: "event_type list" where
  "atomic_task_event_types = map event_for_status all_statuses @ [AGENT_ASSIGNED]"

definition validate_lifecycle_event :: "task \<Rightarrow> task_status \<Rightarrow> event \<Rightarrow> py_error + unit" where
  "validate_lifecycle_event t target e =
     and_then (require (ev_type e = event_for_status target) data_integrity) (\<lambda>_.
     and_then (require (ev_task e = Some (t_id t)) data_integrity) (\<lambda>_.
     and_then (require (ev_project e = Some (t_project t) \<and> ev_team e = Some (t_team t))
       data_integrity) (\<lambda>_.
     require (payload_status e = Some (status_value target)) data_integrity)))"

lemma validate_lifecycle_event_Ok [result_simps]:
  "validate_lifecycle_event t target e = Inr u \<longleftrightarrow>
     ev_type e = event_for_status target \<and> ev_task e = Some (t_id t) \<and>
     ev_project e = Some (t_project t) \<and> ev_team e = Some (t_team t) \<and>
     payload_status e = Some (status_value target)"
  by (auto simp: validate_lifecycle_event_def result_simps)

text \<open>\<open>apply_task_transition\<close> inside the store: its \<open>ValueError\<close>s leave the transaction as they are.\<close>

definition apply_transition :: "aware \<Rightarrow> task \<Rightarrow> task_status \<Rightarrow> aware \<Rightarrow> py_error + task" where
  "apply_transition now t target at =
     map_error ValueError (transition_task now t target (Some (Aware at)))"

lemma apply_transition_Ok:
  "valid_task t \<Longrightarrow> apply_transition now t target at = Inr t' \<longleftrightarrow>
     can_transition (t_status t) target \<and> time_admissible t at \<and> t' = stamp_transition t target at"
  by (simp add: apply_transition_def map_error_Ok transition_task_Ok)

section \<open>Creation\<close>

definition create_task_body :: "task \<Rightarrow> event \<Rightarrow> task db_act" where
  "create_task_body t e =
     act_bind (select_task (t_id t)) (\<lambda>row.
     act_bind (act_require (row = None) (StorageError DuplicateTaskError)) (\<lambda>_.
     act_bind (insert_task (new_task_row t (ev_time e))) (\<lambda>_.
     act_bind (append_event_locked e) (\<lambda>_.
     act_return t))))"

definition create_task :: "task \<Rightarrow> event \<Rightarrow> task store_act" where
  "create_task t e =
     act_bind (act_require (t_status t = Pending) data_integrity) (\<lambda>_.
     act_bind (act_lift (validate_lifecycle_event t Pending e)) (\<lambda>_.
     transaction (create_task_body t e)))"

definition insert_route :: "task_route \<Rightarrow> unit db_act" where
  "insert_route r d =
     constrained (route_task r \<notin> keys route_task (db_routes d) \<and>
                  route_task r \<in> keys tk_id (db_tasks d))
       (db_routes_update (insert_row r)) d"

definition mark_queued :: "task \<Rightarrow> aware \<Rightarrow> unit db_act" where
  "mark_queued queued at =
     update_task (t_id queued) 1
       (\<lambda>r. r\<lparr>tk_status := t_status queued, tk_updated := at, tk_version := 2, tk_json := queued\<rparr>)"

definition create_queued_body ::
  "task \<Rightarrow> task \<Rightarrow> event \<Rightarrow> event \<Rightarrow> task_route option \<Rightarrow> task db_act" where
  "create_queued_body t queued created_event queued_event route =
     act_bind (select_task (t_id t)) (\<lambda>row.
     act_bind (act_require (row = None) (StorageError DuplicateTaskError)) (\<lambda>_.
     act_bind (insert_task (new_task_row t (ev_time created_event))) (\<lambda>_.
     act_bind (append_event_locked created_event) (\<lambda>_.
     act_bind (case route of None \<Rightarrow> act_return () | Some r \<Rightarrow> insert_route r) (\<lambda>_.
     act_bind (mark_queued queued (ev_time queued_event)) (\<lambda>_.
     act_bind (append_event_locked queued_event) (\<lambda>_.
     act_return queued)))))))"

definition create_queued_task ::
  "aware \<Rightarrow> task \<Rightarrow> event \<Rightarrow> event \<Rightarrow> task_route option \<Rightarrow> task store_act" where
  "create_queued_task now t created_event queued_event route =
     act_bind (act_require (t_status t = Pending) data_integrity) (\<lambda>_.
     act_bind (act_lift (validate_lifecycle_event t Pending created_event)) (\<lambda>_.
     act_bind (act_lift (validate_lifecycle_event t Queued queued_event)) (\<lambda>_.
     act_bind (act_require (\<not> aware_less (ev_time queued_event) (ev_time created_event))
       data_integrity) (\<lambda>_.
     act_bind (act_require (opt_all (\<lambda>r. route_task r = t_id t) route) data_integrity) (\<lambda>_.
     act_bind (act_lift (apply_transition now t Queued (ev_time queued_event))) (\<lambda>queued.
     transaction (create_queued_body t queued created_event queued_event route)))))))"

section \<open>Transition, assignment, cancellation\<close>

text \<open>The row of a task with its decoded snapshot, or the error of a missing or invalid one.\<close>

definition load_task :: "string \<Rightarrow> (task_row \<times> task) db_act" where
  "load_task i =
     act_bind (select_task i) (\<lambda>row.
     case row of
       None \<Rightarrow> act_raise (StorageError RecordNotFoundError)
     | Some r \<Rightarrow> act_bind (act_lift (decode_task (tk_json r))) (\<lambda>t. act_return (r, t)))"

definition transition_body :: "aware \<Rightarrow> string \<Rightarrow> task_status \<Rightarrow> event \<Rightarrow> task db_act" where
  "transition_body now i target e =
     act_bind (load_task i) (\<lambda>(row, current).
     act_bind (act_lift (validate_lifecycle_event current target e)) (\<lambda>_.
     act_bind (event_json_locked (ev_id e)) (\<lambda>existing.
     case existing of
       Some existing_json \<Rightarrow>
         if existing_json \<noteq> canonical_event e then act_raise (StorageError IdempotencyConflictError)
         else act_return current
     | None \<Rightarrow>
         act_bind (act_lift (apply_transition now current target (ev_time e))) (\<lambda>updated.
         act_bind (update_task i (tk_version row)
           (\<lambda>r. r\<lparr>tk_status := t_status updated, tk_updated := ev_time e,
                  tk_version := tk_version row + 1, tk_json := updated\<rparr>)) (\<lambda>_.
         act_bind (append_event_locked e) (\<lambda>_.
         act_return updated))))))"

definition transition_stored_task :: "aware \<Rightarrow> string \<Rightarrow> task_status \<Rightarrow> event \<Rightarrow> task store_act" where
  "transition_stored_task now i target e = transaction (transition_body now i target e)"

definition assign_body :: "string \<Rightarrow> string \<Rightarrow> event \<Rightarrow> task db_act" where
  "assign_body i agent e =
     act_bind (load_task i) (\<lambda>(row, current).
     act_bind (act_require (ev_type e = AGENT_ASSIGNED) data_integrity) (\<lambda>_.
     act_bind (act_require (ev_task e = Some (t_id current) \<and> ev_agent e = Some agent)
       data_integrity) (\<lambda>_.
     act_bind (act_require (ev_project e = Some (t_project current) \<and> ev_team e = Some (t_team current))
       data_integrity) (\<lambda>_.
     act_bind (event_json_locked (ev_id e)) (\<lambda>existing.
     case existing of
       Some existing_json \<Rightarrow>
         if existing_json \<noteq> canonical_event e then act_raise (StorageError IdempotencyConflictError)
         else act_return current
     | None \<Rightarrow>
         act_bind (act_require (payload_status e = Some (status_value (t_status current)))
           data_integrity) (\<lambda>_.
         act_bind (act_require (agent \<notin> set (t_agents current)) data_integrity) (\<lambda>_.
         act_bind (act_lift (map_error ValueError
           (Task_validate (current\<lparr>t_agents := t_agents current @ [agent]\<rparr>)))) (\<lambda>updated.
         act_bind (update_task i (tk_version row)
           (\<lambda>r. r\<lparr>tk_updated := ev_time e, tk_version := tk_version row + 1, tk_json := updated\<rparr>)) (\<lambda>_.
         act_bind (append_event_locked e) (\<lambda>_.
         act_return updated))))))))))"

definition assign_task :: "string \<Rightarrow> string \<Rightarrow> event \<Rightarrow> task store_act" where
  "assign_task i agent e = transaction (assign_body i agent e)"

definition cancel_stored_task :: "aware \<Rightarrow> string \<Rightarrow> event \<Rightarrow> task store_act" where
  "cancel_stored_task now i e = transition_stored_task now i Cancelled e"

section \<open>Events\<close>

definition append_event :: "event \<Rightarrow> bool store_act" where
  "append_event e =
     act_bind (act_require (ev_type e \<notin> set atomic_task_event_types) data_integrity) (\<lambda>_.
     transaction (append_event_locked e))"

section \<open>Queries\<close>

definition get_task :: "string \<Rightarrow> store \<Rightarrow> py_error + task" where
  "get_task i =
     read_store (\<lambda>d. case row_of tk_id i (db_tasks d) of
        None \<Rightarrow> Inl (StorageError RecordNotFoundError)
      | Some r \<Rightarrow> decode_task (tk_json r))"

text \<open>\<open>ORDER BY created_at, task_id\<close>: texts are compared, the creation time as \<open>isoformat()\<close> wrote it.\<close>

definition oldest_first :: "task_row \<Rightarrow> task_row \<Rightarrow> bool" where
  "oldest_first a b \<longleftrightarrow>
     isoformat (tk_created a) < isoformat (tk_created b) \<or>
     isoformat (tk_created a) = isoformat (tk_created b) \<and> tk_id a \<le> tk_id b"

text \<open>\<open>ORDER BY created_at DESC, task_id\<close>.\<close>

definition newest_first :: "task_row \<Rightarrow> task_row \<Rightarrow> bool" where
  "newest_first a b \<longleftrightarrow>
     isoformat (tk_created b) < isoformat (tk_created a) \<or>
     isoformat (tk_created a) = isoformat (tk_created b) \<and> tk_id a \<le> tk_id b"

definition queued_rows :: "db \<Rightarrow> task_row list" where
  "queued_rows d = order_by oldest_first (filter (\<lambda>r. tk_status r = Queued) (db_tasks d))"

definition list_queued_tasks :: "int \<Rightarrow> store \<Rightarrow> py_error + task list" where
  "list_queued_tasks limit s =
     and_then (check_limit 1000 limit) (\<lambda>n.
     read_store (\<lambda>d. traverse (\<lambda>r. decode_task (tk_json r)) (take n (queued_rows d))) s)"

definition list_tasks :: "int \<Rightarrow> task_status option \<Rightarrow> store \<Rightarrow> py_error + task list" where
  "list_tasks limit status s =
     and_then (check_limit 1000 limit) (\<lambda>n.
     read_store (\<lambda>d. traverse (\<lambda>r. decode_task (tk_json r))
       (take n (order_by newest_first
         (case status of None \<Rightarrow> db_tasks d
          | Some st \<Rightarrow> filter (\<lambda>r. tk_status r = st) (db_tasks d))))) s)"

record stored_event =
  se_sequence :: nat
  se_envelope :: event

definition event_rows :: "string option \<Rightarrow> int \<Rightarrow> db \<Rightarrow> event_row list" where
  "event_rows tid after d =
     order_by (\<lambda>a b. er_seq a \<le> er_seq b)
       (filter (\<lambda>r. after < int (er_seq r) \<and> opt_all (\<lambda>t. er_task r = Some t) tid) (db_events d))"

definition list_events :: "string option \<Rightarrow> int \<Rightarrow> int \<Rightarrow> store \<Rightarrow> py_error + stored_event list" where
  "list_events tid after limit s =
     and_then (require (0 \<le> after) (ValueError InvalidLimit)) (\<lambda>_.
     and_then (check_limit 10000 limit) (\<lambda>n.
     read_store (\<lambda>d. traverse
       (\<lambda>r. and_then (decode_event (er_json r)) (\<lambda>e.
          Inr \<lparr>se_sequence = er_seq r, se_envelope = e\<rparr>))
       (take n (event_rows tid after d))) s))"

end
