(* ===== verification/RunStore.thy ===== *)
theory RunStore
  imports TaskStore
begin

text \<open>
  The run and artifact operations of \<open>SQLiteStore\<close> (\<open>storage/sqlite.py\<close>): a run is created, started
  and finished, each change being a validated copy of the stored record; artifact metadata is
  inserted once and belongs to a task, and to one of its runs when it names a run.
\<close>

section \<open>Runs\<close>

definition select_run :: "string \<Rightarrow> run_row option db_act" where
  "select_run i = act_get (\<lambda>d. row_of rr_id i (db_runs d))"

definition create_run_body :: "run_record \<Rightarrow> run_record db_act" where
  "create_run_body r =
     act_bind (select_run (run_id r)) (\<lambda>row.
     act_bind (act_require (row = None) (StorageError DuplicateRunError)) (\<lambda>_.
     act_bind (select_task (run_task r)) (\<lambda>task_row.
     act_bind (act_require (task_row \<noteq> None) (StorageError RecordNotFoundError)) (\<lambda>_.
     act_bind (insert_run_locked r) (\<lambda>_.
     act_return r)))))"

definition create_run :: "run_record \<Rightarrow> run_record store_act" where
  "create_run r = transaction (create_run_body r)"

definition get_run_locked :: "string \<Rightarrow> run_record db_act" where
  "get_run_locked i =
     act_bind (select_run i) (\<lambda>row.
     case row of
       None \<Rightarrow> act_raise (StorageError RecordNotFoundError)
     | Some r \<Rightarrow> act_lift (decode_run (rr_json r)))"

definition start_run_body :: "string \<Rightarrow> aware \<Rightarrow> run_record db_act" where
  "start_run_body i started_at =
     act_bind (get_run_locked i) (\<lambda>current.
     act_bind (act_require (run_status current = RunQueued) data_integrity) (\<lambda>_.
     act_bind (act_lift (map_error ValueError (RunRecord_validate
       (current\<lparr>run_status := RunRunning, run_started := Some started_at\<rparr>)))) (\<lambda>updated.
     act_bind (write_run_locked updated) (\<lambda>_.
     act_return updated))))"

definition start_run :: "aware \<Rightarrow> string \<Rightarrow> pydatetime option \<Rightarrow> run_record store_act" where
  "start_run now i at =
     act_bind (act_lift (aware_time now at)) (\<lambda>started_at.
     transaction (start_run_body i started_at))"

definition finished_run ::
  "run_record \<Rightarrow> run_status \<Rightarrow> aware \<Rightarrow> int option \<Rightarrow> string option \<Rightarrow> run_record" where
  "finished_run current status completed_at code err =
     current\<lparr>run_status := status,
       run_started := (case run_started current of None \<Rightarrow> Some (run_created current) | s \<Rightarrow> s),
       run_completed := Some completed_at, run_exit_code := code, run_error_code := err\<rparr>"

definition finish_run_body ::
  "string \<Rightarrow> run_status \<Rightarrow> aware \<Rightarrow> int option \<Rightarrow> string option \<Rightarrow> run_record db_act" where
  "finish_run_body i status completed_at code err =
     act_bind (get_run_locked i) (\<lambda>current.
     act_bind (act_require (run_status current \<in> {RunQueued, RunRunning}) data_integrity) (\<lambda>_.
     act_bind (act_lift (map_error ValueError
       (RunRecord_validate (finished_run current status completed_at code err)))) (\<lambda>updated.
     act_bind (write_run_locked updated) (\<lambda>_.
     act_return updated))))"

definition finish_run ::
  "aware \<Rightarrow> string \<Rightarrow> run_status \<Rightarrow> pydatetime option \<Rightarrow> int option \<Rightarrow> string option \<Rightarrow>
   run_record store_act" where
  "finish_run now i status at code err =
     act_bind (act_require (run_terminal status) (ValueError NotTerminal)) (\<lambda>_.
     act_bind (act_lift (aware_time now at)) (\<lambda>completed_at.
     transaction (finish_run_body i status completed_at code err)))"

definition get_run :: "string \<Rightarrow> store \<Rightarrow> py_error + run_record" where
  "get_run i =
     read_store (\<lambda>d. case row_of rr_id i (db_runs d) of
        None \<Rightarrow> Inl (StorageError RecordNotFoundError)
      | Some r \<Rightarrow> decode_run (rr_json r))"

definition run_order :: "run_row \<Rightarrow> run_row \<Rightarrow> bool" where
  "run_order a b \<longleftrightarrow>
     isoformat (rr_created a) < isoformat (rr_created b) \<or>
     isoformat (rr_created a) = isoformat (rr_created b) \<and> rr_id a \<le> rr_id b"

definition list_runs :: "string \<Rightarrow> store \<Rightarrow> py_error + run_record list" where
  "list_runs i =
     read_store (\<lambda>d. traverse (\<lambda>r. decode_run (rr_json r))
       (order_by run_order (filter (\<lambda>r. rr_task r = i) (db_runs d))))"

section \<open>Artifacts\<close>

definition artifact_row_of :: "artifact \<Rightarrow> artifact_row" where
  "artifact_row_of a =
     \<lparr>ar_id = art_id a, ar_task = art_task a, ar_run = art_run a, ar_created = art_created a,
      ar_json = a\<rparr>"

definition run_of_task :: "string \<Rightarrow> string \<Rightarrow> run_row list \<Rightarrow> bool" where
  "run_of_task r t runs \<longleftrightarrow> (\<exists>row \<in> set runs. rr_id row = r \<and> rr_task row = t)"

definition insert_artifact :: "artifact \<Rightarrow> unit db_act" where
  "insert_artifact a d =
     constrained (art_id a \<notin> keys ar_id (db_artifacts d) \<and>
                  art_task a \<in> keys tk_id (db_tasks d) \<and>
                  opt_all (\<lambda>r. r \<in> keys rr_id (db_runs d)) (art_run a))
       (db_artifacts_update (insert_row (artifact_row_of a))) d"

definition create_artifact_body :: "artifact \<Rightarrow> artifact db_act" where
  "create_artifact_body a =
     act_bind (act_get (\<lambda>d. row_of ar_id (art_id a) (db_artifacts d))) (\<lambda>row.
     act_bind (act_require (row = None) (StorageError DuplicateArtifactError)) (\<lambda>_.
     act_bind (select_task (art_task a)) (\<lambda>task_row.
     act_bind (act_require (task_row \<noteq> None) (StorageError RecordNotFoundError)) (\<lambda>_.
     act_bind (act_get (\<lambda>d. opt_all (\<lambda>r. run_of_task r (art_task a) (db_runs d)) (art_run a))) (\<lambda>owned.
     act_bind (act_require owned data_integrity) (\<lambda>_.
     act_bind (insert_artifact a) (\<lambda>_.
     act_return a)))))))"

definition create_artifact :: "artifact \<Rightarrow> artifact store_act" where
  "create_artifact a = transaction (create_artifact_body a)"

definition get_artifact :: "string \<Rightarrow> store \<Rightarrow> py_error + artifact" where
  "get_artifact i =
     read_store (\<lambda>d. case row_of ar_id i (db_artifacts d) of
        None \<Rightarrow> Inl (StorageError RecordNotFoundError)
      | Some r \<Rightarrow> decode_artifact (ar_json r))"

definition artifact_order :: "artifact_row \<Rightarrow> artifact_row \<Rightarrow> bool" where
  "artifact_order a b \<longleftrightarrow>
     isoformat (ar_created a) < isoformat (ar_created b) \<or>
     isoformat (ar_created a) = isoformat (ar_created b) \<and> ar_id a \<le> ar_id b"

definition list_artifacts :: "string \<Rightarrow> store \<Rightarrow> py_error + artifact list" where
  "list_artifacts i =
     read_store (\<lambda>d. traverse (\<lambda>r. decode_artifact (ar_json r))
       (order_by artifact_order (filter (\<lambda>r. ar_task r = i) (db_artifacts d))))"

end
