(* ===== verification/Ledgers.thy ===== *)
theory Ledgers
  imports RunStore
begin

text \<open>
  The idempotency ledgers of \<open>SQLiteStore\<close> (\<open>storage/sqlite.py\<close>): gateway requests, task routes and
  delivery receipts. A request or a delivery is reserved, then completed (with the response, or
  with the delivery time) or released; a restart releases what is still reserved. Keys are
  validated first, which also strips them; \<open>remember_gateway_response\<close> alone looks its row up by
  the key as it was given.
\<close>

section \<open>Gateway requests\<close>

definition new_request :: "string \<Rightarrow> json_object option \<Rightarrow> aware \<Rightarrow> py_error + request_record" where
  "new_request key response at =
     map_error ValueError (GatewayRequestRecord_validate
       \<lparr>req_key = key, req_response = response, req_created = at\<rparr>)"

definition reserve_request_body :: "request_record \<Rightarrow> bool db_act" where
  "reserve_request_body r =
     act_bind (act_get (\<lambda>d. row_of gq_key (req_key r) (db_requests d))) (\<lambda>row.
     case row of
       Some _ \<Rightarrow> act_return False
     | None \<Rightarrow>
         act_bind (act_modify (db_requests_update (insert_row
           \<lparr>gq_key = req_key r, gq_response = None, gq_created = req_created r\<rparr>))) (\<lambda>_.
         act_return True))"

definition reserve_gateway_request :: "aware \<Rightarrow> string \<Rightarrow> pydatetime option \<Rightarrow> bool store_act" where
  "reserve_gateway_request now key at =
     act_bind (act_lift (aware_time now at)) (\<lambda>created_at.
     act_bind (act_lift (new_request key None created_at)) (\<lambda>r.
     transaction (reserve_request_body r)))"

definition get_gateway_request ::
  "aware \<Rightarrow> string \<Rightarrow> store \<Rightarrow> py_error + request_record option" where
  "get_gateway_request now key s =
     and_then (new_request key None now) (\<lambda>r.
     read_store (\<lambda>d. case row_of gq_key (req_key r) (db_requests d) of
         None \<Rightarrow> Inr None
       | Some row \<Rightarrow> map_error (\<lambda>_. data_integrity)
           (and_then (new_request (gq_key row) (gq_response row) (gq_created row)) (\<lambda>x. Inr (Some x)))) s)"

definition remember_body :: "string \<Rightarrow> json_object \<Rightarrow> request_record db_act" where
  "remember_body key doc =
     act_bind (act_get (\<lambda>d. row_of gq_key key (db_requests d))) (\<lambda>row.
     case row of
       None \<Rightarrow> act_raise (StorageError RecordNotFoundError)
     | Some r \<Rightarrow>
         act_bind (act_require (opt_all (\<lambda>existing. existing = canonical_object doc) (gq_response r))
           (StorageError IdempotencyConflictError)) (\<lambda>_.
         act_bind (if gq_response r = None
           then act_modify (db_requests_update (update_rows (\<lambda>row. gq_key row = key)
                  (\<lambda>row. row\<lparr>gq_response := Some (canonical_object doc)\<rparr>)))
           else act_return ()) (\<lambda>_.
         act_lift (new_request key (Some doc) (gq_created r)))))"

definition remember_gateway_response ::
  "aware \<Rightarrow> string \<Rightarrow> json_object option \<Rightarrow> request_record store_act" where
  "remember_gateway_response now key response =
     act_bind (act_lift (new_request key response now)) (\<lambda>validated.
     case req_response validated of
       None \<Rightarrow> act_raise (ValueError NullResponse)
     | Some doc \<Rightarrow> transaction (remember_body key doc))"

definition release_request_body :: "string \<Rightarrow> bool db_act" where
  "release_request_body key =
     act_bind (act_get (\<lambda>d. row_of gq_key key (db_requests d))) (\<lambda>row.
     case row of
       None \<Rightarrow> act_return False
     | Some r \<Rightarrow>
         act_bind (act_require (gq_response r = None) data_integrity) (\<lambda>_.
         act_bind (act_modify (db_requests_update (delete_rows (\<lambda>row. gq_key row = key)))) (\<lambda>_.
         act_return True)))"

definition release_gateway_request :: "aware \<Rightarrow> string \<Rightarrow> bool store_act" where
  "release_gateway_request now key =
     act_bind (act_lift (new_request key None now)) (\<lambda>r.
     transaction (release_request_body (req_key r)))"

definition reconcile_requests_body :: "string list db_act" where
  "reconcile_requests_body =
     act_bind (act_get (\<lambda>d. order_by (\<le>) (map gq_key
       (filter (\<lambda>r. gq_response r = None) (db_requests d))))) (\<lambda>released.
     act_bind (act_modify (db_requests_update (delete_rows (\<lambda>r. gq_response r = None)))) (\<lambda>_.
     act_return released))"

definition reconcile_incomplete_gateway_requests :: "string list store_act" where
  "reconcile_incomplete_gateway_requests = transaction reconcile_requests_body"

section \<open>Task routes\<close>

definition save_route_body :: "task_route \<Rightarrow> task_route db_act" where
  "save_route_body route =
     act_bind (select_task (route_task route)) (\<lambda>task_row.
     act_bind (act_require (task_row \<noteq> None) (StorageError RecordNotFoundError)) (\<lambda>_.
     act_bind (act_get (\<lambda>d. row_of route_task (route_task route) (db_routes d))) (\<lambda>row.
     case row of
       Some r \<Rightarrow>
         if route_source r = route_source route \<and> route_target r = route_target route
         then act_return route
         else act_raise (StorageError IdempotencyConflictError)
     | None \<Rightarrow> act_bind (insert_route route) (\<lambda>_. act_return route))))"

definition save_task_route :: "string \<Rightarrow> string \<Rightarrow> string \<Rightarrow> task_route store_act" where
  "save_task_route i source target =
     act_bind (act_lift (map_error ValueError (TaskRoute_validate
       \<lparr>route_task = i, route_source = source, route_target = target\<rparr>))) (\<lambda>route.
     transaction (save_route_body route))"

definition decode_route :: "task_route \<Rightarrow> py_error + task_route" where
  "decode_route r = map_error (\<lambda>_. data_integrity) (TaskRoute_validate r)"

definition get_task_route :: "string \<Rightarrow> store \<Rightarrow> py_error + task_route option" where
  "get_task_route i =
     read_store (\<lambda>d. case row_of route_task i (db_routes d) of
        None \<Rightarrow> Inr None
      | Some r \<Rightarrow> and_then (decode_route r) (\<lambda>x. Inr (Some x)))"

definition list_task_routes :: "int \<Rightarrow> store \<Rightarrow> py_error + task_route list" where
  "list_task_routes limit s =
     and_then (check_limit 1000 limit) (\<lambda>n.
     read_store (\<lambda>d. traverse decode_route
       (take n (order_by (\<lambda>a b. route_task a \<le> route_task b) (db_routes d)))) s)"

section \<open>Delivery receipts\<close>

definition new_receipt ::
  "string \<Rightarrow> delivery_state \<Rightarrow> aware \<Rightarrow> aware option \<Rightarrow> py_error + receipt" where
  "new_receipt i state created delivered =
     map_error ValueError (DeliveryReceipt_validate
       \<lparr>rc_id = i, rc_state = state, rc_created = created, rc_delivered = delivered\<rparr>)"

definition reserve_delivery_body :: "receipt \<Rightarrow> bool db_act" where
  "reserve_delivery_body r =
     act_bind (act_get (\<lambda>d. row_of rc_id (rc_id r) (db_receipts d))) (\<lambda>row.
     case row of
       Some _ \<Rightarrow> act_return False
     | None \<Rightarrow>
         act_bind (act_modify (db_receipts_update (insert_row (r\<lparr>rc_delivered := None\<rparr>)))) (\<lambda>_.
         act_return True))"

definition reserve_delivery :: "aware \<Rightarrow> string \<Rightarrow> pydatetime option \<Rightarrow> bool store_act" where
  "reserve_delivery now i at =
     act_bind (act_lift (aware_time now at)) (\<lambda>created_at.
     act_bind (act_lift (new_receipt i RESERVED created_at None)) (\<lambda>r.
     transaction (reserve_delivery_body r)))"

definition get_delivery_receipt :: "aware \<Rightarrow> string \<Rightarrow> store \<Rightarrow> py_error + receipt option" where
  "get_delivery_receipt now i s =
     and_then (new_receipt i RESERVED now None) (\<lambda>k.
     read_store (\<lambda>d. case row_of rc_id (rc_id k) (db_receipts d) of
         None \<Rightarrow> Inr None
       | Some row \<Rightarrow> map_error (\<lambda>_. data_integrity)
           (and_then (DeliveryReceipt_validate row) (\<lambda>x. Inr (Some x)))) s)"

definition is_delivery_delivered :: "aware \<Rightarrow> string \<Rightarrow> store \<Rightarrow> py_error + bool" where
  "is_delivery_delivered now i s =
     and_then (get_delivery_receipt now i s) (\<lambda>r.
     Inr (case r of None \<Rightarrow> False | Some x \<Rightarrow> rc_state x = DELIVERED))"

definition mark_delivered_body :: "string \<Rightarrow> aware \<Rightarrow> receipt db_act" where
  "mark_delivered_body key at =
     act_bind (act_get (\<lambda>d. row_of rc_id key (db_receipts d))) (\<lambda>row.
     case row of
       None \<Rightarrow> act_raise (StorageError RecordNotFoundError)
     | Some r \<Rightarrow>
         if rc_state r = DELIVERED then
           act_lift (new_receipt key (rc_state r) (rc_created r) (rc_delivered r))
         else
           act_bind (act_lift (new_receipt key DELIVERED (rc_created r) (Some at))) (\<lambda>updated.
           act_bind (act_modify (db_receipts_update (update_rows (\<lambda>row. rc_id row = rc_id updated)
             (\<lambda>row. row\<lparr>rc_state := rc_state updated, rc_delivered := Some at\<rparr>)))) (\<lambda>_.
           act_return updated)))"

definition mark_delivery_delivered :: "aware \<Rightarrow> string \<Rightarrow> pydatetime option \<Rightarrow> receipt store_act" where
  "mark_delivery_delivered now i at =
     act_bind (act_lift (aware_time now at)) (\<lambda>delivered_at.
     act_bind (act_lift (new_receipt i RESERVED now None)) (\<lambda>k.
     transaction (mark_delivered_body (rc_id k) delivered_at)))"

definition release_delivery_body :: "string \<Rightarrow> bool db_act" where
  "release_delivery_body key =
     act_bind (act_get (\<lambda>d. row_of rc_id key (db_receipts d))) (\<lambda>row.
     case row of
       None \<Rightarrow> act_return False
     | Some r \<Rightarrow>
         act_bind (act_require (rc_state r \<noteq> DELIVERED) data_integrity) (\<lambda>_.
         act_bind (act_modify (db_receipts_update (delete_rows (\<lambda>row. rc_id row = key)))) (\<lambda>_.
         act_return True)))"

definition release_delivery :: "aware \<Rightarrow> string \<Rightarrow> bool store_act" where
  "release_delivery now i =
     act_bind (act_lift (new_receipt i RESERVED now None)) (\<lambda>k.
     transaction (release_delivery_body (rc_id k)))"

definition reconcile_deliveries_body :: "string list db_act" where
  "reconcile_deliveries_body =
     act_bind (act_get (\<lambda>d. order_by (\<le>) (map rc_id
       (filter (\<lambda>r. rc_state r = RESERVED) (db_receipts d))))) (\<lambda>released.
     act_bind (act_modify (db_receipts_update (delete_rows (\<lambda>r. rc_state r = RESERVED)))) (\<lambda>_.
     act_return released))"

definition reconcile_reserved_deliveries :: "string list store_act" where
  "reconcile_reserved_deliveries = transaction reconcile_deliveries_body"

end
