(* ===== verification/Recovery.thy ===== *)
theory Recovery
  imports Ledgers
begin

text \<open>
  \<open>reconcile_interrupted_running\<close> (\<open>storage/sqlite.py\<close>): after a restart, every run that was queued
  or running becomes interrupted, and every task that was planning or running becomes blocked,
  each with its \<open>task.blocked\<close> event, all in one transaction. The identifiers that \<open>uuid4\<close> gives
  the events are the argument \<open>fresh\<close>: the event of the \<open>n\<close>-th task has \<open>fresh n\<close>.
\<close>

record reconciliation =
  rec_runs :: "run_record list"
  rec_tasks :: "task list"
  rec_events :: "stored_event list"

definition interrupted_run :: "aware \<Rightarrow> run_record \<Rightarrow> run_record" where
  "interrupted_run at current =
     current\<lparr>run_status := RunInterrupted,
       run_started := (case run_started current of None \<Rightarrow> Some (run_created current) | s \<Rightarrow> s),
       run_completed := Some at, run_error_code := Some ''process-restart''\<rparr>"

definition interrupt_run :: "aware \<Rightarrow> run_row \<Rightarrow> run_record db_act" where
  "interrupt_run at row =
     act_bind (act_lift (decode_run (rr_json row))) (\<lambda>current.
     act_bind (act_lift (map_error ValueError (RunRecord_validate (interrupted_run at current)))) (\<lambda>r.
     act_bind (write_run_locked r) (\<lambda>_.
     act_return r)))"

definition blocked_event :: "uuid \<Rightarrow> aware \<Rightarrow> task \<Rightarrow> event" where
  "blocked_event i at t =
     \<lparr>ev_schema = 1, ev_id = i, ev_type = TASK_BLOCKED, ev_time = at, ev_task = Some (t_id t),
      ev_project = Some (t_project t), ev_team = Some (t_team t), ev_agent = None,
      ev_correlation = None, ev_causation = None, ev_level = WARNING,
      ev_message = Some ''Task execution was interrupted by a process restart.'',
      ev_payload = [(''status'', JStr ''blocked''), (''reason'', JStr ''process-restart'')]\<rparr>"

definition block_task :: "aware \<Rightarrow> uuid \<Rightarrow> aware \<Rightarrow> task_row \<Rightarrow> (task \<times> stored_event) db_act" where
  "block_task now i at row =
     act_bind (act_lift (decode_task (tk_json row))) (\<lambda>current.
     act_bind (act_lift (map_error ValueError (Event_validate (blocked_event i at current)))) (\<lambda>e.
     act_bind (act_lift (apply_transition now current Blocked at)) (\<lambda>blocked.
     act_bind (update_task (t_id blocked) (tk_version row)
       (\<lambda>r. r\<lparr>tk_status := t_status blocked, tk_updated := at, tk_version := tk_version row + 1,
              tk_json := blocked\<rparr>)) (\<lambda>_.
     act_bind (append_event_locked e) (\<lambda>_.
     act_bind (act_get (\<lambda>d. row_of er_id (ev_id e) (db_events d))) (\<lambda>sequence_row.
     case sequence_row of
       None \<Rightarrow> act_raise TypeError
     | Some r \<Rightarrow> act_return (blocked, \<lparr>se_sequence = er_seq r, se_envelope = e\<rparr>)))))))"

text \<open>The two loops: the rows are fetched before the first change.\<close>

fun interrupt_runs :: "aware \<Rightarrow> run_row list \<Rightarrow> run_record list db_act" where
  "interrupt_runs at [] = act_return []"
| "interrupt_runs at (row # rows) =
     act_bind (interrupt_run at row) (\<lambda>r.
     act_bind (interrupt_runs at rows) (\<lambda>rs. act_return (r # rs)))"

fun block_tasks ::
  "aware \<Rightarrow> (nat \<Rightarrow> uuid) \<Rightarrow> aware \<Rightarrow> nat \<Rightarrow> task_row list \<Rightarrow> (task \<times> stored_event) list db_act" where
  "block_tasks now fresh at n [] = act_return []"
| "block_tasks now fresh at n (row # rows) =
     act_bind (block_task now (fresh n) at row) (\<lambda>x.
     act_bind (block_tasks now fresh at (Suc n) rows) (\<lambda>xs. act_return (x # xs)))"

definition active_run_rows :: "db \<Rightarrow> run_row list" where
  "active_run_rows d =
     order_by (\<lambda>a b. rr_id a \<le> rr_id b)
       (filter (\<lambda>r. rr_status r = RunQueued \<or> rr_status r = RunRunning) (db_runs d))"

definition active_task_rows :: "db \<Rightarrow> task_row list" where
  "active_task_rows d =
     order_by (\<lambda>a b. tk_id a \<le> tk_id b)
       (filter (\<lambda>r. tk_status r = Planning \<or> tk_status r = Running) (db_tasks d))"

definition reconcile_body :: "aware \<Rightarrow> (nat \<Rightarrow> uuid) \<Rightarrow> aware \<Rightarrow> reconciliation db_act" where
  "reconcile_body now fresh at =
     act_bind (act_get active_run_rows) (\<lambda>run_rows.
     act_bind (interrupt_runs at run_rows) (\<lambda>runs.
     act_bind (act_get active_task_rows) (\<lambda>task_rows.
     act_bind (block_tasks now fresh at 0 task_rows) (\<lambda>tasks.
     act_return \<lparr>rec_runs = runs, rec_tasks = map fst tasks, rec_events = map snd tasks\<rparr>))))"

definition reconcile_interrupted_running ::
  "aware \<Rightarrow> (nat \<Rightarrow> uuid) \<Rightarrow> pydatetime option \<Rightarrow> reconciliation store_act" where
  "reconcile_interrupted_running now fresh at =
     act_bind (act_lift (aware_time now at)) (\<lambda>reconciled_at.
     transaction (reconcile_body now fresh reconciled_at))"

end
