(* ===== verification/StoreInvariant.thy ===== *)
theory StoreInvariant
  imports Recovery
begin

text \<open>
  The invariant of the database. Table by table it says that keys are unique, that the columns of
  a row repeat its JSON record, that records are valid and that references exist; across tables
  it says that the event log tells the history of every task: the statuses its lifecycle events
  announce form a legal path from \<open>pending\<close> to the stored status, and its \<open>agent.assigned\<close> events
  name the assigned agents in order. The locale \<open>db_operation\<close> is the contract of a transaction's
  body; the theories that prove the bodies interpret it.
\<close>

section \<open>Tables\<close>

definition task_row_ok :: "task_row \<Rightarrow> bool" where
  "task_row_ok r \<longleftrightarrow>
     tk_id r = t_id (tk_json r) \<and> tk_status r = t_status (tk_json r) \<and>
     tk_project r = t_project (tk_json r) \<and> tk_team r = t_team (tk_json r) \<and>
     tk_created r = t_created (tk_json r) \<and> 1 \<le> tk_version r \<and> valid_task (tk_json r)"

definition tasks_ok :: "task_row list \<Rightarrow> bool" where
  "tasks_ok rows \<longleftrightarrow> distinct (map tk_id rows) \<and> (\<forall>r \<in> set rows. task_row_ok r)"

definition event_row_ok :: "event_row \<Rightarrow> bool" where
  "event_row_ok r \<longleftrightarrow>
     r = event_row_of (er_seq r) (er_json r) \<and> valid_event (er_json r) \<and>
     canonical_event (er_json r) = er_json r"

definition events_ok :: "nat \<Rightarrow> string set \<Rightarrow> event_row list \<Rightarrow> bool" where
  "events_ok n ids rows \<longleftrightarrow>
     sorted_wrt (<) (map er_seq rows) \<and> (\<forall>r \<in> set rows. 1 \<le> er_seq r \<and> er_seq r \<le> n) \<and>
     distinct (map er_id rows) \<and>
     (\<forall>r \<in> set rows. event_row_ok r \<and> opt_all (\<lambda>t. t \<in> ids) (er_task r))"

definition run_row_ok :: "run_row \<Rightarrow> bool" where
  "run_row_ok r \<longleftrightarrow> r = run_row_of (rr_json r) \<and> valid_run (rr_json r)"

definition runs_ok :: "string set \<Rightarrow> run_row list \<Rightarrow> bool" where
  "runs_ok ids rows \<longleftrightarrow>
     distinct (map rr_id rows) \<and> (\<forall>r \<in> set rows. run_row_ok r \<and> rr_task r \<in> ids)"

definition artifacts_ok :: "string set \<Rightarrow> (string \<times> string) set \<Rightarrow> artifact_row list \<Rightarrow> bool" where
  "artifacts_ok ids runs rows \<longleftrightarrow>
     distinct (map ar_id rows) \<and>
     (\<forall>r \<in> set rows. r = artifact_row_of (ar_json r) \<and> ar_task r \<in> ids \<and>
        opt_all (\<lambda>i. (i, ar_task r) \<in> runs) (ar_run r))"

definition request_row_ok :: "request_row \<Rightarrow> bool" where
  "request_row_ok r \<longleftrightarrow>
     clean IdempotencyKey (gq_key r) \<and>
     opt_all (\<lambda>doc. canonical_object doc = doc \<and>
       keys_allowed response_key_forbidden (JObj doc)) (gq_response r)"

definition requests_ok :: "request_row list \<Rightarrow> bool" where
  "requests_ok rows \<longleftrightarrow> distinct (map gq_key rows) \<and> (\<forall>r \<in> set rows. request_row_ok r)"

definition routes_ok :: "string set \<Rightarrow> task_route list \<Rightarrow> bool" where
  "routes_ok ids rows \<longleftrightarrow>
     distinct (map route_task rows) \<and> (\<forall>r \<in> set rows. valid_route r \<and> route_task r \<in> ids)"

definition receipts_ok :: "receipt list \<Rightarrow> bool" where
  "receipts_ok rows \<longleftrightarrow> distinct (map rc_id rows) \<and> (\<forall>r \<in> set rows. valid_receipt r)"

abbreviation task_ids :: "db \<Rightarrow> string set" where
  "task_ids d \<equiv> keys tk_id (db_tasks d)"

abbreviation run_keys :: "db \<Rightarrow> (string \<times> string) set" where
  "run_keys d \<equiv> keys (\<lambda>r. (rr_id r, rr_task r)) (db_runs d)"

section \<open>Histories\<close>

definition lifecycle_types :: "event_type list" where
  "lifecycle_types = map event_for_status all_statuses"

definition lifecycle_status :: "event \<Rightarrow> task_status option" where
  "lifecycle_status e =
     (if ev_type e \<in> set lifecycle_types then Option.bind (payload_status e) status_of_value else None)"

text \<open>The statuses that the lifecycle events of a task announce, and the agents it was given.\<close>

definition trail :: "event_row list \<Rightarrow> string \<Rightarrow> task_status list" where
  "trail rows i =
     List.map_filter (\<lambda>r. if er_task r = Some i then lifecycle_status (er_json r) else None) rows"

definition assigned :: "event_row list \<Rightarrow> string \<Rightarrow> string list" where
  "assigned rows i =
     List.map_filter (\<lambda>r. if er_task r = Some i \<and> er_type r = AGENT_ASSIGNED then er_agent r else None)
       rows"

definition legal_trail :: "task_status list \<Rightarrow> bool" where
  "legal_trail xs \<longleftrightarrow> xs \<noteq> [] \<and> hd xs = Pending \<and> successively can_transition xs"

definition stream :: "event_row list \<Rightarrow> string \<Rightarrow> event list" where
  "stream rows i = map er_json (filter (\<lambda>r. er_task r = Some i) rows)"

text \<open>A lifecycle or assignment event names the project and team of its task and tells its change.\<close>

definition event_told :: "event \<Rightarrow> task_row \<Rightarrow> bool" where
  "event_told e row \<longleftrightarrow>
     ev_project e = Some (tk_project row) \<and> ev_team e = Some (tk_team row) \<and>
     (if ev_type e = AGENT_ASSIGNED then ev_agent e \<noteq> None
      else list_ex (\<lambda>s. ev_type e = event_for_status s \<and> payload_status e = Some (status_value s))
             all_statuses)"

definition opens :: "event list \<Rightarrow> bool" where
  "opens es \<longleftrightarrow> es \<noteq> [] \<and> ev_type (hd es) = TASK_CREATED"

definition history_ok :: "task_row list \<Rightarrow> event_row list \<Rightarrow> bool" where
  "history_ok tasks events \<longleftrightarrow>
     (\<forall>r \<in> set tasks. legal_trail (trail events (tk_id r)) \<and>
        last (trail events (tk_id r)) = tk_status r \<and>
        assigned events (tk_id r) = t_agents (tk_json r) \<and> opens (stream events (tk_id r))) \<and>
     (\<forall>x \<in> set events. er_type x \<in> set atomic_task_event_types \<longrightarrow>
        (\<exists>row \<in> set tasks. er_task x = Some (tk_id row) \<and> event_told (er_json x) row))"

definition tables_ok :: "db \<Rightarrow> bool" where
  "tables_ok d \<longleftrightarrow>
     tasks_ok (db_tasks d) \<and> events_ok (db_event_seq d) (task_ids d) (db_events d) \<and>
     runs_ok (task_ids d) (db_runs d) \<and>
     artifacts_ok (task_ids d) (run_keys d) (db_artifacts d) \<and>
     requests_ok (db_requests d) \<and> routes_ok (task_ids d) (db_routes d) \<and>
     receipts_ok (db_receipts d)"

definition db_inv :: "db \<Rightarrow> bool" where
  "db_inv d \<longleftrightarrow> tables_ok d \<and> history_ok (db_tasks d) (db_events d)"

lemma db_inv_empty: "db_inv empty_db"
  by (simp add: db_inv_def tables_ok_def empty_db_def tasks_ok_def events_ok_def runs_ok_def
      artifacts_ok_def requests_ok_def routes_ok_def receipts_ok_def history_ok_def)

section \<open>The contract of a transaction body\<close>

text \<open>
  A body with its precondition keeps the invariant when it returns. The transaction around it then
  keeps the invariant whatever happens, since a raised error rolls the database back.
\<close>

locale db_operation =
  fixes pre :: "db \<Rightarrow> bool"
    and body :: "'a db_act"
  assumes keeps: "pre d \<Longrightarrow> db_inv d \<Longrightarrow> body d = (Inr x, d') \<Longrightarrow> db_inv d'"
begin

lemma transaction_keeps:
  assumes "pre (st_db s)" "db_inv (st_db s)"
  shows "db_inv (st_db (snd (transaction body s)))"
proof (cases "transaction body s")
  case (Pair r s')
  show ?thesis
  proof (cases r)
    case (Inl e)
    with Pair have "s' = s" by (simp add: transaction_Raise)
    with Pair assms show ?thesis by simp
  next
    case (Inr x)
    with Pair obtain d where "body (st_db s) = (Inr x, d)" "s' = s\<lparr>st_db := d\<rparr>"
      by (auto simp: transaction_Ok)
    with Pair keeps [OF assms] show ?thesis by simp
  qed
qed

lemma transaction_keeps_conditions:
  "st_closed (snd (transaction body s)) = st_closed s \<and>
   st_fault (snd (transaction body s)) = st_fault s \<and>
   st_commit_fault (snd (transaction body s)) = st_commit_fault s"
  by (auto simp: transaction_def rollback_def split: option.splits prod.splits sum.splits)

end

section \<open>Primitive writes and the invariant\<close>

lemma row_of_Some_iff: "(\<exists>r. row_of key k rows = Some r) \<longleftrightarrow> k \<in> keys key rows"
  by (metis row_of_None not_None_eq)

lemma tasks_ok_insert:
  "tasks_ok rows \<Longrightarrow> tk_id r \<notin> keys tk_id rows \<Longrightarrow> task_row_ok r \<Longrightarrow> tasks_ok (insert_row r rows)"
  by (auto simp: tasks_ok_def row_simps)

lemma tasks_ok_update:
  assumes "tasks_ok rows" "\<And>r. tk_id (f r) = tk_id r"
    "\<And>r. r \<in> set rows \<Longrightarrow> P r \<Longrightarrow> task_row_ok r \<Longrightarrow> task_row_ok (f r)"
  shows "tasks_ok (update_rows P f rows)"
  using assms by (auto simp: tasks_ok_def row_simps)

lemma event_row_of_ok: "valid_event e \<Longrightarrow> event_row_ok (event_row_of n e)"
  by (simp add: event_row_ok_def event_row_of_def valid_event_canonical)

lemma events_ok_add:
  assumes "events_ok n ids rows" "valid_event e" "ev_id e \<notin> keys er_id rows"
    "opt_all (\<lambda>t. t \<in> ids) (ev_task e)"
  shows "events_ok (Suc n) ids (insert_row (event_row_of (Suc n) e) rows)"
  using assms event_row_of_ok [OF assms(2)]
  by (auto simp: events_ok_def row_simps sorted_wrt_append event_row_of_def)

lemma events_ok_mono: "events_ok n ids rows \<Longrightarrow> ids \<subseteq> ids' \<Longrightarrow> events_ok n ids' rows"
  by (auto simp: events_ok_def opt_all_iff)

lemma runs_ok_mono: "runs_ok ids rows \<Longrightarrow> ids \<subseteq> ids' \<Longrightarrow> runs_ok ids' rows"
  by (auto simp: runs_ok_def)

lemma routes_ok_mono: "routes_ok ids rows \<Longrightarrow> ids \<subseteq> ids' \<Longrightarrow> routes_ok ids' rows"
  by (auto simp: routes_ok_def)

lemma artifacts_ok_mono:
  "artifacts_ok ids runs rows \<Longrightarrow> ids \<subseteq> ids' \<Longrightarrow> runs \<subseteq> runs' \<Longrightarrow> artifacts_ok ids' runs' rows"
  by (auto simp: artifacts_ok_def opt_all_iff)

lemmas tables_mono = events_ok_mono runs_ok_mono routes_ok_mono artifacts_ok_mono

section \<open>How the history grows\<close>

lemma lifecycle_status_canonical:
  "valid_event e \<Longrightarrow> lifecycle_status (canonical_event e) = lifecycle_status e"
  by (simp add: lifecycle_status_def payload_status_canonical)

lemma trail_insert:
  assumes "valid_event e"
  shows "trail (insert_row (event_row_of n e) rows) i =
           trail rows i @ (if ev_task e = Some i then
             (case lifecycle_status e of None \<Rightarrow> [] | Some s \<Rightarrow> [s]) else [])"
  using assms
  by (auto simp: trail_def insert_row_def map_filter_def event_row_of_def
      lifecycle_status_canonical split: option.splits)

lemma assigned_insert:
  "assigned (insert_row (event_row_of n e) rows) i =
     assigned rows i @ (if ev_task e = Some i \<and> ev_type e = AGENT_ASSIGNED then
       (case ev_agent e of None \<Rightarrow> [] | Some a \<Rightarrow> [a]) else [])"
  by (auto simp: assigned_def insert_row_def map_filter_def event_row_of_def split: option.splits)

lemma event_for_status_not_assigned [simp]: "event_for_status s \<noteq> AGENT_ASSIGNED"
  by (cases s) simp_all

lemma stream_insert:
  "stream (insert_row (event_row_of n e) rows) i =
     stream rows i @ (if ev_task e = Some i then [canonical_event e] else [])"
  by (simp add: stream_def insert_row_def event_row_of_def)

lemma opens_append [simp]: "opens es \<Longrightarrow> opens (es @ es')"
  by (cases es) (auto simp: opens_def)

lemma all_statuses_complete [simp]: "s \<in> set all_statuses"
  by (cases s) (simp_all add: all_statuses_def)

lemma event_told_lifecycle:
  "ev_type e = event_for_status s \<Longrightarrow> payload_status e = Some (status_value s) \<Longrightarrow>
     ev_project e = Some (tk_project row) \<Longrightarrow> ev_team e = Some (tk_team row) \<Longrightarrow> event_told e row"
  by (auto simp: event_told_def list_ex_iff intro!: bexI [of _ s])

lemma event_told_canonical: "valid_event e \<Longrightarrow> event_told (canonical_event e) row \<longleftrightarrow> event_told e row"
  by (simp add: event_told_def payload_status_canonical)

lemma event_told_cong:
  "tk_project row' = tk_project row \<Longrightarrow> tk_team row' = tk_team row \<Longrightarrow>
     event_told e row' \<longleftrightarrow> event_told e row"
  by (simp add: event_told_def)

lemma no_events_no_history:
  assumes "\<And>r. r \<in> set rows \<Longrightarrow> er_task r \<noteq> Some i"
  shows "trail rows i = []" "assigned rows i = []" "stream rows i = []"
  using assms by (auto simp: trail_def assigned_def stream_def map_filter_def filter_empty_conv)

lemma event_for_status_lifecycle [simp]: "event_for_status s \<in> set lifecycle_types"
  by (cases s) (simp_all add: lifecycle_types_def all_statuses_def)

lemma agent_assigned_not_lifecycle [simp]: "AGENT_ASSIGNED \<notin> set lifecycle_types"
  by (simp add: lifecycle_types_def all_statuses_def)

lemma atomic_types_eq: "set atomic_task_event_types = insert AGENT_ASSIGNED (set lifecycle_types)"
  by (simp add: atomic_task_event_types_def lifecycle_types_def)

lemma lifecycle_status_of_event:
  "ev_type e = event_for_status s \<Longrightarrow> payload_status e = Some (status_value s) \<Longrightarrow>
     lifecycle_status e = Some s"
  by (simp add: lifecycle_status_def)

lemma legal_trail_snoc:
  "legal_trail xs \<Longrightarrow> can_transition (last xs) s \<Longrightarrow> legal_trail (xs @ [s]) \<and> last (xs @ [s]) = s"
  by (auto simp: legal_trail_def successively_snoc)

lemma legal_trail_single [simp]: "legal_trail [Pending]"
  by (simp add: legal_trail_def)

text \<open>An event that is neither a lifecycle event nor an assignment leaves every history alone.\<close>

lemma history_ok_other_event:
  assumes "history_ok tasks rows" "valid_event e" "ev_type e \<notin> set atomic_task_event_types"
  shows "history_ok tasks (insert_row (event_row_of n e) rows)"
proof -
  have new: "er_type (event_row_of n e) = ev_type e" by (simp add: event_row_of_def)
  have "ev_type e \<noteq> AGENT_ASSIGNED" "lifecycle_status e = None"
    using assms(3) by (auto simp: lifecycle_status_def atomic_types_eq)
  with assms(1,2) have "\<forall>r \<in> set tasks.
      legal_trail (trail (insert_row (event_row_of n e) rows) (tk_id r)) \<and>
      last (trail (insert_row (event_row_of n e) rows) (tk_id r)) = tk_status r \<and>
      assigned (insert_row (event_row_of n e) rows) (tk_id r) = t_agents (tk_json r) \<and>
      opens (stream (insert_row (event_row_of n e) rows) (tk_id r))"
    by (simp add: history_ok_def trail_insert assigned_insert stream_insert)
  with assms(1,3) new show ?thesis
    by (simp add: history_ok_def set_insert_row del: atomic_types_eq)
qed

end
