(* ===== verification/TaskSafety.thy ===== *)
theory TaskSafety
  imports StoreInvariant
begin

text \<open>
  The task and event operations of \<open>TaskStore\<close> keep the invariant. The lemma \<open>db_inv_task_step\<close> is
  the step they share: one task row moves, and one event that tells the move is appended. Each
  body is then an instance of the contract \<open>db_operation\<close> under the precondition its caller meets.
\<close>

section \<open>The primitive steps\<close>

lemma add_event_simps [simp]:
  "db_tasks (add_event e d) = db_tasks d" "db_runs (add_event e d) = db_runs d"
  "db_artifacts (add_event e d) = db_artifacts d" "db_requests (add_event e d) = db_requests d"
  "db_routes (add_event e d) = db_routes d" "db_receipts (add_event e d) = db_receipts d"
  "db_event_seq (add_event e d) = Suc (db_event_seq d)"
  "db_events (add_event e d) = insert_row (event_row_of (Suc (db_event_seq d)) e) (db_events d)"
  by (simp_all add: add_event_def)

lemma event_row_of_simps [simp]:
  "er_seq (event_row_of n e) = n" "er_id (event_row_of n e) = ev_id e"
  "er_type (event_row_of n e) = ev_type e" "er_task (event_row_of n e) = ev_task e"
  "er_agent (event_row_of n e) = ev_agent e" "er_time (event_row_of n e) = ev_time e"
  "er_json (event_row_of n e) = canonical_event e"
  by (simp_all add: event_row_of_def)

lemma new_task_row_simps [simp]:
  "tk_id (new_task_row t at) = t_id t" "tk_status (new_task_row t at) = t_status t"
  "tk_version (new_task_row t at) = 1" "tk_json (new_task_row t at) = t"
  by (simp_all add: new_task_row_def)

lemma new_task_row_ok: "valid_task t \<Longrightarrow> task_row_ok (new_task_row t at)"
  by (simp add: task_row_ok_def new_task_row_def)

lemma tables_ok_add_event:
  assumes "tables_ok d" "valid_event e" "ev_id e \<notin> keys er_id (db_events d)"
    "opt_all (\<lambda>t. t \<in> task_ids d) (ev_task e)"
  shows "tables_ok (add_event e d)"
  using assms by (simp add: tables_ok_def events_ok_add)

lemma tables_ok_insert_task:
  assumes "tables_ok d" "tk_id r \<notin> task_ids d" "task_row_ok r"
  shows "tables_ok (db_tasks_update (insert_row r) d)"
  using assms
    events_ok_mono [OF _ subset_insertI [of "task_ids d" "tk_id r"]]
    runs_ok_mono [OF _ subset_insertI [of "task_ids d" "tk_id r"]]
    routes_ok_mono [OF _ subset_insertI [of "task_ids d" "tk_id r"]]
    artifacts_ok_mono [OF _ subset_insertI [of "task_ids d" "tk_id r"] subset_refl]
  by (simp add: tables_ok_def tasks_ok_insert keys_insert_row)

text \<open>The row that \<open>UPDATE ... WHERE task_id = ? AND version = ?\<close> addresses is the one just read.\<close>

lemma update_current_row:
  assumes "tasks_ok rows" "row_of tk_id i rows = Some row"
  shows "update_rows (\<lambda>r. tk_id r = i \<and> tk_version r = tk_version row) f rows =
           update_rows (\<lambda>r. r = row) f rows"
proof -
  have "(tk_id r = i \<and> tk_version r = tk_version row) \<longleftrightarrow> r = row" if "r \<in> set rows" for r
  proof -
    have "distinct (map tk_id rows)" using assms by (simp add: tasks_ok_def)
    from row_of_distinct [OF this that] row_of_SomeD [OF assms(2)] assms(2)
    show ?thesis by (metis option.inject)
  qed
  then show ?thesis by (simp add: update_rows_def)
qed

lemma row_of_task_ok:
  "tables_ok d \<Longrightarrow> row_of tk_id i (db_tasks d) = Some row \<Longrightarrow>
     task_row_ok row \<and> tk_id row = i \<and> i \<in> task_ids d"
  by (auto dest!: row_of_SomeD simp: tables_ok_def tasks_ok_def)

text \<open>
  An event about task \<open>i\<close> tells a move of its row from \<open>row\<close> to \<open>row'\<close>: a lifecycle event moves
  the status along an edge, an assignment appends an agent.
\<close>

definition tells :: "event \<Rightarrow> task_row \<Rightarrow> task_row \<Rightarrow> bool" where
  "tells e row row' \<longleftrightarrow>
     event_told e row \<and> tk_project row' = tk_project row \<and> tk_team row' = tk_team row \<and>
     ((lifecycle_status e = Some (tk_status row') \<and> can_transition (tk_status row) (tk_status row') \<and>
        t_agents (tk_json row') = t_agents (tk_json row) \<and> ev_type e \<noteq> AGENT_ASSIGNED) \<or>
      (ev_type e = AGENT_ASSIGNED \<and> tk_status row' = tk_status row \<and>
        (\<exists>a. ev_agent e = Some a \<and> t_agents (tk_json row') = t_agents (tk_json row) @ [a])))"

lemma validated_told:
  assumes "validate_lifecycle_event (tk_json row) s e = Inr u" "task_row_ok row"
  shows "event_told e row \<and> lifecycle_status e = Some s \<and> ev_type e \<noteq> AGENT_ASSIGNED \<and>
    ev_task e = Some (tk_id row)"
  using assms
  by (auto simp: task_row_ok_def validate_lifecycle_event_Ok lifecycle_status_of_event
      intro!: event_told_lifecycle [of e s])

lemma history_ok_step:
  assumes hist: "history_ok tasks events" and ev: "valid_event e" "ev_task e = Some (tk_id row)"
    and row: "row \<in> set tasks" "tk_id (f row) = tk_id row" "distinct (map tk_id tasks)"
    and told: "tells e row (f row)"
  shows "history_ok (update_rows (\<lambda>r. r = row) f tasks) (insert_row (event_row_of n e) events)"
proof -
  let ?ev = "insert_row (event_row_of n e) events"
  let ?rows = "update_rows (\<lambda>r. r = row) f tasks"
  let ?ok = "\<lambda>events r. legal_trail (trail events (tk_id r)) \<and>
        last (trail events (tk_id r)) = tk_status r \<and>
        assigned events (tk_id r) = t_agents (tk_json r) \<and> opens (stream events (tk_id r))"
  have other: "?ok ?ev r" if "r \<in> set tasks" "r \<noteq> row" for r
  proof -
    have "tk_id r \<noteq> tk_id row"
      using that row row_of_distinct [of tk_id tasks] by (metis option.inject)
    then show ?thesis
      using ev hist that by (simp add: trail_insert assigned_insert stream_insert history_ok_def)
  qed
  have old: "?ok events row" using hist row by (auto simp: history_ok_def)
  have "?ok ?ev (f row)"
    using told ev old row legal_trail_snoc [of "trail events (tk_id row)"]
    by (auto simp: tells_def trail_insert assigned_insert stream_insert lifecycle_status_def)
  with other have "\<forall>r \<in> set ?rows. ?ok ?ev r" by (auto simp: set_update_rows)
  moreover have "\<exists>row' \<in> set ?rows. er_task x = Some (tk_id row') \<and> event_told (er_json x) row'"
    if x: "x \<in> set ?ev" "er_type x \<in> set atomic_task_event_types" for x
  proof -
    have "\<exists>r \<in> set tasks. er_task x = Some (tk_id r) \<and> event_told (er_json x) r"
      using x hist told ev row(1)
      by (auto simp: set_insert_row history_ok_def tells_def event_told_canonical)
    then obtain r where r: "r \<in> set tasks" "er_task x = Some (tk_id r)" "event_told (er_json x) r"
      by blast
    show ?thesis
    proof (cases "r = row")
      case True
      then have "f row \<in> set ?rows" "event_told (er_json x) (f row)"
        using r told event_told_cong [of "f row" row] by (auto simp: set_update_rows tells_def)
      with True r row(2) show ?thesis by metis
    next
      case False
      then have "r \<in> set ?rows" using r by (auto simp: set_update_rows)
      with r show ?thesis by blast
    qed
  qed
  ultimately show ?thesis by (simp add: history_ok_def)
qed

lemma db_inv_task_step:
  assumes inv: "db_inv d" and row: "row_of tk_id i (db_tasks d) = Some row"
    and ev: "valid_event e" "ev_id e \<notin> keys er_id (db_events d)" "ev_task e = Some i"
    and f: "\<And>r. tk_id (f r) = tk_id r" "task_row_ok (f row)" and told: "tells e row (f row)"
  shows "db_inv (add_event e (db_tasks_update
           (update_rows (\<lambda>r. tk_id r = i \<and> tk_version r = tk_version row) f) d))"
proof -
  have tabs: "tables_ok d" and tasks: "tasks_ok (db_tasks d)" and hist: "history_ok (db_tasks d) (db_events d)"
    using inv by (auto simp: db_inv_def tables_ok_def)
  let ?rows = "update_rows (\<lambda>r. r = row) f (db_tasks d)"
  have upd: "update_rows (\<lambda>r. tk_id r = i \<and> tk_version r = tk_version row) f (db_tasks d) = ?rows"
    by (rule update_current_row [OF tasks row])
  have mem: "row \<in> set (db_tasks d)" "tk_id row = i" using row_of_SomeD [OF row] by auto
  have ids: "keys tk_id ?rows = task_ids d" by (rule keys_update_rows) (rule f)
  have "tasks_ok ?rows" using tasks f by (intro tasks_ok_update) auto
  then have "tables_ok (db_tasks_update
      (update_rows (\<lambda>r. tk_id r = i \<and> tk_version r = tk_version row) f) d)"
    using tabs ids by (simp add: tables_ok_def upd)
  then have "tables_ok (add_event e (db_tasks_update
      (update_rows (\<lambda>r. tk_id r = i \<and> tk_version r = tk_version row) f) d))"
    using ev ids mem by (intro tables_ok_add_event) (auto simp: upd)
  moreover have "history_ok ?rows (insert_row (event_row_of (Suc (db_event_seq d)) e) (db_events d))"
    using ev mem f told tasks by (intro history_ok_step [OF hist]) (auto simp: tasks_ok_def)
  ultimately show ?thesis by (simp add: db_inv_def upd)
qed

section \<open>Events that tell no move\<close>

lemma append_event_keeps:
  assumes "valid_event e" "ev_type e \<notin> set atomic_task_event_types" "db_inv d"
    "append_event_locked e d = (Inr b, d')"
  shows "db_inv d'"
proof (cases "row_of er_id (ev_id e) (db_events d)")
  case (Some r)
  with assms show ?thesis by (simp add: append_event_locked_Ok)
next
  case None
  then have "ev_id e \<notin> keys er_id (db_events d)" by (metis row_of_None)
  moreover have "d' = add_event e d" "opt_all (\<lambda>t. t \<in> task_ids d) (ev_task e)"
    using assms None by (simp_all add: append_event_locked_Ok)
  ultimately show ?thesis
    using assms by (simp add: db_inv_def tables_ok_add_event history_ok_other_event)
qed

interpretation append_event_tx: db_operation
  "\<lambda>_. valid_event e \<and> ev_type e \<notin> set atomic_task_event_types" "append_event_locked e" for e
  by unfold_locales (blast intro: append_event_keeps)

section \<open>Creation\<close>

text \<open>What \<open>create_task\<close> has checked when its transaction begins.\<close>

definition creation_pre :: "task \<Rightarrow> event \<Rightarrow> bool" where
  "creation_pre t e \<longleftrightarrow>
     valid_task t \<and> valid_event e \<and> t_status t = Pending \<and> t_agents t = [] \<and>
     validate_lifecycle_event t Pending e = Inr ()"

text \<open>An event of a task that is not stored yet is not stored either.\<close>

lemma no_event_without_task:
  assumes "tables_ok d" "i \<notin> task_ids d" "r \<in> set (db_events d)"
  shows "er_task r \<noteq> Some i"
  using assms by (auto simp: tables_ok_def events_ok_def)

lemma stored_event_task:
  assumes "tables_ok d" "row_of er_id (ev_id e) (db_events d) = Some r" "er_json r = canonical_event e"
  shows "er_task r = ev_task e \<and> r \<in> set (db_events d)"
proof -
  have "r \<in> set (db_events d)" using assms(2) row_of_SomeD by metis
  then have "r = event_row_of (er_seq r) (er_json r)"
    using assms(1) by (auto simp: tables_ok_def events_ok_def event_row_ok_def)
  then have "er_task r = ev_task (er_json r)" by (metis event_row_of_simps(4))
  with assms(3) \<open>r \<in> set (db_events d)\<close> show ?thesis by simp
qed

definition created_db :: "task \<Rightarrow> event \<Rightarrow> db \<Rightarrow> db" where
  "created_db t e d = add_event e (db_tasks_update (insert_row (new_task_row t (ev_time e))) d)"

lemma created_db_simps [simp]:
  "db_tasks (created_db t e d) = insert_row (new_task_row t (ev_time e)) (db_tasks d)"
  "db_routes (created_db t e d) = db_routes d"
  "db_events (created_db t e d) = insert_row (event_row_of (Suc (db_event_seq d)) e) (db_events d)"
  by (simp_all add: created_db_def)

lemma history_ok_create:
  assumes hist: "history_ok tasks events"
    and none: "\<And>r. r \<in> set events \<Longrightarrow> er_task r \<noteq> Some (t_id t)"
    and new: "t_id t \<notin> keys tk_id tasks" and pre: "creation_pre t e"
  shows "history_ok (insert_row (new_task_row t at) tasks) (insert_row (event_row_of n e) events)"
proof -
  let ?ev = "insert_row (event_row_of n e) events"
  let ?row = "new_task_row t at"
  have told: "event_told e ?row" "ev_task e = Some (t_id t)" "lifecycle_status e = Some Pending"
    "ev_type e \<noteq> AGENT_ASSIGNED"
    using pre validated_told [OF _ new_task_row_ok, of t at Pending e] by (auto simp: creation_pre_def)
  have ev: "valid_event e" "ev_type e = TASK_CREATED" and t: "t_status t = Pending" "t_agents t = []"
    using pre by (auto simp: creation_pre_def validate_lifecycle_event_Ok)
  have fresh: "legal_trail (trail ?ev (t_id t)) \<and> last (trail ?ev (t_id t)) = t_status t \<and>
      assigned ?ev (t_id t) = t_agents t \<and> opens (stream ?ev (t_id t))"
    using no_events_no_history [OF none] told ev t
    by (simp add: trail_insert assigned_insert stream_insert opens_def)
  have old: "legal_trail (trail ?ev (tk_id r)) \<and> last (trail ?ev (tk_id r)) = tk_status r \<and>
      assigned ?ev (tk_id r) = t_agents (tk_json r) \<and> opens (stream ?ev (tk_id r))"
    if "r \<in> set tasks" for r
  proof -
    have "tk_id r \<noteq> t_id t" using that new by (metis imageI)
    then show ?thesis
      using hist that ev told by (simp add: history_ok_def trail_insert assigned_insert stream_insert)
  qed
  have "\<exists>row \<in> insert ?row (set tasks). er_task x = Some (tk_id row) \<and> event_told (er_json x) row"
    if "x \<in> set ?ev" "er_type x \<in> set atomic_task_event_types" for x
    using that hist told ev by (auto simp: set_insert_row history_ok_def event_told_canonical)
  with fresh old show ?thesis by (simp add: history_ok_def set_insert_row)
qed

lemma create_step:
  assumes inv: "db_inv d" and pre: "creation_pre t e" and new: "t_id t \<notin> task_ids d"
    and app: "append_event_locked e
      (db_tasks_update (insert_row (new_task_row t (ev_time e))) d) = (Inr b, d')"
  shows "d' = created_db t e d \<and> b \<and> ev_id e \<notin> keys er_id (db_events d) \<and> db_inv d'"
proof -
  let ?d = "db_tasks_update (insert_row (new_task_row t (ev_time e))) d"
  have tabs: "tables_ok d" and hist: "history_ok (db_tasks d) (db_events d)"
    using inv by (auto simp: db_inv_def)
  have ev: "valid_event e" "ev_task e = Some (t_id t)" "lifecycle_status e = Some Pending"
    "ev_type e \<noteq> AGENT_ASSIGNED"
    using pre by (auto simp: creation_pre_def result_simps lifecycle_status_of_event)
  have none: "row_of er_id (ev_id e) (db_events d) = None"
  proof (rule ccontr)
    assume "row_of er_id (ev_id e) (db_events d) \<noteq> None"
    then obtain r where r: "row_of er_id (ev_id e) (db_events d) = Some r" by auto
    with app have "er_json r = canonical_event e" by (simp add: append_event_locked_Ok)
    with r stored_event_task [OF tabs r] no_event_without_task [OF tabs new] ev show False by metis
  qed
  then have fresh: "ev_id e \<notin> keys er_id (db_events d)" by (metis row_of_None)
  have d': "d' = created_db t e d" "b" using app none by (simp_all add: append_event_locked_Ok created_db_def)
  have "tables_ok ?d"
    using pre new by (intro tables_ok_insert_task [OF tabs]) (simp_all add: new_task_row_ok creation_pre_def)
  then have "tables_ok d'"
    unfolding d' created_db_def using fresh ev
    by (intro tables_ok_add_event) (simp_all add: keys_insert_row)
  moreover have "history_ok (db_tasks d') (db_events d')"
    unfolding d'(1) created_db_simps
    by (rule history_ok_create [OF hist no_event_without_task [OF tabs new] new pre])
  ultimately show ?thesis using d' fresh by (simp add: db_inv_def)
qed

lemma create_task_body_Ok:
  assumes "db_inv d" "creation_pre t e"
  shows "create_task_body t e d = (Inr t', d') \<Longrightarrow>
           t' = t \<and> t_id t \<notin> task_ids d \<and> d' = created_db t e d \<and> db_inv d'"
  using create_step [OF assms]
  by (auto simp: create_task_body_def select_task_def insert_task_def result_simps row_of_None)

interpretation create_task_tx: db_operation "\<lambda>_. creation_pre t e" "create_task_body t e" for t e
  by unfold_locales (use create_task_body_Ok in blast)

text \<open>Creation with queueing: the same row moves on to \<open>queued\<close> in the same transaction.\<close>

definition queueing_pre :: "task \<Rightarrow> task \<Rightarrow> event \<Rightarrow> event \<Rightarrow> task_route option \<Rightarrow> bool" where
  "queueing_pre t queued e1 e2 route \<longleftrightarrow>
     creation_pre t e1 \<and> valid_event e2 \<and> validate_lifecycle_event t Queued e2 = Inr () \<and>
     opt_all (\<lambda>r. valid_route r \<and> route_task r = t_id t) route \<and>
     time_admissible t (ev_time e2) \<and> queued = stamp_transition t Queued (ev_time e2)"

definition add_route :: "task_route option \<Rightarrow> db \<Rightarrow> db" where
  "add_route route d = (case route of None \<Rightarrow> d | Some r \<Rightarrow> db_routes_update (insert_row r) d)"

lemma add_route_simps [simp]:
  "db_tasks (add_route route d) = db_tasks d" "db_events (add_route route d) = db_events d"
  "db_event_seq (add_route route d) = db_event_seq d"
  by (simp_all add: add_route_def split: option.splits)

lemma insert_route_opt_Ok:
  "(case route of None \<Rightarrow> act_return () | Some r \<Rightarrow> insert_route r) d = (Inr u, d') \<longleftrightarrow>
     opt_all (\<lambda>r. route_task r \<notin> keys route_task (db_routes d) \<and> route_task r \<in> task_ids d) route \<and>
     d' = add_route route d"
  by (cases route) (auto simp: add_route_def insert_route_def result_simps)

lemma insert_route_inv:
  assumes "db_inv d" "opt_all valid_route route"
    "opt_all (\<lambda>r. route_task r \<notin> keys route_task (db_routes d) \<and> route_task r \<in> task_ids d) route"
  shows "db_inv (add_route route d)"
  using assms
  by (cases route)
    (auto simp: add_route_def db_inv_def tables_ok_def routes_ok_def distinct_insert_row set_insert_row)

definition queued_row :: "task \<Rightarrow> aware \<Rightarrow> task_row \<Rightarrow> task_row" where
  "queued_row queued at r =
     r\<lparr>tk_status := t_status queued, tk_updated := at, tk_version := 2, tk_json := queued\<rparr>"

definition queued_db :: "task \<Rightarrow> event \<Rightarrow> event \<Rightarrow> task_route option \<Rightarrow> db \<Rightarrow> db" where
  "queued_db t e1 e2 route d =
     add_event e2 (db_tasks_update
       (update_rows (\<lambda>r. tk_id r = t_id t \<and> tk_version r = 1)
          (queued_row (stamp_transition t Queued (ev_time e2)) (ev_time e2)))
       (add_route route (created_db t e1 d)))"

lemma queue_step:
  assumes inv: "db_inv d" and pre: "queueing_pre t queued e1 e2 route" and new: "t_id t \<notin> task_ids d"
    and inv1: "db_inv (add_route route (created_db t e1 d))"
    and fresh1: "ev_id e1 \<notin> keys er_id (db_events d)"
    and app: "append_event_locked e2 (db_tasks_update
       (update_rows (\<lambda>r. tk_id r = t_id t \<and> tk_version r = 1) (queued_row queued (ev_time e2)))
       (add_route route (created_db t e1 d))) = (Inr b, d')"
  shows "d' = queued_db t e1 e2 route d \<and> db_inv d'"
proof -
  let ?d = "add_route route (created_db t e1 d)"
  have tabs: "tables_ok d" using inv by (simp add: db_inv_def)
  have ev: "valid_event e2" "ev_task e2 = Some (t_id t)" "ev_type e2 = TASK_QUEUED"
    "lifecycle_status e2 = Some Queued" "ev_type e1 = TASK_CREATED"
    and t: "valid_task t" "t_status t = Pending" "t_agents t = []"
    and q: "queued = stamp_transition t Queued (ev_time e2)" "time_admissible t (ev_time e2)"
    using pre by (auto simp: queueing_pre_def creation_pre_def result_simps lifecycle_status_of_event)
  have row: "row_of tk_id (t_id t) (db_tasks ?d) = Some (new_task_row t (ev_time e1))"
    using new by (simp add: row_of_insert_row row_of_None [THEN iffD2])
  have none: "row_of er_id (ev_id e2) (db_events ?d) = None"
  proof (rule ccontr)
    assume "row_of er_id (ev_id e2) (db_events ?d) \<noteq> None"
    then obtain r where r: "row_of er_id (ev_id e2) (db_events ?d) = Some r" by auto
    with app have json: "er_json r = canonical_event e2" by (simp add: append_event_locked_Ok)
    from r consider "r \<in> set (db_events d)" | "er_json r = canonical_event e1"
      by (auto dest!: row_of_SomeD simp: set_insert_row)
    then show False
    proof cases
      case 1
      then have "r = event_row_of (er_seq r) (canonical_event e2)"
        using tabs json by (auto simp: tables_ok_def events_ok_def event_row_ok_def)
      then have "er_task r = ev_task e2" by (metis event_row_of_simps(4) canonical_event_simps(5))
      with 1 no_event_without_task [OF tabs new] ev show False by metis
    next
      case 2
      with json have "ev_type e1 = ev_type e2" by (metis canonical_event_simps(3))
      with ev show False by simp
    qed
  qed
  then have d': "d' = queued_db t e1 e2 route d"
    using app q by (simp add: append_event_locked_Ok queued_db_def)
  have valid: "valid_task queued"
    using stamp_transition_valid [OF t(1), of Queued "ev_time e2"] t q by (simp add: lifecycle_defs)
  have "db_inv (queued_db t e1 e2 route d)"
    unfolding queued_db_def
    using none new t q ev valid
      db_inv_task_step [OF inv1 row ev(1), of "queued_row queued (ev_time e2)"]
      validated_told [OF _ new_task_row_ok [OF t(1)], of "ev_time e1" Queued e2] pre
    by (simp add: row_of_None tells_def queued_row_def lifecycle_defs task_row_ok_def
        new_task_row_def queueing_pre_def)
  with d' show ?thesis by simp
qed

lemma create_queued_body_Ok:
  assumes inv: "db_inv d" and pre: "queueing_pre t queued e1 e2 route"
    and run: "create_queued_body t queued e1 e2 route d = (Inr t', d')"
  shows "t' = queued \<and> t_id t \<notin> task_ids d \<and> d' = queued_db t e1 e2 route d \<and> db_inv d'"
proof -
  have cpre: "creation_pre t e1" and q: "t_id queued = t_id t"
    using pre by (auto simp: queueing_pre_def)
  from run obtain b1 d1 b2 where new: "t_id t \<notin> task_ids d"
    and app1: "append_event_locked e1
      (db_tasks_update (insert_row (new_task_row t (ev_time e1))) d) = (Inr b1, d1)"
    and route: "opt_all (\<lambda>r. route_task r \<notin> keys route_task (db_routes d1) \<and>
        route_task r \<in> task_ids d1) route"
    and app2: "append_event_locked e2 (db_tasks_update
       (update_rows (\<lambda>r. tk_id r = t_id t \<and> tk_version r = 1) (queued_row queued (ev_time e2)))
       (add_route route d1)) = (Inr b2, d')"
    and t': "t' = queued"
    using q by (auto simp: create_queued_body_def select_task_def insert_task_def mark_queued_def
        update_task_def insert_route_opt_Ok result_simps row_of_None queued_row_def [abs_def])
  from create_step [OF inv cpre new app1]
  have d1: "d1 = created_db t e1 d" "ev_id e1 \<notin> keys er_id (db_events d)" "db_inv d1" by auto
  have "opt_all valid_route route" using pre by (cases route) (auto simp: queueing_pre_def)
  then have "db_inv (add_route route d1)" by (rule insert_route_inv [OF d1(3) _ route])
  then have "d' = queued_db t e1 e2 route d \<and> db_inv d'"
    using app2 unfolding d1(1) by (rule queue_step [OF inv pre new _ d1(2)])
  with new t' show ?thesis by blast
qed

interpretation create_queued_tx: db_operation "\<lambda>_. queueing_pre t queued e1 e2 route"
  "create_queued_body t queued e1 e2 route" for t queued e1 e2 route
  by unfold_locales (use create_queued_body_Ok in blast)

section \<open>Transition and assignment\<close>

lemma load_task_Ok:
  assumes "tables_ok d"
  shows "load_task i d = (Inr (row, t), d') \<longleftrightarrow>
           d' = d \<and> row_of tk_id i (db_tasks d) = Some row \<and> t = tk_json row"
proof (cases "row_of tk_id i (db_tasks d)")
  case None
  then show ?thesis by (auto simp: load_task_def select_task_def result_simps)
next
  case (Some r)
  then have "valid_task (tk_json r)"
    using row_of_task_ok [OF assms Some] by (simp add: task_row_ok_def)
  with Some show ?thesis by (auto simp: load_task_def select_task_def result_simps)
qed

lemma event_json_locked_Ok:
  "event_json_locked i d = (Inr x, d') \<longleftrightarrow> d' = d \<and> x = map_option er_json (row_of er_id i (db_events d))"
  by (auto simp: event_json_locked_def result_simps)

definition moved_row :: "task \<Rightarrow> aware \<Rightarrow> nat \<Rightarrow> task_row \<Rightarrow> task_row" where
  "moved_row t at v r = r\<lparr>tk_status := t_status t, tk_updated := at, tk_version := v, tk_json := t\<rparr>"

definition moved :: "task_row \<Rightarrow> task \<Rightarrow> event \<Rightarrow> db \<Rightarrow> db" where
  "moved row t e d =
     add_event e (db_tasks_update (update_rows
       (\<lambda>r. tk_id r = tk_id row \<and> tk_version r = tk_version row)
       (moved_row t (ev_time e) (tk_version row + 1))) d)"

lemma moved_row_simps [simp]:
  "tk_id (moved_row t at v r) = tk_id r" "tk_status (moved_row t at v r) = t_status t"
  "tk_json (moved_row t at v r) = t" "tk_version (moved_row t at v r) = v"
  "tk_project (moved_row t at v r) = tk_project r" "tk_team (moved_row t at v r) = tk_team r"
  by (simp_all add: moved_row_def)

lemma moved_row_ok:
  assumes "task_row_ok r" "valid_task t" "1 \<le> v"
    "t_id t = t_id (tk_json r)" "t_project t = t_project (tk_json r)"
    "t_team t = t_team (tk_json r)" "t_created t = t_created (tk_json r)"
  shows "task_row_ok (moved_row t at v r)"
  using assms by (simp add: task_row_ok_def moved_row_def)

lemma moved_keeps:
  assumes inv: "db_inv d" and row: "row_of tk_id i (db_tasks d) = Some row"
    and ev: "valid_event e" "ev_id e \<notin> keys er_id (db_events d)" "ev_task e = Some i"
    and t: "valid_task t" "t_id t = t_id (tk_json row)" "t_project t = t_project (tk_json row)"
      "t_team t = t_team (tk_json row)" "t_created t = t_created (tk_json row)"
    and told: "tells e row (moved_row t (ev_time e) (tk_version row + 1) row)"
  shows "db_inv (moved row t e d)"
proof -
  have ok: "task_row_ok row" "tk_id row = i"
    using inv row_of_task_ok [OF _ row] by (auto simp: db_inv_def)
  then show ?thesis
    using db_inv_task_step [OF inv row ev, of "moved_row t (ev_time e) (tk_version row + 1)"] told t
    by (simp add: moved_def moved_row_ok)
qed

text \<open>The append after the update of a row that was just read: the event is new, the task exists.\<close>

lemma append_moved:
  assumes tabs: "tables_ok d" and row: "row_of tk_id i (db_tasks d) = Some row"
    and ev: "row_of er_id (ev_id e) (db_events d) = None" "ev_task e = Some i"
    and f: "\<And>r. tk_id (f r) = tk_id r" "f row = moved_row t (ev_time e) (tk_version row + 1) row"
  shows "append_event_locked e (db_tasks_update (update_rows
           (\<lambda>r. tk_id r = i \<and> tk_version r = tk_version row) f) d) = (Inr b, d') \<longleftrightarrow>
         b \<and> d' = moved row t e d"
proof -
  let ?P = "\<lambda>r. tk_id r = i \<and> tk_version r = tk_version row"
  have ok: "tasks_ok (db_tasks d)" "tk_id row = i" "i \<in> task_ids d"
    using tabs row_of_task_ok [OF tabs row] by (auto simp: tables_ok_def)
  have "update_rows ?P f (db_tasks d) =
      update_rows ?P (moved_row t (ev_time e) (tk_version row + 1)) (db_tasks d)"
    unfolding update_current_row [OF ok(1) row] using f by (simp add: update_rows_def)
  then have same: "db_tasks_update (update_rows ?P f) d =
      db_tasks_update (update_rows ?P (moved_row t (ev_time e) (tk_version row + 1))) d"
    by (intro db.equality) simp_all
  have "keys tk_id (update_rows ?P (moved_row t (ev_time e) (tk_version row + 1)) (db_tasks d)) = task_ids d"
    by (rule keys_update_rows) simp
  with ok ev show ?thesis
    unfolding same by (simp add: append_event_locked_Ok moved_def)
qed

text \<open>A transition either finds its event stored, byte for byte, or moves the row along an edge.\<close>

lemma transition_body_Ok:
  assumes inv: "db_inv d" and ev: "valid_event e"
  shows "transition_body now i target e d = (Inr t, d') \<longleftrightarrow>
    (\<exists>row. row_of tk_id i (db_tasks d) = Some row \<and>
       validate_lifecycle_event (tk_json row) target e = Inr () \<and>
       (case row_of er_id (ev_id e) (db_events d) of
          Some r \<Rightarrow> er_json r = canonical_event e \<and> t = tk_json row \<and> d' = d
        | None \<Rightarrow>
            can_transition (tk_status row) target \<and> time_admissible (tk_json row) (ev_time e) \<and>
            t = stamp_transition (tk_json row) target (ev_time e) \<and> d' = moved row t e d))"
proof -
  have tabs: "tables_ok d" using inv by (simp add: db_inv_def)
  show ?thesis
  proof (cases "row_of tk_id i (db_tasks d)")
    case None
    then show ?thesis by (simp add: transition_body_def act_bind_Ok load_task_Ok [OF tabs] split_paired_Ex)
  next
    case (Some row)
    have ok: "task_row_ok row" "tk_id row = i" "i \<in> task_ids d" "valid_task (tk_json row)"
      "t_id (tk_json row) = i" "t_status (tk_json row) = tk_status row"
      using row_of_task_ok [OF tabs Some] by (auto simp: task_row_ok_def)
    have app: "append_event_locked e (db_tasks_update (update_rows
          (\<lambda>r. tk_id r = i \<and> tk_version r = tk_version row)
          (\<lambda>r. r\<lparr>tk_status := target, tk_updated := ev_time e, tk_version := Suc (tk_version row),
                 tk_json := stamp_transition (tk_json row) target (ev_time e)\<rparr>)) d) = (Inr b, d1) \<longleftrightarrow>
        b \<and> d1 = moved row (stamp_transition (tk_json row) target (ev_time e)) e d"
      if "row_of er_id (ev_id e) (db_events d) = None" "ev_task e = Some i" for b d1
      by (rule append_moved [OF tabs Some that]) (simp_all add: moved_row_def)
    show ?thesis
      using Some
      by (cases "row_of er_id (ev_id e) (db_events d)")
        (auto simp: transition_body_def load_task_Ok [OF tabs] result_simps event_json_locked_Ok
          split_paired_Ex update_task_def apply_transition_Ok app ok(4-))
  qed
qed

lemma transition_keeps:
  assumes inv: "db_inv d" and ev: "valid_event e"
    and run: "transition_body now i target e d = (Inr t, d')"
  shows "db_inv d'"
proof -
  from run obtain row where row: "row_of tk_id i (db_tasks d) = Some row"
    and life: "validate_lifecycle_event (tk_json row) target e = Inr ()"
    and cases: "case row_of er_id (ev_id e) (db_events d) of
          Some r \<Rightarrow> er_json r = canonical_event e \<and> t = tk_json row \<and> d' = d
        | None \<Rightarrow>
            can_transition (tk_status row) target \<and> time_admissible (tk_json row) (ev_time e) \<and>
            t = stamp_transition (tk_json row) target (ev_time e) \<and> d' = moved row t e d"
    by (auto simp: transition_body_Ok [OF inv ev])
  have ok: "task_row_ok row" "tk_id row = i"
    using inv row_of_task_ok [OF _ row] by (auto simp: db_inv_def)
  show ?thesis
  proof (cases "row_of er_id (ev_id e) (db_events d)")
    case (Some r)
    with cases inv show ?thesis by simp
  next
    case None
    with cases have step: "can_transition (tk_status row) target"
      "time_admissible (tk_json row) (ev_time e)"
      "t = stamp_transition (tk_json row) target (ev_time e)" "d' = moved row t e d"
      by auto
    have json: "t_id (tk_json row) = i" "t_status (tk_json row) = tk_status row" "valid_task (tk_json row)"
      using ok by (simp_all add: task_row_ok_def)
    have "ev_id e \<notin> keys er_id (db_events d)" using None by (metis row_of_None)
    moreover have "valid_task t" using stamp_transition_valid json step by simp
    moreover have "tells e row (moved_row t (ev_time e) (tk_version row + 1) row)"
      using validated_told [OF life ok(1)] step by (simp add: tells_def)
    ultimately show ?thesis
      using life step json by (auto simp: result_simps intro!: moved_keeps [OF inv row ev])
  qed
qed

interpretation transition_tx: db_operation "\<lambda>_. valid_event e" "transition_body now i target e"
  for now i target e
  by unfold_locales (blast intro: transition_keeps)

text \<open>An assignment either finds its event stored, or appends one new agent.\<close>

definition assigned_task :: "task \<Rightarrow> string \<Rightarrow> task" where
  "assigned_task t agent = t\<lparr>t_agents := t_agents t @ [agent]\<rparr>"

definition assignment_matches :: "task \<Rightarrow> string \<Rightarrow> event \<Rightarrow> bool" where
  "assignment_matches t agent e \<longleftrightarrow>
     ev_type e = AGENT_ASSIGNED \<and> ev_task e = Some (t_id t) \<and> ev_agent e = Some agent \<and>
     ev_project e = Some (t_project t) \<and> ev_team e = Some (t_team t)"

lemma assigned_task_valid:
  assumes "valid_task t" "clean Identifier agent" "agent \<notin> set (t_agents t)"
  shows "valid_task (assigned_task t agent)"
  using assms by (simp add: valid_task_iff assigned_task_def fields_clean_def timestamps_ok_def)

lemma valid_event_agent: "valid_event e \<Longrightarrow> ev_agent e = Some a \<Longrightarrow> clean Identifier a"
  by (auto simp: valid_event_iff event_fields_clean_def)

lemma assign_body_Ok:
  assumes inv: "db_inv d" and ev: "valid_event e"
  shows "assign_body i agent e d = (Inr t, d') \<longleftrightarrow>
    (\<exists>row. row_of tk_id i (db_tasks d) = Some row \<and> assignment_matches (tk_json row) agent e \<and>
       (case row_of er_id (ev_id e) (db_events d) of
          Some r \<Rightarrow> er_json r = canonical_event e \<and> t = tk_json row \<and> d' = d
        | None \<Rightarrow>
            payload_status e = Some (status_value (tk_status row)) \<and>
            agent \<notin> set (t_agents (tk_json row)) \<and>
            t = assigned_task (tk_json row) agent \<and> d' = moved row t e d))"
proof -
  have tabs: "tables_ok d" using inv by (simp add: db_inv_def)
  show ?thesis
  proof (cases "row_of tk_id i (db_tasks d)")
    case None
    then show ?thesis by (simp add: assign_body_def act_bind_Ok load_task_Ok [OF tabs] split_paired_Ex)
  next
    case (Some row)
    have ok: "task_row_ok row" "tk_id row = i" "i \<in> task_ids d" "valid_task (tk_json row)"
      "t_id (tk_json row) = i" "t_status (tk_json row) = tk_status row"
      using row_of_task_ok [OF tabs Some] by (auto simp: task_row_ok_def)
    let ?new = "assigned_task (tk_json row) agent"
    have check: "Task_validate ?new = Inr t' \<longleftrightarrow> t' = ?new"
      if "assignment_matches (tk_json row) agent e" "agent \<notin> set (t_agents (tk_json row))" for t'
    proof -
      have "valid_task ?new"
        using that ev ok by (intro assigned_task_valid) (auto simp: assignment_matches_def valid_event_agent)
      then show ?thesis by (auto simp: valid_task_def)
    qed
    have app: "append_event_locked e (db_tasks_update (update_rows
          (\<lambda>r. tk_id r = i \<and> tk_version r = tk_version row)
          (\<lambda>r. r\<lparr>tk_updated := ev_time e, tk_version := Suc (tk_version row), tk_json := ?new\<rparr>)) d)
          = (Inr b, d1) \<longleftrightarrow> b \<and> d1 = moved row ?new e d"
      if "row_of er_id (ev_id e) (db_events d) = None" "ev_task e = Some i" for b d1
      by (rule append_moved [OF tabs Some that])
        (use ok in \<open>simp_all add: moved_row_def assigned_task_def\<close>)
    show ?thesis
      using Some
      by (cases "row_of er_id (ev_id e) (db_events d)")
        (auto simp: assign_body_def load_task_Ok [OF tabs] result_simps event_json_locked_Ok
          split_paired_Ex update_task_def assigned_task_def [symmetric] assignment_matches_def
          check app ok(4-))
  qed
qed

lemma assign_keeps:
  assumes inv: "db_inv d" and ev: "valid_event e"
    and run: "assign_body i agent e d = (Inr t, d')"
  shows "db_inv d'"
proof -
  from run obtain row where row: "row_of tk_id i (db_tasks d) = Some row"
    and matches: "assignment_matches (tk_json row) agent e"
    and cases: "case row_of er_id (ev_id e) (db_events d) of
          Some r \<Rightarrow> er_json r = canonical_event e \<and> t = tk_json row \<and> d' = d
        | None \<Rightarrow>
            payload_status e = Some (status_value (tk_status row)) \<and>
            agent \<notin> set (t_agents (tk_json row)) \<and>
            t = assigned_task (tk_json row) agent \<and> d' = moved row t e d"
    by (auto simp: assign_body_Ok [OF inv ev])
  have ok: "task_row_ok row" "tk_id row = i"
    using inv row_of_task_ok [OF _ row] by (auto simp: db_inv_def)
  show ?thesis
  proof (cases "row_of er_id (ev_id e) (db_events d)")
    case (Some r)
    with cases inv show ?thesis by simp
  next
    case None
    with cases have step: "agent \<notin> set (t_agents (tk_json row))"
      "t = assigned_task (tk_json row) agent" "d' = moved row t e d"
      by auto
    have json: "t_id (tk_json row) = i" "t_status (tk_json row) = tk_status row" "valid_task (tk_json row)"
      using ok by (simp_all add: task_row_ok_def)
    have "ev_id e \<notin> keys er_id (db_events d)" using None by (metis row_of_None)
    moreover have "valid_task t"
      using json step matches ev
      by (auto simp: assignment_matches_def intro!: assigned_task_valid valid_event_agent)
    moreover have "tells e row (moved_row t (ev_time e) (tk_version row + 1) row)"
      using matches step json ok(1)
      by (simp add: tells_def assignment_matches_def assigned_task_def event_told_def task_row_ok_def)
    ultimately show ?thesis
      using matches step json
      by (auto simp: assignment_matches_def assigned_task_def intro!: moved_keeps [OF inv row ev])
  qed
qed

interpretation assign_tx: db_operation "\<lambda>_. valid_event e" "assign_body i agent e" for i agent e
  by unfold_locales (blast intro: assign_keeps)

end
