(* ===== verification/LedgerSafety.thy ===== *)
theory LedgerSafety
  imports TaskSafety
begin

text \<open>
  The run, artifact and ledger operations keep the invariant: each changes one table. The exact
  outcomes of the bodies, which the properties of the root theory also rest on, come first.
\<close>

section \<open>Runs\<close>

lemma run_row_of_simps [simp]:
  "rr_id (run_row_of r) = run_id r" "rr_task (run_row_of r) = run_task r"
  "rr_status (run_row_of r) = run_status r" "rr_json (run_row_of r) = r"
  "rr_created (run_row_of r) = run_created r"
  by (simp_all add: run_row_of_def)

lemma create_run_body_Ok:
  "create_run_body r d = (Inr r', d') \<longleftrightarrow>
     run_id r \<notin> keys rr_id (db_runs d) \<and> run_task r \<in> task_ids d \<and> r' = r \<and>
     d' = db_runs_update (insert_row (run_row_of r)) d"
  by (auto simp: create_run_body_def select_run_def select_task_def insert_run_locked_def result_simps
      row_of_None)

lemma create_run_keeps:
  assumes "db_inv d" "valid_run r" "create_run_body r d = (Inr r', d')"
  shows "db_inv d'"
proof -
  have d': "d' = db_runs_update (insert_row (run_row_of r)) d" and new: "run_id r \<notin> keys rr_id (db_runs d)"
    "run_task r \<in> task_ids d"
    using assms(3) by (auto simp: create_run_body_Ok)
  have "artifacts_ok (task_ids d) (keys (\<lambda>r. (rr_id r, rr_task r)) (db_runs d')) (db_artifacts d)"
    using assms(1) artifacts_ok_mono [OF _ subset_refl subset_insertI]
    by (simp add: db_inv_def tables_ok_def d' keys_insert_row)
  with assms new show ?thesis
    by (auto simp: d' db_inv_def tables_ok_def runs_ok_def run_row_ok_def distinct_insert_row set_insert_row)
qed

interpretation create_run_tx: db_operation "\<lambda>_. valid_run r" "create_run_body r" for r
  by unfold_locales (blast intro: create_run_keeps)

lemma row_of_run_ok:
  "tables_ok d \<Longrightarrow> row_of rr_id i (db_runs d) = Some row \<Longrightarrow>
     row \<in> set (db_runs d) \<and> run_row_ok row \<and> rr_id row = i \<and> run_id (rr_json row) = i \<and>
     valid_run (rr_json row)"
  by (auto dest!: row_of_SomeD simp: tables_ok_def runs_ok_def run_row_ok_def)
    (metis run_row_of_simps(1))

lemma get_run_locked_Ok:
  assumes "tables_ok d"
  shows "get_run_locked i d = (Inr r, d') \<longleftrightarrow>
           d' = d \<and> (\<exists>row. row_of rr_id i (db_runs d) = Some row \<and> r = rr_json row)"
proof (cases "row_of rr_id i (db_runs d)")
  case (Some row)
  with row_of_run_ok [OF assms Some] show ?thesis
    by (auto simp: get_run_locked_def select_run_def result_simps)
qed (auto simp: get_run_locked_def select_run_def result_simps)

text \<open>Writing a valid copy of a stored run that keeps its identity.\<close>

definition written_run :: "run_record \<Rightarrow> run_row \<Rightarrow> run_row" where
  "written_run r row =
     row\<lparr>rr_status := run_status r, rr_started := run_started r,
         rr_completed := run_completed r, rr_json := r\<rparr>"

definition put_run :: "run_record \<Rightarrow> db \<Rightarrow> db" where
  "put_run r = db_runs_update (update_rows (\<lambda>row. rr_id row = run_id r) (written_run r))"

lemma write_run_locked_Ok: "write_run_locked r d = (Inr u, d') \<longleftrightarrow> d' = put_run r d"
  by (auto simp: write_run_locked_def put_run_def written_run_def [abs_def] act_modify_def)

lemma put_run_simps [simp]:
  "db_tasks (put_run r d) = db_tasks d" "db_events (put_run r d) = db_events d"
  "db_event_seq (put_run r d) = db_event_seq d" "db_artifacts (put_run r d) = db_artifacts d"
  "db_requests (put_run r d) = db_requests d" "db_routes (put_run r d) = db_routes d"
  "db_receipts (put_run r d) = db_receipts d"
  "db_runs (put_run r d) = update_rows (\<lambda>row. rr_id row = run_id r) (written_run r) (db_runs d)"
  by (simp_all add: put_run_def)

lemma written_run_simps [simp]:
  "rr_id (written_run r row) = rr_id row" "rr_task (written_run r row) = rr_task row"
  "rr_created (written_run r row) = rr_created row" "rr_status (written_run r row) = run_status r"
  "rr_json (written_run r row) = r"
  by (simp_all add: written_run_def)

lemma written_run_eq:
  "run_id r = rr_id row \<Longrightarrow> run_task r = rr_task row \<Longrightarrow> run_created r = rr_created row \<Longrightarrow>
     written_run r row = run_row_of r"
  by (intro run_row.equality) (simp_all add: run_row_of_def written_run_def)

lemma put_run_keeps:
  assumes inv: "db_inv d" and row: "row \<in> set (db_runs d)"
    and r: "valid_run r" "run_id r = rr_id row" "run_task r = rr_task row" "run_created r = rr_created row"
  shows "db_inv (put_run r d)"
proof -
  let ?rows = "db_runs (put_run r d)"
  have runs: "runs_ok (task_ids d) (db_runs d)" using inv by (simp add: db_inv_def tables_ok_def)
  then have uniq: "row' = row" if "row' \<in> set (db_runs d)" "rr_id row' = run_id r" for row'
    using that row r row_of_distinct [of rr_id "db_runs d"] by (metis option.inject runs_ok_def)
  have put: "written_run r row' = run_row_of r \<and> rr_task row' = run_task r"
    if "row' \<in> set (db_runs d)" "rr_id row' = run_id r" for row'
    using uniq [OF that] r by (simp add: written_run_eq)
  have keys1: "keys (\<lambda>r. (rr_id r, rr_task r)) ?rows = run_keys d"
    unfolding put_run_simps by (rule keys_update_rows) simp
  have "distinct (map rr_id ?rows)"
    using runs by (simp add: map_key_update_rows runs_ok_def)
  moreover have "\<forall>x \<in> set ?rows. run_row_ok x \<and> rr_task x \<in> task_ids d"
    using runs put r(1)
    by (auto simp: runs_ok_def set_update_rows run_row_ok_def)
  ultimately have "runs_ok (task_ids d) ?rows" by (simp add: runs_ok_def)
  with inv keys1 show ?thesis by (simp add: db_inv_def tables_ok_def)
qed

lemma start_run_body_Ok:
  assumes "tables_ok d"
  shows "start_run_body i at d = (Inr r, d') \<longleftrightarrow>
    (\<exists>row. row_of rr_id i (db_runs d) = Some row \<and> run_status (rr_json row) = RunQueued \<and>
       RunRecord_validate (rr_json row\<lparr>run_status := RunRunning, run_started := Some at\<rparr>) = Inr r \<and>
       d' = put_run r d)"
  by (auto simp: start_run_body_def act_bind_Ok act_require_Ok act_lift_Ok act_return_Ok map_error_Ok
      get_run_locked_Ok [OF assms] write_run_locked_Ok)

lemma finish_run_body_Ok:
  assumes "tables_ok d"
  shows "finish_run_body i s at code err d = (Inr r, d') \<longleftrightarrow>
    (\<exists>row. row_of rr_id i (db_runs d) = Some row \<and> \<not> run_terminal (run_status (rr_json row)) \<and>
       RunRecord_validate (finished_run (rr_json row) s at code err) = Inr r \<and> d' = put_run r d)"
  by (auto simp: finish_run_body_def act_bind_Ok act_require_Ok act_lift_Ok act_return_Ok map_error_Ok
      get_run_locked_Ok [OF assms] write_run_locked_Ok run_terminal_def)

lemma RunRecord_validate_identity:
  assumes "RunRecord_validate r = Inr r'" "clean RunId (run_id r)" "clean TaskId (run_task r)"
  shows "run_id r' = run_id r \<and> run_task r' = run_task r \<and> run_created r' = run_created r"
  using assms by (auto simp: RunRecord_validate_def result_simps clean_iff)

lemma changed_run_keeps:
  assumes inv: "db_inv d" and row: "row_of rr_id i (db_runs d) = Some row"
    and r: "RunRecord_validate r0 = Inr r" "run_id r0 = run_id (rr_json row)"
      "run_task r0 = run_task (rr_json row)" "run_created r0 = run_created (rr_json row)"
  shows "db_inv (put_run r d)"
proof -
  have ok: "row \<in> set (db_runs d)" "row = run_row_of (rr_json row)" "valid_run (rr_json row)"
    using inv row_of_run_ok [OF _ row] by (auto simp: db_inv_def run_row_ok_def)
  then have "run_id r = run_id (rr_json row) \<and> run_task r = run_task (rr_json row) \<and>
      run_created r = run_created (rr_json row)"
    using RunRecord_validate_identity [OF r(1)] r
    by (auto simp: valid_run_iff run_fields_clean_def)
  moreover have "rr_id row = run_id (rr_json row)" "rr_task row = run_task (rr_json row)"
    "rr_created row = run_created (rr_json row)"
    using ok(2) by (metis run_row_of_simps)+
  ultimately show ?thesis
    using RunRecord_validate_valid [OF r(1)] by (intro put_run_keeps [OF inv ok(1)]) simp_all
qed

interpretation start_run_tx: db_operation "\<lambda>_. True" "start_run_body i at" for i at
  by unfold_locales
    (auto simp: start_run_body_Ok db_inv_def [THEN iffD1, THEN conjunct1] intro: changed_run_keeps)

interpretation finish_run_tx: db_operation "\<lambda>_. True" "finish_run_body i s at code err" for i s at code err
  by unfold_locales
    (auto simp: finish_run_body_Ok db_inv_def [THEN iffD1, THEN conjunct1] finished_run_def
      intro: changed_run_keeps)

section \<open>Artifacts\<close>

lemma artifact_row_of_simps [simp]:
  "ar_id (artifact_row_of a) = art_id a" "ar_task (artifact_row_of a) = art_task a"
  "ar_run (artifact_row_of a) = art_run a" "ar_json (artifact_row_of a) = a"
  "ar_created (artifact_row_of a) = art_created a"
  by (simp_all add: artifact_row_of_def)

lemma create_artifact_body_Ok:
  "create_artifact_body a d = (Inr a', d') \<longleftrightarrow>
     art_id a \<notin> keys ar_id (db_artifacts d) \<and> art_task a \<in> task_ids d \<and>
     opt_all (\<lambda>r. (r, art_task a) \<in> run_keys d) (art_run a) \<and> a' = a \<and>
     d' = db_artifacts_update (insert_row (artifact_row_of a)) d"
  by (cases "art_run a")
    (auto simp: create_artifact_body_def select_task_def insert_artifact_def result_simps row_of_None
      run_of_task_def)

interpretation create_artifact_tx: db_operation "\<lambda>_. True" "create_artifact_body a" for a
  by unfold_locales
    (auto simp: create_artifact_body_Ok db_inv_def tables_ok_def artifacts_ok_def distinct_insert_row
      set_insert_row)

section \<open>Gateway requests\<close>

abbreviation reservation :: "request_record \<Rightarrow> request_row" where
  "reservation r \<equiv> \<lparr>gq_key = req_key r, gq_response = None, gq_created = req_created r\<rparr>"

lemma new_request_Ok:
  "new_request key response at = Inr r \<longleftrightarrow>
     request_key key = Inr (req_key r) \<and> req_response r = response \<and> req_created r = at \<and>
     opt_all (\<lambda>doc. keys_allowed response_key_forbidden (JObj doc)) response"
proof -
  have reject: "reject_secret_response_fields x = Inr y \<longleftrightarrow>
      y = x \<and> opt_all (\<lambda>doc. keys_allowed response_key_forbidden (JObj doc)) x" for x y
  proof (cases x)
    case (Some doc)
    then show ?thesis
      using find_forbidden_None(1) [of response_key_forbidden "JObj doc" "''response''"]
      by (cases "find_forbidden_key (JObj doc)")
        (auto simp: reject_secret_response_fields_def find_forbidden_key_def)
  qed (auto simp: reject_secret_response_fields_def)
  show ?thesis
    unfolding new_request_def map_error_Ok GatewayRequestRecord_validate_def and_then_Ok reject
      request_key_def
    by (cases r) auto
qed

lemma request_key_clean: "request_key k = Inr k' \<Longrightarrow> clean IdempotencyKey k'"
  by (auto simp: request_key_def dest: checked_clean)

lemma clean_request_key [simp]: "clean IdempotencyKey k \<Longrightarrow> request_key k = Inr k"
  by (simp add: request_key_def)

lemma reserve_request_body_Ok:
  "reserve_request_body r d = (Inr b, d') \<longleftrightarrow>
     (if req_key r \<in> keys gq_key (db_requests d) then \<not> b \<and> d' = d
      else b \<and> d' = db_requests_update (insert_row (reservation r)) d)"
proof (cases "row_of gq_key (req_key r) (db_requests d)")
  case None
  then have "req_key r \<notin> keys gq_key (db_requests d)" by (metis row_of_None)
  with None show ?thesis by (auto simp: reserve_request_body_def result_simps)
next
  case (Some row)
  then have "req_key r \<in> keys gq_key (db_requests d)" by (metis row_of_None option.distinct(1))
  with Some show ?thesis by (auto simp: reserve_request_body_def result_simps)
qed

interpretation reserve_request_tx: db_operation "\<lambda>_. clean IdempotencyKey (req_key r)"
  "reserve_request_body r" for r
  by unfold_locales
    (auto simp: reserve_request_body_Ok db_inv_def tables_ok_def requests_ok_def distinct_insert_row
      set_insert_row request_row_ok_def split: if_splits)

definition answered :: "string \<Rightarrow> json_object \<Rightarrow> db \<Rightarrow> db" where
  "answered key doc = db_requests_update (update_rows (\<lambda>row. gq_key row = key)
     (\<lambda>row. row\<lparr>gq_response := Some (canonical_object doc)\<rparr>))"

lemma remember_body_Ok:
  "remember_body key doc d = (Inr r, d') \<longleftrightarrow>
     (\<exists>row. row_of gq_key key (db_requests d) = Some row \<and>
        opt_all (\<lambda>existing. existing = canonical_object doc) (gq_response row) \<and>
        new_request key (Some doc) (gq_created row) = Inr r \<and>
        d' = (if gq_response row = None then answered key doc d else d))"
  by (cases "row_of gq_key key (db_requests d)")
    (auto simp: remember_body_def result_simps answered_def)

lemma answered_keeps:
  "db_inv d \<Longrightarrow> keys_allowed response_key_forbidden (JObj doc) \<Longrightarrow> db_inv (answered key doc d)"
  by (auto simp: answered_def db_inv_def tables_ok_def requests_ok_def map_key_update_rows
      set_update_rows request_row_ok_def keys_allowed_canonical_object simp del: keys_allowed.simps)

interpretation remember_tx: db_operation "\<lambda>_. True" "remember_body key doc" for key doc
  by unfold_locales
    (auto simp: remember_body_Ok new_request_Ok answered_keeps simp del: keys_allowed.simps
      split: if_splits)

lemma release_request_body_Ok:
  "release_request_body key d = (Inr b, d') \<longleftrightarrow>
     (case row_of gq_key key (db_requests d) of
        None \<Rightarrow> \<not> b \<and> d' = d
      | Some row \<Rightarrow> gq_response row = None \<and> b \<and>
          d' = db_requests_update (delete_rows (\<lambda>row. gq_key row = key)) d)"
  by (auto simp: release_request_body_def result_simps split: option.splits)

lemma requests_delete_keeps:
  "db_inv d \<Longrightarrow> db_inv (db_requests_update (delete_rows P) d)"
  by (auto simp: db_inv_def tables_ok_def requests_ok_def distinct_delete_rows set_delete_rows)

interpretation release_request_tx: db_operation "\<lambda>_. True" "release_request_body key" for key
  by unfold_locales (auto simp: release_request_body_Ok requests_delete_keeps split: option.splits)

lemma reconcile_requests_body_Ok:
  "reconcile_requests_body d = (Inr ks, d') \<longleftrightarrow>
     ks = order_by (\<le>) (map gq_key (filter (\<lambda>r. gq_response r = None) (db_requests d))) \<and>
     d' = db_requests_update (delete_rows (\<lambda>r. gq_response r = None)) d"
  by (auto simp: reconcile_requests_body_def result_simps)

interpretation reconcile_requests_tx: db_operation "\<lambda>_. True" reconcile_requests_body
  by unfold_locales (auto simp: reconcile_requests_body_Ok requests_delete_keeps)

section \<open>Routes\<close>

lemma save_route_body_Ok:
  "save_route_body r d = (Inr r', d') \<longleftrightarrow>
     r' = r \<and> route_task r \<in> task_ids d \<and>
     (case row_of route_task (route_task r) (db_routes d) of
        None \<Rightarrow> d' = db_routes_update (insert_row r) d
      | Some row \<Rightarrow> row = r \<and> d' = d)"
proof (cases "row_of route_task (route_task r) (db_routes d)")
  case None
  then have "route_task r \<notin> keys route_task (db_routes d)" by (metis row_of_None)
  with None show ?thesis
    by (auto simp: save_route_body_def select_task_def insert_route_def result_simps row_of_Some_iff)
next
  case (Some row)
  then have "route_task row = route_task r" by (metis row_of_SomeD)
  then have "row = r \<longleftrightarrow> route_source row = route_source r \<and> route_target row = route_target r"
    by (auto intro: task_route.equality)
  with Some show ?thesis
    by (auto simp: save_route_body_def select_task_def result_simps row_of_Some_iff)
qed

lemma save_route_keeps:
  assumes "db_inv d" "valid_route r" "save_route_body r d = (Inr r', d')"
  shows "db_inv d'"
proof (cases "row_of route_task (route_task r) (db_routes d)")
  case None
  then have "route_task r \<notin> keys route_task (db_routes d)" by (metis row_of_None)
  with None assms show ?thesis
    by (auto simp: save_route_body_Ok db_inv_def tables_ok_def routes_ok_def distinct_insert_row
        set_insert_row)
qed (use assms in \<open>auto simp: save_route_body_Ok\<close>)

interpretation save_route_tx: db_operation "\<lambda>_. valid_route r" "save_route_body r" for r
  by unfold_locales (blast intro: save_route_keeps)

section \<open>Delivery receipts\<close>

lemma new_receipt_Ok:
  "new_receipt i state created delivered = Inr r \<longleftrightarrow>
     delivery_key i = Inr (rc_id r) \<and> rc_state r = state \<and> rc_created r = created \<and>
     rc_delivered r = delivered \<and> receipt_state_ok r"
  unfolding new_receipt_def map_error_Ok DeliveryReceipt_validate_def delivery_key_def [symmetric]
    and_then_Ok validate_delivery_state_Ok
  by (cases r) auto

lemma reserve_delivery_body_Ok:
  "reserve_delivery_body r d = (Inr b, d') \<longleftrightarrow>
     (if rc_id r \<in> keys rc_id (db_receipts d) then \<not> b \<and> d' = d
      else b \<and> d' = db_receipts_update (insert_row (r\<lparr>rc_delivered := None\<rparr>)) d)"
proof (cases "row_of rc_id (rc_id r) (db_receipts d)")
  case None
  then have "rc_id r \<notin> keys rc_id (db_receipts d)" by (metis row_of_None)
  with None show ?thesis by (auto simp: reserve_delivery_body_def result_simps)
next
  case (Some row)
  then have "rc_id r \<in> keys rc_id (db_receipts d)" by (metis row_of_None option.distinct(1))
  with Some show ?thesis by (auto simp: reserve_delivery_body_def result_simps)
qed

interpretation reserve_delivery_tx: db_operation
  "\<lambda>_. rc_state r = RESERVED \<and> valid_receipt r" "reserve_delivery_body r" for r
  by unfold_locales
    (auto simp: reserve_delivery_body_Ok db_inv_def tables_ok_def receipts_ok_def distinct_insert_row
      set_insert_row valid_receipt_iff receipt_state_ok_def split: if_splits)

definition delivered_db :: "receipt \<Rightarrow> aware \<Rightarrow> db \<Rightarrow> db" where
  "delivered_db r at = db_receipts_update (update_rows (\<lambda>row. rc_id row = rc_id r)
     (\<lambda>row. row\<lparr>rc_state := DELIVERED, rc_delivered := Some at\<rparr>))"

lemma row_of_receipt_ok:
  "tables_ok d \<Longrightarrow> row_of rc_id i (db_receipts d) = Some row \<Longrightarrow>
     valid_receipt row \<and> rc_id row = i \<and> clean_delivery_key i"
  by (auto dest!: row_of_SomeD simp: tables_ok_def receipts_ok_def valid_receipt_iff)

lemma mark_delivered_body_Ok:
  assumes "tables_ok d"
  shows "mark_delivered_body i at d = (Inr r, d') \<longleftrightarrow>
    (\<exists>row. row_of rc_id i (db_receipts d) = Some row \<and>
       (if rc_state row = DELIVERED then r = row \<and> d' = d
        else utc (rc_created row) \<le> utc at \<and> r = row\<lparr>rc_state := DELIVERED, rc_delivered := Some at\<rparr> \<and>
             d' = delivered_db r at d))"
proof (cases "row_of rc_id i (db_receipts d)")
  case None
  then show ?thesis by (simp add: mark_delivered_body_def result_simps)
next
  case (Some row)
  have ok: "rc_id row = i" "clean_delivery_key i" "receipt_state_ok row"
    using row_of_receipt_ok [OF assms Some] by (auto simp: valid_receipt_iff)
  have new: "new_receipt i DELIVERED (rc_created row) x = Inr r' \<longleftrightarrow>
      r' = row\<lparr>rc_state := DELIVERED, rc_delivered := x\<rparr> \<and>
      receipt_state_ok (row\<lparr>rc_state := DELIVERED, rc_delivered := x\<rparr>)" for x r'
    using ok by (cases r'; cases row) (auto simp: new_receipt_Ok)
  show ?thesis
    using Some ok
    by (cases "rc_state row")
      (auto simp: mark_delivered_body_def result_simps new delivered_db_def receipt_state_ok_def)
qed

lemma delivered_db_keeps:
  assumes inv: "db_inv d" and row: "row_of rc_id i (db_receipts d) = Some row"
    and at: "utc (rc_created row) \<le> utc at" and r: "rc_id r = i"
  shows "db_inv (delivered_db r at d)"
proof -
  let ?f = "\<lambda>row. row\<lparr>rc_state := DELIVERED, rc_delivered := Some at\<rparr>"
  have rc: "receipts_ok (db_receipts d)" using inv by (simp add: db_inv_def tables_ok_def)
  have uniq: "row' = row" if "row' \<in> set (db_receipts d)" "rc_id row' = i" for row'
    using that rc row row_of_distinct [of rc_id "db_receipts d" row'] by (auto simp: receipts_ok_def)
  have "valid_receipt (?f row)"
    using rc row at row_of_SomeD [OF row]
    by (auto simp: receipts_ok_def valid_receipt_iff receipt_state_ok_def)
  then have "receipts_ok (update_rows (\<lambda>row. rc_id row = i) ?f (db_receipts d))"
    using rc uniq by (auto simp: receipts_ok_def map_key_update_rows set_update_rows)
  with inv r show ?thesis by (simp add: delivered_db_def db_inv_def tables_ok_def)
qed

lemma mark_delivered_keeps:
  assumes inv: "db_inv d" and run: "mark_delivered_body i at d = (Inr r, d')"
  shows "db_inv d'"
proof -
  have tabs: "tables_ok d" using inv by (simp add: db_inv_def)
  from run obtain row where row: "row_of rc_id i (db_receipts d) = Some row"
    and c: "if rc_state row = DELIVERED then r = row \<and> d' = d
        else utc (rc_created row) \<le> utc at \<and> r = row\<lparr>rc_state := DELIVERED, rc_delivered := Some at\<rparr> \<and>
             d' = delivered_db r at d"
    by (auto simp: mark_delivered_body_Ok [OF tabs])
  have "rc_id row = i" using row_of_SomeD [OF row] by simp
  with c inv show ?thesis by (auto intro: delivered_db_keeps [OF inv row] split: if_splits)
qed

interpretation mark_delivered_tx: db_operation "\<lambda>_. True" "mark_delivered_body i at" for i at
  by unfold_locales (blast intro: mark_delivered_keeps)

lemma release_delivery_body_Ok:
  "release_delivery_body i d = (Inr b, d') \<longleftrightarrow>
     (case row_of rc_id i (db_receipts d) of
        None \<Rightarrow> \<not> b \<and> d' = d
      | Some row \<Rightarrow> rc_state row = RESERVED \<and> b \<and>
          d' = db_receipts_update (delete_rows (\<lambda>row. rc_id row = i)) d)"
proof (cases "row_of rc_id i (db_receipts d)")
  case (Some row)
  then show ?thesis
    by (cases "rc_state row") (auto simp: release_delivery_body_def result_simps)
qed (auto simp: release_delivery_body_def result_simps)

lemma receipts_delete_keeps:
  "db_inv d \<Longrightarrow> db_inv (db_receipts_update (delete_rows P) d)"
  by (auto simp: db_inv_def tables_ok_def receipts_ok_def distinct_delete_rows set_delete_rows)

interpretation release_delivery_tx: db_operation "\<lambda>_. True" "release_delivery_body i" for i
  by unfold_locales (auto simp: release_delivery_body_Ok receipts_delete_keeps split: option.splits)

lemma reconcile_deliveries_body_Ok:
  "reconcile_deliveries_body d = (Inr ks, d') \<longleftrightarrow>
     ks = order_by (\<le>) (map rc_id (filter (\<lambda>r. rc_state r = RESERVED) (db_receipts d))) \<and>
     d' = db_receipts_update (delete_rows (\<lambda>r. rc_state r = RESERVED)) d"
  by (auto simp: reconcile_deliveries_body_def result_simps)

interpretation reconcile_deliveries_tx: db_operation "\<lambda>_. True" reconcile_deliveries_body
  by unfold_locales (auto simp: reconcile_deliveries_body_Ok receipts_delete_keeps)

end
