(* ===== verification/RecoverySafety.thy ===== *)
theory RecoverySafety
  imports LedgerSafety
begin

text \<open>
  \<open>reconcile_interrupted_running\<close> keeps the invariant and reaches its goal: afterwards no run is
  queued or running and no task is planning or running. Both loops are handled by induction over
  the rows fetched before the first change, which the earlier iterations leave alone.
\<close>

section \<open>Interrupting runs\<close>

lemma interrupted_run_finished:
  "interrupted_run at r = finished_run r RunInterrupted at (run_exit_code r) (Some ''process-restart'')"
  by (simp add: interrupted_run_def finished_run_def)

lemma interrupt_run_Ok:
  assumes inv: "db_inv d" and row: "row \<in> set (db_runs d)"
  shows "interrupt_run at row d = (Inr r, d') \<longleftrightarrow>
           RunRecord_validate (interrupted_run at (rr_json row)) = Inr r \<and> d' = put_run r d"
proof -
  have "valid_run (rr_json row)"
    using inv row by (auto simp: db_inv_def tables_ok_def runs_ok_def run_row_ok_def)
  then show ?thesis
    by (auto simp: interrupt_run_def act_bind_Ok act_lift_Ok act_return_Ok map_error_Ok write_run_locked_Ok)
qed

lemma interrupt_run_step:
  assumes inv: "db_inv d" and row: "row \<in> set (db_runs d)"
    and run: "interrupt_run at row d = (Inr r, d')"
  shows "db_inv d' \<and> db_tasks d' = db_tasks d \<and> db_events d' = db_events d \<and>
    db_event_seq d' = db_event_seq d \<and> d' = d\<lparr>db_runs := db_runs d'\<rparr> \<and>
    run_status r = RunInterrupted \<and> run_id r = rr_id row \<and>
    db_runs d' = update_rows (\<lambda>x. rr_id x = rr_id row) (written_run r) (db_runs d)"
proof -
  have v: "RunRecord_validate (interrupted_run at (rr_json row)) = Inr r" and d': "d' = put_run r d"
    using run by (auto simp: interrupt_run_Ok [OF inv row])
  have at: "row_of rr_id (rr_id row) (db_runs d) = Some row"
    using inv row by (auto simp: db_inv_def tables_ok_def runs_ok_def intro: row_of_distinct)
  have ok: "valid_run (rr_json row)" "rr_id row = run_id (rr_json row)"
    using row_of_run_ok [OF _ at] inv by (auto simp: db_inv_def)
  then have "run_id r = rr_id row"
    using RunRecord_validate_identity [OF v]
    by (auto simp: interrupted_run_def valid_run_iff run_fields_clean_def)
  moreover have "run_status r = RunInterrupted"
    using v by (auto simp: RunRecord_validate_def result_simps interrupted_run_def)
  moreover have "db_inv d'"
    unfolding d' by (rule changed_run_keeps [OF inv at v]) (simp_all add: interrupted_run_def)
  moreover have "put_run r d = d\<lparr>db_runs := db_runs (put_run r d)\<rparr>" by (simp add: put_run_def)
  ultimately show ?thesis unfolding d' by simp
qed

lemma interrupt_runs_steps:
  assumes "db_inv d" "set rows \<subseteq> set (db_runs d)" "distinct (map rr_id rows)"
    "interrupt_runs at rows d = (Inr rs, d')"
  shows "db_inv d' \<and> db_tasks d' = db_tasks d \<and> db_events d' = db_events d \<and>
    db_event_seq d' = db_event_seq d \<and> d' = d\<lparr>db_runs := db_runs d'\<rparr> \<and>
    (\<forall>x \<in> set (db_runs d'). x \<in> set (db_runs d) \<and> rr_id x \<notin> keys rr_id rows \<or>
       rr_status x = RunInterrupted)"
  using assms
proof (induction rows arbitrary: d rs)
  case Nil
  then show ?case by (simp add: result_simps)
next
  case (Cons row rows)
  from Cons.prems obtain r d1 rs' where one: "interrupt_run at row d = (Inr r, d1)"
    and rest: "interrupt_runs at rows d1 = (Inr rs', d')"
    by (auto simp: result_simps)
  have same: "d1 = d\<lparr>db_runs := db_runs d1\<rparr>"
    using interrupt_run_step [OF Cons.prems(1) _ one] Cons.prems(2) by auto
  have step: "db_inv d1" "db_tasks d1 = db_tasks d" "db_events d1 = db_events d"
    "db_event_seq d1 = db_event_seq d" "run_status r = RunInterrupted" "run_id r = rr_id row"
    "db_runs d1 = update_rows (\<lambda>x. rr_id x = rr_id row) (written_run r) (db_runs d)"
    using interrupt_run_step [OF Cons.prems(1) _ one] Cons.prems(2) by auto
  have keep: "x \<in> set (db_runs d1)" if "x \<in> set (db_runs d)" "rr_id x \<noteq> rr_id row" for x
    using that by (auto simp: step(7) set_update_rows image_iff intro!: bexI [of _ x])
  have "set rows \<subseteq> set (db_runs d1)"
  proof
    fix x assume "x \<in> set rows"
    with Cons.prems(2,3) have "x \<in> set (db_runs d)" "rr_id x \<noteq> rr_id row" by (auto dest: sym)
    then show "x \<in> set (db_runs d1)" by (rule keep)
  qed
  with Cons.IH [OF step(1) _ _ rest] Cons.prems(3)
  have ih: "db_inv d' \<and> db_tasks d' = db_tasks d1 \<and> db_events d' = db_events d1 \<and>
    db_event_seq d' = db_event_seq d1 \<and> d' = d1\<lparr>db_runs := db_runs d'\<rparr> \<and>
    (\<forall>x \<in> set (db_runs d'). x \<in> set (db_runs d1) \<and> rr_id x \<notin> keys rr_id rows \<or>
       rr_status x = RunInterrupted)"
    by simp
  have "d' = d\<lparr>db_runs := db_runs d'\<rparr>"
    using ih same by (metis db.surjective db.update_convs(4))
  moreover have "x \<in> set (db_runs d) \<and> rr_id x \<noteq> rr_id row \<or> rr_status x = RunInterrupted"
    if "x \<in> set (db_runs d1)" for x
    using that step by (auto simp: set_update_rows)
  ultimately show ?case using ih step by (auto; metis)
qed

section \<open>Blocking tasks\<close>

lemma blocked_event_valid:
  assumes "valid_task t"
  shows "valid_event (blocked_event i at t)"
proof -
  have "clean EventMessage ''Task execution was interrupted by a process restart.''"
    by (simp add: clean_iff meets_def EventMessage_def strip_ends char_class_defs)
  then show ?thesis
    using assms
    by (simp add: valid_event_iff event_fields_clean_def context_ok_def blocked_event_def valid_task_iff
        fields_clean_def payload_key_forbidden_def FORBIDDEN_PAYLOAD_KEYS_def normalized_key_def
        lower_def char_lower_def is_upper_def in_range_def category_def)
qed

lemma blocked_event_ok:
  assumes "valid_task t" "Event_validate (blocked_event i at t) = Inr e"
  shows "e = blocked_event i at t \<and> valid_event e \<and> lifecycle_status e = Some Blocked"
proof -
  note valid = blocked_event_valid [OF assms(1)]
  have "e = blocked_event i at t" using assms(2) valid by (simp add: valid_event_def)
  moreover have "lifecycle_status (blocked_event i at t) = Some Blocked"
    by (rule lifecycle_status_of_event) (simp_all add: blocked_event_def payload_status_def)
  ultimately show ?thesis using valid by simp
qed

lemma block_task_moves:
  assumes inv: "db_inv d" and row: "row \<in> set (db_tasks d)" and fresh: "i \<notin> keys er_id (db_events d)"
    and run: "block_task now i at row d = (Inr x, d')"
  shows "\<exists>e. fst x = stamp_transition (tk_json row) Blocked at \<and>
    d' = moved row (stamp_transition (tk_json row) Blocked at) e d \<and> valid_event e \<and>
    lifecycle_status e = Some Blocked \<and> can_transition (tk_status row) Blocked \<and>
    time_admissible (tk_json row) at \<and> event_told e row \<and>
    ev_id e = i \<and> ev_task e = Some (tk_id row) \<and> ev_time e = at \<and> ev_type e = TASK_BLOCKED"
proof -
  have tabs: "tables_ok d" using inv by (simp add: db_inv_def)
  have at: "row_of tk_id (tk_id row) (db_tasks d) = Some row"
    using tabs row by (auto simp: tables_ok_def tasks_ok_def intro: row_of_distinct)
  have ok: "valid_task (tk_json row)" "t_id (tk_json row) = tk_id row"
    "t_status (tk_json row) = tk_status row"
    using row_of_task_ok [OF tabs at] by (auto simp: task_row_ok_def)
  let ?t = "stamp_transition (tk_json row) Blocked at"
  have none: "row_of er_id i (db_events d) = None" using fresh by (metis row_of_None)
  from run obtain e b d1 where e: "Event_validate (blocked_event i at (tk_json row)) = Inr e"
    and step: "can_transition (tk_status row) Blocked" "time_admissible (tk_json row) at"
    and app: "append_event_locked e (db_tasks_update (update_rows
        (\<lambda>r. tk_id r = tk_id row \<and> tk_version r = tk_version row)
        (\<lambda>r. r\<lparr>tk_status := Blocked, tk_updated := at, tk_version := tk_version row + 1,
               tk_json := ?t\<rparr>)) d) = (Inr b, d1)"
    and x: "fst x = ?t" "d' = d1"
    using ok by (auto simp: block_task_def result_simps update_task_def apply_transition_Ok
        split: option.splits)
  have ev: "e = blocked_event i at (tk_json row)" "valid_event e" "lifecycle_status e = Some Blocked"
    using blocked_event_ok [OF ok(1) e] by auto
  then have fields: "ev_id e = i" "ev_task e = Some (tk_id row)" "ev_time e = at" "ev_type e = TASK_BLOCKED"
    by (simp_all add: blocked_event_def ok)
  have "d' = moved row ?t e d"
    using append_moved [OF tabs at, of e "\<lambda>r. r\<lparr>tk_status := Blocked, tk_updated := at,
        tk_version := tk_version row + 1, tk_json := ?t\<rparr>" ?t b d1] app none fields x(2)
    by (simp add: moved_row_def)
  moreover have "event_told e row"
    using row_of_task_ok [OF tabs at]
    by (intro event_told_lifecycle [of e Blocked])
      (auto simp: ev blocked_event_def payload_status_def task_row_ok_def)
  ultimately show ?thesis using ev fields step x by blast
qed

lemma block_task_step:
  assumes inv: "db_inv d" and row: "row \<in> set (db_tasks d)" and fresh: "i \<notin> keys er_id (db_events d)"
    and run: "block_task now i at row d = (Inr x, d')"
  shows "db_inv d' \<and> db_runs d' = db_runs d \<and> t_status (fst x) = Blocked \<and>
    keys er_id (db_events d') = insert i (keys er_id (db_events d)) \<and>
    db_tasks d' = update_rows (\<lambda>r. r = row) (moved_row (fst x) at (tk_version row + 1)) (db_tasks d)"
proof -
  have tabs: "tables_ok d" using inv by (simp add: db_inv_def)
  have at: "row_of tk_id (tk_id row) (db_tasks d) = Some row"
    using tabs row by (auto simp: tables_ok_def tasks_ok_def intro: row_of_distinct)
  have ok: "valid_task (tk_json row)" "t_id (tk_json row) = tk_id row"
    "t_status (tk_json row) = tk_status row"
    using row_of_task_ok [OF tabs at] by (auto simp: task_row_ok_def)
  let ?t = "stamp_transition (tk_json row) Blocked at"
  obtain e where x: "fst x = ?t" and d': "d' = moved row ?t e d"
    and ev: "valid_event e" "lifecycle_status e = Some Blocked"
    and step: "can_transition (tk_status row) Blocked" "time_admissible (tk_json row) at"
      "event_told e row"
    and fields: "ev_id e = i" "ev_task e = Some (tk_id row)" "ev_time e = at" "ev_type e = TASK_BLOCKED"
    using block_task_moves [OF inv row fresh run] by blast
  have valid: "valid_task ?t" using ok step by (intro stamp_transition_valid) simp_all
  have "db_inv d'"
    unfolding d' using ev fields fresh ok step valid
    by (intro moved_keeps [OF inv at]) (auto simp: tells_def)
  moreover have "update_rows (\<lambda>r. tk_id r = tk_id row \<and> tk_version r = tk_version row) f (db_tasks d) =
      update_rows (\<lambda>r. r = row) f (db_tasks d)" for f
    using tabs by (intro update_current_row [OF _ at]) (simp add: tables_ok_def)
  ultimately show ?thesis
    unfolding d' moved_def fields x(1) by (simp add: fields(1) ok keys_insert_row)
qed

text \<open>
  \<open>fresh_for fresh n k d\<close>: the \<open>k\<close> identifiers from the \<open>n\<close>-th are distinct and none is stored. After
  one iteration the remaining rows and identifiers are as good as before.
\<close>

definition fresh_for :: "(nat \<Rightarrow> uuid) \<Rightarrow> nat \<Rightarrow> nat \<Rightarrow> db \<Rightarrow> bool" where
  "fresh_for fresh n k d \<longleftrightarrow>
     inj_on fresh {n..<n + k} \<and> (\<forall>m \<in> {n..<n + k}. fresh m \<notin> keys er_id (db_events d))"

lemma block_tasks_next:
  assumes inv: "db_inv d" and sub: "set (row # rows) \<subseteq> set (db_tasks d)"
    and dist: "distinct (map tk_id (row # rows))"
    and fresh: "fresh_for fresh n (length (row # rows)) d"
    and one: "block_task now (fresh n) at row d = (Inr x, d1)"
  shows "db_inv d1 \<and> set rows \<subseteq> set (db_tasks d1) \<and> distinct (map tk_id rows) \<and>
    fresh_for fresh (Suc n) (length rows) d1"
proof -
  have new: "fresh n \<notin> keys er_id (db_events d)" and mem: "row \<in> set (db_tasks d)"
    using fresh sub by (auto simp: fresh_for_def)
  note step = block_task_step [OF inv mem new one]
  have "y \<in> set (db_tasks d1)" if "y \<in> set rows" for y
  proof -
    have "y \<in> set (db_tasks d)" "y \<noteq> row" using that sub dist by auto
    with step show ?thesis by (auto simp: set_update_rows image_iff intro!: bexI [of _ y])
  qed
  moreover have "fresh m \<notin> keys er_id (db_events d1)" if m: "m \<in> {Suc n..<Suc n + length rows}" for m
  proof -
    have "fresh m \<noteq> fresh n"
      using fresh m inj_onD [of fresh "{n..<n + length (row # rows)}" m n] by (auto simp: fresh_for_def)
    moreover have "fresh m \<notin> keys er_id (db_events d)" using fresh m by (auto simp: fresh_for_def)
    ultimately show ?thesis using step by simp
  qed
  moreover have "inj_on fresh {Suc n..<Suc n + length rows}"
    using fresh by (auto simp: fresh_for_def intro: inj_on_subset)
  ultimately show ?thesis using step dist by (auto simp: fresh_for_def)
qed

lemma block_tasks_steps:
  assumes "db_inv d" "set rows \<subseteq> set (db_tasks d)" "distinct (map tk_id rows)"
    "fresh_for fresh n (length rows) d" "block_tasks now fresh at n rows d = (Inr xs, d')"
  shows "db_inv d' \<and> db_runs d' = db_runs d \<and>
    (\<forall>x \<in> set (db_tasks d'). x \<in> set (db_tasks d) \<and> tk_id x \<notin> keys tk_id rows \<or> tk_status x = Blocked)"
  using assms
proof (induction rows arbitrary: d xs n)
  case Nil
  then show ?case by (simp add: result_simps)
next
  case (Cons row rows)
  from Cons.prems obtain x d1 xs' where one: "block_task now (fresh n) at row d = (Inr x, d1)"
    and rest: "block_tasks now fresh at (Suc n) rows d1 = (Inr xs', d')"
    by (auto simp: result_simps split_paired_Ex)
  have new: "fresh n \<notin> keys er_id (db_events d)" and mem: "row \<in> set (db_tasks d)"
    using Cons.prems(2,4) by (auto simp: fresh_for_def)
  note step = block_task_step [OF Cons.prems(1) mem new one]
  note nxt = block_tasks_next [OF Cons.prems(1-4) one]
  have ih: "db_inv d' \<and> db_runs d' = db_runs d1 \<and>
    (\<forall>x \<in> set (db_tasks d'). x \<in> set (db_tasks d1) \<and> tk_id x \<notin> keys tk_id rows \<or> tk_status x = Blocked)"
    using nxt by (intro Cons.IH [OF _ _ _ _ rest]) auto
  have uniq: "tk_id y \<noteq> tk_id row" if "y \<in> set (db_tasks d)" "y \<noteq> row" for y
    using that Cons.prems(1) mem row_of_distinct [of tk_id "db_tasks d"]
    by (auto simp: db_inv_def tables_ok_def tasks_ok_def) (metis option.inject)
  have "y \<in> set (db_tasks d) \<and> tk_id y \<noteq> tk_id row \<or> tk_status y = Blocked"
    if "y \<in> set (db_tasks d1)" for y
    using that step uniq by (auto simp: set_update_rows)
  with ih step show ?case by (auto; metis)
qed

section \<open>The whole reconciliation\<close>

definition fresh_supply :: "(nat \<Rightarrow> uuid) \<Rightarrow> db \<Rightarrow> bool" where
  "fresh_supply fresh d \<longleftrightarrow> fresh_for fresh 0 (length (active_task_rows d)) d"

definition no_active_work :: "db \<Rightarrow> bool" where
  "no_active_work d \<longleftrightarrow>
     (\<forall>r \<in> set (db_runs d). run_terminal (rr_status r)) \<and>
     (\<forall>r \<in> set (db_tasks d). tk_status r \<notin> {Planning, Running})"

lemma distinct_map_order_by:
  "distinct (map f xs) \<Longrightarrow> distinct (map f (order_by le (filter P xs)))"
  by (auto simp: distinct_map intro: inj_on_subset)

lemma active_runs_distinct:
  "db_inv d \<Longrightarrow> distinct (map rr_id (active_run_rows d))"
  "db_inv d \<Longrightarrow> set (active_run_rows d) \<subseteq> set (db_runs d)"
  by (auto simp: active_run_rows_def db_inv_def tables_ok_def runs_ok_def intro: distinct_map_order_by)

lemma active_tasks_distinct:
  "db_inv d \<Longrightarrow> distinct (map tk_id (active_task_rows d))"
  "db_inv d \<Longrightarrow> set (active_task_rows d) \<subseteq> set (db_tasks d)"
  by (auto simp: active_task_rows_def db_inv_def tables_ok_def tasks_ok_def intro: distinct_map_order_by)

lemma reconcile_body_steps:
  assumes inv: "db_inv d" and fresh: "fresh_supply fresh d"
    and run: "reconcile_body now fresh at d = (Inr r, d')"
  shows "db_inv d' \<and> no_active_work d'"
proof -
  from run obtain runs d1 xs where runs: "interrupt_runs at (active_run_rows d) d = (Inr runs, d1)"
    and tasks: "block_tasks now fresh at 0 (active_task_rows d1) d1 = (Inr xs, d')"
    by (auto simp: reconcile_body_def result_simps)
  note s1 = interrupt_runs_steps [OF inv active_runs_distinct(2,1) [OF inv] runs]
  have inv1: "db_inv d1" using s1 by simp
  have fr: "fresh_for fresh 0 (length (active_task_rows d1)) d1"
    using fresh s1 by (simp add: fresh_supply_def fresh_for_def active_task_rows_def)
  note s2 = block_tasks_steps [OF inv1 active_tasks_distinct(2,1) [OF inv1] fr tasks]
  have "run_terminal (rr_status x)" if "x \<in> set (db_runs d')" for x
    using that s1 s2 by (auto simp: active_run_rows_def run_terminal_def)
  moreover have "tk_status x \<notin> {Planning, Running}" if "x \<in> set (db_tasks d')" for x
    using that s2 by (fastforce simp: active_task_rows_def)
  ultimately show ?thesis using s2 by (simp add: no_active_work_def)
qed

interpretation reconcile_tx: db_operation "fresh_supply fresh" "reconcile_body now fresh at"
  for now fresh at
  by unfold_locales (use reconcile_body_steps in blast)

end
