(* ===== verification/Reachability.thy ===== *)
theory Reachability
  imports RecoverySafety "HOL-Library.Sublist"
begin

text \<open>
  The store over time: \<open>store_step\<close> has one rule per public operation of \<open>SQLiteStore\<close> that writes
  (with any valid arguments, and whatever outcome), one for the engine starting or ceasing to fail,
  and two for closing and opening the handle. \<open>reachable\<close> closes the empty database under it.
  The locale \<open>db_evolution\<close> adds to the contract of a transaction body that the event log only
  grows and that tasks only move forward; both contracts lift to steps and to whole executions.
\<close>

section \<open>Forward evolution\<close>

definition task_evolves :: "task_row \<Rightarrow> task_row \<Rightarrow> bool" where
  "task_evolves r r' \<longleftrightarrow>
     tk_id r' = tk_id r \<and> tk_version r \<le> tk_version r' \<and> tk_project r' = tk_project r \<and>
     tk_team r' = tk_team r \<and> tk_created r' = tk_created r \<and>
     t_request (tk_json r') = t_request (tk_json r) \<and> can_transition\<^sup>*\<^sup>* (tk_status r) (tk_status r') \<and>
     prefix (t_agents (tk_json r)) (t_agents (tk_json r'))"

text \<open>Answers, delivered receipts, routes and artifacts are kept as they are.\<close>

definition ledgers_kept :: "db \<Rightarrow> db \<Rightarrow> bool" where
  "ledgers_kept d d' \<longleftrightarrow>
     (\<forall>k row. row_of gq_key k (db_requests d) = Some row \<longrightarrow> gq_response row \<noteq> None \<longrightarrow>
        row_of gq_key k (db_requests d') = Some row) \<and>
     (\<forall>k row. row_of rc_id k (db_receipts d) = Some row \<longrightarrow> rc_state row = DELIVERED \<longrightarrow>
        row_of rc_id k (db_receipts d') = Some row) \<and>
     set (db_routes d) \<subseteq> set (db_routes d') \<and> set (db_artifacts d) \<subseteq> set (db_artifacts d')"

definition evolves :: "db \<Rightarrow> db \<Rightarrow> bool" where
  "evolves d d' \<longleftrightarrow>
     ledgers_kept d d' \<and> prefix (db_events d) (db_events d') \<and>
     (\<forall>r \<in> set (db_tasks d). \<exists>r' \<in> set (db_tasks d'). task_evolves r r')"

lemma task_evolves_refl [simp]: "task_evolves r r"
  by (simp add: task_evolves_def)

lemma task_evolves_trans: "task_evolves r r' \<Longrightarrow> task_evolves r' r'' \<Longrightarrow> task_evolves r r''"
  by (auto simp: task_evolves_def intro: order_trans rtranclp_trans prefix_order.trans)

lemma ledgers_kept_same:
  "db_requests d' = db_requests d \<Longrightarrow> db_receipts d' = db_receipts d \<Longrightarrow>
     set (db_routes d) \<subseteq> set (db_routes d') \<Longrightarrow> set (db_artifacts d) \<subseteq> set (db_artifacts d') \<Longrightarrow>
     ledgers_kept d d'"
  by (auto simp: ledgers_kept_def)

lemma evolves_keep:
  "prefix (db_events d) (db_events d') \<Longrightarrow> set (db_tasks d) \<subseteq> set (db_tasks d') \<Longrightarrow>
     ledgers_kept d d' \<Longrightarrow> evolves d d'"
  unfolding evolves_def by (metis subsetD task_evolves_refl)

lemma evolves_same:
  "db_tasks d' = db_tasks d \<Longrightarrow> db_events d' = db_events d \<Longrightarrow> ledgers_kept d d' \<Longrightarrow> evolves d d'"
  by (simp add: evolves_keep)

lemmas ledger_simps = ledgers_kept_def set_insert_row row_of_insert_row row_of_update_same
  row_of_delete_same

lemma ledgers_kept_reconciled:
  assumes "db_inv d"
  shows "ledgers_kept d (db_requests_update (delete_rows (\<lambda>r. gq_response r = None)) d)"
    "ledgers_kept d (db_receipts_update (delete_rows (\<lambda>r. rc_state r = RESERVED)) d)"
proof -
  have "distinct (map gq_key (db_requests d))" "distinct (map rc_id (db_receipts d))"
    using assms by (auto simp: db_inv_def tables_ok_def requests_ok_def receipts_ok_def)
  then show "ledgers_kept d (db_requests_update (delete_rows (\<lambda>r. gq_response r = None)) d)"
    "ledgers_kept d (db_receipts_update (delete_rows (\<lambda>r. rc_state r = RESERVED)) d)"
    by (auto simp: ledgers_kept_def row_of_delete_rows)
qed

lemma evolves_refl [simp]: "evolves d d"
  by (simp add: evolves_same ledgers_kept_same)

lemma evolves_trans: "evolves d d' \<Longrightarrow> evolves d' d'' \<Longrightarrow> evolves d d''"
proof -
  assume a: "evolves d d'" and b: "evolves d' d''"
  have "ledgers_kept d d''" using a b unfolding evolves_def ledgers_kept_def by blast
  then show ?thesis using a b unfolding evolves_def by (meson prefix_order.trans task_evolves_trans)
qed

lemma prefix_insert_row [simp]: "prefix rows (insert_row r rows)"
  by (simp add: insert_row_def)

locale db_evolution = db_operation +
  assumes grows: "pre d \<Longrightarrow> db_inv d \<Longrightarrow> body d = (Inr x, d') \<Longrightarrow> evolves d d'"
begin

lemma transaction_evolves:
  assumes "pre (st_db s)" "db_inv (st_db s)"
  shows "evolves (st_db s) (st_db (snd (transaction body s)))"
proof (cases "transaction body s")
  case (Pair r s')
  show ?thesis
  proof (cases r)
    case (Inl e)
    with Pair have "s' = s" by (simp add: transaction_Raise)
    with Pair show ?thesis by simp
  next
    case (Inr x)
    with Pair obtain d where "body (st_db s) = (Inr x, d)" "s' = s\<lparr>st_db := d\<rparr>"
      by (auto simp: transaction_Ok)
    with Pair grows [OF assms] show ?thesis by simp
  qed
qed

lemma transaction_step:
  assumes "pre (st_db s)" "db_inv (st_db s)"
  shows "db_inv (st_db (snd (transaction body s))) \<and>
    evolves (st_db s) (st_db (snd (transaction body s)))"
  using transaction_keeps [OF assms] transaction_evolves [OF assms] ..

end

section \<open>Every body evolves the database\<close>

lemma evolves_moved:
  assumes inv: "db_inv d" and row: "row_of tk_id i (db_tasks d) = Some row"
    and new: "t_project t = t_project (tk_json row)" "t_team t = t_team (tk_json row)"
      "t_created t = t_created (tk_json row)" "t_request t = t_request (tk_json row)"
      "can_transition\<^sup>*\<^sup>* (tk_status row) (t_status t)" "prefix (t_agents (tk_json row)) (t_agents t)"
  shows "evolves d (moved row t e d)"
proof -
  have tasks: "tasks_ok (db_tasks d)" and id: "tk_id row = i"
    using inv row_of_SomeD [OF row] by (auto simp: db_inv_def tables_ok_def)
  let ?f = "moved_row t (ev_time e) (tk_version row + 1)"
  have ev: "task_evolves row (?f row)"
    using new by (simp add: task_evolves_def moved_row_def)
  have "db_tasks (moved row t e d) = update_rows (\<lambda>r. r = row) ?f (db_tasks d)"
    using update_current_row [OF tasks row] id by (simp add: moved_def)
  then have "\<exists>r' \<in> set (db_tasks (moved row t e d)). task_evolves r r'" if "r \<in> set (db_tasks d)" for r
  proof (cases "r = row")
    case True
    with that have "?f r \<in> set (update_rows (\<lambda>r. r = row) ?f (db_tasks d))"
      by (auto simp: set_update_rows)
    then show ?thesis using ev True by (metis \<open>db_tasks (moved row t e d) = _\<close>)
  next
    case False
    with that have "r \<in> set (update_rows (\<lambda>r. r = row) ?f (db_tasks d))"
      by (auto simp: set_update_rows)
    then show ?thesis using task_evolves_refl by (metis \<open>db_tasks (moved row t e d) = _\<close>)
  qed
  then show ?thesis by (simp add: evolves_def moved_def ledgers_kept_same)
qed

interpretation append_event_ev: db_evolution
  "\<lambda>_. valid_event e \<and> ev_type e \<notin> set atomic_task_event_types" "append_event_locked e" for e
  by unfold_locales
    (auto simp: append_event_locked_Ok intro!: evolves_keep ledgers_kept_same split: option.splits)

interpretation create_task_ev: db_evolution "\<lambda>_. creation_pre t e" "create_task_body t e" for t e
  by unfold_locales
    (drule (2) create_task_body_Ok,
      auto simp: set_insert_row created_db_def intro!: evolves_keep ledgers_kept_same)

lemma evolves_queued:
  assumes "t_id t \<notin> task_ids d"
  shows "evolves d (queued_db t e1 e2 route d)"
proof (rule evolves_keep)
  show "prefix (db_events d) (db_events (queued_db t e1 e2 route d))"
    by (auto simp: queued_db_def insert_row_def)
  show "set (db_tasks d) \<subseteq> set (db_tasks (queued_db t e1 e2 route d))"
  proof
    fix r assume r: "r \<in> set (db_tasks d)"
    then have "tk_id r \<noteq> t_id t" using assms by (metis imageI)
    with r show "r \<in> set (db_tasks (queued_db t e1 e2 route d))"
      by (auto simp: queued_db_def row_simps image_iff intro!: bexI [of _ r])
  qed
  show "ledgers_kept d (queued_db t e1 e2 route d)"
    by (rule ledgers_kept_same)
      (auto simp: queued_db_def add_route_def created_db_def set_insert_row split: option.splits)
qed

interpretation create_queued_ev: db_evolution "\<lambda>_. queueing_pre t queued e1 e2 route"
  "create_queued_body t queued e1 e2 route" for t queued e1 e2 route
  by unfold_locales (drule (2) create_queued_body_Ok, simp add: evolves_queued)

lemma row_json_status:
  "db_inv d \<Longrightarrow> row_of tk_id i (db_tasks d) = Some row \<Longrightarrow> t_status (tk_json row) = tk_status row"
  using row_of_task_ok by (auto simp: db_inv_def task_row_ok_def)

interpretation transition_ev: db_evolution "\<lambda>_. valid_event e" "transition_body now i target e"
  for now i target e
  by unfold_locales
    (auto simp: transition_body_Ok intro!: evolves_moved split: option.splits)

interpretation assign_ev: db_evolution "\<lambda>_. valid_event e" "assign_body i agent e" for i agent e
  by unfold_locales
    (auto simp: assign_body_Ok assigned_task_def row_json_status intro!: evolves_moved split: option.splits)

interpretation create_run_ev: db_evolution "\<lambda>_. valid_run r" "create_run_body r" for r
  by unfold_locales (auto simp: create_run_body_Ok intro!: evolves_same simp: ledger_simps)

interpretation start_run_ev: db_evolution "\<lambda>_. True" "start_run_body i at" for i at
  by unfold_locales
    (auto simp: start_run_body_Ok db_inv_def [THEN iffD1, THEN conjunct1] intro!: evolves_same simp: ledger_simps)

interpretation finish_run_ev: db_evolution "\<lambda>_. True" "finish_run_body i s at code err" for i s at code err
  by unfold_locales
    (auto simp: finish_run_body_Ok db_inv_def [THEN iffD1, THEN conjunct1] intro!: evolves_same simp: ledger_simps)

interpretation create_artifact_ev: db_evolution "\<lambda>_. True" "create_artifact_body a" for a
  by unfold_locales (auto simp: create_artifact_body_Ok intro!: evolves_same simp: ledger_simps)

interpretation reserve_request_ev: db_evolution "\<lambda>_. clean IdempotencyKey (req_key r)"
  "reserve_request_body r" for r
  by unfold_locales (auto simp: reserve_request_body_Ok intro!: evolves_same simp: ledger_simps split: if_splits)

interpretation remember_ev: db_evolution "\<lambda>_. True" "remember_body key doc" for key doc
  by unfold_locales (auto simp: remember_body_Ok answered_def intro!: evolves_same simp: ledger_simps)

interpretation release_request_ev: db_evolution "\<lambda>_. True" "release_request_body key" for key
  by unfold_locales (auto simp: release_request_body_Ok intro!: evolves_same simp: ledger_simps split: option.splits)

interpretation reconcile_requests_ev: db_evolution "\<lambda>_. True" reconcile_requests_body
  by unfold_locales (auto simp: reconcile_requests_body_Ok intro!: evolves_same ledgers_kept_reconciled)

interpretation save_route_ev: db_evolution "\<lambda>_. valid_route r" "save_route_body r" for r
  by unfold_locales (auto simp: save_route_body_Ok intro!: evolves_same simp: ledger_simps split: option.splits)

interpretation reserve_delivery_ev: db_evolution
  "\<lambda>_. rc_state r = RESERVED \<and> valid_receipt r" "reserve_delivery_body r" for r
  by unfold_locales (auto simp: reserve_delivery_body_Ok intro!: evolves_same simp: ledger_simps split: if_splits)

lemma delivered_evolves:
  assumes "row_of rc_id i (db_receipts d) = Some row" "rc_state row \<noteq> DELIVERED"
  shows "evolves d (delivered_db (row\<lparr>rc_state := x, rc_delivered := y\<rparr>) at d)"
proof -
  have "rc_id row = i" using row_of_SomeD [OF assms(1)] by simp
  with assms show ?thesis
    by (auto simp: delivered_db_def ledger_simps intro!: evolves_same)
qed

lemma mark_delivered_evolves:
  assumes "db_inv d" "mark_delivered_body i at d = (Inr x, d')"
  shows "evolves d d'"
proof -
  obtain row where row: "row_of rc_id i (db_receipts d) = Some row"
    and d': "d' = (if rc_state row = DELIVERED then d
      else delivered_db (row\<lparr>rc_state := DELIVERED, rc_delivered := Some at\<rparr>) at d)"
    using assms by (auto simp: mark_delivered_body_Ok db_inv_def [THEN iffD1, THEN conjunct1])
  show ?thesis
  proof (cases "rc_state row = DELIVERED")
    case True
    with d' show ?thesis by (simp add: evolves_refl)
  next
    case False
    with d' delivered_evolves [OF row False] show ?thesis by simp
  qed
qed

interpretation mark_delivered_ev: db_evolution "\<lambda>_. True" "mark_delivered_body i at" for i at
  by unfold_locales (use mark_delivered_evolves in blast)

interpretation release_delivery_ev: db_evolution "\<lambda>_. True" "release_delivery_body i" for i
  by unfold_locales (auto simp: release_delivery_body_Ok intro!: evolves_same simp: ledger_simps split: option.splits)

interpretation reconcile_deliveries_ev: db_evolution "\<lambda>_. True" reconcile_deliveries_body
  by unfold_locales (auto simp: reconcile_deliveries_body_Ok intro!: evolves_same ledgers_kept_reconciled)

lemma block_task_evolves:
  assumes inv: "db_inv d" and row: "row \<in> set (db_tasks d)" and fresh: "i \<notin> keys er_id (db_events d)"
    and run: "block_task now i at row d = (Inr x, d')"
  shows "evolves d d'"
proof -
  have at: "row_of tk_id (tk_id row) (db_tasks d) = Some row"
    using inv row by (auto simp: db_inv_def tables_ok_def tasks_ok_def intro: row_of_distinct)
  obtain e where step: "d' = moved row (stamp_transition (tk_json row) Blocked at) e d"
    "can_transition (tk_status row) Blocked"
    using block_task_moves [OF inv row fresh run] by blast
  then show ?thesis by (auto intro!: evolves_moved [OF inv at])
qed

lemma block_tasks_evolves:
  assumes "db_inv d" "set rows \<subseteq> set (db_tasks d)" "distinct (map tk_id rows)"
    "fresh_for fresh n (length rows) d" "block_tasks now fresh at n rows d = (Inr xs, d')"
  shows "evolves d d'"
  using assms
proof (induction rows arbitrary: d xs n)
  case Nil
  then show ?case by (simp add: result_simps)
next
  case (Cons row rows)
  from Cons.prems obtain x d1 xs' where one: "block_task now (fresh n) at row d = (Inr x, d1)"
    and rest: "block_tasks now fresh at (Suc n) rows d1 = (Inr xs', d')"
    by (auto simp: result_simps split_paired_Ex)
  have new: "fresh n \<notin> keys er_id (db_events d)" and mem: "row \<in> set (db_tasks d)"
    using Cons.prems(2,4) by (auto simp: fresh_for_def)
  have "evolves d d1" by (rule block_task_evolves [OF Cons.prems(1) mem new one])
  moreover have "evolves d1 d'"
    using block_tasks_next [OF Cons.prems(1-4) one] Cons.IH [OF _ _ _ _ rest] by blast
  ultimately show ?case by (rule evolves_trans)
qed

lemma reconcile_body_evolves:
  assumes inv: "db_inv d" and fresh: "fresh_supply fresh d"
    and run: "reconcile_body now fresh at d = (Inr r, d')"
  shows "evolves d d'"
proof -
  from run obtain runs d1 xs where runs: "interrupt_runs at (active_run_rows d) d = (Inr runs, d1)"
    and tasks: "block_tasks now fresh at 0 (active_task_rows d1) d1 = (Inr xs, d')"
    by (auto simp: reconcile_body_def result_simps)
  note s1 = interrupt_runs_steps [OF inv active_runs_distinct(2,1) [OF inv] runs]
  have inv1: "db_inv d1" using s1 by simp
  have fr: "fresh_for fresh 0 (length (active_task_rows d1)) d1"
    using fresh s1 by (simp add: fresh_supply_def fresh_for_def active_task_rows_def)
  have "d1 = d\<lparr>db_runs := db_runs d1\<rparr>" using s1 by blast
  then have "ledgers_kept d d1" by (metis db.select_convs db.surjective db.update_convs(4)
      ledgers_kept_same subset_refl)
  then have "evolves d d1" using s1 by (simp add: evolves_same)
  moreover have "evolves d1 d'"
    by (rule block_tasks_evolves [OF inv1 active_tasks_distinct(2,1) [OF inv1] fr tasks])
  ultimately show ?thesis by (rule evolves_trans)
qed

interpretation reconcile_ev: db_evolution "fresh_supply fresh" "reconcile_body now fresh at"
  for now fresh at
  by unfold_locales (use reconcile_body_evolves in blast)

section \<open>Steps of the store\<close>

lemma snd_require: "snd (act_bind (act_require b e) f s) = (if b then snd (f () s) else s)"
  by (simp add: act_bind_def act_require_def)

lemma snd_lift: "snd (act_bind (act_lift r) f s) = (case r of Inl _ \<Rightarrow> s | Inr x \<Rightarrow> snd (f x s))"
  by (simp add: act_bind_def act_lift_def split: sum.splits)

inductive store_step :: "store \<Rightarrow> store \<Rightarrow> bool" where
  create_task: "valid_task t \<Longrightarrow> valid_event e \<Longrightarrow> t_agents t = [] \<Longrightarrow>
    store_step s (snd (create_task t e s))"
| create_queued_task: "valid_task t \<Longrightarrow> valid_event e1 \<Longrightarrow> valid_event e2 \<Longrightarrow> t_agents t = [] \<Longrightarrow>
    opt_all valid_route route \<Longrightarrow> store_step s (snd (create_queued_task now t e1 e2 route s))"
| transition_task: "valid_event e \<Longrightarrow> store_step s (snd (transition_stored_task now i target e s))"
| assign_task: "valid_event e \<Longrightarrow> store_step s (snd (assign_task i agent e s))"
| append_event: "valid_event e \<Longrightarrow> store_step s (snd (append_event e s))"
| create_run: "valid_run r \<Longrightarrow> store_step s (snd (create_run r s))"
| start_run: "store_step s (snd (start_run now i at s))"
| finish_run: "store_step s (snd (finish_run now i status at code err s))"
| create_artifact: "Artifact_validate a0 = Inr a \<Longrightarrow> store_step s (snd (create_artifact a s))"
| reserve_request: "store_step s (snd (reserve_gateway_request now key at s))"
| remember_response: "store_step s (snd (remember_gateway_response now key response s))"
| release_request: "store_step s (snd (release_gateway_request now key s))"
| reconcile_requests: "store_step s (snd (reconcile_incomplete_gateway_requests s))"
| save_route: "store_step s (snd (save_task_route i source target s))"
| reserve_delivery: "store_step s (snd (reserve_delivery now i at s))"
| mark_delivered: "store_step s (snd (mark_delivery_delivered now i at s))"
| release_delivery: "store_step s (snd (release_delivery now i s))"
| reconcile_deliveries: "store_step s (snd (reconcile_reserved_deliveries s))"
| reconcile_running: "fresh_supply fresh (st_db s) \<Longrightarrow>
    store_step s (snd (reconcile_interrupted_running now fresh at s))"
| engine: "store_step s (s\<lparr>st_fault := f, st_commit_fault := c\<rparr>)"
| close: "store_step s (close_store s)"
| open_again: "store_step s (open_store (st_db s))"

text \<open>The preconditions of the bodies are what the operations check before the transaction.\<close>

lemma checked_step:
  assumes "db_inv (st_db s)"
    "\<And>x. r = Inr x \<Longrightarrow> db_inv (st_db (snd (f x s))) \<and> evolves (st_db s) (st_db (snd (f x s)))"
  shows "db_inv (st_db (snd (act_bind (act_lift r) f s))) \<and>
    evolves (st_db s) (st_db (snd (act_bind (act_lift r) f s)))"
  using assms by (simp add: snd_lift split: sum.splits)

lemma required_step:
  assumes "db_inv (st_db s)"
    "b \<Longrightarrow> db_inv (st_db (snd (f () s))) \<and> evolves (st_db s) (st_db (snd (f () s)))"
  shows "db_inv (st_db (snd (act_bind (act_require b e) f s))) \<and>
    evolves (st_db s) (st_db (snd (act_bind (act_require b e) f s)))"
  using assms by (simp add: snd_require)

lemma create_task_step:
  assumes "valid_task t" "valid_event e" "t_agents t = []" "db_inv (st_db s)"
  shows "db_inv (st_db (snd (create_task t e s))) \<and>
    evolves (st_db s) (st_db (snd (create_task t e s)))"
proof (cases "t_status t = Pending \<and> validate_lifecycle_event t Pending e = Inr ()")
  case True
  then have "creation_pre t e" using assms by (simp add: creation_pre_def)
  with True create_task_ev.transaction_step assms show ?thesis
    by (simp add: create_task_def snd_require snd_lift)
qed (use assms in \<open>auto simp: create_task_def snd_require snd_lift split: sum.splits\<close>)

lemma create_queued_task_step:
  assumes "valid_task t" "valid_event e1" "valid_event e2" "t_agents t = []" "opt_all valid_route route"
    "db_inv (st_db s)"
  shows "db_inv (st_db (snd (create_queued_task now t e1 e2 route s))) \<and>
    evolves (st_db s) (st_db (snd (create_queued_task now t e1 e2 route s)))"
  unfolding create_queued_task_def
  by (intro required_step checked_step create_queued_ev.transaction_step assms(6))
    (use assms in \<open>auto simp: queueing_pre_def creation_pre_def apply_transition_Ok opt_all_iff\<close>)

lemmas transaction_steps = transition_ev.transaction_step assign_ev.transaction_step
  create_run_ev.transaction_step start_run_ev.transaction_step create_artifact_ev.transaction_step
  release_request_ev.transaction_step reconcile_requests_ev.transaction_step
  mark_delivered_ev.transaction_step release_delivery_ev.transaction_step
  reconcile_deliveries_ev.transaction_step reconcile_ev.transaction_step

lemma store_step_sound:
  assumes "store_step s s'" "db_inv (st_db s)"
  shows "db_inv (st_db s') \<and> evolves (st_db s) (st_db s')"
  using assms
proof (induction rule: store_step.induct)
  case (append_event e s)
  then show ?case
    using append_event_ev.transaction_step [of e s]
    by (simp add: append_event_def snd_require)
next
  case (finish_run s now i status at code err)
  then show ?case
    using finish_run_ev.transaction_step [of s i status _ code err]
    by (simp add: finish_run_def snd_require snd_lift split: sum.splits)
next
  case (remember_response s now key response)
  then show ?case
    using remember_ev.transaction_step [of s key]
    by (auto simp: remember_gateway_response_def snd_lift act_raise_def split: sum.splits option.splits)
next
  case (save_route s i source target)
  then show ?case
    unfolding save_task_route_def
    by (intro checked_step save_route_ev.transaction_step)
      (auto simp: map_error_Ok valid_route_iff dest: TaskRoute_validate_Ok)
next
  case (reserve_delivery s now i at)
  then show ?case
    unfolding reserve_delivery_def
    by (intro checked_step reserve_delivery_ev.transaction_step)
      (auto simp: new_receipt_Ok valid_receipt_iff delivery_key_Ok)
next
  case (reserve_request s now key at)
  then show ?case
    unfolding reserve_gateway_request_def
    by (intro checked_step reserve_request_ev.transaction_step)
      (auto simp: new_request_Ok request_key_clean)
qed (auto simp: transition_stored_task_def assign_task_def create_run_def start_run_def
    create_artifact_def release_gateway_request_def reconcile_incomplete_gateway_requests_def
    mark_delivery_delivered_def release_delivery_def reconcile_reserved_deliveries_def
    reconcile_interrupted_running_def close_store_def open_store_def snd_lift
    create_task_step create_queued_task_step transaction_steps split: sum.splits)

section \<open>Executions\<close>

definition reachable :: "store \<Rightarrow> bool" where
  "reachable s \<longleftrightarrow> store_step\<^sup>*\<^sup>* (open_store empty_db) s"

inductive_cases store_stepE: "store_step s s'"

lemma reachable_start: "reachable (open_store empty_db)"
  by (simp add: reachable_def)

lemma reachable_step: "reachable s \<Longrightarrow> store_step s s' \<Longrightarrow> reachable s'"
  by (auto simp: reachable_def intro: rtranclp.rtrancl_into_rtrancl)

lemma reachable_induct [consumes 1, case_names start step]:
  assumes "reachable s" "P (open_store empty_db)"
    "\<And>s s'. reachable s \<Longrightarrow> P s \<Longrightarrow> store_step s s' \<Longrightarrow> P s'"
  shows "P s"
  using assms(1) unfolding reachable_def
proof (induction rule: rtranclp_induct)
  case base
  show ?case by (rule assms(2))
next
  case (step s s')
  then show ?case by (intro assms(3) [of s s']) (simp_all add: reachable_def)
qed

lemma reachable_db: "reachable s \<Longrightarrow> db_inv (st_db s)"
proof (induction rule: reachable_induct)
  case start
  then show ?case by (simp add: open_store_def db_inv_empty)
next
  case (step s s')
  then show ?case using store_step_sound by blast
qed

lemma reachable_tables: "reachable s \<Longrightarrow> tables_ok (st_db s)"
  using reachable_db by (simp add: db_inv_def)

lemma steps_keep: "store_step\<^sup>*\<^sup>* s s' \<Longrightarrow> db_inv (st_db s) \<Longrightarrow> db_inv (st_db s')"
  by (induction rule: rtranclp_induct) (auto dest: store_step_sound)

lemma steps_evolve: "store_step\<^sup>*\<^sup>* s s' \<Longrightarrow> db_inv (st_db s) \<Longrightarrow> evolves (st_db s) (st_db s')"
proof (induction rule: rtranclp_induct)
  case (step s' s'')
  have "db_inv (st_db s')" by (rule steps_keep [OF step(1,4)])
  with step store_step_sound [OF step(2)] show ?case by (auto intro: evolves_trans)
qed simp

lemma steps_reachable: "store_step\<^sup>*\<^sup>* s s' \<Longrightarrow> reachable s \<Longrightarrow> reachable s'"
  by (induction rule: rtranclp_induct) (auto intro: reachable_step)

lemma evolved_row:
  assumes "evolves d d'" "db_inv d'" "row_of tk_id i (db_tasks d) = Some r"
  shows "\<exists>r'. row_of tk_id i (db_tasks d') = Some r' \<and> task_evolves r r'"
proof -
  have r: "r \<in> set (db_tasks d)" "tk_id r = i" using row_of_SomeD [OF assms(3)] by auto
  then obtain r' where r': "r' \<in> set (db_tasks d')" "task_evolves r r'"
    using assms(1) by (auto simp: evolves_def)
  moreover have "row_of tk_id (tk_id r') (db_tasks d') = Some r'"
    using assms(2) r' by (intro row_of_distinct) (auto simp: db_inv_def tables_ok_def tasks_ok_def)
  ultimately show ?thesis using r by (auto simp: task_evolves_def)
qed

lemma evolved_event:
  assumes "evolves d d'" "row_of er_id i (db_events d) = Some r"
  shows "row_of er_id i (db_events d') = Some r"
proof -
  obtain new where "db_events d' = db_events d @ new"
    using assms(1) by (auto simp: evolves_def prefix_def)
  moreover have "row_of er_id i (rows @ new) = Some r" if "row_of er_id i rows = Some r" for rows
    using that by (induction rows) (auto split: if_splits)
  ultimately show ?thesis using assms(2) by simp
qed

lemma terminal_stays: "can_transition\<^sup>*\<^sup>* s s' \<Longrightarrow> is_terminal s \<Longrightarrow> s' = s"
  by (induction rule: rtranclp_induct) (auto dest: terminal_no_transition)

end
