(* ===== verification/Progress.thy ===== *)
theory Progress
  imports Reachability
begin

text \<open>
  Progress: the operations succeed when nothing stands in the way. A serving store is open and its
  engine answers; then a new task with fresh events is created and queued, and a transaction whose
  body returns commits.
\<close>

definition serving :: "store \<Rightarrow> bool" where
  "serving s \<longleftrightarrow> \<not> st_closed s \<and> st_fault s = None \<and> st_commit_fault s = None"

lemma transaction_on_serving:
  "serving s \<Longrightarrow> transaction body s =
     (case body (st_db s) of
        (Inl e, _) \<Rightarrow> (Inl (transaction_error e), s) | (Inr x, d) \<Rightarrow> (Inr x, s\<lparr>st_db := d\<rparr>))"
  by (simp add: serving_def transaction_def rollback_def split: prod.splits sum.splits)

lemma read_serving: "serving s \<Longrightarrow> read_store q s = q (st_db s)"
  by (simp add: serving_def read_store_def)

lemma append_event_new:
  assumes "ev_id e \<notin> keys er_id (db_events d)" "opt_all (\<lambda>t. t \<in> task_ids d) (ev_task e)"
  shows "append_event_locked e d = (Inr True, add_event e d)"
proof -
  have "row_of er_id (ev_id e) (db_events d) = None" using assms(1) by (metis row_of_None)
  then show ?thesis using assms(2) by (simp add: append_event_locked_Ok)
qed

lemma route_of_new_task:
  assumes "db_inv d" "i \<notin> task_ids d"
  shows "i \<notin> keys route_task (db_routes d)"
  using assms by (auto simp: db_inv_def tables_ok_def routes_ok_def)

lemma create_queued_body_run:
  assumes inv: "db_inv d" and pre: "queueing_pre t queued e1 e2 route" and new: "t_id t \<notin> task_ids d"
    and ids: "ev_id e1 \<notin> keys er_id (db_events d)" "ev_id e2 \<notin> keys er_id (db_events d)"
      "ev_id e1 \<noteq> ev_id e2"
  shows "create_queued_body t queued e1 e2 route d = (Inr queued, queued_db t e1 e2 route d)"
proof -
  have ev: "ev_task e1 = Some (t_id t)" "ev_task e2 = Some (t_id t)" "t_id queued = t_id t"
    "queued = stamp_transition t Queued (ev_time e2)"
    using pre by (auto simp: queueing_pre_def creation_pre_def result_simps)
  let ?d0 = "db_tasks_update (insert_row (new_task_row t (ev_time e1))) d"
  let ?d2 = "add_route route (created_db t e1 d)"
  let ?d3 = "db_tasks_update (update_rows (\<lambda>r. tk_id r = t_id t \<and> tk_version r = 1)
    (queued_row queued (ev_time e2))) ?d2"
  have "append_event_locked e1 ?d0 = (Inr True, created_db t e1 d)"
    using ids ev by (simp add: append_event_new created_db_def set_insert_row)
  moreover have "(case route of None \<Rightarrow> act_return () | Some r \<Rightarrow> insert_route r) (created_db t e1 d) = (Inr (), ?d2)"
    using pre route_of_new_task [OF inv new]
    unfolding insert_route_opt_Ok by (cases route) (simp_all add: queueing_pre_def set_insert_row)
  moreover have "append_event_locked e2 ?d3 = (Inr True, queued_db t e1 e2 route d)"
    using ids ev keys_update_rows [of tk_id "queued_row queued (ev_time e2)"]
    by (simp add: append_event_new queued_db_def set_insert_row queued_row_def)
  ultimately show ?thesis
    using new ev
    by (simp add: create_queued_body_def select_task_def insert_task_def mark_queued_def update_task_def
        act_defs constrained_def row_of_None [THEN iffD2] queued_row_def [abs_def])
qed

text \<open>The checks before the transaction of a creation with queueing.\<close>

definition queueing_args ::
  "task \<Rightarrow> event \<Rightarrow> event \<Rightarrow> task_route option \<Rightarrow> bool" where
  "queueing_args t e1 e2 route \<longleftrightarrow>
     creation_pre t e1 \<and> valid_event e2 \<and> validate_lifecycle_event t Queued e2 = Inr () \<and>
     opt_all (\<lambda>r. valid_route r \<and> route_task r = t_id t) route \<and>
     time_admissible t (ev_time e2) \<and> utc (ev_time e1) \<le> utc (ev_time e2)"

lemma create_queued_task_run:
  assumes ok: "serving s" "db_inv (st_db s)" and args: "queueing_args t e1 e2 route"
    and new: "t_id t \<notin> task_ids (st_db s)" "ev_id e1 \<notin> keys er_id (db_events (st_db s))"
      "ev_id e2 \<notin> keys er_id (db_events (st_db s))" "ev_id e1 \<noteq> ev_id e2"
  shows "create_queued_task now t e1 e2 route s =
    (Inr (stamp_transition t Queued (ev_time e2)), s\<lparr>st_db := queued_db t e1 e2 route (st_db s)\<rparr>)"
proof -
  have pre: "queueing_pre t (stamp_transition t Queued (ev_time e2)) e1 e2 route"
    using args by (simp add: queueing_pre_def queueing_args_def)
  have "apply_transition now t Queued (ev_time e2) = Inr (stamp_transition t Queued (ev_time e2))"
    using args by (simp add: queueing_args_def creation_pre_def apply_transition_Ok lifecycle_defs)
  moreover have "opt_all (\<lambda>r. route_task r = t_id t) route"
    using args by (cases route) (auto simp: queueing_args_def)
  ultimately show ?thesis
    using args create_queued_body_run [OF ok(2) pre new]
    by (simp add: transaction_on_serving [OF ok(1)] create_queued_task_def queueing_args_def creation_pre_def act_defs aware_less_def)
qed

lemma serving_db [simp]: "serving (s\<lparr>st_db := d\<rparr>) \<longleftrightarrow> serving s"
  by (simp add: serving_def)

text \<open>What a creation with queueing leaves in the tables, as the queries see it.\<close>

lemma queued_readable:
  assumes "queueing_args t e1 e2 route" "t_id t \<notin> task_ids d" "db_inv d" "serving s"
    "db_tasks (st_db s) = db_tasks (queued_db t e1 e2 route d)"
    "db_routes (st_db s) = db_routes (queued_db t e1 e2 route d)"
  shows "get_task (t_id t) s = Inr (stamp_transition t Queued (ev_time e2))"
    "get_task_route (t_id t) s = Inr route"
proof -
  let ?t = "stamp_transition t Queued (ev_time e2)"
  have valid: "valid_task t" "t_status t = Pending" "time_admissible t (ev_time e2)"
    using assms(1) by (auto simp: queueing_args_def creation_pre_def validate_lifecycle_event_Ok)
  then have "valid_task ?t" by (intro stamp_transition_valid) (simp_all add: lifecycle_defs)
  moreover have "row_of tk_id (t_id t) (db_tasks (st_db s)) =
      Some (queued_row ?t (ev_time e2) (new_task_row t (ev_time e1)))"
    using assms(2,5) by (simp add: queued_db_def row_of_update_rows queued_row_def row_of_insert_row
        row_of_None [THEN iffD2])
  ultimately show "get_task (t_id t) s = Inr ?t"
    using assms(4) by (simp add: get_task_def read_store_def serving_def queued_row_def)
  have "row_of route_task (t_id t) (db_routes (st_db s)) = route"
    using assms(1,6) route_of_new_task [OF assms(3,2)]
    by (cases route) (auto simp: queued_db_def add_route_def queueing_args_def row_of_insert_row
        row_of_None [THEN iffD2])
  then show "get_task_route (t_id t) s = Inr route"
    using assms(1,4)
    by (cases route) (auto simp: get_task_route_def read_store_def serving_def queueing_args_def
        decode_route_def valid_route_def)
qed

end
