(* ===== verification/Samples.thy ===== *)
theory Samples
  imports Progress
begin

text \<open>
  Concrete values for the witnesses: one task with its events, and the store after it was created
  and queued.
\<close>

definition sample_task :: task where
  "sample_task =
     \<lparr>t_id = ''TASK-1'', t_source = ''slack'', t_project = ''hub'', t_team = ''core'',
      t_request = ''Fix the build'', t_status = Pending, t_agents = [], t_created = at_utc 10,
      t_started = None, t_completed = None\<rparr>"

definition sample_event :: "uuid \<Rightarrow> int \<Rightarrow> event_type \<Rightarrow> task_status \<Rightarrow> event" where
  "sample_event i at ty st =
     \<lparr>ev_schema = 1, ev_id = i, ev_type = ty, ev_time = at_utc at, ev_task = Some ''TASK-1'',
      ev_project = Some ''hub'', ev_team = Some ''core'', ev_agent = None, ev_correlation = None,
      ev_causation = None, ev_level = INFO, ev_message = None,
      ev_payload = [(''status'', JStr (status_value st))]\<rparr>"

definition sample_created :: event where
  "sample_created = sample_event 1 10 TASK_CREATED Pending"

definition sample_queued :: event where
  "sample_queued = sample_event 2 20 TASK_QUEUED Queued"

definition sample_started :: event where
  "sample_started = sample_event 3 30 TASK_STARTED Running"

definition sample_store :: store where
  "sample_store =
     snd (create_queued_task (at_utc 0) sample_task sample_created sample_queued None (open_store empty_db))"


lemmas check_simps = clean_iff meets_def strip_def TaskId_def Identifier_def TaskRequest_def RunId_def
  IdempotencyKey_def record_id_pattern_def char_class_defs EventMessage_def

lemma sample_task_valid: "valid_task sample_task"
  by (simp add: valid_task_iff fields_clean_def timestamps_ok_def sample_task_def check_simps is_terminal_def)


lemma lifecycle_not_agent: "category (event_for_status st) \<noteq> ''agent''"
  by (cases st) (simp_all add: category_def)

lemma sample_event_valid: "valid_event (sample_event i at (event_for_status st) st)"
  by (simp add: valid_event_iff event_fields_clean_def context_ok_def sample_event_def check_simps
      payload_key_forbidden_def FORBIDDEN_PAYLOAD_KEYS_def normalized_key_def lower_def char_lower_def
      lifecycle_not_agent)


lemma sample_event_simps [simp]:
  "ev_id (sample_event i at ty st) = i" "ev_type (sample_event i at ty st) = ty"
  "ev_time (sample_event i at ty st) = at_utc at" "ev_task (sample_event i at ty st) = Some ''TASK-1''"
  "ev_project (sample_event i at ty st) = Some ''hub''" "ev_team (sample_event i at ty st) = Some ''core''"
  "payload_status (sample_event i at ty st) = Some (status_value st)"
  by (simp_all add: sample_event_def payload_status_def)

lemma sample_events_valid [simp]:
  "valid_event sample_created" "valid_event sample_queued" "valid_event sample_started"
  using sample_event_valid [of 1 10 Pending] sample_event_valid [of 2 20 Queued]
    sample_event_valid [of 3 30 Running]
  by (simp_all add: sample_created_def sample_queued_def sample_started_def)

lemma sample_task_simps [simp]:
  "t_id sample_task = ''TASK-1''" "t_status sample_task = Pending" "t_agents sample_task = []"
  "t_project sample_task = ''hub''" "t_team sample_task = ''core''" "t_created sample_task = at_utc 10"
  "t_started sample_task = None" "t_completed sample_task = None"
  by (simp_all add: sample_task_def)

lemma sample_args: "queueing_args sample_task sample_created sample_queued None"
  using sample_events_valid sample_task_valid
  by (simp add: queueing_args_def creation_pre_def validate_lifecycle_event_def time_admissible_def
      sample_created_def sample_queued_def)

lemma serving_open [simp]: "serving (open_store d)"
  by (simp add: serving_def open_store_def)

lemma open_store_simps [simp]:
  "st_db (open_store d) = d" "(open_store d)\<lparr>st_db := d'\<rparr> = open_store d'"
  by (simp_all add: open_store_def)

lemma empty_db_simps [simp]:
  "db_inv empty_db" "db_tasks empty_db = []" "db_events empty_db = []" "db_event_seq empty_db = 0"
  using db_inv_empty by (simp_all add: empty_db_def)

lemma sample_creation:
  "create_queued_task (at_utc 0) sample_task sample_created sample_queued None (open_store empty_db) =
     (Inr (stamp_transition sample_task Queued (at_utc 20)),
      open_store (queued_db sample_task sample_created sample_queued None empty_db))"
  using create_queued_task_run [OF serving_open _ sample_args, of empty_db "at_utc 0"]
  by (simp add: sample_created_def sample_queued_def)

lemma sample_reachable: "reachable sample_store"
  unfolding sample_store_def
  by (intro reachable_step [OF reachable_start] store_step.create_queued_task) (simp_all add: sample_task_valid)

lemma sample_store: "sample_store = open_store (queued_db sample_task sample_created sample_queued None empty_db)"
  by (simp add: sample_store_def sample_creation)

text \<open>The only row of the sample store.\<close>

definition sample_row :: task_row where
  "sample_row =
     \<lparr>tk_id = ''TASK-1'', tk_status = Queued, tk_project = ''hub'', tk_team = ''core'',
      tk_created = at_utc 10, tk_updated = at_utc 20, tk_version = 2,
      tk_json = stamp_transition sample_task Queued (at_utc 20)\<rparr>"

lemma sample_row_simps [simp]:
  "tk_id sample_row = ''TASK-1''" "tk_status sample_row = Queued" "tk_version sample_row = 2"
  "tk_json sample_row = stamp_transition sample_task Queued (at_utc 20)"
  by (simp_all add: sample_row_def)

lemma sample_tables:
  "db_tasks (st_db sample_store) = [sample_row]"
  "db_events (st_db sample_store) = [event_row_of 1 sample_created, event_row_of 2 sample_queued]"
  "db_event_seq (st_db sample_store) = 2" "db_runs (st_db sample_store) = []"
  "db_artifacts (st_db sample_store) = []" "db_requests (st_db sample_store) = []"
  "db_routes (st_db sample_store) = []" "db_receipts (st_db sample_store) = []"
  by (simp_all add: sample_store open_store_def queued_db_def add_route_def created_db_def empty_db_def
      insert_row_def update_rows_def add_event_def new_task_row_def queued_row_def sample_row_def
      sample_created_def sample_queued_def numeral_2_eq_2)

lemma sample_serving: "serving sample_store"
  by (simp add: sample_store)

lemma sample_inv: "db_inv (st_db sample_store)"
  by (rule reachable_db [OF sample_reachable])

lemma sample_row_of: "row_of tk_id ''TASK-1'' (db_tasks (st_db sample_store)) = Some sample_row"
  by (simp add: sample_tables sample_row_def)

text \<open>The sample store after one more transition of its task.\<close>

definition sample_task_at :: "int \<Rightarrow> task_status \<Rightarrow> task" where
  "sample_task_at at st = stamp_transition (tk_json sample_row) st (at_utc at)"

definition sample_moved :: "uuid \<Rightarrow> int \<Rightarrow> task_status \<Rightarrow> store" where
  "sample_moved i at st =
     sample_store\<lparr>st_db := moved sample_row (sample_task_at at st)
       (sample_event i at (event_for_status st) st) (st_db sample_store)\<rparr>"

lemma sample_move_body:
  assumes "can_transition Queued st" "i \<notin> {1, 2}" "10 \<le> at"
  shows "transition_body now ''TASK-1'' st (sample_event i at (event_for_status st) st) (st_db sample_store) =
     (Inr (sample_task_at at st), st_db (sample_moved i at st))"
  unfolding transition_body_Ok [OF sample_inv sample_event_valid] sample_row_of
  using assms by (simp add: sample_moved_def sample_task_at_def sample_tables validate_lifecycle_event_def
      sample_row_def sample_created_def sample_queued_def time_admissible_def)
    (simp add: stamp_transition_def active_states_def)

lemma sample_move:
  assumes "can_transition Queued st" "i \<notin> {1, 2}" "10 \<le> at"
  shows "transition_stored_task now ''TASK-1'' st (sample_event i at (event_for_status st) st) sample_store =
     (Inr (sample_task_at at st), sample_moved i at st)"
  unfolding transition_stored_task_def transaction_on_serving [OF sample_serving] sample_move_body [OF assms]
  by (simp add: sample_moved_def)

lemma sample_moved_reachable:
  assumes "can_transition Queued st" "i \<notin> {1, 2}" "10 \<le> at"
  shows "reachable (sample_moved i at st)"
proof -
  have "store_step sample_store (snd (transition_stored_task (at_utc 0) ''TASK-1'' st
      (sample_event i at (event_for_status st) st) sample_store))"
    by (intro store_step.transition_task sample_event_valid)
  from reachable_step [OF sample_reachable this] show ?thesis by (simp add: sample_move [OF assms])
qed

lemma sample_moved_serving: "serving (sample_moved i at st)"
  using sample_serving by (simp add: sample_moved_def serving_def)

lemma sample_moved_tables:
  "db_tasks (st_db (sample_moved i at st)) = [moved_row (sample_task_at at st) (at_utc at) 3 sample_row]"
  "db_events (st_db (sample_moved i at st)) =
     [event_row_of 1 sample_created, event_row_of 2 sample_queued,
      event_row_of 3 (sample_event i at (event_for_status st) st)]"
  "db_runs (st_db (sample_moved i at st)) = []"
  by (simp_all add: sample_moved_def moved_def sample_tables update_rows_def insert_row_def)

definition sample_cancelled :: event where
  "sample_cancelled = sample_event 4 40 (event_for_status Cancelled) Cancelled"

lemma sample_cancelled_valid [simp]: "valid_event sample_cancelled"
  by (simp only: sample_cancelled_def sample_event_valid)

lemma sample_can_move: "can_transition Queued Cancelled" "can_transition Queued Running"
  by (simp_all add: lifecycle_defs)

definition sample_cancelled_store :: store where
  "sample_cancelled_store = sample_moved 4 40 Cancelled"

lemma sample_cancel:
  "transition_stored_task now ''TASK-1'' Cancelled sample_cancelled sample_store =
     (Inr (sample_task_at 40 Cancelled), sample_cancelled_store)"
  unfolding sample_cancelled_store_def sample_cancelled_def
  by (rule sample_move) (simp_all add: sample_can_move)

lemma sample_cancelled_reachable: "reachable sample_cancelled_store"
  unfolding sample_cancelled_store_def by (rule sample_moved_reachable) (simp_all add: sample_can_move)

lemma close_steps: "store_step\<^sup>*\<^sup>* s (close_store s)"
  by (rule r_into_rtranclp [of store_step]) (rule store_step.close)

end
