(* ===== verification/StoreProperties.thy ===== *)
theory StoreProperties
  imports Samples
begin

text \<open>
  The properties of the task store: its invariant, the audit trail, forward evolution, atomicity,
  the exact outcome of a transition, idempotent retries, and what queries return.
\<close>

section \<open>The invariant and the audit trail\<close>




lemma sample_row_mem: "sample_row \<in> set (db_tasks (st_db sample_store))"
  by (simp add: sample_tables)


section \<open>Forward evolution\<close>

text \<open>The store only moves forward: whatever operations run, the event log is extended, and
  every stored task keeps its identity and request while its version grows and its status follows
  legal transitions.\<close>

theorem append_only:
  assumes "reachable s" "store_step\<^sup>*\<^sup>* s s'"
  shows "prefix (db_events (st_db s)) (db_events (st_db s')) \<and>
    (\<forall>i row. row_of tk_id i (db_tasks (st_db s)) = Some row \<longrightarrow>
      (\<exists>row'. row_of tk_id i (db_tasks (st_db s')) = Some row' \<and> task_evolves row row'))"
proof -
  have inv: "db_inv (st_db s)" by (rule reachable_db [OF assms(1)])
  have ev: "evolves (st_db s) (st_db s')" by (rule steps_evolve [OF assms(2) inv])
  then show ?thesis
    using evolved_row [OF ev steps_keep [OF assms(2) inv]] by (auto simp: evolves_def)
qed

theorem append_only_witness:
  "\<exists>row'. row_of tk_id ''TASK-1'' (db_tasks (st_db (close_store sample_store))) = Some row' \<and>
     task_evolves sample_row row'"
  using append_only [OF sample_reachable close_steps] sample_row_of by blast

text \<open>C16: A task that is completed, failed or cancelled stays so: no operation ever changes its
  status again.\<close>

theorem terminal_is_final:
  assumes "reachable s" "row_of tk_id i (db_tasks (st_db s)) = Some row" "is_terminal (tk_status row)"
    "store_step\<^sup>*\<^sup>* s s'"
  shows "\<exists>row'. row_of tk_id i (db_tasks (st_db s')) = Some row' \<and> tk_status row' = tk_status row"
proof -
  have inv: "db_inv (st_db s)" by (rule reachable_db [OF assms(1)])
  have "evolves (st_db s) (st_db s')" by (rule steps_evolve [OF assms(4) inv])
  with evolved_row [OF this steps_keep [OF assms(4) inv] assms(2)] assms(3) terminal_stays
  show ?thesis by (auto simp: task_evolves_def)
qed

theorem terminal_is_final_witness:
  "\<exists>row'. row_of tk_id ''TASK-1'' (db_tasks (st_db (close_store sample_cancelled_store))) = Some row' \<and>
     tk_status row' = Cancelled"
proof -
  have "row_of tk_id ''TASK-1'' (db_tasks (st_db sample_cancelled_store)) =
    Some (moved_row (sample_task_at 40 Cancelled) (at_utc 40) 3 sample_row)"
    by (simp add: sample_cancelled_store_def sample_moved_tables sample_row_def)
  from terminal_is_final [OF sample_cancelled_reachable this _ close_steps]
  show ?thesis by (simp add: is_terminal_def sample_task_at_def)
qed

section \<open>Transitions\<close>

text \<open>After a transition has returned, its task and its event are stored.\<close>

lemma transition_stored:
  assumes inv: "db_inv d" and ev: "valid_event e"
    and run: "transition_body now i target e d = (Inr t, d')"
  shows "\<exists>row r. row_of tk_id i (db_tasks d') = Some row \<and> tk_json row = t \<and>
    validate_lifecycle_event (tk_json row) target e = Inr () \<and>
    row_of er_id (ev_id e) (db_events d') = Some r \<and> er_json r = canonical_event e"
proof -
  from run obtain row where row: "row_of tk_id i (db_tasks d) = Some row"
    and told: "validate_lifecycle_event (tk_json row) target e = Inr ()"
    and cases: "case row_of er_id (ev_id e) (db_events d) of
          Some r \<Rightarrow> er_json r = canonical_event e \<and> t = tk_json row \<and> d' = d
        | None \<Rightarrow>
            can_transition (tk_status row) target \<and> time_admissible (tk_json row) (ev_time e) \<and>
            t = stamp_transition (tk_json row) target (ev_time e) \<and> d' = moved row t e d"
    by (auto simp: transition_body_Ok [OF inv ev])
  show ?thesis
  proof (cases "row_of er_id (ev_id e) (db_events d)")
    case (Some r)
    with cases row told show ?thesis by auto
  next
    case None
    let ?P = "\<lambda>r. tk_id r = tk_id row \<and> tk_version r = tk_version row"
    have d': "d' = moved row t e d" "t = stamp_transition (tk_json row) target (ev_time e)"
      using cases None by auto
    have "row_of er_id (ev_id e) (db_events d') = Some (event_row_of (Suc (db_event_seq d)) e)"
      using None by (simp add: d'(1) moved_def row_of_insert_row)
    moreover have "row_of tk_id i (db_tasks d') = Some (moved_row t (ev_time e) (tk_version row + 1) row)"
      using row row_of_SomeD [OF row]
      by (simp add: d'(1) moved_def row_of_update_rows)
    moreover have "validate_lifecycle_event t target e = Inr ()"
      using told d'(2) by (simp add: validate_lifecycle_event_Ok)
    ultimately show ?thesis by auto
  qed
qed

text \<open>C3: The exact outcome of a transition on a reachable, serving store: it returns exactly when the
  task exists, the event tells this transition, and either the event is stored already with the same
  content (then nothing changes), or the move is legal and not before the task's start; then the row
  moves on by one version and the event is appended.\<close>

theorem transition_exact:
  assumes "reachable s" "serving s" "valid_event e"
  shows "transition_stored_task now i target e s = (Inr t, s') \<longleftrightarrow>
    (\<exists>row. row_of tk_id i (db_tasks (st_db s)) = Some row \<and>
       validate_lifecycle_event (tk_json row) target e = Inr () \<and>
       (case row_of er_id (ev_id e) (db_events (st_db s)) of
          Some r \<Rightarrow> er_json r = canonical_event e \<and> t = tk_json row \<and> s' = s
        | None \<Rightarrow>
            can_transition (tk_status row) target \<and> time_admissible (tk_json row) (ev_time e) \<and>
            t = stamp_transition (tk_json row) target (ev_time e) \<and>
            s' = s\<lparr>st_db := moved row t e (st_db s)\<rparr>))"
proof -
  have run: "transition_stored_task now i target e s = (Inr t, s') \<longleftrightarrow>
      (\<exists>d. transition_body now i target e (st_db s) = (Inr t, d) \<and> s' = s\<lparr>st_db := d\<rparr>)"
    using assms(2) by (simp add: transition_stored_task_def transaction_Ok serving_def)
  show ?thesis
    unfolding run transition_body_Ok [OF reachable_db [OF assms(1)] assms(3)]
    by (cases "row_of er_id (ev_id e) (db_events (st_db s))") auto
qed

theorem transition_exact_witness:
  "\<exists>row. row_of tk_id ''TASK-1'' (db_tasks (st_db sample_store)) = Some row \<and>
     can_transition (tk_status row) Cancelled \<and> sample_task_at 40 Cancelled =
       stamp_transition (tk_json row) Cancelled (ev_time sample_cancelled)"
  using transition_exact [OF sample_reachable sample_serving sample_cancelled_valid, of "at_utc 0" "''TASK-1''"
      Cancelled "sample_task_at 40 Cancelled" sample_cancelled_store] sample_cancel
  by (auto simp: sample_tables sample_created_def sample_queued_def sample_cancelled_def)

text \<open>A transition may be retried for ever: once it has returned, calling it again with the same
  event, after any other operations, returns the current task and changes nothing.\<close>

theorem transition_retry:
  assumes s: "reachable s" "valid_event e"
    and first: "transition_stored_task now i target e s = (Inr t, s1)"
    and later: "store_step\<^sup>*\<^sup>* s1 s2" "serving s2"
  shows "\<exists>t'. transition_stored_task now' i target e s2 = (Inr t', s2) \<and> get_task i s2 = Inr t'"
proof -
  have inv: "db_inv (st_db s)" by (rule reachable_db [OF s(1)])
  have r1: "reachable s1"
    using reachable_step [OF s(1) store_step.transition_task [of e s now i target, OF s(2)]] first by simp
  note inv1 = reachable_db [OF r1]
  note inv2 = steps_keep [OF later(1) inv1] and ev = steps_evolve [OF later(1) inv1]
  obtain row r where row: "row_of tk_id i (db_tasks (st_db s1)) = Some row"
    and told: "validate_lifecycle_event (tk_json row) target e = Inr ()"
    and r: "row_of er_id (ev_id e) (db_events (st_db s1)) = Some r" "er_json r = canonical_event e"
  proof -
    obtain d where d: "transition_body now i target e (st_db s) = (Inr t, d)" "s1 = s\<lparr>st_db := d\<rparr>"
      using first by (auto simp: transition_stored_task_def transaction_Ok)
    then have "st_db s1 = d" by simp
    with transition_stored [OF inv s(2) d(1)] show ?thesis using that by blast
  qed
  obtain row' where row': "row_of tk_id i (db_tasks (st_db s2)) = Some row'" "task_evolves row row'"
    using evolved_row [OF ev inv2 row] by blast
  have ok: "task_row_ok row" "task_row_ok row'"
    using row_of_task_ok row row'(1) inv1 inv2 by (auto simp: db_inv_def)
  have "validate_lifecycle_event (tk_json row') target e = Inr ()"
    using told row'(2) ok by (simp add: validate_lifecycle_event_Ok task_evolves_def task_row_ok_def)
  moreover have "row_of er_id (ev_id e) (db_events (st_db s2)) = Some r"
    by (rule evolved_event [OF ev r(1)])
  ultimately have "transition_body now' i target e (st_db s2) = (Inr (tk_json row'), st_db s2)"
    unfolding transition_body_Ok [OF inv2 s(2)] using row'(1) r(2) by simp
  then show ?thesis
    using row'(1) ok later(2)
    by (simp add: transition_stored_task_def transaction_on_serving get_task_def read_serving task_row_ok_def)
qed

theorem transition_retry_witness:
  "\<exists>t'. transition_stored_task (at_utc 9) ''TASK-1'' Cancelled sample_cancelled sample_cancelled_store =
     (Inr t', sample_cancelled_store) \<and> get_task ''TASK-1'' sample_cancelled_store = Inr t'"
  by (rule transition_retry [OF sample_reachable sample_cancelled_valid sample_cancel rtranclp.rtrancl_refl])
    (simp add: sample_cancelled_store_def sample_moved_serving)

section \<open>Atomicity and identity of events\<close>

text \<open>An operation is atomic when raising leaves the store as it was.\<close>

definition atomic_operation :: "'a store_act \<Rightarrow> bool" where
  "atomic_operation op \<longleftrightarrow> (\<forall>s e s'. op s = (Inl e, s') \<longrightarrow> s' = s)"

lemma atomic_transaction: "atomic_operation (transaction body)"
  by (auto simp: atomic_operation_def dest: transaction_Raise)

lemma atomic_lift: "(\<And>x. atomic_operation (f x)) \<Longrightarrow> atomic_operation (act_bind (act_lift r) f)"
  by (cases r) (auto simp: atomic_operation_def act_bind_def act_lift_def)

lemma atomic_require: "atomic_operation (f ()) \<Longrightarrow> atomic_operation (act_bind (act_require b e) f)"
  by (auto simp: atomic_operation_def act_bind_def act_require_def)

lemma atomic_raise: "atomic_operation (act_raise e)"
  by (simp add: atomic_operation_def act_raise_def)

lemmas atomic_intros = atomic_lift atomic_require atomic_transaction atomic_raise

text \<open>C17: Every operation that writes is atomic: when it raises, at a check, at a constraint, at a
  statement or at the commit, the store is left as it was.\<close>

theorem operations_are_atomic:
  "atomic_operation (create_task t e) \<and>
   atomic_operation (create_queued_task now t e e2 route) \<and>
   atomic_operation (transition_stored_task now i target e) \<and>
   atomic_operation (assign_task i agent e) \<and> atomic_operation (append_event e) \<and>
   atomic_operation (create_run r) \<and> atomic_operation (start_run now i at) \<and>
   atomic_operation (finish_run now i status at code err) \<and> atomic_operation (create_artifact a) \<and>
   atomic_operation (reserve_gateway_request now key at) \<and>
   atomic_operation (remember_gateway_response now key response) \<and>
   atomic_operation (release_gateway_request now key) \<and> atomic_operation (save_task_route i src tgt) \<and>
   atomic_operation reconcile_incomplete_gateway_requests \<and>
   atomic_operation (reserve_delivery now i at) \<and> atomic_operation reconcile_reserved_deliveries \<and>
   atomic_operation (mark_delivery_delivered now i at) \<and> atomic_operation (release_delivery now i) \<and>
   atomic_operation (reconcile_interrupted_running now fresh at)"
  unfolding create_task_def create_queued_task_def transition_stored_task_def assign_task_def
    append_event_def create_run_def start_run_def finish_run_def create_artifact_def
    reserve_gateway_request_def remember_gateway_response_def release_gateway_request_def
    save_task_route_def mark_delivery_delivered_def release_delivery_def
    reconcile_interrupted_running_def reconcile_incomplete_gateway_requests_def reserve_delivery_def
    reconcile_reserved_deliveries_def
  by (intro conjI atomic_intros) (auto intro: atomic_intros split: option.split)

text \<open>An event identifier is never reused for different content: with the identifier of a stored
  event and other content, neither appending nor a transition returns.\<close>

theorem event_id_not_reused:
  assumes "reachable s" "valid_event e" "row_of er_id (ev_id e) (db_events (st_db s)) = Some r"
    "er_json r \<noteq> canonical_event e"
  shows "fst (append_event e s) \<noteq> Inr b \<and> fst (transition_stored_task now i target e s) \<noteq> Inr t \<and>
    fst (assign_task i agent e s) \<noteq> Inr t"
proof -
  have not_run: "fst (transaction body s) \<noteq> Inr x" if "\<And>d. body (st_db s) \<noteq> (Inr x, d)"
    for body :: "'x db_act" and x
    using that transaction_Ok [of body s x] by (metis prod.collapse)
  have inv: "db_inv (st_db s)" by (rule reachable_db [OF assms(1)])
  have "fst (append_event e s) \<noteq> Inr b"
    using not_run [of "append_event_locked e" b] assms(3,4)
    by (simp add: append_event_locked_Ok append_event_def act_bind_def act_require_def)
  moreover have "fst (transition_stored_task now i target e s) \<noteq> Inr t"
    unfolding transition_stored_task_def
    using assms(3,4) by (intro not_run) (simp add: transition_body_Ok [OF inv assms(2)])
  moreover have "fst (assign_task i agent e s) \<noteq> Inr t"
    unfolding assign_task_def
    using assms(3,4) by (intro not_run) (simp add: assign_body_Ok [OF inv assms(2)])
  ultimately show ?thesis by simp
qed

theorem event_id_not_reused_witness:
  "fst (transition_stored_task (at_utc 0) ''TASK-1'' Cancelled (sample_event 2 40 TASK_CANCELLED Cancelled)
     sample_store) \<noteq> Inr sample_task"
  using event_id_not_reused [OF sample_reachable, of "sample_event 2 40 TASK_CANCELLED Cancelled"
      "event_row_of 2 sample_queued"] sample_event_valid [of 2 40 Cancelled]
  by (simp add: sample_tables sample_created_def sample_queued_def)
    (metis canonical_event_simps(3) event_type.distinct sample_event_simps(2))

section \<open>Creation and queries\<close>

text \<open>Creating and queueing a new task on a serving store succeeds, and what it stored can be read
  back: the queued task, its route, and its two events in order.\<close>

theorem created_task_visible:
  assumes "reachable s" "serving s" and args: "queueing_args t e1 e2 route"
    and new: "t_id t \<notin> task_ids (st_db s)" "ev_id e1 \<notin> keys er_id (db_events (st_db s))"
      "ev_id e2 \<notin> keys er_id (db_events (st_db s))" "ev_id e1 \<noteq> ev_id e2"
  shows "\<exists>s'. create_queued_task now t e1 e2 route s = (Inr (stamp_transition t Queued (ev_time e2)), s') \<and>
    get_task (t_id t) s' = Inr (stamp_transition t Queued (ev_time e2)) \<and>
    get_task_route (t_id t) s' = Inr route \<and>
    stream (db_events (st_db s')) (t_id t) = [canonical_event e1, canonical_event e2]"
proof -
  let ?s = "s\<lparr>st_db := queued_db t e1 e2 route (st_db s)\<rparr>"
  have inv: "db_inv (st_db s)" by (rule reachable_db [OF assms(1)])
  have valid: "valid_event e1" "valid_event e2" "ev_task e1 = Some (t_id t)" "ev_task e2 = Some (t_id t)"
    using args by (auto simp: queueing_args_def creation_pre_def validate_lifecycle_event_Ok)
  have "stream (db_events (st_db s)) (t_id t) = []"
    using no_event_without_task [OF _ new(1)] inv
    by (intro no_events_no_history) (auto simp: db_inv_def)
  then have "stream (db_events (st_db ?s)) (t_id t) = [canonical_event e1, canonical_event e2]"
    using valid by (simp add: queued_db_def stream_insert)
  moreover have "serving ?s" using assms(2) by simp
  ultimately show ?thesis
    using create_queued_task_run [OF assms(2) inv args new] queued_readable [OF args new(1) inv, of ?s] by auto
qed

theorem created_task_visible_witness:
  "\<exists>s'. get_task ''TASK-1'' s' = Inr (stamp_transition sample_task Queued (at_utc 20)) \<and>
     get_task_route ''TASK-1'' s' = Inr None"
  using created_task_visible [OF reachable_start serving_open sample_args, of "at_utc 0"]
  by (auto simp: sample_created_def sample_queued_def)

text \<open>The queue is first in, first out: \<open>list_queued_tasks\<close> returns queued tasks in the order of
  their creation text and identifier, as many as there are up to the limit, and every queued task it
  leaves out comes after all it returns.\<close>

theorem queue_is_fifo:
  assumes "reachable s" "list_queued_tasks limit s = Inr ts"
  shows "\<exists>rows. ts = map tk_json rows \<and> sorted_wrt oldest_first rows \<and> distinct rows \<and>
    set rows \<subseteq> {r \<in> set (db_tasks (st_db s)). tk_status r = Queued} \<and>
    length rows = min (nat limit) (length (filter (\<lambda>r. tk_status r = Queued) (db_tasks (st_db s)))) \<and>
    (\<forall>r \<in> set (db_tasks (st_db s)). tk_status r = Queued \<longrightarrow> r \<notin> set rows \<longrightarrow>
      (\<forall>r' \<in> set rows. oldest_first r' r))"
proof -
  let ?all = "queued_rows (st_db s)"
  have tabs: "tables_ok (st_db s)" by (rule reachable_tables [OF assms(1)])
  have "decode_task (tk_json r) = Inr (tk_json r)" if "r \<in> set (db_tasks (st_db s))" for r
    using tabs that by (simp add: tables_ok_def tasks_ok_def task_row_ok_def)
  then have "traverse (\<lambda>r. decode_task (tk_json r)) (take (nat limit) ?all) =
      Inr (map tk_json (take (nat limit) ?all))"
    by (intro traverse_Ok_map) (auto simp: queued_rows_def dest: in_set_take_order_by)
  then have ts: "ts = map tk_json (take (nat limit) ?all)"
    using assms(2) by (auto simp: list_queued_tasks_def check_limit_def read_store_def
        split: if_splits option.splits)
  have sorted: "sorted_wrt oldest_first (take (nat limit) ?all @ drop (nat limit) ?all)"
    unfolding append_take_drop_id queued_rows_def
    by (rule sorted_order_by) (auto simp: oldest_first_def)
  note order = sorted [unfolded sorted_wrt_append]
  have "distinct (db_tasks (st_db s))"
    using tabs by (simp add: tables_ok_def tasks_ok_def distinct_map)
  then have "distinct ?all" by (simp add: queued_rows_def)
  moreover have "set ?all = set (take (nat limit) ?all) \<union> set (drop (nat limit) ?all)"
    by (metis append_take_drop_id set_append)
  then have "r \<in> set (drop (nat limit) ?all)"
    if "r \<in> set (db_tasks (st_db s))" "tk_status r = Queued" "r \<notin> set (take (nat limit) ?all)" for r
    using that by (auto simp: queued_rows_def)
  ultimately show ?thesis
    using ts order
    by (intro exI [of _ "take (nat limit) ?all"])
      (auto simp: queued_rows_def min.commute dest: in_set_take_order_by)
qed

theorem queue_is_fifo_witness:
  "list_queued_tasks 5 sample_store = Inr [tk_json sample_row] \<and>
     (\<exists>rows :: task_row list. [tk_json sample_row] = map tk_json rows \<and> sorted_wrt oldest_first rows)"
proof -
  have "valid_task (tk_json sample_row)"
    using sample_inv sample_row_mem by (auto simp: db_inv_def tables_ok_def tasks_ok_def task_row_ok_def)
  then have run: "list_queued_tasks 5 sample_store = Inr [tk_json sample_row]"
    using sample_serving
    by (simp add: list_queued_tasks_def check_limit_def read_serving queued_rows_def sample_tables sample_row_def)
  from queue_is_fifo [OF sample_reachable run] obtain rows :: "task_row list"
    where "[tk_json sample_row] = map tk_json rows" "sorted_wrt oldest_first rows" by metis
  with run show ?thesis by metis
qed

lemma traverse_total: "(\<And>x. x \<in> set xs \<Longrightarrow> \<exists>y. f x = Inr y) \<Longrightarrow> \<exists>ys. traverse f xs = Inr ys"
  by (induction xs) fastforce+

text \<open>What the store holds it can read: on a reachable, serving store the queries of tasks, events
  and runs never report corrupted data; with a legal limit they return.\<close>

theorem reads_succeed:
  assumes "reachable s" "serving s" "1 \<le> limit" "limit \<le> 1000" "0 \<le> after"
  shows "(\<exists>ts. list_tasks limit status s = Inr ts) \<and> (\<exists>ts. list_queued_tasks limit s = Inr ts) \<and>
    (\<exists>es. list_events tid after limit s = Inr es) \<and> (\<exists>rs. list_runs i s = Inr rs) \<and>
    (i \<in> task_ids (st_db s) \<longleftrightarrow> (\<exists>t. get_task i s = Inr t)) \<and>
    (j \<in> keys rr_id (db_runs (st_db s)) \<longleftrightarrow> (\<exists>r. get_run j s = Inr r))"
proof -
  have tabs: "tables_ok (st_db s)" by (rule reachable_tables [OF assms(1)])
  have ok: "decode_task (tk_json r) = Inr (tk_json r)" if "r \<in> set (db_tasks (st_db s))" for r
    using tabs that by (simp add: tables_ok_def tasks_ok_def task_row_ok_def)
  have ok_event: "decode_event (er_json r) = Inr (er_json r)" if "r \<in> set (db_events (st_db s))" for r
    using tabs that by (simp add: tables_ok_def events_ok_def event_row_ok_def)
  have ok_run: "decode_run (rr_json r) = Inr (rr_json r)" if "r \<in> set (db_runs (st_db s))" for r
    using tabs that by (simp add: tables_ok_def runs_ok_def run_row_ok_def)
  have lim: "check_limit 1000 limit = Inr (nat limit)" "check_limit 10000 limit = Inr (nat limit)"
    using assms(3,4) by (simp_all add: check_limit_def)
  have "\<exists>ts. list_tasks limit status s = Inr ts"
    unfolding list_tasks_def lim and_then.simps read_serving [OF assms(2)]
    by (rule traverse_total) (auto simp: ok dest!: in_set_take_order_by split: option.splits)
  moreover have "\<exists>ts. list_queued_tasks limit s = Inr ts"
    unfolding list_queued_tasks_def lim and_then.simps read_serving [OF assms(2)]
    by (rule traverse_total) (auto simp: ok queued_rows_def dest!: in_set_take_order_by)
  moreover have "\<exists>es. list_events tid after limit s = Inr es"
    using assms(5) unfolding list_events_def lim and_then.simps read_serving [OF assms(2)]
    by (simp add: require_def) (rule traverse_total, auto simp: ok_event event_rows_def dest!: in_set_take_order_by)
  moreover have "\<exists>rs. list_runs i s = Inr rs"
    unfolding list_runs_def read_serving [OF assms(2)]
    by (rule traverse_total) (auto simp: ok_run)
  moreover have "i \<in> task_ids (st_db s) \<longleftrightarrow> (\<exists>t. get_task i s = Inr t)"
    using assms(2) ok row_of_None [of tk_id i "db_tasks (st_db s)"]
    by (cases "row_of tk_id i (db_tasks (st_db s))")
      (auto simp: get_task_def read_serving dest: row_of_SomeD)
  moreover have "j \<in> keys rr_id (db_runs (st_db s)) \<longleftrightarrow> (\<exists>r. get_run j s = Inr r)"
    using assms(2) ok_run row_of_None [of rr_id j "db_runs (st_db s)"]
    by (cases "row_of rr_id j (db_runs (st_db s))")
      (auto simp: get_run_def read_serving dest: row_of_SomeD)
  ultimately show ?thesis by blast
qed

theorem reads_succeed_witness: "\<exists>ts. list_tasks 20 None sample_store = Inr ts"
  using reads_succeed [OF sample_reachable sample_serving, of 20 0] by simp

end
