(* ===== verification/RecoveryProperties.thy ===== *)
theory RecoveryProperties
  imports Samples
begin

text \<open>
  Recovery after a restart: \<open>reconcile_interrupted_running\<close> returns whenever its time is not before
  the times of the work it ends, and then leaves no active work. The theory also holds the
  properties of runs and artifacts.
\<close>

section \<open>Reconciliation returns\<close>

definition restart_time_ok :: "db \<Rightarrow> aware \<Rightarrow> bool" where
  "restart_time_ok d at \<longleftrightarrow>
     (\<forall>r \<in> set (db_runs d). utc (rr_created r) \<le> utc at \<and>
        opt_all (\<lambda>s. utc s \<le> utc at) (run_started (rr_json r))) \<and>
     (\<forall>r \<in> set (db_tasks d). time_admissible (tk_json r) at)"

lemma interrupted_run_valid:
  assumes "valid_run r" "\<not> run_terminal (run_status r)" "utc (run_created r) \<le> utc at"
    "opt_all (\<lambda>s. utc s \<le> utc at) (run_started r)"
  shows "valid_run (interrupted_run at r)"
proof -
  have "clean Identifier ''process-restart''"
    by (simp add: clean_iff meets_def Identifier_def strip_def char_class_defs)
  then show ?thesis
    using assms
    by (auto simp: valid_run_iff run_fields_clean_def run_lifecycle_ok_def interrupted_run_def
        run_terminal_def opt_all_iff split: option.splits)
qed

lemma interrupt_run_returns:
  assumes inv: "db_inv d" and row: "row \<in> set (db_runs d)" "\<not> run_terminal (rr_status row)"
    and time: "utc (rr_created row) \<le> utc at" "opt_all (\<lambda>s. utc s \<le> utc at) (run_started (rr_json row))"
  shows "\<exists>r d'. interrupt_run at row d = (Inr r, d')"
proof -
  have "row = run_row_of (rr_json row)" and valid: "valid_run (rr_json row)"
    using inv row by (auto simp: db_inv_def tables_ok_def runs_ok_def run_row_ok_def)
  then have "rr_status row = run_status (rr_json row)" "rr_created row = run_created (rr_json row)"
    by (metis run_row_of_simps)+
  then have "valid_run (interrupted_run at (rr_json row))"
    using interrupted_run_valid [OF valid] row(2) time by simp
  then show ?thesis by (auto simp: interrupt_run_Ok [OF inv row(1)] valid_run_def)
qed

lemma interrupt_runs_return:
  assumes "db_inv d" "set rows \<subseteq> set (db_runs d)" "distinct (map rr_id rows)"
    "\<forall>r \<in> set rows. \<not> run_terminal (rr_status r) \<and> utc (rr_created r) \<le> utc at \<and>
       opt_all (\<lambda>s. utc s \<le> utc at) (run_started (rr_json r))"
  shows "\<exists>rs d'. interrupt_runs at rows d = (Inr rs, d')"
  using assms
proof (induction rows arbitrary: d)
  case (Cons row rows)
  obtain r d1 where one: "interrupt_run at row d = (Inr r, d1)"
    using interrupt_run_returns [OF Cons.prems(1), of row at] Cons.prems(2,4) by auto
  have mem: "row \<in> set (db_runs d)" using Cons.prems(2) by simp
  note step = interrupt_run_step [OF Cons.prems(1) mem one]
  have "set rows \<subseteq> set (db_runs d1)"
  proof
    fix x assume "x \<in> set rows"
    with Cons.prems(2,3) have "x \<in> set (db_runs d)" "rr_id x \<noteq> rr_id row" by (auto dest: sym)
    with step show "x \<in> set (db_runs d1)"
      by (auto simp: set_update_rows image_iff intro!: bexI [of _ x])
  qed
  with Cons.IH [of d1] Cons.prems(3,4) step one show ?case
    by (auto simp: act_bind_def act_return_def)
qed (auto simp: act_return_def)

lemma block_task_returns:
  assumes inv: "db_inv d" and row: "row \<in> set (db_tasks d)" "can_transition (tk_status row) Blocked"
    "time_admissible (tk_json row) at" and fresh: "i \<notin> keys er_id (db_events d)"
  shows "\<exists>x d'. block_task now i at row d = (Inr x, d')"
proof -
  have tabs: "tables_ok d" using inv by (simp add: db_inv_def)
  have at: "row_of tk_id (tk_id row) (db_tasks d) = Some row"
    using tabs row by (auto simp: tables_ok_def tasks_ok_def intro: row_of_distinct)
  have ok: "valid_task (tk_json row)" "t_id (tk_json row) = tk_id row" "t_status (tk_json row) = tk_status row"
    using row_of_task_ok [OF tabs at] by (auto simp: task_row_ok_def)
  let ?e = "blocked_event i at (tk_json row)"
  let ?d = "db_tasks_update (update_rows (\<lambda>r. tk_id r = tk_id row \<and> tk_version r = tk_version row)
      (\<lambda>r. r\<lparr>tk_status := Blocked, tk_updated := at, tk_version := tk_version row + 1,
             tk_json := stamp_transition (tk_json row) Blocked at\<rparr>)) d"
  have "keys tk_id (db_tasks ?d) = task_ids d" by (simp add: keys_update_rows)
  then have app: "append_event_locked ?e ?d = (Inr True, add_event ?e ?d)"
    using fresh row(1) by (intro append_event_new) (simp_all add: blocked_event_def ok)
  have "row_of er_id i (db_events d) = None" using fresh by (metis row_of_None)
  then have "row_of er_id (ev_id ?e) (db_events (add_event ?e ?d)) =
      Some (event_row_of (Suc (db_event_seq d)) ?e)"
    by (simp add: row_of_insert_row blocked_event_def)
  moreover have "Event_validate ?e = Inr ?e"
    using blocked_event_valid [OF ok(1)] by (simp add: valid_event_def)
  moreover have "apply_transition now (tk_json row) Blocked at = Inr (stamp_transition (tk_json row) Blocked at)"
    using row ok by (simp add: apply_transition_Ok)
  ultimately show ?thesis
    using app ok by (simp add: block_task_def act_defs update_task_def)
qed

lemma block_tasks_return:
  assumes "db_inv d" "set rows \<subseteq> set (db_tasks d)" "distinct (map tk_id rows)"
    "fresh_for fresh n (length rows) d"
    "\<forall>r \<in> set rows. can_transition (tk_status r) Blocked \<and> time_admissible (tk_json r) at"
  shows "\<exists>xs d'. block_tasks now fresh at n rows d = (Inr xs, d')"
  using assms
proof (induction rows arbitrary: d n)
  case (Cons row rows)
  obtain x d1 where one: "block_task now (fresh n) at row d = (Inr x, d1)"
    using block_task_returns [OF Cons.prems(1), of row at "fresh n" now] Cons.prems
    by (auto simp: fresh_for_def)
  note nxt = block_tasks_next [OF Cons.prems(1-4) one]
  obtain xs d' where "block_tasks now fresh at (Suc n) rows d1 = (Inr xs, d')"
    using Cons.IH [of d1 "Suc n"] nxt Cons.prems(5) by auto
  with one show ?case by (simp add: act_bind_def act_return_def)
qed (auto simp: act_return_def)

lemma reconcile_body_returns:
  assumes inv: "db_inv d" and fresh: "fresh_supply fresh d" and time: "restart_time_ok d at"
  shows "\<exists>r d'. reconcile_body now fresh at d = (Inr r, d')"
proof -
  obtain rs d1 where runs: "interrupt_runs at (active_run_rows d) d = (Inr rs, d1)"
    using interrupt_runs_return [OF inv active_runs_distinct(2,1) [OF inv], of at] time
    by (auto simp: active_run_rows_def restart_time_ok_def run_terminal_def)
  note s1 = interrupt_runs_steps [OF inv active_runs_distinct(2,1) [OF inv] runs]
  have inv1: "db_inv d1" using s1 by simp
  have fr: "fresh_for fresh 0 (length (active_task_rows d1)) d1"
    using fresh s1 by (simp add: fresh_supply_def fresh_for_def active_task_rows_def)
  have "\<forall>r \<in> set (active_task_rows d1). can_transition (tk_status r) Blocked \<and>
      time_admissible (tk_json r) at"
    using time s1 by (auto simp: active_task_rows_def restart_time_ok_def lifecycle_defs)
  then obtain xs d' where "block_tasks now fresh at 0 (active_task_rows d1) d1 = (Inr xs, d')"
    using block_tasks_return [OF inv1 active_tasks_distinct(2,1) [OF inv1] fr] by blast
  with runs show ?thesis by (simp add: reconcile_body_def act_defs)
qed

text \<open>The result names the tasks that were active.\<close>

lemma block_tasks_names:
  assumes "db_inv d" "set rows \<subseteq> set (db_tasks d)" "distinct (map tk_id rows)"
    "fresh_for fresh n (length rows) d" "block_tasks now fresh at n rows d = (Inr xs, d')"
  shows "map (\<lambda>x. t_id (fst x)) xs = map tk_id rows"
  using assms
proof (induction rows arbitrary: d n xs)
  case Nil
  then show ?case by (simp add: act_return_def)
next
  case (Cons row rows)
  from Cons.prems obtain x d1 ys where one: "block_task now (fresh n) at row d = (Inr x, d1)"
    and rest: "block_tasks now fresh at (Suc n) rows d1 = (Inr ys, d')" and xs: "xs = x # ys"
    by (auto simp: result_simps split_paired_Ex)
  have mem: "row \<in> set (db_tasks d)" and new: "fresh n \<notin> keys er_id (db_events d)"
    using Cons.prems(2,4) by (auto simp: fresh_for_def)
  have "t_id (fst x) = tk_id row"
    using block_task_moves [OF Cons.prems(1) mem new one] Cons.prems(1) mem
    by (auto simp: db_inv_def tables_ok_def tasks_ok_def task_row_ok_def)
  moreover have "map (\<lambda>x. t_id (fst x)) ys = map tk_id rows"
    using block_tasks_next [OF Cons.prems(1-4) one] Cons.IH [OF _ _ _ _ rest] by blast
  ultimately show ?case using xs by simp
qed

lemma reconcile_body_names:
  assumes inv: "db_inv d" and fresh: "fresh_supply fresh d"
    and run: "reconcile_body now fresh at d = (Inr r, d')"
  shows "map t_id (rec_tasks r) = map tk_id (active_task_rows d)"
proof -
  from run obtain runs d1 xs where runs: "interrupt_runs at (active_run_rows d) d = (Inr runs, d1)"
    and tasks: "block_tasks now fresh at 0 (active_task_rows d1) d1 = (Inr xs, d')"
    and r: "r = \<lparr>rec_runs = runs, rec_tasks = map fst xs, rec_events = map snd xs\<rparr>"
    by (auto simp: reconcile_body_def result_simps)
  note s1 = interrupt_runs_steps [OF inv active_runs_distinct(2,1) [OF inv] runs]
  have inv1: "db_inv d1" and same: "active_task_rows d1 = active_task_rows d"
    using s1 by (simp_all add: active_task_rows_def)
  have fr: "fresh_for fresh 0 (length (active_task_rows d1)) d1"
    using fresh s1 same by (simp add: fresh_supply_def fresh_for_def)
  from block_tasks_names [OF inv1 active_tasks_distinct(2,1) [OF inv1] fr tasks] show ?thesis
    by (simp add: r same comp_def)
qed

text \<open>C18: After a restart, reconciliation at a time that is not before the recorded times, with fresh
  event identifiers, always returns: it reports exactly the tasks that were planning or running, and
  it leaves no run queued or running and no task planning or running.\<close>

theorem restart_recovers:
  assumes "reachable s" "serving s" "fresh_supply fresh (st_db s)" "restart_time_ok (st_db s) at"
  shows "\<exists>r s'. reconcile_interrupted_running now fresh (Some (Aware at)) s = (Inr r, s') \<and>
    map t_id (rec_tasks r) = map tk_id (active_task_rows (st_db s)) \<and>
    no_active_work (st_db s') \<and> reachable s'"
proof -
  have inv: "db_inv (st_db s)" by (rule reachable_db [OF assms(1)])
  obtain r d where run: "reconcile_body now fresh at (st_db s) = (Inr r, d)"
    using reconcile_body_returns [OF inv assms(3,4)] by blast
  then have op: "reconcile_interrupted_running now fresh (Some (Aware at)) s = (Inr r, s\<lparr>st_db := d\<rparr>)"
    by (simp add: reconcile_interrupted_running_def aware_time_def act_defs transaction_on_serving [OF assms(2)])
  have "reachable (s\<lparr>st_db := d\<rparr>)"
    using reachable_step [OF assms(1) store_step.reconcile_running [OF assms(3), of now "Some (Aware at)"]] op
    by simp
  with op reconcile_body_names [OF inv assms(3) run] reconcile_body_steps [OF inv assms(3) run]
  show ?thesis by auto
qed

theorem restart_recovers_witness:
  "\<exists>r s'. reconcile_interrupted_running (at_utc 0) (\<lambda>n. 9) (Some (Aware (at_utc 50))) (sample_moved 3 30 Running) =
     (Inr r, s') \<and> map t_id (rec_tasks r) = [''TASK-1''] \<and> no_active_work (st_db s')"
proof -
  let ?s = "sample_moved 3 30 Running"
  have active: "active_task_rows (st_db ?s) = [moved_row (sample_task_at 30 Running) (at_utc 30) 3 sample_row]"
    by (simp add: active_task_rows_def sample_moved_tables sample_task_at_def)
  have "fresh_supply (\<lambda>n. 9) (st_db ?s)"
    by (simp add: fresh_supply_def fresh_for_def active sample_moved_tables sample_created_def sample_queued_def)
  moreover have "restart_time_ok (st_db ?s) (at_utc 50)"
    by (simp add: restart_time_ok_def sample_moved_tables time_admissible_def sample_task_at_def
        stamp_transition_def active_states_def sample_row_def)
  moreover have "reachable ?s" by (rule sample_moved_reachable) (simp_all add: sample_can_move)
  ultimately show ?thesis
    using restart_recovers [of ?s "\<lambda>n. 9" "at_utc 50" "at_utc 0"] sample_moved_serving
    by (auto simp: active sample_row_def)
qed

section \<open>Runs\<close>

text \<open>A run is finished once: after it has ended, starting it or finishing it again raises an
  integrity error and changes nothing.\<close>

theorem run_finished_once:
  assumes "reachable s" "serving s" "row_of rr_id i (db_runs (st_db s)) = Some row"
    "run_terminal (rr_status row)" "run_terminal status"
  shows "start_run now i (Some (Aware at)) s = (Inl data_integrity, s) \<and>
    finish_run now i status (Some (Aware at)) code err s = (Inl data_integrity, s)"
proof -
  have "valid_run (rr_json row)" "rr_status row = run_status (rr_json row)"
    using row_of_run_ok [OF reachable_tables [OF assms(1)] assms(3)]
    by (auto simp: run_row_ok_def) (metis run_row_of_simps(3))
  then have "get_run_locked i (st_db s) = (Inr (rr_json row), st_db s)"
    "run_status (rr_json row) \<noteq> RunQueued" "run_status (rr_json row) \<noteq> RunRunning"
    using assms(3,4) by (auto simp: get_run_locked_def select_run_def act_defs run_terminal_def)
  then have "start_run_body i at (st_db s) = (Inl data_integrity, st_db s)"
    "finish_run_body i status at code err (st_db s) = (Inl data_integrity, st_db s)"
    by (simp_all add: start_run_body_def finish_run_body_def act_defs)
  then show ?thesis
    using assms(2,5)
    by (simp add: start_run_def finish_run_def aware_time_def act_defs transaction_on_serving)
qed

definition sample_run :: run_record where
  "sample_run =
     \<lparr>run_id = ''RUN-1'', run_task = ''TASK-1'', run_agent = ''dev'', run_runtime = ''codex'',
      run_status = RunFailed, run_created = at_utc 20, run_started = Some (at_utc 21),
      run_completed = Some (at_utc 30), run_exit_code = Some 1, run_error_code = None\<rparr>"

lemma sample_run_valid: "valid_run sample_run"
  by (simp add: valid_run_iff run_fields_clean_def run_lifecycle_ok_def sample_run_def check_simps run_terminal_def)

theorem run_finished_once_witness:
  "\<exists>s. reachable s \<and> finish_run (at_utc 0) ''RUN-1'' RunSucceeded (Some (Aware (at_utc 50))) None None s = (Inl data_integrity, s)"
proof -
  let ?s = "snd (create_run sample_run sample_store)"
  have body: "create_run_body sample_run (st_db sample_store) =
      (Inr sample_run, db_runs_update (insert_row (run_row_of sample_run)) (st_db sample_store))"
    unfolding create_run_body_Ok by (simp add: sample_tables sample_run_def sample_row_def)
  then have s: "?s = sample_store\<lparr>st_db := db_runs_update (insert_row (run_row_of sample_run)) (st_db sample_store)\<rparr>"
    by (simp add: create_run_def transaction_on_serving [OF sample_serving])
  have "reachable ?s" by (rule reachable_step [OF sample_reachable store_step.create_run [OF sample_run_valid]])
  moreover have "serving ?s" using sample_serving by (simp add: s serving_def)
  moreover have "row_of rr_id ''RUN-1'' (db_runs (st_db ?s)) = Some (run_row_of sample_run)"
    unfolding s by (simp add: sample_tables insert_row_def) (simp add: sample_run_def)
  moreover have "run_terminal (rr_status (run_row_of sample_run))" "run_terminal RunSucceeded"
    by (simp_all add: sample_run_def run_terminal_def)
  ultimately show ?thesis using run_finished_once [of ?s "''RUN-1''"] by blast
qed

section \<open>Artifacts\<close>

text \<open>Artifact metadata whose path names something is read back as it was written.\<close>

theorem artifact_round_trip:
  assumes "serving s" "Artifact_validate a = Inr a'" "path_components (art_path a) \<noteq> []"
    "create_artifact a' s = (Inr x, s')"
  shows "x = a' \<and> get_artifact (art_id a') s' = Inr a'"
proof -
  obtain d where d: "create_artifact_body a' (st_db s) = (Inr x, d)" "s' = s\<lparr>st_db := d\<rparr>"
    using assms(4) by (auto simp: create_artifact_def transaction_Ok)
  then have new: "art_id a' \<notin> keys ar_id (db_artifacts (st_db s))" and x: "x = a'"
    and art: "db_artifacts d = insert_row (artifact_row_of a') (db_artifacts (st_db s))"
    by (auto simp: create_artifact_body_Ok)
  have "row_of ar_id (art_id a') (db_artifacts d) = Some (artifact_row_of a')"
    using new by (simp add: art row_of_insert_row row_of_None [THEN iffD2])
  moreover have "serving s'" using assms(1) d(2) by (simp add: serving_def)
  ultimately show ?thesis
    using x d(2) Artifact_validate_valid [OF assms(2,3)] by (simp add: get_artifact_def read_serving)
qed

definition sample_artifact :: "string \<Rightarrow> artifact" where
  "sample_artifact path =
     \<lparr>art_id = ''ART-1'', art_task = ''TASK-1'', art_run = None, art_kind = ''report'', art_path = path,
      art_content_type = ''text/plain'', art_size = 3, art_sha256 = replicate 64 (CHR ''a''),
      art_created = at_utc 30\<rparr>"

lemma sample_sha: "meets Sha256 (replicate 64 (CHR ''a''))"
  by (simp add: meets_def Sha256_def list_all_iff char_class_defs)

lemma sample_artifact_validate:
  "Artifact_validate (sample_artifact path) =
     (case safe_relative_path path of None \<Rightarrow> Inl UnsafeArtifactPath | Some p \<Rightarrow> Inr (sample_artifact p))"
  using sample_sha
  by (simp add: Artifact_validate_def sample_artifact_def checked_def check_simps ArtifactId_def ContentType_def
      content_type_pattern_def validate_path_def split: option.split)

lemma sample_artifact_created:
  "create_artifact (sample_artifact path) sample_store =
     (Inr (sample_artifact path), sample_store\<lparr>st_db :=
        db_artifacts_update (insert_row (artifact_row_of (sample_artifact path))) (st_db sample_store)\<rparr>)"
proof -
  have "create_artifact_body (sample_artifact path) (st_db sample_store) = (Inr (sample_artifact path),
      db_artifacts_update (insert_row (artifact_row_of (sample_artifact path))) (st_db sample_store))"
    unfolding create_artifact_body_Ok by (simp add: sample_tables sample_artifact_def)
  then show ?thesis by (simp add: create_artifact_def transaction_on_serving [OF sample_serving])
qed

theorem artifact_round_trip_witness:
  "\<exists>s'. get_artifact ''ART-1'' s' = Inr (sample_artifact ''out/report.txt'')"
proof -
  have "safe_relative_path ''out/report.txt'' = Some ''out/report.txt''" by code_simp
  then have "Artifact_validate (sample_artifact ''out/report.txt'') = Inr (sample_artifact ''out/report.txt'')"
    by (simp add: sample_artifact_validate)
  moreover have "path_components (art_path (sample_artifact ''out/report.txt'')) \<noteq> []"
    by (simp add: sample_artifact_def) code_simp
  moreover have "art_id (sample_artifact ''out/report.txt'') = ''ART-1''" by (simp add: sample_artifact_def)
  ultimately show ?thesis
    using artifact_round_trip [OF sample_serving _ _ sample_artifact_created] by metis
qed

text \<open>The path check accepts \<open>./\<close> and normalises it to \<open>.\<close>, which the same check rejects: such an
  artifact is stored, and reading it back reports corrupted data.\<close>

theorem dot_artifact_unreadable:
  "\<exists>a a' s s'. Artifact_validate a = Inr a' \<and> reachable s \<and> serving s \<and>
     create_artifact a' s = (Inr a', s') \<and> get_artifact (art_id a') s' = Inl data_integrity"
proof -
  have "safe_relative_path ''./'' = Some ''.''" "safe_relative_path ''.'' = None" by code_simp+
  then have v: "Artifact_validate (sample_artifact ''./'') = Inr (sample_artifact ''.'')"
    "Artifact_validate (sample_artifact ''.'') = Inl UnsafeArtifactPath"
    by (simp_all add: sample_artifact_validate)
  let ?s = "sample_store\<lparr>st_db := db_artifacts_update (insert_row (artifact_row_of (sample_artifact ''.'')))
      (st_db sample_store)\<rparr>"
  have "serving ?s" using sample_serving by (simp add: serving_def)
  moreover have "row_of ar_id ''ART-1'' (db_artifacts (st_db ?s)) = Some (artifact_row_of (sample_artifact ''.''))"
    by (simp add: sample_tables insert_row_def) (simp add: sample_artifact_def)
  ultimately have "get_artifact ''ART-1'' ?s = Inl data_integrity"
    by (simp add: get_artifact_def read_serving decode_artifact_def v(2))
  moreover have "art_id (sample_artifact ''.'') = ''ART-1''" by (simp add: sample_artifact_def)
  ultimately show ?thesis
    using v(1) sample_artifact_created [of "''.''"] sample_reachable sample_serving by metis
qed

end
