(* ===== verification/GatewayModels.thy ===== *)
theory GatewayModels
  imports Tasks StoreModels
begin

text \<open>
  \<open>gateway/models.py\<close>: the request, the two task commands, the task view and the response, with
  their pydantic validation, and the JSON document of a response: \<open>response_document\<close> is
  \<open>model_dump(mode="json")\<close> and \<open>response_of_document\<close> is \<open>GatewayResponse.model_validate\<close> on the
  documents it writes (the coercions pydantic would make on other shapes are errors here). The
  lemmas give the round trip, also through the canonical form the store keeps, and show that a
  response never trips the store's search for secret-shaped keys.
\<close>

section \<open>Requests\<close>

datatype gateway_command = HELP | DEV | STATUS | TASK | TASKS | STOP

datatype gateway_code =
  OK | ACCEPTED | DUPLICATE | UNAUTHORIZED | INVALID_REQUEST | NOT_FOUND | CONFLICT | UNAVAILABLE
  | INTERNAL_ERROR

record gateway_request =
  rq_source :: string
  rq_event :: string
  rq_actor :: string
  rq_reply :: "string option"
  rq_command :: gateway_command
  rq_project :: "string option"
  rq_task :: "string option"
  rq_instruction :: "string option"

definition idempotency_key :: "gateway_request \<Rightarrow> string" where
  "idempotency_key r = rq_source r @ '':'' @ rq_event r"

definition validate_command_arguments :: "gateway_request \<Rightarrow> value_error + gateway_request" where
  "validate_command_arguments r =
     (if rq_command r = DEV then
        and_then (require (\<not> (rq_project r = None \<or> rq_instruction r = None)) InvalidArguments) (\<lambda>_.
        and_then (require (\<not> (rq_task r \<noteq> None)) InvalidArguments) (\<lambda>_. Inr r))
      else if rq_command r \<in> {TASK, STOP} then
        and_then (require (\<not> (rq_task r = None)) InvalidArguments) (\<lambda>_.
        and_then (require (\<not> (rq_project r \<noteq> None \<or> rq_instruction r \<noteq> None)) InvalidArguments) (\<lambda>_.
        Inr r))
      else
        and_then (require (\<not> (rq_project r \<noteq> None \<or> rq_task r \<noteq> None \<or> rq_instruction r \<noteq> None))
          InvalidArguments) (\<lambda>_. Inr r))"

definition GatewayRequest_validate :: "gateway_request \<Rightarrow> value_error + gateway_request" where
  "GatewayRequest_validate r =
     and_then (checked Identifier (rq_source r)) (\<lambda>src.
     and_then (checked SourceEventId (rq_event r)) (\<lambda>ev.
     and_then (checked OpaqueId (rq_actor r)) (\<lambda>actor.
     and_then (checked_opt ReplyTarget (rq_reply r)) (\<lambda>reply.
     and_then (checked_opt Identifier (rq_project r)) (\<lambda>proj.
     and_then (checked_opt TaskId (rq_task r)) (\<lambda>i.
     and_then (checked_opt TaskInstruction (rq_instruction r)) (\<lambda>instr.
     validate_command_arguments
       (r\<lparr>rq_source := src, rq_event := ev, rq_actor := actor, rq_reply := reply,
          rq_project := proj, rq_task := i, rq_instruction := instr\<rparr>))))))))"

definition valid_request :: "gateway_request \<Rightarrow> bool" where
  "valid_request r \<longleftrightarrow> GatewayRequest_validate r = Inr r"

record create_command =
  cc_task :: string
  cc_source :: string
  cc_event :: string
  cc_actor :: string
  cc_reply :: "string option"
  cc_project :: string
  cc_instruction :: string

definition CreateTaskCommand_validate :: "create_command \<Rightarrow> value_error + create_command" where
  "CreateTaskCommand_validate c =
     and_then (checked TaskId (cc_task c)) (\<lambda>i.
     and_then (checked Identifier (cc_source c)) (\<lambda>src.
     and_then (checked SourceEventId (cc_event c)) (\<lambda>ev.
     and_then (checked OpaqueId (cc_actor c)) (\<lambda>actor.
     and_then (checked_opt ReplyTarget (cc_reply c)) (\<lambda>reply.
     and_then (checked Identifier (cc_project c)) (\<lambda>proj.
     and_then (checked TaskInstruction (cc_instruction c)) (\<lambda>instr.
     Inr \<lparr>cc_task = i, cc_source = src, cc_event = ev, cc_actor = actor, cc_reply = reply,
          cc_project = proj, cc_instruction = instr\<rparr>)))))))"

record cancel_command =
  kc_task :: string
  kc_source :: string
  kc_event :: string
  kc_actor :: string

definition CancelTaskCommand_validate :: "cancel_command \<Rightarrow> value_error + cancel_command" where
  "CancelTaskCommand_validate c =
     and_then (checked TaskId (kc_task c)) (\<lambda>i.
     and_then (checked Identifier (kc_source c)) (\<lambda>src.
     and_then (checked SourceEventId (kc_event c)) (\<lambda>ev.
     and_then (checked OpaqueId (kc_actor c)) (\<lambda>actor.
     Inr \<lparr>kc_task = i, kc_source = src, kc_event = ev, kc_actor = actor\<rparr>))))"

section \<open>Views and responses\<close>

record task_view =
  tv_task :: string
  tv_project :: string
  tv_team :: string
  tv_status :: task_status
  tv_agents :: "string list"

definition TaskView_validate :: "task_view \<Rightarrow> value_error + task_view" where
  "TaskView_validate v =
     and_then (checked TaskId (tv_task v)) (\<lambda>i.
     and_then (checked Identifier (tv_project v)) (\<lambda>proj.
     and_then (checked Identifier (tv_team v)) (\<lambda>team.
     and_then (traverse (checked Identifier) (tv_agents v)) (\<lambda>agents.
     Inr (v\<lparr>tv_task := i, tv_project := proj, tv_team := team, tv_agents := agents\<rparr>)))))"

definition valid_view :: "task_view \<Rightarrow> bool" where
  "valid_view v \<longleftrightarrow> TaskView_validate v = Inr v"

record gateway_response =
  rs_success :: bool
  rs_code :: gateway_code
  rs_message :: string
  rs_task :: "task_view option"
  rs_tasks :: "task_view list"
  rs_replayed :: bool

text \<open>\<open>GatewayResponse(...)\<close>; the views it is given are validated instances already.\<close>

definition GatewayResponse_validate :: "gateway_response \<Rightarrow> value_error + gateway_response" where
  "GatewayResponse_validate r =
     and_then (checked SafeMessage (rs_message r)) (\<lambda>msg.
     and_then (require (length (rs_tasks r) \<le> 100) InvalidField) (\<lambda>_.
     Inr (r\<lparr>rs_message := msg\<rparr>)))"

definition valid_response :: "gateway_response \<Rightarrow> bool" where
  "valid_response r \<longleftrightarrow>
     GatewayResponse_validate r = Inr r \<and> opt_all valid_view (rs_task r) \<and> list_all valid_view (rs_tasks r)"

text \<open>\<open>model_copy(update={"replayed": True})\<close>.\<close>

definition replayed :: "gateway_response \<Rightarrow> gateway_response" where
  "replayed r = r\<lparr>rs_replayed := True\<rparr>"

section \<open>Documents\<close>

fun code_value :: "gateway_code \<Rightarrow> string" where
  "code_value OK = ''ok''"
| "code_value ACCEPTED = ''accepted''"
| "code_value DUPLICATE = ''duplicate''"
| "code_value UNAUTHORIZED = ''unauthorized''"
| "code_value INVALID_REQUEST = ''invalid_request''"
| "code_value NOT_FOUND = ''not_found''"
| "code_value CONFLICT = ''conflict''"
| "code_value UNAVAILABLE = ''unavailable''"
| "code_value INTERNAL_ERROR = ''internal_error''"

definition code_of_value :: "string \<Rightarrow> gateway_code option" where
  "code_of_value s = find (\<lambda>c. code_value c = s)
     [OK, ACCEPTED, DUPLICATE, UNAUTHORIZED, INVALID_REQUEST, NOT_FOUND, CONFLICT, UNAVAILABLE,
      INTERNAL_ERROR]"

definition view_document :: "task_view \<Rightarrow> json" where
  "view_document v =
     JObj [(''task_id'', JStr (tv_task v)), (''project'', JStr (tv_project v)),
           (''team'', JStr (tv_team v)), (''status'', JStr (status_value (tv_status v))),
           (''assigned_agents'', JArr (map JStr (tv_agents v)))]"

definition response_document :: "gateway_response \<Rightarrow> json_object" where
  "response_document r =
     [(''success'', JBool (rs_success r)), (''code'', JStr (code_value (rs_code r))),
      (''message'', JStr (rs_message r)),
      (''task'', case rs_task r of None \<Rightarrow> JNull | Some v \<Rightarrow> view_document v),
      (''tasks'', JArr (map view_document (rs_tasks r))), (''replayed'', JBool (rs_replayed r))]"

text \<open>Reading a field: an absent one has its default, or is an error when it has none.\<close>

definition required_field :: "json_object \<Rightarrow> string \<Rightarrow> (json \<Rightarrow> value_error + 'a) \<Rightarrow> value_error + 'a" where
  "required_field doc k read = (case map_of doc k of None \<Rightarrow> Inl InvalidField | Some v \<Rightarrow> read v)"

definition default_field :: "json_object \<Rightarrow> string \<Rightarrow> 'a \<Rightarrow> (json \<Rightarrow> value_error + 'a) \<Rightarrow> value_error + 'a" where
  "default_field doc k x read = (case map_of doc k of None \<Rightarrow> Inr x | Some v \<Rightarrow> read v)"

fun read_text :: "json \<Rightarrow> value_error + string" where
  "read_text (JStr s) = Inr s"
| "read_text _ = Inl InvalidField"

fun read_bool :: "json \<Rightarrow> value_error + bool" where
  "read_bool (JBool b) = Inr b"
| "read_bool _ = Inl InvalidField"

fun read_list :: "(json \<Rightarrow> value_error + 'a) \<Rightarrow> json \<Rightarrow> value_error + 'a list" where
  "read_list read (JArr vs) = traverse read vs"
| "read_list read _ = Inl InvalidField"

definition read_enum :: "(string \<Rightarrow> 'a option) \<Rightarrow> json \<Rightarrow> value_error + 'a" where
  "read_enum value v =
     and_then (read_text v) (\<lambda>s. case value s of None \<Rightarrow> Inl InvalidField | Some x \<Rightarrow> Inr x)"

definition known_keys :: "string list \<Rightarrow> json_object \<Rightarrow> value_error + unit" where
  "known_keys ks doc = require (list_all (\<lambda>kv. fst kv \<in> set ks) doc) InvalidField"

fun view_of_document :: "json \<Rightarrow> value_error + task_view" where
  "view_of_document (JObj doc) =
     and_then (known_keys [''task_id'', ''project'', ''team'', ''status'', ''assigned_agents''] doc) (\<lambda>_.
     and_then (required_field doc ''task_id'' read_text) (\<lambda>i.
     and_then (required_field doc ''project'' read_text) (\<lambda>proj.
     and_then (required_field doc ''team'' read_text) (\<lambda>team.
     and_then (required_field doc ''status'' (read_enum status_of_value)) (\<lambda>st.
     and_then (default_field doc ''assigned_agents'' [] (read_list read_text)) (\<lambda>agents.
     TaskView_validate \<lparr>tv_task = i, tv_project = proj, tv_team = team, tv_status = st,
                        tv_agents = agents\<rparr>))))))"
| "view_of_document _ = Inl InvalidField"

fun read_view_option :: "json \<Rightarrow> value_error + task_view option" where
  "read_view_option JNull = Inr None"
| "read_view_option v = and_then (view_of_document v) (\<lambda>x. Inr (Some x))"

definition response_of_document :: "json_object \<Rightarrow> value_error + gateway_response" where
  "response_of_document doc =
     and_then (known_keys [''success'', ''code'', ''message'', ''task'', ''tasks'', ''replayed''] doc) (\<lambda>_.
     and_then (required_field doc ''success'' read_bool) (\<lambda>ok.
     and_then (required_field doc ''code'' (read_enum code_of_value)) (\<lambda>code.
     and_then (required_field doc ''message'' read_text) (\<lambda>msg.
     and_then (default_field doc ''task'' None read_view_option) (\<lambda>t.
     and_then (default_field doc ''tasks'' [] (read_list view_of_document)) (\<lambda>ts.
     and_then (default_field doc ''replayed'' False read_bool) (\<lambda>rep.
     GatewayResponse_validate
       \<lparr>rs_success = ok, rs_code = code, rs_message = msg, rs_task = t, rs_tasks = ts,
        rs_replayed = rep\<rparr>)))))))"

section \<open>Round trips\<close>

lemma code_of_value_code_value [simp]: "code_of_value (code_value c) = Some c"
  by (cases c) (simp_all add: code_of_value_def)

lemma traverse_read_text [simp]: "traverse read_text (map JStr xs) = Inr xs"
  by (induction xs) simp_all

lemma canonical_view:
  "canonical (view_document v) =
     JObj [(''assigned_agents'', JArr (map JStr (tv_agents v))), (''project'', JStr (tv_project v)),
           (''status'', JStr (status_value (tv_status v))), (''task_id'', JStr (tv_task v)),
           (''team'', JStr (tv_team v))]"
  by (simp add: view_document_def comp_def)

lemma view_fields [simp]:
  "\<lparr>tv_task = tv_task v, tv_project = tv_project v, tv_team = tv_team v, tv_status = tv_status v,
    tv_agents = tv_agents v\<rparr> = v"
  by (cases v) simp

lemma response_fields [simp]:
  "\<lparr>rs_success = rs_success r, rs_code = rs_code r, rs_message = rs_message r, rs_task = rs_task r,
    rs_tasks = rs_tasks r, rs_replayed = rs_replayed r\<rparr> = r"
  by (cases r) simp

lemma view_round_trip:
  assumes "valid_view v"
  shows "view_of_document (view_document v) = Inr v"
    "view_of_document (canonical (view_document v)) = Inr v"
  unfolding canonical_view using assms
  by (simp_all add: view_document_def required_field_def default_field_def read_enum_def known_keys_def
      valid_view_def)

lemma canonical_response:
  "canonical_object (response_document r) =
     [(''code'', JStr (code_value (rs_code r))), (''message'', JStr (rs_message r)),
      (''replayed'', JBool (rs_replayed r)), (''success'', JBool (rs_success r)),
      (''task'', case rs_task r of None \<Rightarrow> JNull | Some v \<Rightarrow> canonical (view_document v)),
      (''tasks'', JArr (map (\<lambda>v. canonical (view_document v)) (rs_tasks r)))]"
  by (simp add: canonical_object_def response_document_def comp_def split: option.splits)

lemma traverse_views:
  "list_all valid_view vs \<Longrightarrow> traverse view_of_document (map view_document vs) = Inr vs"
  "list_all valid_view vs \<Longrightarrow>
     traverse view_of_document (map (\<lambda>v. canonical (view_document v)) vs) = Inr vs"
  by (induction vs) (simp_all add: view_round_trip)

lemma read_view_option_document:
  assumes "opt_all valid_view t"
  shows "read_view_option (case t of None \<Rightarrow> JNull | Some v \<Rightarrow> view_document v) = Inr t"
    "read_view_option (case t of None \<Rightarrow> JNull | Some v \<Rightarrow> canonical (view_document v)) = Inr t"
proof -
  have "read_view_option (view_document v) = Inr (Some v)"
    "read_view_option (canonical (view_document v)) = Inr (Some v)" if "valid_view v" for v
    using view_round_trip [OF that] by (simp_all add: view_document_def canonical_view)
  then show "read_view_option (case t of None \<Rightarrow> JNull | Some v \<Rightarrow> view_document v) = Inr t"
    "read_view_option (case t of None \<Rightarrow> JNull | Some v \<Rightarrow> canonical (view_document v)) = Inr t"
    using assms by (cases t; simp)+
qed

lemma response_round_trip_both:
  assumes "valid_response r"
  shows "response_of_document (response_document r) = Inr r"
    "response_of_document (canonical_object (response_document r)) = Inr r"
  unfolding canonical_response using assms
  by (simp_all add: response_of_document_def response_document_def required_field_def default_field_def
      read_enum_def known_keys_def valid_response_def traverse_views read_view_option_document)

lemma view_keys_allowed: "keys_allowed response_key_forbidden (view_document v)"
  by (simp add: view_document_def list_all_iff response_key_forbidden_def FORBIDDEN_RESPONSE_KEYS_def
      FORBIDDEN_RESPONSE_SUFFIXES_def normalized_key_def lower_def char_lower_def is_upper_def
      in_range_def endswith_def startswith_def)

lemma response_keys_allowed: "keys_allowed response_key_forbidden (JObj (response_document r))"
  using view_keys_allowed
  by (cases "rs_task r") (simp_all add: response_document_def list_all_iff response_key_forbidden_def
      FORBIDDEN_RESPONSE_KEYS_def FORBIDDEN_RESPONSE_SUFFIXES_def normalized_key_def lower_def
      char_lower_def is_upper_def in_range_def endswith_def startswith_def)

section \<open>What a valid request satisfies\<close>

definition command_shape :: "gateway_request \<Rightarrow> bool" where
  "command_shape r \<longleftrightarrow>
     (case rq_command r of
        DEV \<Rightarrow> rq_project r \<noteq> None \<and> rq_instruction r \<noteq> None \<and> rq_task r = None
      | TASK \<Rightarrow> rq_task r \<noteq> None \<and> rq_project r = None \<and> rq_instruction r = None
      | STOP \<Rightarrow> rq_task r \<noteq> None \<and> rq_project r = None \<and> rq_instruction r = None
      | _ \<Rightarrow> rq_task r = None \<and> rq_project r = None \<and> rq_instruction r = None)"

lemma validate_command_arguments_Ok [result_simps]:
  "validate_command_arguments r = Inr r' \<longleftrightarrow> r' = r \<and> command_shape r"
  by (cases "rq_command r")
    (auto simp: validate_command_arguments_def command_shape_def result_simps)

lemma valid_request_iff:
  "valid_request r \<longleftrightarrow>
     clean Identifier (rq_source r) \<and> clean SourceEventId (rq_event r) \<and> clean OpaqueId (rq_actor r) \<and>
     clean_opt ReplyTarget (rq_reply r) \<and> clean_opt Identifier (rq_project r) \<and>
     clean_opt TaskId (rq_task r) \<and> clean_opt TaskInstruction (rq_instruction r) \<and> command_shape r"
    (is "_ \<longleftrightarrow> ?clean")
proof
  assume "valid_request r"
  then show ?clean
    by (auto simp: valid_request_def GatewayRequest_validate_def and_then_Ok validate_command_arguments_Ok
        dest!: checked_clean checked_opt_clean) (cases r; simp)+
next
  assume ?clean
  then show "valid_request r"
    by (simp add: valid_request_def GatewayRequest_validate_def validate_command_arguments_Ok)
qed

lemma valid_view_iff:
  "valid_view v \<longleftrightarrow> clean TaskId (tv_task v) \<and> clean Identifier (tv_project v) \<and>
     clean Identifier (tv_team v) \<and> list_all (clean Identifier) (tv_agents v)"
proof (cases v)
  case (fields i p t st as)
  show ?thesis
    unfolding fields valid_view_def TaskView_validate_def
    by (auto simp: result_simps traverse_checked_self clean_iff)
qed

end
