(* ===== verification/Dedup.thy ===== *)
theory Dedup
  imports GatewayModels Progress
begin

text \<open>
  \<open>gateway/dedup.py\<close>: the two request deduplicators. \<open>InMemoryRequestDeduplicator\<close> is an ordered
  list of answered keys with the time each was stored and a set of keys in flight; every operation
  reads the clock \<open>now\<close> (in the ticks of \<open>monotonic()\<close>). \<open>DurableRequestDeduplicator\<close> is the
  SQLite ledger with responses as documents. What a gateway relies on is the contract
  \<open>reservation_ledger\<close>, which both satisfy; only the durable one also satisfies \<open>durable_ledger\<close>,
  by which an answer is never lost.
\<close>

section \<open>In memory\<close>

record memory_dedup =
  md_max_entries :: nat
  md_ttl :: int
  md_completed :: "(string \<times> int \<times> gateway_response) list"
  md_in_flight :: "string set"

definition new_memory_dedup :: "nat \<Rightarrow> int \<Rightarrow> memory_dedup option" where
  "new_memory_dedup max_entries ttl =
     (if max_entries < 1 \<or> ttl \<le> 0 then None
      else Some \<lparr>md_max_entries = max_entries, md_ttl = ttl, md_completed = [], md_in_flight = {}\<rparr>)"

text \<open>\<open>_prune\<close>: pop from the front while the first entry is older than the cutoff.\<close>

definition prune :: "int \<Rightarrow> memory_dedup \<Rightarrow> memory_dedup" where
  "prune now m =
     m\<lparr>md_completed := dropWhile (\<lambda>(k, stored_at, r). stored_at < now - md_ttl m) (md_completed m)\<rparr>"

definition move_to_end :: "string \<Rightarrow> (string \<times> 'v) list \<Rightarrow> (string \<times> 'v) list" where
  "move_to_end key entries =
     filter (\<lambda>kv. fst kv \<noteq> key) entries @ filter (\<lambda>kv. fst kv = key) entries"

definition memory_get :: "int \<Rightarrow> string \<Rightarrow> memory_dedup \<Rightarrow> gateway_response option \<times> memory_dedup" where
  "memory_get now key m =
     (let p = prune now m in
      case map_of (md_completed p) key of
        None \<Rightarrow> (None, p)
      | Some entry \<Rightarrow> (Some (snd entry), p\<lparr>md_completed := move_to_end key (md_completed p)\<rparr>))"

definition memory_reserve :: "int \<Rightarrow> string \<Rightarrow> memory_dedup \<Rightarrow> bool \<times> memory_dedup" where
  "memory_reserve now key m =
     (let p = prune now m in
      if key \<in> md_in_flight p \<or> map_of (md_completed p) key \<noteq> None then (False, p)
      else (True, p\<lparr>md_in_flight := insert key (md_in_flight p)\<rparr>))"

definition memory_remember :: "int \<Rightarrow> string \<Rightarrow> gateway_response \<Rightarrow> memory_dedup \<Rightarrow> memory_dedup" where
  "memory_remember now key response m =
     (let entries = filter (\<lambda>kv. fst kv \<noteq> key) (md_completed m) @ [(key, now, response)] in
      m\<lparr>md_in_flight := md_in_flight m - {key},
        md_completed := drop (length entries - md_max_entries m) entries\<rparr>)"

definition memory_release :: "string \<Rightarrow> memory_dedup \<Rightarrow> memory_dedup" where
  "memory_release key m = m\<lparr>md_in_flight := md_in_flight m - {key}\<rparr>"

section \<open>Durable\<close>

text \<open>
  \<open>now\<close> stands for the clock that the store reads for the records it builds. A document that is not
  a response raises pydantic's \<open>ValidationError\<close>, a \<open>ValueError\<close>.
\<close>

definition durable_get :: "aware \<Rightarrow> string \<Rightarrow> gateway_response option store_act" where
  "durable_get now key s =
     (and_then (get_gateway_request now key s) (\<lambda>record.
      case Option.bind record req_response of
        None \<Rightarrow> Inr None
      | Some doc \<Rightarrow> map_error ValueError (and_then (response_of_document doc) (\<lambda>r. Inr (Some r)))), s)"

definition durable_reserve :: "aware \<Rightarrow> string \<Rightarrow> bool store_act" where
  "durable_reserve now key = reserve_gateway_request now key None"

definition durable_remember :: "aware \<Rightarrow> string \<Rightarrow> gateway_response \<Rightarrow> unit store_act" where
  "durable_remember now key response =
     act_bind (remember_gateway_response now key (Some (response_document response))) (\<lambda>_. act_return ())"

definition durable_release :: "aware \<Rightarrow> string \<Rightarrow> unit store_act" where
  "durable_release now key = act_bind (release_gateway_request now key) (\<lambda>_. act_return ())"

definition durable_reconcile :: "string list store_act" where
  "durable_reconcile = reconcile_incomplete_gateway_requests"

section \<open>The contract of a reservation ledger\<close>

text \<open>
  A ledger holds some keys. A reservation that returns true adds a key that was not held; storing
  an answer or releasing removes only that key; an operation that raises changes no hold. \<open>ok\<close> is
  an invariant of the ledger's state and \<open>key_ok\<close> the keys it is used with.
\<close>

datatype 'r ledger_call = Reserve string | Answer string 'r | Release string

fun call_key :: "'r ledger_call \<Rightarrow> string" where
  "call_key (Reserve k) = k"
| "call_key (Answer k _) = k"
| "call_key (Release k) = k"

fun frees :: "string \<Rightarrow> 'r ledger_call \<Rightarrow> bool" where
  "frees key (Reserve k) \<longleftrightarrow> False"
| "frees key (Answer k _) \<longleftrightarrow> k = key"
| "frees key (Release k) \<longleftrightarrow> k = key"

text \<open>One call by some client: whether it was a reservation that succeeded, and the state after.\<close>

fun ledger_step ::
  "(string \<Rightarrow> ('s, 'e, bool) act) \<Rightarrow> (string \<Rightarrow> 'r \<Rightarrow> ('s, 'e, unit) act) \<Rightarrow>
   (string \<Rightarrow> ('s, 'e, unit) act) \<Rightarrow> 'r ledger_call \<Rightarrow> 's \<Rightarrow> bool \<times> 's" where
  "ledger_step reserve answer release (Reserve k) s =
     (case reserve k s of (Inr b, s') \<Rightarrow> (b, s') | (Inl _, s') \<Rightarrow> (False, s'))"
| "ledger_step reserve answer release (Answer k r) s = (False, snd (answer k r s))"
| "ledger_step reserve answer release (Release k) s = (False, snd (release k s))"

fun ledger_run ::
  "(string \<Rightarrow> ('s, 'e, bool) act) \<Rightarrow> (string \<Rightarrow> 'r \<Rightarrow> ('s, 'e, unit) act) \<Rightarrow>
   (string \<Rightarrow> ('s, 'e, unit) act) \<Rightarrow> 'r ledger_call list \<Rightarrow> 's \<Rightarrow> string list \<times> 's" where
  "ledger_run reserve answer release [] s = ([], s)"
| "ledger_run reserve answer release (c # cs) s =
     (case ledger_step reserve answer release c s of (granted, s') \<Rightarrow>
      case ledger_run reserve answer release cs s' of (ks, s'') \<Rightarrow>
        ((if granted then [call_key c] else []) @ ks, s''))"

locale reservation_ledger =
  fixes ok :: "'s \<Rightarrow> bool"
    and key_ok :: "string \<Rightarrow> bool"
    and held :: "'s \<Rightarrow> string set"
    and reserve :: "string \<Rightarrow> ('s, 'e, bool) act"
    and answer :: "string \<Rightarrow> 'r \<Rightarrow> ('s, 'e, unit) act"
    and release :: "string \<Rightarrow> ('s, 'e, unit) act"
  assumes keeps:
      "ok s \<Longrightarrow> key_ok k \<Longrightarrow> ok (snd (reserve k s))"
      "ok s \<Longrightarrow> key_ok k \<Longrightarrow> ok (snd (answer k r s))"
      "ok s \<Longrightarrow> key_ok k \<Longrightarrow> ok (snd (release k s))"
    and granted: "ok s \<Longrightarrow> key_ok k \<Longrightarrow> reserve k s = (Inr True, s') \<Longrightarrow>
      k \<notin> held s \<and> held s' = insert k (held s)"
    and refused: "ok s \<Longrightarrow> key_ok k \<Longrightarrow> fst (reserve k s) \<noteq> Inr True \<Longrightarrow> held (snd (reserve k s)) = held s"
    and answered_frees: "ok s \<Longrightarrow> key_ok k \<Longrightarrow> answer k r s = (Inr (), s') \<Longrightarrow> held s' = held s - {k}"
    and answer_fails: "ok s \<Longrightarrow> key_ok k \<Longrightarrow> answer k r s = (Inl e, s') \<Longrightarrow> held s' = held s"
    and released_frees: "ok s \<Longrightarrow> key_ok k \<Longrightarrow> release k s = (Inr (), s') \<Longrightarrow> held s' = held s - {k}"
    and release_fails: "ok s \<Longrightarrow> key_ok k \<Longrightarrow> release k s = (Inl e, s') \<Longrightarrow> held s' = held s"
begin

abbreviation step :: "'r ledger_call \<Rightarrow> 's \<Rightarrow> bool \<times> 's" where
  "step \<equiv> ledger_step reserve answer release"

abbreviation run :: "'r ledger_call list \<Rightarrow> 's \<Rightarrow> string list \<times> 's" where
  "run \<equiv> ledger_run reserve answer release"

lemma step_ok: "ok s \<Longrightarrow> key_ok (call_key c) \<Longrightarrow> ok (snd (step c s))"
proof (cases c)
  case (Reserve k)
  assume "ok s" "key_ok (call_key c)"
  with Reserve keeps(1) [of s k] show ?thesis
    by (auto split: prod.splits sum.splits)
qed (use keeps in auto)

lemma step_holds:
  assumes "ok s" "key_ok (call_key c)" "k \<in> held s" "\<not> frees k c"
  shows "k \<in> held (snd (step c s)) \<and> (c = Reserve k \<longrightarrow> \<not> fst (step c s))"
proof (cases c)
  case (Reserve k')
  show ?thesis
  proof (cases "fst (reserve k' s) = Inr True")
    case True
    then obtain s' where "reserve k' s = (Inr True, s')" by (cases "reserve k' s") auto
    with granted [of s k' s'] assms Reserve show ?thesis by auto
  next
    case False
    with refused [of s k'] assms Reserve show ?thesis
      by (auto split: prod.splits sum.splits)
  qed
next
  case (Answer k' r)
  with assms answered_frees [of s k' r] answer_fails [of s k' r] show ?thesis
    by (cases "answer k' r s"; cases "fst (answer k' r s)") auto
next
  case (Release k')
  with assms released_frees [of s k'] release_fails [of s k'] show ?thesis
    by (cases "release k' s"; cases "fst (release k' s)") auto
qed

text \<open>While a key is held and nobody answers or releases it, no reservation of it is granted.\<close>

lemma exclusive:
  assumes "ok s" "\<forall>c \<in> set cs. key_ok (call_key c) \<and> \<not> frees k c" "k \<in> held s"
  shows "k \<notin> set (fst (run cs s)) \<and> k \<in> held (snd (run cs s))"
  using assms
proof (induction cs arbitrary: s)
  case (Cons c cs)
  obtain b s' where step: "step c s = (b, s')" by (cases "step c s") auto
  have here: "k \<in> held s'" "c = Reserve k \<longrightarrow> \<not> b" "ok s'"
    using step_holds [of s c k] step_ok [of s c] Cons.prems step by auto
  have "b \<Longrightarrow> call_key c = k \<Longrightarrow> c = Reserve k"
    using step by (cases c) auto
  with Cons.IH [OF here(3) _ here(1)] here Cons.prems(2) step show ?case
    by (auto split: prod.splits)
qed simp

end

text \<open>A durable ledger also keeps every answer, and never grants a key that has one.\<close>

locale durable_ledger = reservation_ledger ok key_ok held reserve answer release
  for ok :: "'s \<Rightarrow> bool" and key_ok :: "string \<Rightarrow> bool" and held :: "'s \<Rightarrow> string set"
    and reserve :: "string \<Rightarrow> ('s, 'e, bool) act"
    and answer :: "string \<Rightarrow> 'r \<Rightarrow> ('s, 'e, unit) act"
    and release :: "string \<Rightarrow> ('s, 'e, unit) act" +
  fixes answer_of :: "'s \<Rightarrow> string \<Rightarrow> 'r option"
    and answer_ok :: "'r \<Rightarrow> bool"
  assumes answer_stored: "ok s \<Longrightarrow> key_ok k \<Longrightarrow> answer_ok r \<Longrightarrow> answer k r s = (Inr (), s') \<Longrightarrow> answer_of s' k = Some r"
    and answer_kept: "ok s \<Longrightarrow> key_ok (call_key c) \<Longrightarrow> answer_of s k = Some r \<Longrightarrow>
      answer_of (snd (ledger_step reserve answer release c s)) k = Some r"
    and answered_refused: "ok s \<Longrightarrow> key_ok k \<Longrightarrow> answer_of s k = Some r \<Longrightarrow>
      fst (reserve k s) \<noteq> Inr True"
begin

lemma answer_forever:
  assumes "ok s" "\<forall>c \<in> set cs. key_ok (call_key c)" "answer_of s k = Some r"
  shows "answer_of (snd (run cs s)) k = Some r \<and> k \<notin> set (fst (run cs s))"
  using assms
proof (induction cs arbitrary: s)
  case (Cons c cs)
  obtain b s' where step: "step c s = (b, s')" by (cases "step c s") auto
  have here: "ok s'" "answer_of s' k = Some r"
    using step_ok [of s c] answer_kept [of s c k r] Cons.prems step by auto
  have "\<not> (b \<and> call_key c = k)"
    using step answered_refused [of s k r] Cons.prems
    by (cases c) (auto split: prod.splits sum.splits)
  with Cons.IH [OF here(1) _ here(2)] Cons.prems(2) step show ?case
    by (auto split: prod.splits)
qed simp

lemma stored_forever:
  assumes "ok s" "key_ok k" "answer_ok r" "answer k r s = (Inr (), s')" "\<forall>c \<in> set cs. key_ok (call_key c)"
  shows "answer_of (snd (run cs s')) k = Some r \<and> k \<notin> set (fst (run cs s'))"
  using answer_forever [OF _ assms(5) answer_stored [OF assms(1-4)]] keeps(2) [OF assms(1,2)] assms(4)
  by (metis snd_conv)

end

section \<open>The in-memory deduplicator is a reservation ledger\<close>

text \<open>The state carries the number of clock readings so far; \<open>clock\<close> gives the readings.\<close>

definition timed_reserve :: "(nat \<Rightarrow> int) \<Rightarrow> string \<Rightarrow> (nat \<times> memory_dedup, py_error, bool) act" where
  "timed_reserve clock k s =
     (case memory_reserve (clock (fst s)) k (snd s) of (b, m) \<Rightarrow> (Inr b, (Suc (fst s), m)))"

definition timed_remember ::
  "(nat \<Rightarrow> int) \<Rightarrow> string \<Rightarrow> gateway_response \<Rightarrow> (nat \<times> memory_dedup, py_error, unit) act" where
  "timed_remember clock k r s = (Inr (), (Suc (fst s), memory_remember (clock (fst s)) k r (snd s)))"

definition untimed_release :: "string \<Rightarrow> (nat \<times> memory_dedup, py_error, unit) act" where
  "untimed_release k s = (Inr (), (fst s, memory_release k (snd s)))"

lemma prune_in_flight [simp]: "md_in_flight (prune now m) = md_in_flight m"
  by (simp add: prune_def)

interpretation memory_ledger: reservation_ledger "\<lambda>_. True" "\<lambda>_. True" "\<lambda>s. md_in_flight (snd s)"
  "timed_reserve clock" "timed_remember clock" untimed_release for clock
  by unfold_locales
    (auto simp: timed_reserve_def timed_remember_def untimed_release_def memory_reserve_def
      memory_remember_def memory_release_def Let_def split: if_splits)

section \<open>The SQLite ledger of gateway requests\<close>

definition request_held :: "store \<Rightarrow> string set" where
  "request_held s =
     {k. \<exists>row. row_of gq_key k (db_requests (st_db s)) = Some row \<and> gq_response row = None}"

definition request_answer :: "store \<Rightarrow> string \<Rightarrow> gateway_response option" where
  "request_answer s k =
     (case row_of gq_key k (db_requests (st_db s)) of
        None \<Rightarrow> None
      | Some row \<Rightarrow> (case gq_response row of
          None \<Rightarrow> None
        | Some doc \<Rightarrow> (case response_of_document doc of Inl _ \<Rightarrow> None | Inr r \<Rightarrow> Some r)))"

lemma durable_reserve_cases:
  assumes "clean IdempotencyKey k" "durable_reserve now k s = (x, s')"
  shows "x = Inr True \<and> row_of gq_key k (db_requests (st_db s)) = None \<and>
      s' = s\<lparr>st_db := db_requests_update (insert_row \<lparr>gq_key = k, gq_response = None, gq_created = now\<rparr>) (st_db s)\<rparr> \<or>
    x \<noteq> Inr True \<and> s' = s"
proof -
  have req: "new_request k None now = Inr \<lparr>req_key = k, req_response = None, req_created = now\<rparr>"
    using assms(1) by (simp add: new_request_Ok)
  have run: "transaction (reserve_request_body \<lparr>req_key = k, req_response = None, req_created = now\<rparr>) s = (x, s')"
    using assms(2) by (simp add: durable_reserve_def reserve_gateway_request_def act_bind_def act_lift_def
        aware_time_def req)
  show ?thesis
  proof (cases x)
    case (Inl e)
    with run show ?thesis by (auto dest: transaction_Raise)
  next
    case (Inr b)
    with run obtain d where d: "reserve_request_body \<lparr>req_key = k, req_response = None, req_created = now\<rparr>
        (st_db s) = (Inr b, d)" "s' = s\<lparr>st_db := d\<rparr>"
      by (auto simp: transaction_Ok)
    show ?thesis
    proof (cases "row_of gq_key k (db_requests (st_db s))")
      case None
      then have "k \<notin> keys gq_key (db_requests (st_db s))" by (metis row_of_None)
      with d Inr None show ?thesis by (simp add: reserve_request_body_Ok)
    next
      case (Some row)
      then have "k \<in> keys gq_key (db_requests (st_db s))" by (metis row_of_None option.distinct(1))
      with d Inr show ?thesis by (simp add: reserve_request_body_Ok)
    qed
  qed
qed

lemma durable_remember_cases:
  assumes "clean IdempotencyKey k" "durable_remember now k r s = (x, s')"
  shows "x = Inr () \<and> (\<exists>row. row_of gq_key k (db_requests (st_db s)) = Some row \<and>
      opt_all (\<lambda>old. old = canonical_object (response_document r)) (gq_response row) \<and>
      s' = s\<lparr>st_db := (if gq_response row = None then answered k (response_document r) (st_db s)
                       else st_db s)\<rparr>) \<or>
    x \<noteq> Inr () \<and> s' = s"
proof -
  let ?doc = "response_document r"
  have req: "new_request k (Some ?doc) now =
      Inr \<lparr>req_key = k, req_response = Some ?doc, req_created = now\<rparr>"
    using assms(1) response_keys_allowed [of r] by (simp add: new_request_Ok del: keys_allowed.simps)
  have run: "act_bind (transaction (remember_body k ?doc)) (\<lambda>_. act_return ()) s = (x, s')"
    using assms(2) by (simp add: durable_remember_def remember_gateway_response_def act_bind_def
        act_lift_def req)
  show ?thesis
  proof (cases x)
    case (Inl e)
    with run show ?thesis
      by (auto simp: act_bind_def act_return_def split: prod.splits sum.splits dest: transaction_Raise)
  next
    case (Inr u)
    with run obtain y d where d: "remember_body k ?doc (st_db s) = (Inr y, d)" "s' = s\<lparr>st_db := d\<rparr>"
      by (auto simp: act_bind_Ok act_return_Ok transaction_Ok)
    with Inr show ?thesis by (auto simp: remember_body_Ok)
  qed
qed

lemma durable_release_cases:
  assumes "clean IdempotencyKey k" "durable_release now k s = (x, s')"
  shows "x = Inr () \<and> (case row_of gq_key k (db_requests (st_db s)) of
        None \<Rightarrow> s' = s
      | Some row \<Rightarrow> gq_response row = None \<and>
          s' = s\<lparr>st_db := db_requests_update (delete_rows (\<lambda>row. gq_key row = k)) (st_db s)\<rparr>) \<or>
    x \<noteq> Inr () \<and> s' = s"
proof -
  have req: "new_request k None now = Inr \<lparr>req_key = k, req_response = None, req_created = now\<rparr>"
    using assms(1) by (simp add: new_request_Ok)
  have run: "act_bind (transaction (release_request_body k)) (\<lambda>_. act_return ()) s = (x, s')"
    using assms(2) by (simp add: durable_release_def release_gateway_request_def act_bind_def act_lift_def req)
  show ?thesis
  proof (cases x)
    case (Inl e)
    with run show ?thesis
      by (auto simp: act_bind_def act_return_def split: prod.splits sum.splits dest: transaction_Raise)
  next
    case (Inr u)
    with run obtain y d where d: "release_request_body k (st_db s) = (Inr y, d)" "s' = s\<lparr>st_db := d\<rparr>"
      by (auto simp: act_bind_Ok act_return_Ok transaction_Ok)
    with Inr show ?thesis by (auto simp: release_request_body_Ok split: option.splits)
  qed
qed

lemma durable_steps_keep:
  assumes "db_inv (st_db s)"
  shows "db_inv (st_db (snd (durable_reserve now k s)))"
    "db_inv (st_db (snd (durable_remember now k r s)))"
    "db_inv (st_db (snd (durable_release now k s)))"
proof -
  have snd_unit: "snd (act_bind m (\<lambda>_. act_return ()) t) = snd (m t)"
    for m :: "'x store_act" and t
    by (auto simp: act_bind_def act_return_def split: prod.splits sum.splits)
  show "db_inv (st_db (snd (durable_reserve now k s)))"
    using store_step_sound [OF store_step.reserve_request assms] by (simp add: durable_reserve_def)
  show "db_inv (st_db (snd (durable_remember now k r s)))"
    using store_step_sound [OF store_step.remember_response assms] by (simp add: durable_remember_def snd_unit)
  show "db_inv (st_db (snd (durable_release now k s)))"
    using store_step_sound [OF store_step.release_request assms] by (simp add: durable_release_def snd_unit)
qed

lemma request_held_iff:
  "k \<in> request_held s \<longleftrightarrow> map_option gq_response (row_of gq_key k (db_requests (st_db s))) = Some None"
  by (auto simp: request_held_def)

lemma answered_row:
  "row_of gq_key k' (db_requests (answered k doc d)) =
     (if k' = k then map_option (\<lambda>row. row\<lparr>gq_response := Some (canonical_object doc)\<rparr>)
        (row_of gq_key k' (db_requests d)) else row_of gq_key k' (db_requests d))"
  by (simp add: answered_def row_of_update_same)

lemmas request_rows_after = row_of_insert_row answered_row
  row_of_delete_same [of gq_key]

lemma durable_reserve_held:
  assumes "clean IdempotencyKey k"
  shows "durable_reserve now k s = (Inr True, s') \<Longrightarrow>
      k \<notin> request_held s \<and> request_held s' = insert k (request_held s)"
    "fst (durable_reserve now k s) \<noteq> Inr True \<Longrightarrow> snd (durable_reserve now k s) = s"
proof -
  assume "durable_reserve now k s = (Inr True, s')"
  from durable_reserve_cases [OF assms this]
  show "k \<notin> request_held s \<and> request_held s' = insert k (request_held s)"
    by (auto simp: request_held_iff request_rows_after split: option.splits if_splits)
next
  assume "fst (durable_reserve now k s) \<noteq> Inr True"
  with durable_reserve_cases [OF assms, of now s "fst (durable_reserve now k s)"]
  show "snd (durable_reserve now k s) = s" by (metis prod.collapse)
qed

lemma durable_remember_held:
  assumes "clean IdempotencyKey k" "durable_remember now k r s = (x, s')"
  shows "x = Inr () \<Longrightarrow> request_held s' = request_held s - {k}"
    "x \<noteq> Inr () \<Longrightarrow> s' = s"
proof -
  show "x \<noteq> Inr () \<Longrightarrow> s' = s" using durable_remember_cases [OF assms] by auto
  assume "x = Inr ()"
  with durable_remember_cases [OF assms] obtain row where
    row: "row_of gq_key k (db_requests (st_db s)) = Some row"
    and s': "s' = s\<lparr>st_db := (if gq_response row = None then answered k (response_document r) (st_db s)
                       else st_db s)\<rparr>" by auto
  show "request_held s' = request_held s - {k}"
    using row by (auto simp: s' set_eq_iff request_held_iff request_rows_after)
qed

lemma durable_release_held:
  assumes "clean IdempotencyKey k" "durable_release now k s = (x, s')"
  shows "x = Inr () \<Longrightarrow> request_held s' = request_held s - {k}"
    "x \<noteq> Inr () \<Longrightarrow> s' = s"
proof -
  show "x \<noteq> Inr () \<Longrightarrow> s' = s" using durable_release_cases [OF assms] by auto
  assume x: "x = Inr ()"
  show "request_held s' = request_held s - {k}"
  proof (cases "row_of gq_key k (db_requests (st_db s))")
    case None
    with durable_release_cases [OF assms] x show ?thesis by (auto simp: request_held_iff)
  next
    case (Some row)
    with durable_release_cases [OF assms] x show ?thesis
      by (auto simp: set_eq_iff request_held_iff request_rows_after)
  qed
qed

interpretation request_ledger: reservation_ledger "\<lambda>s. db_inv (st_db s)" "clean IdempotencyKey"
  request_held "durable_reserve now" "durable_remember now" "durable_release now" for now
  by unfold_locales (auto simp: durable_steps_keep durable_reserve_held dest: durable_remember_held
      durable_release_held)

lemma request_answer_reserve:
  assumes "clean IdempotencyKey k" "request_answer s k' = Some r"
  shows "request_answer (snd (durable_reserve now k s)) k' = Some r"
    "k' = k \<Longrightarrow> fst (durable_reserve now k s) \<noteq> Inr True"
proof -
  obtain x s' where run: "durable_reserve now k s = (x, s')" by (cases "durable_reserve now k s") auto
  show "request_answer (snd (durable_reserve now k s)) k' = Some r"
    using durable_reserve_cases [OF assms(1) run] assms(2) run
    by (auto simp: request_answer_def request_rows_after split: option.splits if_splits)
  show "k' = k \<Longrightarrow> fst (durable_reserve now k s) \<noteq> Inr True"
    using durable_reserve_cases [OF assms(1) run] assms(2) run by (auto simp: request_answer_def)
qed

lemma request_answer_remember:
  assumes "clean IdempotencyKey k" "request_answer s k' = Some r'"
  shows "request_answer (snd (durable_remember now k r s)) k' = Some r'"
proof -
  obtain x s' where run: "durable_remember now k r s = (x, s')" by (cases "durable_remember now k r s") auto
  with durable_remember_cases [OF assms(1) run] assms(2) show ?thesis
    by (auto simp: request_answer_def request_rows_after split: option.splits if_splits)
qed

lemma request_answer_release:
  assumes "clean IdempotencyKey k" "request_answer s k' = Some r'"
  shows "request_answer (snd (durable_release now k s)) k' = Some r'"
proof -
  obtain x s' where run: "durable_release now k s = (x, s')" by (cases "durable_release now k s") auto
  with durable_release_cases [OF assms(1) run] assms(2) show ?thesis
    by (auto simp: request_answer_def request_rows_after split: option.splits if_splits)
qed

lemma request_answer_stored:
  assumes "clean IdempotencyKey k" "valid_response r" "durable_remember now k r s = (Inr (), s')"
  shows "request_answer s' k = Some r"
proof -
  from durable_remember_cases [OF assms(1,3)] obtain row where
    row: "row_of gq_key k (db_requests (st_db s)) = Some row"
      "opt_all (\<lambda>old. old = canonical_object (response_document r)) (gq_response row)"
    and s': "s' = s\<lparr>st_db := (if gq_response row = None then answered k (response_document r) (st_db s)
                       else st_db s)\<rparr>" by auto
  then have "\<exists>row'. row_of gq_key k (db_requests (st_db s')) = Some row' \<and>
      gq_response row' = Some (canonical_object (response_document r))"
    by (cases "gq_response row") (auto simp: request_rows_after)
  with response_round_trip_both(2) [OF assms(2)] show ?thesis
    by (auto simp: request_answer_def)
qed

interpretation durable_request_ledger: durable_ledger "\<lambda>s. db_inv (st_db s)" "clean IdempotencyKey"
  request_held "durable_reserve now" "durable_remember now" "durable_release now"
  request_answer valid_response for now
proof unfold_locales
  fix s k r s'
  assume "clean IdempotencyKey k" "valid_response r" "durable_remember now k r s = (Inr (), s')"
  then show "request_answer s' k = Some r" by (rule request_answer_stored)
next
  fix s :: store and c :: "gateway_response ledger_call" and k r
  assume k: "clean IdempotencyKey (call_key c)" and r: "request_answer s k = Some r"
  show "request_answer (snd (ledger_step (durable_reserve now) (durable_remember now)
      (durable_release now) c s)) k = Some r"
  proof (cases c)
    case (Reserve k')
    with request_answer_reserve(1) [OF _ r, of k' now] k show ?thesis
      by (auto split: prod.splits sum.splits)
  next
    case (Answer k' r')
    with request_answer_remember [OF _ r] k show ?thesis by simp
  next
    case (Release k')
    with request_answer_release [OF _ r] k show ?thesis by simp
  qed
next
  fix s k r
  assume "clean IdempotencyKey k" "request_answer s k = Some r"
  then show "fst (durable_reserve now k s) \<noteq> Inr True" using request_answer_reserve(2) by blast
qed

text \<open>An answer survives every operation of the store, and is what \<open>get\<close> returns.\<close>

lemma request_answer_row:
  assumes "db_inv (st_db s)" "request_answer s k = Some r"
  obtains row doc where "row_of gq_key k (db_requests (st_db s)) = Some row" "gq_response row = Some doc"
    "response_of_document doc = Inr r" "gq_key row = k" "request_row_ok row"
proof -
  obtain row doc where row: "row_of gq_key k (db_requests (st_db s)) = Some row"
    and doc: "gq_response row = Some doc" "response_of_document doc = Inr r"
    using assms(2) by (auto simp: request_answer_def split: option.splits sum.splits)
  moreover have "request_row_ok row" "gq_key row = k"
    using row_of_SomeD [OF row] assms(1) by (auto simp: db_inv_def tables_ok_def requests_ok_def)
  ultimately show ?thesis using that by blast
qed

lemma request_answer_steps:
  assumes "db_inv (st_db s)" "request_answer s k = Some r" "store_step\<^sup>*\<^sup>* s s'"
  shows "request_answer s' k = Some r"
proof (rule request_answer_row [OF assms(1,2)])
  fix row doc
  assume "row_of gq_key k (db_requests (st_db s)) = Some row" "gq_response row = Some doc"
    "response_of_document doc = Inr r"
  then show ?thesis
    using steps_evolve [OF assms(3,1)] by (auto simp: evolves_def ledgers_kept_def request_answer_def)
qed

lemma request_answer_get:
  assumes "db_inv (st_db s)" "request_answer s k = Some r" "clean IdempotencyKey k" "serving s"
  shows "durable_get now k s = (Inr (Some r), s)"
proof (rule request_answer_row [OF assms(1,2)])
  fix row doc
  assume row: "row_of gq_key k (db_requests (st_db s)) = Some row" "gq_response row = Some doc"
    "response_of_document doc = Inr r" "gq_key row = k" "request_row_ok row"
  then have "new_request k (Some doc) (gq_created row) =
      Inr \<lparr>req_key = k, req_response = Some doc, req_created = gq_created row\<rparr>"
    by (simp add: new_request_Ok request_row_ok_def del: keys_allowed.simps)
  moreover have "new_request k None now = Inr \<lparr>req_key = k, req_response = None, req_created = now\<rparr>"
    using assms(3) by (simp add: new_request_Ok)
  ultimately show ?thesis
    using row by (simp add: durable_get_def get_gateway_request_def read_serving [OF assms(4)])
qed

lemma answered_tables [simp]:
  "db_tasks (answered k doc d) = db_tasks d" "db_routes (answered k doc d) = db_routes d"
  "db_events (answered k doc d) = db_events d"
  by (simp_all add: answered_def)

text \<open>The ledger operations when they succeed.\<close>

lemma durable_get_new:
  assumes "clean IdempotencyKey k" "serving s" "k \<notin> keys gq_key (db_requests (st_db s))"
  shows "durable_get now k s = (Inr None, s)"
proof -
  have "new_request k None now = Inr \<lparr>req_key = k, req_response = None, req_created = now\<rparr>"
    using assms(1) by (simp add: new_request_Ok)
  with assms(3) show ?thesis
    by (simp add: durable_get_def get_gateway_request_def read_serving [OF assms(2)] row_of_None [THEN iffD2])
qed

lemma durable_reserve_new:
  assumes "clean IdempotencyKey k" "serving s" "k \<notin> keys gq_key (db_requests (st_db s))"
  shows "durable_reserve now k s = (Inr True, s\<lparr>st_db := db_requests_update
    (insert_row \<lparr>gq_key = k, gq_response = None, gq_created = now\<rparr>) (st_db s)\<rparr>)"
proof -
  let ?r = "\<lparr>req_key = k, req_response = None, req_created = now\<rparr>"
  have "new_request k None now = Inr ?r"
    using assms(1) by (simp add: new_request_Ok)
  moreover have "reserve_request_body ?r (st_db s) =
      (Inr True, db_requests_update (insert_row (reservation ?r)) (st_db s))"
    unfolding reserve_request_body_Ok using assms(3) by simp
  ultimately show ?thesis
    by (simp add: durable_reserve_def reserve_gateway_request_def aware_time_def act_defs
        transaction_on_serving [OF assms(2)])
qed

lemma durable_remember_reserved:
  assumes "clean IdempotencyKey k" "serving s" "row_of gq_key k (db_requests (st_db s)) = Some row"
    "gq_response row = None"
  shows "durable_remember now k r s = (Inr (), s\<lparr>st_db := answered k (response_document r) (st_db s)\<rparr>)"
proof -
  let ?doc = "response_document r"
  have req: "new_request k (Some ?doc) at =
      Inr \<lparr>req_key = k, req_response = Some ?doc, req_created = at\<rparr>" for at
    using assms(1) response_keys_allowed by (simp add: new_request_Ok del: keys_allowed.simps)
  have "remember_body k ?doc (st_db s) =
      (Inr \<lparr>req_key = k, req_response = Some ?doc, req_created = gq_created row\<rparr>, answered k ?doc (st_db s))"
    unfolding remember_body_Ok using req assms(3,4) by simp
  then show ?thesis
    using req by (simp add: durable_remember_def remember_gateway_response_def act_defs
        transaction_on_serving [OF assms(2)])
qed

section \<open>The SQLite ledger of delivery receipts\<close>

text \<open>\<open>AsyncSQLiteDeliveryReceipts\<close> (\<open>storage/adapters.py\<close>): the same contract, the answer being a mark.\<close>

definition receipt_is_delivered :: "aware \<Rightarrow> string \<Rightarrow> store \<Rightarrow> py_error + bool" where
  "receipt_is_delivered now i = is_delivery_delivered now i"

definition receipt_reserve :: "aware \<Rightarrow> string \<Rightarrow> bool store_act" where
  "receipt_reserve now i = reserve_delivery now i None"

definition receipt_mark :: "aware \<Rightarrow> string \<Rightarrow> unit store_act" where
  "receipt_mark now i = act_bind (mark_delivery_delivered now i None) (\<lambda>_. act_return ())"

definition receipt_release :: "aware \<Rightarrow> string \<Rightarrow> unit store_act" where
  "receipt_release now i = act_bind (release_delivery now i) (\<lambda>_. act_return ())"

definition receipt_reconcile :: "string list store_act" where
  "receipt_reconcile = reconcile_reserved_deliveries"

definition delivery_held :: "store \<Rightarrow> string set" where
  "delivery_held s =
     {k. \<exists>row. row_of rc_id k (db_receipts (st_db s)) = Some row \<and> rc_state row = RESERVED}"

definition delivery_done :: "store \<Rightarrow> string \<Rightarrow> unit option" where
  "delivery_done s k =
     (case row_of rc_id k (db_receipts (st_db s)) of
        None \<Rightarrow> None | Some row \<Rightarrow> (if rc_state row = DELIVERED then Some () else None))"

abbreviation new_reservation :: "string \<Rightarrow> aware \<Rightarrow> receipt" where
  "new_reservation k now \<equiv> \<lparr>rc_id = k, rc_state = RESERVED, rc_created = now, rc_delivered = None\<rparr>"

lemma new_reservation_Ok:
  "clean_delivery_key k \<Longrightarrow> new_receipt k RESERVED now None = Inr (new_reservation k now)"
  by (simp add: new_receipt_Ok receipt_state_ok_def)

lemma receipt_reserve_cases:
  assumes "clean_delivery_key k" "receipt_reserve now k s = (x, s')"
  shows "x = Inr True \<and> row_of rc_id k (db_receipts (st_db s)) = None \<and>
      s' = s\<lparr>st_db := db_receipts_update (insert_row (new_reservation k now)) (st_db s)\<rparr> \<or>
    x \<noteq> Inr True \<and> s' = s"
proof -
  have run: "transaction (reserve_delivery_body (new_reservation k now)) s = (x, s')"
    using assms by (simp add: receipt_reserve_def reserve_delivery_def act_bind_def act_lift_def
        aware_time_def new_reservation_Ok)
  show ?thesis
  proof (cases x)
    case (Inl e)
    with run show ?thesis by (auto dest: transaction_Raise)
  next
    case (Inr b)
    with run obtain d where d: "reserve_delivery_body (new_reservation k now) (st_db s) = (Inr b, d)"
      "s' = s\<lparr>st_db := d\<rparr>"
      by (auto simp: transaction_Ok)
    show ?thesis
    proof (cases "row_of rc_id k (db_receipts (st_db s))")
      case None
      then have "k \<notin> keys rc_id (db_receipts (st_db s))" by (metis row_of_None)
      with d Inr None show ?thesis by (simp add: reserve_delivery_body_Ok)
    next
      case (Some row)
      then have "k \<in> keys rc_id (db_receipts (st_db s))" by (metis row_of_None option.distinct(1))
      with d Inr show ?thesis by (simp add: reserve_delivery_body_Ok)
    qed
  qed
qed

lemma receipt_mark_cases:
  assumes "clean_delivery_key k" "db_inv (st_db s)" "receipt_mark now k s = (x, s')"
  shows "x = Inr () \<and> (\<exists>row. row_of rc_id k (db_receipts (st_db s)) = Some row \<and>
      (rc_state row = DELIVERED \<and> s' = s \<or>
       rc_state row = RESERVED \<and> rc_id row = k \<and> s' = s\<lparr>st_db := delivered_db row now (st_db s)\<rparr>)) \<or>
    x \<noteq> Inr () \<and> s' = s"
proof -
  have tabs: "tables_ok (st_db s)" using assms(2) by (simp add: db_inv_def)
  have run: "act_bind (transaction (mark_delivered_body k now)) (\<lambda>_. act_return ()) s = (x, s')"
    using assms by (simp add: receipt_mark_def mark_delivery_delivered_def act_bind_def act_lift_def
        aware_time_def new_reservation_Ok)
  show ?thesis
  proof (cases x)
    case (Inl e)
    with run show ?thesis
      by (auto simp: act_bind_def act_return_def split: prod.splits sum.splits dest: transaction_Raise)
  next
    case (Inr u)
    with run obtain y d where d: "mark_delivered_body k now (st_db s) = (Inr y, d)" "s' = s\<lparr>st_db := d\<rparr>"
      by (auto simp: act_bind_Ok act_return_Ok transaction_Ok)
    then obtain row where row: "row_of rc_id k (db_receipts (st_db s)) = Some row"
      and c: "if rc_state row = DELIVERED then y = row \<and> d = st_db s
        else utc (rc_created row) \<le> utc now \<and> y = row\<lparr>rc_state := DELIVERED, rc_delivered := Some now\<rparr> \<and>
             d = delivered_db y now (st_db s)"
      by (auto simp: mark_delivered_body_Ok [OF tabs])
    have "rc_id row = k" using row_of_SomeD [OF row] by simp
    moreover have "delivered_db (row\<lparr>rc_state := DELIVERED, rc_delivered := Some now\<rparr>) now = delivered_db row now"
      by (simp add: delivered_db_def)
    ultimately show ?thesis
      using c d row Inr by (cases "rc_state row") auto
  qed
qed

lemma receipt_release_cases:
  assumes "clean_delivery_key k" "receipt_release now k s = (x, s')"
  shows "x = Inr () \<and> (case row_of rc_id k (db_receipts (st_db s)) of
        None \<Rightarrow> s' = s
      | Some row \<Rightarrow> rc_state row = RESERVED \<and>
          s' = s\<lparr>st_db := db_receipts_update (delete_rows (\<lambda>row. rc_id row = k)) (st_db s)\<rparr>) \<or>
    x \<noteq> Inr () \<and> s' = s"
proof -
  have run: "act_bind (transaction (release_delivery_body k)) (\<lambda>_. act_return ()) s = (x, s')"
    using assms by (simp add: receipt_release_def release_delivery_def act_bind_def act_lift_def
        new_reservation_Ok)
  show ?thesis
  proof (cases x)
    case (Inl e)
    with run show ?thesis
      by (auto simp: act_bind_def act_return_def split: prod.splits sum.splits dest: transaction_Raise)
  next
    case (Inr u)
    with run obtain y d where d: "release_delivery_body k (st_db s) = (Inr y, d)" "s' = s\<lparr>st_db := d\<rparr>"
      by (auto simp: act_bind_Ok act_return_Ok transaction_Ok)
    with Inr show ?thesis by (auto simp: release_delivery_body_Ok split: option.splits)
  qed
qed

lemma receipt_steps_keep:
  assumes "db_inv (st_db s)"
  shows "db_inv (st_db (snd (receipt_reserve now k s)))"
    "db_inv (st_db (snd (receipt_mark now k s)))"
    "db_inv (st_db (snd (receipt_release now k s)))"
proof -
  have snd_unit: "snd (act_bind m (\<lambda>_. act_return ()) t) = snd (m t)"
    for m :: "'x store_act" and t
    by (auto simp: act_bind_def act_return_def split: prod.splits sum.splits)
  show "db_inv (st_db (snd (receipt_reserve now k s)))"
    using store_step_sound [OF store_step.reserve_delivery assms] by (simp add: receipt_reserve_def)
  show "db_inv (st_db (snd (receipt_mark now k s)))"
    using store_step_sound [OF store_step.mark_delivered assms] by (simp add: receipt_mark_def snd_unit)
  show "db_inv (st_db (snd (receipt_release now k s)))"
    using store_step_sound [OF store_step.release_delivery assms] by (simp add: receipt_release_def snd_unit)
qed

lemma delivered_row:
  "row_of rc_id k' (db_receipts (delivered_db r at d)) =
     (if k' = rc_id r then map_option (\<lambda>row. row\<lparr>rc_state := DELIVERED, rc_delivered := Some at\<rparr>)
        (row_of rc_id k' (db_receipts d)) else row_of rc_id k' (db_receipts d))"
  by (simp add: delivered_db_def row_of_update_same)

lemmas receipt_rows_after = row_of_insert_row delivered_row row_of_delete_same [of rc_id]

lemma delivery_held_iff:
  "k \<in> delivery_held s \<longleftrightarrow> map_option rc_state (row_of rc_id k (db_receipts (st_db s))) = Some RESERVED"
  by (auto simp: delivery_held_def)

lemma receipt_reserve_held:
  assumes "clean_delivery_key k"
  shows "receipt_reserve now k s = (Inr True, s') \<Longrightarrow>
      k \<notin> delivery_held s \<and> delivery_held s' = insert k (delivery_held s)"
    "fst (receipt_reserve now k s) \<noteq> Inr True \<Longrightarrow> snd (receipt_reserve now k s) = s"
proof -
  assume "receipt_reserve now k s = (Inr True, s')"
  from receipt_reserve_cases [OF assms this]
  show "k \<notin> delivery_held s \<and> delivery_held s' = insert k (delivery_held s)"
    by (auto simp: delivery_held_iff receipt_rows_after split: option.splits if_splits)
next
  assume "fst (receipt_reserve now k s) \<noteq> Inr True"
  with receipt_reserve_cases [OF assms, of now s "fst (receipt_reserve now k s)"]
  show "snd (receipt_reserve now k s) = s" by (metis prod.collapse)
qed

lemma receipt_mark_held:
  assumes "clean_delivery_key k" "db_inv (st_db s)" "receipt_mark now k s = (x, s')"
  shows "x = Inr () \<Longrightarrow> delivery_held s' = delivery_held s - {k}" "x \<noteq> Inr () \<Longrightarrow> s' = s"
proof -
  show "x \<noteq> Inr () \<Longrightarrow> s' = s" using receipt_mark_cases [OF assms] by auto
  assume "x = Inr ()"
  with receipt_mark_cases [OF assms] show "delivery_held s' = delivery_held s - {k}"
    by (auto simp: set_eq_iff delivery_held_iff receipt_rows_after split: if_splits)
qed

lemma receipt_release_held:
  assumes "clean_delivery_key k" "receipt_release now k s = (x, s')"
  shows "x = Inr () \<Longrightarrow> delivery_held s' = delivery_held s - {k}" "x \<noteq> Inr () \<Longrightarrow> s' = s"
proof -
  show "x \<noteq> Inr () \<Longrightarrow> s' = s" using receipt_release_cases [OF assms] by auto
  assume x: "x = Inr ()"
  show "delivery_held s' = delivery_held s - {k}"
  proof (cases "row_of rc_id k (db_receipts (st_db s))")
    case None
    with receipt_release_cases [OF assms] x show ?thesis by (auto simp: delivery_held_iff)
  next
    case (Some row)
    with receipt_release_cases [OF assms] x show ?thesis
      by (auto simp: set_eq_iff delivery_held_iff receipt_rows_after)
  qed
qed

interpretation delivery_ledger: reservation_ledger "\<lambda>s. db_inv (st_db s)" clean_delivery_key
  delivery_held "receipt_reserve now" "\<lambda>k (_::unit). receipt_mark now k" "receipt_release now" for now
  by unfold_locales (auto simp: receipt_steps_keep receipt_reserve_held dest: receipt_mark_held
      receipt_release_held)

lemma delivery_done_kept:
  assumes "clean_delivery_key k" "db_inv (st_db s)" "delivery_done s k' = Some r"
  shows "delivery_done (snd (receipt_reserve now k s)) k' = Some r"
    "delivery_done (snd (receipt_mark now k s)) k' = Some r"
    "delivery_done (snd (receipt_release now k s)) k' = Some r"
    "k' = k \<Longrightarrow> fst (receipt_reserve now k s) \<noteq> Inr True"
proof -
  obtain x1 s1 x2 s2 x3 s3 where runs: "receipt_reserve now k s = (x1, s1)"
    "receipt_mark now k s = (x2, s2)" "receipt_release now k s = (x3, s3)"
    by (metis surj_pair)
  show "delivery_done (snd (receipt_reserve now k s)) k' = Some r"
    "k' = k \<Longrightarrow> fst (receipt_reserve now k s) \<noteq> Inr True"
    using receipt_reserve_cases [OF assms(1) runs(1)] assms(3) runs(1)
    by (auto simp: delivery_done_def receipt_rows_after split: option.splits if_splits)
  show "delivery_done (snd (receipt_mark now k s)) k' = Some r"
    using receipt_mark_cases [OF assms(1,2) runs(2)] assms(3) runs(2)
    by (auto simp: delivery_done_def receipt_rows_after split: option.splits if_splits)
  show "delivery_done (snd (receipt_release now k s)) k' = Some r"
    using receipt_release_cases [OF assms(1) runs(3)] assms(3) runs(3)
    by (auto simp: delivery_done_def receipt_rows_after split: option.splits if_splits)
qed

interpretation durable_delivery_ledger: durable_ledger "\<lambda>s. db_inv (st_db s)" clean_delivery_key
  delivery_held "receipt_reserve now" "\<lambda>k (_::unit). receipt_mark now k" "receipt_release now"
  delivery_done "\<lambda>_. True" for now
proof unfold_locales
  fix s k and r :: unit and s'
  assume "db_inv (st_db s)" "clean_delivery_key k" "receipt_mark now k s = (Inr (), s')"
  with receipt_mark_cases [of k s now "Inr ()" s'] show "delivery_done s' k = Some r"
    by (auto simp: delivery_done_def receipt_rows_after)
next
  fix s and c :: "unit ledger_call" and k and r :: unit
  assume "db_inv (st_db s)" "clean_delivery_key (call_key c)" "delivery_done s k = Some r"
  then show "delivery_done (snd (ledger_step (receipt_reserve now) (\<lambda>k (_::unit). receipt_mark now k)
      (receipt_release now) c s)) k = Some r"
    using delivery_done_kept [of "call_key c" s k r now]
    by (cases c) (auto split: prod.splits sum.splits)
next
  fix s k and r :: unit
  assume "db_inv (st_db s)" "clean_delivery_key k" "delivery_done s k = Some r"
  then show "fst (receipt_reserve now k s) \<noteq> Inr True" using delivery_done_kept(4) by blast
qed

end
