(* ===== verification/LedgerProperties.thy ===== *)
theory LedgerProperties
  imports Samples Dedup
begin

text \<open>
  The properties of the idempotency ledgers: a reserved key is granted once, an answer and a delivery
  mark last for ever, a restart releases exactly what was unfinished; and what the in-memory
  deduplicator guarantees, and does not.
\<close>

section \<open>Answered requests\<close>

text \<open>A remembered response lasts: after any further operations of the store, restarts included,
  the key still has that response, it is returned when asked for, and the key is never granted again.\<close>

theorem answer_lasts:
  assumes "reachable s" "clean IdempotencyKey k" "valid_response r"
    "durable_remember now k r s = (Inr (), s1)" "store_step\<^sup>*\<^sup>* s1 s2"
  shows "request_answer s2 k = Some r \<and> fst (durable_reserve now' k s2) \<noteq> Inr True \<and>
    (serving s2 \<longrightarrow> durable_get now' k s2 = (Inr (Some r), s2))"
proof -
  have inv1: "db_inv (st_db s1)"
    using durable_steps_keep(2) [OF reachable_db [OF assms(1)], of now k r] assms(4) by simp
  have ans1: "request_answer s1 k = Some r"
    by (rule durable_request_ledger.answer_stored [OF reachable_db [OF assms(1)] assms(2,3,4)])
  have inv2: "db_inv (st_db s2)" by (rule steps_keep [OF assms(5) inv1])
  have ans2: "request_answer s2 k = Some r" by (rule request_answer_steps [OF inv1 ans1 assms(5)])
  then show ?thesis
    using durable_request_ledger.answered_refused [OF inv2 assms(2) ans2]
      request_answer_get [OF inv2 ans2 assms(2)] by blast
qed

definition sample_response :: gateway_response where
  "sample_response =
     \<lparr>rs_success = True, rs_code = OK, rs_message = ''done'', rs_task = None, rs_tasks = [], rs_replayed = False\<rparr>"

lemma sample_response_valid: "valid_response sample_response"
  by (simp add: valid_response_def GatewayResponse_validate_def sample_response_def checked_def check_simps
      SafeMessage_def)

definition sample_key :: string where "sample_key = ''slack:Ev1''"

lemma sample_key_clean: "clean IdempotencyKey sample_key"
  by (simp add: sample_key_def check_simps is_opaque_char_def)

text \<open>The sample store with the key reserved, and with its answer.\<close>

definition sample_reserved :: store where
  "sample_reserved = snd (durable_reserve (at_utc 50) sample_key sample_store)"

lemma sample_reservation:
  "durable_reserve (at_utc 50) sample_key sample_store = (Inr True, sample_reserved)"
  "db_requests (st_db sample_reserved) = [\<lparr>gq_key = sample_key, gq_response = None, gq_created = at_utc 50\<rparr>]"
  "serving sample_reserved"
proof -
  have run: "durable_reserve (at_utc 50) sample_key sample_store = (Inr True, sample_store\<lparr>st_db :=
      db_requests_update (insert_row \<lparr>gq_key = sample_key, gq_response = None, gq_created = at_utc 50\<rparr>)
        (st_db sample_store)\<rparr>)"
    by (rule durable_reserve_new [OF sample_key_clean sample_serving]) (simp add: sample_tables)
  then show "durable_reserve (at_utc 50) sample_key sample_store = (Inr True, sample_reserved)"
    by (simp add: sample_reserved_def)
  show "db_requests (st_db sample_reserved) = [\<lparr>gq_key = sample_key, gq_response = None, gq_created = at_utc 50\<rparr>]"
    by (simp add: sample_reserved_def run sample_tables insert_row_def)
  show "serving sample_reserved"
    using sample_serving by (simp add: sample_reserved_def run serving_def)
qed

lemma sample_reserved_reachable: "reachable sample_reserved"
  unfolding sample_reserved_def durable_reserve_def
  by (rule reachable_step [OF sample_reachable store_step.reserve_request])

definition sample_answered :: store where
  "sample_answered = snd (durable_remember (at_utc 60) sample_key sample_response sample_reserved)"

lemma sample_answer:
  "durable_remember (at_utc 60) sample_key sample_response sample_reserved = (Inr (), sample_answered)"
proof -
  let ?row = "\<lparr>gq_key = sample_key, gq_response = None, gq_created = at_utc 50\<rparr>"
  have "row_of gq_key sample_key (db_requests (st_db sample_reserved)) = Some ?row" "gq_response ?row = None"
    by (simp_all add: sample_reservation(2))
  from durable_remember_reserved [OF sample_key_clean sample_reservation(3) this] show ?thesis
    by (simp add: sample_answered_def)
qed

theorem answer_lasts_witness:
  "request_answer (close_store sample_answered) sample_key = Some sample_response"
  using answer_lasts [OF sample_reserved_reachable sample_key_clean sample_response_valid sample_answer
      close_steps, of "at_utc 70"] by simp

section \<open>Exclusive reservations\<close>

text \<open>A reservation of the durable ledger is exclusive: while its holder has neither answered nor
  released the key, no other call is granted the same key, whatever calls are interleaved.\<close>

theorem durable_reservation_exclusive:
  assumes "reachable s" "clean IdempotencyKey k" "durable_reserve now k s = (Inr True, s1)"
    "\<forall>c \<in> set cs. clean IdempotencyKey (call_key c) \<and> \<not> frees k c"
  shows "k \<notin> set (fst (ledger_run (durable_reserve now) (durable_remember now) (durable_release now) cs s1))"
proof -
  have inv: "db_inv (st_db s)" by (rule reachable_db [OF assms(1)])
  have "db_inv (st_db s1)" using durable_steps_keep(1) [OF inv, of now k] assms(3) by simp
  moreover have "k \<in> request_held s1"
    using request_ledger.granted [OF inv assms(2,3)] by simp
  ultimately show ?thesis using request_ledger.exclusive [of s1 cs k now] assms(4) by simp
qed

theorem durable_reservation_exclusive_witness:
  "sample_key \<notin> set (fst (ledger_run (durable_reserve (at_utc 50)) (durable_remember (at_utc 50))
     (durable_release (at_utc 50)) [Reserve sample_key, Reserve sample_key] sample_reserved))"
  using durable_reservation_exclusive [OF sample_reachable sample_key_clean sample_reservation(1),
      of "[Reserve sample_key, Reserve sample_key]"] sample_key_clean by simp

text \<open>The in-memory deduplicator grants exclusively too, at whatever times its operations run.\<close>

theorem memory_reservation_exclusive:
  assumes "timed_reserve clock k s = (Inr True, s1)" "\<forall>c \<in> set cs. \<not> frees k c"
  shows "k \<notin> set (fst (ledger_run (timed_reserve clock) (timed_remember clock) untimed_release cs s1))"
  using memory_ledger.granted [OF _ _ assms(1)] assms(2)
  by (intro memory_ledger.exclusive [THEN conjunct1]) auto

theorem memory_reservation_exclusive_witness:
  "''k'' \<notin> set (fst (ledger_run (timed_reserve int) (timed_remember int) untimed_release
     [Reserve ''k'', Release ''j'', Reserve ''k'']
     (snd (timed_reserve int ''k'' (0, \<lparr>md_max_entries = 2, md_ttl = 10, md_completed = [], md_in_flight = {}\<rparr>)))))"
  by (rule memory_reservation_exclusive
      [where s = "(0, \<lparr>md_max_entries = 2, md_ttl = 10, md_completed = [], md_in_flight = {}\<rparr>)"])
    (auto simp: timed_reserve_def memory_reserve_def prune_def Let_def)

section \<open>Delivery receipts\<close>

text \<open>A delivery marked as delivered is never sent again: after any further operations it is still
  delivered, it is reported so, and its identifier cannot be reserved.\<close>

theorem delivery_lasts:
  assumes "reachable s" "clean_delivery_key k" "receipt_mark now k s = (Inr (), s1)"
    "store_step\<^sup>*\<^sup>* s1 s2"
  shows "delivery_done s2 k = Some () \<and> fst (receipt_reserve now' k s2) \<noteq> Inr True \<and>
    (serving s2 \<longrightarrow> receipt_is_delivered now' k s2 = Inr True)"
proof -
  have inv: "db_inv (st_db s)" by (rule reachable_db [OF assms(1)])
  have inv1: "db_inv (st_db s1)" using receipt_steps_keep(2) [OF inv, of now k] assms(3) by simp
  have "delivery_done s1 k = Some ()"
    by (rule durable_delivery_ledger.answer_stored [OF inv assms(2) _ assms(3)]) simp
  then obtain row where row: "row_of rc_id k (db_receipts (st_db s1)) = Some row" "rc_state row = DELIVERED"
    by (auto simp: delivery_done_def split: option.splits if_splits)
  have inv2: "db_inv (st_db s2)" by (rule steps_keep [OF assms(4) inv1])
  from row have row2: "row_of rc_id k (db_receipts (st_db s2)) = Some row"
    using steps_evolve [OF assms(4) inv1] by (auto simp: evolves_def ledgers_kept_def)
  then have done2: "delivery_done s2 k = Some ()" using row(2) by (simp add: delivery_done_def)
  have "receipt_is_delivered now' k s2 = Inr True" if "serving s2"
  proof -
    have "valid_receipt row"
      using row_of_SomeD [OF row2] inv2 by (auto simp: db_inv_def tables_ok_def receipts_ok_def)
    then show ?thesis
      using row2 row(2) assms(2)
      by (simp add: receipt_is_delivered_def is_delivery_delivered_def get_delivery_receipt_def
          read_serving [OF that] new_reservation_Ok valid_receipt_def)
  qed
  with done2 durable_delivery_ledger.answered_refused [OF steps_keep [OF assms(4) inv1] assms(2) done2]
  show ?thesis by blast
qed

lemma sample_receipt_key: "clean_delivery_key sample_key"
  by (simp add: clean_delivery_key_def sample_key_def check_simps OpaqueRouteValue_def is_opaque_char_def
      secret_shaped_def lower_def char_lower_def startswith_def)

definition sample_sent :: store where
  "sample_sent = snd (receipt_reserve (at_utc 50) sample_key sample_store)"

lemma sample_sent:
  "reachable sample_sent" "serving sample_sent"
  "db_receipts (st_db sample_sent) = [new_reservation sample_key (at_utc 50)]"
proof -
  have body: "reserve_delivery_body (new_reservation sample_key (at_utc 50)) (st_db sample_store) =
      (Inr True, db_receipts_update (insert_row (new_reservation sample_key (at_utc 50))) (st_db sample_store))"
    unfolding reserve_delivery_body_Ok by (simp add: sample_tables)
  then have run: "sample_sent = sample_store\<lparr>st_db := db_receipts_update
      (insert_row (new_reservation sample_key (at_utc 50))) (st_db sample_store)\<rparr>"
    by (simp add: sample_sent_def receipt_reserve_def reserve_delivery_def aware_time_def act_defs
        new_reservation_Ok [OF sample_receipt_key] transaction_on_serving [OF sample_serving])
  show "serving sample_sent" using sample_serving by (simp add: run serving_def)
  show "db_receipts (st_db sample_sent) = [new_reservation sample_key (at_utc 50)]"
    by (simp add: run sample_tables insert_row_def)
  show "reachable sample_sent"
    unfolding sample_sent_def receipt_reserve_def
    by (rule reachable_step [OF sample_reachable store_step.reserve_delivery])
qed

lemma sample_mark:
  "receipt_mark (at_utc 60) sample_key sample_sent = (Inr (), snd (receipt_mark (at_utc 60) sample_key sample_sent))"
proof -
  have "mark_delivered_body sample_key (at_utc 60) (st_db sample_sent) =
      (Inr ((new_reservation sample_key (at_utc 50))\<lparr>rc_state := DELIVERED, rc_delivered := Some (at_utc 60)\<rparr>),
       delivered_db ((new_reservation sample_key (at_utc 50))\<lparr>rc_state := DELIVERED, rc_delivered := Some (at_utc 60)\<rparr>)
         (at_utc 60) (st_db sample_sent))"
    unfolding mark_delivered_body_Ok [OF reachable_tables [OF sample_sent(1)]] by (simp add: sample_sent(3))
  then show ?thesis
    by (simp add: receipt_mark_def mark_delivery_delivered_def aware_time_def act_defs
        new_reservation_Ok [OF sample_receipt_key] transaction_on_serving [OF sample_sent(2)])
qed

theorem delivery_lasts_witness:
  "delivery_done (close_store (snd (receipt_mark (at_utc 60) sample_key sample_sent))) sample_key = Some ()"
  using delivery_lasts [OF sample_sent(1) sample_receipt_key sample_mark close_steps, of "at_utc 70"] by simp

section \<open>Restart\<close>

text \<open>Reconciling requests after a restart releases exactly the keys that were reserved without an
  answer, and keeps every answer.\<close>

theorem restart_releases_requests:
  assumes "reachable s" "serving s"
  shows "\<exists>ks s'. durable_reconcile s = (Inr ks, s') \<and> set ks = request_held s \<and> sorted ks \<and> distinct ks \<and>
    request_held s' = {} \<and> request_answer s' = request_answer s"
proof -
  let ?rows = "db_requests (st_db s)"
  let ?ks = "order_by (\<le>) (map gq_key (filter (\<lambda>r. gq_response r = None) ?rows))"
  let ?d = "db_requests_update (delete_rows (\<lambda>r. gq_response r = None)) (st_db s)"
  have dist: "distinct (map gq_key ?rows)"
    using reachable_tables [OF assms(1)] by (simp add: tables_ok_def requests_ok_def)
  have "reconcile_requests_body (st_db s) = (Inr ?ks, ?d)" by (simp add: reconcile_requests_body_Ok)
  then have run: "durable_reconcile s = (Inr ?ks, s\<lparr>st_db := ?d\<rparr>)"
    by (simp add: durable_reconcile_def reconcile_incomplete_gateway_requests_def
        transaction_on_serving [OF assms(2)])
  have "row_of gq_key k ?rows = Some r \<longleftrightarrow> r \<in> set ?rows \<and> gq_key r = k" for k r
    by (rule row_of_iff [OF dist])
  then have "set ?ks = request_held s" by (auto simp: request_held_def)
  moreover have "sorted ?ks" by (rule sorted_order_by) auto
  moreover have "distinct ?ks" using dist by (simp add: distinct_map_filter)
  moreover have "request_held (s\<lparr>st_db := ?d\<rparr>) = {}" "request_answer (s\<lparr>st_db := ?d\<rparr>) = request_answer s"
    by (auto simp: request_held_def request_answer_def row_of_delete_rows [OF dist] fun_eq_iff
        split: option.splits if_splits)
  ultimately show ?thesis using run by blast
qed

theorem restart_releases_requests_witness:
  "\<exists>ks s'. durable_reconcile sample_reserved = (Inr ks, s') \<and> set ks = request_held sample_reserved"
  using restart_releases_requests [OF sample_reserved_reachable sample_reservation(3)] by blast

section \<open>The in-memory deduplicator\<close>

text \<open>The cache stays within its bound and holds one entry per key.\<close>

definition memory_ok :: "memory_dedup \<Rightarrow> bool" where
  "memory_ok m \<longleftrightarrow> length (md_completed m) \<le> md_max_entries m \<and> distinct (map fst (md_completed m))"

lemma distinct_map_dropWhile: "distinct (map f xs) \<Longrightarrow> distinct (map f (dropWhile P xs))"
  by (induction xs) auto

lemma move_to_end_ok:
  "length (move_to_end k xs) = length xs" "distinct (map fst xs) \<Longrightarrow> distinct (map fst (move_to_end k xs))"
  using sum_length_filter_compl [of "\<lambda>kv. fst kv \<noteq> k" xs]
  by (auto simp: move_to_end_def distinct_map_filter)

text \<open>Every operation of the in-memory deduplicator keeps its cache within the configured bound
  with one entry per key.\<close>

theorem memory_bounded:
  assumes "memory_ok m"
  shows "memory_ok (snd (memory_get now k m)) \<and> memory_ok (snd (memory_reserve now k m)) \<and>
    memory_ok (memory_remember now k r m) \<and> memory_ok (memory_release k m)"
proof -
  have prune: "memory_ok (prune now m)"
    using assms length_dropWhile_le [of _ "md_completed m"]
    by (auto simp: memory_ok_def prune_def distinct_map_dropWhile intro: le_trans)
  then have "memory_ok ((prune now m)\<lparr>md_completed := move_to_end k (md_completed (prune now m))\<rparr>)"
    by (simp add: memory_ok_def move_to_end_ok)
  moreover have "memory_ok (memory_remember now k r m)"
  proof -
    define es where "es = filter (\<lambda>kv. fst kv \<noteq> k) (md_completed m) @ [(k, now, r)]"
    have "distinct (map fst es)" using assms by (auto simp: memory_ok_def es_def distinct_map_filter)
    moreover have "memory_remember now k r m = m\<lparr>md_in_flight := md_in_flight m - {k},
        md_completed := drop (length es - md_max_entries m) es\<rparr>"
      by (simp add: memory_remember_def es_def Let_def)
    ultimately show ?thesis by (auto simp: memory_ok_def drop_map [symmetric])
  qed
  ultimately show ?thesis
    using assms prune
    by (auto simp: memory_get_def memory_reserve_def memory_release_def Let_def memory_ok_def
        split: option.splits)
qed

theorem memory_bounded_witness:
  "memory_ok (memory_remember 5 ''k'' sample_response
     \<lparr>md_max_entries = 1, md_ttl = 10, md_completed = [(''j'', 0, sample_response)], md_in_flight = {}\<rparr>)"
  by (rule memory_bounded [THEN conjunct2, THEN conjunct2, THEN conjunct1]) (simp add: memory_ok_def)

text \<open>The time-to-live is not an upper bound. Reading an answer moves its entry to the end of the
  cache without renewing its time, and pruning stops at the first entry that is young enough: here an
  answer stored at time 0 with a time-to-live of 10 is still returned at time 15.\<close>

theorem expired_answer_returned:
  "\<exists>m m1 m2. new_memory_dedup 5 10 = Some m \<and>
     m1 = memory_remember 10 ''b'' sample_response (memory_remember 0 ''a'' sample_response m) \<and>
     m2 = snd (memory_get 5 ''a'' m1) \<and>
     fst (memory_get 15 ''a'' m1) = None \<and> fst (memory_get 15 ''a'' m2) = Some sample_response"
proof -
  let ?m = "\<lambda>es. \<lparr>md_max_entries = 5, md_ttl = 10, md_completed = es, md_in_flight = {}\<rparr>"
  let ?a = "(''a'', 0, sample_response)" and ?b = "(''b'', 10, sample_response)"
  have "new_memory_dedup 5 10 = Some (?m [])" by (simp add: new_memory_dedup_def)
  moreover have "memory_remember 10 ''b'' sample_response (memory_remember 0 ''a'' sample_response (?m [])) = ?m [?a, ?b]"
    by (simp add: memory_remember_def Let_def)
  moreover have "snd (memory_get 5 ''a'' (?m [?a, ?b])) = ?m [?b, ?a]"
    by (simp add: memory_get_def prune_def move_to_end_def)
  moreover have "fst (memory_get 15 ''a'' (?m [?a, ?b])) = None"
    "fst (memory_get 15 ''a'' (?m [?b, ?a])) = Some sample_response"
    by (simp_all add: memory_get_def prune_def move_to_end_def)
  ultimately show ?thesis by metis
qed

end
