(* ===== verification/Projections.thy ===== *)
theory Projections
  imports Reachability
begin

text \<open>
  \<open>observability/projections.py\<close>: a \<open>TaskProjector\<close> rebuilds a task from its events alone.
  \<open>replay_task\<close> is the function of that name. The refinement lemma says that replaying the stored
  events of a task gives the stored status and agents; it needs what the store does not check, that
  timestamps do not move backwards and that appended events name the task's project and team.
\<close>

section \<open>The projector\<close>

datatype projection_error =
    ReusedEventId
  | DuplicateBeforeCreation
  | NotCreatedFirst
  | MissingRoutingFields
  | CreatedStatusWrong
  | DifferentTask
  | ProjectChanged
  | TeamChanged
  | TimeMovedBackwards
  | CreatedTwice
  | IllegalProjectedTransition
  | StartedStatusWrong
  | FixedStatusWrong
  | AssignedWithoutAgent
  | UnhashableStatus          \<comment> \<open>\<open>TypeError\<close>: a list or dictionary is tested for membership in a set\<close>
  | EmptyStream
  | InvalidProjection

record projection =
  pr_task :: string
  pr_project :: string
  pr_team :: string
  pr_status :: task_status
  pr_agents :: "string list"
  pr_created :: aware
  pr_updated :: aware
  pr_last_id :: uuid
  pr_last_type :: event_type
  pr_count :: nat

text \<open>The constructor \<open>TaskProjection(...)\<close>.\<close>

definition Projection_validate :: "projection \<Rightarrow> projection_error + projection" where
  "Projection_validate p =
     map_error (\<lambda>_. InvalidProjection)
       (and_then (checked TaskId (pr_task p)) (\<lambda>i.
        and_then (checked Identifier (pr_project p)) (\<lambda>proj.
        and_then (checked Identifier (pr_team p)) (\<lambda>team.
        and_then (traverse (checked Identifier) (pr_agents p)) (\<lambda>agents.
        and_then (require (1 \<le> pr_count p) InvalidField) (\<lambda>_.
        Inr (p\<lparr>pr_task := i, pr_project := proj, pr_team := team, pr_agents := agents\<rparr>)))))))"

record projector =
  pj_projection :: "projection option"
  pj_seen :: "uuid \<Rightarrow> event option"

definition new_projector :: projector where
  "new_projector = \<lparr>pj_projection = None, pj_seen = (\<lambda>_. None)\<rparr>"

text \<open>
  \<open>previous == event\<close>: pydantic compares field by field, an aware time by its instant and a
  dictionary whatever its key order.
\<close>

definition comparable :: "event \<Rightarrow> event" where
  "comparable e = (canonical_event e)\<lparr>ev_time := at_utc (utc (ev_time e))\<rparr>"

definition same_event :: "event \<Rightarrow> event \<Rightarrow> bool" where
  "same_event a b \<longleftrightarrow> comparable a = comparable b"

text \<open>\<open>_FIXED_STATUS_EVENTS\<close>.\<close>

fun fixed_status :: "event_type \<Rightarrow> task_status option" where
  "fixed_status TASK_CREATED = Some Pending"
| "fixed_status TASK_QUEUED = Some Queued"
| "fixed_status TASK_BLOCKED = Some Blocked"
| "fixed_status TASK_COMPLETED = Some Completed"
| "fixed_status TASK_FAILED = Some Failed"
| "fixed_status TASK_CANCELLED = Some Cancelled"
| "fixed_status REVIEW_STARTED = Some Review"
| "fixed_status QA_STARTED = Some QA"
| "fixed_status _ = None"

definition status_for :: "event \<Rightarrow> projection_error + task_status option" where
  "status_for e =
     (if ev_type e = TASK_STARTED then
        (case map_of (ev_payload e) ''status'' of
           Some (JStr raw) \<Rightarrow>
             if raw = status_value Planning then Inr (Some Planning)
             else if raw = status_value Running then Inr (Some Running)
             else Inl StartedStatusWrong
         | Some (JArr _) \<Rightarrow> Inl UnhashableStatus
         | Some (JObj _) \<Rightarrow> Inl UnhashableStatus
         | _ \<Rightarrow> Inl StartedStatusWrong)
      else case fixed_status (ev_type e) of
        None \<Rightarrow> Inr None
      | Some s \<Rightarrow> if payload_status e = Some (status_value s) then Inr (Some s) else Inl FixedStatusWrong)"

definition create_projection :: "event \<Rightarrow> projection_error + projection" where
  "create_projection e =
     and_then (require (ev_type e = TASK_CREATED) NotCreatedFirst) (\<lambda>_.
     case (ev_task e, ev_project e, ev_team e) of
       (Some i, Some proj, Some team) \<Rightarrow>
         and_then (require (payload_status e = Some (status_value Pending)) CreatedStatusWrong) (\<lambda>_.
         Projection_validate
           \<lparr>pr_task = i, pr_project = proj, pr_team = team, pr_status = Pending, pr_agents = [],
            pr_created = ev_time e, pr_updated = ev_time e, pr_last_id = ev_id e,
            pr_last_type = ev_type e, pr_count = 1\<rparr>)
     | _ \<Rightarrow> Inl MissingRoutingFields)"

definition assign_in_projection :: "projection \<Rightarrow> event \<Rightarrow> projection_error + string list" where
  "assign_in_projection p e =
     (if ev_type e = AGENT_ASSIGNED then
        (case ev_agent e of
           None \<Rightarrow> Inl AssignedWithoutAgent
         | Some a \<Rightarrow> Inr (if a \<notin> set (pr_agents p) then pr_agents p @ [a] else pr_agents p))
      else Inr (pr_agents p))"

definition apply_projection :: "projection \<Rightarrow> event \<Rightarrow> projection_error + projection" where
  "apply_projection p e =
     and_then (require (ev_task e = Some (pr_task p)) DifferentTask) (\<lambda>_.
     and_then (require (opt_all (\<lambda>x. x = pr_project p) (ev_project e)) ProjectChanged) (\<lambda>_.
     and_then (require (opt_all (\<lambda>x. x = pr_team p) (ev_team e)) TeamChanged) (\<lambda>_.
     and_then (require (\<not> aware_less (ev_time e) (pr_updated p)) TimeMovedBackwards) (\<lambda>_.
     and_then (require (ev_type e \<noteq> TASK_CREATED) CreatedTwice) (\<lambda>_.
     and_then (status_for e) (\<lambda>status.
     and_then (require (opt_all (can_transition (pr_status p)) status) IllegalProjectedTransition) (\<lambda>_.
     and_then (assign_in_projection p e) (\<lambda>agents.
     Projection_validate
       (p\<lparr>pr_status := (case status of None \<Rightarrow> pr_status p | Some s \<Rightarrow> s), pr_agents := agents,
          pr_updated := ev_time e, pr_last_id := ev_id e, pr_last_type := ev_type e,
          pr_count := pr_count p + 1\<rparr>)))))))))"

definition consume :: "event \<Rightarrow> (projector, projection_error, projection) act" where
  "consume e pj =
     (case pj_seen pj (ev_id e) of
        Some previous \<Rightarrow>
          if \<not> same_event previous e then (Inl ReusedEventId, pj)
          else (case pj_projection pj of
                  None \<Rightarrow> (Inl DuplicateBeforeCreation, pj) | Some p \<Rightarrow> (Inr p, pj))
      | None \<Rightarrow>
          (case (case pj_projection pj of
                   None \<Rightarrow> create_projection e | Some p \<Rightarrow> apply_projection p e) of
             Inl err \<Rightarrow> (Inl err, pj)
           | Inr p \<Rightarrow>
               (Inr p, pj\<lparr>pj_seen := (pj_seen pj)(ev_id e \<mapsto> e), pj_projection := Some p\<rparr>)))"

fun consume_all :: "event list \<Rightarrow> (projector, projection_error, unit) act" where
  "consume_all [] = act_return ()"
| "consume_all (e # es) = act_bind (consume e) (\<lambda>_. consume_all es)"

definition replay_task :: "event list \<Rightarrow> projection_error + projection" where
  "replay_task es =
     (case consume_all es new_projector of
        (Inl err, _) \<Rightarrow> Inl err
      | (Inr _, pj) \<Rightarrow> (case pj_projection pj of None \<Rightarrow> Inl EmptyStream | Some p \<Rightarrow> Inr p))"

section \<open>Basic facts\<close>

lemma same_event_refl [simp]: "same_event e e"
  by (simp add: same_event_def)

lemma consume_all_append:
  "consume_all (es @ es') pj =
     (case consume_all es pj of (Inl err, pj') \<Rightarrow> (Inl err, pj') | (Inr _, pj') \<Rightarrow> consume_all es' pj')"
  by (induction es arbitrary: pj) (auto simp: act_return_def act_bind_def split: prod.splits sum.splits)

definition projection_clean :: "projection \<Rightarrow> bool" where
  "projection_clean p \<longleftrightarrow>
     clean TaskId (pr_task p) \<and> clean Identifier (pr_project p) \<and> clean Identifier (pr_team p) \<and>
     list_all (clean Identifier) (pr_agents p) \<and> 1 \<le> pr_count p"

lemma Projection_validate_clean: "projection_clean p \<Longrightarrow> Projection_validate p = Inr p"
  by (simp add: Projection_validate_def projection_clean_def traverse_checked_clean)

lemma status_for_told:
  assumes "ev_type e \<in> set atomic_task_event_types \<Longrightarrow> event_told e row"
  shows "status_for e = Inr (lifecycle_status e)"
proof (cases "ev_type e \<in> set lifecycle_types")
  case True
  then have "ev_type e \<noteq> AGENT_ASSIGNED" "ev_type e \<in> set atomic_task_event_types"
    by (auto simp: atomic_types_eq)
  then obtain s where s: "ev_type e = event_for_status s" "payload_status e = Some (status_value s)"
    using assms by (auto simp: event_told_def list_ex_iff)
  then have "map_of (ev_payload e) ''status'' = Some (JStr (status_value s))"
    by (simp add: payload_status_Some)
  moreover have "lifecycle_status e = Some s" by (rule lifecycle_status_of_event [OF s])
  ultimately show ?thesis using s by (cases s) (simp_all add: status_for_def)
next
  case False
  then have "fixed_status (ev_type e) = None" "ev_type e \<noteq> TASK_STARTED"
    by (cases "ev_type e"; simp add: lifecycle_types_def all_statuses_def)+
  with False show ?thesis by (simp add: status_for_def lifecycle_status_def)
qed

section \<open>What a replayed stream gives\<close>

definition stream_trail :: "event list \<Rightarrow> task_status list" where
  "stream_trail es = List.map_filter lifecycle_status es"

definition stream_agents :: "event list \<Rightarrow> string list" where
  "stream_agents es = List.map_filter (\<lambda>e. if ev_type e = AGENT_ASSIGNED then ev_agent e else None) es"

text \<open>A stream that the projector accepts.\<close>

definition told_in :: "string \<Rightarrow> string \<Rightarrow> string \<Rightarrow> event \<Rightarrow> bool" where
  "told_in i proj team e \<longleftrightarrow>
     valid_event e \<and> ev_task e = Some i \<and>
     opt_all (\<lambda>x. x = proj) (ev_project e) \<and> opt_all (\<lambda>x. x = team) (ev_team e) \<and>
     (ev_type e \<in> set atomic_task_event_types \<longrightarrow>
        ev_project e \<noteq> None \<and> ev_team e \<noteq> None \<and> (ev_type e = AGENT_ASSIGNED \<longrightarrow> ev_agent e \<noteq> None) \<and>
        status_for e = Inr (lifecycle_status e) \<and>
        (ev_type e = TASK_CREATED \<longrightarrow> lifecycle_status e = Some Pending))"

definition truthful :: "string \<Rightarrow> string \<Rightarrow> string \<Rightarrow> event list \<Rightarrow> bool" where
  "truthful i proj team es \<longleftrightarrow>
     opens es \<and> (\<forall>e \<in> set es. told_in i proj team e) \<and> distinct (map ev_id es) \<and>
     legal_trail (stream_trail es) \<and> distinct (stream_agents es) \<and>
     sorted_wrt (\<lambda>a b. utc (ev_time a) \<le> utc (ev_time b)) es"

definition projection_of :: "string \<Rightarrow> string \<Rightarrow> string \<Rightarrow> event list \<Rightarrow> projection" where
  "projection_of i proj team es =
     \<lparr>pr_task = i, pr_project = proj, pr_team = team, pr_status = last (stream_trail es),
      pr_agents = stream_agents es, pr_created = ev_time (hd es), pr_updated = ev_time (last es),
      pr_last_id = ev_id (last es), pr_last_type = ev_type (last es), pr_count = length es\<rparr>"

lemma stream_trail_snoc:
  "stream_trail (es @ [e]) =
     stream_trail es @ (case lifecycle_status e of None \<Rightarrow> [] | Some s \<Rightarrow> [s])"
  by (simp add: stream_trail_def map_filter_def split: option.splits)

lemma stream_agents_snoc:
  "stream_agents (es @ [e]) =
     stream_agents es @
       (if ev_type e = AGENT_ASSIGNED then (case ev_agent e of None \<Rightarrow> [] | Some a \<Rightarrow> [a]) else [])"
  by (simp add: stream_agents_def map_filter_def split: option.splits)

lemma told_in_status:
  "told_in i proj team e \<Longrightarrow> status_for e = Inr (lifecycle_status e)"
  by (cases "ev_type e \<in> set atomic_task_event_types")
    (auto simp: told_in_def intro: status_for_told)

lemma told_in_clean:
  "told_in i proj team e \<Longrightarrow> clean TaskId i \<and> opt_all (clean Identifier) (ev_agent e)"
  by (cases "ev_agent e") (auto simp: told_in_def valid_event_iff event_fields_clean_def)

lemma stream_agents_clean:
  "\<forall>e \<in> set es. told_in i proj team e \<Longrightarrow> list_all (clean Identifier) (stream_agents es)"
  by (induction es rule: rev_induct)
    (auto simp: stream_agents_snoc stream_agents_def map_filter_def dest: told_in_clean
      split: option.splits)

lemma truthful_clean:
  assumes "truthful i proj team es"
  shows "projection_clean (projection_of i proj team es)"
proof -
  obtain e es' where es: "es = e # es'" "ev_type e = TASK_CREATED"
    using assms by (cases es) (auto simp: truthful_def opens_def)
  have "TASK_CREATED \<in> set atomic_task_event_types"
    by (simp add: atomic_task_event_types_def all_statuses_def)
  then have "ev_project e = Some proj" "ev_team e = Some team" "valid_event e" "ev_task e = Some i"
    using assms es by (auto simp: truthful_def told_in_def)
  then have "clean TaskId i" "clean Identifier proj" "clean Identifier team"
    by (auto simp: valid_event_iff event_fields_clean_def)
  moreover have "list_all (clean Identifier) (stream_agents es)"
    using assms stream_agents_clean by (auto simp: truthful_def)
  ultimately show ?thesis using es by (simp add: projection_clean_def projection_of_def)
qed

lemma truthful_single:
  assumes "truthful i proj team [e]"
  shows "create_projection e = Inr (projection_of i proj team [e])"
proof -
  have created: "ev_type e = TASK_CREATED" using assms by (simp add: truthful_def opens_def)
  then have "TASK_CREATED \<in> set atomic_task_event_types" "event_for_status Pending = ev_type e"
    by (simp_all add: atomic_task_event_types_def all_statuses_def)
  then have e: "ev_project e = Some proj" "ev_team e = Some team" "ev_task e = Some i"
    "lifecycle_status e = Some Pending"
    using assms created by (auto simp: truthful_def told_in_def)
  then have "payload_status e = Some (status_value Pending)"
    by (auto simp: lifecycle_status_def bind_eq_Some_conv dest!: status_of_value_SomeD split: if_splits)
  with e created truthful_clean [OF assms] show ?thesis
    by (simp add: create_projection_def projection_of_def stream_trail_def stream_agents_def
        map_filter_def Projection_validate_clean)
qed

lemma legal_trail_prefix: "legal_trail (xs @ ys) \<Longrightarrow> xs \<noteq> [] \<Longrightarrow> legal_trail xs"
  by (simp add: legal_trail_def successively_append_iff)

lemma truthful_snoc:
  assumes "truthful i proj team (es @ [e])" "es \<noteq> []"
  shows "truthful i proj team es"
proof -
  obtain e0 es' where es: "es = e0 # es'" using assms(2) by (cases es) auto
  have "opens es" using assms es by (simp add: truthful_def opens_def)
  moreover have "TASK_CREATED \<in> set atomic_task_event_types"
    by (simp add: atomic_task_event_types_def all_statuses_def)
  then have "lifecycle_status e0 = Some Pending"
    using assms es by (auto simp: truthful_def told_in_def opens_def)
  then have "stream_trail es \<noteq> []" using es by (simp add: stream_trail_def map_filter_def)
  then have "legal_trail (stream_trail es)"
    using assms(1) by (auto simp only: truthful_def stream_trail_snoc intro: legal_trail_prefix)
  moreover have "distinct (stream_agents es)"
  proof -
    have "distinct (stream_agents (es @ [e]))" using assms(1) by (simp only: truthful_def)
    then show ?thesis unfolding stream_agents_snoc by (rule distinct_append [THEN iffD1, THEN conjunct1])
  qed
  ultimately show ?thesis
    using assms(1) by (simp add: truthful_def sorted_wrt_append)
qed

lemma truthful_apply:
  assumes t: "truthful i proj team (es @ [e])" and ne: "es \<noteq> []"
  shows "apply_projection (projection_of i proj team es) e = Inr (projection_of i proj team (es @ [e]))"
proof -
  let ?p = "projection_of i proj team es"
  note pre = truthful_snoc [OF t ne]
  have told: "told_in i proj team e" using t by (simp add: truthful_def)
  have ne': "stream_trail es \<noteq> []" using pre by (simp add: truthful_def legal_trail_def)
  have legal: "opt_all (can_transition (pr_status ?p)) (lifecycle_status e)"
    using t ne'
    by (auto simp: truthful_def stream_trail_snoc legal_trail_def successively_append_iff
        projection_of_def split: option.splits)
  have time: "\<not> aware_less (ev_time e) (pr_updated ?p)"
    using t last_in_set [OF ne]
    by (auto simp: truthful_def sorted_wrt_append projection_of_def aware_less_def)
  have "TASK_CREATED \<in> set atomic_task_event_types"
    by (simp add: atomic_task_event_types_def all_statuses_def)
  then have type: "ev_type e \<noteq> TASK_CREATED"
    using told legal can_transition_not_pending by (auto simp: told_in_def)
  have agents: "assign_in_projection ?p e = Inr (stream_agents (es @ [e]))"
  proof (cases "ev_type e = AGENT_ASSIGNED")
    case True
    then obtain a where a: "ev_agent e = Some a"
      using told by (auto simp: told_in_def atomic_types_eq)
    then have "a \<notin> set (stream_agents es)"
      using t True by (simp add: truthful_def stream_agents_snoc)
    with True a show ?thesis
      by (simp add: assign_in_projection_def projection_of_def stream_agents_snoc)
  qed (simp add: assign_in_projection_def projection_of_def stream_agents_snoc)
  have status: "(case lifecycle_status e of None \<Rightarrow> pr_status ?p | Some s \<Rightarrow> s) =
      last (stream_trail (es @ [e]))"
    using ne' by (simp add: stream_trail_snoc projection_of_def split: option.splits)
  have scope: "ev_task e = Some (pr_task ?p)" "opt_all (\<lambda>x. x = pr_project ?p) (ev_project e)"
    "opt_all (\<lambda>x. x = pr_team ?p) (ev_team e)"
    using told by (simp_all add: told_in_def projection_of_def)
  have eq: "?p\<lparr>pr_status := last (stream_trail (es @ [e])), pr_agents := stream_agents (es @ [e]),
      pr_updated := ev_time e, pr_last_id := ev_id e, pr_last_type := ev_type e,
      pr_count := pr_count ?p + 1\<rparr> = projection_of i proj team (es @ [e])"
    using ne by (simp add: projection_of_def)
  show ?thesis
    unfolding apply_projection_def
    using scope time type legal told_in_status [OF told] agents
    by (simp only: require_True and_then.simps status eq Projection_validate_clean [OF truthful_clean [OF t]])
      simp
qed

lemma truthful_consume:
  "truthful i proj team es \<Longrightarrow>
     \<exists>seen. consume_all es new_projector =
       (Inr (), \<lparr>pj_projection = Some (projection_of i proj team es), pj_seen = seen\<rparr>) \<and>
       (\<forall>k. k \<notin> set (map ev_id es) \<longrightarrow> seen k = None)"
proof (induction es rule: rev_induct)
  case Nil
  then show ?case by (simp add: truthful_def opens_def)
next
  case (snoc e es)
  show ?case
  proof (cases "es = []")
    case True
    with snoc.prems truthful_single [of i proj team e] show ?thesis
      by (simp add: consume_def new_projector_def act_bind_def act_return_def)
  next
    case False
    obtain seen where ih: "consume_all es new_projector =
        (Inr (), \<lparr>pj_projection = Some (projection_of i proj team es), pj_seen = seen\<rparr>)"
      "\<forall>k. k \<notin> set (map ev_id es) \<longrightarrow> seen k = None"
      using snoc.IH [OF truthful_snoc [OF snoc.prems False]] by blast
    have "seen (ev_id e) = None" using ih(2) snoc.prems by (simp add: truthful_def)
    with ih truthful_apply [OF snoc.prems False] show ?thesis
      by (simp add: consume_all_append consume_def act_bind_def act_return_def)
  qed
qed

lemma truthful_replay:
  "truthful i proj team es \<Longrightarrow> replay_task es = Inr (projection_of i proj team es)"
  using truthful_consume [of i proj team es] by (auto simp: replay_task_def)

section \<open>The stored log as a stream\<close>

lemma stream_members:
  assumes "db_inv d" "e \<in> set (stream (db_events d) i)"
  shows "\<exists>r \<in> set (db_events d). er_json r = e \<and> er_task r = Some i \<and> valid_event e \<and>
    ev_task e = Some i \<and> er_type r = ev_type e \<and> er_id r = ev_id e"
proof -
  obtain r where r: "r \<in> set (db_events d)" "er_json r = e" "er_task r = Some i"
    using assms(2) by (auto simp: stream_def)
  then have ok: "r = event_row_of (er_seq r) e" "valid_event e"
    using assms(1) by (auto simp: db_inv_def tables_ok_def events_ok_def event_row_ok_def)
  then have "ev_task e = Some i" "er_type r = ev_type e" "er_id r = ev_id e"
    using r(3) by (metis event_row_of_simps)+
  with r ok show ?thesis by blast
qed

lemma row_json_fields:
  "db_inv d \<Longrightarrow> r \<in> set (db_events d) \<Longrightarrow>
     er_type r = ev_type (er_json r) \<and> er_agent r = ev_agent (er_json r) \<and> er_id r = ev_id (er_json r)"
  by (auto simp: db_inv_def tables_ok_def events_ok_def event_row_ok_def)
    (metis event_row_of_simps canonical_event_simps)+

lemma stream_trail_stored: "stream_trail (stream rows i) = trail rows i"
  by (simp add: stream_trail_def stream_def trail_def map_filter_def comp_def filter_map) 
    (induction rows, auto)

lemma stream_agents_stored:
  assumes "\<And>r. r \<in> set rows \<Longrightarrow> er_type r = ev_type (er_json r) \<and> er_agent r = ev_agent (er_json r)"
  shows "stream_agents (stream rows i) = assigned rows i"
  using assms
  by (induction rows) (auto simp: stream_agents_def stream_def assigned_def map_filter_def split: option.splits)

text \<open>What the store does not check, and replay needs.\<close>

definition coherent :: "task_row \<Rightarrow> event list \<Rightarrow> bool" where
  "coherent row es \<longleftrightarrow>
     sorted_wrt (\<lambda>a b. utc (ev_time a) \<le> utc (ev_time b)) es \<and>
     list_all (\<lambda>e. opt_all (\<lambda>x. x = tk_project row) (ev_project e) \<and>
                   opt_all (\<lambda>x. x = tk_team row) (ev_team e)) es"

lemma stored_stream_truthful:
  assumes inv: "db_inv d" and row: "row \<in> set (db_tasks d)"
    and coh: "coherent row (stream (db_events d) (tk_id row))"
  shows "truthful (tk_id row) (tk_project row) (tk_team row) (stream (db_events d) (tk_id row))"
proof -
  let ?es = "stream (db_events d) (tk_id row)"
  have hist: "legal_trail (trail (db_events d) (tk_id row))"
    "assigned (db_events d) (tk_id row) = t_agents (tk_json row)" "opens ?es"
    and told: "\<And>x. x \<in> set (db_events d) \<Longrightarrow> er_type x \<in> set atomic_task_event_types \<Longrightarrow>
        \<exists>row \<in> set (db_tasks d). er_task x = Some (tk_id row) \<and> event_told (er_json x) row"
    using inv row by (auto simp: db_inv_def history_ok_def)
  have "valid_task (tk_json row)" and dist: "distinct (map tk_id (db_tasks d))"
    "distinct (map er_id (db_events d))"
    using inv row by (auto simp: db_inv_def tables_ok_def tasks_ok_def task_row_ok_def events_ok_def)
  then have agents: "distinct (t_agents (tk_json row))" by (simp add: valid_task_iff fields_clean_def)
  have in_stream: "told_in (tk_id row) (tk_project row) (tk_team row) e" if "e \<in> set ?es" for e
  proof -
    obtain r where r: "r \<in> set (db_events d)" "er_json r = e" "er_task r = Some (tk_id row)"
      "valid_event e" "ev_task e = Some (tk_id row)" "er_type r = ev_type e"
      using stream_members [OF inv \<open>e \<in> set ?es\<close>] by blast
    have etold: "event_told e row" if atomic: "ev_type e \<in> set atomic_task_event_types"
    proof -
      obtain row' where "row' \<in> set (db_tasks d)" "tk_id row' = tk_id row" "event_told e row'"
        using told [OF r(1)] r atomic by auto
      moreover have "row' = row"
        using calculation row dist(1) row_of_distinct [of tk_id "db_tasks d"] by (metis option.inject)
      ultimately show ?thesis by simp
    qed
    have created: "lifecycle_status e = Some Pending" if type: "ev_type e = TASK_CREATED"
    proof -
      have "ev_type e \<in> set atomic_task_event_types"
        using type by (simp add: atomic_task_event_types_def all_statuses_def)
      from etold [OF this] obtain s where "ev_type e = event_for_status s"
        "payload_status e = Some (status_value s)"
        using type by (auto simp: event_told_def list_ex_iff)
      moreover from this(1) have "s = Pending" using type by (cases s) simp_all
      ultimately show ?thesis by (simp add: lifecycle_status_of_event)
    qed
    show ?thesis
      using r coh that etold created status_for_told [of e row]
      by (auto simp: told_in_def coherent_def list_all_iff event_told_def)
  qed
  have "map ev_id ?es = map er_id (filter (\<lambda>r. er_task r = Some (tk_id row)) (db_events d))"
    using row_json_fields [OF inv] by (simp add: stream_def)
  then have "distinct (map ev_id ?es)" using dist(2) by (simp add: distinct_map_filter)
  moreover have "stream_agents ?es = assigned (db_events d) (tk_id row)"
    using row_json_fields [OF inv] by (intro stream_agents_stored) blast
  ultimately show ?thesis
    using hist in_stream coh agents by (simp add: truthful_def stream_trail_stored coherent_def)
qed

end
