(* ===== verification/ReplayProperties.thy ===== *)
theory ReplayProperties
  imports Projections Samples
begin

text \<open>
  Properties of the task projections over the stored event log: replay agrees with the stored task,
  duplicates are ignored, and the log of an accepted execution that replay refuses.
\<close>


lemma sample_stream:
  "stream (db_events (st_db sample_store)) ''TASK-1'' = [canonical_event sample_created, canonical_event sample_queued]"
  by (simp add: sample_tables stream_def sample_created_def sample_queued_def)

lemma sample_coherent: "coherent sample_row (stream (db_events (st_db sample_store)) (tk_id sample_row))"
  by (simp add: sample_stream coherent_def) (simp add: sample_row_def sample_created_def sample_queued_def)


lemma consume_seen:
  "consume e pj = (Inr p, pj') \<Longrightarrow>
     pj_projection pj' = Some p \<and> (\<exists>x. pj_seen pj' (ev_id e) = Some x \<and> same_event x e) \<and>
     (\<forall>k x. pj_seen pj k = Some x \<longrightarrow> pj_seen pj' k = Some x)"
  by (auto simp: consume_def split: option.splits sum.splits if_splits)

lemma consume_all_seen:
  "consume_all es pj = (Inr (), pj') \<Longrightarrow>
     (es \<noteq> [] \<longrightarrow> pj_projection pj' \<noteq> None) \<and>
     (\<forall>e \<in> set es. \<exists>x. pj_seen pj' (ev_id e) = Some x \<and> same_event x e) \<and>
     (\<forall>k x. pj_seen pj k = Some x \<longrightarrow> pj_seen pj' k = Some x)"
proof (induction es arbitrary: pj)
  case (Cons e es)
  then obtain p pj1 where step: "consume e pj = (Inr p, pj1)" and rest: "consume_all es pj1 = (Inr (), pj')"
    by (auto simp: act_bind_Ok)
  have "pj_projection pj' \<noteq> None"
  proof (cases "es = []")
    case True
    with rest have "pj' = pj1" by (simp add: act_return_def)
    with consume_seen [OF step] show ?thesis by simp
  next
    case False
    with Cons.IH [OF rest] show ?thesis by blast
  qed
  moreover have "\<exists>x. pj_seen pj' (ev_id a) = Some x \<and> same_event x a" if "a \<in> set (e # es)" for a
    using consume_seen [OF step] Cons.IH [OF rest] that by (metis set_ConsD)
  moreover have "pj_seen pj' k = Some x" if "pj_seen pj k = Some x" for k x
    using consume_seen [OF step] Cons.IH [OF rest] that by blast
  ultimately show ?case by blast
qed (simp add: act_return_def)

text \<open>The projector is idempotent: once a stream has been consumed, delivering any of its events
  again returns the projection and changes nothing.\<close>

theorem redelivery_ignored:
  assumes "consume_all es new_projector = (Inr (), pj)" "e \<in> set es" "same_event e e'"
  shows "\<exists>p. pj_projection pj = Some p \<and> consume e' pj = (Inr p, pj)"
proof -
  have id: "ev_id e' = ev_id e"
    using assms(3) by (simp add: same_event_def comparable_def canonical_event_def event.defs)
      (metis event.select_convs(2) event.surjective event.update_convs(13) event.update_convs(4))
  obtain p where p: "pj_projection pj = Some p"
    using consume_all_seen [OF assms(1)] assms(2) by fastforce
  obtain x where "pj_seen pj (ev_id e) = Some x" "same_event x e"
    using consume_all_seen [OF assms(1)] assms(2) by blast
  with p id assms(3) show ?thesis by (simp add: consume_def same_event_def)
qed

theorem redelivery_ignored_witness:
  "\<exists>pj p. consume_all (stream (db_events (st_db sample_store)) ''TASK-1'') new_projector = (Inr (), pj) \<and>
     consume sample_queued pj = (Inr p, pj)"
proof -
  let ?es = "stream (db_events (st_db sample_store)) ''TASK-1''"
  have "truthful ''TASK-1'' ''hub'' ''core'' ?es"
    using stored_stream_truthful [OF sample_inv _ sample_coherent] by (simp add: sample_tables sample_row_def)
  from truthful_consume [OF this] obtain pj where pj: "consume_all ?es new_projector = (Inr (), pj)"
    by blast
  have "canonical_event sample_queued \<in> set ?es" by (simp add: sample_stream)
  moreover have "same_event (canonical_event sample_queued) sample_queued"
    by (simp add: same_event_def comparable_def canonical_event_idem)
  ultimately show ?thesis using redelivery_ignored [OF pj] pj by blast
qed

text \<open>The store accepts a transition whose time lies before the previous event of its task, and
  replaying the resulting log is refused: here a task queued at time 20 is cancelled at time 15.\<close>

theorem accepted_log_not_replayable:
  "\<exists>s t. reachable s \<and> get_task ''TASK-1'' s = Inr t \<and> t_status t = Cancelled \<and>
     replay_task (stream (db_events (st_db s)) ''TASK-1'') = Inl TimeMovedBackwards"
proof -
  let ?s = "sample_moved 4 15 Cancelled"
  let ?e = "sample_event 4 15 TASK_CANCELLED Cancelled"
  have r: "reachable ?s" by (rule sample_moved_reachable) (simp_all add: sample_can_move)
  have t: "get_task ''TASK-1'' ?s = Inr (sample_task_at 15 Cancelled)"
  proof -
    have "valid_task (sample_task_at 15 Cancelled)"
      using reachable_tables(1) [OF r] by (simp add: tables_ok_def sample_moved_tables tasks_ok_def task_row_ok_def)
    then show ?thesis
      using sample_moved_serving by (simp add: get_task_def read_serving sample_moved_tables)
  qed
  have stream: "stream (db_events (st_db ?s)) ''TASK-1'' =
      [canonical_event sample_created, canonical_event sample_queued] @ [canonical_event ?e]"
    by (simp add: sample_moved_tables stream_def sample_created_def sample_queued_def)
  have truth: "truthful ''TASK-1'' ''hub'' ''core'' [canonical_event sample_created, canonical_event sample_queued]"
    using stored_stream_truthful [OF sample_inv _ sample_coherent]
    by (simp add: sample_tables sample_row_def flip: sample_stream)
  obtain seen where "consume_all [canonical_event sample_created, canonical_event sample_queued] new_projector =
      (Inr (), \<lparr>pj_projection = Some (projection_of ''TASK-1'' ''hub'' ''core''
        [canonical_event sample_created, canonical_event sample_queued]), pj_seen = seen\<rparr>)"
    "seen 4 = None"
    using truthful_consume [OF truth] by (auto simp: sample_created_def sample_queued_def)
  then have "replay_task (stream (db_events (st_db ?s)) ''TASK-1'') = Inl TimeMovedBackwards"
    unfolding stream replay_task_def consume_all_append
    by (simp add: act_bind_def consume_def apply_projection_def projection_of_def aware_less_def
        sample_queued_def)
  with r t show ?thesis by (intro exI [of _ ?s] exI [of _ "sample_task_at 15 Cancelled"])
    (simp add: sample_task_at_def)
qed

end
