(* ===== verification/Migrations.thy ===== *)
theory Migrations
  imports PyErrors
begin

text \<open>
  \<open>storage/migrations.py\<close>: the ordered schema versions and \<open>apply_migrations\<close>. A database is its
  \<open>schema_migrations\<close> rows, the objects created so far and the \<open>user_version\<close> pragma. A statement
  fails when its object exists already, when an index names a missing table, or when the engine
  refuses it (\<open>engine\<close> says which statements it accepts); the failed version is rolled back. A
  database that the program alone has written holds exactly the first \<open>k\<close> versions, for some \<open>k\<close>.
\<close>

section \<open>The migrations\<close>

datatype ddl = CreateTable string | CreateIndex string string

fun ddl_name :: "ddl \<Rightarrow> string" where
  "ddl_name (CreateTable name) = name"
| "ddl_name (CreateIndex name _) = name"

record migration =
  mg_version :: int
  mg_name :: string
  mg_statements :: "ddl list"

definition MIGRATIONS :: "migration list" where
  "MIGRATIONS =
     [\<lparr>mg_version = 1, mg_name = ''task-and-event-store'',
       mg_statements = [CreateTable ''tasks'', CreateTable ''events'',
         CreateIndex ''events_task_sequence_idx'' ''events'',
         CreateIndex ''tasks_status_created_idx'' ''tasks'']\<rparr>,
      \<lparr>mg_version = 2, mg_name = ''runs-and-artifact-metadata'',
       mg_statements = [CreateTable ''runs'', CreateIndex ''runs_task_created_idx'' ''runs'',
         CreateIndex ''runs_status_idx'' ''runs'', CreateTable ''artifacts'',
         CreateIndex ''artifacts_task_created_idx'' ''artifacts'']\<rparr>,
      \<lparr>mg_version = 3, mg_name = ''gateway-request-idempotency'',
       mg_statements = [CreateTable ''gateway_requests'',
         CreateIndex ''gateway_requests_created_idx'' ''gateway_requests'']\<rparr>,
      \<lparr>mg_version = 4, mg_name = ''task-routes-and-delivery-receipts'',
       mg_statements = [CreateTable ''task_routes'', CreateTable ''delivery_receipts'',
         CreateIndex ''delivery_receipts_state_idx'' ''delivery_receipts'']\<rparr>]"

definition LATEST_SCHEMA_VERSION :: int where
  "LATEST_SCHEMA_VERSION = mg_version (last MIGRATIONS)"

record schema =
  sc_history :: "(int \<times> string) list"
  sc_objects :: "ddl list"
  sc_user_version :: int

definition empty_schema :: schema where
  "empty_schema = \<lparr>sc_history = [], sc_objects = [], sc_user_version = 0\<rparr>"

section \<open>Applying them\<close>

fun can_create :: "ddl list \<Rightarrow> ddl \<Rightarrow> bool" where
  "can_create objects (CreateTable name) \<longleftrightarrow> name \<notin> set (map ddl_name objects)"
| "can_create objects (CreateIndex name table) \<longleftrightarrow>
     name \<notin> set (map ddl_name objects) \<and> CreateTable table \<in> set objects"

definition execute_ddl :: "(ddl \<Rightarrow> bool) \<Rightarrow> ddl \<Rightarrow> schema \<Rightarrow> schema option" where
  "execute_ddl engine stmt s =
     (if engine stmt \<and> can_create (sc_objects s) stmt
      then Some (s\<lparr>sc_objects := sc_objects s @ [stmt]\<rparr>) else None)"

fun execute_all :: "(ddl \<Rightarrow> bool) \<Rightarrow> ddl list \<Rightarrow> schema \<Rightarrow> schema option" where
  "execute_all engine [] s = Some s"
| "execute_all engine (stmt # stmts) s =
     Option.bind (execute_ddl engine stmt s) (execute_all engine stmts)"

text \<open>One version in its transaction; \<open>None\<close> is a raised \<open>sqlite3.Error\<close>, after the rollback.\<close>

definition apply_one :: "(ddl \<Rightarrow> bool) \<Rightarrow> migration \<Rightarrow> schema \<Rightarrow> schema option" where
  "apply_one engine m s =
     Option.bind (execute_all engine (mg_statements m) s) (\<lambda>s1.
     if mg_version m \<in> fst ` set (sc_history s1) \<or> mg_name m \<in> snd ` set (sc_history s1) then None
     else Some (s1\<lparr>sc_history := sc_history s1 @ [(mg_version m, mg_name m)],
                   sc_user_version := mg_version m\<rparr>))"

fun apply_pending ::
  "(ddl \<Rightarrow> bool) \<Rightarrow> int list \<Rightarrow> migration list \<Rightarrow> (schema, storage_error, unit) act" where
  "apply_pending engine applied [] s = (Inr (), s)"
| "apply_pending engine applied (m # ms) s =
     (if mg_version m \<in> set applied then apply_pending engine applied ms s
      else case apply_one engine m s of
        None \<Rightarrow> (Inl MigrationError, s)
      | Some s' \<Rightarrow> apply_pending engine applied ms s')"

definition check_history :: "(int \<times> string) list \<Rightarrow> storage_error + unit" where
  "check_history rows =
     (let applied = map fst rows;
          known = map (\<lambda>m. (mg_version m, mg_name m)) MIGRATIONS in
      and_then (require (\<not> (rows \<noteq> [] \<and> LATEST_SCHEMA_VERSION < Max (set applied)))
        MigrationError) (\<lambda>_.
      and_then (require (\<not> (rows \<noteq> [] \<and> sort applied \<noteq> [1..Max (set applied)])) MigrationError) (\<lambda>_.
      require (list_all (\<lambda>(v, n). map_of known v = Some n) rows) MigrationError)))"

definition apply_migrations :: "(ddl \<Rightarrow> bool) \<Rightarrow> (schema, storage_error, unit) act" where
  "apply_migrations engine s =
     (case check_history (sc_history s) of
        Inl e \<Rightarrow> (Inl e, s)
      | Inr _ \<Rightarrow> apply_pending engine (map fst (sc_history s)) MIGRATIONS s)"

section \<open>The first k versions\<close>

definition schema_at :: "nat \<Rightarrow> schema" where
  "schema_at k =
     \<lparr>sc_history = map (\<lambda>m. (mg_version m, mg_name m)) (take k MIGRATIONS),
      sc_objects = concat (map mg_statements (take k MIGRATIONS)), sc_user_version = int k\<rparr>"

lemma schema_at_0: "schema_at 0 = empty_schema"
  by (simp add: schema_at_def empty_schema_def)

lemma number_of_migrations: "length MIGRATIONS = 4"
  by (simp add: MIGRATIONS_def)

lemma up_to_4: "k \<le> 4 \<Longrightarrow> k = 0 \<or> k = 1 \<or> k = 2 \<or> k = 3 \<or> k = (4::nat)"
  by presburger

lemma check_history_prefix:
  "k \<le> 4 \<Longrightarrow> check_history (sc_history (schema_at k)) = Inr ()"
proof -
  have "check_history (sc_history (schema_at 0)) = Inr ()"
    "check_history (sc_history (schema_at 1)) = Inr ()"
    "check_history (sc_history (schema_at 2)) = Inr ()"
    "check_history (sc_history (schema_at 3)) = Inr ()"
    "check_history (sc_history (schema_at 4)) = Inr ()"
    by code_simp+
  then show "k \<le> 4 \<Longrightarrow> ?thesis" using up_to_4 by blast
qed

lemma execute_all_Some:
  "execute_all engine stmts s = Some s' \<Longrightarrow>
     s' = s\<lparr>sc_objects := sc_objects s @ stmts\<rparr> \<and> list_all engine stmts"
proof (induction stmts arbitrary: s)
  case (Cons stmt stmts)
  then have "engine stmt" "execute_all engine stmts (s\<lparr>sc_objects := sc_objects s @ [stmt]\<rparr>) = Some s'"
    by (auto simp: execute_ddl_def bind_eq_Some_conv split: if_splits)
  with Cons.IH [OF this(2)] show ?case by simp
qed simp

lemma apply_one_Some:
  assumes "k < 4" "apply_one engine (MIGRATIONS ! k) (schema_at k) = Some s'"
  shows "s' = schema_at (Suc k) \<and> list_all engine (mg_statements (MIGRATIONS ! k))"
proof -
  from assms(2) obtain s1 where s1: "execute_all engine (mg_statements (MIGRATIONS ! k)) (schema_at k) = Some s1"
    and s': "s' = s1\<lparr>sc_history := sc_history s1 @ [(mg_version (MIGRATIONS ! k), mg_name (MIGRATIONS ! k))],
                     sc_user_version := mg_version (MIGRATIONS ! k)\<rparr>"
    by (auto simp: apply_one_def bind_eq_Some_conv split: if_splits)
  have "length MIGRATIONS = 4" by (simp add: MIGRATIONS_def)
  then have "take (Suc k) MIGRATIONS = take k MIGRATIONS @ [MIGRATIONS ! k]"
    using assms(1) by (simp add: take_Suc_conv_app_nth)
  moreover have "mg_version (MIGRATIONS ! k) = int (Suc k)"
    using assms(1) up_to_4 [of k] by (auto simp: MIGRATIONS_def numeral_eq_Suc)
  ultimately show ?thesis
    using execute_all_Some [OF s1] s' by (simp add: schema_at_def)
qed

lemma apply_one_accepts:
  assumes "k < 4" "list_all engine (mg_statements (MIGRATIONS ! k))"
  shows "apply_one engine (MIGRATIONS ! k) (schema_at k) = Some (schema_at (Suc k))"
proof -
  have "apply_one engine (MIGRATIONS ! k) (schema_at k) \<noteq> None"
    using assms up_to_4 [of k]
    by (auto simp: apply_one_def schema_at_def MIGRATIONS_def execute_ddl_def numeral_eq_Suc)
  with apply_one_Some [OF assms(1)] show ?thesis by (metis option.exhaust)
qed

lemma migration_versions: "k < 4 \<Longrightarrow> mg_version (MIGRATIONS ! k) = int (Suc k)"
  using up_to_4 [of k] by (auto simp: MIGRATIONS_def numeral_eq_Suc)

lemma drop_migrations: "k < 4 \<Longrightarrow> drop k MIGRATIONS = MIGRATIONS ! k # drop (Suc k) MIGRATIONS"
  using Cons_nth_drop_Suc [of k MIGRATIONS] by (simp add: number_of_migrations)

text \<open>The loop over the pending versions stops at the first one that fails.\<close>

definition accepted :: "(ddl \<Rightarrow> bool) \<Rightarrow> nat \<Rightarrow> bool" where
  "accepted engine k \<longleftrightarrow> list_all engine (mg_statements (MIGRATIONS ! k))"

fun applied_upto :: "(ddl \<Rightarrow> bool) \<Rightarrow> nat \<Rightarrow> nat \<Rightarrow> nat" where
  "applied_upto engine 0 k = k"
| "applied_upto engine (Suc n) k = (if accepted engine k then applied_upto engine n (Suc k) else k)"

lemma apply_pending_rest:
  assumes "k + n = 4" "\<forall>v \<in> set applied. v \<le> int k"
  shows "apply_pending engine applied (drop k MIGRATIONS) (schema_at k) =
    (let k' = applied_upto engine n k
     in (if k' = 4 then Inr () else Inl MigrationError, schema_at k'))"
  using assms
proof (induction n arbitrary: k)
  case 0
  then show ?case by (simp add: MIGRATIONS_def)
next
  case (Suc n)
  then have k: "k < 4" by simp
  then have new: "mg_version (MIGRATIONS ! k) \<notin> set applied"
    using Suc.prems by (auto simp: migration_versions)
  show ?case
  proof (cases "accepted engine k")
    case True
    have "\<forall>v \<in> set applied. v \<le> int (Suc k)" using Suc.prems(2) by fastforce
    with Suc.IH [of "Suc k"] Suc.prems(1) True new k show ?thesis
      by (simp add: drop_migrations apply_one_accepts accepted_def Let_def)
  next
    case False
    then have "apply_one engine (MIGRATIONS ! k) (schema_at k) = None"
      using apply_one_Some [OF k] by (cases "apply_one engine (MIGRATIONS ! k) (schema_at k)")
        (auto simp: accepted_def)
    with False new k show ?thesis by (simp add: drop_migrations Let_def)
  qed
qed

lemma apply_pending_skip:
  "set (map mg_version ms) \<subseteq> set applied \<Longrightarrow>
     apply_pending engine applied (ms @ ms') s = apply_pending engine applied ms' s"
  by (induction ms) auto

lemma applied_upto_bounds: "k \<le> applied_upto engine n k \<and> applied_upto engine n k \<le> k + n"
  by (induction n arbitrary: k) (auto, (metis Suc_leD le_trans add_Suc_right add_Suc)+)

lemma apply_migrations_at:
  assumes "k \<le> 4"
  shows "apply_migrations engine (schema_at k) =
    (let k' = applied_upto engine (4 - k) k
     in (if k' = 4 then Inr () else Inl MigrationError, schema_at k'))"
proof -
  have len: "length MIGRATIONS = 4" by (simp add: MIGRATIONS_def)
  have hist: "map fst (sc_history (schema_at k)) = map mg_version (take k MIGRATIONS)"
    by (simp add: schema_at_def comp_def)
  have "v \<le> int k" if "v \<in> set (map mg_version (take k MIGRATIONS))" for v
    using that assms len by (auto simp: in_set_conv_nth migration_versions)
  moreover have "MIGRATIONS = take k MIGRATIONS @ drop k MIGRATIONS" by simp
  ultimately show ?thesis
    unfolding apply_migrations_def check_history_prefix [OF assms] sum.case hist
    using apply_pending_skip [of "take k MIGRATIONS" "map mg_version (take k MIGRATIONS)" engine
        "drop k MIGRATIONS" "schema_at k"]
      apply_pending_rest [of k "4 - k" "map mg_version (take k MIGRATIONS)" engine] assms
    by simp
qed

end
