(* ===== verification/MigrationProperties.thy ===== *)
theory MigrationProperties
  imports Migrations
begin

text \<open>
  Properties of the schema migrations: what a run does to a database that earlier runs left behind,
  that an interrupted upgrade can be resumed, and which histories are refused.
\<close>

text \<open>Migrating a database that holds the first \<open>k\<close> versions stops at a later version boundary:
  it succeeds exactly when all four versions are applied, and otherwise the failed version has left
  no trace.\<close>

theorem migrations_stop_at_a_version:
  assumes "k \<le> 4"
  shows "\<exists>k'. k \<le> k' \<and> k' \<le> 4 \<and> snd (apply_migrations engine (schema_at k)) = schema_at k' \<and>
    (fst (apply_migrations engine (schema_at k)) = Inr () \<longleftrightarrow> k' = 4) \<and>
    (\<forall>j. k \<le> j \<and> j < k' \<longrightarrow> list_all engine (mg_statements (MIGRATIONS ! j))) \<and>
    (k' < 4 \<longrightarrow> \<not> list_all engine (mg_statements (MIGRATIONS ! k')))"
proof -
  have upto: "(\<forall>j. m \<le> j \<and> j < applied_upto engine n m \<longrightarrow> accepted engine j) \<and>
      (applied_upto engine n m < m + n \<longrightarrow> \<not> accepted engine (applied_upto engine n m))" for n m
  proof (induction n arbitrary: m)
    case (Suc n)
    show ?case
    proof (cases "accepted engine m")
      case True
      with Suc.IH [of "Suc m"] show ?thesis by (simp) (metis Suc_leI le_eq_less_or_eq)
    qed auto
  qed auto
  have "applied_upto engine (4 - k) k \<le> 4" "k \<le> applied_upto engine (4 - k) k"
    using applied_upto_bounds [of k engine "4 - k"] assms by auto
  with upto [of k "4 - k"] assms show ?thesis
    unfolding apply_migrations_at [OF assms] Let_def accepted_def
    by (intro exI [of _ "applied_upto engine (4 - k) k"]) simp
qed

theorem migrations_stop_at_a_version_witness:
  "\<exists>k'. k' \<le> 4 \<and> snd (apply_migrations (\<lambda>d. d \<noteq> CreateTable ''runs'') (schema_at 1)) = schema_at k'"
  using migrations_stop_at_a_version [of 1 "\<lambda>d. d \<noteq> CreateTable ''runs''"] by auto

lemma applied_upto_all: "applied_upto (\<lambda>_. True) n k = k + n"
  by (induction n arbitrary: k) (simp_all add: accepted_def list_all_iff)

text \<open>An upgrade can be resumed: whatever failed before, once the engine accepts the statements the
  next start reaches the latest version, and a start after that changes nothing.\<close>

theorem migrations_resume:
  assumes "k \<le> 4" "snd (apply_migrations engine (schema_at k)) = s"
  shows "apply_migrations (\<lambda>_. True) s = (Inr (), schema_at 4) \<and>
    apply_migrations engine' (schema_at 4) = (Inr (), schema_at 4) \<and>
    sc_user_version (schema_at 4) = LATEST_SCHEMA_VERSION"
proof -
  define k' where "k' = applied_upto engine (4 - k) k"
  have "s = schema_at k'" "k' \<le> 4"
    using assms applied_upto_bounds [of k engine "4 - k"]
    by (auto simp: k'_def apply_migrations_at Let_def)
  moreover have "sc_user_version (schema_at 4) = LATEST_SCHEMA_VERSION"
    by (simp add: schema_at_def LATEST_SCHEMA_VERSION_def MIGRATIONS_def)
  ultimately show ?thesis
    by (simp add: apply_migrations_at applied_upto_all Let_def)
qed

theorem migrations_resume_witness:
  "apply_migrations (\<lambda>_. True) (snd (apply_migrations (\<lambda>d. d \<noteq> CreateTable ''runs'') (schema_at 0))) =
     (Inr (), schema_at 4)"
  using migrations_resume [of 0 "\<lambda>d. d \<noteq> CreateTable ''runs''"] by simp

lemma known_versions:
  "map_of (map (\<lambda>m. (mg_version m, mg_name m)) MIGRATIONS) v = Some n \<longleftrightarrow>
     (\<exists>j < 4. v = int (Suc j) \<and> n = mg_name (MIGRATIONS ! j))"
proof -
  have "(\<exists>j < 4. P j) \<longleftrightarrow> P 0 \<or> P 1 \<or> P 2 \<or> P (3::nat)" for P
    by (auto simp: numeral_eq_Suc less_Suc_eq)
  then show ?thesis by (auto simp: MIGRATIONS_def split: if_splits)
qed

lemma history_at:
  assumes "k \<le> 4"
  shows "set (sc_history (schema_at k)) = (\<lambda>j. (int (Suc j), mg_name (MIGRATIONS ! j))) ` {..<k}"
proof -
  have "sc_history (schema_at k) = map (\<lambda>j. (int (Suc j), mg_name (MIGRATIONS ! j))) [0..<k]"
    using assms by (intro nth_equalityI) (simp_all add: schema_at_def number_of_migrations migration_versions)
  then show ?thesis by (simp add: atLeast_upt)
qed

lemma sorted_versions:
  assumes "fst ` set rows = {1..int k}" "k \<le> 4"
    "\<forall>x \<in> set rows. \<exists>j < 4. x = (int (Suc j), mg_name (MIGRATIONS ! j))"
  shows "set rows = set (sc_history (schema_at k))"
proof (intro set_eqI iffI)
  fix x assume x: "x \<in> set rows"
  then obtain j where j: "x = (int (Suc j), mg_name (MIGRATIONS ! j))" using assms(3) by blast
  have "fst x \<in> {1..int k}" using x assms(1) by blast
  then have "j < k" using j by simp
  with j assms(2) show "x \<in> set (sc_history (schema_at k))" by (auto simp: history_at)
next
  fix x assume "x \<in> set (sc_history (schema_at k))"
  then obtain j where j: "j < k" "x = (int (Suc j), mg_name (MIGRATIONS ! j))"
    using assms(2) by (auto simp: history_at)
  then have "int (Suc j) \<in> fst ` set rows" using assms(1) by simp
  then obtain y where y: "y \<in> set rows" "fst y = int (Suc j)" by auto
  then have "y = x" using assms(3) j by force
  with y show "x \<in> set rows" by simp
qed

lemma check_history_known:
  assumes "check_history rows = Inr u"
  shows "\<exists>k \<le> 4. set rows = set (sc_history (schema_at k))"
proof (cases "rows = []")
  case True
  then show ?thesis by (intro exI [of _ 0]) (simp add: schema_at_def)
next
  case False
  define top where "top = Max (set (map fst rows))"
  have latest: "LATEST_SCHEMA_VERSION = 4" by (simp add: LATEST_SCHEMA_VERSION_def MIGRATIONS_def)
  have "\<not> (rows \<noteq> [] \<and> 4 < top) \<and> \<not> (rows \<noteq> [] \<and> sort (map fst rows) \<noteq> [1..top]) \<and>
      list_all (\<lambda>(v, n). map_of (map (\<lambda>m. (mg_version m, mg_name m)) MIGRATIONS) v = Some n) rows"
    using assms unfolding check_history_def Let_def and_then_Ok require_Ok latest top_def by blast
  with False have max: "top \<le> 4" and sorted: "sort (map fst rows) = [1..top]"
    and names: "list_all (\<lambda>(v, n). map_of (map (\<lambda>m. (mg_version m, mg_name m)) MIGRATIONS) v = Some n) rows"
    by simp_all
  have vs: "fst ` set rows = {1..top}"
    using arg_cong [OF sorted, of set] by simp
  moreover have "fst (hd rows) \<in> fst ` set rows" using False by simp
  ultimately have pos: "1 \<le> top" by simp
  have "\<forall>x \<in> set rows. \<exists>j < 4. x = (int (Suc j), mg_name (MIGRATIONS ! j))"
    using names unfolding list_all_iff known_versions by (simp add: case_prod_unfold) (metis prod.collapse)
  then have "set rows = set (sc_history (schema_at (nat top)))"
    using vs max pos by (intro sorted_versions) simp_all
  then show ?thesis using max by (intro exI [of _ "nat top"]) simp
qed

text \<open>A database whose recorded history is not exactly the first versions, a gap, an unknown name or
  a version newer than the program, is refused with \<open>MigrationError\<close> and left unchanged.\<close>

theorem unknown_history_refused:
  assumes "\<forall>k \<le> 4. set (sc_history s) \<noteq> set (sc_history (schema_at k))"
  shows "apply_migrations engine s = (Inl MigrationError, s)"
proof (cases "check_history (sc_history s)")
  case (Inl e)
  moreover have "e = MigrationError"
    using Inl by (auto simp: check_history_def Let_def and_then_Raise require_Raise)
  ultimately show ?thesis by (simp add: apply_migrations_def)
next
  case (Inr u)
  with assms check_history_known show ?thesis by blast
qed

definition stray_history :: schema where
  "stray_history = empty_schema\<lparr>sc_history := [(2, ''runs-and-artifact-metadata'')]\<rparr>"

theorem unknown_history_refused_witness:
  "apply_migrations (\<lambda>_. True) stray_history = (Inl MigrationError, stray_history)"
proof (rule unknown_history_refused, intro allI impI notI)
  fix k :: nat assume "k \<le> 4" "set (sc_history stray_history) = set (sc_history (schema_at k))"
  then have eq: "{(2, ''runs-and-artifact-metadata'')} =
      (\<lambda>j. (int (Suc j), mg_name (MIGRATIONS ! j))) ` {..<k}"
    by (simp add: stray_history_def history_at)
  then have "0 < k" by (cases k) simp_all
  then have "(1, mg_name (MIGRATIONS ! 0)) \<in> {(2 :: int, ''runs-and-artifact-metadata'')}"
    unfolding eq by (intro image_eqI [of _ _ 0]) simp_all
  then show False by simp
qed

end
