(* ===== verification/Config.thy ===== *)
theory Config
  imports Validation Paths
begin

text \<open>
  \<open>config/models.py\<close>: the registries, their field validators and the cross-registry check of
  \<open>ConfigBundle\<close>. A dictionary is the list of its entries in insertion order; its keys are distinct,
  which the YAML loader enforces. \<open>urlsplit\<close> of the standard library is written out for what
  \<open>validate_repository\<close> reads of it (the check of IPv6 literals inside brackets is left out).
\<close>

section \<open>Errors\<close>

datatype config_error =
    BadField
  | NotUnique
  | UnsafePath
  | PushWithoutCommit
  | MergeWithoutPush
  | PlatformWithProject
  | ProductWithoutProject
  | RepositoryControl
  | RepositoryScheme
  | RepositoryCredentials
  | InvalidUrl
  | UnsafeBranch

datatype relationship_error =
    AgentUnknownTeam string string
  | AgentNotListed string string
  | AgentUnknownProfile string string
  | TeamUnknownAgent string string
  | TeamListsForeignAgent string string string
  | TeamUnknownProject string string
  | TeamProjectNotReciprocal string string
  | ProjectUnknownTeam string string
  | ProjectNotProduct string
  | ProjectTeamNotReciprocal string string
  | ProjectOutsideWorkspace string
  | SharedWorkspace string string
  | SharedRoom string string string

section \<open>Enumerations and constrained strings\<close>

datatype environment = Local | Development | Test | Production
datatype runtime_kind = Disabled | Codex
datatype team_type = Platform | Product
datatype working_directory_policy = ProjectWorkspace | ReadOnly
datatype capability = Read | Write | Execute | Git | Network | Deploy | Admin

definition DisplayName :: constraint where
  "DisplayName = \<lparr>min_len = 1, max_len = 120, pattern = (\<lambda>_. True)\<rparr>"

definition ModelName :: constraint where
  "ModelName = \<lparr>min_len = 1, max_len = 120, pattern = (\<lambda>_. True)\<rparr>"

text \<open>\<open>^[A-Za-z0-9][A-Za-z0-9._/-]*$\<close>.\<close>

fun branch_pattern :: "string \<Rightarrow> bool" where
  "branch_pattern [] \<longleftrightarrow> False"
| "branch_pattern (c # cs) \<longleftrightarrow>
     is_alnum c \<and>
     list_all (\<lambda>d. is_alnum d \<or> d \<in> {CHR ''.'', CHR ''_'', CHR ''/'', CHR ''-''}) cs"

definition GitBranchName :: constraint where
  "GitBranchName = \<lparr>min_len = 1, max_len = 120, pattern = branch_pattern\<rparr>"

definition config_field :: "value_error + 'a \<Rightarrow> config_error + 'a" where
  "config_field r = map_error (\<lambda>_. BadField) r"

definition validate_unique :: "'a list \<Rightarrow> config_error + 'a list" where
  "validate_unique items = (if distinct items then Inr items else Inl NotUnique)"

text \<open>\<open>_validate_relative_path\<close>: the check of \<open>Paths\<close>, and no drive prefix like \<open>c:\<close>.\<close>

definition drive_prefix :: "string \<Rightarrow> bool" where
  "drive_prefix value \<longleftrightarrow>
     (case path_parts value of [] \<Rightarrow> False | p # _ \<Rightarrow> endswith '':'' p \<and> length p = 2)"

definition validate_relative_path :: "string \<Rightarrow> config_error + string" where
  "validate_relative_path value =
     (if drive_prefix value then Inl UnsafePath
      else case safe_relative_path value of None \<Rightarrow> Inl UnsafePath | Some p \<Rightarrow> Inr p)"

section \<open>Settings\<close>

record git_policy =
  auto_commit :: bool
  auto_push :: bool
  auto_merge :: bool
  allow_force_push :: bool

definition GitSafetyPolicy_validate :: "git_policy \<Rightarrow> config_error + git_policy" where
  "GitSafetyPolicy_validate g =
     and_then (require (\<not> allow_force_push g) BadField) (\<lambda>_.
     and_then (require (\<not> (auto_push g \<and> \<not> auto_commit g)) PushWithoutCommit) (\<lambda>_.
     and_then (require (\<not> (auto_merge g \<and> \<not> auto_push g)) MergeWithoutPush) (\<lambda>_.
     Inr g)))"

record settings =
  set_instance_name :: string
  set_environment :: environment
  set_timezone :: string
  set_workspace_root :: string
  set_max_concurrent :: int
  set_default_runtime :: runtime_kind
  set_git :: git_policy

definition Settings_validate :: "settings \<Rightarrow> config_error + settings" where
  "Settings_validate s =
     and_then (config_field (checked DisplayName (set_instance_name s))) (\<lambda>name.
     and_then (config_field (checked DisplayName (set_timezone s))) (\<lambda>tz.
     and_then (validate_relative_path (set_workspace_root s)) (\<lambda>root.
     and_then (require (1 \<le> set_max_concurrent s \<and> set_max_concurrent s \<le> 16) BadField) (\<lambda>_.
     and_then (GitSafetyPolicy_validate (set_git s)) (\<lambda>git.
     Inr (s\<lparr>set_instance_name := name, set_timezone := tz, set_workspace_root := root,
            set_git := git\<rparr>))))))"

section \<open>Agents and teams\<close>

record agent =
  ag_role :: string
  ag_team :: string
  ag_runtime :: runtime_kind
  ag_enabled :: bool
  ag_profile :: string
  ag_directory :: working_directory_policy
  ag_model :: "string option"
  ag_skills :: "string list"
  ag_tools :: "string list"
  ag_max_concurrency :: int

definition AgentDefinition_validate :: "agent \<Rightarrow> config_error + agent" where
  "AgentDefinition_validate a =
     and_then (config_field (checked Identifier (ag_role a))) (\<lambda>role.
     and_then (config_field (checked Identifier (ag_team a))) (\<lambda>team.
     and_then (config_field (checked Identifier (ag_profile a))) (\<lambda>profile.
     and_then (config_field (checked_opt ModelName (ag_model a))) (\<lambda>model.
     and_then (config_field (traverse (checked Identifier) (ag_skills a))) (\<lambda>raw_skills.
     and_then (validate_unique raw_skills) (\<lambda>skills.
     and_then (config_field (traverse (checked Identifier) (ag_tools a))) (\<lambda>raw_tools.
     and_then (validate_unique raw_tools) (\<lambda>tools.
     and_then (require (1 \<le> ag_max_concurrency a \<and> ag_max_concurrency a \<le> 8) BadField) (\<lambda>_.
     Inr (a\<lparr>ag_role := role, ag_team := team, ag_profile := profile, ag_model := model,
            ag_skills := skills, ag_tools := tools\<rparr>))))))))))"

record team =
  tm_type :: team_type
  tm_display_name :: string
  tm_room :: string
  tm_agents :: "string list"
  tm_project :: "string option"

definition TeamDefinition_validate :: "team \<Rightarrow> config_error + team" where
  "TeamDefinition_validate t =
     and_then (config_field (checked DisplayName (tm_display_name t))) (\<lambda>name.
     and_then (config_field (checked Identifier (tm_room t))) (\<lambda>room.
     and_then (config_field (traverse (checked Identifier) (tm_agents t))) (\<lambda>raw.
     and_then (require (raw \<noteq> []) BadField) (\<lambda>_.
     and_then (validate_unique raw) (\<lambda>agents.
     and_then (config_field (checked_opt Identifier (tm_project t))) (\<lambda>proj.
     and_then (require (\<not> (tm_type t = Platform \<and> proj \<noteq> None)) PlatformWithProject) (\<lambda>_.
     and_then (require (\<not> (tm_type t = Product \<and> proj = None)) ProductWithoutProject) (\<lambda>_.
     Inr (t\<lparr>tm_display_name := name, tm_room := room, tm_agents := agents, tm_project := proj\<rparr>)))))))))"

section \<open>Projects\<close>

record url =
  url_scheme :: string
  url_netloc :: string
  url_query :: string
  url_fragment :: string

text \<open>\<open>s.partition(sep)\<close> for a one-character separator: the text before it, and after it if it occurs.\<close>

definition partition_at :: "char \<Rightarrow> string \<Rightarrow> string \<times> string option" where
  "partition_at sep s =
     (let before = takeWhile (\<lambda>c. c \<noteq> sep) s; rest = dropWhile (\<lambda>c. c \<noteq> sep) s
      in (before, if rest = [] then None else Some (tl rest)))"

definition is_scheme_char :: "char \<Rightarrow> bool" where
  "is_scheme_char c \<longleftrightarrow> is_alnum c \<or> c \<in> {CHR ''+'', CHR ''-'', CHR ''.''}"

definition split_scheme :: "string \<Rightarrow> string \<times> string" where
  "split_scheme u =
     (case partition_at (CHR '':'') u of
        (scheme, Some rest) \<Rightarrow>
          if scheme \<noteq> [] \<and> (is_lower (hd scheme) \<or> is_upper (hd scheme)) \<and> list_all is_scheme_char scheme
          then (lower scheme, rest) else ([], u)
      | (_, None) \<Rightarrow> ([], u))"

definition urlsplit :: "string \<Rightarrow> url option" where
  "urlsplit value =
     (let u = filter (\<lambda>c. c \<noteq> CHR 0x09) (dropWhile (\<lambda>c. c \<le> CHR 0x20) value);
          (scheme, rest) = split_scheme u;
          netloc = (if startswith ''//'' rest
                    then takeWhile (\<lambda>c. c \<notin> {CHR ''/'', CHR ''?'', CHR ''#''}) (drop 2 rest) else []);
          path = (if startswith ''//'' rest
                  then dropWhile (\<lambda>c. c \<notin> {CHR ''/'', CHR ''?'', CHR ''#''}) (drop 2 rest) else rest);
          (before_fragment, fragment) = partition_at (CHR ''#'') path;
          (_, query) = partition_at (CHR ''?'') before_fragment
      in if (CHR ''['' \<in> set netloc) \<noteq> (CHR '']'' \<in> set netloc) then None
         else Some \<lparr>url_scheme = scheme, url_netloc = netloc,
                    url_query = (case query of None \<Rightarrow> [] | Some q \<Rightarrow> q),
                    url_fragment = (case fragment of None \<Rightarrow> [] | Some f \<Rightarrow> f)\<rparr>)"

text \<open>The userinfo is what stands before the last \<open>@\<close> of the netloc.\<close>

definition userinfo :: "url \<Rightarrow> string option" where
  "userinfo u =
     (case partition_at (CHR ''@'') (rev (url_netloc u)) of
        (_, None) \<Rightarrow> None | (_, Some rest) \<Rightarrow> Some (rev rest))"

definition url_username :: "url \<Rightarrow> string option" where
  "url_username u = map_option (\<lambda>info. fst (partition_at (CHR '':'') info)) (userinfo u)"

definition url_password :: "url \<Rightarrow> string option" where
  "url_password u = Option.bind (userinfo u) (\<lambda>info. snd (partition_at (CHR '':'') info))"

text \<open>Python's truth value of an optional string.\<close>

definition truthy :: "string option \<Rightarrow> bool" where
  "truthy s \<longleftrightarrow> (case s of None \<Rightarrow> False | Some v \<Rightarrow> v \<noteq> [])"

definition secret_markers :: "string list" where
  "secret_markers = [''token='', ''password='', ''api_key='', ''apikey='']"

definition validate_repository :: "string \<Rightarrow> config_error + string" where
  "validate_repository value =
     and_then (require (list_all (\<lambda>c. c \<notin> {CHR 0x0A, CHR 0x0D, CHR 0x00}) value) RepositoryControl) (\<lambda>_.
     and_then
       (if contains ''://'' value then
          (case urlsplit value of
             None \<Rightarrow> Inl InvalidUrl
           | Some parsed \<Rightarrow>
               and_then (require (url_scheme parsed \<in> {''https'', ''ssh'', ''git'', ''file''})
                 RepositoryScheme) (\<lambda>_.
               and_then (require (\<not> (url_query parsed \<noteq> [] \<or> url_fragment parsed \<noteq> [] \<or>
                   truthy (url_password parsed))) RepositoryCredentials) (\<lambda>_.
               require (\<not> (url_scheme parsed = ''https'' \<and> truthy (url_username parsed)))
                 RepositoryCredentials)))
        else Inr ()) (\<lambda>_.
     and_then (require (\<not> list_ex (\<lambda>marker. contains marker (lower value)) secret_markers)
       RepositoryCredentials) (\<lambda>_.
     Inr value)))"

definition unsafe_branch :: "string \<Rightarrow> bool" where
  "unsafe_branch value \<longleftrightarrow>
     contains ''..'' value \<or> contains [CHR ''@'', CHR 0x7B] value \<or> contains ''//'' value \<or>
     endswith ''/'' value \<or> endswith ''.'' value \<or> endswith ''.lock'' value \<or>
     list_ex (\<lambda>part. startswith ''.'' part \<or> endswith ''.'' part) (split_on (CHR ''/'') value)"

definition validate_base_branch :: "string option \<Rightarrow> config_error + string option" where
  "validate_base_branch value =
     (case value of
        None \<Rightarrow> Inr None
      | Some v \<Rightarrow> if unsafe_branch v then Inl UnsafeBranch else Inr (Some v))"

definition Repository :: constraint where
  "Repository = \<lparr>min_len = 1, max_len = 500, pattern = (\<lambda>_. True)\<rparr>"

record project =
  pd_display_name :: string
  pd_repository :: string
  pd_workspace :: string
  pd_team :: string
  pd_base_branch :: "string option"

definition ProjectDefinition_validate :: "project \<Rightarrow> config_error + project" where
  "ProjectDefinition_validate p =
     and_then (config_field (checked DisplayName (pd_display_name p))) (\<lambda>name.
     and_then (config_field (checked Repository (pd_repository p))) (\<lambda>raw.
     and_then (validate_repository raw) (\<lambda>repo.
     and_then (validate_relative_path (pd_workspace p)) (\<lambda>workspace.
     and_then (config_field (checked Identifier (pd_team p))) (\<lambda>team.
     and_then (config_field (checked_opt GitBranchName (pd_base_branch p))) (\<lambda>raw_branch.
     and_then (validate_base_branch raw_branch) (\<lambda>branch.
     Inr (p\<lparr>pd_display_name := name, pd_repository := repo, pd_workspace := workspace, pd_team := team,
            pd_base_branch := branch\<rparr>))))))))"

section \<open>The bundle\<close>

type_synonym 'v registry = "(string \<times> 'v) list"

definition validate_permission_profiles ::
  "capability list registry \<Rightarrow> config_error + capability list registry" where
  "validate_permission_profiles value =
     traverse (\<lambda>kv. and_then (require (snd kv \<noteq> []) BadField) (\<lambda>_.
       and_then (validate_unique (snd kv)) (\<lambda>_. Inr kv))) value"

record config_bundle =
  cb_settings :: settings
  cb_agents :: "agent registry"
  cb_teams :: "team registry"
  cb_projects :: "project registry"
  cb_permissions :: "capability list registry"

text \<open>The loops of \<open>validate_relationships\<close>, each giving the errors it appends.\<close>

definition agent_errors :: "config_bundle \<Rightarrow> string \<times> agent \<Rightarrow> relationship_error list" where
  "agent_errors b entry =
     (case entry of (agent_id, a) \<Rightarrow>
       (case map_of (cb_teams b) (ag_team a) of
          None \<Rightarrow> [AgentUnknownTeam agent_id (ag_team a)]
        | Some t \<Rightarrow> if agent_id \<notin> set (tm_agents t) then [AgentNotListed agent_id (ag_team a)] else []) @
       (if map_of (cb_permissions b) (ag_profile a) = None
        then [AgentUnknownProfile agent_id (ag_profile a)] else []))"

definition listed_agent_errors :: "config_bundle \<Rightarrow> string \<Rightarrow> string \<Rightarrow> relationship_error list" where
  "listed_agent_errors b team_id agent_id =
     (case map_of (cb_agents b) agent_id of
        None \<Rightarrow> [TeamUnknownAgent team_id agent_id]
      | Some a \<Rightarrow> if ag_team a \<noteq> team_id then [TeamListsForeignAgent team_id agent_id (ag_team a)] else [])"

definition team_errors :: "config_bundle \<Rightarrow> string \<times> team \<Rightarrow> relationship_error list" where
  "team_errors b entry =
     (case entry of (team_id, t) \<Rightarrow>
       concat (map (listed_agent_errors b team_id) (tm_agents t)) @
       (case (tm_type t, tm_project t) of
          (Product, Some project_id) \<Rightarrow>
            (case map_of (cb_projects b) project_id of
               None \<Rightarrow> [TeamUnknownProject team_id project_id]
             | Some p \<Rightarrow> if pd_team p \<noteq> team_id then [TeamProjectNotReciprocal team_id project_id] else [])
        | _ \<Rightarrow> []))"

definition project_team_errors :: "config_bundle \<Rightarrow> string \<times> project \<Rightarrow> relationship_error list" where
  "project_team_errors b entry =
     (case entry of (project_id, p) \<Rightarrow>
       (case map_of (cb_teams b) (pd_team p) of
          None \<Rightarrow> [ProjectUnknownTeam project_id (pd_team p)]
        | Some t \<Rightarrow>
            if tm_type t \<noteq> Product then [ProjectNotProduct project_id]
            else if tm_project t \<noteq> Some project_id then [ProjectTeamNotReciprocal project_id (pd_team p)]
            else []))"

text \<open>Paths are compared part by part; \<open>workspace\<close> is under the prefix when the prefix's parts begin its own.\<close>

definition project_prefix :: "config_bundle \<Rightarrow> string list" where
  "project_prefix b = path_parts (set_workspace_root (cb_settings b)) @ [''projects'']"

definition outside_workspace :: "config_bundle \<Rightarrow> project \<Rightarrow> bool" where
  "outside_workspace b p \<longleftrightarrow>
     path_parts (pd_workspace p) = project_prefix b \<or>
     take (length (project_prefix b)) (path_parts (pd_workspace p)) \<noteq> project_prefix b"

text \<open>\<open>seen\<close> is the dictionary \<open>project_workspaces\<close>.\<close>

fun project_errors ::
  "config_bundle \<Rightarrow> (string list \<Rightarrow> string option) \<Rightarrow> (string \<times> project) list \<Rightarrow> relationship_error list" where
  "project_errors b seen [] = []"
| "project_errors b seen ((project_id, p) # entries) =
     project_team_errors b (project_id, p) @
     (if outside_workspace b p then [ProjectOutsideWorkspace project_id] else []) @
     (if truthy (seen (path_parts (pd_workspace p)))
      then [SharedWorkspace (the (seen (path_parts (pd_workspace p)))) project_id] else []) @
     project_errors b (seen(path_parts (pd_workspace p) \<mapsto> project_id)) entries"

fun room_errors :: "(string \<Rightarrow> string option) \<Rightarrow> (string \<times> team) list \<Rightarrow> relationship_error list" where
  "room_errors rooms [] = []"
| "room_errors rooms ((team_id, t) # entries) =
     (if truthy (rooms (tm_room t)) then [SharedRoom (the (rooms (tm_room t))) team_id (tm_room t)] else []) @
     room_errors (rooms(tm_room t \<mapsto> team_id)) entries"

definition relationship_errors :: "config_bundle \<Rightarrow> relationship_error list" where
  "relationship_errors b =
     concat (map (agent_errors b) (cb_agents b)) @ concat (map (team_errors b) (cb_teams b)) @
     project_errors b (\<lambda>_. None) (cb_projects b) @ room_errors (\<lambda>_. None) (cb_teams b)"

definition validate_relationships :: "config_bundle \<Rightarrow> relationship_error list + config_bundle" where
  "validate_relationships b =
     (if relationship_errors b = [] then Inr b else Inl (relationship_errors b))"

section \<open>What a valid bundle satisfies\<close>

definition registry_keys_ok :: "config_bundle \<Rightarrow> bool" where
  "registry_keys_ok b \<longleftrightarrow>
     distinct (map fst (cb_agents b)) \<and> distinct (map fst (cb_teams b)) \<and>
     distinct (map fst (cb_projects b)) \<and> distinct (map fst (cb_permissions b)) \<and>
     (\<forall>k \<in> set (map fst (cb_projects b)) \<union> set (map fst (cb_teams b)). k \<noteq> [])"

lemma truthy_key: "(\<forall>k. s = Some k \<longrightarrow> k \<noteq> []) \<Longrightarrow> truthy s \<longleftrightarrow> s \<noteq> None"
  by (cases s) (auto simp: truthy_def)

lemma room_errors_Nil:
  assumes "\<forall>e \<in> set entries. fst e \<noteq> []" "\<forall>r k. rooms r = Some k \<longrightarrow> k \<noteq> []"
  shows "room_errors rooms entries = [] \<longleftrightarrow>
    distinct (map (\<lambda>e. tm_room (snd e)) entries) \<and> (\<forall>e \<in> set entries. rooms (tm_room (snd e)) = None)"
  using assms
proof (induction entries arbitrary: rooms)
  case (Cons e es)
  obtain k t where e: "e = (k, t)" by (cases e) auto
  have ih: "room_errors (rooms(tm_room t \<mapsto> k)) es = [] \<longleftrightarrow>
      distinct (map (\<lambda>e. tm_room (snd e)) es) \<and>
      (\<forall>e \<in> set es. (rooms(tm_room t \<mapsto> k)) (tm_room (snd e)) = None)"
    using Cons.prems e by (intro Cons.IH) auto
  have "truthy (rooms (tm_room t)) \<longleftrightarrow> rooms (tm_room t) \<noteq> None"
    using Cons.prems(2) by (intro truthy_key) blast
  then show ?case
    unfolding e room_errors.simps append_is_Nil_conv ih by (auto split: if_splits) (force simp: image_iff)
qed simp

lemma project_errors_Nil:
  assumes "\<forall>e \<in> set entries. fst e \<noteq> []" "\<forall>w k. seen w = Some k \<longrightarrow> k \<noteq> []"
  shows "project_errors b seen entries = [] \<longleftrightarrow>
    (\<forall>e \<in> set entries. project_team_errors b e = [] \<and> \<not> outside_workspace b (snd e)) \<and>
    distinct (map (\<lambda>e. path_parts (pd_workspace (snd e))) entries) \<and>
    (\<forall>e \<in> set entries. seen (path_parts (pd_workspace (snd e))) = None)"
  using assms
proof (induction entries arbitrary: seen)
  case (Cons e es)
  obtain k p where e: "e = (k, p)" by (cases e) auto
  have ih: "project_errors b (seen(path_parts (pd_workspace p) \<mapsto> k)) es = [] \<longleftrightarrow>
      (\<forall>e \<in> set es. project_team_errors b e = [] \<and> \<not> outside_workspace b (snd e)) \<and>
      distinct (map (\<lambda>e. path_parts (pd_workspace (snd e))) es) \<and>
      (\<forall>e \<in> set es. (seen(path_parts (pd_workspace p) \<mapsto> k)) (path_parts (pd_workspace (snd e))) = None)"
    using Cons.prems e by (intro Cons.IH) auto
  have "truthy (seen (path_parts (pd_workspace p))) \<longleftrightarrow> seen (path_parts (pd_workspace p)) \<noteq> None"
    using Cons.prems(2) by (intro truthy_key) blast
  then show ?case
    unfolding e project_errors.simps append_is_Nil_conv ih by (auto split: if_splits) (force simp: image_iff)
qed simp

text \<open>The declarative reading of the check.\<close>

definition agent_related :: "config_bundle \<Rightarrow> string \<times> agent \<Rightarrow> bool" where
  "agent_related b e \<longleftrightarrow>
     (\<exists>t. map_of (cb_teams b) (ag_team (snd e)) = Some t \<and> fst e \<in> set (tm_agents t)) \<and>
     map_of (cb_permissions b) (ag_profile (snd e)) \<noteq> None"

definition team_related :: "config_bundle \<Rightarrow> string \<times> team \<Rightarrow> bool" where
  "team_related b e \<longleftrightarrow>
     (\<forall>i \<in> set (tm_agents (snd e)). \<exists>a. map_of (cb_agents b) i = Some a \<and> ag_team a = fst e) \<and>
     (tm_type (snd e) = Product \<longrightarrow>
        opt_all (\<lambda>i. \<exists>p. map_of (cb_projects b) i = Some p \<and> pd_team p = fst e) (tm_project (snd e)))"

definition project_related :: "config_bundle \<Rightarrow> string \<times> project \<Rightarrow> bool" where
  "project_related b e \<longleftrightarrow>
     (\<exists>t. map_of (cb_teams b) (pd_team (snd e)) = Some t \<and> tm_type t = Product \<and>
          tm_project t = Some (fst e)) \<and>
     \<not> outside_workspace b (snd e)"

definition related :: "config_bundle \<Rightarrow> bool" where
  "related b \<longleftrightarrow>
     list_all (agent_related b) (cb_agents b) \<and> list_all (team_related b) (cb_teams b) \<and>
     list_all (project_related b) (cb_projects b) \<and>
     distinct (map (\<lambda>e. path_parts (pd_workspace (snd e))) (cb_projects b)) \<and>
     distinct (map (\<lambda>e. tm_room (snd e)) (cb_teams b))"

lemma agent_errors_Nil: "agent_errors b e = [] \<longleftrightarrow> agent_related b e"
  by (cases e) (auto simp: agent_errors_def agent_related_def split: option.splits)

lemma listed_agent_errors_Nil:
  "listed_agent_errors b team_id i = [] \<longleftrightarrow>
     (\<exists>a. map_of (cb_agents b) i = Some a \<and> ag_team a = team_id)"
  by (auto simp: listed_agent_errors_def split: option.splits)

lemma team_errors_Nil: "team_errors b e = [] \<longleftrightarrow> team_related b e"
  by (cases e; cases "tm_type (snd e)"; cases "tm_project (snd e)")
    (auto simp: team_errors_def team_related_def listed_agent_errors_Nil split: option.splits)

lemma project_team_errors_Nil:
  "project_team_errors b e = [] \<and> \<not> outside_workspace b (snd e) \<longleftrightarrow> project_related b e"
  by (cases e) (auto simp: project_team_errors_def project_related_def split: option.splits)

lemma validate_relationships_iff:
  assumes "registry_keys_ok b"
  shows "validate_relationships b = Inr b' \<longleftrightarrow> b' = b \<and> related b"
proof -
  have "room_errors (\<lambda>_. None) (cb_teams b) = [] \<longleftrightarrow> distinct (map (\<lambda>e. tm_room (snd e)) (cb_teams b))"
    using assms by (subst room_errors_Nil) (auto simp: registry_keys_ok_def)
  moreover have "project_errors b (\<lambda>_. None) (cb_projects b) = [] \<longleftrightarrow>
      (\<forall>e \<in> set (cb_projects b). project_related b e) \<and>
      distinct (map (\<lambda>e. path_parts (pd_workspace (snd e))) (cb_projects b))"
    using assms
    by (subst project_errors_Nil) (auto simp: registry_keys_ok_def project_team_errors_Nil)
  ultimately show ?thesis
    by (auto simp: validate_relationships_def relationship_errors_def related_def list_all_iff
        agent_errors_Nil team_errors_Nil)
qed

end
