(* ===== verification/Selection.thy ===== *)
theory Selection
  imports Config Tasks
begin

text \<open>
  \<open>orchestrator/selection.py\<close>: the one enabled Codex developer of a product team. The subscripts
  \<open>agents[agent_id]\<close> and \<open>permissions[profile]\<close> raise \<open>KeyError\<close> in Python; in a validated bundle
  they cannot.
\<close>

datatype selection_error =
  NotProductTeam | NotReciprocal | NoDeveloper | SeveralDevelopers "string list" | KeyError string

record selection =
  sl_agent :: string
  sl_definition :: agent

definition required_capabilities :: "capability set" where
  "required_capabilities = {Read, Write, Execute, Git}"

definition prohibited_capabilities :: "capability set" where
  "prohibited_capabilities = {Network, Deploy, Admin}"

definition eligible :: "agent \<Rightarrow> capability list \<Rightarrow> bool" where
  "eligible a capabilities \<longleftrightarrow>
     ag_enabled a \<and> ag_role a = ''developer'' \<and> ag_runtime a = Codex \<and>
     ag_directory a = ProjectWorkspace \<and> required_capabilities \<subseteq> set capabilities \<and>
     set capabilities \<inter> prohibited_capabilities = {}"

text \<open>One iteration of the loop over \<open>sorted(team.agents)\<close>.\<close>

definition candidate :: "config_bundle \<Rightarrow> string \<Rightarrow> selection_error + selection list" where
  "candidate b agent_id =
     (case map_of (cb_agents b) agent_id of
        None \<Rightarrow> Inl (KeyError agent_id)
      | Some a \<Rightarrow>
          (case map_of (cb_permissions b) (ag_profile a) of
             None \<Rightarrow> Inl (KeyError (ag_profile a))
           | Some capabilities \<Rightarrow>
               Inr (if eligible a capabilities then [\<lparr>sl_agent = agent_id, sl_definition = a\<rparr>] else [])))"

definition select_developer :: "config_bundle \<Rightarrow> task \<Rightarrow> selection_error + selection" where
  "select_developer b t =
     (case map_of (cb_teams b) (t_team t) of
        None \<Rightarrow> Inl NotProductTeam
      | Some tm \<Rightarrow>
          and_then (require (tm_type tm = Product) NotProductTeam) (\<lambda>_.
          case map_of (cb_projects b) (t_project t) of
            None \<Rightarrow> Inl NotReciprocal
          | Some p \<Rightarrow>
              and_then (require (pd_team p = t_team t \<and> tm_project tm = Some (t_project t)) NotReciprocal) (\<lambda>_.
              and_then (traverse (candidate b) (sort (tm_agents tm))) (\<lambda>found.
              case concat found of
                [] \<Rightarrow> Inl NoDeveloper
              | [c] \<Rightarrow> Inr c
              | cs \<Rightarrow> Inl (SeveralDevelopers (map sl_agent cs))))))"

section \<open>Selection in a validated bundle\<close>

definition eligible_in :: "config_bundle \<Rightarrow> string \<Rightarrow> bool" where
  "eligible_in b i \<longleftrightarrow>
     (\<exists>a caps. map_of (cb_agents b) i = Some a \<and> map_of (cb_permissions b) (ag_profile a) = Some caps \<and>
        eligible a caps)"

lemma related_lookups:
  assumes "related b" "map_of (cb_teams b) k = Some tm" "i \<in> set (tm_agents tm)"
  shows "\<exists>a caps. map_of (cb_agents b) i = Some a \<and> ag_team a = k \<and>
    map_of (cb_permissions b) (ag_profile a) = Some caps"
proof -
  have "team_related b (k, tm)"
    using assms(1) map_of_SomeD [OF assms(2)] by (simp add: related_def list_all_iff)
  then obtain a where a: "map_of (cb_agents b) i = Some a" "ag_team a = k"
    using assms(3) by (auto simp: team_related_def)
  have "agent_related b (i, a)"
    using assms(1) map_of_SomeD [OF a(1)] by (simp add: related_def list_all_iff)
  then show ?thesis using a by (auto simp: agent_related_def)
qed

lemma candidate_related:
  assumes "related b" "map_of (cb_teams b) k = Some tm" "i \<in> set (tm_agents tm)"
  shows "candidate b i = Inr (if eligible_in b i
    then [\<lparr>sl_agent = i, sl_definition = the (map_of (cb_agents b) i)\<rparr>] else [])"
  using related_lookups [OF assms] by (auto simp: candidate_def eligible_in_def)

lemma candidates_related:
  assumes "related b" "map_of (cb_teams b) k = Some tm" "set is \<subseteq> set (tm_agents tm)"
  shows "\<exists>found. traverse (candidate b) is = Inr found \<and>
    concat found = map (\<lambda>i. \<lparr>sl_agent = i, sl_definition = the (map_of (cb_agents b) i)\<rparr>)
      (filter (eligible_in b) is)"
  using assms(3)
proof (induction "is")
  case (Cons i "is")
  then show ?case using candidate_related [OF assms(1,2), of i] by auto
qed simp

definition developers :: "config_bundle \<Rightarrow> team \<Rightarrow> string list" where
  "developers b tm = filter (eligible_in b) (sort (tm_agents tm))"

text \<open>Every outcome in a validated bundle; no lookup fails.\<close>

lemma select_developer_cases:
  assumes "related b"
  shows "select_developer b t =
    (case map_of (cb_teams b) (t_team t) of
       None \<Rightarrow> Inl NotProductTeam
     | Some tm \<Rightarrow>
         if tm_type tm \<noteq> Product then Inl NotProductTeam
         else if tm_project tm \<noteq> Some (t_project t) then Inl NotReciprocal
         else (case developers b tm of
             [] \<Rightarrow> Inl NoDeveloper
           | [i] \<Rightarrow> Inr \<lparr>sl_agent = i, sl_definition = the (map_of (cb_agents b) i)\<rparr>
           | is \<Rightarrow> Inl (SeveralDevelopers is)))"
proof (cases "map_of (cb_teams b) (t_team t)")
  case None
  then show ?thesis by (simp add: select_developer_def)
next
  case (Some tm)
  have tm: "team_related b (t_team t, tm)"
    using assms map_of_SomeD [OF Some] by (simp add: related_def list_all_iff)
  let ?sel = "\<lambda>i. \<lparr>sl_agent = i, sl_definition = the (map_of (cb_agents b) i)\<rparr>"
  obtain found where found: "traverse (candidate b) (sort (tm_agents tm)) = Inr found"
    "concat found = map ?sel (developers b tm)"
    using candidates_related [OF assms Some, of "sort (tm_agents tm)"] by (auto simp: developers_def)
  have ids: "map (sl_agent \<circ> ?sel) js = js" for js by (simp add: comp_def)
  show ?thesis
  proof (cases "tm_type tm = Product \<and> tm_project tm = Some (t_project t)")
    case True
    then obtain p where p: "map_of (cb_projects b) (t_project t) = Some p" "pd_team p = t_team t"
      using tm by (auto simp: team_related_def)
    show ?thesis
      using True Some p found
      by (cases "developers b tm" rule: list.exhaust; cases "tl (developers b tm)")
        (auto simp: select_developer_def comp_def simp del: concat_eq_Nil_conv)
  next
    case False
    then show ?thesis
      using Some by (auto simp: select_developer_def split: option.splits)
  qed
qed

end
