(* ===== verification/Gateway.thy ===== *)
theory Gateway
  imports GatewayModels "HOL-Library.Word"
begin

text \<open>
  \<open>gateway/service.py\<close>, \<open>gateway/ports.py\<close> and the authorizer of \<open>gateway/security.py\<close>: the gateway
  over its ports. A port call acts on the state \<open>'s\<close> of everything outside and may raise: one of the
  port errors, another \<open>Exception\<close>, or something that is not an \<open>Exception\<close> (a cancellation), which
  \<open>except Exception\<close> lets through. \<open>gw_sensitive\<close> is \<open>contains_sensitive_material\<close>.
\<close>

section \<open>Ports\<close>

datatype port_error =
    TaskNotFoundError
  | TaskConflictError
  | DependencyUnavailableError
  | OtherException
  | Interruption

type_synonym ('s, 'a) port = "('s, port_error, 'a) act"

record 's gateway =
  gw_authorize :: "string \<Rightarrow> gateway_command \<Rightarrow> string option \<Rightarrow> ('s, bool) port"
  gw_create :: "create_command \<Rightarrow> ('s, task_view) port"
  gw_cancel :: "cancel_command \<Rightarrow> ('s, task_view) port"
  gw_get_task :: "string \<Rightarrow> ('s, task_view option) port"
  gw_list_tasks :: "nat \<Rightarrow> ('s, task_view list) port"
  gw_enqueue :: "string \<Rightarrow> ('s, task_view) port"
  gw_cached :: "string \<Rightarrow> ('s, gateway_response option) port"
  gw_reserve :: "string \<Rightarrow> ('s, bool) port"
  gw_remember :: "string \<Rightarrow> gateway_response \<Rightarrow> ('s, unit) port"
  gw_release :: "string \<Rightarrow> ('s, unit) port"
  gw_new_id :: "string \<Rightarrow> string"
  gw_sensitive :: "string \<Rightarrow> bool"

text \<open>\<open>try: m; except Exception: h\<close>; the handler sees which exception it was.\<close>

definition catching :: "('s, 'a) port \<Rightarrow> (port_error \<Rightarrow> ('s, 'a) port) \<Rightarrow> ('s, 'a) port" where
  "catching m h s =
     (case m s of
        (Inl e, s') \<Rightarrow> if e = Interruption then (Inl Interruption, s') else h e s'
      | (Inr x, s') \<Rightarrow> (Inr x, s'))"

text \<open>\<open>AllowlistAuthorizer.is_authorized\<close>.\<close>

definition allowlist :: "string set \<Rightarrow> string \<Rightarrow> gateway_command \<Rightarrow> string option \<Rightarrow> ('s, bool) port" where
  "allowlist allowed actor command proj = act_return (actor \<in> allowed)"

text \<open>\<open>UuidTaskIdFactory.new\<close>; \<open>uuid5\<close> is the hash of the standard library for the URL namespace.\<close>

definition hex_digit :: "nat \<Rightarrow> char" where
  "hex_digit n = ''0123456789ABCDEF'' ! n"

definition hex_upper :: "uuid \<Rightarrow> string" where
  "hex_upper u = map (\<lambda>i. hex_digit (unat (drop_bit (4 * i) u) mod 16)) (rev [0..<32])"

definition uuid_task_id :: "(string \<Rightarrow> uuid) \<Rightarrow> string \<Rightarrow> string" where
  "uuid_task_id uuid5 key = ''TASK-'' @ hex_upper (uuid5 (''macmini-ai-hub:gateway:'' @ key))"

section \<open>Responses\<close>

definition simple_response :: "bool \<Rightarrow> gateway_code \<Rightarrow> string \<Rightarrow> gateway_response" where
  "simple_response success code msg =
     \<lparr>rs_success = success, rs_code = code, rs_message = msg, rs_task = None, rs_tasks = [],
      rs_replayed = False\<rparr>"

text \<open>\<open>GatewayResponse(...)\<close> inside \<open>_dispatch\<close>: a validation error is one more \<open>Exception\<close>.\<close>

definition respond :: "gateway_response \<Rightarrow> ('s, gateway_response) port" where
  "respond r = act_lift (map_error (\<lambda>_. OtherException) (GatewayResponse_validate r))"

definition help_text :: string where
  "help_text = ''Commands: help | dev <project> <instruction> | status | tasks | task <TASK-ID> | stop <TASK-ID>''"

definition format_task :: "task_view \<Rightarrow> string" where
  "format_task t =
     tv_task t @ '': project='' @ tv_project t @ ''; team='' @ tv_team t @ ''; status='' @
     status_value (tv_status t)"

definition created_message :: "task_view \<Rightarrow> string" where
  "created_message t =
     ''Task created. ID: '' @ tv_task t @ ''; project: '' @ tv_project t @ ''; team: '' @ tv_team t @
     ''; status: '' @ status_value (tv_status t) @ ''.''"

definition unqueued_message :: "task_view \<Rightarrow> string" where
  "unqueued_message t =
     ''Task '' @ tv_task t @ '' was saved but could not be queued. Check its status before retrying.''"

definition task_list_message :: "task_view list \<Rightarrow> string" where
  "task_list_message ts = (if ts = [] then ''No tasks found.'' else join [CHR 0x0A] (map format_task ts))"

definition status_message :: "task_view list \<Rightarrow> string" where
  "status_message ts =
     (let values = map (\<lambda>t. status_value (tv_status t)) ts in
      if values = [] then ''AI Hub is available. No tasks are recorded.''
      else ''AI Hub is available. Task status: '' @
        join '', '' (map (\<lambda>v. v @ ''='' @ show_nat (count_list values v)) (sort (remdups values))) @ ''.'')"

definition cancelled_message :: "task_view \<Rightarrow> string" where
  "cancelled_message t =
     ''Cancellation recorded for '' @ tv_task t @ ''; status: '' @ status_value (tv_status t) @ ''.''"

section \<open>Dispatch\<close>

text \<open>\<open>CreateTaskCommand(...)\<close> and \<open>CancelTaskCommand(...)\<close>, and the missing arguments they guard.\<close>

definition create_command_of :: "'s gateway \<Rightarrow> gateway_request \<Rightarrow> port_error + create_command" where
  "create_command_of g r =
     (case (rq_project r, rq_instruction r) of
        (Some proj, Some instr) \<Rightarrow>
          map_error (\<lambda>_. OtherException) (CreateTaskCommand_validate
            \<lparr>cc_task = gw_new_id g (idempotency_key r), cc_source = rq_source r, cc_event = rq_event r,
             cc_actor = rq_actor r, cc_reply = rq_reply r, cc_project = proj, cc_instruction = instr\<rparr>)
      | _ \<Rightarrow> Inl OtherException)"

definition dispatch_create :: "'s gateway \<Rightarrow> gateway_request \<Rightarrow> ('s, gateway_response) port" where
  "dispatch_create g r =
     act_bind (act_lift (create_command_of g r)) (\<lambda>command.
     act_bind (gw_create g command) (\<lambda>task.
     act_bind (catching (act_bind (gw_enqueue g (tv_task task)) (\<lambda>queued. act_return (Some queued)))
                 (\<lambda>_. act_return None)) (\<lambda>queued.
     case queued of
       None \<Rightarrow> respond \<lparr>rs_success = False, rs_code = UNAVAILABLE, rs_message = unqueued_message task,
                        rs_task = Some task, rs_tasks = [], rs_replayed = False\<rparr>
     | Some task \<Rightarrow> respond \<lparr>rs_success = True, rs_code = ACCEPTED, rs_message = created_message task,
                             rs_task = Some task, rs_tasks = [], rs_replayed = False\<rparr>)))"

definition dispatch_detail :: "'s gateway \<Rightarrow> gateway_request \<Rightarrow> ('s, gateway_response) port" where
  "dispatch_detail g r =
     (case rq_task r of
        None \<Rightarrow> act_raise OtherException
      | Some i \<Rightarrow>
          act_bind (gw_get_task g i) (\<lambda>found.
          case found of
            None \<Rightarrow> act_raise TaskNotFoundError
          | Some task \<Rightarrow> respond \<lparr>rs_success = True, rs_code = OK, rs_message = format_task task,
                                  rs_task = Some task, rs_tasks = [], rs_replayed = False\<rparr>))"

definition dispatch_list :: "'s gateway \<Rightarrow> ('s, gateway_response) port" where
  "dispatch_list g =
     act_bind (gw_list_tasks g 20) (\<lambda>tasks.
     respond \<lparr>rs_success = True, rs_code = OK, rs_message = task_list_message tasks, rs_task = None,
              rs_tasks = tasks, rs_replayed = False\<rparr>)"

definition dispatch_status :: "'s gateway \<Rightarrow> ('s, gateway_response) port" where
  "dispatch_status g =
     act_bind (gw_list_tasks g 100) (\<lambda>tasks.
     respond \<lparr>rs_success = True, rs_code = OK, rs_message = status_message tasks, rs_task = None,
              rs_tasks = tasks, rs_replayed = False\<rparr>)"

definition cancel_command_of :: "gateway_request \<Rightarrow> port_error + cancel_command" where
  "cancel_command_of r =
     (case rq_task r of
        None \<Rightarrow> Inl OtherException
      | Some i \<Rightarrow> map_error (\<lambda>_. OtherException) (CancelTaskCommand_validate
          \<lparr>kc_task = i, kc_source = rq_source r, kc_event = rq_event r, kc_actor = rq_actor r\<rparr>))"

definition dispatch_cancel :: "'s gateway \<Rightarrow> gateway_request \<Rightarrow> ('s, gateway_response) port" where
  "dispatch_cancel g r =
     act_bind (act_lift (cancel_command_of r)) (\<lambda>command.
     act_bind (gw_cancel g command) (\<lambda>task.
     respond \<lparr>rs_success = True, rs_code = OK, rs_message = cancelled_message task,
              rs_task = Some task, rs_tasks = [], rs_replayed = False\<rparr>))"

definition dispatch :: "'s gateway \<Rightarrow> gateway_request \<Rightarrow> ('s, gateway_response) port" where
  "dispatch g r =
     (case rq_command r of
        HELP \<Rightarrow> respond (simple_response True OK help_text)
      | DEV \<Rightarrow> dispatch_create g r
      | TASK \<Rightarrow> dispatch_detail g r
      | TASKS \<Rightarrow> dispatch_list g
      | STATUS \<Rightarrow> dispatch_status g
      | STOP \<Rightarrow> dispatch_cancel g r)"

section \<open>Handling a request\<close>

definition auth_unavailable :: gateway_response where
  "auth_unavailable = simple_response False UNAVAILABLE ''Authorization is temporarily unavailable.''"

definition unauthorized :: gateway_response where
  "unauthorized = simple_response False UNAUTHORIZED ''This actor is not authorized to use the AI Hub.''"

definition credentials_refused :: gateway_response where
  "credentials_refused =
     simple_response False INVALID_REQUEST ''Task instructions must not contain credential material.''"

definition dedup_unavailable :: gateway_response where
  "dedup_unavailable =
     simple_response False UNAVAILABLE ''Request deduplication is temporarily unavailable.''"

definition in_progress :: gateway_response where
  "in_progress = replayed
     (simple_response True DUPLICATE ''This request is already being processed.'')"

definition receipt_lost :: "gateway_response \<Rightarrow> gateway_response" where
  "receipt_lost r =
     (simple_response False UNAVAILABLE
       ''The request was processed, but its response receipt could not be stored. Check task status before retrying.'')
     \<lparr>rs_task := rs_task r, rs_tasks := rs_tasks r\<rparr>"

definition failure_response :: "port_error \<Rightarrow> gateway_response" where
  "failure_response e =
     (case e of
        TaskNotFoundError \<Rightarrow> simple_response False NOT_FOUND ''The requested task was not found.''
      | TaskConflictError \<Rightarrow>
          simple_response False CONFLICT ''The task cannot be changed from its current state.''
      | DependencyUnavailableError \<Rightarrow>
          simple_response False UNAVAILABLE ''A required AI Hub component is temporarily unavailable.''
      | _ \<Rightarrow> simple_response False INTERNAL_ERROR ''The AI Hub could not process this request safely.'')"

text \<open>A release whose own failure is logged; something that is not an \<open>Exception\<close> still escapes.\<close>

definition release_quietly :: "'s gateway \<Rightarrow> string \<Rightarrow> ('s, unit) port" where
  "release_quietly g key = catching (gw_release g key) (\<lambda>_. act_return ())"

definition transient :: "gateway_code \<Rightarrow> bool" where
  "transient c \<longleftrightarrow> c = UNAVAILABLE \<or> c = INTERNAL_ERROR"

text \<open>After the dispatch: release what may be retried, remember the rest.\<close>

definition settle :: "'s gateway \<Rightarrow> string \<Rightarrow> gateway_response \<Rightarrow> ('s, gateway_response) port" where
  "settle g key response =
     (if transient (rs_code response) then
        act_bind (release_quietly g key) (\<lambda>_. act_return response)
      else
        catching (act_bind (gw_remember g key response) (\<lambda>_. act_return response))
          (\<lambda>_. act_return (receipt_lost response)))"

text \<open>The dispatch of a reserved request; an interruption releases the key and goes on.\<close>

definition perform :: "'s gateway \<Rightarrow> gateway_request \<Rightarrow> ('s, gateway_response) port" where
  "perform g r s =
     (case dispatch g r s of
        (Inr response, s') \<Rightarrow> settle g (idempotency_key r) response s'
      | (Inl Interruption, s') \<Rightarrow>
          act_bind (release_quietly g (idempotency_key r)) (\<lambda>_. act_raise Interruption) s'
      | (Inl e, s') \<Rightarrow> settle g (idempotency_key r) (failure_response e) s')"

definition handle_new :: "'s gateway \<Rightarrow> gateway_request \<Rightarrow> ('s, gateway_response) port" where
  "handle_new g r s =
     (case gw_reserve g (idempotency_key r) s of
        (Inl e, s') \<Rightarrow> (if e = Interruption then Inl Interruption else Inr dedup_unavailable, s')
      | (Inr reserved, s') \<Rightarrow> if reserved then perform g r s' else (Inr in_progress, s'))"

definition handle_authorized :: "'s gateway \<Rightarrow> gateway_request \<Rightarrow> ('s, gateway_response) port" where
  "handle_authorized g r s =
     (case gw_cached g (idempotency_key r) s of
        (Inl e, s') \<Rightarrow> (if e = Interruption then Inl Interruption else Inr dedup_unavailable, s')
      | (Inr (Some response), s') \<Rightarrow> (Inr (replayed response), s')
      | (Inr None, s') \<Rightarrow> handle_new g r s')"

definition handle :: "'s gateway \<Rightarrow> gateway_request \<Rightarrow> ('s, gateway_response) port" where
  "handle g r s =
     (case gw_authorize g (rq_actor r) (rq_command r) (rq_project r) s of
        (Inl e, s') \<Rightarrow> (if e = Interruption then Inl Interruption else Inr auth_unavailable, s')
      | (Inr authorized, s') \<Rightarrow>
          if \<not> authorized then (Inr unauthorized, s')
          else if \<not> opt_all (\<lambda>instr. \<not> gw_sensitive g instr) (rq_instruction r)
          then (Inr credentials_refused, s')
          else handle_authorized g r s')"

section \<open>Keys, identifiers and messages\<close>

lemma hex_digits_id_chars: "list_all (\<lambda>d. is_id_char (hex_digit d)) [0..<16]"
  by (simp add: upt_rec hex_digit_def char_class_defs)

lemma hex_digit_id_char: "d < 16 \<Longrightarrow> is_id_char (hex_digit d)"
  using hex_digits_id_chars by (simp add: list_all_iff)

lemma length_hex_upper [simp]: "length (hex_upper u) = 32"
  by (simp add: hex_upper_def)

lemma hex_upper_id_chars: "list_all is_id_char (hex_upper u)"
  by (simp add: hex_upper_def list_all_iff hex_digit_id_char)

lemma task_id_pattern:
  assumes "length s = 32" "list_all is_id_char s"
  shows "clean TaskId (''TASK-'' @ s)"
proof -
  obtain c cs where s: "s = c # cs" using assms(1) by (cases s) auto
  have "list_all (\<lambda>c. \<not> is_space c) s"
    using assms(2) by (auto simp: list_all_iff is_id_char_def dest: not_space_classes)
  then have "list_all (\<lambda>c. \<not> is_space c) (''TASK-'' @ s)"
    by (simp add: char_class_defs)
  then have "strip (''TASK-'' @ s) = ''TASK-'' @ s" by (rule strip_no_space)
  then show ?thesis
    using assms s by (auto simp: clean_iff meets_def TaskId_def record_id_pattern_def list_all_iff)
qed

lemma uuid_task_id_clean: "clean TaskId (uuid_task_id uuid5 key)"
  unfolding uuid_task_id_def by (intro task_id_pattern) (simp_all add: hex_upper_id_chars)

end
