(* ===== verification/Orchestrator.thy ===== *)
theory Orchestrator
  imports Selection Recovery
begin

text \<open>
  \<open>orchestrator/service.py\<close> with the store adapter of \<open>storage/adapters.py\<close>: the workflow that takes
  one queued task through one developer and one runtime, and the cancellation of a task. What comes
  from outside is the record \<open>worker\<close>: fresh identifiers and clock readings, the workspace that the
  project port opens, the result of the runtime, and \<open>wk_meanwhile\<close>, which says what everybody else
  (other tasks, the gateway, the notifier) did to the store while the coroutine was waiting at a given
  point. Cancellation of the coroutine is the subject of \<open>Processing\<close>.
\<close>

section \<open>What the worker is given\<close>

datatype await_point =
    Get_queued | Start_planning | Assign_developer | Open_workspace | Start_running | Notify_running
  | Create_run | Begin_run | Execute_runtime | Finish_run | Get_executed | Finish_task
  | Notify_cancelled | Close_workspace | Close_run | Get_failed | Reread_task | Conclude | Notify_result
  | Get_cancelled | Stop_runtime | Cancel_task

datatype runtime_status = RuntimeSucceeded | RuntimeFailed | RuntimeTimedOut | RuntimeCancelled

record runtime_result =
  re_status :: runtime_status
  re_exit_code :: "int option"
  re_changed_files :: "string list"

datatype workspace_error = PreparationBlocked | PreparationError | OpenException

datatype stop_outcome = Stopped | NoSuchRun | StopException

record worker =
  wk_bundle :: config_bundle
  wk_runtime :: string
  wk_uuid5 :: "string \<Rightarrow> uuid"
  wk_event :: "await_point \<Rightarrow> uuid \<times> aware"
  wk_clock :: "await_point \<Rightarrow> aware"
  wk_run_id :: string
  wk_open :: "task \<Rightarrow> workspace_error + string"
  wk_release_fails :: bool
  wk_execute :: "task \<Rightarrow> string \<Rightarrow> runtime_result option"
  wk_stop :: "string \<Rightarrow> stop_outcome"
  wk_meanwhile :: "await_point \<Rightarrow> store \<Rightarrow> store"

text \<open>An operation awaited at a point: the others move first.\<close>

definition during :: "worker \<Rightarrow> await_point \<Rightarrow> 'a store_act \<Rightarrow> 'a store_act" where
  "during w p op s = op (wk_meanwhile w p s)"

section \<open>Events\<close>

text \<open>\<open>{**first, **second}\<close>: an entry of the second replaces the first's in its place.\<close>

fun dict_put :: "json_object \<Rightarrow> string \<times> json \<Rightarrow> json_object" where
  "dict_put [] e = [e]"
| "dict_put (x # xs) e = (if fst x = fst e then e # xs else x # dict_put xs e)"

definition dict_merge :: "json_object \<Rightarrow> json_object \<Rightarrow> json_object" where
  "dict_merge first second = foldl dict_put first second"

definition task_correlation_id :: "(string \<Rightarrow> uuid) \<Rightarrow> string \<Rightarrow> uuid" where
  "task_correlation_id uuid5 i = uuid5 (''macmini-ai-hub:'' @ i)"

definition worker_event ::
  "worker \<Rightarrow> await_point \<Rightarrow> task \<Rightarrow> event_type \<Rightarrow> string option \<Rightarrow> event_level \<Rightarrow> json_object \<Rightarrow>
   py_error + event" where
  "worker_event w p t ty agent level payload =
     map_error ValueError (Event_validate
       \<lparr>ev_schema = 1, ev_id = fst (wk_event w p), ev_type = ty, ev_time = snd (wk_event w p),
        ev_task = Some (t_id t), ev_project = Some (t_project t), ev_team = Some (t_team t),
        ev_agent = agent, ev_correlation = Some (task_correlation_id (wk_uuid5 w) (t_id t)),
        ev_causation = None, ev_level = level, ev_message = None, ev_payload = payload\<rparr>)"

text \<open>The dictionary \<open>event_types\<close> of \<open>_transition\<close>.\<close>

fun transition_event_type :: "task_status \<Rightarrow> event_type option" where
  "transition_event_type Planning = Some TASK_STARTED"
| "transition_event_type Running = Some TASK_STARTED"
| "transition_event_type Blocked = Some TASK_BLOCKED"
| "transition_event_type Completed = Some TASK_COMPLETED"
| "transition_event_type Failed = Some TASK_FAILED"
| "transition_event_type Cancelled = Some TASK_CANCELLED"
| "transition_event_type _ = None"

definition worker_transition ::
  "worker \<Rightarrow> await_point \<Rightarrow> task \<Rightarrow> task_status \<Rightarrow> string option \<Rightarrow> event_level \<Rightarrow> json_object \<Rightarrow>
   task store_act" where
  "worker_transition w p t target agent level payload =
     (case transition_event_type target of
        None \<Rightarrow> act_raise RuntimeError
      | Some ty \<Rightarrow>
          act_bind (act_lift (worker_event w p t ty agent level
            (dict_merge [(''status'', JStr (status_value target))] payload))) (\<lambda>e.
          during w p (transition_stored_task (wk_clock w p) (t_id t) target e)))"

text \<open>\<open>_notify\<close>: the notifier may use the store, and its exceptions are logged.\<close>

definition notify :: "worker \<Rightarrow> await_point \<Rightarrow> (store, 'e, unit) act" where
  "notify w p = act_modify (wk_meanwhile w p)"

section \<open>Ending a task\<close>

record process_result =
  ps_task :: string
  ps_status :: task_status
  ps_error :: "string option"

definition result_of :: "task \<Rightarrow> string option \<Rightarrow> process_result" where
  "result_of t err = \<lparr>ps_task = t_id t, ps_status = t_status t, ps_error = err\<rparr>"

text \<open>\<open>_block\<close> and \<open>_fail\<close>.\<close>

definition conclude_task ::
  "worker \<Rightarrow> task \<Rightarrow> task_status \<Rightarrow> event_level \<Rightarrow> string \<Rightarrow> process_result store_act" where
  "conclude_task w t target level code =
     act_bind (during w Reread_task (act_query (get_task (t_id t)))) (\<lambda>current.
     act_bind (worker_transition w Conclude current target None level [(''reason'', JStr code)]) (\<lambda>ended.
     act_bind (notify w Notify_result) (\<lambda>_.
     act_return (result_of ended (Some code)))))"

definition hold_task :: "worker \<Rightarrow> task \<Rightarrow> string \<Rightarrow> process_result store_act" where
  "hold_task w t code = conclude_task w t Blocked WARNING code"

definition fail_task :: "worker \<Rightarrow> task \<Rightarrow> string \<Rightarrow> process_result store_act" where
  "fail_task w t code = conclude_task w t Failed ERROR code"

fun runtime_status_value :: "runtime_status \<Rightarrow> string" where
  "runtime_status_value RuntimeSucceeded = ''succeeded''"
| "runtime_status_value RuntimeFailed = ''failed''"
| "runtime_status_value RuntimeTimedOut = ''timed-out''"
| "runtime_status_value RuntimeCancelled = ''cancelled''"

text \<open>\<open>RunStatus(RunOutcome(result.status.value).value)\<close>.\<close>

fun run_outcome :: "runtime_status \<Rightarrow> run_status" where
  "run_outcome RuntimeSucceeded = RunSucceeded"
| "run_outcome RuntimeFailed = RunFailed"
| "run_outcome RuntimeTimedOut = RunTimedOut"
| "run_outcome RuntimeCancelled = RunCancelled"

definition outcome_payload :: "runtime_result \<Rightarrow> string \<Rightarrow> json_object" where
  "outcome_payload result branch =
     [(''branch'', JStr branch), (''changed_files'', JArr (map JStr (re_changed_files result)))]"

definition finish_task :: "worker \<Rightarrow> task \<Rightarrow> runtime_result \<Rightarrow> string \<Rightarrow> task store_act" where
  "finish_task w t result branch =
     (case re_status result of
        RuntimeSucceeded \<Rightarrow>
          worker_transition w Finish_task t Completed None INFO
            (dict_merge (outcome_payload result branch) [(''status'', JStr ''completed'')])
      | RuntimeCancelled \<Rightarrow>
          act_bind (act_lift (worker_event w Finish_task t TASK_CANCELLED None WARNING
            (dict_merge (outcome_payload result branch) [(''status'', JStr ''cancelled'')]))) (\<lambda>e.
          during w Finish_task (cancel_stored_task (wk_clock w Finish_task) (t_id t) e))
      | _ \<Rightarrow>
          worker_transition w Finish_task t Failed None ERROR
            (dict_merge (outcome_payload result branch)
              [(''status'', JStr ''failed''),
               (''reason'', JStr (''runtime-'' @ runtime_status_value (re_status result)))]))"

section \<open>Runs\<close>

definition record_run :: "worker \<Rightarrow> task \<Rightarrow> string \<Rightarrow> string store_act" where
  "record_run w t agent =
     act_bind (act_lift (map_error ValueError (RunRecord_validate
       \<lparr>run_id = wk_run_id w, run_task = t_id t, run_agent = agent, run_runtime = wk_runtime w,
        run_status = RunQueued, run_created = wk_clock w Create_run, run_started = None,
        run_completed = None, run_exit_code = None, run_error_code = None\<rparr>))) (\<lambda>r.
     act_bind (during w Create_run (create_run r)) (\<lambda>_. act_return (run_id r)))"

definition finish_runtime_run :: "worker \<Rightarrow> string \<Rightarrow> runtime_result \<Rightarrow> run_record store_act" where
  "finish_runtime_run w i result =
     during w Finish_run (finish_run (wk_clock w Finish_run) i (run_outcome (re_status result)) None
       (re_exit_code result)
       (if re_status result = RuntimeSucceeded then None
        else Some (''runtime-'' @ runtime_status_value (re_status result))))"

definition run_runtime_on :: "worker \<Rightarrow> task \<Rightarrow> string \<Rightarrow> runtime_result store_act" where
  "run_runtime_on w t agent =
     during w Execute_runtime
       (case wk_execute w t agent of None \<Rightarrow> act_raise RuntimeError | Some r \<Rightarrow> act_return r)"

section \<open>The workspace\<close>

text \<open>
  What the local variables \<open>run_id\<close> and \<open>run_finished\<close> hold when an exception leaves the block.
\<close>

datatype run_progress = No_run | Run_open string | Run_done

datatype work_error = Work_blocked | Work_refused | Work_exception run_progress

text \<open>The body of \<open>async with\<close>; the flag of the result is the early return of a cancelled task.\<close>

definition do_work :: "worker \<Rightarrow> string \<Rightarrow> task \<Rightarrow> string \<Rightarrow> (store, run_progress, task \<times> bool) act" where
  "do_work w agent t0 branch =
     act_bind (map_raise (\<lambda>_. No_run) (worker_transition w Start_running t0 Running (Some agent) INFO
       [(''branch'', JStr branch)])) (\<lambda>t.
     act_bind (notify w Notify_running) (\<lambda>_.
     act_bind (map_raise (\<lambda>_. No_run) (record_run w t agent)) (\<lambda>run.
     act_bind (map_raise (\<lambda>_. Run_open run)
       (during w Begin_run (start_run (wk_clock w Begin_run) run None))) (\<lambda>_.
     act_bind (map_raise (\<lambda>_. Run_open run) (run_runtime_on w t agent)) (\<lambda>result.
     act_bind (map_raise (\<lambda>_. Run_open run) (finish_runtime_run w run result)) (\<lambda>_.
     act_bind (map_raise (\<lambda>_. Run_done) (during w Get_executed (act_query (get_task (t_id t))))) (\<lambda>current.
     if t_status current = Cancelled
     then act_bind (notify w Notify_cancelled) (\<lambda>_. act_return (current, True))
     else act_bind (map_raise (\<lambda>_. Run_done) (finish_task w current result branch)) (\<lambda>final.
          act_return (final, False)))))))))"

fun progress_at_exit :: "run_progress + 'a \<Rightarrow> run_progress" where
  "progress_at_exit (Inl p) = p"
| "progress_at_exit (Inr _) = Run_done"

definition in_workspace :: "worker \<Rightarrow> string \<Rightarrow> task \<Rightarrow> (store, work_error, task \<times> bool) act" where
  "in_workspace w agent t s =
     (let s1 = wk_meanwhile w Open_workspace s in
      case wk_open w t of
        Inl PreparationBlocked \<Rightarrow> (Inl Work_blocked, s1)
      | Inl PreparationError \<Rightarrow> (Inl Work_refused, s1)
      | Inl OpenException \<Rightarrow> (Inl (Work_exception No_run), s1)
      | Inr branch \<Rightarrow>
          (case do_work w agent t branch s1 of (r, s2) \<Rightarrow>
            (if wk_release_fails w then Inl (Work_exception (progress_at_exit r))
             else map_error Work_exception r,
             wk_meanwhile w Close_workspace s2)))"

section \<open>Processing a task\<close>

text \<open>The handler \<open>except Exception\<close>: close the run that was left open, then fail the task.\<close>

definition close_open_run :: "worker \<Rightarrow> run_progress \<Rightarrow> unit store_act" where
  "close_open_run w p s =
     (case p of
        Run_open i \<Rightarrow>
          (Inr (), snd (during w Close_run (finish_run (wk_clock w Close_run) i RunFailed None None
             (Some ''runtime-exception'')) s))
      | _ \<Rightarrow> (Inr (), s))"

definition rescue :: "worker \<Rightarrow> task \<Rightarrow> run_progress \<Rightarrow> process_result store_act" where
  "rescue w t p =
     act_bind (close_open_run w p) (\<lambda>_.
     act_bind (during w Get_failed (act_query (get_task (t_id t)))) (\<lambda>current.
     if is_terminal (t_status current) then act_return (result_of current None)
     else fail_task w current ''runtime-exception''))"

definition attempt :: "worker \<Rightarrow> string \<Rightarrow> task \<Rightarrow> process_result store_act" where
  "attempt w agent t s =
     (case in_workspace w agent t s of
        (Inl Work_blocked, s1) \<Rightarrow> hold_task w t ''project-preparation'' s1
      | (Inl Work_refused, s1) \<Rightarrow> fail_task w t ''project-preparation'' s1
      | (Inl (Work_exception p), s1) \<Rightarrow> rescue w t p s1
      | (Inr (final, cancelled), s1) \<Rightarrow>
          if cancelled then (Inr (result_of final None), s1)
          else act_bind (notify w Notify_result) (\<lambda>_. act_return (result_of final None)) s1)"

fun runtime_kind_value :: "runtime_kind \<Rightarrow> string" where
  "runtime_kind_value Disabled = ''disabled''"
| "runtime_kind_value Codex = ''codex''"

definition assignment_payload :: "task \<Rightarrow> selection \<Rightarrow> json_object" where
  "assignment_payload t developer =
     [(''status'', JStr (status_value (t_status t))), (''role'', JStr ''developer''),
      (''runtime'', JStr (runtime_kind_value (ag_runtime (sl_definition developer))))]"

definition assign_developer :: "worker \<Rightarrow> task \<Rightarrow> selection \<Rightarrow> task store_act" where
  "assign_developer w t developer =
     act_bind (act_lift (worker_event w Assign_developer t AGENT_ASSIGNED (Some (sl_agent developer)) INFO
       (assignment_payload t developer))) (\<lambda>e.
     during w Assign_developer (assign_task (t_id t) (sl_agent developer) e))"

definition process_task :: "worker \<Rightarrow> string \<Rightarrow> process_result store_act" where
  "process_task w i =
     act_bind (during w Get_queued (act_query (get_task i))) (\<lambda>t.
     if t_status t \<noteq> Queued then act_return (result_of t None)
     else
       act_bind (worker_transition w Start_planning t Planning None INFO []) (\<lambda>t.
       case select_developer (wk_bundle w) t of
         Inl (KeyError _) \<Rightarrow> act_raise RuntimeError
       | Inl _ \<Rightarrow> fail_task w t ''developer-selection''
       | Inr developer \<Rightarrow>
           act_bind (assign_developer w t developer) (\<lambda>t. attempt w (sl_agent developer) t)))"

section \<open>Cancelling a task\<close>

definition stop_runtime :: "worker \<Rightarrow> string \<Rightarrow> unit store_act" where
  "stop_runtime w i =
     during w Stop_runtime (case wk_stop w i of StopException \<Rightarrow> act_raise RuntimeError | _ \<Rightarrow> act_return ())"

definition cancel_task :: "worker \<Rightarrow> string \<Rightarrow> task store_act" where
  "cancel_task w i =
     act_bind (during w Get_cancelled (act_query (get_task i))) (\<lambda>t.
     if is_terminal (t_status t) then act_return t
     else
       act_bind (if t_status t = Running then stop_runtime w i else act_return ()) (\<lambda>_.
       act_bind (act_lift (worker_event w Cancel_task t TASK_CANCELLED None WARNING
         [(''status'', JStr ''cancelled''), (''reason'', JStr ''user-request'')])) (\<lambda>e.
       act_bind (during w Cancel_task (cancel_stored_task (wk_clock w Cancel_task) i e)) (\<lambda>cancelled.
       act_bind (notify w Notify_cancelled) (\<lambda>_. act_return cancelled)))))"

end
