(* ===== verification/Adapters.thy ===== *)
theory Adapters
  imports Gateway Dedup Orchestrator
begin

text \<open>
  \<open>application/adapters.py\<close>: the gateway's task ports over the SQLite store
  (\<open>GatewayTaskAdapter\<close>, \<open>DurableTaskEnqueuer\<close>), and the gateway composed as \<open>composition.py\<close> does:
  store, allowlist, durable deduplicator, task identifiers, and the orchestrator as the canceller
  and as the wake-up (its \<open>enqueue_task\<close> sets an \<open>asyncio.Event\<close> and leaves the store alone). What
  the adapters take from outside is the record \<open>surroundings\<close>: clock readings, fresh event
  identifiers, \<open>uuid5\<close>, the worker, \<open>contains_sensitive_material\<close>, and \<open>sr_meanwhile\<close>, which says
  what everybody else did to the store while the request was waiting at a given point.
\<close>

section \<open>Surroundings\<close>

datatype port_point =
    At_cached | At_reserve | At_create | At_existing | At_existing_route | At_enqueued | At_queueing
  | At_get | At_list | At_remember | At_release

record surroundings =
  sr_now :: aware
  sr_created :: aware
  sr_created_event :: "uuid \<times> aware"
  sr_queued_event :: "uuid \<times> aware"
  sr_uuid5 :: "string \<Rightarrow> uuid"
  sr_worker :: worker
  sr_sensitive :: "string \<Rightarrow> bool"
  sr_meanwhile :: "port_point \<Rightarrow> store \<Rightarrow> store"

definition awaiting :: "surroundings \<Rightarrow> port_point \<Rightarrow> (store, 'e, 'a) act \<Rightarrow> (store, 'e, 'a) act" where
  "awaiting sr p op s = op (sr_meanwhile sr p s)"

text \<open>An exception of the store that an adapter does not translate is some \<open>Exception\<close> to the gateway.\<close>

definition untranslated :: "py_error \<Rightarrow> port_error" where
  "untranslated e = OtherException"

definition storage_failure :: "py_error \<Rightarrow> port_error" where
  "storage_failure e = (case e of StorageError _ \<Rightarrow> DependencyUnavailableError | _ \<Rightarrow> OtherException)"

text \<open>The \<open>except\<close> clauses of \<open>cancel_task\<close> and \<open>enqueue_task\<close>, in their order.\<close>

definition change_failure :: "py_error \<Rightarrow> port_error" where
  "change_failure e =
     (case e of
        StorageError RecordNotFoundError \<Rightarrow> TaskNotFoundError
      | StorageError s \<Rightarrow> if is_data_integrity s then TaskConflictError else DependencyUnavailableError
      | ValueError _ \<Rightarrow> TaskConflictError
      | _ \<Rightarrow> OtherException)"

section \<open>Views, events and routes\<close>

definition task_view :: "task \<Rightarrow> task_view" where
  "task_view t =
     \<lparr>tv_task = t_id t, tv_project = t_project t, tv_team = t_team t, tv_status = t_status t,
      tv_agents = t_agents t\<rparr>"

definition view_port :: "task \<Rightarrow> ('s, task_view) port" where
  "view_port t = act_lift (map_error (\<lambda>_. OtherException) (TaskView_validate (task_view t)))"

definition matches_replayed_task :: "task \<Rightarrow> task \<Rightarrow> bool" where
  "matches_replayed_task existing expected \<longleftrightarrow>
     t_id existing = t_id expected \<and> t_source existing = t_source expected \<and>
     t_project existing = t_project expected \<and> t_team existing = t_team expected \<and>
     t_request existing = t_request expected"

definition correlation_id :: "(string \<Rightarrow> uuid) \<Rightarrow> string \<Rightarrow> uuid" where
  "correlation_id uuid5 i = uuid5 (''macmini-ai-hub:'' @ i)"

definition lifecycle_event ::
  "uuid \<Rightarrow> aware \<Rightarrow> uuid \<Rightarrow> uuid option \<Rightarrow> task \<Rightarrow> event_type \<Rightarrow> task_status \<Rightarrow> event" where
  "lifecycle_event i at correlation causation t ty st =
     \<lparr>ev_schema = 1, ev_id = i, ev_type = ty, ev_time = at, ev_task = Some (t_id t),
      ev_project = Some (t_project t), ev_team = Some (t_team t), ev_agent = None,
      ev_correlation = Some correlation, ev_causation = causation, ev_level = INFO,
      ev_message = None, ev_payload = [(''status'', JStr (status_value st))]\<rparr>"

definition validated_event :: "event \<Rightarrow> port_error + event" where
  "validated_event e = map_error (\<lambda>_. OtherException) (Event_validate e)"

section \<open>GatewayTaskAdapter\<close>

definition command_task :: "surroundings \<Rightarrow> create_command \<Rightarrow> project \<Rightarrow> port_error + task" where
  "command_task sr c p =
     map_error (\<lambda>_. OtherException) (Task_validate
       \<lparr>t_id = cc_task c, t_source = cc_source c, t_project = cc_project c, t_team = pd_team p,
        t_request = cc_instruction c, t_status = Pending, t_agents = [], t_created = sr_created sr,
        t_started = None, t_completed = None\<rparr>)"

definition command_route :: "create_command \<Rightarrow> string \<Rightarrow> port_error + task_route option" where
  "command_route c i =
     (case cc_reply c of
        None \<Rightarrow> Inr None
      | Some target \<Rightarrow> map_error (\<lambda>_. OtherException)
          (and_then (TaskRoute_validate \<lparr>route_task = i, route_source = cc_source c, route_target = target\<rparr>)
             (\<lambda>r. Inr (Some r))))"

text \<open>What happens after \<open>DuplicateTaskError\<close>: the stored task must be the one asked for.\<close>

definition replay_created :: "surroundings \<Rightarrow> task \<Rightarrow> task_route option \<Rightarrow> (store, task) port" where
  "replay_created sr t route =
     act_bind (awaiting sr At_existing (map_raise untranslated (act_query (get_task (t_id t))))) (\<lambda>existing.
     act_bind (awaiting sr At_existing_route (map_raise untranslated (act_query (get_task_route (t_id t)))))
       (\<lambda>existing_route.
     act_bind (act_require (matches_replayed_task existing t \<and> existing_route = route)
       TaskConflictError) (\<lambda>_.
     act_return existing)))"

definition store_created :: "surroundings \<Rightarrow> task \<Rightarrow> event \<Rightarrow> event \<Rightarrow> task_route option \<Rightarrow> (store, task) port" where
  "store_created sr t e1 e2 route s =
     (case awaiting sr At_create (create_queued_task (sr_now sr) t e1 e2 route) s of
        (Inr created, s') \<Rightarrow> (Inr created, s')
      | (Inl e, s') \<Rightarrow>
          if e = StorageError DuplicateTaskError then replay_created sr t route s'
          else (Inl (storage_failure e), s'))"

definition adapter_create :: "surroundings \<Rightarrow> config_bundle \<Rightarrow> create_command \<Rightarrow> (store, task_view) port" where
  "adapter_create sr b c =
     (case map_of (cb_projects b) (cc_project c) of
        None \<Rightarrow> act_raise TaskNotFoundError
      | Some p \<Rightarrow>
          act_bind (act_lift (command_task sr c p)) (\<lambda>t.
          act_bind (act_lift (validated_event (lifecycle_event (fst (sr_created_event sr))
            (snd (sr_created_event sr)) (correlation_id (sr_uuid5 sr) (t_id t)) None t TASK_CREATED Pending))) (\<lambda>e1.
          act_bind (act_lift (validated_event (lifecycle_event (fst (sr_queued_event sr))
            (snd (sr_queued_event sr)) (correlation_id (sr_uuid5 sr) (t_id t)) (Some (ev_id e1)) t
            TASK_QUEUED Queued))) (\<lambda>e2.
          act_bind (act_lift (command_route c (t_id t))) (\<lambda>route.
          act_bind (store_created sr t e1 e2 route) view_port)))))"

definition adapter_cancel :: "surroundings \<Rightarrow> cancel_command \<Rightarrow> (store, task_view) port" where
  "adapter_cancel sr c =
     act_bind (map_raise change_failure (cancel_task (sr_worker sr) (kc_task c))) view_port"

definition adapter_get :: "surroundings \<Rightarrow> string \<Rightarrow> (store, task_view option) port" where
  "adapter_get sr i =
     awaiting sr At_get (\<lambda>s. case get_task i s of
        Inl e \<Rightarrow> (if e = StorageError RecordNotFoundError then Inr None else Inl (storage_failure e), s)
      | Inr t \<Rightarrow> act_bind (view_port t) (\<lambda>v. act_return (Some v)) s)"

definition adapter_list :: "surroundings \<Rightarrow> nat \<Rightarrow> (store, task_view list) port" where
  "adapter_list sr limit =
     act_bind (awaiting sr At_list (map_raise storage_failure (act_query (list_tasks (int limit) None))))
       (\<lambda>tasks.
     act_lift (map_error (\<lambda>_. OtherException) (traverse (\<lambda>t. TaskView_validate (task_view t)) tasks)))"

section \<open>DurableTaskEnqueuer\<close>

text \<open>
  The body of the \<open>try\<close>; the event it may create is a new one. The wake-up of the worker that
  follows a queued status does not touch the store and cannot fail.
\<close>

definition enqueue_body :: "surroundings \<Rightarrow> string \<Rightarrow> task store_act" where
  "enqueue_body sr i =
     act_bind (awaiting sr At_enqueued (act_query (get_task i))) (\<lambda>t.
     act_bind
       (if t_status t = Pending then
          act_bind (act_lift (map_error ValueError (Event_validate (lifecycle_event
            (fst (sr_queued_event sr)) (snd (sr_queued_event sr)) (correlation_id (sr_uuid5 sr) (t_id t))
            None t TASK_QUEUED Queued)))) (\<lambda>e.
          awaiting sr At_queueing (transition_stored_task (sr_now sr) (t_id t) Queued e))
        else act_return t) (\<lambda>t.
     act_return t))"

definition adapter_enqueue :: "surroundings \<Rightarrow> string \<Rightarrow> (store, task_view) port" where
  "adapter_enqueue sr i = act_bind (map_raise change_failure (enqueue_body sr i)) view_port"

section \<open>The composed gateway\<close>

definition sqlite_gateway :: "surroundings \<Rightarrow> config_bundle \<Rightarrow> string set \<Rightarrow> store gateway" where
  "sqlite_gateway sr b allowed =
     \<lparr>gw_authorize = allowlist allowed,
      gw_create = adapter_create sr b,
      gw_cancel = adapter_cancel sr,
      gw_get_task = adapter_get sr,
      gw_list_tasks = adapter_list sr,
      gw_enqueue = adapter_enqueue sr,
      gw_cached = (\<lambda>k. awaiting sr At_cached (map_raise untranslated (durable_get (sr_now sr) k))),
      gw_reserve = (\<lambda>k. awaiting sr At_reserve (map_raise untranslated (durable_reserve (sr_now sr) k))),
      gw_remember = (\<lambda>k r. awaiting sr At_remember (map_raise untranslated (durable_remember (sr_now sr) k r))),
      gw_release = (\<lambda>k. awaiting sr At_release (map_raise untranslated (durable_release (sr_now sr) k))),
      gw_new_id = uuid_task_id (sr_uuid5 sr),
      gw_sensitive = sr_sensitive sr\<rparr>"

section \<open>Idempotency keys\<close>

lemma identifier_tail_opaque: "identifier_tail h s \<Longrightarrow> list_all is_opaque_char s"
  by (auto simp: list_all_iff is_opaque_char_def is_alnum_def dest: identifier_tail_chars)

lemma idempotency_key_clean:
  assumes "valid_request r"
  shows "clean IdempotencyKey (idempotency_key r)"
proof -
  have src: "meets Identifier (rq_source r)" and ev: "meets SourceEventId (rq_event r)"
    using assms by (auto simp: valid_request_iff clean_iff)
  obtain c cs where s: "rq_source r = c # cs" "is_lower c" "identifier_tail False cs"
    using src by (cases "rq_source r") (auto simp: meets_def Identifier_def)
  have "list_all is_opaque_char (rq_event r)"
  proof (cases "rq_event r")
    case (Cons d ds)
    then show ?thesis using ev by (auto simp: meets_def SourceEventId_def is_opaque_char_def)
  qed simp
  then have "opaque_pattern (idempotency_key r)"
    using s identifier_tail_opaque [OF s(3)]
    by (simp add: idempotency_key_def is_alnum_def is_opaque_char_def list_all_append)
  moreover have "length (idempotency_key r) \<le> 200"
    using src ev by (simp add: idempotency_key_def meets_def Identifier_def SourceEventId_def)
  ultimately show ?thesis
    using s by (simp add: clean_iff meets_def IdempotencyKey_def opaque_strip) (simp add: idempotency_key_def)
qed

end
