(* ===== verification/ModelProperties.thy ===== *)
theory ModelProperties
  imports Samples Selection Adapters
begin

text \<open>
  Properties of the data models: the configuration check and the selection of a developer, safe
  paths, the documents of gateway responses, and the absence of secret-shaped data in the store.
\<close>

section \<open>A sample configuration\<close>

definition sample_agent :: agent where
  "sample_agent =
     \<lparr>ag_role = ''developer'', ag_team = ''core'', ag_runtime = Codex, ag_enabled = True,
      ag_profile = ''dev'', ag_directory = ProjectWorkspace, ag_model = None, ag_skills = [],
      ag_tools = [], ag_max_concurrency = 1\<rparr>"

definition sample_team :: team where
  "sample_team =
     \<lparr>tm_type = Product, tm_display_name = ''Core'', tm_room = ''core'', tm_agents = [''coder''],
      tm_project = Some ''hub''\<rparr>"

definition sample_project :: "string \<Rightarrow> string \<Rightarrow> project" where
  "sample_project workspace tm =
     \<lparr>pd_display_name = ''Hub'', pd_repository = ''https://example.org/hub.git'',
      pd_workspace = workspace, pd_team = tm, pd_base_branch = None\<rparr>"

definition sample_settings :: settings where
  "sample_settings =
     \<lparr>set_instance_name = ''Hub'', set_environment = Local, set_timezone = ''Asia/Seoul'',
      set_workspace_root = ''workspace'', set_max_concurrent = 2, set_default_runtime = Disabled,
      set_git = \<lparr>auto_commit = False, auto_push = False, auto_merge = False, allow_force_push = False\<rparr>\<rparr>"

definition sample_bundle :: config_bundle where
  "sample_bundle =
     \<lparr>cb_settings = sample_settings, cb_agents = [(''coder'', sample_agent)],
      cb_teams = [(''core'', sample_team)],
      cb_projects = [(''hub'', sample_project ''workspace/projects/hub'' ''core'')],
      cb_permissions = [(''dev'', [Read, Write, Execute, Git])]\<rparr>"

lemmas sample_bundle_defs = sample_bundle_def sample_settings_def sample_team_def sample_agent_def
  sample_project_def

lemma sample_bundle_keys: "registry_keys_ok sample_bundle"
  by (simp add: registry_keys_ok_def sample_bundle_def)

lemma sample_bundle_checked: "validate_relationships sample_bundle = Inr sample_bundle"
  by code_simp

section \<open>The configuration check\<close>

text \<open>C37: The cross-registry check accepts a configuration exactly when its registries agree: every
  agent is listed by its team and has a permission profile, teams list their own agents and are
  reciprocal with their project, and workspaces and rooms are not shared. The bundle is returned as
  it was given.\<close>

theorem config_check_exact:
  assumes "registry_keys_ok b"
  shows "validate_relationships b = Inr b' \<longleftrightarrow> b' = b \<and> related b"
  by (rule validate_relationships_iff [OF assms])

theorem config_check_exact_witness: "related sample_bundle"
  using config_check_exact [OF sample_bundle_keys] sample_bundle_checked by blast

text \<open>In an accepted configuration no lookup of the developer selection fails, and its outcome is
  determined by the team: a product team with a reciprocal project and exactly one eligible member
  gives that member; anything else is an error that says which condition failed.\<close>

theorem selection_exact:
  assumes "registry_keys_ok b" "validate_relationships b = Inr b"
  shows "select_developer b t =
    (case map_of (cb_teams b) (t_team t) of
       None \<Rightarrow> Inl NotProductTeam
     | Some tm \<Rightarrow>
         if tm_type tm \<noteq> Product then Inl NotProductTeam
         else if tm_project tm \<noteq> Some (t_project t) then Inl NotReciprocal
         else (case filter (eligible_in b) (sort (tm_agents tm)) of
             [] \<Rightarrow> Inl NoDeveloper
           | [i] \<Rightarrow> Inr \<lparr>sl_agent = i, sl_definition = the (map_of (cb_agents b) i)\<rparr>
           | is \<Rightarrow> Inl (SeveralDevelopers is)))"
  unfolding developers_def [symmetric]
  using assms by (intro select_developer_cases) (simp add: validate_relationships_iff)

lemma sample_eligible: "eligible_in sample_bundle ''coder''"
  by (simp add: eligible_in_def sample_bundle_defs eligible_def required_capabilities_def
      prohibited_capabilities_def)

theorem selection_exact_witness:
  "select_developer sample_bundle sample_task = Inr \<lparr>sl_agent = ''coder'', sl_definition = sample_agent\<rparr>"
  using selection_exact [OF sample_bundle_keys sample_bundle_checked, of sample_task] sample_eligible
  by (simp add: sample_bundle_def sample_team_def)

section \<open>Paths\<close>

lemma safe_path_components:
  assumes "safe_relative_path v = Some p"
  shows "\<not> is_absolute p \<and> path_components p = path_components v \<and> ''..'' \<notin> set (path_components p)"
proof (cases "path_components v = []")
  case True
  with assms have "p = ''.''"
    by (auto simp: safe_relative_path_def as_posix_def relative_root split: if_splits)
  with True show ?thesis by (simp add: is_absolute_def startswith_def path_components_def)
next
  case False
  from assms have v: "\<not> is_absolute v" "''..'' \<notin> set (path_parts v)" "p = as_posix v"
    by (auto simp: safe_relative_path_def split: if_splits)
  then have p: "p = join ''/'' (path_components v)"
    using False by (simp add: as_posix_def relative_root)
  have "\<not> is_absolute p"
    unfolding p by (rule join_not_absolute [OF False]) (auto dest: path_component_props)
  moreover have "path_components p = path_components v"
    unfolding p by (rule path_components_join [OF False]) (auto dest: path_component_props)
  ultimately show ?thesis using v by (simp add: path_parts_def relative_root)
qed

text \<open>A configured path that passes its check cannot escape the directory it is joined to: the
  normalised text is relative, keeps the components of the original, and none of them is \<open>..\<close>.\<close>

theorem configured_path_stays_inside:
  assumes "validate_relative_path v = Inr p"
  shows "\<not> is_absolute p \<and> path_components p = path_components v \<and> ''..'' \<notin> set (path_components p) \<and>
    path_components (root @ ''/'' @ p) = path_components (root @ ''/'') @ path_components v"
proof -
  have safe: "safe_relative_path v = Some p"
    using assms by (auto simp: validate_relative_path_def split: if_splits option.splits)
  have "split_on slash (xs @ slash # ys) = split_on slash xs @ split_on slash ys" for xs ys
    by (induction xs) (auto split: list.splits)
  then have "path_components (root @ ''/'' @ p) = path_components (root @ ''/'') @ path_components p"
    by (simp add: path_components_def)
  with safe_path_components [OF safe] show ?thesis by metis
qed

theorem configured_path_stays_inside_witness:
  "path_components (''/srv'' @ ''/'' @ ''projects/hub'') = [''srv'', ''projects'', ''hub'']"
proof -
  have "validate_relative_path ''projects/./hub'' = Inr ''projects/hub''" by code_simp
  from configured_path_stays_inside [OF this, of "''/srv''"] show ?thesis
    by (simp add: path_components_def)
qed

definition nested_bundle :: config_bundle where
  "nested_bundle = sample_bundle
     \<lparr>cb_agents := [(''coder'', sample_agent), (''other'', sample_agent\<lparr>ag_team := ''extra''\<rparr>)],
      cb_teams := [(''core'', sample_team),
        (''extra'', sample_team\<lparr>tm_room := ''extra'', tm_agents := [''other''], tm_project := Some ''inner''\<rparr>)],
      cb_projects := [(''hub'', sample_project ''workspace/projects/hub'' ''core''),
        (''inner'', sample_project ''workspace/projects/hub/vendor'' ''extra'')]\<rparr>"

text \<open>The configuration check compares workspaces for equality only: a configuration in which the
  workspace of one project lies inside the workspace of another is accepted.\<close>

theorem nested_workspaces_accepted:
  "\<exists>b p q. validate_relationships b = Inr b \<and> registry_keys_ok b \<and>
     map_of (cb_projects b) ''hub'' = Some p \<and> map_of (cb_projects b) ''inner'' = Some q \<and>
     take (length (path_components (pd_workspace p))) (path_components (pd_workspace q)) =
       path_components (pd_workspace p)"
proof -
  have "validate_relationships nested_bundle = Inr nested_bundle" by code_simp
  moreover have "registry_keys_ok nested_bundle" by (simp add: registry_keys_ok_def nested_bundle_def sample_bundle_def)
  ultimately show ?thesis
    by (intro exI [of _ nested_bundle] exI [of _ "sample_project ''workspace/projects/hub'' ''core''"]
        exI [of _ "sample_project ''workspace/projects/hub/vendor'' ''extra''"])
      (simp add: nested_bundle_def sample_project_def path_components_def sample_bundle_def)
qed

section \<open>Gateway documents, keys and identifiers\<close>

text \<open>A response survives being stored: reading its JSON document gives the response back, also
  after the store has sorted the keys, and the document never contains a key that the store refuses.\<close>

theorem response_round_trip:
  assumes "valid_response r"
  shows "response_of_document (response_document r) = Inr r \<and>
    response_of_document (canonical_object (response_document r)) = Inr r \<and>
    find_forbidden_key (JObj (response_document r)) = None"
  using response_round_trip_both [OF assms] response_keys_allowed [of r]
  by (simp add: find_forbidden_key_def find_forbidden_None del: keys_allowed.simps)

definition plain_response :: gateway_response where
  "plain_response = \<lparr>rs_success = True, rs_code = OK, rs_message = ''ok'', rs_task = None, rs_tasks = [],
     rs_replayed = False\<rparr>"

theorem response_round_trip_witness:
  "response_of_document (canonical_object (response_document plain_response)) = Inr plain_response"
  using response_round_trip [of plain_response]
  by (simp add: valid_response_def GatewayResponse_validate_def plain_response_def checked_def meets_def
      SafeMessage_def strip_def is_space_def in_range_def)

text \<open>What the gateway derives from a valid request passes every later check: its idempotency key is
  a key the durable ledger accepts as it is, and the task identifier made from the key is a task
  identifier, whatever \<open>uuid5\<close> returns.\<close>

theorem derived_names_valid:
  assumes "valid_request r"
  shows "clean IdempotencyKey (idempotency_key r) \<and>
    clean TaskId (uuid_task_id uuid5 (idempotency_key r)) \<and>
    length (uuid_task_id uuid5 (idempotency_key r)) = 37"
  using idempotency_key_clean [OF assms] uuid_task_id_clean by (simp add: uuid_task_id_def)

definition sample_request :: "gateway_command \<Rightarrow> gateway_request" where
  "sample_request c =
     \<lparr>rq_source = ''slack'', rq_event = ''Ev01'', rq_actor = ''U1'', rq_reply = None, rq_command = c,
      rq_project = (if c = DEV then Some ''hub'' else None),
      rq_task = (if c = TASK \<or> c = STOP then Some ''TASK-1'' else None),
      rq_instruction = (if c = DEV then Some ''Fix the build'' else None)\<rparr>"

lemma sample_request_valid: "valid_request (sample_request c)"
  by (cases c) (simp_all add: valid_request_iff sample_request_def command_shape_def check_simps
      SourceEventId_def OpaqueId_def TaskInstruction_def is_opaque_char_def is_control_def)

theorem derived_names_valid_witness:
  "clean IdempotencyKey (idempotency_key (sample_request DEV))"
  using derived_names_valid [OF sample_request_valid] by simp

section \<open>Secrets\<close>

text \<open>No secret-shaped key or value is ever stored: in a reachable store no event payload and no
  remembered response contains a forbidden key at any depth, and no route and no delivery
  identifier has the shape of a secret.\<close>

theorem no_secrets_stored:
  assumes "reachable s"
  shows "(\<forall>r \<in> set (db_events (st_db s)). find_forbidden_payload_key (JObj (ev_payload (er_json r))) = None) \<and>
    (\<forall>r \<in> set (db_requests (st_db s)). \<forall>doc. gq_response r = Some doc \<longrightarrow> find_forbidden_key (JObj doc) = None) \<and>
    (\<forall>r \<in> set (db_routes (st_db s)). \<not> secret_shaped (route_source r) \<and> \<not> secret_shaped (route_target r)) \<and>
    (\<forall>r \<in> set (db_receipts (st_db s)). \<not> secret_shaped (rc_id r))"
proof -
  have "tables_ok (st_db s)" using reachable_db [OF assms] by (simp add: db_inv_def)
  then have e: "\<And>r. r \<in> set (db_events (st_db s)) \<Longrightarrow> valid_event (er_json r)"
    and q: "\<And>r. r \<in> set (db_requests (st_db s)) \<Longrightarrow> request_row_ok r"
    and t: "\<And>r. r \<in> set (db_routes (st_db s)) \<Longrightarrow> valid_route r"
    and d: "\<And>r. r \<in> set (db_receipts (st_db s)) \<Longrightarrow> valid_receipt r"
    by (auto simp: tables_ok_def events_ok_def event_row_ok_def requests_ok_def routes_ok_def receipts_ok_def)
  show ?thesis
    using e q t d
    by (simp add: valid_event_iff context_ok_def find_forbidden_payload_key_def find_forbidden_key_def
        find_forbidden_None request_row_ok_def opt_all_iff valid_route_iff valid_receipt_iff
        clean_route_value_def clean_delivery_key_def del: keys_allowed.simps)
qed

theorem no_secrets_stored_witness:
  "find_forbidden_payload_key (JObj (ev_payload (er_json (event_row_of 2 sample_queued)))) = None"
  using no_secrets_stored [OF sample_reachable] by (simp add: sample_tables)

end
