(* ===== verification/OrchestratorSafety.thy ===== *)
theory OrchestratorSafety
  imports Orchestrator Progress
begin

text \<open>
  The orchestrator acts on the store through its operations only: whatever the workspace, the runtime
  and the others do, \<open>process_task\<close> and \<open>cancel_task\<close> take the store along \<open>store_step\<close>, so that every
  property of reachable stores holds while tasks are processed. \<open>steps_act\<close> says this of an action;
  it is closed under the ways the code composes actions.
\<close>

section \<open>Actions made of store steps\<close>

definition steps_act :: "(store, 'e, 'a) act \<Rightarrow> bool" where
  "steps_act m \<longleftrightarrow> (\<forall>s. store_step\<^sup>*\<^sup>* s (snd (m s)))"

lemma steps_actI: "(\<And>s. store_step s (snd (m s))) \<Longrightarrow> steps_act m"
  by (simp add: steps_act_def r_into_rtranclp)

lemma steps_actD: "steps_act m \<Longrightarrow> m s = (r, s') \<Longrightarrow> store_step\<^sup>*\<^sup>* s s'"
  unfolding steps_act_def by (metis snd_conv)

lemma steps_simple [simp]:
  "steps_act (act_return x)" "steps_act (act_raise e)" "steps_act (act_lift r)" "steps_act (act_query q)"
  "steps_act (act_require b e)"
  by (simp_all add: steps_act_def act_defs act_query_def)

lemma steps_bind:
  assumes "steps_act m" "\<And>x. steps_act (f x)"
  shows "steps_act (act_bind m f)"
  unfolding steps_act_def
proof
  fix s
  obtain r s' where m: "m s = (r, s')" by (cases "m s") auto
  have first: "store_step\<^sup>*\<^sup>* s s'" by (rule steps_actD [OF assms(1) m])
  show "store_step\<^sup>*\<^sup>* s (snd (act_bind m f s))"
  proof (cases r)
    case (Inl e)
    with m first show ?thesis by (simp add: act_bind_def)
  next
    case (Inr x)
    have "store_step\<^sup>*\<^sup>* s' (snd (f x s'))" using assms(2) by (simp add: steps_act_def)
    with first m Inr show ?thesis by (simp add: act_bind_def)
  qed
qed

lemma steps_lift_bind: "(\<And>x. r = Inr x \<Longrightarrow> steps_act (f x)) \<Longrightarrow> steps_act (act_bind (act_lift r) f)"
  by (cases r) (auto simp: steps_act_def act_defs)

lemma steps_map_raise: "steps_act m \<Longrightarrow> steps_act (map_raise h m)"
  by (simp add: steps_act_def)

lemma steps_if: "(b \<Longrightarrow> steps_act m) \<Longrightarrow> (\<not> b \<Longrightarrow> steps_act m') \<Longrightarrow> steps_act (if b then m else m')"
  by simp

lemmas steps_intros = steps_bind steps_lift_bind steps_map_raise steps_if steps_simple

section \<open>The worker's operations\<close>

text \<open>The others use the store through its operations too.\<close>

definition lawful :: "worker \<Rightarrow> bool" where
  "lawful w \<longleftrightarrow> (\<forall>p s. store_step\<^sup>*\<^sup>* s (wk_meanwhile w p s))"

lemma steps_during: "lawful w \<Longrightarrow> steps_act op \<Longrightarrow> steps_act (during w p op)"
  unfolding steps_act_def lawful_def during_def by (metis rtranclp_trans)

lemma steps_notify: "lawful w \<Longrightarrow> steps_act (notify w p)"
  by (simp add: steps_act_def notify_def act_modify_def lawful_def)

lemma dict_put_keys:
  "fst ` set (dict_put xs e) = insert (fst e) (fst ` set xs)"
  "distinct (map fst xs) \<Longrightarrow> distinct (map fst (dict_put xs e))"
  "list_all P xs \<Longrightarrow> P e \<Longrightarrow> list_all P (dict_put xs e)"
proof -
  show keys: "fst ` set (dict_put xs e) = insert (fst e) (fst ` set xs)" for xs
    by (induction xs) auto
  show "distinct (map fst xs) \<Longrightarrow> distinct (map fst (dict_put xs e))"
    using keys by (induction xs) (auto simp: image_iff)
  show "list_all P xs \<Longrightarrow> P e \<Longrightarrow> list_all P (dict_put xs e)"
    by (induction xs) auto
qed

lemma json_wf_merge:
  "json_wf (JObj xs) \<Longrightarrow> list_all (\<lambda>e. json_wf (snd e)) ys \<Longrightarrow> json_wf (JObj (dict_merge xs ys))"
  unfolding dict_merge_def by (induction ys arbitrary: xs) (simp_all add: dict_put_keys)

lemma worker_event_valid:
  assumes "worker_event w p t ty agent level payload = Inr e" "json_wf (JObj payload)"
  shows "valid_event e"
proof -
  have "ev_payload e = payload"
    using assms(1) by (auto simp: worker_event_def Event_validate_def result_simps)
  moreover have "event_fields_clean e \<and> context_ok e"
    using assms(1) Event_validate_Ok unfolding worker_event_def map_error_Ok by blast
  ultimately show ?thesis
    using assms(2) by (simp add: valid_event_iff del: json_wf.simps)
qed

lemma steps_worker_event:
  assumes "json_wf (JObj payload)" "\<And>e. valid_event e \<Longrightarrow> steps_act (f e)"
  shows "steps_act (act_bind (act_lift (worker_event w p t ty agent level payload)) f)"
  using assms by (blast intro: steps_lift_bind worker_event_valid)

lemma steps_transition_task: "valid_event e \<Longrightarrow> steps_act (transition_stored_task now i target e)"
  by (intro steps_actI store_step.transition_task)

lemma steps_worker_transition:
  assumes "lawful w" "list_all (\<lambda>e. json_wf (snd e)) payload"
  shows "steps_act (worker_transition w p t target agent level payload)"
proof (cases "transition_event_type target")
  case (Some ty)
  have "json_wf (JObj (dict_merge [(''status'', JStr (status_value target))] payload))"
    by (rule json_wf_merge [OF _ assms(2)]) simp
  then show ?thesis
    unfolding worker_transition_def Some option.case
    by (intro steps_worker_event steps_during [OF assms(1)] steps_transition_task)
qed (simp add: worker_transition_def)

text \<open>The other operations the worker awaits.\<close>

lemma steps_operations:
  "valid_event e \<Longrightarrow> steps_act (assign_task i agent e)"
  "valid_event e \<Longrightarrow> steps_act (cancel_stored_task now i e)"
  "valid_run r \<Longrightarrow> steps_act (create_run r)"
  "steps_act (start_run now i at)"
  "steps_act (finish_run now i status at code err)"
  by (auto intro!: steps_actI intro: store_step.intros simp: cancel_stored_task_def)

lemma texts_wf: "json_wf (JArr (map JStr xs))"
  by (simp add: list_all_iff)

lemma steps_finish_task:
  assumes "lawful w"
  shows "steps_act (finish_task w t result branch)"
proof -
  have wf: "json_wf (JObj (outcome_payload result branch))"
    by (simp add: outcome_payload_def texts_wf del: json_wf.simps(1))
  have entries: "list_all (\<lambda>e. json_wf (snd e)) (dict_merge (outcome_payload result branch) xs)"
    if "list_all (\<lambda>e. json_wf (snd e)) xs" for xs
    using json_wf_merge [OF wf that] by simp
  show ?thesis
    unfolding finish_task_def
    by (cases "re_status result")
      (auto intro!: steps_worker_transition steps_worker_event steps_during steps_operations assms
        entries json_wf_merge wf simp del: json_wf.simps(2))
qed

lemma steps_record_run:
  assumes "lawful w"
  shows "steps_act (record_run w t agent)"
  unfolding record_run_def
  by (intro steps_lift_bind steps_bind steps_during [OF assms] steps_operations steps_simple)
    (auto simp: result_simps dest: RunRecord_validate_valid)

lemma steps_run_runtime_on: "lawful w \<Longrightarrow> steps_act (run_runtime_on w t agent)"
  unfolding run_runtime_on_def by (intro steps_during) (simp_all split: option.split)

lemma steps_do_work:
  assumes "lawful w"
  shows "steps_act (do_work w agent t branch)"
  unfolding do_work_def finish_runtime_run_def
  by (intro steps_bind steps_map_raise steps_if steps_simple steps_worker_transition steps_notify
      steps_record_run steps_during steps_operations steps_run_runtime_on steps_finish_task assms) simp

section \<open>The workflow\<close>

lemma steps_in_workspace:
  assumes "lawful w"
  shows "store_step\<^sup>*\<^sup>* s (snd (in_workspace w agent t s))"
proof -
  have opened: "store_step\<^sup>*\<^sup>* s (wk_meanwhile w Open_workspace s)"
    using assms by (simp add: lawful_def)
  have "store_step\<^sup>*\<^sup>* s (wk_meanwhile w Close_workspace s2)"
    if "do_work w agent t branch (wk_meanwhile w Open_workspace s) = (r, s2)" for branch r s2
    using opened steps_actD [OF steps_do_work [OF assms] that] assms
    unfolding lawful_def by (metis rtranclp_trans)
  with opened show ?thesis
    unfolding in_workspace_def Let_def
    by (auto split: sum.split workspace_error.split prod.split)
qed

lemma steps_conclude_task:
  assumes "lawful w"
  shows "steps_act (conclude_task w t target level code)"
  unfolding conclude_task_def
  by (intro steps_bind steps_during steps_simple steps_worker_transition steps_notify assms) simp

lemma steps_close_open_run:
  assumes "lawful w"
  shows "steps_act (close_open_run w p)"
proof -
  have "steps_act (during w Close_run (finish_run (wk_clock w Close_run) i RunFailed None None
      (Some ''runtime-exception'')))" for i
    by (intro steps_during steps_operations assms)
  then show ?thesis
    by (cases p) (simp_all add: steps_act_def close_open_run_def)
qed

lemma steps_rescue:
  assumes "lawful w"
  shows "steps_act (rescue w t p)"
  unfolding rescue_def fail_task_def
  by (intro steps_bind steps_if steps_close_open_run steps_during steps_simple steps_conclude_task assms)

lemma steps_attempt:
  assumes "lawful w"
  shows "steps_act (attempt w agent t)"
  unfolding steps_act_def
proof
  fix s
  obtain r s1 where r: "in_workspace w agent t s = (r, s1)"
    by (cases "in_workspace w agent t s") auto
  with steps_in_workspace [OF assms, of s agent t] have first: "store_step\<^sup>*\<^sup>* s s1" by simp
  have rest: "store_step\<^sup>*\<^sup>* s1 (snd (m s1))" if "steps_act m" for m :: "process_result store_act"
    using that by (simp add: steps_act_def)
  have final: "steps_act (act_bind (notify w Notify_result) (\<lambda>_. act_return x))" for x
    by (intro steps_bind steps_notify steps_simple assms)
  have "store_step\<^sup>*\<^sup>* s1 (snd (attempt w agent t s))"
    using rest [OF steps_conclude_task [OF assms]] rest [OF steps_rescue [OF assms]] rest [OF final]
    by (simp add: attempt_def r hold_task_def fail_task_def split: sum.split work_error.split prod.split)
  with first show "store_step\<^sup>*\<^sup>* s (snd (attempt w agent t s))" by (rule rtranclp_trans)
qed

lemma steps_assign_developer:
  assumes "lawful w"
  shows "steps_act (assign_developer w t developer)"
  unfolding assign_developer_def
  by (intro steps_worker_event steps_during steps_operations assms) (simp_all add: assignment_payload_def)

lemma steps_process_task:
  assumes "lawful w"
  shows "steps_act (process_task w i)"
proof -
  have "steps_act (case select_developer (wk_bundle w) t of
      Inl (KeyError k) \<Rightarrow> act_raise RuntimeError
    | Inl _ \<Rightarrow> fail_task w t ''developer-selection''
    | Inr developer \<Rightarrow> act_bind (assign_developer w t developer) (\<lambda>t. attempt w (sl_agent developer) t))" for t
    by (auto split: sum.split selection_error.split simp: fail_task_def
        intro!: steps_conclude_task steps_bind steps_assign_developer steps_attempt assms)
  then show ?thesis
    unfolding process_task_def
    by (intro steps_bind steps_if steps_during steps_simple steps_worker_transition assms) simp_all
qed

lemma steps_cancel_task:
  assumes "lawful w"
  shows "steps_act (cancel_task w i)"
proof -
  have "steps_act (stop_runtime w i)"
    unfolding stop_runtime_def by (intro steps_during assms) (simp split: stop_outcome.split)
  then show ?thesis
    unfolding cancel_task_def
    by (intro steps_bind steps_if steps_during steps_simple steps_worker_event steps_operations
        steps_notify assms) simp_all
qed

end
