(* ===== verification/GatewaySafety.thy ===== *)
theory GatewaySafety
  imports Adapters OrchestratorSafety
begin

text \<open>
  What a gateway request does, whatever its ports answer. \<open>port_relation\<close> is the contract of ports
  whose effects stay within a preorder on the states outside: then so does \<open>handle\<close>. \<open>answering\<close> is
  the contract of ports that raise exceptions only and hand out validated views: then \<open>handle\<close>
  always returns a validated response. The composed gateway satisfies both.
\<close>

section \<open>Ports whose effects are steps\<close>

locale port_relation =
  fixes R :: "'s \<Rightarrow> 's \<Rightarrow> bool" and g :: "'s gateway"
  assumes stays: "R s s"
    and goes_on: "R s t \<Longrightarrow> R t u \<Longrightarrow> R s u"
    and authorize: "R s (snd (gw_authorize g a c p s))"
    and create: "R s (snd (gw_create g cc s))"
    and cancel: "R s (snd (gw_cancel g kc s))"
    and get: "R s (snd (gw_get_task g i s))"
    and listing: "R s (snd (gw_list_tasks g n s))"
    and enqueue: "R s (snd (gw_enqueue g i s))"
    and cached: "R s (snd (gw_cached g k s))"
    and reserve: "R s (snd (gw_reserve g k s))"
    and remember: "R s (snd (gw_remember g k r s))"
    and release: "R s (snd (gw_release g k s))"
begin

lemma bind:
  assumes "\<And>s. R s (snd (m s))" "\<And>x s. R s (snd (f x s))"
  shows "R s (snd (act_bind m f s))"
proof (cases "m s")
  case (Pair r t)
  with assms(1) [of s] goes_on assms(2) show ?thesis
    by (cases r) (auto simp: act_bind_def)
qed

lemma catch:
  assumes "\<And>s. R s (snd (m s))" "\<And>e s. R s (snd (h e s))"
  shows "R s (snd (catching m h s))"
proof (cases "m s")
  case (Pair r t)
  with assms(1) [of s] goes_on assms(2) show ?thesis
    by (cases r) (auto simp: catching_def)
qed

lemma simple [simp]:
  "R s (snd (act_return x s))" "R s (snd (act_raise e s))" "R s (snd (act_lift r s))"
  "R s (snd (respond resp s))"
  by (simp_all add: act_defs respond_def stays)

lemma dispatch: "R s (snd (dispatch g r s))"
proof -
  have "R s (snd (dispatch_create g r s))" for s
    unfolding dispatch_create_def by (intro bind catch create enqueue simple) (simp split: option.split)
  moreover have "R s (snd (dispatch_detail g r s))" for s
  proof (cases "rq_task r")
    case (Some i)
    then show ?thesis
      unfolding dispatch_detail_def by (simp) (intro bind get, simp split: option.split)
  qed (simp add: dispatch_detail_def)
  moreover have "R s (snd (dispatch_list g s))" "R s (snd (dispatch_status g s))"
      "R s (snd (dispatch_cancel g r s))" for s
    unfolding dispatch_list_def dispatch_status_def dispatch_cancel_def
    by (intro bind listing cancel simple)+
  ultimately show ?thesis
    by (simp add: dispatch_def split: gateway_command.split)
qed

lemma settle: "R s (snd (settle g k resp s))"
  unfolding settle_def release_quietly_def
  by (auto intro!: bind catch release remember)

lemma perform: "R s (snd (perform g r s))"
proof (cases "dispatch g r s")
  case (Pair x t)
  then have "R s t" using dispatch [of s r] by simp
  moreover have "R t (snd (act_bind (release_quietly g k) (\<lambda>_. act_raise Interruption :: ('s, gateway_response) port) t))" for k
    unfolding release_quietly_def by (intro bind catch release simple)
  ultimately show ?thesis
    using Pair settle goes_on
    by (auto simp: perform_def split: sum.split port_error.split)
qed

lemma handle: "R s (snd (handle g r s))"
proof -
  have new: "R s (snd (handle_new g r s))" for s
    using reserve [of s "idempotency_key r"] perform goes_on
    by (auto simp: handle_new_def split: prod.split sum.split)
  have "R s (snd (handle_authorized g r s))" for s
    using cached [of s "idempotency_key r"] new goes_on
    by (auto simp: handle_authorized_def split: prod.split sum.split option.split)
  then show ?thesis
    using authorize [of s "rq_actor r" "rq_command r" "rq_project r"] goes_on
    by (auto simp: handle_def split: prod.split sum.split)
qed

end

section \<open>The composed gateway acts on the store through its operations\<close>

definition lawful_surroundings :: "surroundings \<Rightarrow> bool" where
  "lawful_surroundings sr \<longleftrightarrow> (\<forall>p s. store_step\<^sup>*\<^sup>* s (sr_meanwhile sr p s)) \<and> lawful (sr_worker sr)"

lemma steps_awaiting: "lawful_surroundings sr \<Longrightarrow> steps_act op \<Longrightarrow> steps_act (awaiting sr p op)"
  unfolding steps_act_def lawful_surroundings_def awaiting_def by (metis rtranclp_trans)

lemma steps_view_port: "steps_act (view_port t)"
  by (simp add: view_port_def)

lemma steps_ledger:
  "steps_act (durable_get now k)" "steps_act (durable_reserve now k)" "steps_act (durable_remember now k r)"
  "steps_act (durable_release now k)"
proof -
  show "steps_act (durable_get now k)" by (simp add: steps_act_def durable_get_def)
  show "steps_act (durable_reserve now k)"
    unfolding durable_reserve_def by (intro steps_actI store_step.reserve_request)
  show "steps_act (durable_remember now k r)"
    unfolding durable_remember_def
    by (rule steps_bind) (simp_all add: steps_actI store_step.remember_response)
  show "steps_act (durable_release now k)"
    unfolding durable_release_def
    by (rule steps_bind) (simp_all add: steps_actI store_step.release_request)
qed

lemma lifecycle_event_valid:
  "Event_validate (lifecycle_event i at corr cause t ty st) = Inr e \<Longrightarrow> valid_event e"
proof -
  assume e: "Event_validate (lifecycle_event i at corr cause t ty st) = Inr e"
  then have "ev_payload e = [(''status'', JStr (status_value st))]"
    by (auto simp: Event_validate_def result_simps lifecycle_event_def)
  with Event_validate_Ok [OF e] show ?thesis by (simp add: valid_event_iff)
qed

lemma steps_store_created:
  assumes "lawful_surroundings sr" "valid_task t" "t_agents t = []" "valid_event e1" "valid_event e2"
    "opt_all valid_route route"
  shows "steps_act (store_created sr t e1 e2 route)"
  unfolding steps_act_def
proof
  fix s
  have first: "steps_act (awaiting sr At_create (create_queued_task (sr_now sr) t e1 e2 route))"
    by (intro steps_awaiting steps_actI store_step.create_queued_task assms)
  have replay: "steps_act (replay_created sr t route)"
    unfolding replay_created_def
    by (intro steps_bind steps_awaiting steps_map_raise steps_simple assms)
  obtain r s' where r: "awaiting sr At_create (create_queued_task (sr_now sr) t e1 e2 route) s = (r, s')"
    by (cases "awaiting sr At_create (create_queued_task (sr_now sr) t e1 e2 route) s") auto
  with steps_actD [OF first r] replay show "store_step\<^sup>*\<^sup>* s (snd (store_created sr t e1 e2 route s))"
    unfolding steps_act_def by (auto simp: store_created_def split: sum.split intro: rtranclp_trans)
qed

lemma steps_adapter_create:
  assumes "lawful_surroundings sr"
  shows "steps_act (adapter_create sr b c)"
proof (cases "map_of (cb_projects b) (cc_project c)")
  case (Some p)
  have t: "valid_task t \<and> t_agents t = []" if "command_task sr c p = Inr t" for t
    using that by (auto simp: command_task_def map_error_Ok Task_validate_valid)
      (auto simp: Task_validate_def result_simps)
  have e: "valid_event e" if "validated_event (lifecycle_event i at corr cause t ty st) = Inr e"
    for i at corr cause t ty st e
    using that by (simp add: validated_event_def map_error_Ok lifecycle_event_valid)
  have route: "opt_all valid_route route" if "command_route c i = Inr route" for i route
    using that by (auto simp: command_route_def result_simps valid_route_iff dest: TaskRoute_validate_Ok
        split: option.splits)
  show ?thesis
    unfolding adapter_create_def Some option.case
    by (intro steps_lift_bind steps_bind steps_store_created steps_view_port assms)
      (auto dest: t e route)
qed (simp add: adapter_create_def)

lemma steps_adapter_rest:
  assumes "lawful_surroundings sr"
  shows "steps_act (adapter_cancel sr kc)" "steps_act (adapter_get sr i)" "steps_act (adapter_list sr n)"
    "steps_act (adapter_enqueue sr i)"
proof -
  show "steps_act (adapter_cancel sr kc)"
    using assms unfolding adapter_cancel_def lawful_surroundings_def
    by (intro steps_bind steps_map_raise steps_cancel_task steps_view_port) simp
  have read: "steps_act (\<lambda>s. case get_task i s of
      Inl e \<Rightarrow> (if e = StorageError RecordNotFoundError then Inr None else Inl (storage_failure e), s)
    | Inr t \<Rightarrow> act_bind (view_port t) (\<lambda>v. act_return (Some v)) s)"
    by (simp add: steps_act_def view_port_def act_defs split: sum.split)
  show "steps_act (adapter_get sr i)"
    unfolding adapter_get_def by (intro steps_awaiting assms read)
  show "steps_act (adapter_list sr n)"
    unfolding adapter_list_def
    by (intro steps_bind steps_awaiting steps_map_raise steps_simple assms)
  show "steps_act (adapter_enqueue sr i)"
    unfolding adapter_enqueue_def enqueue_body_def
    by (intro steps_bind steps_map_raise steps_if steps_lift_bind steps_awaiting steps_transition_task
        steps_simple steps_view_port assms) (auto simp: map_error_Ok lifecycle_event_valid)
qed

interpretation composed: port_relation "\<lambda>s s'. lawful_surroundings sr \<longrightarrow> store_step\<^sup>*\<^sup>* s s'"
  "sqlite_gateway sr b allowed" for sr b allowed
proof unfold_locales
  fix s
  have ledger: "lawful_surroundings sr \<longrightarrow>
      store_step\<^sup>*\<^sup>* s (snd (awaiting sr p (map_raise untranslated m) s))"
    if "steps_act m" for p and m :: "'a store_act"
    using steps_awaiting [OF _ steps_map_raise [OF that], of sr p untranslated] by (simp add: steps_act_def)
  show "lawful_surroundings sr \<longrightarrow> store_step\<^sup>*\<^sup>* s (snd (gw_cached (sqlite_gateway sr b allowed) k s))" for k
    using ledger [OF steps_ledger(1)] by (simp add: sqlite_gateway_def)
  show "lawful_surroundings sr \<longrightarrow> store_step\<^sup>*\<^sup>* s (snd (gw_reserve (sqlite_gateway sr b allowed) k s))" for k
    using ledger [OF steps_ledger(2)] by (simp add: sqlite_gateway_def)
  show "lawful_surroundings sr \<longrightarrow> store_step\<^sup>*\<^sup>* s (snd (gw_remember (sqlite_gateway sr b allowed) k r s))" for k r
    using ledger [OF steps_ledger(3)] by (simp add: sqlite_gateway_def)
  show "lawful_surroundings sr \<longrightarrow> store_step\<^sup>*\<^sup>* s (snd (gw_release (sqlite_gateway sr b allowed) k s))" for k
    using ledger [OF steps_ledger(4)] by (simp add: sqlite_gateway_def)
qed (use steps_adapter_create steps_adapter_rest in
  \<open>auto simp: sqlite_gateway_def allowlist_def act_return_def steps_act_def intro: rtranclp_trans\<close>)

section \<open>Ports that answer\<close>

text \<open>A call that returns a value with the property or raises an \<open>Exception\<close>.\<close>

definition answers :: "('a \<Rightarrow> bool) \<Rightarrow> ('s, 'a) port \<Rightarrow> bool" where
  "answers P m \<longleftrightarrow> (\<forall>s. fst (m s) \<noteq> Inl Interruption \<and> (\<forall>x. fst (m s) = Inr x \<longrightarrow> P x))"

lemma answers_bind:
  "answers P m \<Longrightarrow> (\<And>x. P x \<Longrightarrow> answers Q (f x)) \<Longrightarrow> answers Q (act_bind m f)"
  by (simp add: answers_def act_bind_def split: prod.split sum.split) (metis fst_conv)

lemma answers_catching:
  "answers P m \<Longrightarrow> (\<And>e. answers P (h e)) \<Longrightarrow> answers P (catching m h)"
  by (simp add: answers_def catching_def split: prod.split sum.split) (metis fst_conv)

lemma answers_simple:
  "P x \<Longrightarrow> answers P (act_return x)" "e \<noteq> Interruption \<Longrightarrow> answers P (act_raise e)"
  "r \<noteq> Inl Interruption \<Longrightarrow> (\<And>x. r = Inr x \<Longrightarrow> P x) \<Longrightarrow> answers P (act_lift r)"
  by (simp_all add: answers_def act_defs)

lemma answers_translated:
  "(\<And>e. h e \<noteq> Interruption) \<Longrightarrow> (\<And>s x. fst (m s) = Inr x \<Longrightarrow> P x) \<Longrightarrow> answers P (map_raise h m)"
  by (simp add: answers_def map_raise_def split: prod.split sum.split) (metis fst_conv)

lemma answers_awaiting: "answers P m \<Longrightarrow> answers P (awaiting sr p m)"
  by (simp add: answers_def awaiting_def)

lemma translated_not_interrupted [simp]:
  "untranslated e \<noteq> Interruption" "storage_failure e \<noteq> Interruption" "change_failure e \<noteq> Interruption"
  "map_error (\<lambda>_. OtherException) r \<noteq> Inl Interruption"
proof -
  show "map_error (\<lambda>_. OtherException) r \<noteq> Inl Interruption" by (cases r) simp_all
qed (simp_all add: untranslated_def storage_failure_def change_failure_def split: py_error.split
      storage_error.split)

text \<open>A call that returns a value with the property whatever happens.\<close>

definition settles :: "('a \<Rightarrow> bool) \<Rightarrow> ('s, 'a) port \<Rightarrow> bool" where
  "settles P m \<longleftrightarrow> (\<forall>s. \<exists>x. fst (m s) = Inr x \<and> P x)"

lemma settlesD: "settles P m \<Longrightarrow> \<exists>x t. m s = (Inr x, t) \<and> P x"
  unfolding settles_def by (metis prod.collapse)

lemma settles_return: "P x \<Longrightarrow> settles P (act_return x)"
  by (simp add: settles_def act_return_def)

lemma settles_bind:
  assumes "settles P m" "\<And>x. P x \<Longrightarrow> settles Q (f x)"
  shows "settles Q (act_bind m f)"
  unfolding settles_def
proof
  fix s
  obtain x t where "m s = (Inr x, t)" "P x" using settlesD [OF assms(1)] by blast
  with settlesD [OF assms(2)] show "\<exists>y. fst (act_bind m f s) = Inr y \<and> Q y"
    by (simp add: act_bind_def) (metis fst_conv)
qed

lemma settles_catching:
  assumes "answers P m" "\<And>e. settles P (h e)"
  shows "settles P (catching m h)"
  unfolding settles_def
proof
  fix s
  obtain x t where m: "m s = (x, t)" by (cases "m s") auto
  then have "x \<noteq> Inl Interruption" "\<And>y. x = Inr y \<Longrightarrow> P y"
    using assms(1) unfolding answers_def by (metis fst_conv)+
  with m assms(2) show "\<exists>y. fst (catching m h s) = Inr y \<and> P y"
    by (cases x) (auto simp: catching_def settles_def)
qed

lemma valid_response_iff:
  "valid_response r \<longleftrightarrow> clean SafeMessage (rs_message r) \<and> length (rs_tasks r) \<le> 100 \<and>
     opt_all valid_view (rs_task r) \<and> list_all valid_view (rs_tasks r)"
proof
  assume "valid_response r"
  then obtain msg where "checked SafeMessage (rs_message r) = Inr msg" "length (rs_tasks r) \<le> 100"
    "r\<lparr>rs_message := msg\<rparr> = r" "opt_all valid_view (rs_task r)" "list_all valid_view (rs_tasks r)"
    by (auto simp: valid_response_def GatewayResponse_validate_def result_simps)
  moreover from this(3) have "msg = rs_message r" by (metis gateway_response.select_convs(3)
      gateway_response.surjective gateway_response.update_convs(3))
  ultimately show "clean SafeMessage (rs_message r) \<and> length (rs_tasks r) \<le> 100 \<and>
     opt_all valid_view (rs_task r) \<and> list_all valid_view (rs_tasks r)"
    by (simp add: clean_def)
qed (simp add: valid_response_def GatewayResponse_validate_def clean_def)

lemma fixed_texts_clean:
  "clean SafeMessage (rs_message auth_unavailable)" "clean SafeMessage (rs_message unauthorized)"
  "clean SafeMessage (rs_message credentials_refused)" "clean SafeMessage (rs_message dedup_unavailable)"
  "clean SafeMessage (rs_message in_progress)" "clean SafeMessage (rs_message (failure_response e))"
  "clean SafeMessage (rs_message (receipt_lost r))"
  by (simp_all add: clean_iff auth_unavailable_def unauthorized_def credentials_refused_def
      dedup_unavailable_def in_progress_def failure_response_def receipt_lost_def simple_response_def
      replayed_def meets_def SafeMessage_def strip_def is_space_def in_range_def split: port_error.split)

lemma simple_responses_valid:
  "valid_response auth_unavailable" "valid_response unauthorized" "valid_response credentials_refused"
  "valid_response dedup_unavailable" "valid_response in_progress" "valid_response (failure_response e)"
  using fixed_texts_clean
  by (simp_all add: valid_response_iff auth_unavailable_def unauthorized_def credentials_refused_def
      dedup_unavailable_def in_progress_def failure_response_def simple_response_def replayed_def
      split: port_error.split_asm port_error.split)

lemma validated_response:
  assumes "GatewayResponse_validate r = Inr r'" "opt_all valid_view (rs_task r)" "list_all valid_view (rs_tasks r)"
  shows "valid_response r'"
  using assms by (auto simp: GatewayResponse_validate_def valid_response_iff result_simps clean_iff)

lemma receipt_lost_valid: "valid_response r \<Longrightarrow> valid_response (receipt_lost r)"
  using fixed_texts_clean(7) [of r] by (simp add: valid_response_iff) (simp add: receipt_lost_def)

lemma replayed_valid: "valid_response r \<Longrightarrow> valid_response (replayed r)"
  by (simp add: valid_response_iff replayed_def)

lemma answers_respond:
  "opt_all valid_view (rs_task r) \<Longrightarrow> list_all valid_view (rs_tasks r) \<Longrightarrow> answers valid_response (respond r)"
  unfolding respond_def by (intro answers_simple) (auto simp: map_error_Ok validated_response)

locale answering =
  fixes g :: "'s gateway"
  assumes authorize: "answers (\<lambda>_. True) (gw_authorize g a c p)"
    and create: "answers valid_view (gw_create g cc)"
    and cancel: "answers valid_view (gw_cancel g kc)"
    and get: "answers (opt_all valid_view) (gw_get_task g i)"
    and listing: "answers (list_all valid_view) (gw_list_tasks g n)"
    and enqueue: "answers valid_view (gw_enqueue g i)"
    and cached: "answers (opt_all valid_response) (gw_cached g k)"
    and reserve: "answers (\<lambda>_. True) (gw_reserve g k)"
    and remember: "answers (\<lambda>_. True) (gw_remember g k r)"
    and release: "answers (\<lambda>_. True) (gw_release g k)"
begin

lemma dispatch: "answers valid_response (dispatch g r)"
proof -
  have "answers valid_response (dispatch_create g r)"
    unfolding dispatch_create_def
  proof (rule answers_bind [of "\<lambda>_. True"])
    show "answers (\<lambda>_. True) (act_lift (create_command_of g r))"
      by (rule answers_simple) (simp_all add: create_command_of_def split: option.split)
    fix command
    show "answers valid_response (act_bind (gw_create g command) (\<lambda>task.
        act_bind (catching (act_bind (gw_enqueue g (tv_task task)) (\<lambda>queued. act_return (Some queued)))
                 (\<lambda>_. act_return None)) (\<lambda>queued.
        case queued of
          None \<Rightarrow> respond \<lparr>rs_success = False, rs_code = UNAVAILABLE, rs_message = unqueued_message task,
                        rs_task = Some task, rs_tasks = [], rs_replayed = False\<rparr>
        | Some task \<Rightarrow> respond \<lparr>rs_success = True, rs_code = ACCEPTED, rs_message = created_message task,
                             rs_task = Some task, rs_tasks = [], rs_replayed = False\<rparr>)))"
      by (rule answers_bind [OF create], rule answers_bind [of "opt_all valid_view"],
          intro answers_catching answers_bind [OF enqueue] answers_simple)
        (auto intro!: answers_respond split: option.split)
  qed
  moreover have "answers valid_response (dispatch_detail g r)"
    unfolding dispatch_detail_def
    by (auto intro!: answers_bind [OF get] answers_simple answers_respond split: option.split)
  moreover have "answers valid_response (dispatch_list g)" "answers valid_response (dispatch_status g)"
    unfolding dispatch_list_def dispatch_status_def
    by (auto intro!: answers_bind [OF listing] answers_respond)
  moreover have "answers valid_response (dispatch_cancel g r)"
    unfolding dispatch_cancel_def
  proof (rule answers_bind [of "\<lambda>_. True"])
    show "answers (\<lambda>_. True) (act_lift (cancel_command_of r))"
      by (rule answers_simple) (simp_all add: cancel_command_of_def split: option.split)
  qed (auto intro!: answers_bind [OF cancel] answers_respond)
  moreover have "answers valid_response (respond (simple_response True OK help_text) :: ('s, gateway_response) port)"
    by (rule answers_respond) (simp_all add: simple_response_def)
  ultimately show ?thesis
    by (simp add: dispatch_def split: gateway_command.split)
qed

lemma settle: "valid_response x \<Longrightarrow> settles valid_response (settle g k x)"
  unfolding settle_def release_quietly_def
  by (auto intro!: settles_bind [OF settles_catching [OF release]] settles_catching
      answers_bind [OF remember] answers_simple settles_return receipt_lost_valid)

lemma perform: "settles valid_response (perform g r)"
  unfolding settles_def
proof
  fix s
  obtain x t where x: "dispatch g r s = (x, t)" by (cases "dispatch g r s") auto
  then have x': "x \<noteq> Inl Interruption" "\<And>resp. x = Inr resp \<Longrightarrow> valid_response resp"
    using dispatch [of r] unfolding answers_def by (metis fst_conv)+
  have settled: "\<exists>z. fst (settle g (idempotency_key r) y t) = Inr z \<and> valid_response z"
    if "valid_response y" for y
    using settle [OF that] by (simp add: settles_def)
  show "\<exists>z. fst (perform g r s) = Inr z \<and> valid_response z"
  proof (cases x)
    case (Inl e)
    with x x'(1) settled [OF simple_responses_valid(6)] show ?thesis
      by (cases e) (auto simp: perform_def)
  next
    case (Inr y)
    with x x'(2) settled show ?thesis by (simp add: perform_def)
  qed
qed

text \<open>No exception leaves \<open>handle\<close>, and what it returns is a validated response.\<close>

lemma handle: "settles valid_response (handle g r)"
  unfolding settles_def
proof
  fix s
  have new: "\<exists>x. fst (handle_new g r s) = Inr x \<and> valid_response x" for s
  proof -
    obtain b t where b: "gw_reserve g (idempotency_key r) s = (b, t)"
      by (cases "gw_reserve g (idempotency_key r) s") auto
    then have "b \<noteq> Inl Interruption"
      using reserve [of "idempotency_key r"] unfolding answers_def by (metis fst_conv)
    with b perform [of r] simple_responses_valid show ?thesis
      by (cases b) (auto simp: handle_new_def settles_def)
  qed
  have authorized: "\<exists>x. fst (handle_authorized g r s) = Inr x \<and> valid_response x" for s
  proof -
    obtain c t where c: "gw_cached g (idempotency_key r) s = (c, t)"
      by (cases "gw_cached g (idempotency_key r) s") auto
    then have "c \<noteq> Inl Interruption" "\<And>y. c = Inr y \<Longrightarrow> opt_all valid_response y"
      using cached [of "idempotency_key r"] unfolding answers_def by (metis fst_conv)+
    with c new simple_responses_valid replayed_valid show ?thesis
      by (cases c) (auto simp: handle_authorized_def split: option.split)
  qed
  obtain a t where a: "gw_authorize g (rq_actor r) (rq_command r) (rq_project r) s = (a, t)"
    by (cases "gw_authorize g (rq_actor r) (rq_command r) (rq_project r) s") auto
  then have "a \<noteq> Inl Interruption"
    using authorize [of "rq_actor r" "rq_command r" "rq_project r"] unfolding answers_def by (metis fst_conv)
  with a authorized simple_responses_valid show "\<exists>x. fst (handle g r s) = Inr x \<and> valid_response x"
    by (cases a) (auto simp: handle_def)
qed

end

section \<open>The composed gateway answers\<close>

lemma view_valid: "TaskView_validate v = Inr v' \<Longrightarrow> valid_view v'"
  by (auto simp: TaskView_validate_def valid_view_def result_simps traverse_checked_Ok dest!: checked_clean)
    (auto simp: clean_def list_all_iff traverse_checked_clean)

lemma answers_view_port: "answers valid_view (view_port t)"
  unfolding view_port_def by (intro answers_simple) (auto simp: map_error_Ok view_valid)

lemma default_field_Ok:
  "default_field doc k x read = Inr y \<Longrightarrow> P x \<Longrightarrow> (\<And>v y. read v = Inr y \<Longrightarrow> P y) \<Longrightarrow> P y"
  by (auto simp: default_field_def split: option.splits)

lemma document_view_valid: "view_of_document j = Inr v \<Longrightarrow> valid_view v"
  by (cases j) (auto simp: result_simps view_valid)

lemma document_views_valid:
  "read_view_option j = Inr x \<Longrightarrow> opt_all valid_view x"
  "read_list view_of_document j = Inr vs \<Longrightarrow> list_all valid_view vs"
proof -
  show "read_view_option j = Inr x \<Longrightarrow> opt_all valid_view x"
    by (cases j) (auto simp: result_simps intro: document_view_valid simp del: view_of_document.simps)
  have "traverse view_of_document js = Inr vs \<Longrightarrow> list_all valid_view vs" for js vs
    by (induction js arbitrary: vs) (auto simp: result_simps dest: document_view_valid)
  then show "read_list view_of_document j = Inr vs \<Longrightarrow> list_all valid_view vs"
    by (cases j) auto
qed

lemma document_response_valid:
  assumes "response_of_document doc = Inr r"
  shows "valid_response r"
proof -
  from assms obtain ok code msg t ts rep where
    t: "default_field doc ''task'' None read_view_option = Inr t" and
    ts: "default_field doc ''tasks'' [] (read_list view_of_document) = Inr ts" and
    r: "GatewayResponse_validate \<lparr>rs_success = ok, rs_code = code, rs_message = msg, rs_task = t,
      rs_tasks = ts, rs_replayed = rep\<rparr> = Inr r"
    by (auto simp: response_of_document_def and_then_Ok)
  have "opt_all valid_view t" by (rule default_field_Ok [OF t]) (simp_all add: document_views_valid)
  moreover have "list_all valid_view ts" by (rule default_field_Ok [OF ts]) (simp_all add: document_views_valid)
  ultimately show ?thesis using validated_response [OF r] by simp
qed

lemma durable_get_valid: "fst (durable_get now k s) = Inr x \<Longrightarrow> opt_all valid_response x"
  by (auto simp: durable_get_def result_simps split: option.splits) (metis document_response_valid)

lemma translated_no_interruption: "(\<And>e. h e \<noteq> Interruption) \<Longrightarrow> answers (\<lambda>_. True) (map_raise h m)"
  by (rule answers_translated) simp_all

lemma answers_lift_error:
  "(\<And>x. r = Inr x \<Longrightarrow> answers P (f x)) \<Longrightarrow> answers P (act_bind (act_lift (map_error (\<lambda>_. OtherException) r)) f)"
  by (cases r) (simp_all add: answers_def act_defs)

lemma answers_adapter_create: "answers valid_view (adapter_create sr b c)"
proof (cases "map_of (cb_projects b) (cc_project c)")
  case (Some p)
  have replay: "answers (\<lambda>_. True) (replay_created sr t route)" for t route
    unfolding replay_created_def
    by (intro answers_bind [of "\<lambda>_. True"] answers_awaiting translated_no_interruption answers_simple)
      (simp_all add: answers_def act_require_def)
  have stored: "answers (\<lambda>_. True) (store_created sr t e1 e2 route)" for t e1 e2 route
    using replay unfolding answers_def store_created_def
    by (auto split: prod.split sum.split)
  have "r \<noteq> Inl Interruption" if "r = command_route c i" for r i
    using that by (cases "cc_reply c") (auto simp: command_route_def)
  then have route: "answers (\<lambda>_. True) (act_lift (command_route c i))" for i
    by (intro answers_simple) blast+
  show ?thesis
    unfolding adapter_create_def Some option.case command_task_def validated_event_def
    by (intro answers_lift_error answers_bind [OF route] answers_bind [OF stored] answers_view_port)
qed (simp add: adapter_create_def answers_simple)

lemma answers_adapter_rest:
  "answers valid_view (adapter_cancel sr kc)" "answers (opt_all valid_view) (adapter_get sr i)"
  "answers (list_all valid_view) (adapter_list sr n)" "answers valid_view (adapter_enqueue sr i)"
proof -
  show "answers valid_view (adapter_cancel sr kc)"
    unfolding adapter_cancel_def
    by (intro answers_bind [OF translated_no_interruption] answers_view_port) simp
  show "answers valid_view (adapter_enqueue sr i)"
    unfolding adapter_enqueue_def
    by (intro answers_bind [OF translated_no_interruption] answers_view_port) simp
  have "answers (opt_all valid_view) (act_bind (view_port t) (\<lambda>v. act_return (Some v)) :: (store, task_view option) port)"
    for t :: task
    by (intro answers_bind [OF answers_view_port] answers_simple) simp
  then have "answers (opt_all valid_view) (\<lambda>s. case get_task i s of
      Inl e \<Rightarrow> (if e = StorageError RecordNotFoundError then Inr None else Inl (storage_failure e), s)
    | Inr t \<Rightarrow> act_bind (view_port t) (\<lambda>v. act_return (Some v)) s)"
    unfolding answers_def by (auto split: sum.split)
  then show "answers (opt_all valid_view) (adapter_get sr i)"
    unfolding adapter_get_def by (rule answers_awaiting)
  have views: "traverse (\<lambda>t. TaskView_validate (task_view t)) ts = Inr vs \<Longrightarrow> list_all valid_view vs" for ts vs
    by (induction ts arbitrary: vs) (auto simp: result_simps view_valid)
  show "answers (list_all valid_view) (adapter_list sr n)"
    unfolding adapter_list_def
    by (intro answers_bind [OF answers_awaiting [OF translated_no_interruption]] answers_simple)
      (auto simp: map_error_Ok views)
qed

interpretation composed_answers: answering "sqlite_gateway sr b allowed" for sr b allowed
proof unfold_locales
  show "answers (opt_all valid_response) (gw_cached (sqlite_gateway sr b allowed) k)" for k
    by (simp add: sqlite_gateway_def answers_awaiting answers_translated durable_get_valid)
qed (simp_all add: sqlite_gateway_def allowlist_def answers_simple answers_adapter_create
    answers_adapter_rest answers_awaiting translated_no_interruption)

end
