(* ===== verification/GatewayProperties.thy ===== *)
theory GatewayProperties
  imports GatewaySafety ModelProperties
begin

text \<open>
  The properties of the gateway composed with the store: what a request can do, that it is always
  answered, that a refused request changes nothing, that an answered one is answered the same way
  for ever, and what an accepted development request leaves in the store.
\<close>

section \<open>Every request\<close>

lemma gateway_reaches:
  "reachable s \<Longrightarrow> lawful_surroundings sr \<Longrightarrow> reachable (snd (handle (sqlite_gateway sr b allowed) r s))"
  using steps_reachable composed.handle by blast

lemma handle_composed:
  "handle (sqlite_gateway sr b allowed) r s =
     (if rq_actor r \<notin> allowed then (Inr unauthorized, s)
      else if \<not> opt_all (\<lambda>i. \<not> sr_sensitive sr i) (rq_instruction r) then (Inr credentials_refused, s)
      else handle_authorized (sqlite_gateway sr b allowed) r s)"
  by (simp add: handle_def sqlite_gateway_def allowlist_def act_return_def)

text \<open>Whatever a request asks for and whatever others do while it waits, the gateway takes a
  reachable store to a reachable store: every invariant of the store holds while requests are served.\<close>

theorem gateway_keeps_store_lawful:
  assumes "reachable s" "lawful_surroundings sr"
  shows "reachable (snd (handle (sqlite_gateway sr b allowed) r s))"
  using assms by (rule gateway_reaches)

text \<open>C19: Every request is answered: no exception leaves the gateway, whatever the store, the clock and
  the other processes do, and the answer is a validated response.\<close>

theorem gateway_always_answers:
  "\<exists>resp. fst (handle (sqlite_gateway sr b allowed) r s) = Inr resp \<and> valid_response resp"
  using composed_answers.handle by (simp add: settles_def)


section \<open>Answered requests\<close>

abbreviation final_codes :: "gateway_code set" where
  "final_codes \<equiv> {OK, ACCEPTED, NOT_FOUND, CONFLICT}"

lemma durable_get_answer:
  assumes "clean IdempotencyKey k" "fst (durable_get now k s) = Inr (Some r)"
  shows "request_answer s k = Some r"
proof -
  have "new_request k None now = Inr \<lparr>req_key = k, req_response = None, req_created = now\<rparr>"
    using assms(1) by (simp add: new_request_Ok)
  with assms(2) show ?thesis
    by (auto simp: durable_get_def get_gateway_request_def request_answer_def result_simps
        read_store_def new_request_Ok split: option.splits if_splits)
qed

lemma settled_answer_stored:
  assumes "clean IdempotencyKey k" "valid_response x"
    "settle (sqlite_gateway sr b allowed) k x s = (Inr resp, s1)" "rs_code resp \<in> final_codes"
  shows "request_answer s1 k = Some resp"
proof (cases "transient (rs_code x)")
  case True
  then have "resp = x"
    using assms(3) by (auto simp: settle_def act_bind_def act_return_def split: prod.splits sum.splits)
  with True assms(4) show ?thesis by (auto simp: transient_def)
next
  case False
  obtain y s' where y: "awaiting sr At_remember (map_raise untranslated (durable_remember (sr_now sr) k x)) s = (y, s')"
    by (cases "awaiting sr At_remember (map_raise untranslated (durable_remember (sr_now sr) k x)) s") auto
  show ?thesis
  proof (cases y)
    case (Inl e)
    with False y assms(3,4) show ?thesis
      by (auto simp: settle_def sqlite_gateway_def catching_def act_defs receipt_lost_def
          simple_response_def split: if_splits)
  next
    case (Inr u)
    then have "resp = x" "s' = s1"
      using False y assms(3) by (auto simp: settle_def sqlite_gateway_def catching_def act_defs)
    moreover have "durable_remember (sr_now sr) k x (sr_meanwhile sr At_remember s) = (Inr (), s')"
      using y Inr by (auto simp: awaiting_def map_raise_def split: prod.splits sum.splits)
    ultimately show ?thesis using request_answer_stored [OF assms(1,2)] by simp
  qed
qed

lemma performed_answer_stored:
  assumes "clean IdempotencyKey (idempotency_key r)"
    "perform (sqlite_gateway sr b allowed) r s = (Inr resp, s1)" "rs_code resp \<in> final_codes"
  shows "request_answer s1 (idempotency_key r) = Some resp"
proof -
  obtain x t where x: "dispatch (sqlite_gateway sr b allowed) r s = (x, t)"
    by (cases "dispatch (sqlite_gateway sr b allowed) r s") auto
  have "valid_response y" if "x = Inr y" for y
    using composed_answers.dispatch x that unfolding answers_def by (metis fst_conv)
  moreover have "\<exists>y. (x = Inr y \<or> (\<exists>e. x = Inl e \<and> y = failure_response e)) \<and>
      settle (sqlite_gateway sr b allowed) (idempotency_key r) y t = (Inr resp, s1)"
  proof (cases x)
    case (Inl e)
    with x assms(2) show ?thesis
      by (cases e) (auto simp: perform_def act_defs split: prod.splits sum.splits)
  next
    case (Inr y)
    with x assms(2) show ?thesis by (simp add: perform_def)
  qed
  ultimately show ?thesis
    using settled_answer_stored [OF assms(1) _ _ assms(3)] simple_responses_valid(6) by blast
qed

lemma final_answer_stored:
  assumes "valid_request r" "handle (sqlite_gateway sr b allowed) r s = (Inr resp, s1)"
    "rs_code resp \<in> final_codes"
  shows "\<exists>x. request_answer s1 (idempotency_key r) = Some x \<and> replayed x = replayed resp"
proof -
  let ?g = "sqlite_gateway sr b allowed" and ?k = "idempotency_key r"
  have key: "clean IdempotencyKey ?k" by (rule idempotency_key_clean [OF assms(1)])
  have authorized: "handle_authorized ?g r s = (Inr resp, s1)"
    using assms(2,3) unfolding handle_composed
    by (auto simp: unauthorized_def credentials_refused_def simple_response_def split: if_splits)
  obtain c t where c: "gw_cached ?g ?k s = (c, t)" by (cases "gw_cached ?g ?k s") auto
  then have t: "t = snd (durable_get (sr_now sr) ?k (sr_meanwhile sr At_cached s))"
    "\<And>x. c = Inr x \<Longrightarrow> fst (durable_get (sr_now sr) ?k (sr_meanwhile sr At_cached s)) = Inr x"
    by (auto simp: sqlite_gateway_def awaiting_def map_raise_def split: prod.splits sum.splits)
  show ?thesis
  proof (cases c)
    case (Inl e)
    with c authorized assms(3) show ?thesis
      by (auto simp: handle_authorized_def dedup_unavailable_def simple_response_def split: if_splits)
  next
    case (Inr cached)
    show ?thesis
    proof (cases cached)
      case (Some x)
      then have "resp = replayed x" "s1 = t"
        using c Inr authorized by (auto simp: handle_authorized_def)
      moreover have "request_answer t ?k = Some x"
        using durable_get_answer [OF key t(2)] Inr Some by (simp add: t(1) durable_get_def)
      ultimately show ?thesis by (simp add: replayed_def)
    next
      case None
      then have "handle_new ?g r t = (Inr resp, s1)"
        using c Inr authorized by (simp add: handle_authorized_def)
      then have "\<exists>t'. perform ?g r t' = (Inr resp, s1)"
        using assms(3) by (auto simp: handle_new_def dedup_unavailable_def in_progress_def replayed_def
            simple_response_def split: prod.splits sum.splits if_splits)
      then show ?thesis using performed_answer_stored [OF key _ assms(3)] by blast
    qed
  qed
qed

text \<open>C5: A request that was answered for good (accepted, done, not found or refused as a conflict) is
  answered the same way for ever: delivered again at any later time, after any operations and
  restarts, even with another configuration, it gets the first answer, marked as replayed, and
  nothing is done again.\<close>

theorem answered_request_replayed:
  assumes "reachable s" "lawful_surroundings sr" "valid_request r"
    "handle (sqlite_gateway sr b allowed) r s = (Inr resp, s1)" "rs_code resp \<in> final_codes"
    "store_step\<^sup>*\<^sup>* s1 s2" "lawful_surroundings sr'" "serving (sr_meanwhile sr' At_cached s2)"
    "rq_actor r \<in> allowed'" "opt_all (\<lambda>i. \<not> sr_sensitive sr' i) (rq_instruction r)"
  shows "handle (sqlite_gateway sr' b' allowed') r s2 = (Inr (replayed resp), sr_meanwhile sr' At_cached s2)"
proof -
  let ?k = "idempotency_key r" and ?s = "sr_meanwhile sr' At_cached s2"
  have key: "clean IdempotencyKey ?k" by (rule idempotency_key_clean [OF assms(3)])
  obtain x where x: "request_answer s1 ?k = Some x" "replayed x = replayed resp"
    using final_answer_stored [OF assms(3-5)] by blast
  have "reachable s1" using gateway_reaches [OF assms(1,2), of b allowed r] assms(4) by simp
  then have inv1: "db_inv (st_db s1)" by (rule reachable_db)
  have steps: "store_step\<^sup>*\<^sup>* s1 ?s"
    using assms(6,7) by (auto simp: lawful_surroundings_def intro: rtranclp_trans)
  have "durable_get (sr_now sr') ?k ?s = (Inr (Some x), ?s)"
    by (rule request_answer_get [OF steps_keep [OF steps inv1] request_answer_steps [OF inv1 x(1) steps] key assms(8)])
  then have "gw_cached (sqlite_gateway sr' b' allowed') ?k s2 = (Inr (Some x), ?s)"
    by (simp add: sqlite_gateway_def awaiting_def map_raise_def)
  then show ?thesis
    using assms(9,10) x(2) unfolding handle_composed by (simp add: handle_authorized_def)
qed


section \<open>Accepted development requests\<close>

definition quiet :: "surroundings \<Rightarrow> bool" where
  "quiet sr \<longleftrightarrow> (\<forall>p s. sr_meanwhile sr p s = s)"

lemma quiet_awaiting [simp]: "quiet sr \<Longrightarrow> awaiting sr p op s = op s"
  by (simp add: quiet_def awaiting_def)

definition requested_task :: "surroundings \<Rightarrow> gateway_request \<Rightarrow> project \<Rightarrow> task" where
  "requested_task sr r p =
     \<lparr>t_id = uuid_task_id (sr_uuid5 sr) (idempotency_key r), t_source = rq_source r,
      t_project = the (rq_project r), t_team = pd_team p, t_request = the (rq_instruction r),
      t_status = Pending, t_agents = [], t_created = sr_created sr, t_started = None,
      t_completed = None\<rparr>"

definition requested_route :: "surroundings \<Rightarrow> gateway_request \<Rightarrow> task_route option" where
  "requested_route sr r =
     map_option (\<lambda>target. \<lparr>route_task = uuid_task_id (sr_uuid5 sr) (idempotency_key r),
       route_source = rq_source r, route_target = target\<rparr>) (rq_reply r)"

definition new_request_event ::
  "surroundings \<Rightarrow> gateway_request \<Rightarrow> project \<Rightarrow> uuid \<times> aware \<Rightarrow> uuid option \<Rightarrow> task_status \<Rightarrow> event" where
  "new_request_event sr r p stamp cause st =
     lifecycle_event (fst stamp) (snd stamp)
       (correlation_id (sr_uuid5 sr) (uuid_task_id (sr_uuid5 sr) (idempotency_key r))) cause
       (requested_task sr r p) (event_for_status st) st"

text \<open>
  What makes a development request new and complete: its project is configured, nothing that came
  before used its task identifier or the event identifiers, no route value looks like a
  secret, and the clock readings are in order.
\<close>

definition dev_ready :: "surroundings \<Rightarrow> config_bundle \<Rightarrow> gateway_request \<Rightarrow> project \<Rightarrow> store \<Rightarrow> bool" where
  "dev_ready sr b r p s \<longleftrightarrow>
     rq_command r = DEV \<and> map_of (cb_projects b) (the (rq_project r)) = Some p \<and>
     clean Identifier (pd_team p) \<and>
     opt_all (\<lambda>target. \<not> secret_shaped (rq_source r) \<and> \<not> secret_shaped target) (rq_reply r) \<and>
     uuid_task_id (sr_uuid5 sr) (idempotency_key r) \<notin> task_ids (st_db s) \<and>
     fst (sr_created_event sr) \<notin> keys er_id (db_events (st_db s)) \<and>
     fst (sr_queued_event sr) \<notin> keys er_id (db_events (st_db s)) \<and>
     fst (sr_created_event sr) \<noteq> fst (sr_queued_event sr) \<and>
     utc (sr_created sr) \<le> utc (snd (sr_created_event sr)) \<and>
     utc (snd (sr_created_event sr)) \<le> utc (snd (sr_queued_event sr))"

lemma same_texts: "clean TaskInstruction v \<Longrightarrow> clean TaskRequest v"
  "clean ReplyTarget v \<Longrightarrow> clean OpaqueRouteValue v"
  by (simp_all add: clean_iff meets_def TaskInstruction_def TaskRequest_def ReplyTarget_def OpaqueRouteValue_def)

lemma source_route_value: "clean Identifier v \<Longrightarrow> clean OpaqueRouteValue v"
proof -
  assume v: "clean Identifier v"
  then obtain c cs where cs: "v = c # cs" "is_lower c" "identifier_tail False cs"
    by (cases v) (auto simp: clean_iff meets_def Identifier_def)
  then have "opaque_pattern v"
    using identifier_tail_opaque by (simp add: is_alnum_def)
  with v show ?thesis by (simp add: clean_iff meets_def Identifier_def OpaqueRouteValue_def)
qed

lemma dev_request_fields:
  assumes "valid_request r" "rq_command r = DEV"
  obtains proj instr where "rq_project r = Some proj" "rq_instruction r = Some instr"
    "clean Identifier proj" "clean TaskRequest instr" "clean TaskInstruction instr"
    "clean Identifier (rq_source r)" "clean SourceEventId (rq_event r)" "clean OpaqueId (rq_actor r)"
    "clean_opt ReplyTarget (rq_reply r)"
proof -
  from assms obtain proj instr where "rq_project r = Some proj" "rq_instruction r = Some instr"
    by (auto simp: valid_request_iff command_shape_def)
  moreover from this assms(1) have "clean Identifier proj" "clean TaskInstruction instr"
    "clean Identifier (rq_source r)" "clean SourceEventId (rq_event r)" "clean OpaqueId (rq_actor r)"
    "clean_opt ReplyTarget (rq_reply r)"
    by (simp_all add: valid_request_iff)
  ultimately show ?thesis using that same_texts(1) by blast
qed

lemma requested_task_valid:
  assumes "valid_request r" "dev_ready sr b r p s"
  shows "valid_task (requested_task sr r p)"
proof -
  have dev: "rq_command r = DEV" "clean Identifier (pd_team p)" using assms(2) by (simp_all add: dev_ready_def)
  show ?thesis
    by (rule dev_request_fields [OF assms(1) dev(1)])
      (simp add: dev(2) valid_task_iff fields_clean_def requested_task_def uuid_task_id_clean timestamps_ok_def is_terminal_def)
qed

lemma new_request_event_valid:
  assumes "valid_request r" "dev_ready sr b r p s" "cause \<noteq> Some (fst stamp)"
  shows "valid_event (new_request_event sr r p stamp cause st)"
proof -
  have "valid_task (requested_task sr r p)" by (rule requested_task_valid [OF assms(1,2)])
  then show ?thesis
    using assms(3)
    by (simp add: valid_event_iff event_fields_clean_def context_ok_def new_request_event_def
        lifecycle_event_def valid_task_iff fields_clean_def payload_key_forbidden_def
        FORBIDDEN_PAYLOAD_KEYS_def normalized_key_def lower_def char_lower_def lifecycle_not_agent
        is_upper_def in_range_def)
qed


abbreviation request_created :: "surroundings \<Rightarrow> gateway_request \<Rightarrow> project \<Rightarrow> event" where
  "request_created sr r p \<equiv> new_request_event sr r p (sr_created_event sr) None Pending"

abbreviation request_queued :: "surroundings \<Rightarrow> gateway_request \<Rightarrow> project \<Rightarrow> event" where
  "request_queued sr r p \<equiv>
     new_request_event sr r p (sr_queued_event sr) (Some (fst (sr_created_event sr))) Queued"

lemma new_request_event_simps [simp]:
  "ev_id (new_request_event sr r p stamp cause st) = fst stamp"
  "ev_time (new_request_event sr r p stamp cause st) = snd stamp"
  by (simp_all add: new_request_event_def lifecycle_event_def)

lemma requested_task_simps [simp]:
  "t_id (requested_task sr r p) = uuid_task_id (sr_uuid5 sr) (idempotency_key r)"
  "t_status (requested_task sr r p) = Pending" "t_agents (requested_task sr r p) = []"
  "t_created (requested_task sr r p) = sr_created sr" "t_started (requested_task sr r p) = None"
  "t_team (requested_task sr r p) = pd_team p" "t_project (requested_task sr r p) = the (rq_project r)"
  by (simp_all add: requested_task_def)

lemma request_event_tells:
  "validate_lifecycle_event (requested_task sr r p) st (new_request_event sr r p stamp cause st) = Inr ()"
  by (simp add: validate_lifecycle_event_Ok new_request_event_def lifecycle_event_def payload_status_def)

lemma requested_route_valid:
  assumes "valid_request r" "dev_ready sr b r p s"
  shows "opt_all (\<lambda>x. valid_route x \<and> route_task x = uuid_task_id (sr_uuid5 sr) (idempotency_key r))
    (requested_route sr r)"
  using assms
  by (cases "rq_reply r")
    (simp_all add: requested_route_def valid_request_iff valid_route_iff uuid_task_id_clean dev_ready_def
      clean_route_value_def source_route_value same_texts)

lemma requested_args:
  assumes "valid_request r" "dev_ready sr b r p s"
  shows "queueing_args (requested_task sr r p) (request_created sr r p) (request_queued sr r p) (requested_route sr r)"
proof -
  have "utc (sr_created sr) \<le> utc (snd (sr_created_event sr))"
    "utc (snd (sr_created_event sr)) \<le> utc (snd (sr_queued_event sr))"
    "fst (sr_created_event sr) \<noteq> fst (sr_queued_event sr)"
    using assms(2) by (simp_all add: dev_ready_def)
  then show ?thesis
    using requested_task_valid [OF assms] requested_route_valid [OF assms]
      new_request_event_valid [OF assms]
    by (simp add: queueing_args_def creation_pre_def request_event_tells time_admissible_def opt_all_iff)
qed

abbreviation (input) request_db :: "surroundings \<Rightarrow> gateway_request \<Rightarrow> project \<Rightarrow> db \<Rightarrow> db" where
  "request_db sr r p d \<equiv> queued_db (requested_task sr r p) (request_created sr r p) (request_queued sr r p)
     (requested_route sr r) d"

abbreviation queued_request :: "surroundings \<Rightarrow> gateway_request \<Rightarrow> project \<Rightarrow> task" where
  "queued_request sr r p \<equiv> stamp_transition (requested_task sr r p) Queued (snd (sr_queued_event sr))"

definition request_command :: "surroundings \<Rightarrow> gateway_request \<Rightarrow> create_command" where
  "request_command sr r =
     \<lparr>cc_task = uuid_task_id (sr_uuid5 sr) (idempotency_key r), cc_source = rq_source r,
      cc_event = rq_event r, cc_actor = rq_actor r, cc_reply = rq_reply r,
      cc_project = the (rq_project r), cc_instruction = the (rq_instruction r)\<rparr>"

lemma request_command_made:
  assumes "valid_request r" "rq_command r = DEV"
  shows "create_command_of (sqlite_gateway sr b allowed) r = Inr (request_command sr r)"
  by (rule dev_request_fields [OF assms])
    (simp add: create_command_of_def request_command_def sqlite_gateway_def CreateTaskCommand_validate_def
      uuid_task_id_clean)

lemma view_of_valid_task:
  "valid_task t \<Longrightarrow> view_port t s = (Inr (task_view t), s)"
  by (simp add: view_port_def act_lift_def TaskView_validate_def task_view_def valid_task_iff fields_clean_def
      traverse_checked_clean)

lemma queued_request_valid:
  assumes "valid_request r" "dev_ready sr b r p s"
  shows "valid_task (queued_request sr r p)"
proof -
  have "utc (sr_created sr) \<le> utc (snd (sr_queued_event sr))" using assms(2) by (simp add: dev_ready_def)
  then show ?thesis
    by (intro stamp_transition_valid requested_task_valid [OF assms]) (simp_all add: time_admissible_def lifecycle_defs)
qed

lemma adapter_create_run:
  assumes "quiet sr" "serving s" "db_inv (st_db s)" "valid_request r" "dev_ready sr b r p s"
  shows "adapter_create sr b (request_command sr r) s =
    (Inr (task_view (queued_request sr r p)), s\<lparr>st_db := request_db sr r p (st_db s)\<rparr>)"
proof -
  let ?t = "requested_task sr r p" and ?e1 = "request_created sr r p" and ?e2 = "request_queued sr r p"
  have dev: "rq_command r = DEV" "map_of (cb_projects b) (the (rq_project r)) = Some p"
    using assms(5) by (simp_all add: dev_ready_def)
  have ids: "fst (sr_created_event sr) \<noteq> fst (sr_queued_event sr)" using assms(5) by (simp add: dev_ready_def)
  have "command_task sr (request_command sr r) p = Inr ?t"
    using requested_task_valid [OF assms(4,5)]
    by (simp add: command_task_def request_command_def requested_task_def valid_task_def)
  moreover have "validated_event ?e1 = Inr ?e1" "validated_event ?e2 = Inr ?e2"
    using new_request_event_valid [OF assms(4,5)] ids by (simp_all add: validated_event_def valid_event_def)
  moreover have "command_route (request_command sr r) (t_id ?t) = Inr (requested_route sr r)"
    using requested_route_valid [OF assms(4,5)]
    by (cases "rq_reply r") (simp_all add: command_route_def request_command_def requested_route_def valid_route_def)
  moreover have "create_queued_task (sr_now sr) ?t ?e1 ?e2 (requested_route sr r) s =
      (Inr (queued_request sr r p), s\<lparr>st_db := request_db sr r p (st_db s)\<rparr>)"
    using create_queued_task_run [OF assms(2,3) requested_args [OF assms(4,5)]] assms(5)
    by (simp add: dev_ready_def)
  moreover have "lifecycle_event (fst (sr_created_event sr)) (snd (sr_created_event sr))
      (correlation_id (sr_uuid5 sr) (t_id ?t)) None ?t TASK_CREATED Pending = ?e1"
    "lifecycle_event (fst (sr_queued_event sr)) (snd (sr_queued_event sr))
      (correlation_id (sr_uuid5 sr) (t_id ?t)) (Some (ev_id ?e1)) ?t TASK_QUEUED Queued = ?e2"
    unfolding new_request_event_simps(1) by (simp_all add: new_request_event_def)
  moreover have "cc_project (request_command sr r) = the (rq_project r)" by (simp add: request_command_def)
  ultimately show ?thesis
    using dev(2) view_of_valid_task [OF queued_request_valid [OF assms(4,5)]]
    by (simp add: adapter_create_def act_defs store_created_def assms(1) del: requested_task_simps(1) new_request_event_simps(1))
qed


lemma adapter_enqueue_run:
  assumes "quiet sr" "get_task i s = Inr t" "t_status t \<noteq> Pending" "valid_task t"
  shows "adapter_enqueue sr i s = (Inr (task_view t), s)"
  using assms view_of_valid_task [OF assms(4)]
  by (simp add: adapter_enqueue_def enqueue_body_def act_defs act_query_def map_raise_def)

lemma request_message_fits:
  assumes "valid_view v"
  shows "clean SafeMessage (created_message v)"
proof -
  have "clean TaskId (tv_task v)" "clean Identifier (tv_project v)" "clean Identifier (tv_team v)"
    using assms by (simp_all add: valid_view_iff)
  then have "length (tv_task v) \<le> 69" "length (tv_project v) \<le> 63" "length (tv_team v) \<le> 63"
    by (simp_all add: clean_iff meets_def TaskId_def Identifier_def)
  moreover have "length (status_value (tv_status v)) \<le> 9" by (cases "tv_status v") simp_all
  moreover have "strip (created_message v) = created_message v"
    by (rule strip_ends) (simp_all add: created_message_def char_class_defs)
  ultimately show ?thesis
    by (simp add: clean_iff meets_def SafeMessage_def) (simp add: created_message_def)
qed


lemma requests_kept [simp]: "db_requests (queued_db t e1 e2 route d) = db_requests d"
  by (simp add: queued_db_def created_db_def add_event_def add_route_def split: option.split)

definition accepted_response :: "task \<Rightarrow> gateway_response" where
  "accepted_response t =
     \<lparr>rs_success = True, rs_code = ACCEPTED, rs_message = created_message (task_view t),
      rs_task = Some (task_view t), rs_tasks = [], rs_replayed = False\<rparr>"

lemma task_view_valid: "valid_task t \<Longrightarrow> valid_view (task_view t)"
  by (simp add: valid_view_iff task_view_def valid_task_iff fields_clean_def)

lemma accepted_valid: "valid_task t \<Longrightarrow> valid_response (accepted_response t)"
  using request_message_fits [OF task_view_valid] task_view_valid
  by (simp add: valid_response_iff accepted_response_def)

text \<open>The dispatch of a ready request.\<close>

lemma dispatch_dev:
  assumes "quiet sr" "serving s" "db_inv (st_db s)" "valid_request r" "dev_ready sr b r p s"
  shows "dispatch (sqlite_gateway sr b allowed) r s =
    (Inr (accepted_response (queued_request sr r p)), s\<lparr>st_db := request_db sr r p (st_db s)\<rparr>)"
proof -
  let ?g = "sqlite_gateway sr b allowed" and ?t = "queued_request sr r p"
  let ?s = "s\<lparr>st_db := request_db sr r p (st_db s)\<rparr>"
  have dev: "rq_command r = DEV" using assms(5) by (simp add: dev_ready_def)
  have new: "t_id (requested_task sr r p) \<notin> task_ids (st_db s)" using assms(5) by (simp add: dev_ready_def)
  have "create_command_of ?g r = Inr (request_command sr r)"
    by (rule request_command_made [OF assms(4) dev])
  moreover have "gw_create ?g (request_command sr r) s = (Inr (task_view ?t), ?s)"
    using adapter_create_run [OF assms] by (simp add: sqlite_gateway_def)
  moreover have "get_task (t_id (requested_task sr r p)) ?s = Inr ?t"
    using queued_readable(1) [OF requested_args [OF assms(4,5)] new assms(3), of ?s] assms(2)
    by (simp add: serving_def)
  then have "gw_enqueue ?g (tv_task (task_view ?t)) ?s = (Inr (task_view ?t), ?s)"
    using adapter_enqueue_run [OF assms(1) _ _ queued_request_valid [OF assms(4,5)]]
    by (simp add: sqlite_gateway_def task_view_def)
  moreover have "respond (accepted_response ?t) ?s = (Inr (accepted_response ?t), ?s)"
    using accepted_valid [OF queued_request_valid [OF assms(4,5)]]
    by (simp add: respond_def act_lift_def valid_response_def)
  ultimately show ?thesis
    by (simp add: dispatch_def dev dispatch_create_def act_defs catching_def accepted_response_def)
qed


lemma dev_request_run:
  assumes "reachable s" "serving s" "quiet sr" "valid_request r" "dev_ready sr b r p s"
    "idempotency_key r \<notin> keys gq_key (db_requests (st_db s))" "rq_actor r \<in> allowed"
    "opt_all (\<lambda>i. \<not> sr_sensitive sr i) (rq_instruction r)"
  shows "\<exists>s'. handle (sqlite_gateway sr b allowed) r s = (Inr (accepted_response (queued_request sr r p)), s') \<and> serving s' \<and>
    get_task (t_id (requested_task sr r p)) s' = Inr (queued_request sr r p) \<and>
    get_task_route (t_id (requested_task sr r p)) s' = Inr (requested_route sr r) \<and>
    durable_get now (idempotency_key r) s' = (Inr (Some (accepted_response (queued_request sr r p))), s')"
proof -
  let ?g = "sqlite_gateway sr b allowed" and ?k = "idempotency_key r" and ?a = "accepted_response (queued_request sr r p)"
  let ?row = "\<lparr>gq_key = ?k, gq_response = None, gq_created = sr_now sr\<rparr>"
  define s1 where "s1 = s\<lparr>st_db := db_requests_update (insert_row ?row) (st_db s)\<rparr>"
  define s2 where "s2 = s1\<lparr>st_db := request_db sr r p (st_db s1)\<rparr>"
  define s3 where "s3 = s2\<lparr>st_db := answered ?k (response_document ?a) (st_db s2)\<rparr>"
  have key: "clean IdempotencyKey ?k" by (rule idempotency_key_clean [OF assms(4)])
  have inv: "db_inv (st_db s)" by (rule reachable_db [OF assms(1)])
  have reserve: "durable_reserve (sr_now sr) ?k s = (Inr True, s1)"
    unfolding s1_def by (rule durable_reserve_new [OF key assms(2,6)])
  then have inv1: "db_inv (st_db s1)" using durable_steps_keep(1) [OF inv, of "sr_now sr" ?k] by simp
  have serving: "serving s1" "serving s2" "serving s3" using assms(2) by (simp_all add: s1_def s2_def s3_def)
  have ready: "dev_ready sr b r p s1" using assms(5) by (simp add: dev_ready_def s1_def)
  have valid: "valid_task (queued_request sr r p)" by (rule queued_request_valid [OF assms(4) ready])
  have args: "queueing_args (requested_task sr r p) (request_created sr r p) (request_queued sr r p) (requested_route sr r)"
    by (rule requested_args [OF assms(4) ready])
  have dispatch: "dispatch ?g r s1 = (Inr ?a, s2)"
    unfolding s2_def by (rule dispatch_dev [OF assms(3) serving(1) inv1 assms(4) ready])
  have "row_of gq_key ?k (db_requests (st_db s2)) = Some ?row"
    using assms(6) by (simp add: s2_def s1_def row_of_insert_row row_of_None [THEN iffD2])
  then have remember: "durable_remember (sr_now sr) ?k ?a s2 = (Inr (), s3)"
    unfolding s3_def by (rule durable_remember_reserved [OF key serving(2)]) simp
  have "settle ?g ?k ?a s2 = (Inr ?a, s3)"
    using remember assms(3)
    by (simp add: settle_def transient_def accepted_response_def catching_def act_defs sqlite_gateway_def map_raise_def)
  moreover have ports: "gw_cached ?g ?k s = (Inr None, s)" "gw_reserve ?g ?k s = (Inr True, s1)"
    using durable_get_new [OF key assms(2,6)] reserve assms(3) by (simp_all add: sqlite_gateway_def map_raise_def)
  ultimately have "handle ?g r s = (Inr ?a, s3)"
    using ports dispatch assms(7,8) unfolding handle_composed
    by (simp add: handle_authorized_def handle_new_def perform_def)
  moreover have new: "t_id (requested_task sr r p) \<notin> task_ids (st_db s1)"
    using ready by (simp add: dev_ready_def)
  have "get_task (t_id (requested_task sr r p)) s3 = Inr (queued_request sr r p)"
    "get_task_route (t_id (requested_task sr r p)) s3 = Inr (requested_route sr r)"
    using queued_readable [OF args new inv1 serving(3)]
    by (simp_all add: s3_def s2_def)
  moreover have "create_queued_task (sr_now sr) (requested_task sr r p) (request_created sr r p)
      (request_queued sr r p) (requested_route sr r) s1 = (Inr (queued_request sr r p), s2)"
    using create_queued_task_run [OF serving(1) inv1 args] ready by (simp add: s2_def dev_ready_def)
  then have "db_inv (st_db s2)"
    using create_queued_task_step [OF _ _ _ _ _ inv1, of "requested_task sr r p" "request_created sr r p"
        "request_queued sr r p" "requested_route sr r" "sr_now sr"] args
    by (auto simp: queueing_args_def creation_pre_def opt_all_iff)
  then have "db_inv (st_db s3)" using durable_steps_keep(2) [of s2 "sr_now sr" ?k ?a] remember by simp
  then have "durable_get now ?k s3 = (Inr (Some ?a), s3)"
    by (rule request_answer_get [OF _ request_answer_stored [OF key accepted_valid [OF valid] remember] key serving(3)])
  ultimately show ?thesis using serving(3) by blast
qed


text \<open>C4: A new, complete development request on a serving store is accepted: its task is queued and can
  be read back with its route, and the answer is on record under the key of the request.\<close>

theorem dev_request_accepted:
  assumes "reachable s" "serving s" "quiet sr" "valid_request r" "dev_ready sr b r p s"
    "idempotency_key r \<notin> keys gq_key (db_requests (st_db s))" "rq_actor r \<in> allowed"
    "opt_all (\<lambda>i. \<not> sr_sensitive sr i) (rq_instruction r)"
  shows "\<exists>s'. handle (sqlite_gateway sr b allowed) r s = (Inr (accepted_response (queued_request sr r p)), s') \<and> serving s' \<and>
    get_task (t_id (requested_task sr r p)) s' = Inr (queued_request sr r p) \<and>
    get_task_route (t_id (requested_task sr r p)) s' = Inr (requested_route sr r) \<and>
    durable_get now (idempotency_key r) s' = (Inr (Some (accepted_response (queued_request sr r p))), s')"
  by (rule dev_request_run [OF assms])

section \<open>Concrete requests\<close>

definition sample_worker :: worker where
  "sample_worker =
     \<lparr>wk_bundle = sample_bundle, wk_runtime = ''codex'', wk_uuid5 = (\<lambda>_. 7),
      wk_event = (\<lambda>_. (9, at_utc 90)), wk_clock = (\<lambda>_. at_utc 90), wk_run_id = ''RUN-1'',
      wk_open = (\<lambda>_. Inr ''ai/task''), wk_release_fails = False, wk_execute = (\<lambda>_ _. None),
      wk_stop = (\<lambda>_. StopException), wk_meanwhile = (\<lambda>_ s. s)\<rparr>"

definition sample_surroundings :: surroundings where
  "sample_surroundings =
     \<lparr>sr_now = at_utc 100, sr_created = at_utc 101, sr_created_event = (11, at_utc 102),
      sr_queued_event = (12, at_utc 103), sr_uuid5 = (\<lambda>_. 7), sr_worker = sample_worker,
      sr_sensitive = (\<lambda>_. False), sr_meanwhile = (\<lambda>_ s. s)\<rparr>"

lemma sample_surroundings_ok:
  "quiet sample_surroundings" "lawful_surroundings sample_surroundings"
  by (simp_all add: quiet_def lawful_surroundings_def lawful_def sample_surroundings_def sample_worker_def)

abbreviation sample_hub :: project where
  "sample_hub \<equiv> sample_project ''workspace/projects/hub'' ''core''"

lemma sample_dev_ready: "dev_ready sample_surroundings sample_bundle (sample_request DEV) sample_hub (open_store empty_db)"
  by (simp add: dev_ready_def sample_request_def sample_bundle_def sample_project_def check_simps
      sample_surroundings_def)

lemma empty_db_requests [simp]: "db_requests empty_db = []"
  by (simp add: empty_db_def)

lemma sample_allowed: "rq_actor (sample_request c) \<in> {''U1''}" "sr_sensitive sample_surroundings i \<longleftrightarrow> False"
  "opt_all (\<lambda>i. \<not> sr_sensitive sample_surroundings i) (rq_instruction (sample_request c))"
  by (simp_all add: sample_request_def sample_surroundings_def opt_all_iff)

theorem gateway_keeps_store_lawful_witness:
  "reachable (snd (handle (sqlite_gateway sample_surroundings sample_bundle {''U1''}) (sample_request STOP) sample_store))"
  by (rule gateway_keeps_store_lawful [OF sample_reachable sample_surroundings_ok(2)])


theorem dev_request_accepted_witness:
  "\<exists>s'. handle (sqlite_gateway sample_surroundings sample_bundle {''U1''}) (sample_request DEV) (open_store empty_db) =
      (Inr (accepted_response (queued_request sample_surroundings (sample_request DEV) sample_hub)), s') \<and> serving s'"
  using dev_request_accepted [OF reachable_start serving_open sample_surroundings_ok(1) sample_request_valid
      sample_dev_ready _ sample_allowed(1) sample_allowed(3)]
  by auto

theorem answered_request_replayed_witness:
  "\<exists>s'. handle (sqlite_gateway sample_surroundings sample_bundle {''U1''}) (sample_request DEV) s' =
      (Inr (replayed (accepted_response (queued_request sample_surroundings (sample_request DEV) sample_hub))), s')"
proof -
  let ?g = "sqlite_gateway sample_surroundings sample_bundle {''U1''}"
  let ?resp = "accepted_response (queued_request sample_surroundings (sample_request DEV) sample_hub)"
  obtain s' where first: "handle ?g (sample_request DEV) (open_store empty_db) = (Inr ?resp, s')" "serving s'"
    using dev_request_run [OF reachable_start serving_open sample_surroundings_ok(1) sample_request_valid
        sample_dev_ready _ sample_allowed(1) sample_allowed(3)] by auto
  have same: "sr_meanwhile sample_surroundings p s' = s'" for p by (simp add: sample_surroundings_def)
  have "rs_code ?resp \<in> final_codes" by (simp add: accepted_response_def)
  from answered_request_replayed [OF reachable_start sample_surroundings_ok(2) sample_request_valid first(1) this
      rtranclp.rtrancl_refl sample_surroundings_ok(2) _ sample_allowed(1) sample_allowed(3)] first(2)
  show ?thesis by (auto simp: same)
qed

definition sample_busy :: store where
  "sample_busy = snd (durable_reserve (at_utc 1) (idempotency_key (sample_request HELP)) (open_store empty_db))"

lemma sample_busy_store:
  "reachable sample_busy" "idempotency_key (sample_request HELP) \<in> request_held sample_busy"
proof -
  show "reachable sample_busy"
    unfolding sample_busy_def durable_reserve_def
    by (rule reachable_step [OF reachable_start store_step.reserve_request])
  have "durable_reserve (at_utc 1) (idempotency_key (sample_request HELP)) (open_store empty_db) =
      (Inr True, sample_busy)"
    using durable_reserve_new [OF idempotency_key_clean [OF sample_request_valid] serving_open, of HELP empty_db "at_utc 1"]
    by (simp add: sample_busy_def)
  then show "idempotency_key (sample_request HELP) \<in> request_held sample_busy"
    using durable_reserve_held(1) [OF idempotency_key_clean [OF sample_request_valid]] by blast
qed


section \<open>The list of tasks fits its answer\<close>

lemma length_join: "length (join sep xs) = sum_list (map length xs) + length sep * (length xs - 1)"
  by (induction sep xs rule: join.induct) simp_all

lemma join_ends:
  "xs \<noteq> [] \<Longrightarrow> [] \<notin> set xs \<Longrightarrow> join sep xs \<noteq> [] \<and> hd (join sep xs) = hd (hd xs) \<and> last (join sep xs) = last (last xs)"
  by (induction sep xs rule: join.induct) auto

lemma status_texts: "length (status_value st) \<le> 9" "status_value st \<noteq> []"
  "\<not> is_space (last (status_value st))"
  by (cases st; simp add: char_class_defs)+

lemma task_id_start: "clean TaskId i \<Longrightarrow> i \<noteq> [] \<and> hd i = CHR ''T''"
  by (cases i) (auto simp: clean_iff meets_def TaskId_def record_id_pattern_def)

lemma task_list_message_fits:
  assumes "list_all valid_view ts" "length ts \<le> 20" "\<forall>t \<in> set ts. length (tv_task t) \<le> 37"
  shows "clean SafeMessage (task_list_message ts)"
proof (cases "ts = []")
  case True
  then show ?thesis by (simp add: task_list_message_def check_simps SafeMessage_def)
next
  case False
  let ?lines = "map format_task ts"
  have line: "length (format_task t) \<le> 198" if "t \<in> set ts" for t
  proof -
    have "clean Identifier (tv_project t)" "clean Identifier (tv_team t)"
      using assms(1) that by (auto simp: list_all_iff valid_view_iff)
    then show ?thesis
      using assms(3) that status_texts(1) [of "tv_status t"]
      by (fastforce simp: format_task_def clean_iff meets_def Identifier_def)
  qed
  then have "sum_list (map length ?lines) \<le> length ts * 198"
    by (induction ts) (auto simp: comp_def intro!: add_mono)
  then have short: "length (join [CHR 0x0A] ?lines) \<le> 4000"
    using assms(2) by (simp add: length_join)
  have ids: "tv_task t \<noteq> [] \<and> hd (tv_task t) = CHR ''T''" if "t \<in> set ts" for t
    using assms(1) that task_id_start by (auto simp: list_all_iff valid_view_iff)
  have "hd (hd ?lines) = CHR ''T''" "last (last ?lines) = last (status_value (tv_status (last ts)))"
    using False ids status_texts(2) by (simp_all add: hd_map last_map format_task_def)
  moreover have "[] \<notin> set ?lines" by (auto simp: format_task_def)
  ultimately have "strip (join [CHR 0x0A] ?lines) = join [CHR 0x0A] ?lines" "join [CHR 0x0A] ?lines \<noteq> []"
    using join_ends [of ?lines "[CHR 0x0A]"] False status_texts(3)
    by (auto intro!: strip_ends simp: char_class_defs)
  with short False show ?thesis
    by (simp add: task_list_message_def clean_iff meets_def SafeMessage_def Suc_le_eq)
qed

text \<open>The answer to the command \<open>tasks\<close> always fits the length limit of a message when the tasks
  carry generated identifiers: twenty tasks with project and team names of any legal length are
  listed, never turned into an internal error.\<close>

theorem task_list_answered:
  assumes "gw_list_tasks g 20 s = (Inr ts, s')" "list_all valid_view ts" "length ts \<le> 20"
    "\<forall>t \<in> set ts. length (tv_task t) = 37" "rq_command r = TASKS"
  shows "dispatch g r s = (Inr \<lparr>rs_success = True, rs_code = OK, rs_message = task_list_message ts,
    rs_task = None, rs_tasks = ts, rs_replayed = False\<rparr>, s')"
  using task_list_message_fits [OF assms(2,3)] assms
  by (simp add: dispatch_def dispatch_list_def act_defs respond_def GatewayResponse_validate_def)

definition sample_view :: task_view where
  "sample_view =
     \<lparr>tv_task = uuid_task_id (\<lambda>_. 7) ''slack:Ev01'', tv_project = ''hub'', tv_team = ''core'',
      tv_status = Queued, tv_agents = []\<rparr>"

definition listing_gateway :: "task_view list \<Rightarrow> store gateway" where
  "listing_gateway ts =
     (sqlite_gateway sample_surroundings sample_bundle {''U1''})\<lparr>gw_list_tasks := \<lambda>_. act_return ts\<rparr>"

theorem task_list_answered_witness:
  "fst (dispatch (listing_gateway (replicate 20 sample_view)) (sample_request TASKS) sample_store) =
     Inr \<lparr>rs_success = True, rs_code = OK, rs_message = task_list_message (replicate 20 sample_view),
       rs_task = None, rs_tasks = replicate 20 sample_view, rs_replayed = False\<rparr>"
proof -
  have "gw_list_tasks (listing_gateway (replicate 20 sample_view)) 20 sample_store =
      (Inr (replicate 20 sample_view), sample_store)"
    by (simp add: listing_gateway_def act_return_def)
  moreover have "clean Identifier ''hub''" "clean Identifier ''core''" by (simp_all add: check_simps)
  then have "valid_view sample_view"
    by (simp add: valid_view_iff sample_view_def uuid_task_id_clean)
  moreover have "length (tv_task sample_view) = 37" by (simp add: sample_view_def uuid_task_id_def)
  ultimately show ?thesis
    by (subst task_list_answered) (auto simp: list_all_iff sample_request_def)
qed

end
