(* ===== verification/OrchestratorOutcomes.thy ===== *)
theory OrchestratorOutcomes
  imports OrchestratorSafety Samples
begin

text \<open>
  What the worker reports is what the store holds. A triple \<open>holds Pre m Post\<close> speaks of the runs of an action that
  return, from reachable stores; \<open>told\<close> is the assertion that a snapshot with a terminal status is
  the stored one, which lasts whatever the others do.
\<close>

section \<open>Triples\<close>

definition holds :: "(store \<Rightarrow> bool) \<Rightarrow> (store, 'e, 'a) act \<Rightarrow> ('a \<Rightarrow> store \<Rightarrow> bool) \<Rightarrow> bool" where
  "holds Pre m Post \<longleftrightarrow>
     (\<forall>s x s'. reachable s \<longrightarrow> Pre s \<longrightarrow> m s = (Inr x, s') \<longrightarrow> reachable s' \<and> Post x s')"

lemma holds_bind:
  assumes "holds Pre m Mid" "\<And>x. holds (Mid x) (f x) Post"
  shows "holds Pre (act_bind m f) Post"
  using assms unfolding holds_def act_bind_Ok by blast

lemma holds_return: "(\<And>s. Pre s \<Longrightarrow> Post x s) \<Longrightarrow> holds Pre (act_return x) Post"
  by (simp add: holds_def act_return_def)

lemma holds_raise [simp]: "holds Pre (act_raise e) Post"
  by (simp add: holds_def act_raise_def)

lemma holds_lift_bind: "(\<And>x. r = Inr x \<Longrightarrow> holds Pre (f x) Post) \<Longrightarrow> holds Pre (act_bind (act_lift r) f) Post"
  by (cases r) (auto simp: holds_def act_defs)

lemma holds_map_raise: "holds Pre m Post \<Longrightarrow> holds Pre (map_raise h m) Post"
  by (simp add: holds_def map_raise_Ok)

lemma holds_if: "(b \<Longrightarrow> holds Pre m Post) \<Longrightarrow> (\<not> b \<Longrightarrow> holds Pre m' Post) \<Longrightarrow> holds Pre (if b then m else m') Post"
  by simp

lemma holds_weaken: "holds Pre m Post \<Longrightarrow> (\<And>s. Pre' s \<Longrightarrow> Pre s) \<Longrightarrow> (\<And>x s. Post x s \<Longrightarrow> Post' x s) \<Longrightarrow> holds Pre' m Post'"
  unfolding holds_def by blast

lemma holds_any: "holds (\<lambda>_. True) m Post \<Longrightarrow> holds Pre m Post"
  unfolding holds_def by blast

lemma holds_assume: "(\<And>s. Pre s \<Longrightarrow> b) \<Longrightarrow> (b \<Longrightarrow> holds Pre m Post) \<Longrightarrow> holds Pre m Post"
  unfolding holds_def by blast

text \<open>An action that keeps to the operations of the store leads to a reachable store.\<close>

lemma holds_steps: "steps_act m \<Longrightarrow> holds (\<lambda>_. True) m (\<lambda>_ _. True)"
  unfolding holds_def using steps_actD steps_reachable by blast

section \<open>What a snapshot says of the store\<close>

definition stored_as :: "store \<Rightarrow> string \<Rightarrow> task_status \<Rightarrow> bool" where
  "stored_as s i st \<longleftrightarrow> map_option tk_status (row_of tk_id i (db_tasks (st_db s))) = Some st"

definition told :: "string \<Rightarrow> task \<Rightarrow> store \<Rightarrow> bool" where
  "told i t s \<longleftrightarrow> t_id t = i \<and> (is_terminal (t_status t) \<longrightarrow> stored_as s i (t_status t))"

lemma terminal_stored_stays:
  assumes "reachable s" "stored_as s i st" "is_terminal st" "store_step\<^sup>*\<^sup>* s s'"
  shows "stored_as s' i st"
proof -
  obtain row where row: "row_of tk_id i (db_tasks (st_db s)) = Some row" "tk_status row = st"
    using assms(2) by (auto simp: stored_as_def)
  have inv: "db_inv (st_db s)" by (rule reachable_db [OF assms(1)])
  from evolved_row [OF steps_evolve [OF assms(4) inv] steps_keep [OF assms(4) inv] row(1)]
  show ?thesis using row(2) assms(3) terminal_stays by (auto simp: task_evolves_def stored_as_def)
qed

lemma told_steps: "reachable s \<Longrightarrow> told i t s \<Longrightarrow> store_step\<^sup>*\<^sup>* s s' \<Longrightarrow> told i t s'"
  unfolding told_def using terminal_stored_stays by blast

lemma told_kept: "steps_act m \<Longrightarrow> holds (told i t) m (\<lambda>_. told i t)"
  unfolding holds_def using steps_actD steps_reachable told_steps by blast

lemma stored_row:
  assumes "reachable s" "row_of tk_id i (db_tasks (st_db s)) = Some row"
  shows "t_id (tk_json row) = i" "tk_status row = t_status (tk_json row)" "row \<in> set (db_tasks (st_db s))"
  using row_of_SomeD [OF assms(2)] reachable_tables [OF assms(1)]
  by (auto simp: tables_ok_def tasks_ok_def task_row_ok_def)

lemma get_task_told: "holds (\<lambda>_. True) (act_query (get_task i)) (told i)"
  unfolding holds_def
proof (intro allI impI conjI)
  fix s t s'
  assume s: "reachable s" and get: "act_query (get_task i) s = (Inr t, s')"
  then show "reachable s'" by (simp add: act_query_Ok)
  from get obtain row where "row_of tk_id i (db_tasks (st_db s)) = Some row" "decode_task (tk_json row) = Inr t"
    by (auto simp: act_query_Ok get_task_def read_store_def result_simps split: if_splits option.splits)
  moreover have "valid_task (tk_json row)"
    using stored_row(3) [OF s calculation(1)] reachable_tables [OF s]
    by (auto simp: tables_ok_def tasks_ok_def task_row_ok_def)
  ultimately show "told i t s'"
    using stored_row [OF s] get by (auto simp: act_query_Ok told_def stored_as_def)
qed

lemma terminal_ends_trail: "successively can_transition xs \<Longrightarrow> x \<in> set xs \<Longrightarrow> is_terminal x \<Longrightarrow> last xs = x"
  by (induction xs rule: induct_list012) (auto dest: terminal_no_transition)

text \<open>A transition returns the stored task, and a transition to a terminal status ends there.\<close>

lemma transition_told:
  assumes "valid_event e"
  shows "holds (\<lambda>_. True) (transition_stored_task now i target e)
    (\<lambda>t s. told i t s \<and> (is_terminal target \<longrightarrow> t_status t = target))"
  unfolding holds_def
proof (intro allI impI)
  fix s t s'
  assume s: "reachable s" and run: "transition_stored_task now i target e s = (Inr t, s')"
  have inv: "db_inv (st_db s)" by (rule reachable_db [OF s])
  have s': "reachable s'"
    using reachable_step [OF s store_step.transition_task [OF assms, of s now i target]] run by simp
  from run obtain d where d: "transition_body now i target e (st_db s) = (Inr t, d)" "s' = s\<lparr>st_db := d\<rparr>"
    by (auto simp: transition_stored_task_def transaction_Ok)
  from d(1)[unfolded transition_body_Ok [OF inv assms]] obtain row where
    row: "row_of tk_id i (db_tasks (st_db s)) = Some row" "validate_lifecycle_event (tk_json row) target e = Inr ()"
    and c: "case row_of er_id (ev_id e) (db_events (st_db s)) of
          Some r \<Rightarrow> er_json r = canonical_event e \<and> t = tk_json row \<and> d = st_db s
        | None \<Rightarrow>
            can_transition (tk_status row) target \<and> time_admissible (tk_json row) (ev_time e) \<and>
            t = stamp_transition (tk_json row) target (ev_time e) \<and> d = moved row t e (st_db s)" by blast
  note facts = stored_row [OF s row(1)]
  show "reachable s' \<and> told i t s' \<and> (is_terminal target \<longrightarrow> t_status t = target)"
  proof (cases "row_of er_id (ev_id e) (db_events (st_db s))")
    case None
    with c d(2) facts row(1) s' show ?thesis
      by (auto simp: told_def stored_as_def moved_def row_of_update_rows)
  next
    case (Some r)
    then have same: "er_json r = canonical_event e" "t = tk_json row" "s' = s" using c d(2) by auto
    have "t_status t = target" if "is_terminal target"
    proof -
      have r: "r \<in> set (db_events (st_db s))" using row_of_SomeD [OF Some] by simp
      then have "r = event_row_of (er_seq r) (er_json r)"
        using inv by (auto simp: db_inv_def tables_ok_def events_ok_def event_row_ok_def)
      then have "er_task r = Some i"
        using same(1) row(2) facts(1) by (metis canonical_event_simps(5) event_row_of_simps(4) validate_lifecycle_event_Ok)
      moreover have "lifecycle_status (er_json r) = Some target"
        using same(1) row(2) assms
        by (simp add: lifecycle_status_def validate_lifecycle_event_Ok payload_status_canonical lifecycle_types_def)
      ultimately have "target \<in> set (trail (db_events (st_db s)) i)"
        using r by (force simp: trail_def List.map_filter_def)
      moreover have "successively can_transition (trail (db_events (st_db s)) i)"
        "last (trail (db_events (st_db s)) i) = tk_status row"
        using inv facts(3) row_of_SomeD [OF row(1)] by (auto simp: db_inv_def history_ok_def legal_trail_def)
      ultimately show ?thesis
        using terminal_ends_trail that same(2) facts(2) by metis
    qed
    with same facts row(1) s' show ?thesis by (auto simp: told_def stored_as_def)
  qed
qed


lemma assign_told:
  assumes "valid_event e"
  shows "holds (\<lambda>_. True) (assign_task i agent e) (\<lambda>t _. t_id t = i)"
  unfolding holds_def
proof (intro allI impI)
  fix s t s'
  assume s: "reachable s" and run: "assign_task i agent e s = (Inr t, s')"
  have inv: "db_inv (st_db s)" by (rule reachable_db [OF s])
  have "reachable s'"
    using reachable_step [OF s store_step.assign_task [OF assms, of s i agent]] run by simp
  moreover from run obtain d where d: "assign_body i agent e (st_db s) = (Inr t, d)"
    by (auto simp: assign_task_def transaction_Ok)
  from d[unfolded assign_body_Ok [OF inv assms]] have "t_id t = i"
    using stored_row(1) [OF s] by (auto simp: assigned_task_def split: option.splits)
  ultimately show "reachable s' \<and> t_id t = i" by simp
qed

section \<open>The operations of the worker\<close>

lemma holds_during:
  assumes "lawful w" "holds (\<lambda>_. True) m Post"
  shows "holds (\<lambda>_. True) (during w p m) Post"
  using assms steps_reachable unfolding holds_def during_def lawful_def by blast

lemma get_during_told: "lawful w \<Longrightarrow> holds (\<lambda>_. True) (during w p (act_query (get_task i))) (told i)"
  by (rule holds_during [OF _ get_task_told])

lemma notify_told: "lawful w \<Longrightarrow> holds (told i t) (notify w p) (\<lambda>_. told i t)"
  by (rule told_kept [OF steps_notify])

lemma told_id: "told i t s \<Longrightarrow> t_id t = i"
  by (simp add: told_def)

lemma worker_transition_told:
  assumes "lawful w" "list_all (\<lambda>e. json_wf (snd e)) payload" "t_id t = i"
  shows "holds (\<lambda>_. True) (worker_transition w p t target agent level payload) (told i)"
proof (cases "transition_event_type target")
  case (Some ty)
  have "json_wf (JObj (dict_merge [(''status'', JStr (status_value target))] payload))"
    by (rule json_wf_merge [OF _ assms(2)]) simp
  then show ?thesis
    unfolding worker_transition_def Some option.case assms(3)
    by (intro holds_lift_bind holds_during [OF assms(1)] holds_weaken [OF transition_told])
      (auto dest: worker_event_valid)
qed (simp add: worker_transition_def)

lemma finish_task_told:
  assumes "lawful w" "t_id t = i"
  shows "holds (\<lambda>_. True) (finish_task w t result branch) (told i)"
proof -
  have wf: "json_wf (JObj (outcome_payload result branch))"
    by (simp add: outcome_payload_def texts_wf del: json_wf.simps(1))
  have entries: "list_all (\<lambda>e. json_wf (snd e)) (dict_merge (outcome_payload result branch) xs)"
    "json_wf (JObj (dict_merge (outcome_payload result branch) xs))"
    if "list_all (\<lambda>e. json_wf (snd e)) xs" for xs
    using json_wf_merge [OF wf that] by simp_all
  have cancel: "holds (\<lambda>_. True) (cancel_stored_task now (t_id t) e) (told i)" if "valid_event e" for now e
    unfolding cancel_stored_task_def assms(2) by (rule holds_weaken [OF transition_told [OF that]]) auto
  show ?thesis
    unfolding finish_task_def
    by (cases "re_status result")
      (auto intro!: worker_transition_told holds_lift_bind holds_during cancel entries assms
        dest!: worker_event_valid simp del: json_wf.simps(2))
qed

definition reported :: "string \<Rightarrow> process_result \<Rightarrow> store \<Rightarrow> bool" where
  "reported i res s \<longleftrightarrow> ps_task res = i \<and> (is_terminal (ps_status res) \<longrightarrow> stored_as s i (ps_status res))"

lemma report_told: "holds (told i t) (act_return (result_of t err)) (reported i)"
  by (rule holds_return) (simp add: told_def reported_def result_of_def)

lemma notify_and_report:
  "lawful w \<Longrightarrow> holds (told i t) (act_bind (notify w p) (\<lambda>_. act_return (result_of t err))) (reported i)"
  by (rule holds_bind [OF notify_told report_told])

lemma conclude_task_told:
  assumes "lawful w" "t_id t = i"
  shows "holds (\<lambda>_. True) (conclude_task w t target level code) (reported i)"
  unfolding conclude_task_def assms(2)
proof (rule holds_bind [OF get_during_told [OF assms(1)]])
  fix current
  show "holds (told i current)
      (act_bind (worker_transition w Conclude current target None level [(''reason'', JStr code)]) (\<lambda>ended.
       act_bind (notify w Notify_result) (\<lambda>_. act_return (result_of ended (Some code))))) (reported i)"
  proof (rule holds_assume [OF told_id])
    assume "t_id current = i"
    then have "holds (\<lambda>_. True) (worker_transition w Conclude current target None level [(''reason'', JStr code)]) (told i)"
      by (intro worker_transition_told assms) simp
    from holds_bind [OF holds_any [OF this] notify_and_report [OF assms(1)]] show ?thesis .
  qed
qed

lemma close_open_run_holds: "lawful w \<Longrightarrow> holds (\<lambda>_. True) (close_open_run w p) (\<lambda>_ _. True)"
  by (rule holds_steps [OF steps_close_open_run])

lemma rescue_told:
  assumes "lawful w" "t_id t = i"
  shows "holds (\<lambda>_. True) (rescue w t p) (reported i)"
  unfolding rescue_def assms(2)
proof (rule holds_bind [OF close_open_run_holds [OF assms(1)] holds_bind [OF get_during_told [OF assms(1)]]])
  fix current
  show "holds (told i current)
      (if is_terminal (t_status current) then act_return (result_of current None)
       else fail_task w current ''runtime-exception'') (reported i)"
    unfolding fail_task_def
    by (rule holds_if [OF report_told holds_assume [OF told_id holds_any [OF conclude_task_told [OF assms(1)]]]])
qed

section \<open>The work in the workspace\<close>

lemma do_work_told:
  assumes "lawful w" "t_id t0 = i"
  shows "holds (\<lambda>_. True) (do_work w agent t0 branch) (\<lambda>x. told i (fst x))"
proof -
  have start: "holds (\<lambda>_. True) (map_raise (\<lambda>_. No_run) (worker_transition w Start_running t0 Running
      (Some agent) INFO [(''branch'', JStr branch)])) (told i)"
    by (intro holds_map_raise worker_transition_told assms) simp
  have skip: "holds (\<lambda>_. True) (map_raise h m) (\<lambda>_ _. True)" if "steps_act m" for h :: "py_error \<Rightarrow> run_progress" and m :: "'x store_act"
    by (intro holds_map_raise holds_steps that)
  show ?thesis
    unfolding do_work_def
  proof (rule holds_bind [OF start], rule holds_bind [OF notify_told [OF assms(1)]])
    fix t u
    let ?rest = "\<lambda>result current. if t_status current = Cancelled
       then act_bind (notify w Notify_cancelled) (\<lambda>_. act_return (current, True))
       else act_bind (map_raise (\<lambda>_. Run_done) (finish_task w current result branch)) (\<lambda>final.
          act_return (final, False))"
    have rest: "holds (told i current) (?rest result current) (\<lambda>x. told i (fst x))" for current result
    proof (rule holds_if)
      show "holds (told i current) (act_bind (notify w Notify_cancelled) (\<lambda>_. act_return (current, True))) (\<lambda>x. told i (fst x))"
        by (rule holds_bind [OF notify_told [OF assms(1)]], rule holds_return) simp
      show "holds (told i current) (act_bind (map_raise (\<lambda>_. Run_done) (finish_task w current result branch))
          (\<lambda>final. act_return (final, False))) (\<lambda>x. told i (fst x))"
        by (rule holds_assume [OF told_id], assumption,
            rule holds_bind [OF holds_any [OF holds_map_raise [OF finish_task_told [OF assms(1)]]]],
            assumption, rule holds_return) simp
    qed
    have get: "holds (\<lambda>_. True) (map_raise (\<lambda>_. Run_done) (during w Get_executed (act_query (get_task i)))) (told i)"
      by (rule holds_map_raise [OF get_during_told [OF assms(1)]])
    have steps: "steps_act (record_run w t agent)" "steps_act (during w Begin_run (start_run (wk_clock w Begin_run) run None))"
      "steps_act (run_runtime_on w t agent)" "steps_act (finish_runtime_run w run result)" for run result
      unfolding finish_runtime_run_def
      by (intro steps_record_run steps_during steps_operations steps_run_runtime_on assms)+
    show "holds (told i t)
      (act_bind (map_raise (\<lambda>_. No_run) (record_run w t agent)) (\<lambda>run.
       act_bind (map_raise (\<lambda>_. Run_open run)
         (during w Begin_run (start_run (wk_clock w Begin_run) run None))) (\<lambda>_.
       act_bind (map_raise (\<lambda>_. Run_open run) (run_runtime_on w t agent)) (\<lambda>result.
       act_bind (map_raise (\<lambda>_. Run_open run) (finish_runtime_run w run result)) (\<lambda>_.
       act_bind (map_raise (\<lambda>_. Run_done) (during w Get_executed (act_query (get_task (t_id t))))) (\<lambda>current.
       ?rest result current)))))) (\<lambda>x. told i (fst x))"
    proof (rule holds_assume [OF told_id])
      assume id: "t_id t = i"
      show ?thesis
        unfolding id
        by (rule holds_any, (rule holds_bind [OF skip], rule steps)+, rule holds_bind [OF get rest])
    qed
  qed
qed


text \<open>Leaving the workspace lets the others move once more.\<close>

lemma in_workspace_told:
  assumes "lawful w" "t_id t = i"
  shows "holds (\<lambda>_. True) (in_workspace w agent t) (\<lambda>x. told i (fst x))"
  unfolding holds_def
proof (intro allI impI)
  fix s x s'
  assume s: "reachable s" and run: "in_workspace w agent t s = (Inr x, s')"
  let ?s1 = "wk_meanwhile w Open_workspace s"
  have s1: "reachable ?s1" using assms(1) s steps_reachable by (auto simp: lawful_def)
  from run obtain branch s2 where work: "do_work w agent t branch ?s1 = (Inr x, s2)"
    "s' = wk_meanwhile w Close_workspace s2"
    by (auto simp: in_workspace_def Let_def result_simps split: sum.splits workspace_error.splits prod.splits if_splits)
  then have "reachable s2" "told i (fst x) s2"
    using do_work_told [OF assms, of agent branch] s1 unfolding holds_def by blast+
  moreover have "store_step\<^sup>*\<^sup>* s2 s'" using assms(1) work(2) by (simp add: lawful_def)
  ultimately show "reachable s' \<and> told i (fst x) s'"
    using steps_reachable told_steps by blast
qed

lemma attempt_told:
  assumes "lawful w" "t_id t = i"
  shows "holds (\<lambda>_. True) (attempt w agent t) (reported i)"
  unfolding holds_def
proof (intro allI impI)
  fix s res s'
  assume s: "reachable s" and run: "attempt w agent t s = (Inr res, s')"
  obtain r s1 where r: "in_workspace w agent t s = (r, s1)" by (cases "in_workspace w agent t s") auto
  have s1: "reachable s1" using steps_in_workspace [OF assms(1), of s agent t] r s steps_reachable by simp
  have use: "reachable s' \<and> reported i res s'" if "holds Pre m (reported i)" "m s1 = (Inr res, s')" "Pre s1" for Pre m
    using that s1 unfolding holds_def by blast
  show "reachable s' \<and> reported i res s'"
  proof (cases r)
    case (Inl e)
    then show ?thesis
      using run r use [OF conclude_task_told [OF assms]] use [OF rescue_told [OF assms]]
      by (cases e) (simp_all add: attempt_def hold_task_def fail_task_def)
  next
    case (Inr x)
    then have told: "told i (fst x) s1"
      using in_workspace_told [OF assms] r s unfolding holds_def by blast
    show ?thesis
    proof (cases "snd x")
      case True
      then have "act_return (result_of (fst x) None) s1 = (Inr res, s')"
        using run r Inr by (cases x) (simp add: attempt_def act_return_def)
      with use [OF report_told _ told] show ?thesis by blast
    next
      case False
      then have "(act_bind (notify w Notify_result) (\<lambda>_. act_return (result_of (fst x) None)) :: process_result store_act)
          s1 = (Inr res, s')"
        using run r Inr by (cases x) (simp add: attempt_def)
      with use [OF notify_and_report [OF assms(1)] _ told] show ?thesis by blast
    qed
  qed
qed

lemma process_task_reports:
  assumes "lawful w"
  shows "holds (\<lambda>_. True) (process_task w i) (reported i)"
  unfolding process_task_def
proof (rule holds_bind [OF get_during_told [OF assms]], rule holds_if)
  fix t
  show "holds (told i t) (act_return (result_of t None)) (reported i)" by (rule report_told)
  have chosen: "holds (told i t') (case select_developer (wk_bundle w) t' of
         Inl (KeyError k) \<Rightarrow> act_raise RuntimeError
       | Inl _ \<Rightarrow> fail_task w t' ''developer-selection''
       | Inr developer \<Rightarrow> act_bind (assign_developer w t' developer) (\<lambda>t. attempt w (sl_agent developer) t))
      (reported i)" for t'
  proof (rule holds_assume [OF told_id])
    assume id: "t_id t' = i"
    have "holds (told i t') (fail_task w t' code) (reported i)" for code
      unfolding fail_task_def by (rule holds_any [OF conclude_task_told [OF assms id]])
    moreover have "holds (told i t') (act_bind (assign_developer w t' developer) (\<lambda>t. attempt w (sl_agent developer) t))
        (reported i)" for developer
    proof (rule holds_bind [OF holds_any])
      have "holds (\<lambda>_. True) (assign_task (t_id t') (sl_agent developer) e) (\<lambda>t _. t_id t = i)" if "valid_event e" for e
        unfolding id by (rule assign_told [OF that])
      then show "holds (\<lambda>_. True) (assign_developer w t' developer) (\<lambda>t _. t_id t = i)"
        unfolding assign_developer_def
        by (intro holds_lift_bind holds_during [OF assms])
          (auto dest!: worker_event_valid simp: assignment_payload_def)
      show "holds (\<lambda>_. t_id t = i) (attempt w (sl_agent developer) t) (reported i)" for t
        by (rule holds_assume, assumption, rule holds_any [OF attempt_told [OF assms]])
    qed
    ultimately show ?thesis by (auto split: sum.split selection_error.split)
  qed
  show "holds (told i t) (act_bind (worker_transition w Start_planning t Planning None INFO []) (\<lambda>t.
       case select_developer (wk_bundle w) t of
         Inl (KeyError k) \<Rightarrow> act_raise RuntimeError
       | Inl _ \<Rightarrow> fail_task w t ''developer-selection''
       | Inr developer \<Rightarrow> act_bind (assign_developer w t developer) (\<lambda>t. attempt w (sl_agent developer) t)))
     (reported i)"
  proof (rule holds_assume [OF told_id])
    assume "t_id t = i"
    then have "holds (\<lambda>_. True) (worker_transition w Start_planning t Planning None INFO []) (told i)"
      by (intro worker_transition_told assms) simp_all
    from holds_bind [OF holds_any [OF this] chosen] show ?thesis .
  qed
qed


text \<open>The cancellation returns a task that has ended: a transition to a terminal status ends there.\<close>

definition ended :: "string \<Rightarrow> task \<Rightarrow> store \<Rightarrow> bool" where
  "ended i t s \<longleftrightarrow> told i t s \<and> is_terminal (t_status t)"

lemma cancel_task_ends:
  assumes "lawful w"
  shows "holds (\<lambda>_. True) (cancel_task w i) (ended i)"
  unfolding cancel_task_def
proof (rule holds_bind [OF get_during_told [OF assms]])
  fix t :: task
  have stop: "steps_act (if t_status t = Running then stop_runtime w i else act_return ())"
    unfolding stop_runtime_def by (intro steps_if steps_during assms) (simp_all split: stop_outcome.split)
  have notify: "holds (ended i c) (act_bind (notify w Notify_cancelled) (\<lambda>_. act_return c)) (ended i)" for c
  proof (rule holds_bind)
    show "holds (ended i c) (notify w Notify_cancelled) (\<lambda>_. ended i c)"
      using notify_told [OF assms, of i c Notify_cancelled] unfolding holds_def ended_def by blast
    show "holds (ended i c) (act_return c) (ended i)" by (rule holds_return)
  qed
  have cancel: "holds (\<lambda>_. True) (during w Cancel_task (cancel_stored_task now i e)) (ended i)" if "valid_event e" for now e
    unfolding cancel_stored_task_def
    by (rule holds_during [OF assms holds_weaken [OF transition_told [OF that]]])
      (simp_all add: ended_def is_terminal_def)
  show "holds (told i t) (if is_terminal (t_status t) then act_return t
     else
       act_bind (if t_status t = Running then stop_runtime w i else act_return ()) (\<lambda>_.
       act_bind (act_lift (worker_event w Cancel_task t TASK_CANCELLED None WARNING
         [(''status'', JStr ''cancelled''), (''reason'', JStr ''user-request'')])) (\<lambda>e.
       act_bind (during w Cancel_task (cancel_stored_task (wk_clock w Cancel_task) i e)) (\<lambda>cancelled.
       act_bind (notify w Notify_cancelled) (\<lambda>_. act_return cancelled))))) (ended i)"
  proof (rule holds_if)
    show "is_terminal (t_status t) \<Longrightarrow> holds (told i t) (act_return t) (ended i)"
      by (rule holds_return) (simp add: ended_def)
    show "holds (told i t) (act_bind (if t_status t = Running then stop_runtime w i else act_return ()) (\<lambda>_.
       act_bind (act_lift (worker_event w Cancel_task t TASK_CANCELLED None WARNING
         [(''status'', JStr ''cancelled''), (''reason'', JStr ''user-request'')])) (\<lambda>e.
       act_bind (during w Cancel_task (cancel_stored_task (wk_clock w Cancel_task) i e)) (\<lambda>cancelled.
       act_bind (notify w Notify_cancelled) (\<lambda>_. act_return cancelled))))) (ended i)"
      by (rule holds_any, rule holds_bind [OF holds_steps [OF stop]], rule holds_lift_bind,
          rule holds_bind [OF cancel notify], erule worker_event_valid) simp
  qed
qed

end
