(* ===== verification/OrchestratorRun.thy ===== *)
theory OrchestratorRun
  imports OrchestratorOutcomes
begin

text \<open>
  A whole run of the worker when nothing goes wrong. \<open>holding s t log runs\<close> says which task snapshot,
  which event log and which runs a reachable, serving store holds; every operation of the workflow
  takes one such description to the next, and the workflow composes them.
\<close>

section \<open>One operation at a time\<close>

definition holding :: "store \<Rightarrow> task \<Rightarrow> event list \<Rightarrow> run_record list \<Rightarrow> bool" where
  "holding s t log runs \<longleftrightarrow>
     reachable s \<and> serving s \<and>
     map_option tk_json (row_of tk_id (t_id t) (db_tasks (st_db s))) = Some t \<and>
     map er_json (db_events (st_db s)) = log \<and> map rr_json (db_runs (st_db s)) = runs"

lemma holding_row:
  assumes "holding s t log runs"
  obtains row where "row_of tk_id (t_id t) (db_tasks (st_db s)) = Some row" "tk_json row = t"
    "tk_status row = t_status t" "valid_task t"
proof -
  obtain row where row: "row_of tk_id (t_id t) (db_tasks (st_db s)) = Some row" "tk_json row = t"
    using assms by (auto simp: holding_def)
  moreover have "reachable s" using assms by (simp add: holding_def)
  ultimately have "tk_status row = t_status t" "valid_task t"
    using stored_row [of s "t_id t" row] reachable_tables [of s]
    by (auto simp: tables_ok_def tasks_ok_def task_row_ok_def)
  with row that show ?thesis by blast
qed

lemma event_rows_ids:
  assumes "reachable s" "x \<notin> ev_id ` set (map er_json (db_events (st_db s)))"
  shows "row_of er_id x (db_events (st_db s)) = None"
proof -
  have "er_id r = ev_id (er_json r)" if "r \<in> set (db_events (st_db s))" for r
  proof -
    have "r = event_row_of (er_seq r) (er_json r)"
      using reachable_tables [OF assms(1)] that by (auto simp: tables_ok_def events_ok_def event_row_ok_def)
    then show ?thesis by (metis event_row_of_simps(2))
  qed
  with assms(2) show ?thesis by (auto simp: row_of_None)
qed

lemma holding_moved:
  assumes "holding s t log runs" "row_of tk_id (t_id t) (db_tasks (st_db s)) = Some row" "t_id t' = t_id t"
    "reachable (s\<lparr>st_db := moved row t' e (st_db s)\<rparr>)"
  shows "holding (s\<lparr>st_db := moved row t' e (st_db s)\<rparr>) t' (log @ [canonical_event e]) runs"
  using assms row_of_SomeD [OF assms(2)]
  by (simp add: holding_def moved_def row_of_update_rows add_event_def insert_row_def)

lemma holding_transition:
  assumes "holding s t log runs" "valid_event e" "validate_lifecycle_event t target e = Inr ()"
    "ev_id e \<notin> ev_id ` set log" "can_transition (t_status t) target" "time_admissible t (ev_time e)"
  shows "\<exists>s'. transition_stored_task now (t_id t) target e s = (Inr (stamp_transition t target (ev_time e)), s') \<and>
    holding s' (stamp_transition t target (ev_time e)) (log @ [canonical_event e]) runs"
proof -
  obtain row where row: "row_of tk_id (t_id t) (db_tasks (st_db s)) = Some row" "tk_json row = t"
    "tk_status row = t_status t" by (rule holding_row [OF assms(1)]) blast
  have s: "reachable s" "serving s" "log = map er_json (db_events (st_db s))"
    using assms(1) by (auto simp: holding_def)
  let ?s = "s\<lparr>st_db := moved row (stamp_transition t target (ev_time e)) e (st_db s)\<rparr>"
  have "transition_body now (t_id t) target e (st_db s) =
      (Inr (stamp_transition t target (ev_time e)), moved row (stamp_transition t target (ev_time e)) e (st_db s))"
    using row assms(3,5,6) event_rows_ids [OF s(1)] assms(4) s(3)
    by (simp add: transition_body_Ok [OF reachable_db [OF s(1)] assms(2)])
  then have run: "transition_stored_task now (t_id t) target e s = (Inr (stamp_transition t target (ev_time e)), ?s)"
    by (simp add: transition_stored_task_def transaction_on_serving [OF s(2)])
  then have "reachable ?s"
    using reachable_step [OF s(1) store_step.transition_task [OF assms(2), of s now "t_id t" target]] by simp
  from holding_moved [OF assms(1) row(1) _ this] run show ?thesis by auto
qed

lemma holding_assign:
  assumes "holding s t log runs" "valid_event e" "assignment_matches t agent e"
    "ev_id e \<notin> ev_id ` set log" "payload_status e = Some (status_value (t_status t))"
    "agent \<notin> set (t_agents t)"
  shows "\<exists>s'. assign_task (t_id t) agent e s = (Inr (assigned_task t agent), s') \<and>
    holding s' (assigned_task t agent) (log @ [canonical_event e]) runs"
proof -
  obtain row where row: "row_of tk_id (t_id t) (db_tasks (st_db s)) = Some row" "tk_json row = t"
    "tk_status row = t_status t" by (rule holding_row [OF assms(1)]) blast
  have s: "reachable s" "serving s" "log = map er_json (db_events (st_db s))"
    using assms(1) by (auto simp: holding_def)
  let ?s = "s\<lparr>st_db := moved row (assigned_task t agent) e (st_db s)\<rparr>"
  have "assign_body (t_id t) agent e (st_db s) = (Inr (assigned_task t agent), moved row (assigned_task t agent) e (st_db s))"
    using row assms(3,5,6) event_rows_ids [OF s(1)] assms(4) s(3)
    by (simp add: assign_body_Ok [OF reachable_db [OF s(1)] assms(2)])
  then have run: "assign_task (t_id t) agent e s = (Inr (assigned_task t agent), ?s)"
    by (simp add: assign_task_def transaction_on_serving [OF s(2)])
  then have "reachable ?s"
    using reachable_step [OF s(1) store_step.assign_task [OF assms(2), of s "t_id t" agent]] by simp
  from holding_moved [OF assms(1) row(1) _ this] run show ?thesis by (auto simp: assigned_task_def)
qed

lemma run_rows_ids:
  assumes "reachable s"
  shows "rr_id ` set (db_runs (st_db s)) = run_id ` set (map rr_json (db_runs (st_db s)))"
    "r \<in> set (db_runs (st_db s)) \<Longrightarrow> rr_id r = run_id (rr_json r)"
proof -
  show each: "rr_id r = run_id (rr_json r)" if "r \<in> set (db_runs (st_db s))" for r
  proof -
    have "r = run_row_of (rr_json r)"
      using reachable_tables [OF assms] that by (auto simp: tables_ok_def runs_ok_def run_row_ok_def)
    then show ?thesis by (metis run_row_of_simps(1))
  qed
  then show "rr_id ` set (db_runs (st_db s)) = run_id ` set (map rr_json (db_runs (st_db s)))"
    by (auto simp: image_iff)
qed

lemma holding_run_created:
  assumes "holding s t log runs" "valid_run r" "run_task r = t_id t" "run_id r \<notin> run_id ` set runs"
  shows "\<exists>s'. create_run r s = (Inr r, s') \<and> holding s' t log (runs @ [r])"
proof -
  have s: "reachable s" "serving s" "runs = map rr_json (db_runs (st_db s))"
    using assms(1) by (auto simp: holding_def)
  obtain row where "row_of tk_id (t_id t) (db_tasks (st_db s)) = Some row" by (rule holding_row [OF assms(1)])
  then have "run_task r \<in> task_ids (st_db s)" by (metis assms(3) row_of_None option.distinct(1))
  moreover have "run_id r \<notin> keys rr_id (db_runs (st_db s))"
    using assms(4) unfolding run_rows_ids(1) [OF s(1)] s(3) .
  ultimately have "create_run_body r (st_db s) = (Inr r, db_runs_update (insert_row (run_row_of r)) (st_db s))"
    by (simp add: create_run_body_Ok)
  then have run: "create_run r s = (Inr r, s\<lparr>st_db := db_runs_update (insert_row (run_row_of r)) (st_db s)\<rparr>)"
    by (simp add: create_run_def transaction_on_serving [OF s(2)])
  then have "reachable (s\<lparr>st_db := db_runs_update (insert_row (run_row_of r)) (st_db s)\<rparr>)"
    using reachable_step [OF s(1) store_step.create_run [OF assms(2), of s]] by simp
  with run show ?thesis using assms(1) by (simp add: holding_def map_insert_row)
qed

text \<open>A changed copy of the last run of the list.\<close>

lemma put_last_run:
  assumes "holding s t log (runs @ [r])" "run_id r \<notin> run_id ` set runs" "run_id r' = run_id r"
    "reachable (s\<lparr>st_db := put_run r' (st_db s)\<rparr>)"
  shows "holding (s\<lparr>st_db := put_run r' (st_db s)\<rparr>) t log (runs @ [r'])"
proof -
  have s: "reachable s" "runs @ [r] = map rr_json (db_runs (st_db s))" using assms(1) by (auto simp: holding_def)
  have "map rr_json (update_rows (\<lambda>row. rr_id row = run_id r') (written_run r') (db_runs (st_db s))) =
      map (\<lambda>j. if run_id j = run_id r' then r' else j) (map rr_json (db_runs (st_db s)))"
    using run_rows_ids(2) [OF s(1)] by (auto simp: update_rows_def)
  also have "\<dots> = runs @ [r']"
    using assms(2,3) by (simp add: s(2) [symmetric]) (rule map_idI, metis image_eqI)
  finally show ?thesis using assms by (simp add: holding_def)
qed

lemma last_run_row:
  assumes "holding s t log (runs @ [r])" "run_id r \<notin> run_id ` set runs"
  shows "map_option rr_json (row_of rr_id (run_id r) (db_runs (st_db s))) = Some r"
proof -
  have s: "reachable s" "runs @ [r] = map rr_json (db_runs (st_db s))" using assms(1) by (auto simp: holding_def)
  have "r \<in> set (map rr_json (db_runs (st_db s)))" by (simp add: s(2) [symmetric])
  then obtain row where row: "row \<in> set (db_runs (st_db s))" "rr_json row = r" by auto
  then have "row_of rr_id (rr_id row) (db_runs (st_db s)) = Some row"
    using reachable_tables [OF s(1)] by (intro row_of_distinct) (auto simp: tables_ok_def runs_ok_def)
  then show ?thesis using row run_rows_ids(2) [OF s(1)] by simp
qed

lemma holding_run_started:
  assumes "holding s t log (runs @ [r])" "run_id r \<notin> run_id ` set runs" "run_status r = RunQueued"
    "valid_run r'" "r' = r\<lparr>run_status := RunRunning, run_started := Some now\<rparr>"
  shows "\<exists>s'. start_run now (run_id r) None s = (Inr r', s') \<and> holding s' t log (runs @ [r'])"
proof -
  have s: "reachable s" "serving s" using assms(1) by (auto simp: holding_def)
  have "start_run_body (run_id r) now (st_db s) = (Inr r', put_run r' (st_db s))"
    using last_run_row [OF assms(1,2)] assms(3-5)
    by (auto simp: start_run_body_Ok [OF reachable_tables [OF s(1)]] valid_run_def)
  then have run: "start_run now (run_id r) None s = (Inr r', s\<lparr>st_db := put_run r' (st_db s)\<rparr>)"
    by (simp add: start_run_def act_defs aware_time_def transaction_on_serving [OF s(2)])
  then have "reachable (s\<lparr>st_db := put_run r' (st_db s)\<rparr>)"
    using reachable_step [OF s(1) store_step.start_run [of s now "run_id r" None]] by simp
  from put_last_run [OF assms(1,2) _ this] run assms(5) show ?thesis by auto
qed

lemma holding_run_finished:
  assumes "holding s t log (runs @ [r])" "run_id r \<notin> run_id ` set runs" "\<not> run_terminal (run_status r)"
    "run_terminal status" "valid_run r'" "r' = finished_run r status now code err"
  shows "\<exists>s'. finish_run now (run_id r) status None code err s = (Inr r', s') \<and> holding s' t log (runs @ [r'])"
proof -
  have s: "reachable s" "serving s" using assms(1) by (auto simp: holding_def)
  have "finish_run_body (run_id r) status now code err (st_db s) = (Inr r', put_run r' (st_db s))"
    using last_run_row [OF assms(1,2)] assms(3,5,6)
    by (auto simp: finish_run_body_Ok [OF reachable_tables [OF s(1)]] valid_run_def)
  then have run: "finish_run now (run_id r) status None code err s = (Inr r', s\<lparr>st_db := put_run r' (st_db s)\<rparr>)"
    using assms(4) by (simp add: finish_run_def act_defs aware_time_def transaction_on_serving [OF s(2)])
  then have "reachable (s\<lparr>st_db := put_run r' (st_db s)\<rparr>)"
    using reachable_step [OF s(1) store_step.finish_run [of s now "run_id r" status None code err]] by simp
  from put_last_run [OF assms(1,2) _ this] run assms(6) show ?thesis by (auto simp: finished_run_def)
qed

lemma holding_get:
  assumes "holding s t log runs"
  shows "get_task (t_id t) s = Inr t"
proof -
  obtain row where "row_of tk_id (t_id t) (db_tasks (st_db s)) = Some row" "tk_json row = t" "valid_task t"
    by (rule holding_row [OF assms]) blast
  moreover have "serving s" using assms by (simp add: holding_def)
  ultimately show ?thesis by (simp add: get_task_def read_serving)
qed

section \<open>The events of the worker\<close>

definition drafted ::
  "worker \<Rightarrow> await_point \<Rightarrow> task \<Rightarrow> event_type \<Rightarrow> string option \<Rightarrow> event_level \<Rightarrow> json_object \<Rightarrow> event" where
  "drafted w p t ty agent level payload =
     \<lparr>ev_schema = 1, ev_id = fst (wk_event w p), ev_type = ty, ev_time = snd (wk_event w p),
      ev_task = Some (t_id t), ev_project = Some (t_project t), ev_team = Some (t_team t),
      ev_agent = agent, ev_correlation = Some (task_correlation_id (wk_uuid5 w) (t_id t)),
      ev_causation = None, ev_level = level, ev_message = None, ev_payload = payload\<rparr>"

lemma drafted_simps [simp]:
  "ev_id (drafted w p t ty agent level payload) = fst (wk_event w p)"
  "ev_time (drafted w p t ty agent level payload) = snd (wk_event w p)"
  "ev_type (drafted w p t ty agent level payload) = ty"
  "ev_payload (drafted w p t ty agent level payload) = payload"
  "ev_agent (drafted w p t ty agent level payload) = agent"
  "ev_task (drafted w p t ty agent level payload) = Some (t_id t)"
  "ev_project (drafted w p t ty agent level payload) = Some (t_project t)"
  "ev_team (drafted w p t ty agent level payload) = Some (t_team t)"
  by (simp_all add: drafted_def)

lemma drafted_event:
  assumes "valid_task t" "clean_opt Identifier agent" "category ty = ''agent'' \<longrightarrow> agent \<noteq> None"
    "keys_allowed payload_key_forbidden (JObj payload)" "json_wf (JObj payload)"
  shows "worker_event w p t ty agent level payload = Inr (drafted w p t ty agent level payload)"
    "valid_event (drafted w p t ty agent level payload)"
proof -
  show valid: "valid_event (drafted w p t ty agent level payload)"
    using assms by (simp add: valid_event_iff event_fields_clean_def context_ok_def valid_task_iff
        fields_clean_def drafted_def del: keys_allowed.simps json_wf.simps)
  then show "worker_event w p t ty agent level payload = Inr (drafted w p t ty agent level payload)"
    by (simp add: worker_event_def drafted_def valid_event_def)
qed


lemmas payload_facts = payload_key_forbidden_def FORBIDDEN_PAYLOAD_KEYS_def normalized_key_def lower_def
  char_lower_def is_upper_def in_range_def

lemma payload_keys [simp]:
  "\<not> payload_key_forbidden (normalized_key ''status'')" "\<not> payload_key_forbidden (normalized_key ''role'')" "\<not> payload_key_forbidden (normalized_key ''runtime'')"
  "\<not> payload_key_forbidden (normalized_key ''branch'')" "\<not> payload_key_forbidden (normalized_key ''changed_files'')"
  "\<not> payload_key_forbidden (normalized_key ''reason'')"
  by (simp_all add: payload_facts)

lemma json_texts [simp]: "keys_allowed P (JArr (map JStr xs))" "json_wf (JArr (map JStr xs))"
  by (simp_all add: list_all_iff)

section \<open>A run in which nothing goes wrong\<close>

text \<open>The status that a runtime outcome gives the task.\<close>

fun ended_status :: "runtime_status \<Rightarrow> task_status" where
  "ended_status RuntimeSucceeded = Completed"
| "ended_status RuntimeCancelled = Cancelled"
| "ended_status _ = Failed"

text \<open>Snapshots of the same piece of work: what the workspace and the runtime look at.\<close>

definition same_job :: "task \<Rightarrow> task \<Rightarrow> bool" where
  "same_job t t' \<longleftrightarrow> t_id t' = t_id t \<and> t_project t' = t_project t \<and> t_request t' = t_request t"

text \<open>The event that ends a task tells the branch and the changed files.\<close>

definition tells_outcome :: "string \<Rightarrow> string list \<Rightarrow> event \<Rightarrow> bool" where
  "tells_outcome branch files e \<longleftrightarrow>
     map_of (ev_payload e) ''branch'' = Some (JStr branch) \<and>
     map_of (ev_payload e) ''changed_files'' = Some (JArr (map JStr files))"

lemma outcome_told:
  assumes "ev_payload e = canonical_object p" "distinct (map fst p)" "map_of p ''branch'' = Some (JStr branch)"
    "map_of p ''changed_files'' = Some (JArr (map JStr files))"
  shows "tells_outcome branch files e"
  using assms by (simp add: tells_outcome_def map_of_canonical_object comp_def)

text \<open>
  The others keep still, the developer is selected, the workspace opens and closes, the runtime
  returns a result (of any status), identifiers are new and well formed, and the clocks go forward.
\<close>

definition smooth :: "worker \<Rightarrow> task \<Rightarrow> selection \<Rightarrow> string \<Rightarrow> runtime_result \<Rightarrow> bool" where
  "smooth w t developer branch result \<longleftrightarrow>
     (\<forall>p s. wk_meanwhile w p s = s) \<and> \<not> wk_release_fails w \<and>
     select_developer (wk_bundle w) t = Inr developer \<and> clean Identifier (sl_agent developer) \<and>
     sl_agent developer \<notin> set (t_agents t) \<and>
     (\<forall>t'. same_job t t' \<longrightarrow>
        wk_open w t' = Inr branch \<and> wk_execute w t' (sl_agent developer) = Some result) \<and>
     clean RunId (wk_run_id w) \<and> clean Identifier (wk_runtime w) \<and>
     distinct (map (\<lambda>p. fst (wk_event w p)) [Start_planning, Assign_developer, Start_running, Finish_task]) \<and>
     time_admissible t (snd (wk_event w Start_planning)) \<and>
     utc (snd (wk_event w Start_planning)) \<le> utc (snd (wk_event w Start_running)) \<and>
     utc (snd (wk_event w Start_running)) \<le> utc (snd (wk_event w Finish_task)) \<and>
     utc (wk_clock w Create_run) \<le> utc (wk_clock w Begin_run) \<and>
     utc (wk_clock w Begin_run) \<le> utc (wk_clock w Finish_run)"

definition worker_run :: "worker \<Rightarrow> task \<Rightarrow> string \<Rightarrow> run_record" where
  "worker_run w t agent =
     \<lparr>run_id = wk_run_id w, run_task = t_id t, run_agent = agent, run_runtime = wk_runtime w,
      run_status = RunQueued, run_created = wk_clock w Create_run, run_started = None,
      run_completed = None, run_exit_code = None, run_error_code = None\<rparr>"

definition ended_run :: "worker \<Rightarrow> task \<Rightarrow> string \<Rightarrow> runtime_result \<Rightarrow> run_record" where
  "ended_run w t agent result =
     finished_run ((worker_run w t agent)\<lparr>run_status := RunRunning, run_started := Some (wk_clock w Begin_run)\<rparr>)
       (run_outcome (re_status result)) (wk_clock w Finish_run) (re_exit_code result)
       (if re_status result = RuntimeSucceeded then None
        else Some (''runtime-'' @ runtime_status_value (re_status result)))"

lemma worker_runs_valid:
  assumes "smooth w t developer branch result" "valid_task t'"
  shows "valid_run (worker_run w t' (sl_agent developer))"
    "valid_run ((worker_run w t' (sl_agent developer))
       \<lparr>run_status := RunRunning, run_started := Some (wk_clock w Begin_run)\<rparr>)"
    "valid_run (ended_run w t' (sl_agent developer) result)"
proof -
  have code: "clean Identifier (''runtime-'' @ runtime_status_value st)" for st
    by (cases st) (simp_all add: check_simps)
  have facts: "clean Identifier (sl_agent developer)" "clean RunId (wk_run_id w)" "clean Identifier (wk_runtime w)"
    "utc (wk_clock w Create_run) \<le> utc (wk_clock w Begin_run)"
    "utc (wk_clock w Begin_run) \<le> utc (wk_clock w Finish_run)"
    "clean TaskId (t_id t')"
    using assms by (simp_all add: smooth_def valid_task_iff fields_clean_def)
  show "valid_run (worker_run w t' (sl_agent developer))"
    "valid_run ((worker_run w t' (sl_agent developer))
       \<lparr>run_status := RunRunning, run_started := Some (wk_clock w Begin_run)\<rparr>)"
    using facts by (simp_all add: valid_run_iff run_fields_clean_def run_lifecycle_ok_def worker_run_def run_terminal_def)
  show "valid_run (ended_run w t' (sl_agent developer) result)"
    using facts code
    by (cases "re_status result")
      (simp_all add: valid_run_iff run_fields_clean_def run_lifecycle_ok_def ended_run_def finished_run_def
        worker_run_def run_terminal_def del: runtime_status_value.simps)
qed

lemma transition_runs:
  assumes "holding s t log runs" "transition_event_type target = Some (event_for_status target)"
    "clean_opt Identifier agent" "\<forall>p s. wk_meanwhile w p s = s"
    "payload' = dict_merge [(''status'', JStr (status_value target))] payload"
    "keys_allowed payload_key_forbidden (JObj payload')" "json_wf (JObj payload')"
    "payload_status (drafted w p t (event_for_status target) agent level payload') = Some (status_value target)"
    "fst (wk_event w p) \<notin> ev_id ` set log" "can_transition (t_status t) target"
    "time_admissible t (snd (wk_event w p))"
  shows "\<exists>s' e. worker_transition w p t target agent level payload s =
      (Inr (stamp_transition t target (snd (wk_event w p))), s') \<and>
    holding s' (stamp_transition t target (snd (wk_event w p))) (log @ [e]) runs \<and>
    ev_type e = event_for_status target \<and> ev_id e = fst (wk_event w p) \<and> ev_payload e = canonical_object payload'"
proof -
  let ?e = "drafted w p t (event_for_status target) agent level payload'"
  have valid: "valid_task t" by (rule holding_row [OF assms(1)]) blast
  note event = drafted_event [OF valid assms(3) _ assms(6,7), of "event_for_status target" w p level]
  have "validate_lifecycle_event t target ?e = Inr ()"
    using assms(8) by (simp add: validate_lifecycle_event_Ok)
  from holding_transition [OF assms(1) _ this, of "wk_clock w p"] event lifecycle_not_agent assms(9-11)
  obtain s' where s': "transition_stored_task (wk_clock w p) (t_id t) target ?e s =
      (Inr (stamp_transition t target (snd (wk_event w p))), s')"
    "holding s' (stamp_transition t target (snd (wk_event w p))) (log @ [canonical_event ?e]) runs"
    by auto
  moreover have "worker_transition w p t target agent level payload s = transition_stored_task (wk_clock w p) (t_id t) target ?e s"
    using event lifecycle_not_agent assms(4)
    by (simp add: worker_transition_def assms(2) assms(5) [symmetric] act_defs during_def)
  ultimately show ?thesis by (intro exI [of _ s'] exI [of _ "canonical_event ?e"]) simp
qed


lemma finish_task_runs:
  assumes "holding s t log runs" "\<forall>p s. wk_meanwhile w p s = s" "t_status t = Running"
    "fst (wk_event w Finish_task) \<notin> ev_id ` set log" "time_admissible t (snd (wk_event w Finish_task))"
  shows "\<exists>s' e. finish_task w t result branch s =
      (Inr (stamp_transition t (ended_status (re_status result)) (snd (wk_event w Finish_task))), s') \<and>
    holding s' (stamp_transition t (ended_status (re_status result)) (snd (wk_event w Finish_task))) (log @ [e]) runs \<and>
    ev_type e = event_for_status (ended_status (re_status result)) \<and> ev_id e = fst (wk_event w Finish_task) \<and>
    tells_outcome branch (re_changed_files result) e"
proof -
  have can: "can_transition Running (ended_status st)" for st by (cases st) (simp_all add: lifecycle_defs)
  let ?ends = "\<lambda>target m. \<exists>s' e. m s = (Inr (stamp_transition t target (snd (wk_event w Finish_task))), s') \<and>
    holding s' (stamp_transition t target (snd (wk_event w Finish_task))) (log @ [e]) runs \<and>
    ev_type e = event_for_status target \<and> ev_id e = fst (wk_event w Finish_task) \<and>
    tells_outcome branch (re_changed_files result) e"
  have ends: "?ends target (worker_transition w Finish_task t target None level payload)"
    if "\<exists>s' e. worker_transition w Finish_task t target None level payload s =
          (Inr (stamp_transition t target (snd (wk_event w Finish_task))), s') \<and>
        holding s' (stamp_transition t target (snd (wk_event w Finish_task))) (log @ [e]) runs \<and>
        ev_type e = event_for_status target \<and> ev_id e = fst (wk_event w Finish_task) \<and> ev_payload e = canonical_object p"
      "distinct (map fst p)" "map_of p ''branch'' = Some (JStr branch)"
      "map_of p ''changed_files'' = Some (JArr (map JStr (re_changed_files result)))" for target level payload p
    using that outcome_told [of _ p] by blast
  have completed: "?ends Completed (worker_transition w Finish_task t Completed None INFO
      (dict_merge (outcome_payload result branch) [(''status'', JStr ''completed'')]))"
    by (rule ends, rule transition_runs [OF assms(1) _ _ assms(2) refl])
      (use can [of RuntimeSucceeded] assms(3-5) in
        \<open>simp_all add: outcome_payload_def dict_merge_def payload_status_Some list_all_iff\<close>)
  have failed: "?ends Failed (worker_transition w Finish_task t Failed None ERROR
      (dict_merge (outcome_payload result branch) [(''status'', JStr ''failed''), (''reason'', JStr reason)]))" for reason
    by (rule ends, rule transition_runs [OF assms(1) _ _ assms(2) refl])
      (use can [of RuntimeFailed] assms(3-5) in
        \<open>simp_all add: outcome_payload_def dict_merge_def payload_status_Some list_all_iff\<close>)
  have others: "?thesis" if "re_status result \<noteq> RuntimeCancelled"
    using that completed failed by (cases "re_status result") (simp_all add: finish_task_def)
  show ?thesis
  proof (cases "re_status result = RuntimeCancelled")
    case True
    let ?payload = "dict_merge (outcome_payload result branch) [(''status'', JStr ''cancelled'')]"
    let ?e = "drafted w Finish_task t TASK_CANCELLED None WARNING ?payload"
    have valid: "valid_task t" by (rule holding_row [OF assms(1)]) blast
    have ok: "keys_allowed payload_key_forbidden (JObj ?payload)" "json_wf (JObj ?payload)"
      by (simp_all add: outcome_payload_def dict_merge_def list_all_iff)
    note event = drafted_event [OF valid _ _ ok, of None TASK_CANCELLED w Finish_task WARNING]
    have "validate_lifecycle_event t Cancelled ?e = Inr ()"
      by (simp add: validate_lifecycle_event_Ok payload_status_Some outcome_payload_def dict_merge_def)
    from holding_transition [OF assms(1) _ this, of "wk_clock w Finish_task"] event
      can [of RuntimeCancelled] assms(3-5)
    obtain s' where "transition_stored_task (wk_clock w Finish_task) (t_id t) Cancelled ?e s =
        (Inr (stamp_transition t Cancelled (snd (wk_event w Finish_task))), s')"
      "holding s' (stamp_transition t Cancelled (snd (wk_event w Finish_task))) (log @ [canonical_event ?e]) runs"
      by (auto simp: category_def)
    moreover have "tells_outcome branch (re_changed_files result) (canonical_event ?e)"
      by (rule outcome_told [of _ ?payload]) (simp_all add: canonical_event_def outcome_payload_def dict_merge_def)
    ultimately show ?thesis
      using event assms(2) True
      by (intro exI [of _ s'] exI [of _ "canonical_event ?e"])
        (simp add: finish_task_def act_defs during_def cancel_stored_task_def category_def)
  qed (rule others)
qed


lemma select_same: "t_team t' = t_team t \<Longrightarrow> t_project t' = t_project t \<Longrightarrow> select_developer b t' = select_developer b t"
  by (simp only: select_developer_def)

text \<open>The work inside the workspace, up to the end of the task.\<close>

lemma do_work_runs:
  assumes held: "holding s t log runs" and smooth: "smooth w t0 developer branch result"
    and t: "t_status t = Planning" "same_job t0 t" "time_admissible t (snd (wk_event w Start_running))"
    and new: "fst (wk_event w Start_running) \<notin> ev_id ` set log" "fst (wk_event w Finish_task) \<notin> ev_id ` set log"
      "wk_run_id w \<notin> run_id ` set runs"
  defines "t1 \<equiv> stamp_transition t Running (snd (wk_event w Start_running))"
  defines "t2 \<equiv> stamp_transition t1 (ended_status (re_status result)) (snd (wk_event w Finish_task))"
  shows "\<exists>s' e1 e2. do_work w (sl_agent developer) t branch s = (Inr (t2, False), s') \<and>
    holding s' t2 (log @ [e1, e2]) (runs @ [ended_run w t (sl_agent developer) result]) \<and>
    ev_type e1 = TASK_STARTED \<and> ev_type e2 = event_for_status (ended_status (re_status result)) \<and>
    tells_outcome branch (re_changed_files result) e2"
proof -
  let ?agent = "sl_agent developer" and ?r0 = "worker_run w t (sl_agent developer)"
  let ?r1 = "?r0\<lparr>run_status := RunRunning, run_started := Some (wk_clock w Begin_run)\<rparr>"
  have still: "\<forall>p s. wk_meanwhile w p s = s" and agent: "clean Identifier ?agent"
    and ids: "fst (wk_event w Start_running) \<noteq> fst (wk_event w Finish_task)"
    and times: "utc (snd (wk_event w Start_running)) \<le> utc (snd (wk_event w Finish_task))"
    and execute: "wk_execute w t1 ?agent = Some result"
    using smooth t(2) by (simp_all add: smooth_def same_job_def t1_def)
  have valid: "valid_task t" by (rule holding_row [OF held]) blast
  obtain s1 e1 where start: "worker_transition w Start_running t Running (Some ?agent) INFO [(''branch'', JStr branch)] s =
      (Inr t1, s1)" and h1: "holding s1 t1 (log @ [e1]) runs" and e1: "ev_type e1 = TASK_STARTED"
      "ev_id e1 = fst (wk_event w Start_running)"
    using transition_runs [OF held _ _ still refl, of Running "Some ?agent" "[(''branch'', JStr branch)]" Start_running INFO]
      agent t(1,3) new(1)
    by (auto simp: t1_def dict_merge_def payload_status_Some lifecycle_defs)
  have r0: "worker_run w t1 ?agent = ?r0" by (simp add: worker_run_def t1_def)
  obtain s2 where create: "create_run ?r0 s1 = (Inr ?r0, s2)" and h2: "holding s2 t1 (log @ [e1]) (runs @ [?r0])"
    using holding_run_created [OF h1 worker_runs_valid(1) [OF smooth valid]] new(3)
    by (auto simp: worker_run_def t1_def)
  have fresh: "run_id ?r0 \<notin> run_id ` set runs" "run_id ?r0 = wk_run_id w" using new(3) by (simp_all add: worker_run_def)
  obtain s3 where begin_run: "start_run (wk_clock w Begin_run) (wk_run_id w) None s2 = (Inr ?r1, s3)"
    and h3: "holding s3 t1 (log @ [e1]) (runs @ [?r1])"
    using holding_run_started [OF h2 fresh(1) _ worker_runs_valid(2) [OF smooth valid] refl] fresh(2)
    by (auto simp: worker_run_def)
  have "run_terminal (run_outcome (re_status result))" by (cases "re_status result") (simp_all add: run_terminal_def)
  then obtain s4 where finish: "finish_runtime_run w (wk_run_id w) result s3 = (Inr (ended_run w t ?agent result), s4)"
    and h4: "holding s4 t1 (log @ [e1]) (runs @ [ended_run w t ?agent result])"
    using holding_run_finished [OF h3 _ _ _ worker_runs_valid(3) [OF smooth valid] ended_run_def] fresh still
    by (auto simp: run_terminal_def finish_runtime_run_def during_def)
  have running: "t_status t1 = Running" by (simp add: t1_def)
  have ended_id: "fst (wk_event w Finish_task) \<notin> ev_id ` set (log @ [e1])" using e1(2) ids new(2) by simp
  have ended_time: "time_admissible t1 (snd (wk_event w Finish_task))"
    using times t(3) by (auto simp: t1_def time_admissible_def stamp_transition_def opt_all_iff)
  obtain s5 e2 where final: "finish_task w t1 result branch s4 = (Inr t2, s5)"
    and h5: "holding s5 t2 ((log @ [e1]) @ [e2]) (runs @ [ended_run w t ?agent result])"
    and e2: "ev_type e2 = event_for_status (ended_status (re_status result))"
      "tells_outcome branch (re_changed_files result) e2"
    using finish_task_runs [OF h4 still running ended_id ended_time] unfolding t2_def by blast
  have recorded: "record_run w t1 ?agent s1 = (Inr (wk_run_id w), s2)"
    using create worker_runs_valid(1) [OF smooth valid] still r0
    by (simp add: record_run_def worker_run_def valid_run_def act_defs during_def)
  have "get_task (t_id t1) s4 = Inr t1" by (rule holding_get [OF h4])
  then have "do_work w ?agent t branch s = (Inr (t2, False), s5)"
    using start recorded begin_run finish final still
    by (simp add: do_work_def act_defs map_raise_def notify_def during_def run_runtime_on_def execute act_query_def)
      (simp add: t1_def)
  with h5 e1(1) e2 show ?thesis by auto
qed


text \<open>The snapshots of the task on its way.\<close>

definition planned :: "worker \<Rightarrow> task \<Rightarrow> task" where
  "planned w t = stamp_transition t Planning (snd (wk_event w Start_planning))"

definition processed :: "worker \<Rightarrow> task \<Rightarrow> string \<Rightarrow> runtime_status \<Rightarrow> task" where
  "processed w t agent st =
     stamp_transition (stamp_transition (assigned_task (planned w t) agent) Running (snd (wk_event w Start_running)))
       (ended_status st) (snd (wk_event w Finish_task))"

lemma process_task_runs:
  assumes held: "holding s t log runs" and smooth: "smooth w t developer branch result"
    and queued: "t_status t = Queued" and new: "wk_run_id w \<notin> run_id ` set runs"
      "\<forall>p \<in> {Start_planning, Assign_developer, Start_running, Finish_task}. fst (wk_event w p) \<notin> ev_id ` set log"
  shows "\<exists>s' e1 e2 e3 e4. process_task w (t_id t) s =
      (Inr \<lparr>ps_task = t_id t, ps_status = ended_status (re_status result), ps_error = None\<rparr>, s') \<and>
    holding s' (processed w t (sl_agent developer) (re_status result)) (log @ [e1, e2, e3, e4])
      (runs @ [ended_run w t (sl_agent developer) result]) \<and>
    map ev_type [e1, e2, e3, e4] =
      [TASK_STARTED, AGENT_ASSIGNED, TASK_STARTED, event_for_status (ended_status (re_status result))] \<and>
    tells_outcome branch (re_changed_files result) e4"
proof -
  let ?agent = "sl_agent developer" and ?t1 = "planned w t"
  let ?t2 = "assigned_task ?t1 ?agent"
  have still: "\<forall>p s. wk_meanwhile w p s = s" and agent: "clean Identifier ?agent" "?agent \<notin> set (t_agents t)"
    and select: "select_developer (wk_bundle w) t = Inr developer"
    and ids: "distinct (map (\<lambda>p. fst (wk_event w p)) [Start_planning, Assign_developer, Start_running, Finish_task])"
    and times: "time_admissible t (snd (wk_event w Start_planning))"
      "utc (snd (wk_event w Start_planning)) \<le> utc (snd (wk_event w Start_running))"
    and workspace: "\<And>t'. same_job t t' \<Longrightarrow> wk_open w t' = Inr branch" "\<not> wk_release_fails w"
    using smooth by (simp_all add: smooth_def)
  obtain s1 e1 where plan: "worker_transition w Start_planning t Planning None INFO [] s = (Inr ?t1, s1)"
    and h1: "holding s1 ?t1 (log @ [e1]) runs" and e1: "ev_type e1 = TASK_STARTED" "ev_id e1 = fst (wk_event w Start_planning)"
    using transition_runs [OF held _ _ still refl, of Planning None "[]" Start_planning INFO] queued times(1) new(2)
    by (auto simp: planned_def dict_merge_def payload_status_Some lifecycle_defs)
  have "select_developer (wk_bundle w) ?t1 = Inr developer"
    using select select_same [of ?t1 t] by (simp add: planned_def)
  let ?payload = "assignment_payload ?t1 developer"
  let ?e = "drafted w Assign_developer ?t1 AGENT_ASSIGNED (Some ?agent) INFO ?payload"
  have valid: "valid_task ?t1" by (rule holding_row [OF h1]) blast
  have event: "worker_event w Assign_developer ?t1 AGENT_ASSIGNED (Some ?agent) INFO ?payload = Inr ?e" "valid_event ?e"
    using drafted_event [OF valid, of "Some ?agent" AGENT_ASSIGNED ?payload w Assign_developer INFO] agent(1)
    by (simp_all add: assignment_payload_def)
  have matches: "assignment_matches ?t1 ?agent ?e" "payload_status ?e = Some (status_value (t_status ?t1))"
    by (simp_all add: assignment_matches_def payload_status_Some assignment_payload_def)
  have unused: "ev_id ?e \<notin> ev_id ` set (log @ [e1])" "?agent \<notin> set (t_agents ?t1)"
    using agent(2) new(2) e1(2) ids by (auto simp: planned_def)
  obtain s2 where assign: "assign_task (t_id ?t1) ?agent ?e s1 = (Inr ?t2, s2)"
    and h2: "holding s2 ?t2 ((log @ [e1]) @ [canonical_event ?e]) runs"
    using holding_assign [OF h1 event(2) matches(1) unused(1) matches(2) unused(2)] by blast
  have t2: "t_status ?t2 = Planning" "same_job t ?t2" "time_admissible ?t2 (snd (wk_event w Start_running))"
    using times by (auto simp: same_job_def time_admissible_def assigned_task_def planned_def stamp_transition_def opt_all_iff)
  have later: "fst (wk_event w Start_running) \<notin> ev_id ` set ((log @ [e1]) @ [canonical_event ?e])"
    "fst (wk_event w Finish_task) \<notin> ev_id ` set ((log @ [e1]) @ [canonical_event ?e])"
    using e1(2) ids new(2) by auto
  obtain s3 e3 e4 where work: "do_work w ?agent ?t2 branch s2 =
      (Inr (processed w t ?agent (re_status result), False), s3)"
    and h3: "holding s3 (processed w t ?agent (re_status result)) (((log @ [e1]) @ [canonical_event ?e]) @ [e3, e4])
      (runs @ [ended_run w ?t2 ?agent result])"
    and e34: "ev_type e3 = TASK_STARTED" "ev_type e4 = event_for_status (ended_status (re_status result))"
      "tells_outcome branch (re_changed_files result) e4"
    using do_work_runs [OF h2 smooth t2 later new(1)] unfolding processed_def by blast
  have same: "ended_run w ?t2 ?agent result = ended_run w t ?agent result"
    by (simp add: ended_run_def worker_run_def assigned_task_def planned_def)
  have ended: "t_id (processed w t ?agent st) = t_id t" "t_status (processed w t ?agent st) = ended_status st" for st
    by (simp_all add: processed_def assigned_task_def planned_def)
  have "in_workspace w ?agent ?t2 s2 = (Inr (processed w t ?agent (re_status result), False), s3)"
    using work workspace(1) [OF t2(2)] workspace(2) still by (simp add: in_workspace_def)
  then have "attempt w ?agent ?t2 s2 = (Inr \<lparr>ps_task = t_id t, ps_status = ended_status (re_status result), ps_error = None\<rparr>, s3)"
    using still by (simp add: attempt_def act_defs notify_def result_of_def ended)
  moreover have "assign_developer w ?t1 developer s1 = (Inr ?t2, s2)"
    using assign event(1) still by (simp add: assign_developer_def act_defs during_def)
  ultimately have "process_task w (t_id t) s =
      (Inr \<lparr>ps_task = t_id t, ps_status = ended_status (re_status result), ps_error = None\<rparr>, s3)"
    using plan holding_get [OF held] queued still \<open>select_developer (wk_bundle w) ?t1 = Inr developer\<close>
    by (simp add: process_task_def act_defs during_def act_query_def)
  with h3 e1(1) e34 same show ?thesis
    by (intro exI [of _ s3] exI [of _ e1] exI [of _ "canonical_event ?e"] exI [of _ e3] exI [of _ e4]) simp
qed

end
