(* ===== verification/OrchestratorProperties.thy ===== *)
theory OrchestratorProperties
  imports OrchestratorRun ModelProperties
begin

text \<open>
  The properties of the worker: it keeps the store lawful, touches queued tasks only, what it
  reports is what the store holds, and a task that nothing disturbs goes all the way to the outcome
  of its runtime.
\<close>

section \<open>A sample worker\<close>

fun sample_stamp :: "await_point \<Rightarrow> uuid \<times> aware" where
  "sample_stamp Start_planning = (21, at_utc 31)"
| "sample_stamp Assign_developer = (22, at_utc 32)"
| "sample_stamp Start_running = (23, at_utc 33)"
| "sample_stamp Finish_task = (24, at_utc 39)"
| "sample_stamp _ = (25, at_utc 50)"

definition smooth_worker :: "runtime_status \<Rightarrow> worker" where
  "smooth_worker st =
     \<lparr>wk_bundle = sample_bundle, wk_runtime = ''codex'', wk_uuid5 = (\<lambda>_. 7), wk_event = sample_stamp,
      wk_clock = (\<lambda>_. at_utc 35), wk_run_id = ''RUN-1'', wk_open = (\<lambda>_. Inr ''agent/task''),
      wk_release_fails = False,
      wk_execute = (\<lambda>_ _. Some \<lparr>re_status = st, re_exit_code = Some 0, re_changed_files = [''a.py'']\<rparr>),
      wk_stop = (\<lambda>_. NoSuchRun), wk_meanwhile = (\<lambda>_ s. s)\<rparr>"

lemma smooth_worker_lawful: "lawful (smooth_worker st)"
  by (simp add: lawful_def smooth_worker_def)

definition sample_selection :: selection where
  "sample_selection = \<lparr>sl_agent = ''coder'', sl_definition = sample_agent\<rparr>"

lemma sample_selected: "select_developer sample_bundle (tk_json sample_row) = Inr sample_selection"
proof -
  have "related sample_bundle"
    using validate_relationships_iff [OF sample_bundle_keys] sample_bundle_checked by blast
  from select_developer_cases [OF this, of "tk_json sample_row"] sample_eligible
  show ?thesis by (simp add: developers_def sample_selection_def sample_bundle_def sample_team_def)
qed

lemma sample_smooth:
  "smooth (smooth_worker st) (tk_json sample_row) sample_selection ''agent/task''
     \<lparr>re_status = st, re_exit_code = Some 0, re_changed_files = [''a.py'']\<rparr>"
  using sample_selected
  by (simp add: smooth_def smooth_worker_def sample_selection_def check_simps time_admissible_def)
    (simp add: stamp_transition_def active_states_def)

section \<open>Whole runs\<close>

lemma holding_of_queries:
  assumes "reachable s" "serving s" "get_task i s = Inr t"
  shows "holding s t (map er_json (db_events (st_db s))) (map rr_json (db_runs (st_db s)))" "t_id t = i"
proof -
  obtain row where row: "row_of tk_id i (db_tasks (st_db s)) = Some row" "decode_task (tk_json row) = Inr t"
    using assms(3) by (auto simp: get_task_def read_serving [OF assms(2)] split: option.splits)
  moreover have "valid_task (tk_json row)"
    using stored_row(3) [OF assms(1) row(1)] reachable_tables [OF assms(1)]
    by (auto simp: tables_ok_def tasks_ok_def task_row_ok_def)
  ultimately have "tk_json row = t" by simp
  with row(1) stored_row(1) [OF assms(1) row(1)] assms
  show "holding s t (map er_json (db_events (st_db s))) (map rr_json (db_runs (st_db s)))" "t_id t = i"
    by (auto simp: holding_def)
qed

lemma event_keys:
  assumes "reachable s"
  shows "ev_id ` set (map er_json (db_events (st_db s))) = keys er_id (db_events (st_db s))"
proof -
  have "er_id r = ev_id (er_json r)" if "r \<in> set (db_events (st_db s))" for r
  proof -
    have "r = event_row_of (er_seq r) (er_json r)"
      using reachable_tables [OF assms] that by (auto simp: tables_ok_def events_ok_def event_row_ok_def)
    then show ?thesis by (metis event_row_of_simps(2))
  qed
  then show ?thesis by (auto simp: image_iff)
qed

text \<open>C6: A queued task that nothing disturbs is taken all the way: on a serving store the worker plans it,
  assigns the selected developer, runs the runtime in the workspace, and ends it with the outcome of
  the runtime (completed, failed or cancelled). The result it returns, the stored task, the stored
  run and the four new events of the log all tell the same story, the last one with the branch and the
  files that the runtime changed.\<close>

theorem queued_task_processed:
  assumes "reachable s" "serving s" "get_task i s = Inr t" "t_status t = Queued"
    "smooth w t developer branch result" "wk_run_id w \<notin> keys rr_id (db_runs (st_db s))"
    "\<forall>p \<in> {Start_planning, Assign_developer, Start_running, Finish_task}.
       fst (wk_event w p) \<notin> keys er_id (db_events (st_db s))"
  shows "\<exists>s' e1 e2 e3 e4.
    process_task w i s = (Inr \<lparr>ps_task = i, ps_status = ended_status (re_status result), ps_error = None\<rparr>, s') \<and>
    get_task i s' = Inr (processed w t (sl_agent developer) (re_status result)) \<and>
    get_run (wk_run_id w) s' = Inr (ended_run w t (sl_agent developer) result) \<and>
    map er_json (db_events (st_db s')) = map er_json (db_events (st_db s)) @ [e1, e2, e3, e4] \<and>
    map ev_type [e1, e2, e3, e4] =
      [TASK_STARTED, AGENT_ASSIGNED, TASK_STARTED, event_for_status (ended_status (re_status result))] \<and>
    tells_outcome branch (re_changed_files result) e4"
proof -
  note held = holding_of_queries [OF assms(1-3)]
  have new: "wk_run_id w \<notin> run_id ` set (map rr_json (db_runs (st_db s)))"
    using assms(6) run_rows_ids(1) [OF assms(1)] by simp
  obtain s' e1 e2 e3 e4 where run: "process_task w i s =
      (Inr \<lparr>ps_task = i, ps_status = ended_status (re_status result), ps_error = None\<rparr>, s')"
    and h: "holding s' (processed w t (sl_agent developer) (re_status result))
      (map er_json (db_events (st_db s)) @ [e1, e2, e3, e4])
      (map rr_json (db_runs (st_db s)) @ [ended_run w t (sl_agent developer) result])"
    and types: "map ev_type [e1, e2, e3, e4] =
      [TASK_STARTED, AGENT_ASSIGNED, TASK_STARTED, event_for_status (ended_status (re_status result))]"
      "tells_outcome branch (re_changed_files result) e4"
    using process_task_runs [OF held(1) assms(5,4) new, unfolded event_keys [OF assms(1)] held(2), OF assms(7)]
    by (elim exE conjE)
  have "get_task i s' = Inr (processed w t (sl_agent developer) (re_status result))"
    using holding_get [OF h] held(2) by (simp add: processed_def assigned_task_def planned_def)
  moreover have id: "run_id (ended_run w t (sl_agent developer) result) = wk_run_id w"
    by (simp add: ended_run_def finished_run_def worker_run_def)
  have "valid_run (ended_run w t (sl_agent developer) result)"
    by (rule holding_row [OF held(1)]) (rule worker_runs_valid(3) [OF assms(5)])
  then have "get_run (wk_run_id w) s' = Inr (ended_run w t (sl_agent developer) result)"
    using last_run_row [OF h] new id h
    by (auto simp: get_run_def holding_def read_serving)
  moreover have "map er_json (db_events (st_db s')) = map er_json (db_events (st_db s)) @ [e1, e2, e3, e4]"
    using h by (simp add: holding_def)
  ultimately show ?thesis using run types by (intro exI conjI)
qed

lemma sample_queued_task: "get_task ''TASK-1'' sample_store = Inr (tk_json sample_row)"
proof -
  have "valid_task (tk_json sample_row)"
    using sample_inv by (auto simp: db_inv_def tables_ok_def tasks_ok_def task_row_ok_def sample_tables)
  then show ?thesis
    using sample_serving sample_row_of by (simp add: get_task_def read_serving)
qed

lemma sample_unused:
  "wk_run_id (smooth_worker st) \<notin> keys rr_id (db_runs (st_db sample_store))"
  "\<forall>p \<in> {Start_planning, Assign_developer, Start_running, Finish_task}.
     fst (wk_event (smooth_worker st) p) \<notin> keys er_id (db_events (st_db sample_store))"
  by (simp_all add: sample_tables smooth_worker_def sample_created_def sample_queued_def)

lemma sample_row_queued: "t_status (tk_json sample_row) = Queued"
  by simp

theorem queued_task_processed_witness:
  "\<exists>s'. process_task (smooth_worker RuntimeTimedOut) ''TASK-1'' sample_store =
     (Inr \<lparr>ps_task = ''TASK-1'', ps_status = Failed, ps_error = None\<rparr>, s')"
  using queued_task_processed [OF sample_reachable sample_serving sample_queued_task sample_row_queued
      sample_smooth sample_unused]
  by (metis ended_status.simps(4) runtime_result.select_convs(1))

section \<open>Every run\<close>



text \<open>C13: A reported outcome is the stored one: when \<open>process_task\<close> reports that a task was completed,
  failed or cancelled, the store holds that status, then and after any later operations; and a
  cancellation that returns has ended the task for good.\<close>

theorem reported_outcome_stored:
  assumes "reachable s" "lawful w"
  shows "(process_task w i s = (Inr res, s1) \<and> is_terminal (ps_status res) \<and> store_step\<^sup>*\<^sup>* s1 s2 \<longrightarrow>
      ps_task res = i \<and> stored_as s2 i (ps_status res)) \<and>
    (cancel_task w i s = (Inr t, s1) \<and> store_step\<^sup>*\<^sup>* s1 s2 \<longrightarrow>
      is_terminal (t_status t) \<and> stored_as s2 i (t_status t))"
  using process_task_reports [OF assms(2), of i] cancel_task_ends [OF assms(2), of i] assms(1)
    terminal_stored_stays
  unfolding holds_def reported_def ended_def told_def by blast

theorem reported_outcome_stored_witness:
  "\<exists>s'. snd (process_task (smooth_worker RuntimeSucceeded) ''TASK-1'' sample_store) = s' \<and> stored_as s' ''TASK-1'' Completed"
proof -
  have "\<exists>s'. process_task (smooth_worker RuntimeSucceeded) (t_id (tk_json sample_row)) sample_store =
      (Inr \<lparr>ps_task = t_id (tk_json sample_row), ps_status = Completed, ps_error = None\<rparr>, s')"
    using process_task_runs [OF holding_of_queries(1) [OF sample_reachable sample_serving sample_queued_task]
        sample_smooth [of RuntimeSucceeded] sample_row_queued] sample_unused
    unfolding event_keys [OF sample_reachable] run_rows_ids(1) [OF sample_reachable, symmetric]
    by (metis ended_status.simps(1) runtime_result.select_convs(1))
  then obtain s' where run: "process_task (smooth_worker RuntimeSucceeded) ''TASK-1'' sample_store =
      (Inr \<lparr>ps_task = ''TASK-1'', ps_status = Completed, ps_error = None\<rparr>, s')"
    by auto
  with reported_outcome_stored [OF sample_reachable smooth_worker_lawful, of RuntimeSucceeded "''TASK-1''"
      "\<lparr>ps_task = ''TASK-1'', ps_status = Completed, ps_error = None\<rparr>" s' s']
  show ?thesis by (simp add: is_terminal_def)
qed

text \<open>A task that is not queued when the worker looks at it is left alone: the worker returns its
  status and performs no operation on the store.\<close>

theorem only_queued_tasks_processed:
  assumes "get_task i (wk_meanwhile w Get_queued s) = Inr t" "t_status t \<noteq> Queued"
  shows "process_task w i s =
    (Inr \<lparr>ps_task = t_id t, ps_status = t_status t, ps_error = None\<rparr>, wk_meanwhile w Get_queued s)"
  using assms by (simp add: process_task_def during_def act_defs act_query_def result_of_def)

theorem only_queued_tasks_processed_witness:
  "process_task (smooth_worker RuntimeFailed) ''TASK-1'' sample_cancelled_store =
     (Inr \<lparr>ps_task = ''TASK-1'', ps_status = Cancelled, ps_error = None\<rparr>, sample_cancelled_store)"
proof -
  have row: "row_of tk_id ''TASK-1'' (db_tasks (st_db sample_cancelled_store)) =
      Some (moved_row (sample_task_at 40 Cancelled) (at_utc 40) 3 sample_row)"
    by (simp add: sample_cancelled_store_def sample_moved_tables sample_row_def)
  have "valid_task (sample_task_at 40 Cancelled)"
    using stored_row(3) [OF sample_cancelled_reachable row] reachable_tables [OF sample_cancelled_reachable]
    by (auto simp: tables_ok_def tasks_ok_def task_row_ok_def)
  then have "get_task ''TASK-1'' sample_cancelled_store = Inr (sample_task_at 40 Cancelled)"
    using row sample_moved_serving by (simp add: get_task_def read_serving sample_cancelled_store_def)
  then show ?thesis
    using only_queued_tasks_processed [of "''TASK-1''" "smooth_worker RuntimeFailed" sample_cancelled_store]
    by (simp add: smooth_worker_def sample_task_at_def)
qed

end
