(* ===== verification/Calendar.thy ===== *)
theory Calendar
  imports PyTime
begin

text \<open>
  What the store and the locks rely on in the texts of times: \<open>civil_of_days\<close> is the Gregorian calendar
  (each day is followed by its successor), dates and ordinals determine each other, and among times
  of one offset the order of the texts of \<open>isoformat\<close> is the order in time. A \<open>datetime\<close> can only show
  the years 1 to 9999.
\<close>

section \<open>The Gregorian calendar\<close>

definition leap :: "int \<Rightarrow> bool" where
  "leap y \<longleftrightarrow> y mod 4 = 0 \<and> (y mod 100 \<noteq> 0 \<or> y mod 400 = 0)"

definition days_in_month :: "int \<Rightarrow> int \<Rightarrow> int" where
  "days_in_month y m =
     (if m = 2 then if leap y then 29 else 28 else if m \<in> {4, 6, 9, 11} then 30 else 31)"

fun next_date :: "int \<times> int \<times> int \<Rightarrow> int \<times> int \<times> int" where
  "next_date (y, m, d) =
     (if d < days_in_month y m then (y, m, d + 1) else if m < 12 then (y, m + 1, 1) else (y + 1, 1, 1))"

fun valid_date :: "int \<times> int \<times> int \<Rightarrow> bool" where
  "valid_date (y, m, d) \<longleftrightarrow> 1 \<le> m \<and> m \<le> 12 \<and> 1 \<le> d \<and> d \<le> days_in_month y m"

text \<open>Years run from March to February here, so the leap day is the last day of its year.\<close>

definition march_year_length :: "int \<Rightarrow> int" where
  "march_year_length y = (if leap (y + 1) then 366 else 365)"

definition march_year_start :: "int \<Rightarrow> int" where
  "march_year_start y = 365 * y + y div 4 - y div 100"

lemma div_exact: "k * b \<le> a \<Longrightarrow> a < k * b + b \<Longrightarrow> a div b = (k::int)"
  by (rule int_div_pos_eq [of _ _ _ "a - k * b"]) (simp_all add: algebra_simps)

lemma month_day_table:
  assumes "0 \<le> doy" "doy \<le> 365"
  shows "month_day y doy =
    (if doy < 31 then (y, 3, doy + 1) else if doy < 61 then (y, 4, doy - 30)
     else if doy < 92 then (y, 5, doy - 60) else if doy < 122 then (y, 6, doy - 91)
     else if doy < 153 then (y, 7, doy - 121) else if doy < 184 then (y, 8, doy - 152)
     else if doy < 214 then (y, 9, doy - 183) else if doy < 245 then (y, 10, doy - 213)
     else if doy < 275 then (y, 11, doy - 244) else if doy < 306 then (y, 12, doy - 274)
     else if doy < 337 then (y + 1, 1, doy - 305) else (y + 1, 2, doy - 336))"
proof -
  have "(5 * doy + 2) div 153 =
    (if doy < 31 then 0 else if doy < 61 then 1 else if doy < 92 then 2 else if doy < 122 then 3
     else if doy < 153 then 4 else if doy < 184 then 5 else if doy < 214 then 6 else if doy < 245 then 7
     else if doy < 275 then 8 else if doy < 306 then 9 else if doy < 337 then 10 else 11)"
    using assms by (auto intro!: div_exact)
  then show ?thesis by (simp add: month_day_def)
qed

lemma month_day_valid:
  assumes "0 \<le> doy" "doy < march_year_length y"
  shows "valid_date (month_day y doy)"
proof -
  have "doy \<le> 365" using assms by (simp add: march_year_length_def split: if_splits)
  with assms show ?thesis
    by (simp add: month_day_table days_in_month_def march_year_length_def split: if_splits)
qed

lemma month_day_next:
  assumes "0 \<le> doy" "doy + 1 < march_year_length y"
  shows "month_day y (doy + 1) = next_date (month_day y doy)"
proof -
  have "doy + 1 \<le> 365" using assms by (simp add: march_year_length_def split: if_splits)
  with assms show ?thesis
    by (simp add: month_day_table days_in_month_def march_year_length_def split: if_splits)
qed

lemma month_day_last:
  assumes "doy + 1 = march_year_length y"
  shows "month_day (y + 1) 0 = next_date (month_day y doy)"
  using assms by (simp add: month_day_table days_in_month_def march_year_length_def split: if_splits)

section \<open>Years in an era\<close>

lemma div_step:
  assumes "0 < (k::int)"
  shows "d div k \<le> (d + 1) div k" "(d + 1) div k \<le> d div k + 1"
proof -
  show "d div k \<le> (d + 1) div k" using assms by (intro zdiv_mono1) auto
  have "(d + 1) div k \<le> (d + k) div k" using assms by (intro zdiv_mono1) auto
  then show "(d + 1) div k \<le> d div k + 1" using assms div_add_self2 [of k d] by simp
qed

lemma year_of_era_step: "year_of_era d \<le> year_of_era (d + 1)"
proof -
  define p q where "p = d div 36524" "q = (d + 1) div 36524"
  have "p \<le> q \<and> q \<le> p + 1" unfolding p_q_def using div_step [of 36524 d] by simp
  then have "q div 4 - p div 4 \<le> q - p" by presburger
  moreover have "d div 146096 = p div 4" "(d + 1) div 146096 = q div 4"
    unfolding p_q_def using zdiv_zmult2_eq [of 4 _ 36524] by simp_all
  moreover have "(d + 1) div 1460 \<le> d div 1460 + 1" using div_step [of 1460 d] by simp
  ultimately show ?thesis unfolding year_of_era_def p_q_def by (intro zdiv_mono1) linarith+
qed

lemma year_of_era_mono:
  assumes "a \<le> b"
  shows "year_of_era a \<le> year_of_era b"
proof -
  have "year_of_era a \<le> year_of_era (a + int n)" for n
  proof (induction n)
    case (Suc n)
    with year_of_era_step [of "a + int n"] show ?case by (simp add: algebra_simps)
  qed simp
  from this [of "nat (b - a)"] assms show ?thesis by simp
qed

lemma era_years_checked:
  "list_all (\<lambda>y. year_of_era (march_year_start y) = y \<and>
     year_of_era (march_year_start y + march_year_length y - 1) = y \<and>
     (y < 399 \<longrightarrow> march_year_start (y + 1) = march_year_start y + march_year_length y)) [0..399]"
  by code_simp

lemma era_year:
  assumes "0 \<le> y" "y \<le> 399"
  shows "year_of_era (march_year_start y) = y" "year_of_era (march_year_start y + march_year_length y - 1) = y"
    "y < 399 \<Longrightarrow> march_year_start (y + 1) = march_year_start y + march_year_length y"
  using era_years_checked assms by (auto simp: list_all_iff)

lemma year_of_era_exact:
  assumes "0 \<le> y" "y \<le> 399" "march_year_start y \<le> d" "d < march_year_start y + march_year_length y"
  shows "year_of_era d = y"
  using year_of_era_mono [OF assms(3)] year_of_era_mono [of d "march_year_start y + march_year_length y - 1"]
    era_year(1,2) [OF assms(1,2)] assms(4) by simp

lemma era_bounds:
  assumes "0 \<le> d" "d < 146097"
  shows "0 \<le> year_of_era d" "year_of_era d \<le> 399" "march_year_start (year_of_era d) \<le> d"
    "d < march_year_start (year_of_era d) + march_year_length (year_of_era d)"
proof -
  have ends: "year_of_era 0 = 0" "year_of_era 146096 = 399" by (simp_all add: year_of_era_def)
  show y: "0 \<le> year_of_era d" "year_of_era d \<le> 399"
    using year_of_era_mono [of 0 d] year_of_era_mono [of d 146096] assms ends by simp_all
  let ?y = "year_of_era d"
  show "march_year_start ?y \<le> d"
  proof (rule ccontr)
    assume before: "\<not> march_year_start ?y \<le> d"
    then have "?y \<noteq> 0" using assms by (auto simp: march_year_start_def)
    with y have prev: "0 \<le> ?y - 1" "?y - 1 \<le> 399" "?y - 1 < 399" by simp_all
    have "march_year_start ?y = march_year_start (?y - 1) + march_year_length (?y - 1)"
      using era_year(3) [OF prev] by simp
    then have "year_of_era d \<le> ?y - 1"
      using before year_of_era_mono [of d "march_year_start (?y - 1) + march_year_length (?y - 1) - 1"]
        era_year(2) [OF prev(1,2)] by simp
    then show False by simp
  qed
  show "d < march_year_start ?y + march_year_length ?y"
  proof (rule ccontr)
    assume after: "\<not> d < march_year_start ?y + march_year_length ?y"
    show False
    proof (cases "?y < 399")
      case True
      then have "march_year_start (?y + 1) \<le> d" using after era_year(3) [OF y] by simp
      then have "?y + 1 \<le> year_of_era d" using year_of_era_mono era_year(1) [of "?y + 1"] y True by fastforce
      then show False by simp
    next
      case False
      then have "?y = 399" using y by simp
      with after assms show False by (simp add: march_year_start_def march_year_length_def leap_def)
    qed
  qed
qed

section \<open>Every day is followed by its successor\<close>

lemma leap_era: "leap (y + era * 400 + 1) = leap (y + 1)"
proof -
  have "(y + era * 400 + 1) mod 4 = (y + 1) mod 4" "(y + era * 400 + 1) mod 100 = (y + 1) mod 100"
    "(y + era * 400 + 1) mod 400 = (y + 1) mod 400"
    by (simp_all add: mod_eq_dvd_iff)
  then show ?thesis by (simp add: leap_def)
qed

lemma march_year_length_era [simp]: "march_year_length (y + era * 400) = march_year_length y"
  by (simp add: march_year_length_def leap_era)

lemma day_of_year_start: "day_of_year d y = d - march_year_start y"
  by (simp add: day_of_year_def march_year_start_def)

lemma civil_of_era_valid:
  assumes "0 \<le> d" "d < 146097"
  shows "valid_date (civil_of_era era d)"
  unfolding civil_of_era_def day_of_year_start
  using era_bounds [OF assms] by (intro month_day_valid) simp_all

lemma civil_of_era_next:
  assumes "0 \<le> d" "d + 1 < 146097"
  shows "civil_of_era era (d + 1) = next_date (civil_of_era era d)"
proof -
  let ?y = "year_of_era d"
  have y: "0 \<le> ?y" "?y \<le> 399" "march_year_start ?y \<le> d" "d < march_year_start ?y + march_year_length ?y"
    using era_bounds [of d] assms by simp_all
  show ?thesis
  proof (cases "d + 1 < march_year_start ?y + march_year_length ?y")
    case True
    have same: "year_of_era (d + 1) = ?y"
      using y True by (intro year_of_era_exact) simp_all
    show ?thesis
      unfolding civil_of_era_def day_of_year_start same
      using month_day_next [of "d - march_year_start ?y" "?y + era * 400"] y True by (simp add: algebra_simps)
  next
    case False
    then have end_of_year: "d + 1 = march_year_start ?y + march_year_length ?y" using y(4) by simp
    have "?y \<noteq> 399"
      using end_of_year assms(2) by (auto simp: march_year_start_def march_year_length_def leap_def)
    with y have less: "?y < 399" by simp
    then have start: "march_year_start (?y + 1) = d + 1" using era_year(3) [OF y(1,2)] end_of_year by simp
    then have new: "year_of_era (d + 1) = ?y + 1" using era_year(1) [of "?y + 1"] y(1) less by simp
    show ?thesis
      unfolding civil_of_era_def day_of_year_start new start
      using month_day_last [of "d - march_year_start ?y" "?y + era * 400"] end_of_year by (simp add: algebra_simps)
  qed
qed

lemma civil_of_days_valid: "valid_date (civil_of_days d)"
  unfolding civil_of_days_def by (intro civil_of_era_valid) simp_all

lemma div_mod_next:
  assumes "0 < (k::int)"
  shows "n mod k + 1 < k \<Longrightarrow> (n + 1) div k = n div k \<and> (n + 1) mod k = n mod k + 1"
    "n mod k + 1 = k \<Longrightarrow> (n + 1) div k = n div k + 1 \<and> (n + 1) mod k = 0"
proof -
  have n: "n = n div k * k + n mod k" by simp
  show "(n + 1) div k = n div k \<and> (n + 1) mod k = n mod k + 1" if "n mod k + 1 < k"
  proof -
    have "(n + 1) div k = n div k"
      using n assms that pos_mod_sign [of k n] by (intro div_exact) linarith+
    then have "n div k * k + (n + 1) mod k = n + 1" using div_mult_mod_eq [of "n + 1" k] by simp
    then have "(n + 1) mod k = n mod k + 1" using n by linarith
    with \<open>(n + 1) div k = n div k\<close> show ?thesis by simp
  qed
  show "(n + 1) div k = n div k + 1 \<and> (n + 1) mod k = 0" if "n mod k + 1 = k"
  proof -
    have next_multiple: "(n div k + 1) * k = n div k * k + k" by (simp add: distrib_right)
    have "(n + 1) div k = n div k + 1"
      using n assms that by (intro div_exact; unfold next_multiple; linarith)
    then have "n div k * k + k + (n + 1) mod k = n + 1"
      using div_mult_mod_eq [of "n + 1" k] by (simp only: distrib_right mult_1)
    then have "(n + 1) mod k = 0" using n that by linarith
    with \<open>(n + 1) div k = n div k + 1\<close> show ?thesis by simp
  qed
qed

lemma era_first_last:
  "civil_of_era era 0 = (era * 400, 3, 1)" "civil_of_era era 146096 = ((era + 1) * 400, 2, 29)"
  by (simp_all add: civil_of_era_def year_of_era_def day_of_year_def month_day_def)

theorem civil_of_days_next: "civil_of_days (d + 1) = next_date (civil_of_days d)"
proof -
  define n where "n = d + 719468"
  have days: "civil_of_days d = civil_of_era (n div 146097) (n mod 146097)"
    "civil_of_days (d + 1) = civil_of_era ((n + 1) div 146097) ((n + 1) mod 146097)"
    by (simp_all add: civil_of_days_def n_def algebra_simps)
  show ?thesis
  proof (cases "n mod 146097 + 1 < 146097")
    case True
    then show ?thesis
      unfolding days using civil_of_era_next [OF _ True] div_mod_next(1) [of 146097 n] by simp
  next
    case False
    then have last: "n mod 146097 = 146096"
      using pos_mod_bound [of 146097 n] by simp
    then have "civil_of_days (d + 1) = ((n div 146097 + 1) * 400, 3, 1)"
      unfolding days using div_mod_next(2) [of 146097 n] by (simp add: era_first_last)
    moreover have "leap ((n div 146097 + 1) * 400)"
      using leap_era [of 399 "n div 146097"] by (simp add: leap_def algebra_simps)
    moreover have "civil_of_days d = ((n div 146097 + 1) * 400, 2, 29)" unfolding days last by (rule era_first_last)
    ultimately show ?thesis by (simp add: days_in_month_def)
  qed
qed

text \<open>The ordinal of a date, \<open>_ymd2ord\<close> of \<open>datetime\<close>.\<close>

definition days_before_month :: "int \<Rightarrow> int \<Rightarrow> int" where
  "days_before_month y m = [0, 31, 59, 90, 120, 151, 181, 212, 243, 273, 304, 334] ! nat (m - 1) +
     (if 2 < m \<and> leap y then 1 else 0)"

definition days_before_year :: "int \<Rightarrow> int" where
  "days_before_year y = (y - 1) * 365 + (y - 1) div 4 - (y - 1) div 100 + (y - 1) div 400"

fun days_of_civil :: "int \<times> int \<times> int \<Rightarrow> int" where
  "days_of_civil (y, m, d) = days_before_year y + days_before_month y m + d - 719163"

lemma months: "1 \<le> m \<Longrightarrow> m \<le> 12 \<Longrightarrow> m \<in> {1, 2, 3, 4, 5, 6, 7, 8, 9, 10, 11, 12 :: int}"
  by (simp, presburger)

lemma div_next: "(y + 1) div k = y div k + (if (y + 1) mod k = 0 then 1 else 0)" if "0 < (k::int)"
  using div_mod_next [OF that, of y] pos_mod_bound [OF that, of y] pos_mod_sign [OF that, of y]
  by (cases "y mod k + 1 < k") auto

lemma leap_count:
  assumes "r \<Longrightarrow> q" "q \<Longrightarrow> p"
  shows "365 + (if p then 1 else 0) - (if q then 1 else 0) + (if r then 1 else (0::int)) =
    (if p \<and> (\<not> q \<or> r) then 366 else 365)"
  using assms by (cases p; cases q; cases r; simp)

lemma days_before_next_year: "days_before_year (y + 1) = days_before_year y + (if leap y then 366 else 365)"
proof -
  have divs: "y div 4 = (y - 1) div 4 + (if y mod 4 = 0 then 1 else 0)"
    "y div 100 = (y - 1) div 100 + (if y mod 100 = 0 then 1 else 0)"
    "y div 400 = (y - 1) div 400 + (if y mod 400 = 0 then 1 else 0)"
    using div_next [OF zero_less_numeral, of "y - 1"] by (simp_all only: diff_add_cancel)
  have "y mod 400 mod 100 = y mod 100" by (rule mod_mod_cancel) simp
  moreover have "y mod 100 mod 4 = y mod 4" by (rule mod_mod_cancel) simp
  ultimately have nested: "y mod 400 = 0 \<Longrightarrow> y mod 100 = 0" "y mod 100 = 0 \<Longrightarrow> y mod 4 = 0" by auto
  have "days_before_year (y + 1) = y * 365 + y div 4 - y div 100 + y div 400" by (simp add: days_before_year_def)
  also have "\<dots> = days_before_year y + (365 + (if y mod 4 = 0 then 1 else 0) - (if y mod 100 = 0 then 1 else 0) +
      (if y mod 400 = 0 then 1 else 0))"
    unfolding divs days_before_year_def left_diff_distrib by linarith
  also have "\<dots> = days_before_year y + (if leap y then 366 else 365)"
    unfolding leap_def using leap_count [OF nested] by (simp only:)
  finally show ?thesis .
qed

lemma days_of_civil_next:
  assumes "valid_date ymd"
  shows "days_of_civil (next_date ymd) = days_of_civil ymd + 1"
proof -
  obtain y m d where ymd: "ymd = (y, m, d)" by (cases ymd)
  with assms have "m \<in> {1, 2, 3, 4, 5, 6, 7, 8, 9, 10, 11, 12}" by (intro months) auto
  then show ?thesis
    using assms by (auto simp: ymd days_in_month_def days_before_month_def days_before_next_year split: if_splits)
qed

theorem days_of_civil_of_days [simp]: "days_of_civil (civil_of_days d) = d"
proof -
  have step: "days_of_civil (civil_of_days (d + 1)) = days_of_civil (civil_of_days d) + 1" for d
    unfolding civil_of_days_next by (rule days_of_civil_next [OF civil_of_days_valid])
  have "civil_of_days 0 = (1970, 1, 1)"
    by (simp add: civil_of_days_def civil_of_era_def year_of_era_def day_of_year_def month_day_def)
  then have zero: "days_of_civil (civil_of_days 0) = 0" by (simp add: days_before_year_def days_before_month_def)
  show ?thesis
  proof (induction d rule: int_induct [of _ 0])
    case (step1 i)
    with step [of i] show ?case by simp
  next
    case (step2 i)
    with step [of "i - 1"] show ?case by simp
  qed (rule zero)
qed

text \<open>Dates are ordered by year, month and day.\<close>

fun earlier :: "int \<times> int \<times> int \<Rightarrow> int \<times> int \<times> int \<Rightarrow> bool" where
  "earlier (y, m, d) (y', m', d') \<longleftrightarrow> y < y' \<or> y = y' \<and> (m < m' \<or> m = m' \<and> d < d')"

lemma earlier_next: "earlier ymd (next_date ymd)"
  by (cases ymd) simp

lemma earlier_trans: "earlier a b \<Longrightarrow> earlier b c \<Longrightarrow> earlier a c"
  by (cases a; cases b; cases c) auto

theorem civil_of_days_earlier:
  assumes "d < d'"
  shows "earlier (civil_of_days d) (civil_of_days d')"
proof -
  have "earlier (civil_of_days d) (civil_of_days (d + 1 + int n))" for n
  proof (induction n)
    case 0
    show ?case using earlier_next [of "civil_of_days d"] by (simp add: civil_of_days_next)
  next
    case (Suc n)
    have "earlier (civil_of_days (d + 1 + int n)) (civil_of_days (d + 1 + int n + 1))"
      unfolding civil_of_days_next [of "d + 1 + int n"] by (rule earlier_next)
    with Suc show ?case by (auto intro: earlier_trans simp: algebra_simps)
  qed
  from this [of "nat (d' - d - 1)"] assms show ?thesis by simp
qed

section \<open>Texts of numbers\<close>

lemma append_less:
  assumes "length xs = length ys"
  shows "xs @ us < ys @ vs \<longleftrightarrow> xs < ys \<or> xs = ys \<and> us < (vs :: 'a::linorder list)"
  using assms by (induction rule: list_induct2) auto

lemma digits_checked: "list_all (\<lambda>m. list_all (\<lambda>n. (digit m < digit n) = (m < n)) [0..<10]) [0..<10]"
  by code_simp

lemma digit_less: "m < 10 \<Longrightarrow> n < 10 \<Longrightarrow> digit m < digit n \<longleftrightarrow> m < n"
  using digits_checked by (simp add: list_all_iff)

lemma digit_eq: "m < 10 \<Longrightarrow> n < 10 \<Longrightarrow> digit m = digit n \<longleftrightarrow> m = n"
  using digit_less [of m n] digit_less [of n m] by (metis less_irrefl nat_neq_iff)

lemma length_pad [simp]: "length (pad2 n) = 2" "length (pad4 n) = 4" "length (pad6 n) = 6"
  by (simp_all add: pad2_def pad4_def pad6_def)

lemma split_less: "(m::nat) < n \<longleftrightarrow> m div k < n div k \<or> m div k = n div k \<and> m mod k < n mod k"
proof -
  have "m < n" if "m div k < n div k" using that div_le_mono [of n m k] by (meson leD leI)
  moreover have "m mod k < n mod k \<longleftrightarrow> m < n" if "m div k = n div k"
    using that div_mult_mod_eq [of m k] div_mult_mod_eq [of n k] by (metis nat_add_left_cancel_less)
  moreover have "m div k \<le> n div k" if "m < n" using that by (intro div_le_mono) simp
  ultimately show ?thesis using le_neq_implies_less by blast
qed

lemma split_eq: "(m::nat) = n \<longleftrightarrow> m div k = n div k \<and> m mod k = n mod k"
  using div_mult_mod_eq [of m k] div_mult_mod_eq [of n k] by metis

lemma pad2_less: "m < 100 \<Longrightarrow> n < 100 \<Longrightarrow> pad2 m < pad2 n \<longleftrightarrow> m < n"
  using split_less [of m n 10] by (simp add: pad2_def digit_less digit_eq)

lemma pad2_eq: "m < 100 \<Longrightarrow> n < 100 \<Longrightarrow> pad2 m = pad2 n \<longleftrightarrow> m = n"
  using pad2_less [of m n] pad2_less [of n m] by (metis less_irrefl nat_neq_iff)

lemma pad4_less: "m < 10000 \<Longrightarrow> n < 10000 \<Longrightarrow> pad4 m < pad4 n \<longleftrightarrow> m < n"
  using split_less [of m n 100] by (simp add: pad4_def append_less pad2_less pad2_eq)

lemma pad4_eq: "m < 10000 \<Longrightarrow> n < 10000 \<Longrightarrow> pad4 m = pad4 n \<longleftrightarrow> m = n"
  using pad4_less [of m n] pad4_less [of n m] by (metis less_irrefl nat_neq_iff)

lemma pad6_less: "m < 1000000 \<Longrightarrow> n < 1000000 \<Longrightarrow> pad6 m < pad6 n \<longleftrightarrow> m < n"
  using split_less [of m n 10000] by (simp add: pad6_def append_less pad2_less pad2_eq pad4_less)

lemma pad6_eq: "m < 1000000 \<Longrightarrow> n < 1000000 \<Longrightarrow> pad6 m = pad6 n \<longleftrightarrow> m = n"
  using pad6_less [of m n] pad6_less [of n m] by (metis less_irrefl nat_neq_iff)

section \<open>Texts of times\<close>

text \<open>The range of \<open>datetime\<close>: the year that is shown is one of 1 to 9999.\<close>

definition showable :: "aware \<Rightarrow> bool" where
  "showable a \<longleftrightarrow> -62135596800000000 \<le> wall_clock a \<and> wall_clock a < 253402300800000000"

lemma civil_ends: "civil_of_days (-719162) = (1, 1, 1)" "civil_of_days 2932896 = (9999, 12, 31)"
  by (simp_all add: civil_of_days_def civil_of_era_def year_of_era_def day_of_year_def month_day_def)

lemma shown_date:
  assumes "-719162 \<le> days" "days \<le> 2932896" "civil_of_days days = (y, m, d)"
  shows "1 \<le> y" "y \<le> 9999" "1 \<le> m" "m \<le> 12" "1 \<le> d" "d \<le> 31"
proof -
  show "1 \<le> m" "m \<le> 12" "1 \<le> d" "d \<le> 31"
    using civil_of_days_valid [of days] assms(3) by (auto simp: days_in_month_def split: if_splits)
  show "1 \<le> y"
    using civil_of_days_earlier [of "-719162" days] civil_ends assms by (cases "days = -719162") auto
  show "y \<le> 9999"
    using civil_of_days_earlier [of days 2932896] civil_ends assms by (cases "days = 2932896") auto
qed

lemma length_iso_date: "length (iso_date ymd) = 10"
  by (cases ymd) (simp add: iso_date_def)

lemma iso_date_less:
  assumes "-719162 \<le> a" "a \<le> 2932896" "-719162 \<le> b" "b \<le> 2932896"
  shows "iso_date (civil_of_days a) < iso_date (civil_of_days b) \<longleftrightarrow> a < b"
proof -
  obtain y m d y' m' d' where dates: "civil_of_days a = (y, m, d)" "civil_of_days b = (y', m', d')"
    by (metis prod_cases3)
  note bounds = shown_date [OF assms(1,2) dates(1)] shown_date [OF assms(3,4) dates(2)]
  have "iso_date (y, m, d) < iso_date (y', m', d') \<longleftrightarrow> earlier (y, m, d) (y', m', d')"
    using bounds by (simp add: iso_date_def append_less pad4_less pad4_eq pad2_less pad2_eq) auto
  moreover have "earlier (civil_of_days a) (civil_of_days b) \<longleftrightarrow> a < b"
  proof
    assume "earlier (civil_of_days a) (civil_of_days b)"
    moreover have "\<not> earlier x x" for x by (cases x) simp
    ultimately show "a < b" using civil_of_days_earlier [of b a] earlier_trans by (metis linorder_neqE)
  qed (rule civil_of_days_earlier)
  ultimately show ?thesis by (simp add: dates)
qed

lemma iso_date_eq:
  assumes "-719162 \<le> a" "a \<le> 2932896" "-719162 \<le> b" "b \<le> 2932896"
  shows "iso_date (civil_of_days a) = iso_date (civil_of_days b) \<longleftrightarrow> a = b"
  using iso_date_less [OF assms] iso_date_less [OF assms(3,4,1,2)] by (metis less_irrefl linorder_neqE)

text \<open>A text without microseconds sorts first, because the signs of an offset sort before the point.\<close>

lemma iso_offset_head: "\<exists>c cs. iso_offset off = c # cs \<and> c < CHR ''.''"
  by (simp add: iso_offset_def Let_def less_char_def)

definition fraction :: "nat \<Rightarrow> int \<Rightarrow> string" where
  "fraction m off = (if m = 0 then [] else ''.'' @ pad6 m) @ iso_offset off"

lemma fraction_less:
  assumes "m < 1000000" "n < 1000000"
  shows "fraction m off < fraction n off \<longleftrightarrow> m < n"
proof -
  obtain c cs where off: "iso_offset off = c # cs" "c < CHR ''.''" using iso_offset_head by blast
  then show ?thesis using assms by (auto simp: fraction_def append_less pad6_less)
qed

lemma clock_less:
  assumes "m < 86400" "n < 86400"
  shows "pad2 (m div 3600) @ '':'' @ pad2 (m div 60 mod 60) @ '':'' @ pad2 (m mod 60) @ us <
    pad2 (n div 3600) @ '':'' @ pad2 (n div 60 mod 60) @ '':'' @ pad2 (n mod 60) @ vs \<longleftrightarrow> m < n \<or> m = n \<and> us < vs"
proof -
  have small: "k div 3600 < 100" "k div 60 mod 60 < 100" "k mod 60 < 100" if "k < 86400" for k :: nat
    using that by (auto intro: less_mult_imp_div_less order.strict_trans [OF mod_less_divisor])
  have "m < n \<longleftrightarrow> m div 3600 < n div 3600 \<or> m div 3600 = n div 3600 \<and>
      (m div 60 mod 60 < n div 60 mod 60 \<or> m div 60 mod 60 = n div 60 mod 60 \<and> m mod 60 < n mod 60)"
    using split_less [of m n 60] split_less [of "m div 60" "n div 60" 60] split_eq [of "m div 60" "n div 60" 60]
    by (simp add: div_mult2_eq [symmetric]) blast
  moreover have "m = n \<longleftrightarrow> m div 3600 = n div 3600 \<and> m div 60 mod 60 = n div 60 mod 60 \<and> m mod 60 = n mod 60"
    using split_eq [of m n 60] split_eq [of "m div 60" "n div 60" 60] by (simp add: div_mult2_eq [symmetric])
  ultimately show ?thesis using small [OF assms(1)] small [OF assms(2)]
    by (auto simp: append_less pad2_less pad2_eq)
qed

text \<open>The three parts of the wall clock.\<close>

definition shown_days :: "aware \<Rightarrow> int" where
  "shown_days a = wall_clock a div 1000000 div 86400"

definition shown_seconds :: "aware \<Rightarrow> nat" where
  "shown_seconds a = nat (wall_clock a div 1000000 mod 86400)"

definition shown_micros :: "aware \<Rightarrow> nat" where
  "shown_micros a = nat (wall_clock a mod 1000000)"

lemma shown_bounds: "shown_seconds a < 86400" "shown_micros a < 1000000"
  by (simp_all add: shown_seconds_def shown_micros_def nat_less_iff)

lemma shown_days_bounds:
  assumes "showable a"
  shows "-719162 \<le> shown_days a" "shown_days a \<le> 2932896"
proof -
  have days: "shown_days a = wall_clock a div 86400000000"
    using zdiv_zmult2_eq [of 86400 "wall_clock a" 1000000] by (simp add: shown_days_def)
  show "-719162 \<le> shown_days a"
    unfolding days using assms zdiv_mono1 [of "-719162 * 86400000000" "wall_clock a" 86400000000]
    by (simp add: showable_def)
  show "shown_days a \<le> 2932896"
    unfolding days using assms zdiv_mono1 [of "wall_clock a" "2932897 * 86400000000 - 1" 86400000000]
    by (simp add: showable_def)
qed

lemma wall_clock_parts:
  "wall_clock a = (shown_days a * 86400 + int (shown_seconds a)) * 1000000 + int (shown_micros a)"
proof -
  have "shown_days a * 86400 + int (shown_seconds a) = wall_clock a div 1000000"
    by (simp add: shown_days_def shown_seconds_def)
  then show ?thesis by (simp add: shown_micros_def)
qed

lemma wall_clock_less:
  "wall_clock a < wall_clock b \<longleftrightarrow> shown_days a < shown_days b \<or> shown_days a = shown_days b \<and>
     (shown_seconds a < shown_seconds b \<or> shown_seconds a = shown_seconds b \<and> shown_micros a < shown_micros b)"
  unfolding wall_clock_parts [of a] wall_clock_parts [of b]
  using shown_bounds [of a] shown_bounds [of b] by auto

lemma isoformat_shown:
  "isoformat a = iso_date (civil_of_days (shown_days a)) @ ''T'' @
     pad2 (shown_seconds a div 3600) @ '':'' @ pad2 (shown_seconds a div 60 mod 60) @ '':'' @
     pad2 (shown_seconds a mod 60) @
     fraction (shown_micros a) (offset a)"
  by (simp add: fraction_def isoformat_def iso_time_def shown_days_def shown_seconds_def shown_micros_def)

theorem isoformat_less:
  assumes "showable a" "showable b" "offset a = offset b"
  shows "isoformat a < isoformat b \<longleftrightarrow> utc a < utc b"
proof -
  note days = shown_days_bounds [OF assms(1)] shown_days_bounds [OF assms(2)]
  have "isoformat a < isoformat b \<longleftrightarrow> wall_clock a < wall_clock b"
    unfolding isoformat_shown wall_clock_less assms(3)
    by (simp add: append_less length_iso_date iso_date_less [OF days] iso_date_eq [OF days] fraction_less
        clock_less [OF shown_bounds(1) shown_bounds(1), simplified] shown_bounds)
  then show ?thesis by (simp add: wall_clock_def assms(3))
qed

lemma isoformat_eq:
  assumes "showable a" "showable b" "offset a = offset b"
  shows "isoformat a = isoformat b \<longleftrightarrow> utc a = utc b"
  using isoformat_less [OF assms] isoformat_less [OF assms(2,1) assms(3) [symmetric]]
  by (metis less_irrefl linorder_neqE)

text \<open>The order of the texts is not the order in time when the offsets differ.\<close>

lemma isoformat_order_fails:
  "\<exists>a b. showable a \<and> showable b \<and> utc a < utc b \<and> isoformat b < isoformat a"
  by (rule exI [of _ "\<lparr>utc = 0, offset = 3600\<rparr>"], rule exI [of _ "at_utc 1000000"])
    (simp add: showable_def isoformat_eval)

end
