(* ===== verification/FileLock.thy ===== *)
theory FileLock
  imports Json Calendar
begin

text \<open>
  \<open>locks/file_lock.py\<close>: one lock file per project, created with \<open>O_EXCL\<close>, removed by its owner or,
  when it is stale (old enough, and its process is gone), by whoever wants the lock. Every file
  system call is one step: between two of them other processes may move. \<open>lock_next\<close> is the code of
  \<open>acquire\<close> and \<open>release\<close> cut at those calls; \<open>lock_step\<close> interleaves the lock objects (several may
  live in one process), lets time pass and lets processes die.

  A file is its parsed JSON text (or \<open>Unreadable\<close>), whether it is a regular file, and its stat
  signature, which differs between any two versions of the path. Times are in microseconds.
  The texts of times are read and written by the fields \<open>lk_parse\<close> and \<open>lk_format\<close>; \<open>LockTimes\<close> has the
  functions of the code. A clock shows the years 1 to 9999.
\<close>

section \<open>Lock metadata\<close>

record lock_metadata =
  lm_project :: string
  lm_task :: string
  lm_created :: string
  lm_pid :: nat
  lm_token :: string

text \<open>\<open>^[A-Za-z0-9][A-Za-z0-9._-]{0,127}$\<close>.\<close>

definition is_lock_id_char :: "char \<Rightarrow> bool" where
  "is_lock_id_char c \<longleftrightarrow> is_alnum c \<or> c \<in> {CHR ''.'', CHR ''_'', CHR ''-''}"

fun lock_id_pattern :: "string \<Rightarrow> bool" where
  "lock_id_pattern [] \<longleftrightarrow> False"
| "lock_id_pattern (c # cs) \<longleftrightarrow> is_alnum c \<and> list_all is_lock_id_char cs \<and> length cs \<le> 127"

text \<open>An integer literal of JSON; anything else (\<open>1.0\<close>, \<open>1e3\<close>) is read as a float.\<close>

definition digit_value :: "char \<Rightarrow> nat" where
  "digit_value c = of_char c - 48"

definition nat_of_literal :: "string \<Rightarrow> nat option" where
  "nat_of_literal s =
     (if s \<noteq> [] \<and> list_all is_digit s then Some (foldl (\<lambda>n c. 10 * n + digit_value c) 0 s) else None)"

text \<open>
  \<open>LockMetadata.from_mapping\<close>; \<open>None\<close> is its \<open>ValueError\<close>. A negative literal is an integer that is
  not positive, which is refused as well.
\<close>

definition metadata_fields :: "string set" where
  "metadata_fields = {''project'', ''task'', ''created_at'', ''pid'', ''owner_token''}"

fun text_field :: "json_object \<Rightarrow> string \<Rightarrow> string option" where
  "text_field doc k = (case map_of doc k of Some (JStr s) \<Rightarrow> Some s | _ \<Rightarrow> None)"

fun pid_field :: "json_object \<Rightarrow> nat option" where
  "pid_field doc =
     (case map_of doc ''pid'' of
        Some (JNum s) \<Rightarrow> (case nat_of_literal s of Some n \<Rightarrow> (if 0 < n then Some n else None) | None \<Rightarrow> None)
      | _ \<Rightarrow> None)"

fun from_mapping :: "(string \<Rightarrow> int option) \<Rightarrow> json \<Rightarrow> lock_metadata option" where
  "from_mapping parse (JObj doc) =
     (if fst ` set doc \<noteq> metadata_fields then None
      else case (text_field doc ''project'', text_field doc ''task'', text_field doc ''created_at'',
                 text_field doc ''owner_token'') of
        (Some project, Some task, Some created, Some token) \<Rightarrow>
          (case pid_field doc of
             None \<Rightarrow> None
           | Some pid \<Rightarrow>
               if \<not> lock_id_pattern project \<or> \<not> lock_id_pattern task then None
               else if token = [] \<or> 64 < length token then None
               else if parse created = None then None
               else Some \<lparr>lm_project = project, lm_task = task, lm_created = created, lm_pid = pid,
                          lm_token = token\<rparr>)
      | _ \<Rightarrow> None)"
| "from_mapping parse _ = None"

text \<open>\<open>json.dump(asdict(metadata), sort_keys=True)\<close>.\<close>

definition metadata_document :: "lock_metadata \<Rightarrow> json" where
  "metadata_document m =
     JObj [(''created_at'', JStr (lm_created m)), (''owner_token'', JStr (lm_token m)),
           (''pid'', JNum (show_nat (lm_pid m))), (''project'', JStr (lm_project m)),
           (''task'', JStr (lm_task m))]"

section \<open>The lock object\<close>

record lock_params =
  lk_project :: string
  lk_task :: string
  lk_wait :: int
  lk_poll :: int
  lk_stale_after :: int
  lk_parse :: "string \<Rightarrow> int option"
  lk_format :: "int \<Rightarrow> string"

text \<open>\<open>ProjectFileLock.__init__\<close>; \<open>None\<close> is a \<open>ValueError\<close>.\<close>

definition new_lock :: "lock_params \<Rightarrow> lock_params option" where
  "new_lock k =
     (if \<not> lock_id_pattern (lk_project k) then None
      else if \<not> lock_id_pattern (lk_task k) then None
      else if lk_wait k < 0 then None
      else if lk_poll k \<le> 0 then None
      else if lk_stale_after k < 0 then None
      else Some k)"

section \<open>The file\<close>

datatype lock_text = Unreadable | Parsed json

text \<open>\<open>lf_creator\<close> says who created the file; no operation reads it.\<close>

record lock_file =
  lf_text :: lock_text
  lf_regular :: bool
  lf_sig :: nat
  lf_creator :: nat

record lock_fs =
  fs_file :: "lock_file option"
  fs_next :: nat

definition create_file :: "nat \<Rightarrow> lock_fs \<Rightarrow> lock_fs" where
  "create_file p fs =
     \<lparr>fs_file = Some \<lparr>lf_text = Unreadable, lf_regular = True, lf_sig = fs_next fs, lf_creator = p\<rparr>,
      fs_next = fs_next fs + 1\<rparr>"

text \<open>Writing goes to the file behind the descriptor, which is the one of that creator.\<close>

definition write_file :: "nat \<Rightarrow> json \<Rightarrow> lock_fs \<Rightarrow> lock_fs" where
  "write_file p doc fs =
     (case fs_file fs of
        Some f \<Rightarrow>
          if lf_creator f = p
          then \<lparr>fs_file = Some (f\<lparr>lf_text := Parsed doc, lf_sig := fs_next fs\<rparr>), fs_next = fs_next fs + 1\<rparr>
          else fs
      | None \<Rightarrow> fs)"

definition unlink_file :: "lock_fs \<Rightarrow> lock_fs" where
  "unlink_file fs = fs\<lparr>fs_file := None\<rparr>"

section \<open>The code between two file system calls\<close>

datatype lock_error =
    LockTimeoutError "string option"
  | LockOwnershipError
  | LockWriteError

datatype snapshot_use = For_inspection | For_recovery lock_metadata | For_release lock_metadata

datatype lock_pc =
    Unlocked
  | Creating
  | Writing lock_metadata
  | Discarding
  | Probing
  | Stating snapshot_use
  | Opening snapshot_use nat
  | Checking snapshot_use lock_metadata nat
  | Unlinking snapshot_use lock_metadata
  | Waiting "string option"
  | Held lock_metadata
  | Stopped_with lock_error

record lock_local =
  lo_pc :: lock_pc
  lo_deadline :: int
  lo_recovered :: "lock_metadata option"

text \<open>\<open>_process_is_alive\<close>: what \<open>os.kill(pid, 0)\<close> says.\<close>

datatype kill_result = Signalled | ProcessLookupError | PermissionError | OtherOSError

fun process_is_alive :: "kill_result \<Rightarrow> bool" where
  "process_is_alive ProcessLookupError = False"
| "process_is_alive PermissionError = True"
| "process_is_alive OtherOSError = False"
| "process_is_alive Signalled = True"

text \<open>\<open>_is_stale\<close>.\<close>

definition is_stale :: "lock_params \<Rightarrow> int \<Rightarrow> (nat \<Rightarrow> kill_result) \<Rightarrow> lock_metadata \<Rightarrow> bool" where
  "is_stale k now kill m \<longleftrightarrow>
     (case lk_parse k (lm_created m) of
        None \<Rightarrow> False
      | Some at \<Rightarrow> lk_stale_after k \<le> now - at \<and> \<not> process_is_alive (kill (lm_pid m)))"

text \<open>The metadata that \<open>acquire\<close> writes.\<close>

definition fresh_metadata :: "lock_params \<Rightarrow> nat \<Rightarrow> int \<Rightarrow> string \<Rightarrow> lock_metadata" where
  "fresh_metadata k pid now token =
     \<lparr>lm_project = lk_project k, lm_task = lk_task k, lm_created = lk_format k now, lm_pid = pid,
      lm_token = token\<rparr>"

text \<open>
  What a step finds around it: the process it runs in, the two clocks, the answers of \<open>os.kill\<close>, the
  next \<open>uuid4().hex\<close>, and how writing the new file goes (\<open>Not_synced\<close>: the text is there when
  \<open>fsync\<close> fails).
\<close>

datatype write_result = Written | Not_written | Not_synced

record lock_env =
  en_pid :: nat
  en_now :: int
  en_monotonic :: int
  en_kill :: "nat \<Rightarrow> kill_result"
  en_token :: string
  en_write :: write_result

subsection \<open>Creating the file\<close>

text \<open>\<open>_create_exclusive\<close>: \<open>os.open\<close> with \<open>O_EXCL\<close>.\<close>

definition create_exclusive :: "lock_params \<Rightarrow> nat \<Rightarrow> lock_env \<Rightarrow> lock_local \<Rightarrow> lock_fs \<Rightarrow> lock_local \<times> lock_fs" where
  "create_exclusive k p env l fs =
     (case fs_file fs of
        None \<Rightarrow>
          (l\<lparr>lo_pc := Writing (fresh_metadata k (en_pid env) (en_now env) (en_token env))\<rparr>, create_file p fs)
      | Some f \<Rightarrow> (l\<lparr>lo_pc := Probing\<rparr>, fs))"

text \<open>\<open>_create_exclusive\<close>: writing, and the handler that removes the file again.\<close>

definition write_metadata :: "nat \<Rightarrow> lock_env \<Rightarrow> lock_metadata \<Rightarrow> lock_local \<Rightarrow> lock_fs \<Rightarrow> lock_local \<times> lock_fs" where
  "write_metadata p env m l fs =
     (case en_write env of
        Written \<Rightarrow> (l\<lparr>lo_pc := Held m\<rparr>, write_file p (metadata_document m) fs)
      | Not_written \<Rightarrow> (l\<lparr>lo_pc := Discarding\<rparr>, fs)
      | Not_synced \<Rightarrow> (l\<lparr>lo_pc := Discarding\<rparr>, write_file p (metadata_document m) fs))"

definition discard_file :: "lock_local \<Rightarrow> lock_fs \<Rightarrow> lock_local \<times> lock_fs" where
  "discard_file l fs = (l\<lparr>lo_pc := Stopped_with LockWriteError\<rparr>, unlink_file fs)"

subsection \<open>Reading the file\<close>

text \<open>Where the code goes on when \<open>_read_snapshot\<close> gives nothing or raises.\<close>

fun without_snapshot :: "snapshot_use \<Rightarrow> lock_pc" where
  "without_snapshot For_inspection = Waiting None"
| "without_snapshot (For_recovery m) = Waiting (Some (lm_task m))"
| "without_snapshot (For_release m) = Stopped_with LockOwnershipError"

text \<open>Where it goes on with a snapshot: the ends of \<open>inspect\<close>, \<open>acquire\<close> and \<open>release\<close>.\<close>

fun with_snapshot ::
  "lock_params \<Rightarrow> lock_env \<Rightarrow> snapshot_use \<Rightarrow> lock_metadata \<Rightarrow> nat \<Rightarrow> lock_pc" where
  "with_snapshot k env For_inspection m sig =
     (if is_stale k (en_now env) (en_kill env) m then Stating (For_recovery m) else Waiting (Some (lm_task m)))"
| "with_snapshot k env (For_recovery inspected) m sig =
     (if m = inspected then Checking (For_recovery inspected) m sig else Waiting (Some (lm_task inspected)))"
| "with_snapshot k env (For_release owned) m sig =
     (if lm_token m = lm_token owned then Checking (For_release owned) m sig
      else Stopped_with LockOwnershipError)"

text \<open>\<open>_read_snapshot\<close>: the first \<open>lstat\<close>.\<close>

definition stat_snapshot :: "snapshot_use \<Rightarrow> lock_fs \<Rightarrow> lock_pc" where
  "stat_snapshot use fs =
     (case fs_file fs of
        None \<Rightarrow> without_snapshot use
      | Some f \<Rightarrow> if lf_regular f then Opening use (lf_sig f) else without_snapshot use)"

text \<open>What \<open>_read_snapshot\<close> makes of the opened file; \<open>None\<close> is a \<open>ValueError\<close>.\<close>

definition snapshot_of :: "lock_params \<Rightarrow> nat \<Rightarrow> lock_file \<Rightarrow> lock_metadata option" where
  "snapshot_of k sig f =
     (if lf_sig f \<noteq> sig then None
      else case lf_text f of Unreadable \<Rightarrow> None | Parsed doc \<Rightarrow> from_mapping (lk_parse k) doc)"

definition open_snapshot :: "lock_params \<Rightarrow> lock_env \<Rightarrow> snapshot_use \<Rightarrow> nat \<Rightarrow> lock_fs \<Rightarrow> lock_pc" where
  "open_snapshot k env use sig fs =
     (case fs_file fs of
        None \<Rightarrow> without_snapshot use
      | Some f \<Rightarrow>
          (case snapshot_of k sig f of
             None \<Rightarrow> without_snapshot use
           | Some m \<Rightarrow> with_snapshot k env use m sig))"

subsection \<open>Removing the file\<close>

text \<open>\<open>_remove_unchanged\<close> returned \<open>False\<close>.\<close>

fun not_removed :: "snapshot_use \<Rightarrow> lock_pc" where
  "not_removed (For_recovery m) = Waiting (Some (lm_task m))"
| "not_removed _ = Stopped_with LockOwnershipError"

text \<open>\<open>_remove_unchanged\<close>: the \<open>lstat\<close>, then the \<open>unlink\<close>.\<close>

definition check_unchanged :: "snapshot_use \<Rightarrow> lock_metadata \<Rightarrow> nat \<Rightarrow> lock_fs \<Rightarrow> lock_pc" where
  "check_unchanged use m sig fs =
     (case fs_file fs of
        None \<Rightarrow> not_removed use
      | Some f \<Rightarrow> if lf_sig f = sig then Unlinking use m else not_removed use)"

definition remove_unchanged :: "snapshot_use \<Rightarrow> lock_metadata \<Rightarrow> lock_local \<Rightarrow> lock_fs \<Rightarrow> lock_local \<times> lock_fs" where
  "remove_unchanged use m l fs =
     (case fs_file fs of
        None \<Rightarrow> (l\<lparr>lo_pc := not_removed use\<rparr>, fs)
      | Some f \<Rightarrow>
          (case use of
             For_release owned \<Rightarrow> (l\<lparr>lo_pc := Unlocked\<rparr>, unlink_file fs)
           | _ \<Rightarrow> (l\<lparr>lo_pc := Creating, lo_recovered := Some m\<rparr>, unlink_file fs)))"

subsection \<open>Acquire and release\<close>

definition begin_acquire :: "lock_params \<Rightarrow> lock_env \<Rightarrow> lock_local" where
  "begin_acquire k env =
     \<lparr>lo_pc = Creating, lo_deadline = en_monotonic env + lk_wait k, lo_recovered = None\<rparr>"

definition wait_or_give_up :: "lock_env \<Rightarrow> string option \<Rightarrow> lock_local \<Rightarrow> lock_local" where
  "wait_or_give_up env owner l =
     (if lo_deadline l - en_monotonic env \<le> 0 then l\<lparr>lo_pc := Stopped_with (LockTimeoutError owner)\<rparr>
      else l\<lparr>lo_pc := Creating\<rparr>)"

text \<open>
  One step of the lock object \<open>p\<close>: \<open>acquire\<close> from \<open>Unlocked\<close>, \<open>release\<close> from \<open>Held\<close>. (\<open>acquire\<close> on
  an object that holds the lock raises at once and \<open>release\<close> on one that does not returns at once:
  neither reaches the file system. The lock directory exists, and the project name has no separator,
  so the check of the parent directory passes.)
\<close>

definition lock_next :: "lock_params \<Rightarrow> nat \<Rightarrow> lock_env \<Rightarrow> lock_local \<Rightarrow> lock_fs \<Rightarrow> lock_local \<times> lock_fs" where
  "lock_next k p env l fs =
     (case lo_pc l of
        Unlocked \<Rightarrow> (begin_acquire k env, fs)
      | Creating \<Rightarrow> create_exclusive k p env l fs
      | Writing m \<Rightarrow> write_metadata p env m l fs
      | Discarding \<Rightarrow> discard_file l fs
      | Probing \<Rightarrow> (l\<lparr>lo_pc := if fs_file fs = None then Waiting None else Stating For_inspection\<rparr>, fs)
      | Stating use \<Rightarrow> (l\<lparr>lo_pc := stat_snapshot use fs\<rparr>, fs)
      | Opening use sig \<Rightarrow> (l\<lparr>lo_pc := open_snapshot k env use sig fs\<rparr>, fs)
      | Checking use m sig \<Rightarrow> (l\<lparr>lo_pc := check_unchanged use m sig fs\<rparr>, fs)
      | Unlinking use m \<Rightarrow> remove_unchanged use m l fs
      | Waiting owner \<Rightarrow> (wait_or_give_up env owner l, fs)
      | Held m \<Rightarrow> (l\<lparr>lo_pc := Stating (For_release m)\<rparr>, fs)
      | Stopped_with e \<Rightarrow> (l, fs))"

text \<open>\<open>inspect\<close>, when nobody moves while it runs.\<close>

record lock_inspection =
  li_exists :: bool
  li_metadata :: "lock_metadata option"
  li_stale :: bool
  li_recoverable :: bool
  li_error :: bool

definition no_lock :: lock_inspection where
  "no_lock = \<lparr>li_exists = False, li_metadata = None, li_stale = False, li_recoverable = False, li_error = False\<rparr>"

definition inspect :: "lock_params \<Rightarrow> lock_env \<Rightarrow> lock_fs \<Rightarrow> lock_inspection" where
  "inspect k env fs =
     (case fs_file fs of
        None \<Rightarrow> no_lock
      | Some f \<Rightarrow>
          (case if lf_regular f then snapshot_of k (lf_sig f) f else None of
             None \<Rightarrow> no_lock\<lparr>li_exists := True, li_error := True\<rparr>
           | Some m \<Rightarrow>
               (let stale = is_stale k (en_now env) (en_kill env) m in
                \<lparr>li_exists = True, li_metadata = Some m, li_stale = stale, li_recoverable = stale, li_error = False\<rparr>)))"

section \<open>Many lock objects\<close>

text \<open>\<open>sy_alive\<close> are the live process identifiers; \<open>host p\<close> is the process of the lock object \<open>p\<close>.\<close>

record lock_system =
  sy_fs :: lock_fs
  sy_locks :: "nat \<Rightarrow> lock_local"
  sy_alive :: "nat set"
  sy_now :: int
  sy_monotonic :: int

definition signal :: "nat set \<Rightarrow> nat \<Rightarrow> kill_result" where
  "signal alive pid = (if pid \<in> alive then Signalled else ProcessLookupError)"

definition env_of :: "(nat \<Rightarrow> nat) \<Rightarrow> lock_system \<Rightarrow> nat \<Rightarrow> string \<Rightarrow> write_result \<Rightarrow> lock_env" where
  "env_of host sy p token w =
     \<lparr>en_pid = host p, en_now = sy_now sy, en_monotonic = sy_monotonic sy, en_kill = signal (sy_alive sy),
      en_token = token, en_write = w\<rparr>"

definition moved_lock :: "(nat \<Rightarrow> lock_params) \<Rightarrow> (nat \<Rightarrow> nat) \<Rightarrow> nat \<Rightarrow> string \<Rightarrow> write_result \<Rightarrow> lock_system \<Rightarrow> lock_system" where
  "moved_lock ks host p token w sy =
     (case lock_next (ks p) p (env_of host sy p token w) (sy_locks sy p) (sy_fs sy) of
        (l, fs) \<Rightarrow> sy\<lparr>sy_fs := fs, sy_locks := (sy_locks sy)(p := l)\<rparr>)"

fun is_unlinking :: "lock_pc \<Rightarrow> bool" where
  "is_unlinking (Unlinking _ _) = True"
| "is_unlinking _ = False"

text \<open>
  \<open>crashes\<close>: processes may die. \<open>atomic\<close>: the \<open>lstat\<close> and the \<open>unlink\<close> of \<open>_remove_unchanged\<close> happen
  without another move in between (the code does not ensure that). A token is a \<open>uuid4().hex\<close>.
\<close>

definition may_move :: "bool \<Rightarrow> (nat \<Rightarrow> nat) \<Rightarrow> lock_system \<Rightarrow> nat \<Rightarrow> bool" where
  "may_move atomic host sy p \<longleftrightarrow>
     host p \<in> sy_alive sy \<and>
     (atomic \<longrightarrow> (\<forall>q. q \<noteq> p \<longrightarrow> host q \<in> sy_alive sy \<longrightarrow> \<not> is_unlinking (lo_pc (sy_locks sy q))))"

inductive lock_step ::
  "bool \<Rightarrow> bool \<Rightarrow> (nat \<Rightarrow> lock_params) \<Rightarrow> (nat \<Rightarrow> nat) \<Rightarrow> lock_system \<Rightarrow> lock_system \<Rightarrow> bool"
  for crashes atomic ks host where
  move: "may_move atomic host sy p \<Longrightarrow> length token = 32 \<Longrightarrow>
    lock_step crashes atomic ks host sy (moved_lock ks host p token w sy)"
| crash: "crashes \<Longrightarrow> lock_step crashes atomic ks host sy (sy\<lparr>sy_alive := sy_alive sy - {pid}\<rparr>)"
| tick: "sy_monotonic sy \<le> later \<Longrightarrow> showable (at_utc now) \<Longrightarrow>
    lock_step crashes atomic ks host sy (sy\<lparr>sy_now := now, sy_monotonic := later\<rparr>)"

definition no_locks :: "nat set \<Rightarrow> lock_system" where
  "no_locks alive =
     \<lparr>sy_fs = \<lparr>fs_file = None, fs_next = 0\<rparr>,
      sy_locks = (\<lambda>_. \<lparr>lo_pc = Unlocked, lo_deadline = 0, lo_recovered = None\<rparr>),
      sy_alive = alive, sy_now = 0, sy_monotonic = 0\<rparr>"

definition lock_reachable ::
  "bool \<Rightarrow> bool \<Rightarrow> (nat \<Rightarrow> lock_params) \<Rightarrow> (nat \<Rightarrow> nat) \<Rightarrow> nat set \<Rightarrow> lock_system \<Rightarrow> bool" where
  "lock_reachable crashes atomic ks host alive sy \<longleftrightarrow>
     (lock_step crashes atomic ks host)\<^sup>*\<^sup>* (no_locks alive) sy"

text \<open>The lock object \<open>p\<close> holds the lock, in a live process.\<close>

definition holds_lock :: "(nat \<Rightarrow> nat) \<Rightarrow> lock_system \<Rightarrow> nat \<Rightarrow> bool" where
  "holds_lock host sy p \<longleftrightarrow> host p \<in> sy_alive sy \<and> (\<exists>m. lo_pc (sy_locks sy p) = Held m)"

end
