(* ===== verification/LockSafety.thy ===== *)
theory LockSafety
  imports FileLock
begin

text \<open>
  The invariant of the project locks: whoever holds the lock, or is about to write or release it, is
  the creator of the file that is there, and a file that somebody is about to reclaim was created by
  a dead process. It is kept by every step when no process dies, or when the check and the removal of
  a stale file are one step.
\<close>

section \<open>Metadata\<close>

lemma nat_below_10: "d < (10::nat) \<Longrightarrow> d \<in> {0,1,2,3,4,5,6,7,8,9}"
  by auto

lemma digit_digit:
  assumes "d < 10"
  shows "digit_value (digit d) = d" "is_digit (digit d)"
  using nat_below_10 [OF assms]
  by (auto simp: digit_value_def digit_def is_digit_def in_range_def numeral_eq_Suc less_eq_char_def)

lemma show_nat_digits: "show_nat n \<noteq> [] \<and> list_all is_digit (show_nat n)"
proof (induction n rule: show_nat.induct)
  case (1 n)
  then show ?case by (subst (1 2) show_nat.simps) (simp add: digit_digit)
qed

lemma show_nat_value: "foldl (\<lambda>n c. 10 * n + digit_value c) 0 (show_nat n) = n"
proof (induction n rule: show_nat.induct)
  case (1 n)
  then show ?case by (subst show_nat.simps) (simp add: digit_digit)
qed

lemma nat_of_literal_show_nat [simp]: "nat_of_literal (show_nat n) = Some n"
  by (simp add: nat_of_literal_def show_nat_digits show_nat_value)

definition valid_metadata :: "(string \<Rightarrow> int option) \<Rightarrow> lock_metadata \<Rightarrow> bool" where
  "valid_metadata parse m \<longleftrightarrow>
     0 < lm_pid m \<and> lock_id_pattern (lm_project m) \<and> lock_id_pattern (lm_task m) \<and>
     lm_token m \<noteq> [] \<and> length (lm_token m) \<le> 64 \<and> parse (lm_created m) \<noteq> None"

lemma from_mapping_document:
  "from_mapping parse (metadata_document m) = (if valid_metadata parse m then Some m else None)"
  by (auto simp: metadata_document_def valid_metadata_def metadata_fields_def)

lemma from_mapping_documentD:
  "from_mapping parse (metadata_document m) = Some m' \<Longrightarrow> m' = m"
  by (simp add: from_mapping_document split: if_splits)

section \<open>The invariant\<close>

fun use_of :: "lock_pc \<Rightarrow> snapshot_use option" where
  "use_of (Stating use) = Some use"
| "use_of (Opening use _) = Some use"
| "use_of (Checking use _ _) = Some use"
| "use_of (Unlinking use _) = Some use"
| "use_of _ = None"

text \<open>The file at the path is this object's own.\<close>

fun owns :: "lock_pc \<Rightarrow> bool" where
  "owns (Writing _) = True"
| "owns Discarding = True"
| "owns (Held _) = True"
| "owns pc = (case use_of pc of Some (For_release _) \<Rightarrow> True | _ \<Rightarrow> False)"

fun written_by :: "(nat \<Rightarrow> nat) \<Rightarrow> lock_file \<Rightarrow> bool" where
  "written_by host f \<longleftrightarrow>
     (\<forall>doc. lf_text f = Parsed doc \<longrightarrow> (\<exists>m. doc = metadata_document m \<and> lm_pid m = host (lf_creator f)))"

definition fs_ok :: "(nat \<Rightarrow> nat) \<Rightarrow> lock_fs \<Rightarrow> bool" where
  "fs_ok host fs \<longleftrightarrow> (\<forall>f. fs_file fs = Some f \<longrightarrow> lf_sig f < fs_next fs \<and> written_by host f)"

definition dead_file :: "(nat \<Rightarrow> nat) \<Rightarrow> nat set \<Rightarrow> lock_file \<Rightarrow> bool" where
  "dead_file host alive f \<longleftrightarrow> host (lf_creator f) \<notin> alive"

fun reclaim_ok :: "(nat \<Rightarrow> nat) \<Rightarrow> nat set \<Rightarrow> lock_fs \<Rightarrow> lock_pc \<Rightarrow> bool" where
  "reclaim_ok host alive fs (Opening use sig) \<longleftrightarrow> sig < fs_next fs"
| "reclaim_ok host alive fs (Checking use m sig) \<longleftrightarrow>
     sig < fs_next fs \<and>
     ((\<exists>i. use = For_recovery i) \<longrightarrow> (\<forall>f. fs_file fs = Some f \<longrightarrow> lf_sig f = sig \<longrightarrow> dead_file host alive f))"
| "reclaim_ok host alive fs (Unlinking use m) \<longleftrightarrow>
     ((\<exists>i. use = For_recovery i) \<longrightarrow> (\<forall>f. fs_file fs = Some f \<longrightarrow> dead_file host alive f))"
| "reclaim_ok host alive fs _ \<longleftrightarrow> True"

fun pc_ok :: "(nat \<Rightarrow> nat) \<Rightarrow> nat set \<Rightarrow> lock_fs \<Rightarrow> nat \<Rightarrow> lock_pc \<Rightarrow> bool" where
  "pc_ok host alive fs p pc \<longleftrightarrow>
     (owns pc \<longrightarrow> (\<exists>f. fs_file fs = Some f \<and> lf_creator f = p)) \<and>
     (\<forall>m. pc = Writing m \<longrightarrow> lm_pid m = host p) \<and>
     (\<forall>m. use_of pc = Some (For_recovery m) \<longrightarrow> lm_pid m \<in> range host - alive) \<and>
     (\<forall>m. pc \<noteq> Unlinking For_inspection m) \<and> (\<forall>m sig. pc \<noteq> Checking For_inspection m sig) \<and>
     reclaim_ok host alive fs pc"

definition locks_ok :: "bool \<Rightarrow> (nat \<Rightarrow> nat) \<Rightarrow> lock_system \<Rightarrow> bool" where
  "locks_ok crashes host sy \<longleftrightarrow>
     (\<not> crashes \<longrightarrow> range host \<subseteq> sy_alive sy) \<and> fs_ok host (sy_fs sy) \<and>
     (\<forall>p. host p \<in> sy_alive sy \<longrightarrow> pc_ok host (sy_alive sy) (sy_fs sy) p (lo_pc (sy_locks sy p)))"

section \<open>What a step does to the file\<close>

text \<open>
  A step leaves the file system alone, creates a file where there is none, writes its own file, or
  removes a file that is its own or whose process is dead.
\<close>

inductive file_change :: "(nat \<Rightarrow> nat) \<Rightarrow> nat set \<Rightarrow> nat \<Rightarrow> lock_fs \<Rightarrow> lock_fs \<Rightarrow> bool"
  for host alive p fs where
  same: "file_change host alive p fs fs"
| created: "fs_file fs = None \<Longrightarrow> file_change host alive p fs (create_file p fs)"
| written: "fs_file fs = Some f \<Longrightarrow> lf_creator f = p \<Longrightarrow> lm_pid m = host p \<Longrightarrow>
    file_change host alive p fs (write_file p (metadata_document m) fs)"
| removed: "fs_file fs = Some f \<Longrightarrow> lf_creator f = p \<or> dead_file host alive f \<Longrightarrow>
    file_change host alive p fs (unlink_file fs)"

lemmas file_ops = create_file_def write_file_def unlink_file_def

lemma file_change_ok: "file_change host alive p fs fs' \<Longrightarrow> fs_ok host fs \<Longrightarrow> fs_ok host fs'"
  by (induction rule: file_change.induct) (auto simp: fs_ok_def file_ops)

lemma file_change_others:
  assumes "file_change host alive p fs fs'" "pc_ok host alive fs q pc" "q \<noteq> p" "host q \<in> alive"
    "\<not> is_unlinking pc \<or> range host \<subseteq> alive"
  shows "pc_ok host alive fs' q pc"
  using assms
proof (induction rule: file_change.induct)
  case same
  then show ?case by simp
next
  case created
  then show ?case by (cases pc) (auto simp: file_ops dead_file_def split: snapshot_use.splits)
next
  case written
  then show ?case by (cases pc) (auto simp: file_ops dead_file_def split: snapshot_use.splits)
next
  case removed
  then show ?case by (cases pc) (auto simp: file_ops dead_file_def split: snapshot_use.splits)
qed

section \<open>What a step does to its own object\<close>

lemma stale_is_dead: "is_stale k now (signal alive) m \<Longrightarrow> lm_pid m \<notin> alive"
  by (auto simp: is_stale_def signal_def split: option.splits if_splits)

lemma snapshot_host:
  assumes "fs_ok host fs" "fs_file fs = Some f" "snapshot_of k sig f = Some m"
  shows "lm_pid m = host (lf_creator f)" "lf_sig f = sig"
  using assms from_mapping_documentD
  by (auto simp: snapshot_of_def fs_ok_def split: if_splits lock_text.splits)

lemma open_snapshot_ok:
  assumes "fs_ok host fs" "pc_ok host alive fs p (Opening use sig)" "en_kill env = signal alive"
  shows "pc_ok host alive fs p (open_snapshot k env use sig fs)"
proof -
  consider "open_snapshot k env use sig fs = without_snapshot use"
    | f m where "fs_file fs = Some f" "snapshot_of k sig f = Some m"
      "open_snapshot k env use sig fs = with_snapshot k env use m sig"
    by (cases "fs_file fs"; cases "snapshot_of k sig (the (fs_file fs))") (auto simp: open_snapshot_def)
  then show ?thesis
  proof cases
    case 1
    then show ?thesis by (cases use) auto
  next
    case 2
    note read = snapshot_host [OF assms(1) 2(1,2)]
    show ?thesis using 2(1,3) read assms(2) stale_is_dead [of k "en_now env" alive m] assms(3)
      by (cases use) (auto simp: dead_file_def)
  qed
qed

lemma next_own:
  assumes "fs_ok host fs" "pc_ok host alive fs p (lo_pc l)" "host p \<in> alive"
    "en_pid env = host p" "en_kill env = signal alive" "lock_next k p env l fs = (l', fs')"
  shows "file_change host alive p fs fs' \<and> pc_ok host alive fs' p (lo_pc l')"
proof (cases "lo_pc l")
  case Unlocked
  then show ?thesis using assms by (auto simp: lock_next_def begin_acquire_def file_change.same)
next
  case Creating
  then show ?thesis using assms
    by (auto simp: lock_next_def create_exclusive_def fresh_metadata_def file_change.same
        split: option.splits intro: file_change.created) (simp add: create_file_def)
next
  case (Writing m)
  then obtain f where f: "fs_file fs = Some f" "lf_creator f = p" "lm_pid m = host p" using assms(2) by auto
  from Writing assms(6) show ?thesis
    using f file_change.written [where host = host and alive = alive, OF f(1) f(2) f(3)]
      file_change.same [of host alive p fs]
    by (auto simp: lock_next_def write_metadata_def write_file_def split: write_result.splits)
next
  case Discarding
  then obtain f where f: "fs_file fs = Some f" "lf_creator f = p" using assms(2) by auto
  from Discarding assms(6) show ?thesis
    using file_change.removed [where host = host and alive = alive and p = p, OF f(1)] f by (auto simp: lock_next_def discard_file_def)
next
  case Probing
  then show ?thesis using assms by (cases "fs_file fs") (auto simp: lock_next_def file_change.same)
next
  case (Stating use)
  then show ?thesis using assms
    by (cases use) (auto simp: lock_next_def stat_snapshot_def file_change.same fs_ok_def split: option.splits if_splits)
next
  case (Opening use sig)
  then have moved: "l' = l\<lparr>lo_pc := open_snapshot k env use sig fs\<rparr>" "fs' = fs"
    using assms(6) by (auto simp: lock_next_def)
  have "pc_ok host alive fs p (open_snapshot k env use sig fs)"
    by (rule open_snapshot_ok) (use assms Opening in auto)
  with moved show ?thesis by (simp add: file_change.same)
next
  case (Checking use m sig)
  then show ?thesis using assms
    by (cases use) (auto simp: lock_next_def check_unchanged_def file_change.same split: option.splits if_splits)
next
  case (Unlinking use m)
  then show ?thesis using assms file_change.removed [where host = host and alive = alive and p = p and fs = fs] file_change.same [of host alive p fs]
    by (cases use) (auto simp: lock_next_def remove_unchanged_def unlink_file_def split: option.splits if_splits)
next
  case (Waiting owner)
  then show ?thesis using assms by (auto simp: lock_next_def wait_or_give_up_def file_change.same split: if_splits)
next
  case (Held m)
  then show ?thesis using assms by (auto simp: lock_next_def file_change.same)
next
  case (Stopped_with e)
  then show ?thesis using assms by (auto simp: lock_next_def file_change.same)
qed

section \<open>Every step keeps it\<close>

lemma pc_ok_after_crash:
  "pc_ok host alive fs p pc \<Longrightarrow> pc_ok host (alive - {pid}) fs p pc"
  by (cases pc) (auto simp: dead_file_def)

lemma lock_step_ok:
  assumes "lock_step crashes atomic ks host sy sy'" "locks_ok crashes host sy" "\<not> crashes \<or> atomic"
  shows "locks_ok crashes host sy'"
  using assms
proof (induction rule: lock_step.induct)
  case (move sy p token w)
  obtain l fs' where step: "lock_next (ks p) p (env_of host sy p token w) (sy_locks sy p) (sy_fs sy) = (l, fs')"
    by fastforce
  have own: "file_change host (sy_alive sy) p (sy_fs sy) fs' \<and> pc_ok host (sy_alive sy) fs' p (lo_pc l)"
    using next_own [OF _ _ _ _ _ step, of host "sy_alive sy"] move by (simp add: locks_ok_def may_move_def env_of_def)
  have "pc_ok host (sy_alive sy) fs' q (lo_pc (sy_locks sy q))" if "q \<noteq> p" "host q \<in> sy_alive sy" for q
    using file_change_others [OF conjunct1 [OF own] _ that] move that by (auto simp: locks_ok_def may_move_def)
  with own move step show ?case
    by (auto simp: locks_ok_def moved_lock_def intro: file_change_ok)
next
  case (crash sy pid)
  then show ?case using pc_ok_after_crash by (auto simp: locks_ok_def simp del: pc_ok.simps)
next
  case (tick sy later now)
  then show ?case by (simp add: locks_ok_def)
qed

lemma no_locks_ok: "range host \<subseteq> alive \<or> crashes \<Longrightarrow> locks_ok crashes host (no_locks alive)"
  by (auto simp: locks_ok_def no_locks_def fs_ok_def)

lemma lock_reachable_ok:
  assumes "lock_reachable crashes atomic ks host alive sy" "\<not> crashes \<or> atomic" "range host \<subseteq> alive"
  shows "locks_ok crashes host sy"
proof -
  have "(lock_step crashes atomic ks host)\<^sup>*\<^sup>* (no_locks alive) sy"
    using assms(1) by (simp add: lock_reachable_def)
  then show ?thesis
  proof induction
    case base
    show ?case using no_locks_ok assms(3) by blast
  next
    case (step sy1 sy2)
    then show ?case using lock_step_ok assms(2) by blast
  qed
qed

lemma holders_own:
  assumes "locks_ok crashes host sy" "holds_lock host sy p"
  shows "\<exists>f. fs_file (sy_fs sy) = Some f \<and> lf_creator f = p"
proof -
  obtain m where "lo_pc (sy_locks sy p) = Held m" "host p \<in> sy_alive sy"
    using assms(2) by (auto simp: holds_lock_def)
  moreover from this assms(1)
  have "pc_ok host (sy_alive sy) (sy_fs sy) p (lo_pc (sy_locks sy p))" by (simp add: locks_ok_def)
  ultimately show ?thesis by simp
qed


section \<open>Release\<close>

text \<open>The metadata of a lock that is held or being released.\<close>

fun owned :: "lock_pc \<Rightarrow> lock_metadata option" where
  "owned (Held m) = Some m"
| "owned pc = (case use_of pc of Some (For_release m) \<Rightarrow> Some m | _ \<Rightarrow> None)"

fun expected_sig :: "lock_pc \<Rightarrow> nat option" where
  "expected_sig (Opening use sig) = Some sig"
| "expected_sig (Checking use m sig) = Some sig"
| "expected_sig _ = None"

definition intact :: "lock_fs \<Rightarrow> lock_metadata \<Rightarrow> nat option \<Rightarrow> bool" where
  "intact fs m sig \<longleftrightarrow>
     (\<exists>f. fs_file fs = Some f \<and> lf_text f = Parsed (metadata_document m) \<and> lf_regular f \<and>
        (sig = None \<or> sig = Some (lf_sig f)))"

definition release_ok :: "lock_params \<Rightarrow> lock_fs \<Rightarrow> lock_pc \<Rightarrow> bool" where
  "release_ok k fs pc \<longleftrightarrow>
     (\<forall>m. owned pc = Some m \<longrightarrow> valid_metadata (lk_parse k) m \<and> intact fs m (expected_sig pc)) \<and>
     (\<forall>m. pc = Writing m \<longrightarrow> valid_metadata (lk_parse k) m \<and> (\<exists>f. fs_file fs = Some f \<and> lf_regular f)) \<and>
     pc \<noteq> Stopped_with LockOwnershipError"

text \<open>What the constructor and the clock guarantee of the metadata an object writes.\<close>

definition writes_valid :: "lock_params \<Rightarrow> nat \<Rightarrow> bool" where
  "writes_valid k pid \<longleftrightarrow>
     new_lock k = Some k \<and> 0 < pid \<and> (\<forall>t. showable (at_utc t) \<longrightarrow> lk_parse k (lk_format k t) \<noteq> None)"

lemma fresh_valid:
  "writes_valid k pid \<Longrightarrow> length token = 32 \<Longrightarrow> showable (at_utc now) \<Longrightarrow>
     valid_metadata (lk_parse k) (fresh_metadata k pid now token)"
  by (auto simp: writes_valid_def valid_metadata_def fresh_metadata_def new_lock_def split: if_splits)

lemma intact_snapshot:
  assumes "valid_metadata (lk_parse k) m" "intact fs m (Some sig)"
  shows "fs_file fs \<noteq> None" "fs_file fs = Some f \<Longrightarrow> snapshot_of k sig f = Some m"
  using assms by (auto simp: intact_def snapshot_of_def from_mapping_document)

lemma file_change_spares:
  assumes "file_change host alive p fs fs'" "fs_file fs = Some f" "lf_creator f \<noteq> p" "host (lf_creator f) \<in> alive"
  shows "fs_file fs' = Some f"
  using assms by (induction rule: file_change.induct) (auto simp: file_ops dead_file_def)

lemma owned_owns: "owned pc = Some m \<Longrightarrow> owns pc"
  by (cases pc) (auto split: snapshot_use.splits)

lemma release_others:
  assumes "file_change host alive p fs fs'" "pc_ok host alive fs q pc" "q \<noteq> p" "host q \<in> alive"
    "release_ok k fs pc"
  shows "release_ok k fs' pc"
proof (cases "owns pc")
  case True
  then obtain f where f: "fs_file fs = Some f" "lf_creator f = q" using assms(2) by auto
  have "fs_file fs' = Some f" by (rule file_change_spares [OF assms(1) f(1)]) (use f assms in auto)
  with f assms(5) show ?thesis by (simp add: release_ok_def intact_def)
next
  case False
  then have "owned pc = None" "\<And>m. pc \<noteq> Writing m" using owned_owns by (cases "owned pc"; auto)+
  with assms(5) show ?thesis by (simp add: release_ok_def)
qed

lemma release_own:
  assumes "pc_ok host alive fs p (lo_pc l)" "release_ok k fs (lo_pc l)" "lock_next k p env l fs = (l', fs')"
    "writes_valid k (en_pid env)" "length (en_token env) = 32" "showable (at_utc (en_now env))"
  shows "release_ok k fs' (lo_pc l')"
proof (cases "lo_pc l")
  case Creating
  then show ?thesis using assms fresh_valid [OF assms(4-6)]
    by (auto simp: lock_next_def create_exclusive_def release_ok_def create_file_def split: option.splits if_splits)
next
  case (Writing m)
  then show ?thesis using assms
    by (auto simp: lock_next_def write_metadata_def write_file_def release_ok_def intact_def
        split: write_result.splits)
next
  case (Stating use)
  then show ?thesis using assms
    by (cases use) (auto simp: lock_next_def stat_snapshot_def release_ok_def intact_def split: option.splits if_splits)
next
  case (Opening use sig)
  then show ?thesis using assms
    by (cases use) (auto simp: lock_next_def open_snapshot_def release_ok_def split: option.splits if_splits
        dest: intact_snapshot)
next
  case (Checking use m sig)
  then show ?thesis using assms
    by (cases use) (auto simp: lock_next_def check_unchanged_def release_ok_def intact_def split: option.splits if_splits)
next
  case (Unlinking use m)
  then show ?thesis using assms
    by (cases use) (auto simp: lock_next_def remove_unchanged_def release_ok_def intact_def split: option.splits if_splits)
qed (use assms in \<open>auto simp: lock_next_def begin_acquire_def discard_file_def wait_or_give_up_def release_ok_def
    intact_def split: if_splits\<close>)

definition releases_ok :: "(nat \<Rightarrow> lock_params) \<Rightarrow> (nat \<Rightarrow> nat) \<Rightarrow> lock_system \<Rightarrow> bool" where
  "releases_ok ks host sy \<longleftrightarrow> showable (at_utc (sy_now sy)) \<and>
     (\<forall>p. host p \<in> sy_alive sy \<longrightarrow> release_ok (ks p) (sy_fs sy) (lo_pc (sy_locks sy p)))"

lemma lock_step_releases:
  assumes "lock_step crashes atomic ks host sy sy'" "locks_ok crashes host sy" "releases_ok ks host sy"
    "\<forall>p. writes_valid (ks p) (host p)"
  shows "releases_ok ks host sy'"
  using assms
proof (induction rule: lock_step.induct)
  case (move sy p token w)
  obtain l fs' where step: "lock_next (ks p) p (env_of host sy p token w) (sy_locks sy p) (sy_fs sy) = (l, fs')"
    by fastforce
  have ok: "pc_ok host (sy_alive sy) (sy_fs sy) q (lo_pc (sy_locks sy q))"
    "release_ok (ks q) (sy_fs sy) (lo_pc (sy_locks sy q))" if "host q \<in> sy_alive sy" for q
    using move that by (auto simp: locks_ok_def releases_ok_def simp del: pc_ok.simps)
  have alive: "host p \<in> sy_alive sy" using move by (simp add: may_move_def)
  have change: "file_change host (sy_alive sy) p (sy_fs sy) fs'"
    using next_own [OF _ ok(1) [OF alive] alive _ _ step] move by (simp add: locks_ok_def env_of_def)
  have "release_ok (ks p) fs' (lo_pc l)"
    using release_own [OF ok [OF alive] step] move by (simp add: env_of_def releases_ok_def)
  moreover have "release_ok (ks q) fs' (lo_pc (sy_locks sy q))" if "q \<noteq> p" "host q \<in> sy_alive sy" for q
    by (rule release_others [OF change ok(1) [OF that(2)] that ok(2) [OF that(2)]])
  ultimately show ?case using step move(4) by (auto simp: releases_ok_def moved_lock_def)
qed (auto simp: releases_ok_def)

lemma lock_reachable_releases:
  assumes "lock_reachable crashes atomic ks host alive sy" "\<not> crashes \<or> atomic" "range host \<subseteq> alive"
    "\<forall>p. writes_valid (ks p) (host p)"
  shows "releases_ok ks host sy"
proof -
  have "(lock_step crashes atomic ks host)\<^sup>*\<^sup>* (no_locks alive) sy"
    using assms(1) by (simp add: lock_reachable_def)
  then show ?thesis
  proof induction
    case base
    show ?case by (simp add: releases_ok_def no_locks_def release_ok_def showable_def wall_clock_def)
  next
    case (step sy1 sy2)
    then have "lock_reachable crashes atomic ks host alive sy1" by (simp add: lock_reachable_def)
    from lock_step_releases [OF step(2) lock_reachable_ok [OF this assms(2,3)] step(3) assms(4)]
    show ?case .
  qed
qed

section \<open>Bounded waiting\<close>

text \<open>The file system calls that are left, at most, when the deadline has passed.\<close>

fun calls_left :: "lock_pc \<Rightarrow> nat" where
  "calls_left Creating = 9"
| "calls_left Probing = 8"
| "calls_left (Stating For_inspection) = 7"
| "calls_left (Opening For_inspection _) = 6"
| "calls_left (Stating (For_recovery _)) = 5"
| "calls_left (Opening (For_recovery _) _) = 4"
| "calls_left (Checking (For_recovery _) _ _) = 3"
| "calls_left (Unlinking (For_recovery _) _) = 2"
| "calls_left (Writing _) = 2"
| "calls_left Discarding = 1"
| "calls_left (Waiting _) = 1"
| "calls_left _ = 0"

fun acquire_ended :: "lock_pc \<Rightarrow> bool" where
  "acquire_ended (Held _) = True"
| "acquire_ended (Stopped_with _) = True"
| "acquire_ended _ = False"

text \<open>\<open>own_run\<close> are the states of one object that finds an arbitrary file system at each of its calls.\<close>

fun own_run :: "lock_params \<Rightarrow> nat \<Rightarrow> lock_local \<Rightarrow> (lock_env \<times> lock_fs) list \<Rightarrow> lock_local list" where
  "own_run k p l [] = [l]"
| "own_run k p l ((env, fs) # es) = l # own_run k p (fst (lock_next k p env l fs)) es"

definition ended_or_reclaimed :: "lock_local \<Rightarrow> bool" where
  "ended_or_reclaimed l \<longleftrightarrow> acquire_ended (lo_pc l) \<or> lo_recovered l \<noteq> None"

lemma next_progress:
  assumes "0 < calls_left (lo_pc l)" "lo_deadline l \<le> en_monotonic env" "lo_recovered l = None"
    "lock_next k p env l fs = (l', fs')"
  shows "ended_or_reclaimed l' \<or>
    0 < calls_left (lo_pc l') \<and> calls_left (lo_pc l') < calls_left (lo_pc l) \<and>
    lo_deadline l' = lo_deadline l \<and> lo_recovered l' = None"
  using assms
  by (cases "lo_pc l" rule: calls_left.cases)
    (auto simp: lock_next_def create_exclusive_def write_metadata_def discard_file_def stat_snapshot_def
      open_snapshot_def check_unchanged_def remove_unchanged_def wait_or_give_up_def ended_or_reclaimed_def
      split: option.splits if_splits write_result.splits)

lemma own_run_ends:
  assumes "0 < calls_left (lo_pc l)" "calls_left (lo_pc l) \<le> length es" "lo_recovered l = None"
    "\<forall>(env, fs) \<in> set es. lo_deadline l \<le> en_monotonic env"
  shows "\<exists>l' \<in> set (own_run k p l es). ended_or_reclaimed l'"
  using assms
proof (induction es arbitrary: l)
  case (Cons x es)
  obtain env fs where x: "x = (env, fs)" by fastforce
  obtain l' fs' where step: "lock_next k p env l fs = (l', fs')" by fastforce
  from next_progress [OF Cons.prems(1) _ Cons.prems(3) step] Cons.prems(4) x
  consider "ended_or_reclaimed l'"
    | "0 < calls_left (lo_pc l')" "calls_left (lo_pc l') < calls_left (lo_pc l)"
      "lo_deadline l' = lo_deadline l" "lo_recovered l' = None" by auto
  then show ?case
  proof cases
    case 1
    then show ?thesis using x step by (cases es) auto
  next
    case 2
    then have "\<exists>l' \<in> set (own_run k p l' es). ended_or_reclaimed l'"
      using Cons.IH [of l'] Cons.prems by auto
    then show ?thesis using x step by auto
  qed
qed simp

end
