(* ===== verification/LockProperties.thy ===== *)
theory LockProperties
  imports LockSafety
begin

text \<open>
  The properties of the project locks: mutual exclusion, where it holds and where it does not, that
  a rightful owner can always release, that \<open>acquire\<close> does not wait past its deadline, and that the
  metadata survives the file.
\<close>

section \<open>Sample locks\<close>

text \<open>Three lock objects in three processes; times are written in decimal.\<close>

definition sample_lock :: "nat \<Rightarrow> lock_params" where
  "sample_lock p =
     \<lparr>lk_project = ''hub'', lk_task = ''TASK-1'', lk_wait = 0, lk_poll = 1, lk_stale_after = 10,
      lk_parse = (\<lambda>s. map_option int (nat_of_literal s)), lk_format = (\<lambda>t. show_nat (nat t))\<rparr>"

definition sample_token :: string where
  "sample_token = replicate 32 (CHR ''a'')"

datatype lock_event = Move nat | Die nat | Wait_until int

fun lock_event_step :: "(nat \<Rightarrow> lock_params) \<Rightarrow> lock_event \<Rightarrow> lock_system \<Rightarrow> lock_system" where
  "lock_event_step ks (Move p) sy = moved_lock ks Suc p sample_token Written sy"
| "lock_event_step ks (Die pid) sy = sy\<lparr>sy_alive := sy_alive sy - {pid}\<rparr>"
| "lock_event_step ks (Wait_until t) sy = sy\<lparr>sy_now := t, sy_monotonic := t\<rparr>"

fun possible :: "lock_event \<Rightarrow> lock_system \<Rightarrow> bool" where
  "possible (Move p) sy \<longleftrightarrow> Suc p \<in> sy_alive sy"
| "possible (Die pid) sy \<longleftrightarrow> True"
| "possible (Wait_until t) sy \<longleftrightarrow> sy_monotonic sy \<le> t \<and> showable (at_utc t)"

fun replay_locks :: "(nat \<Rightarrow> lock_params) \<Rightarrow> lock_event list \<Rightarrow> lock_system \<Rightarrow> lock_system option" where
  "replay_locks ks [] sy = Some sy"
| "replay_locks ks (e # es) sy = (if possible e sy then replay_locks ks es (lock_event_step ks e sy) else None)"

definition race :: "lock_event list" where
  "race =
     replicate 3 (Move 0) @ [Die 1, Wait_until 100] @ replicate 8 (Move 1) @ replicate 11 (Move 2) @
     replicate 3 (Move 1)"

fun is_held :: "lock_pc \<Rightarrow> bool" where
  "is_held (Held m) = True"
| "is_held _ = False"

fun live_holders :: "nat list \<Rightarrow> lock_system option \<Rightarrow> nat list" where
  "live_holders ps None = []"
| "live_holders ps (Some sy) = filter (\<lambda>p. Suc p \<in> sy_alive sy \<and> is_held (lo_pc (sy_locks sy p))) ps"

lemma holds_lock_Suc:
  "holds_lock Suc sy p \<longleftrightarrow> Suc p \<in> sy_alive sy \<and> is_held (lo_pc (sy_locks sy p))"
  by (cases "lo_pc (sy_locks sy p)") (auto simp: holds_lock_def)

lemma replay_locks_reachable:
  assumes "lock_reachable True False ks Suc alive sy" "replay_locks ks es sy = Some sy'"
  shows "lock_reachable True False ks Suc alive sy'"
  using assms
proof (induction es arbitrary: sy)
  case (Cons e es)
  have "lock_step True False ks Suc sy (lock_event_step ks e sy)" if "possible e sy"
    using that by (cases e)
      (auto simp: may_move_def sample_token_def intro!: lock_step.move lock_step.tick lock_step.crash)
  with Cons.prems have "lock_reachable True False ks Suc alive (lock_event_step ks e sy)"
    by (auto simp: lock_reachable_def split: if_splits)
  with Cons show ?case by (auto split: if_splits)
qed simp

lemma race_result:
  "live_holders [0, 1, 2] (replay_locks sample_lock race (no_locks {1, 2, 3})) = [1, 2]"
  by code_simp

section \<open>Mutual exclusion\<close>

text \<open>C22: Mutual exclusion of the project locks: at most one lock object of a live process holds the lock of
  a project, however many objects and processes compete and however their file system calls
  interleave, as long as no process dies, or (with processes dying at any moment) the check and the
  removal of \<open>_remove_unchanged\<close> are not separated by a move of another object.\<close>

theorem lock_exclusive:
  assumes "lock_reachable crashes atomic ks host alive sy" "range host \<subseteq> alive" "\<not> crashes \<or> atomic"
    "holds_lock host sy p" "holds_lock host sy q"
  shows "p = q"
proof -
  note own = holders_own [OF lock_reachable_ok [OF assms(1,3,2)]]
  from own [OF assms(4)] own [OF assms(5)] show ?thesis by auto
qed

lemma sample_solo:
  "lock_reachable False True sample_lock Suc UNIV (((moved_lock sample_lock Suc 0 sample_token Written) ^^ 3) (no_locks UNIV))"
proof -
  have step: "lock_step False True sample_lock Suc sy (moved_lock sample_lock Suc 0 sample_token Written sy)"
    if "may_move True Suc sy 0" for sy
    using that by (rule lock_step.move) (simp add: sample_token_def)
  let ?m = "moved_lock sample_lock Suc 0 sample_token Written"
  have stay: "may_move True Suc ((?m ^^ n) (no_locks UNIV)) 0" for n
  proof (induction n)
    case 0
    show ?case by (simp add: may_move_def no_locks_def)
  next
    case (Suc n)
    then show ?case by (auto simp: may_move_def moved_lock_def split: prod.splits)
  qed
  have "lock_reachable False True sample_lock Suc UNIV ((?m ^^ n) (no_locks UNIV))" for n
  proof (induction n)
    case 0
    show ?case by (simp add: lock_reachable_def)
  next
    case (Suc n)
    with step [OF stay] show ?case by (auto simp: lock_reachable_def intro: rtranclp.rtrancl_into_rtrancl)
  qed
  then show ?thesis .
qed

lemma sample_solo_holds:
  "holds_lock Suc (((moved_lock sample_lock Suc 0 sample_token Written) ^^ 3) (no_locks UNIV)) 0"
proof -
  have "is_held (lo_pc (sy_locks (((moved_lock sample_lock Suc 0 sample_token Written) ^^ 3) (no_locks UNIV)) 0))"
    by (simp add: numeral_3_eq_3 moved_lock_def lock_next_def no_locks_def begin_acquire_def create_exclusive_def
        create_file_def write_metadata_def env_of_def)
  moreover have "sy_alive (((moved_lock sample_lock Suc 0 sample_token Written) ^^ 3) (no_locks UNIV)) = UNIV"
    by (simp add: numeral_3_eq_3 moved_lock_def no_locks_def split: prod.splits)
  ultimately show ?thesis by (simp add: holds_lock_Suc)
qed

theorem lock_exclusive_witness:
  "\<exists>sy. lock_reachable False True sample_lock Suc UNIV sy \<and> holds_lock Suc sy 0 \<and>
     (\<forall>q. holds_lock Suc sy q \<longrightarrow> q = 0)"
  using lock_exclusive [OF sample_solo _ _ sample_solo_holds] sample_solo sample_solo_holds by blast


section \<open>Release\<close>

text \<open>A rightful owner can always release: in a system as above, whose locks are constructed with valid
  names, a positive process identifier and a clock whose time stamps can be read back, no lock object
  of a live process ever fails with \<open>LockOwnershipError\<close>, and the file of a lock that is held is
  there, readable, and carries the metadata of its holder.\<close>

theorem owner_can_release:
  assumes "lock_reachable crashes atomic ks host alive sy" "range host \<subseteq> alive" "\<not> crashes \<or> atomic"
    "\<forall>p. writes_valid (ks p) (host p)" "host p \<in> sy_alive sy"
  shows "lo_pc (sy_locks sy p) \<noteq> Stopped_with LockOwnershipError \<and>
    (lo_pc (sy_locks sy p) = Held m \<longrightarrow>
       (\<exists>f. fs_file (sy_fs sy) = Some f \<and> lf_creator f = p \<and> snapshot_of (ks p) (lf_sig f) f = Some m))"
proof -
  have rel: "release_ok (ks p) (sy_fs sy) (lo_pc (sy_locks sy p))"
    using lock_reachable_releases [OF assms(1,3,2,4)] assms(5) by (simp add: releases_ok_def)
  moreover have "\<exists>f. fs_file (sy_fs sy) = Some f \<and> lf_creator f = p \<and> snapshot_of (ks p) (lf_sig f) f = Some m"
    if "lo_pc (sy_locks sy p) = Held m"
  proof -
    have "holds_lock host sy p" using that assms(5) by (simp add: holds_lock_def)
    from holders_own [OF lock_reachable_ok [OF assms(1,3,2)] this]
    obtain f where f: "fs_file (sy_fs sy) = Some f" "lf_creator f = p" by blast
    moreover have "snapshot_of (ks p) (lf_sig f) f = Some m"
      using rel that f by (auto simp: release_ok_def intact_def snapshot_of_def from_mapping_document)
    ultimately show ?thesis by blast
  qed
  ultimately show ?thesis by (simp add: release_ok_def)
qed

lemma sample_lock_valid: "writes_valid (sample_lock p) (Suc p)"
  by (simp add: writes_valid_def new_lock_def sample_lock_def is_lock_id_char_def char_class_defs in_range_def)

theorem owner_can_release_witness:
  "\<exists>sy f m. lock_reachable False True sample_lock Suc UNIV sy \<and> lo_pc (sy_locks sy 0) = Held m \<and>
     fs_file (sy_fs sy) = Some f \<and> lf_creator f = 0 \<and> snapshot_of (sample_lock 0) (lf_sig f) f = Some m"
proof -
  let ?sy = "((moved_lock sample_lock Suc 0 sample_token Written) ^^ 3) (no_locks UNIV)"
  obtain m where m: "lo_pc (sy_locks ?sy 0) = Held m" "Suc 0 \<in> sy_alive ?sy"
    using sample_solo_holds unfolding holds_lock_def by blast
  from owner_can_release [OF sample_solo _ _ _ m(2), of m] sample_lock_valid m(1) sample_solo
  show ?thesis by blast
qed

section \<open>Bounded waiting and metadata\<close>

text \<open>C38: \<open>acquire\<close> does not wait past its deadline: once the deadline has passed it ends within nine file
  system calls of its own, whatever the others do to the file between them, unless it has just
  reclaimed a stale lock and tries again.\<close>

theorem acquire_bounded:
  assumes "lo_pc l = Creating" "lo_recovered l = None" "9 \<le> length es"
    "\<forall>(env, fs) \<in> set es. lo_deadline l \<le> en_monotonic env"
  shows "\<exists>l' \<in> set (own_run k p l es). acquire_ended (lo_pc l') \<or> lo_recovered l' \<noteq> None"
  using own_run_ends [of l es k p] assms by (simp add: ended_or_reclaimed_def)

theorem acquire_bounded_witness:
  "\<exists>l' \<in> set (own_run (sample_lock 0) 0 \<lparr>lo_pc = Creating, lo_deadline = 5, lo_recovered = None\<rparr>
       (replicate 9 (\<lparr>en_pid = 1, en_now = 7, en_monotonic = 7, en_kill = signal {1, 2}, en_token = sample_token,
          en_write = Written\<rparr>, create_file 2 \<lparr>fs_file = None, fs_next = 0\<rparr>))).
     acquire_ended (lo_pc l') \<or> lo_recovered l' \<noteq> None"
  by (rule acquire_bounded) auto

text \<open>The metadata of a lock written to its file is read back as it was.\<close>

lemma lock_metadata_round_trip:
  assumes "writes_valid k pid" "length token = 32" "showable (at_utc now)"
  shows "from_mapping (lk_parse k) (metadata_document (fresh_metadata k pid now token)) =
    Some (fresh_metadata k pid now token)"
  using fresh_valid [OF assms] by (simp add: from_mapping_document)

end
