(* ===== verification/PyText.thy ===== *)
theory PyText
  imports Paths
begin

text \<open>
  The methods of \<open>str\<close> that the interfaces use, and the part of \<open>re\<close> behind the redaction patterns:
  regular expressions with the backtracking order of the matcher (the first result is the match that
  \<open>re\<close> finds), captured groups, and \<open>sub\<close>. Strings are ASCII, as in the rest of the development.
\<close>

section \<open>Strings\<close>

text \<open>\<open>str.isspace\<close> and \<open>\s\<close> also cover the four separators 0x1C to 0x1F.\<close>

definition is_py_space :: "char \<Rightarrow> bool" where
  "is_py_space c \<longleftrightarrow> is_space c \<or> in_range (CHR 0x1C) (CHR 0x1F) c"

definition py_lstrip :: "string \<Rightarrow> string" where
  "py_lstrip s = dropWhile is_py_space s"

definition py_rstrip :: "string \<Rightarrow> string" where
  "py_rstrip s = rev (dropWhile is_py_space (rev s))"

definition py_strip :: "string \<Rightarrow> string" where
  "py_strip s = py_rstrip (py_lstrip s)"

definition char_upper :: "char \<Rightarrow> char" where
  "char_upper c = (if is_lower c then char_of (of_char c - (32::nat)) else c)"

definition upper :: "string \<Rightarrow> string" where
  "upper s = map char_upper s"

definition remove_prefix :: "string \<Rightarrow> string \<Rightarrow> string" where
  "remove_prefix prefix s = (if startswith prefix s then drop (length prefix) s else s)"

text \<open>\<open>s.partition(c)\<close> for one character: the text before, whether it was found, the text after.\<close>

definition partition_char :: "char \<Rightarrow> string \<Rightarrow> string \<times> bool \<times> string" where
  "partition_char c s =
     (case dropWhile (\<lambda>d. d \<noteq> c) s of
        [] \<Rightarrow> (s, False, [])
      | _ # rest \<Rightarrow> (takeWhile (\<lambda>d. d \<noteq> c) s, True, rest))"

text \<open>\<open>s.split(maxsplit=1)\<close>: the rest keeps its trailing blanks.\<close>

definition split_once :: "string \<Rightarrow> string list" where
  "split_once s =
     (let t = py_lstrip s;
          word = takeWhile (\<lambda>c. \<not> is_py_space c) t;
          rest = py_lstrip (dropWhile (\<lambda>c. \<not> is_py_space c) t)
      in if t = [] then [] else if rest = [] then [word] else [word, rest])"

section \<open>Regular expressions\<close>

datatype rx =
    Chars "char \<Rightarrow> bool"
  | Word_edge
  | Cat rx rx
  | Alt rx rx
  | Many rx
  | Few rx
  | Group rx
  | Same_as_group

text \<open>
  The state of the matcher: the character before the position, the rest of the text, and the texts
  of the groups that were closed, the latest first.
\<close>

record rx_state =
  rx_prev :: "char option"
  rx_rest :: string
  rx_groups :: "string list"

definition is_word :: "char \<Rightarrow> bool" where
  "is_word c \<longleftrightarrow> is_alnum c \<or> c = CHR ''_''"

definition at_word_edge :: "rx_state \<Rightarrow> bool" where
  "at_word_edge st \<longleftrightarrow>
     (case rx_prev st of None \<Rightarrow> False | Some c \<Rightarrow> is_word c) \<noteq>
     (case rx_rest st of [] \<Rightarrow> False | c # _ \<Rightarrow> is_word c)"

definition take_char :: "(char \<Rightarrow> bool) \<Rightarrow> rx_state \<Rightarrow> rx_state list" where
  "take_char P st =
     (case rx_rest st of
        [] \<Rightarrow> []
      | c # cs \<Rightarrow> if P c then [st\<lparr>rx_prev := Some c, rx_rest := cs\<rparr>] else [])"

text \<open>Repetition: more first (\<open>*\<close>), or fewer first (\<open>*?\<close>); every round consumes something.\<close>

fun repeat_more :: "(rx_state \<Rightarrow> rx_state list) \<Rightarrow> nat \<Rightarrow> rx_state \<Rightarrow> rx_state list" where
  "repeat_more f 0 st = [st]"
| "repeat_more f (Suc n) st =
     concat (map (repeat_more f n) (filter (\<lambda>u. length (rx_rest u) < length (rx_rest st)) (f st))) @ [st]"

fun repeat_less :: "(rx_state \<Rightarrow> rx_state list) \<Rightarrow> nat \<Rightarrow> rx_state \<Rightarrow> rx_state list" where
  "repeat_less f 0 st = [st]"
| "repeat_less f (Suc n) st =
     st # concat (map (repeat_less f n) (filter (\<lambda>u. length (rx_rest u) < length (rx_rest st)) (f st)))"

text \<open>A back reference: the text of the latest group again.\<close>

fun take_text :: "string \<Rightarrow> rx_state \<Rightarrow> rx_state list" where
  "take_text [] st = [st]"
| "take_text (c # cs) st = concat (map (take_text cs) (take_char (\<lambda>d. d = c) st))"

fun matches :: "rx \<Rightarrow> rx_state \<Rightarrow> rx_state list" where
  "matches (Chars P) st = take_char P st"
| "matches Word_edge st = (if at_word_edge st then [st] else [])"
| "matches (Cat a b) st = concat (map (matches b) (matches a st))"
| "matches (Alt a b) st = matches a st @ matches b st"
| "matches (Many a) st = repeat_more (matches a) (length (rx_rest st)) st"
| "matches (Few a) st = repeat_less (matches a) (length (rx_rest st)) st"
| "matches (Group a) st =
     map (\<lambda>u. u\<lparr>rx_groups := take (length (rx_rest st) - length (rx_rest u)) (rx_rest st) # rx_groups u\<rparr>)
       (matches a st)"
| "matches Same_as_group st = (case rx_groups st of [] \<Rightarrow> [] | t # _ \<Rightarrow> take_text t st)"

text \<open>
  \<open>pattern.sub(replacement, text)\<close>: the leftmost match, then on from its end; \<open>replacement\<close> gets the
  groups in their order. The patterns here match no empty text.
\<close>

function rx_sub :: "rx \<Rightarrow> (string list \<Rightarrow> string) \<Rightarrow> char option \<Rightarrow> string \<Rightarrow> string" where
  "rx_sub r replacement prev [] = []"
| "rx_sub r replacement prev (c # cs) =
     (case matches r \<lparr>rx_prev = prev, rx_rest = c # cs, rx_groups = []\<rparr> of
        [] \<Rightarrow> c # rx_sub r replacement (Some c) cs
      | u # _ \<Rightarrow>
          if length (rx_rest u) \<le> length cs
          then replacement (rev (rx_groups u)) @ rx_sub r replacement (rx_prev u) (rx_rest u)
          else c # rx_sub r replacement (Some c) cs)"
  by pat_completeness auto
termination
  by (relation "measure (\<lambda>(r, f, p, s). length s)") auto

declare rx_sub.simps(2) [simp del]

definition sub_all :: "rx \<Rightarrow> (string list \<Rightarrow> string) \<Rightarrow> string \<Rightarrow> string" where
  "sub_all r replacement s = rx_sub r replacement None s"

subsection \<open>Building expressions\<close>

definition exact_char :: "char \<Rightarrow> rx" where "exact_char c = Chars (\<lambda>d. d = c)"

text \<open>A letter of a pattern that ignores case.\<close>

definition any_case :: "char \<Rightarrow> rx" where "any_case c = Chars (\<lambda>d. char_lower d = char_lower c)"

fun text_of :: "(char \<Rightarrow> rx) \<Rightarrow> string \<Rightarrow> rx" where
  "text_of f [] = Chars (\<lambda>_. False)"
| "text_of f [c] = f c"
| "text_of f (c # cs) = Cat (f c) (text_of f cs)"

fun one_of :: "rx list \<Rightarrow> rx" where
  "one_of [] = Chars (\<lambda>_. False)"
| "one_of [a] = a"
| "one_of (a # as) = Alt a (one_of as)"

fun seq :: "rx list \<Rightarrow> rx" where
  "seq [] = Many (Chars (\<lambda>_. False))"
| "seq [a] = a"
| "seq (a # as) = Cat a (seq as)"

text \<open>\<open>a?\<close>, \<open>a{n,}\<close> and \<open>a+\<close>.\<close>

definition maybe :: "rx \<Rightarrow> rx" where "maybe a = Alt a (seq [])"

definition at_least :: "nat \<Rightarrow> rx \<Rightarrow> rx" where "at_least n a = seq (replicate n a @ [Many a])"

end
