(* ===== verification/Redaction.thy ===== *)
theory Redaction
  imports PyText Json
begin

text \<open>
  \<open>gateway/security.py\<close> (the redaction of what leaves through an interface) and
  \<open>observability/redaction.py\<close> (the redaction of logs and read projections).
\<close>

section \<open>Patterns of \<open>gateway/security.py\<close>\<close>

definition blank :: rx where "blank = Chars is_py_space"

definition separator_char :: rx where "separator_char = Chars (\<lambda>c. c = CHR ''_'' \<or> c = CHR ''-'')"

text \<open>The case-insensitive word in which a \<open>~\<close> stands for \<open>[_-]?\<close>.\<close>

definition name_char :: "char \<Rightarrow> rx" where
  "name_char c = (if c = CHR ''~'' then maybe separator_char else any_case c)"

definition value_char :: rx where
  "value_char = Chars (\<lambda>c. \<not> (is_py_space c \<or> c = CHR '','' \<or> c = CHR '';''))"

definition assignment :: rx where
  "assignment = seq [Many blank, Chars (\<lambda>c. c = CHR '':'' \<or> c = CHR ''=''), Many blank]"

definition NAMED_SECRET :: rx where
  "NAMED_SECRET =
     seq [Word_edge,
          Group (one_of (map (text_of name_char)
            [''api~key'', ''authorization'', ''client~secret'', ''password'', ''private~key'',
             ''refresh~token'', ''secret'', ''signing~secret'', ''token''])),
          Word_edge, Group assignment, Group (at_least 1 value_char)]"

definition is_bearer_char :: "char \<Rightarrow> bool" where
  "is_bearer_char c \<longleftrightarrow> is_alnum c \<or> c \<in> set ''._~+/=-''"

definition BEARER_SECRET :: rx where
  "BEARER_SECRET =
     seq [Word_edge, text_of any_case ''bearer'', at_least 1 blank, at_least 1 (Chars is_bearer_char)]"

definition is_dashed :: "char \<Rightarrow> bool" where
  "is_dashed c \<longleftrightarrow> is_alnum c \<or> c = CHR ''-''"

definition is_token_char :: "char \<Rightarrow> bool" where
  "is_token_char c \<longleftrightarrow> is_alnum c \<or> c = CHR ''_'' \<or> c = CHR ''-''"

definition SLACK_TOKEN :: rx where
  "SLACK_TOKEN =
     seq [Word_edge, text_of any_case ''xox'', Chars (\<lambda>c. is_lower (char_lower c)), exact_char (CHR ''-''),
          at_least 8 (Chars is_dashed), Word_edge]"

definition OPENAI_TOKEN :: rx where
  "OPENAI_TOKEN =
     seq [Word_edge, text_of exact_char ''sk-'', at_least 12 (Chars is_token_char), Word_edge]"

definition GITHUB_TOKEN :: rx where
  "GITHUB_TOKEN =
     seq [Word_edge,
          one_of [seq [text_of exact_char ''gh'', Chars (\<lambda>c. c \<in> set ''pousr''), exact_char (CHR ''_''),
                       at_least 20 (Chars is_alnum)],
                  seq [text_of exact_char ''github_pat_'',
                       at_least 20 (Chars (\<lambda>c. is_alnum c \<or> c = CHR ''_''))]],
          Word_edge]"

definition PEM_PRIVATE_KEY :: rx where
  "PEM_PRIVATE_KEY =
     seq [text_of exact_char ''-----BEGIN '',
          Group (seq [Many (Chars (\<lambda>c. is_upper c \<or> is_digit c \<or> c = CHR '' '')), text_of exact_char ''PRIVATE KEY'']),
          text_of exact_char ''-----'', Few (Chars (\<lambda>_. True)),
          text_of exact_char ''-----END '', Same_as_group, text_of exact_char ''-----'']"

definition REDACTED :: string where "REDACTED = ''[REDACTED]''"

text \<open>The replacement that keeps the first \<open>n\<close> groups.\<close>

definition keep_groups :: "nat \<Rightarrow> string list \<Rightarrow> string" where
  "keep_groups n groups = concat (take n groups) @ REDACTED"

definition redact_credentials :: "string \<Rightarrow> string" where
  "redact_credentials value =
     (let redacted = sub_all PEM_PRIVATE_KEY (\<lambda>_. REDACTED) value;
          redacted = sub_all BEARER_SECRET (\<lambda>_. ''Bearer '' @ REDACTED) redacted;
          redacted = sub_all SLACK_TOKEN (\<lambda>_. REDACTED) redacted;
          redacted = sub_all OPENAI_TOKEN (\<lambda>_. REDACTED) redacted;
          redacted = sub_all GITHUB_TOKEN (\<lambda>_. REDACTED) redacted
      in sub_all NAMED_SECRET (keep_groups 2) redacted)"

text \<open>The ellipsis is one character, written 0x85 here.\<close>

definition truncation_mark :: string where "truncation_mark = CHR 0x85 # '' [truncated]''"

definition redact_sensitive_text :: "nat \<Rightarrow> string \<Rightarrow> string" where
  "redact_sensitive_text max_length value =
     (let redacted = redact_credentials value in
      if max_length < length redacted
      then py_rstrip (take (max_length - 14) redacted) @ truncation_mark
      else redacted)"

definition contains_sensitive_material :: "string \<Rightarrow> bool" where
  "contains_sensitive_material value \<longleftrightarrow>
     redact_sensitive_text (max (length value) 14) value \<noteq> value"

section \<open>\<open>observability/redaction.py\<close>\<close>

definition SECRET_KEYS :: "string list" where
  "SECRET_KEYS =
     [''access_token'', ''api_key'', ''apikey'', ''authorization'', ''authorization_header'',
      ''client_secret'', ''cookie'', ''credentials'', ''github_token'', ''openai_api_key'', ''password'',
      ''private_key'', ''refresh_token'', ''secret'', ''signing_secret'', ''slack_app_token'',
      ''slack_bot_token'', ''token'']"

definition SECRET_SUFFIXES :: "string list" where
  "SECRET_SUFFIXES = [''_password'', ''_secret'', ''_token'', ''_api_key'', ''_private_key'']"

definition is_secret_key :: "string \<Rightarrow> bool" where
  "is_secret_key key \<longleftrightarrow>
     normalized_key key \<in> set SECRET_KEYS \<or> list_ex (\<lambda>suffix. endswith suffix (normalized_key key)) SECRET_SUFFIXES"

definition LOG_SLACK_TOKEN :: rx where
  "LOG_SLACK_TOKEN =
     seq [Word_edge,
          one_of [seq [text_of exact_char ''xox'', Chars (\<lambda>c. c \<in> set ''baprs''), exact_char (CHR ''-'')],
                  text_of exact_char ''xapp-''],
          at_least 1 (Chars is_dashed), Word_edge]"

definition LOG_OPENAI_TOKEN :: rx where
  "LOG_OPENAI_TOKEN =
     seq [Word_edge, text_of exact_char ''sk-'', at_least 8 (Chars is_token_char), Word_edge]"

definition LOG_NAMED_SECRET :: rx where
  "LOG_NAMED_SECRET =
     seq [Word_edge,
          Group (seq [one_of
            (seq [Many (seq [at_least 1 (Chars (\<lambda>c. is_lower (char_lower c) \<or> is_digit c)), separator_char]),
                  text_of name_char ''api~key''] #
             map (text_of name_char)
               [''password'', ''client~secret'', ''access~token'', ''refresh~token'', ''authorization'']),
            assignment]),
          at_least 1 value_char]"

definition URL_CREDENTIALS :: rx where
  "URL_CREDENTIALS =
     seq [Group (seq [text_of any_case ''http'', maybe (any_case (CHR ''s'')), text_of exact_char ''://'']),
          at_least 1 (Chars (\<lambda>c. \<not> (c \<in> set '':/@'' \<or> is_py_space c))), exact_char (CHR '':''),
          at_least 1 (Chars (\<lambda>c. \<not> (c = CHR ''@'' \<or> is_py_space c))), exact_char (CHR ''@'')]"

definition redact_text :: "string \<Rightarrow> string" where
  "redact_text value =
     (let redacted = sub_all PEM_PRIVATE_KEY (\<lambda>_. REDACTED) value;
          redacted = sub_all LOG_SLACK_TOKEN (\<lambda>_. REDACTED) redacted;
          redacted = sub_all LOG_OPENAI_TOKEN (\<lambda>_. REDACTED) redacted;
          redacted = sub_all GITHUB_TOKEN (\<lambda>_. REDACTED) redacted;
          redacted = sub_all BEARER_SECRET (\<lambda>_. ''Bearer '' @ REDACTED) redacted;
          redacted = sub_all LOG_NAMED_SECRET (keep_groups 1) redacted
      in sub_all URL_CREDENTIALS (\<lambda>groups. keep_groups 1 groups @ ''@'') redacted)"

fun redact_secrets :: "json \<Rightarrow> json" where
  "redact_secrets (JObj doc) =
     JObj (map (\<lambda>(key, child). (key, if is_secret_key key then JStr REDACTED else redact_secrets child)) doc)"
| "redact_secrets (JArr vs) = JArr (map redact_secrets vs)"
| "redact_secrets (JStr s) = JStr (redact_text s)"
| "redact_secrets v = v"

end
