(* ===== verification/Slack.thy ===== *)
theory Slack
  imports Complex_Main Redaction Gateway
begin

text \<open>
  \<open>integrations/slack.py\<close>: routes and their stored form, the command parser, the message of a task
  update, the delivery with bounded retries over a receipt store, and the handling of an event. The
  Slack client is the port \<open>dl_send\<close>; \<open>float(text)\<close> and \<open>uuid5\<close> are ports too.
\<close>

section \<open>Models\<close>

text \<open>\<open>^[^\x00-\x1f\x7f]+$\<close>, at most 500 characters.\<close>

definition SafeLine :: constraint where
  "SafeLine = \<lparr>min_len = 1, max_len = 500,
               pattern = (\<lambda>s. s \<noteq> [] \<and> list_all (\<lambda>c. \<not> is_control c) s)\<rparr>"

definition DeliveryText :: constraint where
  "DeliveryText = \<lparr>min_len = 1, max_len = 20000, pattern = (\<lambda>_. True)\<rparr>"

record slack_route =
  sr_channel :: string
  sr_thread :: "string option"

definition SlackRoute_validate :: "slack_route \<Rightarrow> value_error + slack_route" where
  "SlackRoute_validate r =
     and_then (checked OpaqueId (sr_channel r)) (\<lambda>channel.
     and_then (checked_opt OpaqueId (sr_thread r)) (\<lambda>thread.
     Inr \<lparr>sr_channel = channel, sr_thread = thread\<rparr>))"

record delivery_request =
  dr_id :: string
  dr_route :: slack_route
  dr_text :: string

definition SlackDeliveryRequest_validate :: "delivery_request \<Rightarrow> value_error + delivery_request" where
  "SlackDeliveryRequest_validate r =
     and_then (checked OpaqueId (dr_id r)) (\<lambda>i.
     and_then (checked DeliveryText (dr_text r)) (\<lambda>text.
     Inr (r\<lparr>dr_id := i, dr_text := text\<rparr>)))"

definition client_message_id :: "(string \<Rightarrow> string) \<Rightarrow> delivery_request \<Rightarrow> string" where
  "client_message_id uuid5 r = uuid5 (''macmini-ai-hub:'' @ dr_id r)"

record lifecycle_update =
  lu_notification :: string
  lu_task :: string
  lu_status :: task_status
  lu_project :: string
  lu_team :: string
  lu_summary :: "string list"
  lu_changed_files :: "string list"
  lu_tests :: "string list"
  lu_runtime_outcome :: "string option"
  lu_branch :: "string option"
  lu_error :: "string option"

definition checked_lines :: "string list \<Rightarrow> value_error + string list" where
  "checked_lines xs =
     and_then (traverse (checked SafeLine) xs) (\<lambda>ys.
     and_then (require (length ys \<le> 20) InvalidField) (\<lambda>_. Inr ys))"

definition TaskLifecycleUpdate_validate :: "lifecycle_update \<Rightarrow> value_error + lifecycle_update" where
  "TaskLifecycleUpdate_validate u =
     and_then (checked OpaqueId (lu_notification u)) (\<lambda>n.
     and_then (checked TaskId (lu_task u)) (\<lambda>i.
     and_then (checked Identifier (lu_project u)) (\<lambda>proj.
     and_then (checked Identifier (lu_team u)) (\<lambda>team.
     and_then (checked_lines (lu_summary u)) (\<lambda>summary.
     and_then (checked_lines (lu_changed_files u)) (\<lambda>files.
     and_then (checked_lines (lu_tests u)) (\<lambda>tests.
     and_then (checked_opt SafeLine (lu_runtime_outcome u)) (\<lambda>outcome.
     and_then (checked_opt SafeLine (lu_branch u)) (\<lambda>branch.
     and_then (checked_opt SafeLine (lu_error u)) (\<lambda>err.
     Inr \<lparr>lu_notification = n, lu_task = i, lu_status = lu_status u, lu_project = proj, lu_team = team,
          lu_summary = summary, lu_changed_files = files, lu_tests = tests, lu_runtime_outcome = outcome,
          lu_branch = branch, lu_error = err\<rparr>))))))))))"

section \<open>Stored routes\<close>

text \<open>\<open>^[A-Za-z0-9][A-Za-z0-9._-]{0,99}$\<close>.\<close>

fun route_component :: "string \<Rightarrow> bool" where
  "route_component [] \<longleftrightarrow> False"
| "route_component (c # cs) \<longleftrightarrow>
     is_alnum c \<and> list_all (\<lambda>d. is_alnum d \<or> d \<in> {CHR ''.'', CHR ''_'', CHR ''-''}) cs \<and> length cs \<le> 99"

definition ROUTE_PREFIX :: string where "ROUTE_PREFIX = ''slack-v1:''"

definition NO_THREAD :: string where "NO_THREAD = ''_''"

definition encode_slack_route_target :: "slack_route \<Rightarrow> value_error + string" where
  "encode_slack_route_target route =
     (let components = (case sr_thread route of None \<Rightarrow> [sr_channel route] | Some t \<Rightarrow> [sr_channel route, t]) in
      if list_ex (\<lambda>c. \<not> route_component c \<or> redact_sensitive_text 4000 c \<noteq> c) components
      then Inl InvalidField
      else
        (let target = ROUTE_PREFIX @ sr_channel route @ '':'' @
           (case sr_thread route of None \<Rightarrow> NO_THREAD | Some t \<Rightarrow> if t = [] then NO_THREAD else t) in
         if 200 < length target then Inl InvalidField else Inr target))"

definition decode_slack_route_target :: "string \<Rightarrow> value_error + slack_route" where
  "decode_slack_route_target target =
     (if startswith ROUTE_PREFIX target then
        (case partition_char (CHR '':'') (remove_prefix ROUTE_PREFIX target) of (channel, found, thread) \<Rightarrow>
           if \<not> found \<or> \<not> route_component channel \<or> (thread \<noteq> NO_THREAD \<and> \<not> route_component thread)
           then Inl InvalidField
           else SlackRoute_validate
             \<lparr>sr_channel = channel, sr_thread = if thread = NO_THREAD then None else Some thread\<rparr>)
      else if startswith ''channel:'' target then
        SlackRoute_validate \<lparr>sr_channel = remove_prefix ''channel:'' target, sr_thread = None\<rparr>
      else SlackRoute_validate \<lparr>sr_channel = target, sr_thread = None\<rparr>)"

section \<open>Commands\<close>

fun command_value :: "gateway_command \<Rightarrow> string" where
  "command_value HELP = ''help''"
| "command_value DEV = ''dev''"
| "command_value STATUS = ''status''"
| "command_value TASK = ''task''"
| "command_value TASKS = ''tasks''"
| "command_value STOP = ''stop''"

definition command_of_value :: "string \<Rightarrow> gateway_command option" where
  "command_of_value s = find (\<lambda>c. command_value c = s) [HELP, DEV, STATUS, TASK, TASKS, STOP]"

datatype command_error =
    UnknownCommand
  | DevUsage
  | TaskUsage gateway_command
  | NoArguments gateway_command
  | InvalidText
  | MissingMetadata

text \<open>The text of a \<open>SlackCommandError\<close>.\<close>

fun command_error_text :: "command_error \<Rightarrow> string" where
  "command_error_text UnknownCommand = ''Unknown command. Use: help, dev, status, task, tasks, or stop.''"
| "command_error_text DevUsage = ''Usage: dev <project> <instruction>''"
| "command_error_text (TaskUsage c) = ''Usage: '' @ command_value c @ '' <TASK-ID>''"
| "command_error_text (NoArguments c) = command_value c @ '' does not accept arguments''"
| "command_error_text InvalidText = ''The command contains invalid identifiers or text.''"
| "command_error_text MissingMetadata = ''Slack event is missing delivery metadata.''"

text \<open>\<open>^<@[A-Z0-9]+>\s*\<close>, and the same with the identifier of the bot, both ignoring case.\<close>

definition strip_any_mention :: "string \<Rightarrow> string" where
  "strip_any_mention s =
     (let rest = drop 2 s in
      case dropWhile is_alnum rest of
        c # after \<Rightarrow>
          if startswith ''<@'' s \<and> takeWhile is_alnum rest \<noteq> [] \<and> c = CHR ''>'' then py_lstrip after else s
      | [] \<Rightarrow> s)"

definition strip_bot_mention :: "string \<Rightarrow> string \<Rightarrow> string" where
  "strip_bot_mention bot_id s =
     (let mention = ''<@'' @ bot_id @ ''>'' in
      if startswith (lower mention) (lower s) then py_lstrip (drop (length mention) s) else s)"

definition command_text :: "string option \<Rightarrow> string \<Rightarrow> string" where
  "command_text bot_id text =
     (let cleaned = (case bot_id of None \<Rightarrow> strip_any_mention (py_strip text)
                               | Some b \<Rightarrow> strip_bot_mention b (py_strip text))
      in if cleaned = [] then ''help'' else cleaned)"

record command_fields =
  cf_project :: "string option"
  cf_instruction :: "string option"
  cf_task :: "string option"

definition command_arguments :: "gateway_command \<Rightarrow> string \<Rightarrow> command_error + command_fields" where
  "command_arguments command arguments =
     (if command = DEV then
        (case split_once arguments of
           [project, instruction] \<Rightarrow>
             Inr \<lparr>cf_project = Some project, cf_instruction = Some instruction, cf_task = None\<rparr>
         | _ \<Rightarrow> Inl DevUsage)
      else if command \<in> {TASK, STOP} then
        (if record_id_pattern ''TASK-'' (upper arguments)
         then Inr \<lparr>cf_project = None, cf_instruction = None, cf_task = Some (upper arguments)\<rparr>
         else Inl (TaskUsage command))
      else if arguments \<noteq> [] then Inl (NoArguments command)
      else Inr \<lparr>cf_project = None, cf_instruction = None, cf_task = None\<rparr>)"

definition parse_slack_command ::
  "string option \<Rightarrow> string \<Rightarrow> string \<Rightarrow> string \<Rightarrow> string \<Rightarrow> command_error + gateway_request" where
  "parse_slack_command bot_id event actor reply text =
     (case split_once (command_text bot_id text) of
        [] \<Rightarrow> Inl UnknownCommand
      | name # remainder \<Rightarrow>
          (case command_of_value (lower name) of
             None \<Rightarrow> Inl UnknownCommand
           | Some command \<Rightarrow>
               and_then (command_arguments command
                 (case remainder of [] \<Rightarrow> [] | r # _ \<Rightarrow> py_strip r)) (\<lambda>fields.
               map_error (\<lambda>_. InvalidText) (GatewayRequest_validate
                 \<lparr>rq_source = ''slack'', rq_event = event, rq_actor = actor, rq_reply = Some reply,
                  rq_command = command, rq_project = cf_project fields, rq_task = cf_task fields,
                  rq_instruction = cf_instruction fields\<rparr>))))"

section \<open>The message of a task update\<close>

definition listed :: "string \<Rightarrow> string list \<Rightarrow> string list" where
  "listed heading items = (if items = [] then [] else heading # map (\<lambda>x. ''- '' @ x) items)"

definition labelled :: "string \<Rightarrow> string option \<Rightarrow> string list" where
  "labelled label v = (case v of None \<Rightarrow> [] | Some x \<Rightarrow> [label @ x])"

definition update_lines :: "lifecycle_update \<Rightarrow> string list" where
  "update_lines u =
     [lu_task u @ '' '' @ status_value (lu_status u), ''Project: '' @ lu_project u, ''Team: '' @ lu_team u] @
     listed ''Summary:'' (lu_summary u) @ listed ''Changed files:'' (lu_changed_files u) @
     listed ''Tests:'' (lu_tests u) @ labelled ''Runtime: '' (lu_runtime_outcome u) @
     labelled ''Branch: '' (lu_branch u) @ labelled ''Error: '' (lu_error u)"

definition format_task_update :: "lifecycle_update \<Rightarrow> string" where
  "format_task_update u = redact_sensitive_text 4000 (join [CHR 0x0A] (update_lines u))"

section \<open>Delivery\<close>

datatype delivery_outcome = Delivery_sent | Delivery_duplicate | Delivery_in_progress

datatype delivery_error = DeliveryFailed | ReceiptError | DeliveryInterrupted | LoopEnded

record slack_message =
  sm_channel :: string
  sm_text :: string
  sm_thread :: "string option"
  sm_client_id :: string

datatype py_float = Finite rat | Not_finite

datatype header_value = Header_text string | Header_number py_float | Header_list "header_value list" | Header_other

text \<open>An exception of the client: the status and the headers of its response; or a cancellation.\<close>

datatype send_failure =
    Send_error "int option" "(string option \<times> header_value) list option"
  | Send_interrupted

record 's delivery =
  dl_is_delivered :: "string \<Rightarrow> ('s, delivery_error, bool) act"
  dl_reserve :: "string \<Rightarrow> ('s, delivery_error, bool) act"
  dl_mark :: "string \<Rightarrow> ('s, delivery_error, unit) act"
  dl_release :: "string \<Rightarrow> ('s, delivery_error, unit) act"
  dl_send :: "slack_message \<Rightarrow> ('s, send_failure, unit) act"
  dl_sleep :: "rat \<Rightarrow> ('s, delivery_error, unit) act"
  dl_max_attempts :: nat
  dl_base_delay :: rat
  dl_max_delay :: rat
  dl_float :: "string \<Rightarrow> py_float option"
  dl_uuid5 :: "string \<Rightarrow> string"

text \<open>\<open>RetryingSlackDelivery.__init__\<close>; \<open>None\<close> is a \<open>ValueError\<close>.\<close>

definition new_delivery :: "'s delivery \<Rightarrow> 's delivery option" where
  "new_delivery d =
     (if dl_max_attempts d < 1 then None
      else if dl_base_delay d < 0 then None
      else if dl_max_delay d < 0 then None
      else Some d)"

text \<open>\<open>_slack_retry_after_seconds\<close>.\<close>

fun first_element :: "header_value \<Rightarrow> header_value" where
  "first_element (Header_list (v # _)) = v"
| "first_element v = v"

fun header_float :: "(string \<Rightarrow> py_float option) \<Rightarrow> header_value \<Rightarrow> py_float option" where
  "header_float to_float (Header_text s) = to_float s"
| "header_float to_float (Header_number x) = Some x"
| "header_float to_float _ = None"

definition retry_after_header :: "(string option \<times> header_value) list \<Rightarrow> header_value option" where
  "retry_after_header headers =
     map_option snd (find (\<lambda>(name, _). map_option lower name = Some ''retry-after'') headers)"

definition slack_retry_after_seconds ::
  "(string \<Rightarrow> py_float option) \<Rightarrow> (string option \<times> header_value) list option \<Rightarrow> rat option" where
  "slack_retry_after_seconds to_float headers =
     (case Option.bind headers retry_after_header of
        None \<Rightarrow> None
      | Some v \<Rightarrow>
          (case header_float to_float (first_element v) of
             Some (Finite seconds) \<Rightarrow> if 0 \<le> seconds then Some seconds else None
           | _ \<Rightarrow> None))"

definition retry_delay ::
  "'s delivery \<Rightarrow> nat \<Rightarrow> int option \<Rightarrow> (string option \<times> header_value) list option \<Rightarrow> rat" where
  "retry_delay d attempt status headers =
     (case if status = Some 429 then slack_retry_after_seconds (dl_float d) headers else None of
        Some seconds \<Rightarrow> seconds
      | None \<Rightarrow> dl_base_delay d * 2 ^ (attempt - 1))"

definition is_client_error :: "int option \<Rightarrow> bool" where
  "is_client_error status \<longleftrightarrow> (case status of None \<Rightarrow> False | Some c \<Rightarrow> 400 \<le> c \<and> c < 500 \<and> c \<noteq> 429)"

definition message_of :: "'s delivery \<Rightarrow> delivery_request \<Rightarrow> slack_message" where
  "message_of d r =
     \<lparr>sm_channel = sr_channel (dr_route r), sm_text = redact_sensitive_text 4000 (dr_text r),
      sm_thread = sr_thread (dr_route r), sm_client_id = client_message_id (dl_uuid5 d) r\<rparr>"

text \<open>The loop of \<open>deliver\<close>; \<open>left\<close> attempts are left, \<open>attempt\<close> counts from one.\<close>

fun send_loop :: "'s delivery \<Rightarrow> delivery_request \<Rightarrow> nat \<Rightarrow> nat \<Rightarrow> ('s, delivery_error, delivery_outcome) act" where
  "send_loop d r attempt 0 s = (Inl LoopEnded, s)"
| "send_loop d r attempt (Suc left) s =
     (case dl_send d (message_of d r) s of
        (Inr _, s') \<Rightarrow> act_bind (dl_mark d (dr_id r)) (\<lambda>_. act_return Delivery_sent) s'
      | (Inl Send_interrupted, s') \<Rightarrow> (Inl DeliveryInterrupted, s')
      | (Inl (Send_error status headers), s') \<Rightarrow>
          if is_client_error status then (Inl DeliveryFailed, s')
          else if left = 0 then (Inl DeliveryFailed, s')
          else act_bind (dl_sleep d (min (retry_delay d attempt status headers) (dl_max_delay d)))
                 (\<lambda>_. send_loop d r (attempt + 1) left) s')"

text \<open>\<open>except BaseException: release; raise\<close>.\<close>

definition releasing ::
  "('s, delivery_error, unit) act \<Rightarrow> ('s, delivery_error, 'a) act \<Rightarrow> ('s, delivery_error, 'a) act" where
  "releasing release m s =
     (case m s of
        (Inl e, s') \<Rightarrow> act_bind release (\<lambda>_. act_raise e) s'
      | (Inr x, s') \<Rightarrow> (Inr x, s'))"

definition deliver :: "'s delivery \<Rightarrow> delivery_request \<Rightarrow> ('s, delivery_error, delivery_outcome) act" where
  "deliver d r =
     act_bind (dl_is_delivered d (dr_id r)) (\<lambda>delivered.
     if delivered then act_return Delivery_duplicate
     else act_bind (dl_reserve d (dr_id r)) (\<lambda>reserved.
       if \<not> reserved then act_return Delivery_in_progress
       else releasing (dl_release d (dr_id r)) (send_loop d r 1 (dl_max_attempts d))))"

section \<open>The receipts in memory\<close>

record memory_receipts =
  mr_delivered :: "string set"
  mr_in_flight :: "string set"

definition no_receipts :: memory_receipts where
  "no_receipts = \<lparr>mr_delivered = {}, mr_in_flight = {}\<rparr>"

definition memory_is_delivered :: "string \<Rightarrow> memory_receipts \<Rightarrow> bool" where
  "memory_is_delivered i m \<longleftrightarrow> i \<in> mr_delivered m"

definition memory_reserve_delivery :: "string \<Rightarrow> memory_receipts \<Rightarrow> bool \<times> memory_receipts" where
  "memory_reserve_delivery i m =
     (if i \<in> mr_delivered m \<or> i \<in> mr_in_flight m then (False, m)
      else (True, m\<lparr>mr_in_flight := insert i (mr_in_flight m)\<rparr>))"

definition memory_mark_delivered :: "string \<Rightarrow> memory_receipts \<Rightarrow> memory_receipts" where
  "memory_mark_delivered i m =
     m\<lparr>mr_in_flight := mr_in_flight m - {i}, mr_delivered := insert i (mr_delivered m)\<rparr>"

definition memory_release_delivery :: "string \<Rightarrow> memory_receipts \<Rightarrow> memory_receipts" where
  "memory_release_delivery i m = m\<lparr>mr_in_flight := mr_in_flight m - {i}\<rparr>"

section \<open>Notifying\<close>

datatype notify_error = NotifyInvalid | NotifyDelivery delivery_error

text \<open>\<open>SlackTaskNotifier.notify\<close>.\<close>

definition update_request :: "slack_route \<Rightarrow> lifecycle_update \<Rightarrow> value_error + delivery_request" where
  "update_request route u =
     SlackDeliveryRequest_validate
       \<lparr>dr_id = ''task-update:'' @ lu_notification u, dr_route = route, dr_text = format_task_update u\<rparr>"

definition notify_slack ::
  "'s delivery \<Rightarrow> slack_route \<Rightarrow> lifecycle_update \<Rightarrow> ('s, notify_error, delivery_outcome) act" where
  "notify_slack d route u =
     act_bind (act_lift (map_error (\<lambda>_. NotifyInvalid) (update_request route u))) (\<lambda>r.
     map_raise NotifyDelivery (deliver d r))"

section \<open>Events\<close>

text \<open>\<open>_first_string\<close>.\<close>

fun text_at :: "json_object \<Rightarrow> string \<Rightarrow> string option" where
  "text_at values name =
     (case map_of values name of
        Some (JStr s) \<Rightarrow> if py_strip s \<noteq> [] then Some (py_strip s) else None
      | _ \<Rightarrow> None)"

fun first_string :: "json_object \<Rightarrow> string list \<Rightarrow> string option" where
  "first_string values [] = None"
| "first_string values (name # names) =
     (case text_at values name of Some s \<Rightarrow> Some s | None \<Rightarrow> first_string values names)"

definition from_bot :: "json_object \<Rightarrow> bool" where
  "from_bot event \<longleftrightarrow>
     (case map_of event ''bot_id'' of None \<Rightarrow> False | Some v \<Rightarrow> v \<noteq> JNull) \<or>
     map_of event ''subtype'' = Some (JStr ''bot_message'')"

datatype event_error =
    EventCommandError command_error
  | EventValueError
  | EventGateway port_error
  | EventDelivery delivery_error

record 's slack_service =
  ss_handle :: "gateway_request \<Rightarrow> ('s, port_error, gateway_response) act"
  ss_delivery :: "'s delivery"
  ss_bot :: "string option"

definition refusal :: "string \<Rightarrow> gateway_response" where
  "refusal text = simple_response False INVALID_REQUEST text"

definition answer_event ::
  "'s slack_service \<Rightarrow> slack_route \<Rightarrow> string \<Rightarrow> string option \<Rightarrow> string option \<Rightarrow>
   ('s, event_error, gateway_response) act" where
  "answer_event sv route event actor text =
     (case (actor, text) of
        (Some a, Some t) \<Rightarrow>
          act_bind (act_lift (map_error (\<lambda>_. EventValueError) (encode_slack_route_target route))) (\<lambda>target.
          case parse_slack_command (ss_bot sv) event a target t of
            Inl e \<Rightarrow>
              act_lift (map_error (\<lambda>_. EventValueError)
                (GatewayResponse_validate (refusal (redact_sensitive_text 4000 (command_error_text e)))))
          | Inr request \<Rightarrow> map_raise EventGateway (ss_handle sv request))
      | _ \<Rightarrow>
          act_lift (map_error (\<lambda>_. EventValueError)
            (GatewayResponse_validate (refusal ''Slack event is missing actor or command text.''))))"

definition event_source_id :: "json_object \<Rightarrow> json_object \<Rightarrow> string option" where
  "event_source_id body event =
     (case first_string body [''event_id''] of
        Some s \<Rightarrow> Some s
      | None \<Rightarrow> first_string event [''client_msg_id'', ''event_ts'', ''ts''])"

definition process_event :: "'s slack_service \<Rightarrow> json_object \<Rightarrow> json_object \<Rightarrow> ('s, event_error, delivery_outcome) act" where
  "process_event sv body event =
     (case (first_string event [''channel''], event_source_id body event) of
        (Some channel, Some source) \<Rightarrow>
          act_bind (act_lift (map_error (\<lambda>_. EventValueError) (SlackRoute_validate
            \<lparr>sr_channel = channel, sr_thread = first_string event [''thread_ts'', ''ts'']\<rparr>))) (\<lambda>route.
          act_bind (answer_event sv route source (first_string event [''user'']) (first_string event [''text''])) (\<lambda>response.
          act_bind (act_lift (map_error (\<lambda>_. EventValueError) (SlackDeliveryRequest_validate
            \<lparr>dr_id = ''slack-event:'' @ source @ '':gateway-response'', dr_route = route,
             dr_text = rs_message response\<rparr>))) (\<lambda>request.
          map_raise EventDelivery (deliver (ss_delivery sv) request))))
      | _ \<Rightarrow> act_raise (EventCommandError MissingMetadata))"

text \<open>\<open>accept_event\<close>: the messages of bots are dropped; \<open>None\<close> is no task.\<close>

definition accept_event ::
  "'s slack_service \<Rightarrow> json_object \<Rightarrow> json_object \<Rightarrow> ('s, event_error, delivery_outcome) act option" where
  "accept_event sv body event = (if from_bot event then None else Some (process_event sv body event))"

end
