(* ===== verification/SlackSafety.thy ===== *)
theory SlackSafety
  imports Slack
begin

text \<open>
  Lemmas on the Slack integration: the stored form of a route is read back, a command line is parsed
  to the request it was printed from, and the contract of a delivery port with what \<open>deliver\<close> does
  over any port that satisfies it.
\<close>

section \<open>Texts\<close>

lemma py_space_classes:
  "is_alnum c \<Longrightarrow> \<not> is_py_space c" "is_id_char c \<Longrightarrow> \<not> is_py_space c"
  "c \<in> {CHR ''.'', CHR ''_'', CHR ''-'', CHR '':'', CHR ''<'', CHR ''>''} \<Longrightarrow> \<not> is_py_space c"
  by (auto simp: is_py_space_def char_class_defs less_eq_char_def)

lemma space_is_py_space: "is_space c \<Longrightarrow> is_py_space c"
  by (simp add: is_py_space_def)

lemma py_lstrip_id: "s = [] \<or> \<not> is_py_space (hd s) \<Longrightarrow> py_lstrip s = s"
  by (cases s) (auto simp: py_lstrip_def)

lemma py_rstrip_id: "s = [] \<or> \<not> is_py_space (last s) \<Longrightarrow> py_rstrip s = s"
  by (cases s rule: rev_cases) (auto simp: py_rstrip_def)

lemma py_strip_id: "s = [] \<or> \<not> is_py_space (hd s) \<and> \<not> is_py_space (last s) \<Longrightarrow> py_strip s = s"
  by (auto simp: py_strip_def py_lstrip_id py_rstrip_id)

lemma py_strip_length: "length (py_strip s) \<le> length (py_lstrip s)" "length (py_lstrip s) \<le> length s"
  using length_dropWhile_le [of is_py_space "rev (dropWhile is_py_space s)"]
  by (simp_all add: py_strip_def py_rstrip_def py_lstrip_def length_dropWhile_le)

lemma py_strip_ends:
  assumes "py_strip s = s" "s \<noteq> []"
  shows "\<not> is_py_space (hd s)" "\<not> is_py_space (last s)"
proof -
  obtain c cs where s: "s = c # cs" using assms(2) by (cases s) auto
  show hd: "\<not> is_py_space (hd s)"
  proof
    assume "is_py_space (hd s)"
    then have "py_lstrip s = py_lstrip cs" using s by (simp add: py_lstrip_def)
    with py_strip_length(1) [of s] py_strip_length(2) [of cs] assms(1) s show False by simp
  qed
  then have "py_rstrip s = s" using assms py_lstrip_id [of s] by (simp add: py_strip_def)
  then have "dropWhile is_py_space (rev s) = rev s" by (simp add: py_rstrip_def rev_swap)
  then show "\<not> is_py_space (last s)" using assms(2) by (simp add: dropWhile_eq_self_iff hd_rev)
qed

lemma startswith_append [simp]: "startswith p (p @ s)"
  by (simp add: startswith_def)

lemma remove_prefix_append [simp]: "remove_prefix p (p @ s) = s"
  by (simp add: remove_prefix_def)

lemma partition_char_append:
  "c \<notin> set a \<Longrightarrow> partition_char c (a @ c # b) = (a, True, b)"
  by (simp add: partition_char_def takeWhile_append dropWhile_append)

lemma split_once_word:
  assumes "w \<noteq> []" "list_all (\<lambda>c. \<not> is_py_space c) w"
  shows "split_once w = [w]"
    "t \<noteq> [] \<Longrightarrow> \<not> is_py_space (hd t) \<Longrightarrow> split_once (w @ CHR '' '' # t) = [w, t]"
proof -
  have space: "is_py_space (CHR '' '')" by (simp add: is_py_space_def is_space_def)
  have w: "py_lstrip w = w" "takeWhile (\<lambda>c. \<not> is_py_space c) w = w" "dropWhile (\<lambda>c. \<not> is_py_space c) w = []"
    "py_lstrip (w @ x) = w @ x" for x
    using assms by (auto simp: py_lstrip_def list_all_iff dropWhile_eq_self_iff dropWhile_append hd_append)
  show "split_once w = [w]" using assms(1) w(1-3) by (simp add: split_once_def Let_def py_lstrip_id)
  assume t: "t \<noteq> []" "\<not> is_py_space (hd t)"
  have "takeWhile (\<lambda>c. \<not> is_py_space c) (w @ CHR '' '' # t) = w"
    "dropWhile (\<lambda>c. \<not> is_py_space c) (w @ CHR '' '' # t) = CHR '' '' # t"
    using assms(2) space by (simp_all add: list_all_iff takeWhile_append dropWhile_append)
  moreover have "py_lstrip (CHR '' '' # t) = t"
    using t space by (simp add: py_lstrip_def dropWhile_eq_self_iff)
  ultimately show "split_once (w @ CHR '' '' # t) = [w, t]"
    using assms(1) t w(4) by (simp add: split_once_def Let_def)
qed

section \<open>Routes\<close>

lemma route_component_chars:
  "route_component s \<Longrightarrow> s \<noteq> [] \<and> length s \<le> 100 \<and> is_alnum (hd s) \<and>
     list_all (\<lambda>c. is_alnum c \<or> c = CHR ''.'' \<or> c = CHR ''_'' \<or> c = CHR ''-'') s"
  by (cases s) (auto simp: list_all_iff)

lemma alnum_plain: "is_alnum c \<Longrightarrow> \<not> is_space c \<and> \<not> is_control c"
  by (auto simp: char_class_defs is_control_def less_eq_char_def)

lemma plain_char:
  assumes "is_alnum c \<or> c = CHR ''.'' \<or> c = CHR ''_'' \<or> c = CHR ''-''"
  shows "\<not> is_space c" "\<not> is_control c" "is_opaque_char c" "c \<noteq> CHR '':''"
proof -
  have colon: "\<not> is_alnum (CHR '':'')" by (simp add: char_class_defs)
  show "\<not> is_space c" "\<not> is_control c"
    using assms alnum_plain [of c] by (auto simp: is_space_def is_control_def in_range_def)
  show "is_opaque_char c" "c \<noteq> CHR '':''" using assms colon by (auto simp: is_opaque_char_def)
qed

lemma opaque_not_space: "is_opaque_char c \<Longrightarrow> \<not> is_space c"
  using plain_char(1) [of c] by (auto simp: is_opaque_char_def is_space_def in_range_def)

lemma route_component_clean:
  assumes "route_component s"
  shows "clean OpaqueId s"
proof -
  note chars = route_component_chars [OF assms]
  have "list_all (\<lambda>c. \<not> is_space c) s" "list_all (\<lambda>c. \<not> is_control c) s"
    using chars plain_char(1,2) by (auto elim!: list.pred_mono_strong)
  with chars show ?thesis by (simp add: clean_iff meets_def OpaqueId_def strip_no_space Suc_le_eq)
qed

lemma route_component_no_colon: "route_component s \<Longrightarrow> CHR '':'' \<notin> set s"
  using route_component_chars [of s] plain_char(4) by (auto simp: list_all_iff)

lemma route_component_not_none: "route_component s \<Longrightarrow> s \<noteq> NO_THREAD"
  by (auto simp: NO_THREAD_def char_class_defs)

lemma encode_route_Ok:
  assumes "encode_slack_route_target route = Inr target"
  shows "route_component (sr_channel route)" "sr_thread route = Some t \<Longrightarrow> route_component t"
    "target = ROUTE_PREFIX @ sr_channel route @ '':'' @ (case sr_thread route of None \<Rightarrow> NO_THREAD | Some t \<Rightarrow> t)"
    "length target \<le> 200"
  using assms
  by (auto simp: encode_slack_route_target_def Let_def split: option.splits if_splits)

lemma decode_encode_route:
  assumes "encode_slack_route_target route = Inr target"
  shows "decode_slack_route_target target = Inr route"
proof (cases "sr_thread route")
  case None
  then show ?thesis
    using encode_route_Ok [OF assms] route_component_no_colon [of "sr_channel route"]
      route_component_clean [of "sr_channel route"]
    by (cases route) (simp add: decode_slack_route_target_def partition_char_append SlackRoute_validate_def)
next
  case (Some t)
  then show ?thesis
    using encode_route_Ok [OF assms] route_component_no_colon [of "sr_channel route"]
      route_component_clean [of "sr_channel route"] route_component_clean [of t] route_component_not_none [of t]
    by (cases route) (simp add: decode_slack_route_target_def partition_char_append SlackRoute_validate_def)
qed

lemma encoded_route_storable:
  assumes "encode_slack_route_target route = Inr target"
  shows "clean ReplyTarget target" "clean OpaqueRouteValue target"
proof -
  have parts: "list_all (\<lambda>c. is_alnum c \<or> c = CHR ''.'' \<or> c = CHR ''_'' \<or> c = CHR ''-'') (sr_channel route)"
    "list_all (\<lambda>c. is_alnum c \<or> c = CHR ''.'' \<or> c = CHR ''_'' \<or> c = CHR ''-'')
       (case sr_thread route of None \<Rightarrow> NO_THREAD | Some t \<Rightarrow> t)"
    using encode_route_Ok(1,2) [OF assms] route_component_chars
    by (auto simp: NO_THREAD_def split: option.splits)
  have opaque: "list_all is_opaque_char target"
    using encode_route_Ok(3) [OF assms] parts plain_char(3)
    by (simp add: ROUTE_PREFIX_def list.pred_mono_strong [OF parts(1)] list.pred_mono_strong [OF parts(2)])
      (simp add: char_class_defs)
  moreover have "target \<noteq> []" "is_alnum (hd target)" "length target \<le> 200"
    using encode_route_Ok(3,4) [OF assms] by (auto simp: ROUTE_PREFIX_def char_class_defs)
  moreover have "list_all (\<lambda>c. \<not> is_space c) target"
    using opaque opaque_not_space by (auto elim: list.pred_mono_strong)
  ultimately show "clean ReplyTarget target" "clean OpaqueRouteValue target"
    by (cases target; auto simp: clean_iff meets_def ReplyTarget_def OpaqueRouteValue_def strip_no_space)+
qed

section \<open>Commands\<close>

text \<open>The line a user types for a request, and a mention in front of it.\<close>

definition command_line :: "gateway_request \<Rightarrow> string" where
  "command_line r =
     (case rq_command r of
        DEV \<Rightarrow> ''dev'' @ CHR '' '' # the (rq_project r) @ CHR '' '' # the (rq_instruction r)
      | TASK \<Rightarrow> ''task'' @ CHR '' '' # the (rq_task r)
      | STOP \<Rightarrow> ''stop'' @ CHR '' '' # the (rq_task r)
      | c \<Rightarrow> command_value c)"

definition mention_of :: "string \<Rightarrow> string" where
  "mention_of user = ''<@'' @ user @ ''> ''"

text \<open>A mention that is removed: of the bot when its identifier is known, of anyone otherwise.\<close>

definition addresses :: "string option \<Rightarrow> string \<Rightarrow> bool" where
  "addresses bot_id prefix \<longleftrightarrow>
     prefix = [] \<or>
     (\<exists>user. prefix = mention_of user \<and>
        (case bot_id of None \<Rightarrow> user \<noteq> [] \<and> list_all is_alnum user | Some b \<Rightarrow> b = user))"

lemma char_lower_less: "char_lower c = CHR ''<'' \<Longrightarrow> c = CHR ''<''"
proof (rule ccontr)
  assume "char_lower c = CHR ''<''" "c \<noteq> CHR ''<''"
  then have up: "is_upper c" and eq: "char_of (of_char c + (32::nat)) = CHR ''<''"
    by (auto simp: char_lower_def split: if_splits)
  from eq have "of_char (char_of (of_char c + (32::nat)) :: char) = (60::nat)" by simp
  moreover have "(65::nat) \<le> of_char c \<and> of_char c \<le> (90::nat)"
    using up by (simp add: is_upper_def in_range_def less_eq_char_def)
  ultimately show False by simp
qed

lemma char_lower_of_less: "char_lower (CHR ''<'') = CHR ''<''"
  by (simp add: char_lower_def char_class_defs)

lemma command_text_line:
  assumes "addresses bot_id prefix" "line \<noteq> []" "\<not> is_py_space (hd line)" "\<not> is_py_space (last line)"
    "hd line \<noteq> CHR ''<''"
  shows "command_text bot_id (prefix @ line) = line"
proof (cases "prefix = []")
  case True
  have plain: "\<not> startswith (CHR ''<'' # m) line" "\<not> startswith (lower (CHR ''<'' # m)) (lower line)" for m
    using assms(2,5) char_lower_less
    by (cases line; auto simp: startswith_def lower_def char_lower_of_less dest: char_lower_less [OF sym])+
  show ?thesis
    using True assms plain
    by (auto simp: command_text_def py_strip_id strip_any_mention_def strip_bot_mention_def Let_def
        split: option.splits list.splits)
next
  case False
  then obtain user where user: "prefix = mention_of user"
    "case bot_id of None \<Rightarrow> user \<noteq> [] \<and> list_all is_alnum user | Some b \<Rightarrow> b = user"
    using assms(1) by (auto simp: addresses_def)
  have strip: "py_strip (prefix @ line) = prefix @ line"
    using user assms(2,4) by (intro py_strip_id) (auto simp: mention_of_def is_py_space_def char_class_defs)
  have blank: "py_lstrip (CHR '' '' # line) = line"
    using assms(3) by (auto simp: py_lstrip_def is_py_space_def is_space_def dropWhile_eq_self_iff)
  show ?thesis
  proof (cases bot_id)
    case None
    have gt: "\<not> is_alnum (CHR ''>'')" by (simp add: char_class_defs)
    have "strip_any_mention (prefix @ line) = line"
      using user None gt blank
      by (simp add: strip_any_mention_def mention_of_def startswith_def list_all_iff takeWhile_append
          dropWhile_append Let_def)
    with strip None assms(2) show ?thesis by (simp add: command_text_def)
  next
    case (Some b)
    have "strip_bot_mention b (prefix @ line) = line"
      using user Some blank
      by (simp add: strip_bot_mention_def mention_of_def startswith_def lower_def Let_def)
    with strip Some assms(2) show ?thesis by (simp add: command_text_def)
  qed
qed

lemma command_of_value_value [simp]: "command_of_value (command_value c) = Some c"
  by (cases c) (simp_all add: command_of_value_def)

lemma lower_command_value [simp]: "lower (command_value c) = command_value c"
  by (cases c) (simp_all add: lower_def char_lower_def char_class_defs)

lemma command_value_word:
  "command_value c \<noteq> []" "list_all (\<lambda>x. \<not> is_py_space x) (command_value c)"
  "hd (command_value c) \<noteq> CHR ''<''"
  by (cases c; simp add: is_py_space_def char_class_defs)+

lemma identifier_tail_all:
  "identifier_tail h s \<Longrightarrow> list_all (\<lambda>c. is_lower c \<or> is_digit c \<or> c = CHR ''-'') s"
  by (induction h s rule: identifier_tail.induct) (auto split: if_splits)

lemma identifier_word:
  assumes "clean Identifier s"
  shows "s \<noteq> []" "list_all (\<lambda>c. \<not> is_py_space c) s"
proof -
  have "identifier_pattern s" using assms by (simp add: clean_iff meets_def Identifier_def)
  then obtain c cs where "s = c # cs" "is_lower c" "identifier_tail False cs" by (cases s) auto
  then show "s \<noteq> []" "list_all (\<lambda>c. \<not> is_py_space c) s"
    using list.pred_mono_strong [OF identifier_tail_all, of False cs "\<lambda>c. \<not> is_py_space c"]
      py_space_classes(1,3) by (auto simp: is_alnum_def)
qed

lemma task_id_word:
  assumes "clean TaskId s"
  shows "s \<noteq> []" "list_all (\<lambda>c. \<not> is_py_space c) s" "upper s = s" "record_id_pattern ''TASK-'' s"
proof -
  show pat: "record_id_pattern ''TASK-'' s" using assms by (simp add: clean_iff meets_def TaskId_def)
  obtain c cs where s: "s = ''TASK-'' @ c # cs" "is_id_char c"
    "list_all (\<lambda>d. is_id_char d \<or> d = CHR ''-'') cs"
  proof (cases "drop (length ''TASK-'') s")
    case Nil
    with pat show ?thesis by (simp add: record_id_pattern_def)
  next
    case (Cons c cs)
    have "take (length ''TASK-'') s = ''TASK-''" "record_id_tail (c # cs)"
      using pat Cons unfolding record_id_pattern_def by simp_all
    with append_take_drop_id [of "length ''TASK-''" s] Cons have "''TASK-'' @ c # cs = s" by (simp only:)
    with \<open>record_id_tail (c # cs)\<close> that show ?thesis by force
  qed
  show "s \<noteq> []" using s by simp
  show "list_all (\<lambda>c. \<not> is_py_space c) s"
  proof -
    have "list_all (\<lambda>c. \<not> is_py_space c) cs" "\<not> is_py_space c"
      using s(2) list.pred_mono_strong [OF s(3), of "\<lambda>c. \<not> is_py_space c"] py_space_classes(2,3) by auto
    moreover have "list_all (\<lambda>c. \<not> is_py_space c) ''TASK-''" by (simp add: is_py_space_def char_class_defs)
    ultimately show ?thesis unfolding s(1) by simp
  qed
  have "char_upper d = d" if "is_id_char d \<or> d = CHR ''-''" for d
    using that by (auto simp: char_upper_def char_class_defs less_eq_char_def)
  then have "map char_upper cs = cs" "char_upper c = c"
    using s by (auto simp: list_all_iff intro: map_idI)
  then show "upper s = s" using s by (simp add: upper_def char_upper_def char_class_defs)
qed

lemma valid_requestD:
  assumes "valid_request r"
  shows "rq_command r = DEV \<Longrightarrow> \<exists>p i. rq_project r = Some p \<and> rq_instruction r = Some i \<and> rq_task r = None \<and>
      clean Identifier p \<and> clean TaskInstruction i"
    "rq_command r \<in> {TASK, STOP} \<Longrightarrow> \<exists>i. rq_task r = Some i \<and> clean TaskId i \<and>
      rq_project r = None \<and> rq_instruction r = None"
    "rq_command r \<in> {HELP, STATUS, TASKS} \<Longrightarrow> rq_project r = None \<and> rq_task r = None \<and> rq_instruction r = None"
  using assms by (auto simp: valid_request_iff command_shape_def)

lemma parse_line:
  assumes "addresses bot_id prefix" "line = command_value c @ rest"
    "rest = [] \<or> (\<exists>args. rest = CHR '' '' # args \<and> args \<noteq> [] \<and> \<not> is_py_space (hd args) \<and> \<not> is_py_space (last args))"
  shows "parse_slack_command bot_id event actor reply (prefix @ line) =
    and_then (command_arguments c (drop 1 rest)) (\<lambda>fields.
      map_error (\<lambda>_. InvalidText) (GatewayRequest_validate
        \<lparr>rq_source = ''slack'', rq_event = event, rq_actor = actor, rq_reply = Some reply,
         rq_command = c, rq_project = cf_project fields, rq_task = cf_task fields,
         rq_instruction = cf_instruction fields\<rparr>))"
proof -
  have last_value: "\<not> is_py_space (last (command_value c))" "\<not> is_py_space (hd (command_value c))"
    using command_value_word(1,2) [of c] by (auto simp: list_all_iff)
  have "command_text bot_id (prefix @ line) = line"
    using command_text_line [OF assms(1), of line] assms(2,3) command_value_word(1,3) [of c] last_value by auto
  moreover have "split_once line = (if rest = [] then [command_value c] else [command_value c, drop 1 rest])"
  proof (cases "rest = []")
    case True
    then show ?thesis using assms(2) split_once_word(1) [OF command_value_word(1,2) [of c]] by simp
  next
    case False
    then obtain args where args: "rest = CHR '' '' # args" "args \<noteq> []" "\<not> is_py_space (hd args)"
      using assms(3) by blast
    then show ?thesis using assms(2) split_once_word(2) [OF command_value_word(1,2) [of c] args(2,3)] by simp
  qed
  moreover have "py_strip (drop 1 rest) = drop 1 rest" if some: "rest \<noteq> []"
  proof -
    obtain args where args: "rest = CHR '' '' # args" "\<not> is_py_space (hd args)" "\<not> is_py_space (last args)"
      using assms(3) some by blast
    then show ?thesis using py_strip_id [of args] by simp
  qed
  ultimately show ?thesis by (simp add: parse_slack_command_def)
qed

lemma parse_command_line:
  assumes "valid_request r" "rq_source r = ''slack''" "rq_reply r = Some reply"
    "rq_command r = DEV \<Longrightarrow> py_strip (the (rq_instruction r)) = the (rq_instruction r)"
    "addresses bot_id prefix"
  shows "parse_slack_command bot_id (rq_event r) (rq_actor r) reply (prefix @ command_line r) = Inr r"
proof -
  have whole: "GatewayRequest_validate
      \<lparr>rq_source = ''slack'', rq_event = rq_event r, rq_actor = rq_actor r, rq_reply = Some reply,
       rq_command = rq_command r, rq_project = rq_project r, rq_task = rq_task r,
       rq_instruction = rq_instruction r\<rparr> = Inr r"
    using assms(1-3) by (cases r) (simp add: valid_request_def)
  consider "rq_command r = DEV" | "rq_command r \<in> {TASK, STOP}" | "rq_command r \<in> {HELP, STATUS, TASKS}"
    by (cases "rq_command r") auto
  then show ?thesis
  proof cases
    case 1
    then obtain p i where pi: "rq_project r = Some p" "rq_instruction r = Some i" "rq_task r = None"
      "clean Identifier p" "clean TaskInstruction i" using valid_requestD(1) [OF assms(1)] by blast
    have "i \<noteq> []" using pi(5) by (auto simp: clean_iff meets_def TaskInstruction_def)
    then have i: "i \<noteq> []" "\<not> is_py_space (hd i)" "\<not> is_py_space (last i)"
      using pi(2) assms(4) [OF 1] py_strip_ends [of i] by auto
    have p: "p \<noteq> []" "\<not> is_py_space (hd p)" using identifier_word [OF pi(4)] by (auto simp: list_all_iff)
    have "command_arguments DEV (p @ CHR '' '' # i) = Inr \<lparr>cf_project = Some p, cf_instruction = Some i, cf_task = None\<rparr>"
      using split_once_word(2) [OF identifier_word [OF pi(4)] i(1,2)] by (simp add: command_arguments_def)
    then show ?thesis
      using parse_line [OF assms(5), of "command_line r" DEV "CHR '' '' # p @ CHR '' '' # i"] 1 pi p i whole
      by (simp add: command_line_def)
  next
    case 2
    then obtain i where i: "rq_task r = Some i" "clean TaskId i" "rq_project r = None" "rq_instruction r = None"
      using valid_requestD(2) [OF assms(1)] by blast
    note w = task_id_word [OF i(2)]
    have "command_arguments (rq_command r) i = Inr \<lparr>cf_project = None, cf_instruction = None, cf_task = Some i\<rparr>"
      using 2 w by (auto simp: command_arguments_def)
    moreover have "command_line r = command_value (rq_command r) @ CHR '' '' # i"
      using 2 i by (auto simp: command_line_def)
    moreover have "\<not> is_py_space (hd i)" "\<not> is_py_space (last i)" using w(1,2) by (auto simp: list_all_iff)
    ultimately show ?thesis
      using parse_line [OF assms(5), of "command_line r" "rq_command r" "CHR '' '' # i"] i w whole by simp
  next
    case 3
    then have none: "rq_project r = None" "rq_task r = None" "rq_instruction r = None"
      using valid_requestD(3) [OF assms(1)] by blast+
    have "command_arguments (rq_command r) [] = Inr \<lparr>cf_project = None, cf_instruction = None, cf_task = None\<rparr>"
      using 3 by (auto simp: command_arguments_def)
    moreover have "command_line r = command_value (rq_command r)" using 3 by (auto simp: command_line_def)
    ultimately show ?thesis
      using parse_line [OF assms(5), of "command_line r" "rq_command r" "[]"] none whole by simp
  qed
qed

lemma parse_Ok:
  assumes "parse_slack_command bot_id event actor reply text = Inr r"
  shows "valid_request r" "rq_source r = ''slack''" "rq_event r = strip event" "rq_actor r = strip actor"
    "rq_reply r = Some (strip reply)"
proof -
  obtain c and fields :: command_fields where v: "GatewayRequest_validate
      \<lparr>rq_source = ''slack'', rq_event = event, rq_actor = actor, rq_reply = Some reply,
       rq_command = c, rq_project = cf_project fields, rq_task = cf_task fields,
       rq_instruction = cf_instruction fields\<rparr> = Inr r"
    using assms by (auto simp: parse_slack_command_def result_simps split: list.splits option.splits)
  have slack: "strip ''slack'' = ''slack''" by (rule strip_no_space) (simp add: char_class_defs)
  from v show "valid_request r"
    unfolding GatewayRequest_validate_def
    by (auto simp only: and_then_Ok validate_command_arguments_Ok valid_request_iff gateway_request.simps
        dest: checked_clean checked_opt_clean)
  from v slack show "rq_source r = ''slack''" "rq_event r = strip event" "rq_actor r = strip actor"
    "rq_reply r = Some (strip reply)"
    unfolding GatewayRequest_validate_def
    by (auto simp only: and_then_Ok validate_command_arguments_Ok checked_Ok checked_opt.simps gateway_request.simps
        sum.inject)
qed

section \<open>The contract of a delivery port\<close>

text \<open>
  A port knows which deliveries are done and which are held, and what has been sent for each. A
  reservation is granted for a delivery that is neither; while it is held, sending adds exactly the
  message, and nothing else (others included, who may move while the delivery waits) sends for it.
\<close>

locale delivery_port =
  fixes d :: "'s delivery"
    and ok :: "'s \<Rightarrow> bool"
    and key_ok :: "string \<Rightarrow> bool"
    and delivered :: "'s \<Rightarrow> string set"
    and held :: "'s \<Rightarrow> string set"
    and sent :: "'s \<Rightarrow> string \<Rightarrow> slack_message list"
  assumes is_delivered: "ok s \<Longrightarrow> key_ok i \<Longrightarrow> dl_is_delivered d i s = (b, s') \<Longrightarrow>
      s' = s \<and> (\<forall>x. b = Inr x \<longrightarrow> x = (i \<in> delivered s))"
    and reserve: "ok s \<Longrightarrow> key_ok i \<Longrightarrow> dl_reserve d i s = (b, s') \<Longrightarrow>
      ok s' \<and> sent s' = sent s \<and> (b = Inr True \<longrightarrow> i \<notin> delivered s \<and> i \<notin> held s \<and> i \<in> held s') \<and>
      (b \<noteq> Inr True \<longrightarrow> held s' = held s \<and> delivered s' = delivered s)"
    and mark: "ok s \<Longrightarrow> key_ok i \<Longrightarrow> i \<in> held s \<Longrightarrow> dl_mark d i s = (u, s') \<Longrightarrow>
      ok s' \<and> sent s' = sent s \<and> (u = Inr () \<longrightarrow> i \<in> delivered s') \<and> (u \<noteq> Inr () \<longrightarrow> i \<in> held s')"
    and release: "ok s \<Longrightarrow> key_ok i \<Longrightarrow> i \<in> held s \<Longrightarrow> dl_release d i s = (u, s') \<Longrightarrow>
      ok s' \<and> sent s' = sent s \<and> (u = Inr () \<longrightarrow> i \<notin> held s')"
    and send: "ok s \<Longrightarrow> key_ok i \<Longrightarrow> i \<in> held s \<Longrightarrow> sm_client_id m = dl_uuid5 d (''macmini-ai-hub:'' @ i) \<Longrightarrow>
      dl_send d m s = (v, s') \<Longrightarrow> ok s' \<and> i \<in> held s' \<and> sent s' i = sent s i @ [m]"
    and sleep: "ok s \<Longrightarrow> key_ok i \<Longrightarrow> i \<in> held s \<Longrightarrow> dl_sleep d t s = (u, s') \<Longrightarrow>
      ok s' \<and> i \<in> held s' \<and> sent s' i = sent s i"
begin

text \<open>What one run of the loop leaves: so many copies of the message, and the receipt if it was sent.\<close>

definition loop_post :: "delivery_request \<Rightarrow> nat \<Rightarrow> 's \<Rightarrow> delivery_error + delivery_outcome \<Rightarrow> 's \<Rightarrow> bool" where
  "loop_post r n s x s' \<longleftrightarrow>
     ok s' \<and> (\<exists>k. k \<le> n \<and> (0 < n \<longrightarrow> 0 < k) \<and>
       sent s' (dr_id r) = sent s (dr_id r) @ replicate k (message_of d r)) \<and>
     (\<forall>y. x = Inr y \<longrightarrow> y = Delivery_sent \<and> dr_id r \<in> delivered s') \<and>
     (\<forall>e. x = Inl e \<longrightarrow> dr_id r \<in> held s')"

lemma loop_post_more:
  assumes "loop_post r n s1 x s'" "sent s1 (dr_id r) = sent s (dr_id r) @ [message_of d r]"
  shows "loop_post r (Suc n) s x s'"
  using assms unfolding loop_post_def
  by (metis Suc_le_mono append.assoc append_Cons append_Nil replicate_Suc zero_less_Suc)

lemma loop_post_once:
  assumes "ok s'" "sent s' (dr_id r) = sent s (dr_id r) @ [message_of d r]"
    "\<And>y. x = Inr y \<Longrightarrow> y = Delivery_sent \<and> dr_id r \<in> delivered s'" "\<And>e. x = Inl e \<Longrightarrow> dr_id r \<in> held s'"
  shows "loop_post r (Suc n) s x s'"
  unfolding loop_post_def using assms by (auto intro!: exI [of _ 1])

lemma send_loop_post:
  assumes "ok s" "key_ok (dr_id r)" "dr_id r \<in> held s" "send_loop d r attempt n s = (x, s')"
  shows "loop_post r n s x s'"
  using assms(1,3,4)
proof (induction n arbitrary: attempt s)
  case 0
  then show ?case by (auto simp: loop_post_def)
next
  case (Suc n)
  obtain v s1 where sending: "dl_send d (message_of d r) s = (v, s1)" by fastforce
  have s1: "ok s1" "dr_id r \<in> held s1" "sent s1 (dr_id r) = sent s (dr_id r) @ [message_of d r]"
    using send [OF Suc.prems(1) assms(2) Suc.prems(2) _ sending] by (auto simp: message_of_def client_message_id_def)
  show ?case
  proof (cases v)
    case (Inr w)
    obtain u s2 where marking: "dl_mark d (dr_id r) s1 = (u, s2)" by fastforce
    from mark [OF s1(1) assms(2) s1(2) marking] marking Suc.prems(3) sending Inr s1 show ?thesis
      by (intro loop_post_once) (auto simp: act_bind_def act_return_def split: sum.splits)
  next
    case (Inl e)
    show ?thesis
    proof (cases "\<exists>status headers. e = Send_error status headers \<and> \<not> is_client_error status \<and> n \<noteq> 0")
      case False
      with Inl Suc.prems(3) sending s1 show ?thesis
        by (intro loop_post_once) (auto split: send_failure.splits if_splits)
    next
      case True
      then obtain status headers where e: "e = Send_error status headers" "\<not> is_client_error status" "n \<noteq> 0"
        by blast
      obtain u s2 where sleeping:
        "dl_sleep d (min (retry_delay d attempt status headers) (dl_max_delay d)) s1 = (u, s2)" by fastforce
      note s2 = sleep [OF s1(1) assms(2) s1(2) sleeping]
      show ?thesis
      proof (cases u)
        case (Inl e')
        with \<open>v = Inl e\<close> e sleeping Suc.prems(3) sending s1(3) s2 show ?thesis
          by (intro loop_post_once) (auto simp: act_bind_def)
      next
        case (Inr w)
        have "send_loop d r (attempt + 1) n s2 = (x, s')"
          using \<open>v = Inl e\<close> e Inr sleeping Suc.prems(3) sending by (simp add: act_bind_def)
        then have "loop_post r n s2 x s'" using Suc.IH s2 by blast
        then show ?thesis by (rule loop_post_more) (use s1(3) s2 in simp)
      qed
    qed
  qed
qed

lemma deliver_done:
  assumes "ok s" "key_ok (dr_id r)" "dr_id r \<in> delivered s" "deliver d r s = (Inr y, s')"
  shows "y = Delivery_duplicate \<and> s' = s"
proof -
  obtain b s1 where asked: "dl_is_delivered d (dr_id r) s = (b, s1)" by fastforce
  from is_delivered [OF assms(1,2) asked] asked assms(3,4) show ?thesis
    by (auto simp: deliver_def act_bind_def act_return_def split: sum.splits)
qed

text \<open>What \<open>deliver\<close> promises, whatever it returns or raises.\<close>

lemma deliver_post:
  assumes "ok s" "key_ok (dr_id r)" "0 < dl_max_attempts d" "deliver d r s = (x, s')"
  shows "ok s' \<and>
    (\<exists>k. k \<le> dl_max_attempts d \<and> sent s' (dr_id r) = sent s (dr_id r) @ replicate k (message_of d r) \<and>
       (x = Inr Delivery_sent \<longrightarrow> 0 < k \<and> dr_id r \<in> delivered s') \<and>
       (x = Inr Delivery_duplicate \<or> x = Inr Delivery_in_progress \<longrightarrow> k = 0))"
proof -
  obtain b s1 where asked: "dl_is_delivered d (dr_id r) s = (b, s1)" by fastforce
  note s1 = is_delivered [OF assms(1,2) asked]
  show ?thesis
  proof (cases "b = Inr False")
    case False
    with asked s1 assms(1,4) show ?thesis
      by (cases b) (auto simp: deliver_def act_bind_def act_return_def)
  next
    case True
    obtain c s2 where reserving: "dl_reserve d (dr_id r) s = (c, s2)" by fastforce
    note s2 = reserve [OF assms(1,2) reserving]
    show ?thesis
    proof (cases "c = Inr True")
      case False
      with True asked s1 reserving s2 assms(4) show ?thesis
        by (cases c) (auto simp: deliver_def act_bind_def act_return_def)
    next
      case granted: True
      obtain y s3 where loop: "send_loop d r 1 (dl_max_attempts d) s2 = (y, s3)" by fastforce
      have post: "loop_post r (dl_max_attempts d) s2 y s3"
        by (rule send_loop_post [OF _ assms(2) _ loop]) (use s2 granted in auto)
      then obtain k where k: "k \<le> dl_max_attempts d" "0 < k"
        "sent s3 (dr_id r) = sent s (dr_id r) @ replicate k (message_of d r)"
        using assms(3) s2 by (auto simp: loop_post_def)
      show ?thesis
      proof (cases y)
        case (Inr w)
        with post granted True asked s1 reserving loop assms(4) k show ?thesis
          by (auto simp: deliver_def act_bind_def releasing_def loop_post_def)
      next
        case (Inl e)
        obtain u s4 where "dl_release d (dr_id r) s3 = (u, s4)" by fastforce
        with release [of s3 "dr_id r" u s4] post Inl granted True asked s1 reserving loop assms(2,4) k
        show ?thesis
          by (cases u) (auto simp: deliver_def act_bind_def act_raise_def releasing_def loop_post_def)
      qed
    qed
  qed
qed

end

end
