(* ===== verification/SlackService.thy ===== *)
theory SlackService
  imports SlackSafety Adapters
begin

text \<open>
  The Slack service as it is composed: \<open>RetryingSlackDelivery\<close> with its defaults over the receipts in
  memory or over the receipts in SQLite (\<open>AsyncSQLiteDeliveryReceipts\<close>), the Slack client as a script
  of answers with the log of what was posted, and the gateway over the same store. Both deliveries
  satisfy the contract \<open>delivery_port\<close>.
\<close>

section \<open>A chat with its receipts\<close>

record 'r chat =
  ch_receipts :: 'r
  ch_sent :: "slack_message list"

definition on_receipts :: "('r, 'e, 'a) act \<Rightarrow> ('r chat, delivery_error, 'a) act" where
  "on_receipts m s =
     (case m (ch_receipts s) of (x, r) \<Rightarrow> (map_error (\<lambda>_. ReceiptError) x, s\<lparr>ch_receipts := r\<rparr>))"

text \<open>
  \<open>SlackWebClientSender.send\<close>: the client answers its \<open>n\<close>-th message as \<open>script n\<close> says. A message
  that failed may still have been posted, so it is in the log.
\<close>

definition post_message :: "(nat \<Rightarrow> send_failure + unit) \<Rightarrow> slack_message \<Rightarrow> ('r chat, send_failure, unit) act" where
  "post_message script m s = (script (length (ch_sent s)), s\<lparr>ch_sent := ch_sent s @ [m]\<rparr>)"

text \<open>The coroutines of \<open>InMemoryDeliveryReceiptStore\<close>, which raise nothing.\<close>

definition receipts_reserve :: "string \<Rightarrow> (memory_receipts, py_error, bool) act" where
  "receipts_reserve i m = (Inr (fst (memory_reserve_delivery i m)), snd (memory_reserve_delivery i m))"

definition receipts_mark :: "string \<Rightarrow> (memory_receipts, py_error, unit) act" where
  "receipts_mark i m = (Inr (), memory_mark_delivered i m)"

definition receipts_release :: "string \<Rightarrow> (memory_receipts, py_error, unit) act" where
  "receipts_release i m = (Inr (), memory_release_delivery i m)"

lemmas memory_receipt_defs = receipts_reserve_def receipts_mark_def receipts_release_def
  memory_is_delivered_def memory_reserve_delivery_def memory_mark_delivered_def memory_release_delivery_def

definition memory_delivery ::
  "(string \<Rightarrow> py_float option) \<Rightarrow> (string \<Rightarrow> string) \<Rightarrow> (nat \<Rightarrow> send_failure + unit) \<Rightarrow> memory_receipts chat delivery" where
  "memory_delivery to_float uuid5 script =
     \<lparr>dl_is_delivered = (\<lambda>i s. (Inr (memory_is_delivered i (ch_receipts s)), s)),
      dl_reserve = (\<lambda>i. on_receipts (receipts_reserve i)),
      dl_mark = (\<lambda>i. on_receipts (receipts_mark i)),
      dl_release = (\<lambda>i. on_receipts (receipts_release i)),
      dl_send = post_message script,
      dl_sleep = (\<lambda>_ s. (Inr (), s)),
      dl_max_attempts = 3, dl_base_delay = 1 / 4, dl_max_delay = 30,
      dl_float = to_float, dl_uuid5 = uuid5\<rparr>"

definition sqlite_delivery ::
  "aware \<Rightarrow> (string \<Rightarrow> py_float option) \<Rightarrow> (string \<Rightarrow> string) \<Rightarrow> (nat \<Rightarrow> send_failure + unit) \<Rightarrow> store chat delivery" where
  "sqlite_delivery now to_float uuid5 script =
     \<lparr>dl_is_delivered = (\<lambda>i. on_receipts (act_query (receipt_is_delivered now i))),
      dl_reserve = (\<lambda>i. on_receipts (receipt_reserve now i)),
      dl_mark = (\<lambda>i. on_receipts (receipt_mark now i)),
      dl_release = (\<lambda>i. on_receipts (receipt_release now i)),
      dl_send = post_message script,
      dl_sleep = (\<lambda>_ s. (Inr (), s)),
      dl_max_attempts = 3, dl_base_delay = 1 / 4, dl_max_delay = 30,
      dl_float = to_float, dl_uuid5 = uuid5\<rparr>"

text \<open>The messages that were posted under the client identifier of a delivery.\<close>

definition posted :: "(string \<Rightarrow> string) \<Rightarrow> 'r chat \<Rightarrow> string \<Rightarrow> slack_message list" where
  "posted uuid5 s i = filter (\<lambda>m. sm_client_id m = uuid5 (''macmini-ai-hub:'' @ i)) (ch_sent s)"

interpretation memory_port: delivery_port "memory_delivery to_float uuid5 script" "\<lambda>_. True" "\<lambda>_. True"
  "\<lambda>s. mr_delivered (ch_receipts s)" "\<lambda>s. mr_in_flight (ch_receipts s)" "posted uuid5"
  for to_float uuid5 script
  by unfold_locales
    (auto simp: memory_delivery_def on_receipts_def memory_receipt_defs posted_def post_message_def split: if_splits)

text \<open>The receipts in memory also form a durable ledger, for the life of the process.\<close>

interpretation memory_receipt_ledger: durable_ledger "\<lambda>_. True" "\<lambda>_. True" "\<lambda>m. mr_in_flight m - mr_delivered m"
  receipts_reserve "\<lambda>i (_::unit). receipts_mark i" receipts_release
  "\<lambda>m i. if i \<in> mr_delivered m then Some () else None" "\<lambda>_. True"
proof unfold_locales
  fix s :: memory_receipts and c :: "unit ledger_call" and k and r :: unit
  assume "(if k \<in> mr_delivered s then Some () else None) = Some r"
  then show "(if k \<in> mr_delivered (snd (ledger_step receipts_reserve (\<lambda>i (_::unit). receipts_mark i)
      receipts_release c s)) then Some () else None) = Some r"
    by (cases c) (auto simp: memory_receipt_defs split: if_splits)
qed (auto simp: memory_receipt_defs split: if_splits)

section \<open>The receipts in SQLite\<close>

definition deliveries_done :: "store \<Rightarrow> string set" where
  "deliveries_done s = {i. delivery_done s i \<noteq> None}"

lemma receipt_is_delivered_Ok:
  assumes "db_inv (st_db s)" "clean_delivery_key i" "receipt_is_delivered now i s = Inr b"
  shows "b = (i \<in> deliveries_done s)"
proof -
  have valid: "valid_receipt row" if "row_of rc_id i (db_receipts (st_db s)) = Some row" for row
    using row_of_SomeD [OF that] assms(1) by (auto simp: db_inv_def tables_ok_def receipts_ok_def)
  show ?thesis
    using assms(2,3) valid
    by (auto simp: receipt_is_delivered_def is_delivery_delivered_def get_delivery_receipt_def read_store_def
        new_reservation_Ok valid_receipt_def deliveries_done_def delivery_done_def result_simps
        split: option.splits if_splits prod.splits sum.splits)
qed

lemma receipt_reserve_port:
  assumes "db_inv (st_db s)" "clean_delivery_key i" "receipt_reserve now i s = (b, s')"
  shows "db_inv (st_db s')" "b = Inr True \<Longrightarrow> i \<notin> deliveries_done s \<and> i \<notin> delivery_held s \<and> i \<in> delivery_held s'"
    "b \<noteq> Inr True \<Longrightarrow> s' = s"
  using receipt_steps_keep(1) [OF assms(1), of now i] receipt_reserve_held [OF assms(2), of now s]
    delivery_done_kept(4) [OF assms(2,1), of i _ now] assms(3)
  by (auto simp: deliveries_done_def)

lemma receipt_mark_port:
  assumes "db_inv (st_db s)" "clean_delivery_key i" "receipt_mark now i s = (u, s')"
  shows "db_inv (st_db s')" "u = Inr () \<Longrightarrow> i \<in> deliveries_done s'" "u \<noteq> Inr () \<Longrightarrow> s' = s"
  using receipt_steps_keep(2) [OF assms(1), of now i] receipt_mark_held(2) [OF assms(2,1,3)]
    durable_delivery_ledger.answer_stored [OF assms(1,2), where now = now and r = "()" and s' = s'] assms(3)
  by (auto simp: deliveries_done_def)

lemma receipt_release_port:
  assumes "db_inv (st_db s)" "clean_delivery_key i" "receipt_release now i s = (u, s')"
  shows "db_inv (st_db s')" "u = Inr () \<Longrightarrow> i \<notin> delivery_held s'"
  using receipt_steps_keep(3) [OF assms(1), of now i] receipt_release_held(1) [OF assms(2,3)] assms(3)
  by auto

lemma on_receipts_run:
  assumes "on_receipts m s = (x, s')"
  obtains y r where "m (ch_receipts s) = (y, r)" "x = map_error (\<lambda>_. ReceiptError) y" "s' = s\<lparr>ch_receipts := r\<rparr>"
  using assms by (auto simp: on_receipts_def split: prod.splits)

lemma map_error_Inr: "map_error h y = Inr z \<longleftrightarrow> y = Inr z"
  by (cases y) auto

lemma posted_receipts [simp]: "posted uuid5 (s\<lparr>ch_receipts := r\<rparr>) = posted uuid5 s"
  by (simp add: posted_def fun_eq_iff)

interpretation sqlite_port: delivery_port "sqlite_delivery now to_float uuid5 script"
  "\<lambda>s. db_inv (st_db (ch_receipts s))" clean_delivery_key "\<lambda>s. deliveries_done (ch_receipts s)"
  "\<lambda>s. delivery_held (ch_receipts s)" "posted uuid5" for now to_float uuid5 script
proof
  fix s :: "store chat" and i b s'
  assume ok: "db_inv (st_db (ch_receipts s))" "clean_delivery_key i"
  show "s' = s \<and> (\<forall>x. b = Inr x \<longrightarrow> x = (i \<in> deliveries_done (ch_receipts s)))"
    if "dl_is_delivered (sqlite_delivery now to_float uuid5 script) i s = (b, s')"
    using that receipt_is_delivered_Ok [OF ok, of now]
    by (auto simp: sqlite_delivery_def act_query_def map_error_Inr elim!: on_receipts_run)
  show "db_inv (st_db (ch_receipts s')) \<and> posted uuid5 s' = posted uuid5 s \<and>
      (b = Inr True \<longrightarrow> i \<notin> deliveries_done (ch_receipts s) \<and> i \<notin> delivery_held (ch_receipts s) \<and>
         i \<in> delivery_held (ch_receipts s')) \<and>
      (b \<noteq> Inr True \<longrightarrow> delivery_held (ch_receipts s') = delivery_held (ch_receipts s) \<and>
         deliveries_done (ch_receipts s') = deliveries_done (ch_receipts s))"
    if act: "dl_reserve (sqlite_delivery now to_float uuid5 script) i s = (b, s')"
  proof -
    obtain y r where run: "receipt_reserve now i (ch_receipts s) = (y, r)"
      and res: "b = map_error (\<lambda>_. ReceiptError) y" "s' = s\<lparr>ch_receipts := r\<rparr>"
      using act by (auto simp: sqlite_delivery_def elim: on_receipts_run)
    from receipt_reserve_port [OF ok run] show ?thesis using res by (auto simp: map_error_Inr)
  qed
next
  fix s :: "store chat" and i u s'
  assume ok: "db_inv (st_db (ch_receipts s))" "clean_delivery_key i" "i \<in> delivery_held (ch_receipts s)"
  show "db_inv (st_db (ch_receipts s')) \<and> posted uuid5 s' = posted uuid5 s \<and>
      (u = Inr () \<longrightarrow> i \<in> deliveries_done (ch_receipts s')) \<and> (u \<noteq> Inr () \<longrightarrow> i \<in> delivery_held (ch_receipts s'))"
    if act: "dl_mark (sqlite_delivery now to_float uuid5 script) i s = (u, s')"
  proof -
    obtain y r where run: "receipt_mark now i (ch_receipts s) = (y, r)"
      and res: "u = map_error (\<lambda>_. ReceiptError) y" "s' = s\<lparr>ch_receipts := r\<rparr>"
      using act by (auto simp: sqlite_delivery_def elim: on_receipts_run)
    from receipt_mark_port [OF ok(1,2) run] show ?thesis using res ok(3) by (auto simp: map_error_Inr)
  qed
  show "db_inv (st_db (ch_receipts s')) \<and> posted uuid5 s' = posted uuid5 s \<and>
      (u = Inr () \<longrightarrow> i \<notin> delivery_held (ch_receipts s'))"
    if act: "dl_release (sqlite_delivery now to_float uuid5 script) i s = (u, s')"
  proof -
    obtain y r where run: "receipt_release now i (ch_receipts s) = (y, r)"
      and res: "u = map_error (\<lambda>_. ReceiptError) y" "s' = s\<lparr>ch_receipts := r\<rparr>"
      using act by (auto simp: sqlite_delivery_def elim: on_receipts_run)
    from receipt_release_port [OF ok(1,2) run] show ?thesis using res by (auto simp: map_error_Inr)
  qed
  show "db_inv (st_db (ch_receipts s')) \<and> i \<in> delivery_held (ch_receipts s') \<and> posted uuid5 s' i = posted uuid5 s i"
    if "dl_sleep (sqlite_delivery now to_float uuid5 script) t s = (u, s')" for t
    using that ok by (auto simp: sqlite_delivery_def)
next
  fix s :: "store chat" and i and m :: slack_message and v s'
  assume ok: "db_inv (st_db (ch_receipts s))" "clean_delivery_key i" "i \<in> delivery_held (ch_receipts s)"
    and m: "sm_client_id m = dl_uuid5 (sqlite_delivery now to_float uuid5 script) (''macmini-ai-hub:'' @ i)"
  show "db_inv (st_db (ch_receipts s')) \<and> i \<in> delivery_held (ch_receipts s') \<and>
      posted uuid5 s' i = posted uuid5 s i @ [m]"
    if "dl_send (sqlite_delivery now to_float uuid5 script) m s = (v, s')"
    using that ok m by (auto simp: sqlite_delivery_def post_message_def posted_def)
qed

section \<open>The service over the gateway\<close>

definition hub_slack ::
  "surroundings \<Rightarrow> config_bundle \<Rightarrow> string set \<Rightarrow> (string \<Rightarrow> py_float option) \<Rightarrow> (string \<Rightarrow> string) \<Rightarrow>
   (nat \<Rightarrow> send_failure + unit) \<Rightarrow> store chat slack_service" where
  "hub_slack sr b allowed to_float uuid5 script =
     \<lparr>ss_handle = (\<lambda>r s. case handle (sqlite_gateway sr b allowed) r (ch_receipts s) of
        (x, st) \<Rightarrow> (x, s\<lparr>ch_receipts := st\<rparr>)),
      ss_delivery = sqlite_delivery (sr_now sr) to_float uuid5 script,
      ss_bot = None\<rparr>"

end
