(* ===== verification/Notifications.thy ===== *)
theory Notifications
  imports SlackService
begin

text \<open>
  \<open>application/notifications.py\<close>: what a task update says, to which stored route it goes, and the
  replay of the updates that have no receipt. The state is the store with its receipts and the log of
  the posted messages.
\<close>

section \<open>The update of a task\<close>

definition SLACK_SOURCE :: string where "SLACK_SOURCE = ''slack''"

definition REPLAYABLE_STATUSES :: "task_status list" where
  "REPLAYABLE_STATUSES = [Running, Blocked, Completed, Failed, Cancelled]"

text \<open>\<open>_CONTROL_CHARACTERS.sub(" ", value)\<close>: every run of control characters becomes one blank.\<close>

fun blank_controls :: "bool \<Rightarrow> string \<Rightarrow> string" where
  "blank_controls inside [] = []"
| "blank_controls inside (c # cs) =
     (if is_control c then (if inside then [] else '' '') @ blank_controls True cs
      else c # blank_controls False cs)"

fun safe_optional_line :: "json option \<Rightarrow> string option" where
  "safe_optional_line (Some (JStr value)) =
     (let single_line = py_strip (blank_controls False value) in
      if single_line = [] then None else Some (redact_sensitive_text 500 single_line))"
| "safe_optional_line _ = None"

definition MAX_RESULT_ITEMS :: nat where "MAX_RESULT_ITEMS = 20"

text \<open>The loop of \<open>_safe_lines\<close>; \<open>n\<close> lines have been collected.\<close>

fun collect_lines :: "nat \<Rightarrow> json list \<Rightarrow> string list" where
  "collect_lines n [] = []"
| "collect_lines n (JStr s # vs) =
     (case safe_optional_line (Some (JStr s)) of
        None \<Rightarrow> if n = MAX_RESULT_ITEMS then [] else collect_lines n vs
      | Some line \<Rightarrow> line # (if n + 1 = MAX_RESULT_ITEMS then [] else collect_lines (n + 1) vs))"
| "collect_lines n (_ # vs) = collect_lines n vs"

fun safe_lines :: "json option \<Rightarrow> string list" where
  "safe_lines (Some (JArr vs)) = collect_lines 0 vs"
| "safe_lines _ = []"

definition matching_lifecycle_payload :: "task \<Rightarrow> stored_event list \<Rightarrow> json_object" where
  "matching_lifecycle_payload t events =
     (case find (\<lambda>e. ev_task (se_envelope e) = Some (t_id t) \<and>
                     map_of (ev_payload (se_envelope e)) ''status'' = Some (JStr (status_value (t_status t))))
            (rev events) of
        Some e \<Rightarrow> ev_payload (se_envelope e)
      | None \<Rightarrow> [])"

definition run_status_value :: "run_status \<Rightarrow> string" where
  "run_status_value st =
     (case st of RunQueued \<Rightarrow> ''queued'' | RunRunning \<Rightarrow> ''running'' | RunSucceeded \<Rightarrow> ''succeeded''
      | RunFailed \<Rightarrow> ''failed'' | RunTimedOut \<Rightarrow> ''timed-out'' | RunCancelled \<Rightarrow> ''cancelled'' | RunInterrupted \<Rightarrow> ''interrupted'')"

text \<open>The reason in the payload, or else the error code of the latest run.\<close>

definition error_value :: "json_object \<Rightarrow> run_record option \<Rightarrow> json option" where
  "error_value payload latest =
     (case map_of payload ''reason'' of
        Some JNull \<Rightarrow> Option.bind latest (\<lambda>r. map_option JStr (run_error_code r))
      | None \<Rightarrow> Option.bind latest (\<lambda>r. map_option JStr (run_error_code r))
      | Some v \<Rightarrow> Some v)"

definition latest_run :: "run_record list \<Rightarrow> run_record option" where
  "latest_run runs = (if runs = [] then None else Some (last runs))"

definition task_update :: "task \<Rightarrow> stored_event list \<Rightarrow> run_record list \<Rightarrow> value_error + lifecycle_update" where
  "task_update t events runs =
     (let payload = matching_lifecycle_payload t events; latest = latest_run runs in
      TaskLifecycleUpdate_validate
        \<lparr>lu_notification = t_id t @ '':'' @ status_value (t_status t),
         lu_task = t_id t, lu_status = t_status t, lu_project = t_project t, lu_team = t_team t,
         lu_summary = [], lu_changed_files = safe_lines (map_of payload ''changed_files''), lu_tests = [],
         lu_runtime_outcome = Option.bind latest (\<lambda>r.
           safe_optional_line (Some (JStr (run_runtime r @ '': '' @ run_status_value (run_status r))))),
         lu_branch = safe_optional_line (map_of payload ''branch''),
         lu_error = (if t_status t \<in> {Blocked, Failed, Cancelled}
                     then safe_optional_line (error_value payload latest) else None)\<rparr>)"

section \<open>Notifying and replaying\<close>

datatype notifier_error = NotifierStore py_error | NotifierValue | NotifierDelivery notify_error

text \<open>A query of the store behind the chat.\<close>

definition asking :: "(store \<Rightarrow> py_error + 'a) \<Rightarrow> (store chat, notifier_error, 'a) act" where
  "asking query s = (map_error NotifierStore (query (ch_receipts s)), s)"

definition notify_task :: "store chat delivery \<Rightarrow> task \<Rightarrow> (store chat, notifier_error, delivery_outcome option) act" where
  "notify_task d t =
     act_bind (asking (get_task_route (t_id t))) (\<lambda>route.
     case route of
       None \<Rightarrow> act_return None
     | Some r \<Rightarrow>
         if route_source r \<noteq> SLACK_SOURCE then act_return None
         else
           act_bind (asking (list_events (Some (t_id t)) 0 10000)) (\<lambda>events.
           act_bind (asking (list_runs (t_id t))) (\<lambda>runs.
           act_bind (act_lift (map_error (\<lambda>_. NotifierValue) (task_update t events runs))) (\<lambda>u.
           act_bind (act_lift (map_error (\<lambda>_. NotifierValue) (decode_slack_route_target (route_target r)))) (\<lambda>target.
           act_bind (map_raise NotifierDelivery (notify_slack d target u)) (\<lambda>outcome.
           act_return (Some outcome)))))))"

definition update_id :: "task \<Rightarrow> string" where
  "update_id t = ''task-update:'' @ t_id t @ '':'' @ status_value (t_status t)"

text \<open>The body of the loop of \<open>reconcile_pending\<close>, inside its \<open>try\<close>.\<close>

definition replay_route :: "aware \<Rightarrow> store chat delivery \<Rightarrow> task_route \<Rightarrow> (store chat, notifier_error, unit) act" where
  "replay_route now d route =
     act_bind (asking (get_task (route_task route))) (\<lambda>t.
     if t_status t \<notin> set REPLAYABLE_STATUSES then act_return ()
     else act_bind (asking (is_delivery_delivered now (update_id t))) (\<lambda>delivered.
       if delivered then act_return ()
       else act_bind (notify_task d t) (\<lambda>_. act_return ())))"

text \<open>\<open>except Exception\<close> lets a cancellation through.\<close>

definition interrupts :: "notifier_error \<Rightarrow> bool" where
  "interrupts e \<longleftrightarrow> e = NotifierDelivery (NotifyDelivery DeliveryInterrupted)"

fun replay_routes :: "aware \<Rightarrow> store chat delivery \<Rightarrow> task_route list \<Rightarrow> (store chat, notifier_error, string list) act" where
  "replay_routes now d [] s = (Inr [], s)"
| "replay_routes now d (route # routes) s =
     (if route_source route \<noteq> SLACK_SOURCE then replay_routes now d routes s
      else case replay_route now d route s of
        (Inr _, s') \<Rightarrow> replay_routes now d routes s'
      | (Inl e, s') \<Rightarrow>
          if interrupts e then (Inl e, s')
          else act_bind (replay_routes now d routes) (\<lambda>failed. act_return (route_task route # failed)) s')"

definition reconcile_pending :: "aware \<Rightarrow> store chat delivery \<Rightarrow> (store chat, notifier_error, string list) act" where
  "reconcile_pending now d = act_bind (asking (list_task_routes 1000)) (replay_routes now d)"

section \<open>Starting the hub\<close>

text \<open>\<open>HubApplication.initialize\<close>: crash residue is reconciled before any interface opens.\<close>

definition on_store :: "'a store_act \<Rightarrow> (store chat, notifier_error, 'a) act" where
  "on_store m s =
     (case m (ch_receipts s) of (x, st) \<Rightarrow> (map_error NotifierStore x, s\<lparr>ch_receipts := st\<rparr>))"

definition initialize :: "(nat \<Rightarrow> uuid) \<Rightarrow> aware \<Rightarrow> store chat delivery option \<Rightarrow> (store chat, notifier_error, string list) act" where
  "initialize new_id now notifier =
     act_bind (on_store (reconcile_interrupted_running now new_id None)) (\<lambda>_.
     act_bind (on_store receipt_reconcile) (\<lambda>_.
     act_bind (on_store durable_reconcile) (\<lambda>_.
     case notifier of None \<Rightarrow> act_return [] | Some d \<Rightarrow> reconcile_pending now d)))"

end
