(* ===== verification/RedactionSafety.thy ===== *)
theory RedactionSafety
  imports Redaction
begin

text \<open>
  What redaction can and cannot do to a text: its characters come from the text or from the
  replacements, something visible stays visible, the length limit is kept; and in a document no
  secret key keeps its value.
\<close>

section \<open>Characters\<close>

definition state_chars :: "(char \<Rightarrow> bool) \<Rightarrow> rx_state \<Rightarrow> bool" where
  "state_chars P st \<longleftrightarrow> list_all P (rx_rest st) \<and> list_all (list_all P) (rx_groups st)"

lemma take_char_chars: "state_chars P st \<Longrightarrow> u \<in> set (take_char Q st) \<Longrightarrow> state_chars P u"
  by (cases "rx_rest st") (auto simp: take_char_def state_chars_def split: if_splits)

lemma repeat_chars:
  assumes "\<And>st u. state_chars P st \<Longrightarrow> u \<in> set (f st) \<Longrightarrow> state_chars P u"
  shows "state_chars P st \<Longrightarrow> u \<in> set (repeat_more f n st) \<Longrightarrow> state_chars P u"
    "state_chars P st \<Longrightarrow> u \<in> set (repeat_less f n st) \<Longrightarrow> state_chars P u"
  by (induction n arbitrary: st) (use assms in auto)

lemma take_text_chars: "state_chars P st \<Longrightarrow> u \<in> set (take_text t st) \<Longrightarrow> state_chars P u"
  by (induction t arbitrary: st) (auto dest: take_char_chars)

lemma matches_chars: "state_chars P st \<Longrightarrow> u \<in> set (matches r st) \<Longrightarrow> state_chars P u"
proof (induction r arbitrary: st u)
  case (Chars Q)
  then show ?case by (auto dest: take_char_chars)
next
  case Word_edge
  then show ?case by (auto split: if_splits)
next
  case (Many r)
  from repeat_chars(1) [of P "matches r", OF Many.IH Many.prems(1)] Many.prems(2) show ?case by simp
next
  case (Few r)
  from repeat_chars(2) [of P "matches r", OF Few.IH Few.prems(1)] Few.prems(2) show ?case by simp
next
  case (Group r)
  then obtain v where v: "v \<in> set (matches r st)"
    "u = v\<lparr>rx_groups := take (length (rx_rest st) - length (rx_rest v)) (rx_rest st) # rx_groups v\<rparr>" by auto
  have "list_all P (take n (rx_rest st))" for n
    using Group.prems(1) by (auto simp: state_chars_def list_all_iff dest: in_set_takeD)
  with Group.IH [OF Group.prems(1) v(1)] v(2) show ?case by (simp add: state_chars_def)
next
  case Same_as_group
  then show ?case by (auto dest: take_text_chars split: list.splits)
next
  case (Cat a b)
  from Cat.prems(2) obtain v where v: "v \<in> set (matches a st)" "u \<in> set (matches b v)" by auto
  from Cat.IH(2) [OF Cat.IH(1) [OF Cat.prems(1) v(1)] v(2)] show ?case .
next
  case (Alt a b)
  from Alt.prems(2) have "u \<in> set (matches a st) \<or> u \<in> set (matches b st)" by simp
  then show ?case using Alt.IH(1) [OF Alt.prems(1), of u] Alt.IH(2) [OF Alt.prems(1), of u] by (elim disjE)
qed

lemma rx_sub_chars:
  assumes "list_all P s" "\<And>groups. list_all (list_all P) groups \<Longrightarrow> list_all P (f groups)"
  shows "list_all P (rx_sub r f prev s)"
  using assms
proof (induction r f prev s rule: rx_sub.induct)
  case (2 r f prev c cs)
  have start: "state_chars P \<lparr>rx_prev = prev, rx_rest = c # cs, rx_groups = []\<rparr>"
    using 2(4) by (simp add: state_chars_def)
  show ?case
  proof (cases "matches r \<lparr>rx_prev = prev, rx_rest = c # cs, rx_groups = []\<rparr>")
    case Nil
    with 2 show ?thesis by (simp add: rx_sub.simps(2))
  next
    case (Cons u us)
    then have "state_chars P u" using matches_chars [OF start, of u r] by simp
    then have "list_all P (f (rev (rx_groups u)))" "list_all P (rx_rest u)"
      using 2(5) [of "rev (rx_groups u)"] by (simp_all add: state_chars_def)
    with Cons 2 show ?thesis by (simp add: rx_sub.simps(2))
  qed
qed simp

lemma rx_sub_visible:
  assumes "list_ex P s" "\<And>groups. list_ex P (f groups)"
  shows "list_ex P (rx_sub r f prev s)"
  using assms
proof (induction r f prev s rule: rx_sub.induct)
  case (2 r f prev c cs)
  show ?case
  proof (cases "matches r \<lparr>rx_prev = prev, rx_rest = c # cs, rx_groups = []\<rparr>")
    case Nil
    with 2 show ?thesis by (auto simp: rx_sub.simps(2))
  next
    case (Cons u us)
    with 2 show ?thesis by (auto simp: rx_sub.simps(2))
  qed
qed simp

lemma sub_all_visible: "list_ex P s \<Longrightarrow> (\<And>groups. list_ex P (f groups)) \<Longrightarrow> list_ex P (sub_all r f s)"
  by (simp add: sub_all_def rx_sub_visible)

lemma sub_all_chars:
  "list_all P s \<Longrightarrow> (\<And>groups. list_all (list_all P) groups \<Longrightarrow> list_all P (f groups)) \<Longrightarrow> list_all P (sub_all r f s)"
  by (simp add: sub_all_def rx_sub_chars)

lemma keep_groups_chars:
  "list_all P REDACTED \<Longrightarrow> list_all (list_all P) groups \<Longrightarrow> list_all P (keep_groups n groups)"
  by (auto simp: keep_groups_def list_all_iff dest: in_set_takeD)

lemma redact_credentials_chars:
  assumes "list_all P s" "list_all P REDACTED" "list_all P ''Bearer ''"
  shows "list_all P (redact_credentials s)"
  unfolding redact_credentials_def Let_def
  using assms by (intro sub_all_chars keep_groups_chars) auto

lemma redact_credentials_visible:
  assumes "list_ex P s" "list_ex P REDACTED"
  shows "list_ex P (redact_credentials s)"
  unfolding redact_credentials_def Let_def
  using assms by (intro sub_all_visible) (auto simp: keep_groups_def)

section \<open>Length\<close>

lemma py_rstrip_length: "length (py_rstrip s) \<le> length s"
  using length_dropWhile_le [of is_py_space "rev s"] by (simp add: py_rstrip_def)

lemma redact_sensitive_length: "14 \<le> n \<Longrightarrow> length (redact_sensitive_text n s) \<le> n"
  using py_rstrip_length [of "take (n - 14) (redact_credentials s)"]
  by (auto simp: redact_sensitive_text_def Let_def truncation_mark_def)

lemma redact_sensitive_chars:
  assumes "list_all P s" "list_all P (REDACTED @ ''Bearer '' @ truncation_mark)"
  shows "list_all P (redact_sensitive_text n s)"
proof -
  have "list_all P (redact_credentials s)" using assms by (auto intro: redact_credentials_chars)
  moreover have "list_all P (py_rstrip (take m t))" if "list_all P t" for m t
    using that by (auto simp: py_rstrip_def list_all_iff dest!: set_dropWhileD in_set_takeD)
  ultimately show ?thesis using assms(2) by (simp add: redact_sensitive_text_def Let_def)
qed

lemma redact_sensitive_visible:
  assumes "list_ex P s" "list_ex P REDACTED" "list_ex P truncation_mark"
  shows "list_ex P (redact_sensitive_text n s)"
  using redact_credentials_visible [OF assms(1,2)] assms(3) by (simp add: redact_sensitive_text_def Let_def)

section \<open>Documents\<close>

text \<open>No secret key of a document keeps a value, at any depth, and the shape stays.\<close>

fun secrets_hidden :: "json \<Rightarrow> bool" where
  "secrets_hidden (JObj doc) \<longleftrightarrow>
     list_all (\<lambda>(key, child). if is_secret_key key then child = JStr REDACTED else secrets_hidden child) doc"
| "secrets_hidden (JArr vs) \<longleftrightarrow> list_all secrets_hidden vs"
| "secrets_hidden _ \<longleftrightarrow> True"

lemma redact_secrets_hidden: "secrets_hidden (redact_secrets v)"
  by (induction v rule: redact_secrets.induct) (auto simp: list_all_iff)

end
