(* ===== verification/NotificationSafety.thy ===== *)
theory NotificationSafety
  imports Notifications RedactionSafety
begin

text \<open>
  Lemmas on notifications: every line of an update is a safe line, so the update of a valid task always
  passes its validation; a delivery changes nothing but the receipts; and one round of the replay
  delivers the update of its task, unless it reports a failure.
\<close>

section \<open>Lines\<close>

definition plain :: "char \<Rightarrow> bool" where "plain c \<longleftrightarrow> \<not> is_control c"

definition visible :: "char \<Rightarrow> bool" where "visible c \<longleftrightarrow> \<not> is_space c"

lemma marks_plain: "list_all plain (REDACTED @ ''Bearer '' @ truncation_mark)"
  by (simp add: plain_def is_control_def REDACTED_def truncation_mark_def less_eq_char_def)

lemma marks_visible: "list_ex visible REDACTED" "list_ex visible truncation_mark"
  by (simp_all add: visible_def REDACTED_def truncation_mark_def is_space_def in_range_def)

lemma blank_controls_plain: "list_all plain (blank_controls b s)"
  by (induction b s rule: blank_controls.induct) (auto simp: plain_def is_control_def less_eq_char_def)

lemma strip_subset: "list_all P s \<Longrightarrow> list_all P (strip s)"
  by (auto simp: strip_def list_all_iff dest!: set_dropWhileD)

lemma py_strip_subset: "list_all P s \<Longrightarrow> list_all P (py_strip s)"
  by (auto simp: py_strip_def py_lstrip_def py_rstrip_def list_all_iff dest!: set_dropWhileD)

lemma strip_length: "length (strip s) \<le> length s"
  using length_dropWhile_le [of is_space "rev (dropWhile is_space s)"] length_dropWhile_le [of is_space s]
  by (simp add: strip_def)

lemma strip_visible:
  assumes "list_ex visible s"
  shows "strip s \<noteq> []"
proof
  assume "strip s = []"
  then have all: "\<forall>x \<in> set (dropWhile is_space s). is_space x" by (simp add: strip_def)
  have "dropWhile is_space s = []"
  proof (rule ccontr)
    assume "dropWhile is_space s \<noteq> []"
    with hd_dropWhile [OF this] all show False by simp
  qed
  with assms show False by (auto simp: visible_def list_ex_iff)
qed

lemma py_strip_visible:
  assumes "py_strip s \<noteq> []"
  shows "list_ex visible (py_strip s)"
proof -
  have "py_lstrip s \<noteq> []" using assms by (auto simp: py_strip_def py_rstrip_def)
  then have "\<not> is_py_space (hd (py_lstrip s))" by (simp add: py_lstrip_def hd_dropWhile)
  moreover have "hd (py_lstrip s) \<in> set (py_strip s)"
  proof -
    obtain c cs where l: "py_lstrip s = c # cs" using \<open>py_lstrip s \<noteq> []\<close> by (cases "py_lstrip s") auto
    then have "\<not> is_py_space c" using \<open>\<not> is_py_space (hd (py_lstrip s))\<close> by simp
    then have "dropWhile is_py_space (rev cs @ [c]) = dropWhile is_py_space (rev cs) @ [c]"
      by (cases "\<exists>x \<in> set (rev cs). \<not> is_py_space x") (auto simp: dropWhile_append)
    then show ?thesis using l by (simp add: py_strip_def py_rstrip_def)
  qed
  ultimately show ?thesis using space_is_py_space by (auto simp: list_ex_iff visible_def)
qed

lemma safe_line_checked:
  assumes "safe_optional_line v = Some line"
  shows "checked SafeLine line = Inr (strip line)"
proof -
  obtain s where s: "v = Some (JStr s)" "py_strip (blank_controls False s) \<noteq> []"
    "line = redact_sensitive_text 500 (py_strip (blank_controls False s))"
    using assms by (cases v rule: safe_optional_line.cases) (auto simp: Let_def split: if_splits)
  have "list_all plain line" unfolding s(3)
    by (rule redact_sensitive_chars [OF py_strip_subset [OF blank_controls_plain] marks_plain])
  then have "list_all plain (strip line)" by (rule strip_subset)
  moreover have "list_ex visible line" unfolding s(3)
    by (rule redact_sensitive_visible [OF py_strip_visible [OF s(2)] marks_visible])
  then have "strip line \<noteq> []" by (rule strip_visible)
  moreover have "length (strip line) \<le> 500"
    using strip_length [of line] redact_sensitive_length [of 500] by (simp add: s(3) order_trans)
  ultimately show ?thesis by (simp add: checked_def meets_def SafeLine_def plain_def [abs_def] Suc_le_eq)
qed

lemma safe_line_opt: "\<exists>x. checked_opt SafeLine (safe_optional_line v) = Inr x"
  using safe_line_checked [of v] by (cases "safe_optional_line v") auto

lemma collect_lines_checked:
  "n < MAX_RESULT_ITEMS \<Longrightarrow> length (collect_lines n vs) + n \<le> MAX_RESULT_ITEMS \<and>
     (\<exists>ys. traverse (checked SafeLine) (collect_lines n vs) = Inr ys \<and> length ys = length (collect_lines n vs))"
proof (induction n vs rule: collect_lines.induct)
  case (2 n s vs)
  show ?case
  proof (cases "safe_optional_line (Some (JStr s))")
    case None
    with 2 show ?thesis by auto
  next
    case (Some line)
    with 2 safe_line_checked [OF Some] show ?thesis by (auto simp del: safe_optional_line.simps)
  qed
qed auto

lemma safe_lines_checked: "\<exists>ys. checked_lines (safe_lines v) = Inr ys"
proof (cases "\<exists>vs. v = Some (JArr vs)")
  case True
  then obtain vs where "v = Some (JArr vs)" by blast
  with collect_lines_checked [of 0 vs] show ?thesis
    by (auto simp: checked_lines_def require_def MAX_RESULT_ITEMS_def)
next
  case False
  then have "safe_lines v = []" by (cases v rule: safe_lines.cases) auto
  then show ?thesis by (simp add: checked_lines_def require_def)
qed

section \<open>The update of a valid task\<close>

lemma status_value_chars: "status_value st \<noteq> [] \<and> length (status_value st) \<le> 9 \<and> list_all (\<lambda>c. is_lower c) (status_value st)"
  by (cases st) (simp_all add: char_class_defs)

lemma update_id_clean:
  assumes "clean TaskId i"
  shows "clean OpaqueId (i @ '':'' @ status_value st)" "clean OpaqueId (''task-update:'' @ i @ '':'' @ status_value st)"
    "clean OpaqueRouteValue (''task-update:'' @ i @ '':'' @ status_value st)"
proof -
  have i: "i \<noteq> []" "length i \<le> 69" "list_all is_opaque_char i"
  proof -
    show "i \<noteq> []" using task_id_word(1) [OF assms] .
    show "length i \<le> 69" using assms by (simp add: clean_iff meets_def TaskId_def)
    show "list_all is_opaque_char i"
    proof -
      have pat: "record_id_pattern ''TASK-'' i" using task_id_word(4) [OF assms] .
      have "list_all is_opaque_char ''TASK-''" by (simp add: char_class_defs)
      moreover have "list_all is_opaque_char (drop (length ''TASK-'') i)"
        using pat by (cases "drop (length ''TASK-'') i")
          (auto simp: record_id_pattern_def list_all_iff is_opaque_char_def is_alnum_def is_id_char_def)
      moreover have "i = ''TASK-'' @ drop (length ''TASK-'') i"
        using pat append_take_drop_id [of "length ''TASK-''" i] unfolding record_id_pattern_def by metis
      ultimately show ?thesis by (metis list_all_append)
    qed
  qed
  have st: "status_value st \<noteq> []" "length (status_value st) \<le> 9" "list_all is_opaque_char (status_value st)"
    using status_value_chars [of st]
    by (auto simp: list_all_iff is_opaque_char_def is_alnum_def)
  have body: "list_all is_opaque_char (i @ '':'' @ status_value st)"
    "list_all is_opaque_char (''task-update:'' @ i @ '':'' @ status_value st)"
    using i st by (simp_all add: is_opaque_char_def is_alnum_def is_lower_def in_range_def)
  have clean: "clean OpaqueId s" if "list_all is_opaque_char s" "s \<noteq> []" "length s \<le> 255" for s
  proof -
    have "is_opaque_char c \<Longrightarrow> \<not> is_control c" for c
      using alnum_plain [of c] by (auto simp: is_opaque_char_def is_control_def less_eq_char_def)
    with that(1) opaque_not_space have "list_all (\<lambda>c. \<not> is_space c) s" "list_all (\<lambda>c. \<not> is_control c) s"
      by (auto elim!: list.pred_mono_strong)
    then show ?thesis using that(2,3) by (simp add: clean_iff meets_def OpaqueId_def strip_no_space Suc_le_eq)
  qed
  show "clean OpaqueId (i @ '':'' @ status_value st)" by (rule clean [OF body(1)]) (use i st in auto)
  show "clean OpaqueId (''task-update:'' @ i @ '':'' @ status_value st)"
    by (rule clean [OF body(2)]) (use i st in auto)
  have "list_all (\<lambda>c. \<not> is_space c) (''task-update:'' @ i @ '':'' @ status_value st)"
    using body(2) opaque_not_space by (auto elim!: list.pred_mono_strong)
  moreover have "is_alnum (CHR ''t'')" by (simp add: char_class_defs)
  ultimately show "clean OpaqueRouteValue (''task-update:'' @ i @ '':'' @ status_value st)"
    using body(2) i st by (simp add: clean_iff meets_def OpaqueRouteValue_def strip_no_space)
qed

lemma task_update_Ok:
  assumes "valid_task t"
  shows "\<exists>u. task_update t events runs = Inr u \<and> lu_task u = t_id t \<and> lu_status u = t_status t \<and>
    lu_notification u = t_id t @ '':'' @ status_value (t_status t)"
proof -
  have t: "clean TaskId (t_id t)" "clean Identifier (t_project t)" "clean Identifier (t_team t)"
    using assms by (simp_all add: valid_task_iff fields_clean_def)
  let ?payload = "matching_lifecycle_payload t events"
  let ?latest = "latest_run runs"
  obtain files where files: "checked_lines (safe_lines (map_of ?payload ''changed_files'')) = Inr files"
    using safe_lines_checked by blast
  obtain outcome where outcome: "checked_opt SafeLine (Option.bind ?latest (\<lambda>r.
      safe_optional_line (Some (JStr (run_runtime r @ '': '' @ run_status_value (run_status r)))))) = Inr outcome"
    using safe_line_opt by (cases ?latest) (fastforce simp del: safe_optional_line.simps)+
  obtain branch where branch: "checked_opt SafeLine (safe_optional_line (map_of ?payload ''branch'')) = Inr branch"
    using safe_line_opt by blast
  obtain err where err: "checked_opt SafeLine (if t_status t \<in> {Blocked, Failed, Cancelled}
      then safe_optional_line (error_value ?payload ?latest) else None) = Inr err"
    using safe_line_opt by (cases "t_status t \<in> {Blocked, Failed, Cancelled}") (auto simp del: safe_optional_line.simps)
  have none: "checked_lines [] = Inr []" by (simp add: checked_lines_def require_def)
  show ?thesis
    unfolding task_update_def Let_def TaskLifecycleUpdate_validate_def
    using files outcome branch err none t update_id_clean(1) [OF t(1)]
    by (simp del: safe_optional_line.simps safe_lines.simps)
qed

lemma update_request_Ok:
  assumes "clean OpaqueId (''task-update:'' @ lu_notification u)"
  shows "\<exists>r. update_request route u = Inr r \<and> dr_id r = ''task-update:'' @ lu_notification u \<and>
    dr_route r = route \<and> length (dr_text r) \<le> 4000"
proof -
  have "list_ex visible (join [CHR 0x0A] (update_lines u))"
  proof -
    have "join [CHR 0x0A] (x # y # xs) = x @ [CHR 0x0A] @ join [CHR 0x0A] (y # xs)" for x y xs by simp
    then show ?thesis
      by (simp add: update_lines_def visible_def is_space_def in_range_def)
  qed
  then have "list_ex visible (format_task_update u)"
    unfolding format_task_update_def by (rule redact_sensitive_visible [OF _ marks_visible])
  then have "strip (format_task_update u) \<noteq> []" by (rule strip_visible)
  moreover have "length (strip (format_task_update u)) \<le> 4000"
    using strip_length [of "format_task_update u"] redact_sensitive_length [of 4000]
    by (simp add: format_task_update_def order_trans)
  ultimately have "checked DeliveryText (format_task_update u) = Inr (strip (format_task_update u))"
    "length (strip (format_task_update u)) \<le> 4000"
    by (simp_all add: checked_def meets_def DeliveryText_def Suc_le_eq)
  then show ?thesis
    using assms by (simp add: update_request_def SlackDeliveryRequest_validate_def)
qed

section \<open>A delivery changes the receipts only\<close>

definition receipts_moved :: "string \<Rightarrow> store \<Rightarrow> store \<Rightarrow> bool" where
  "receipts_moved i s s' \<longleftrightarrow>
     (\<exists>f. s' = s\<lparr>st_db := db_receipts_update f (st_db s)\<rparr>) \<and>
     deliveries_done s \<subseteq> deliveries_done s' \<and> delivery_held s' \<subseteq> insert i (delivery_held s)"

lemma receipts_moved_refl: "receipts_moved i s s"
proof -
  have "s = s\<lparr>st_db := db_receipts_update (\<lambda>x. x) (st_db s)\<rparr>" by simp
  then show ?thesis unfolding receipts_moved_def by blast
qed

lemma receipts_moved_trans:
  assumes "receipts_moved i s s1" "receipts_moved i s1 s2"
  shows "receipts_moved i s s2"
proof -
  obtain f g where fg: "s1 = s\<lparr>st_db := db_receipts_update f (st_db s)\<rparr>"
    "s2 = s1\<lparr>st_db := db_receipts_update g (st_db s1)\<rparr>"
    using assms by (auto simp: receipts_moved_def)
  then have "s2 = s\<lparr>st_db := db_receipts_update (\<lambda>x. g (f x)) (st_db s)\<rparr>" by (cases s) (simp add: comp_def)
  with assms show ?thesis unfolding receipts_moved_def by blast
qed

lemma receipt_ops_moved:
  assumes "db_inv (st_db s)" "clean_delivery_key i"
  shows "receipts_moved i s (snd (receipt_reserve now i s))" "receipts_moved i s (snd (receipt_mark now i s))"
    "receipts_moved i s (snd (receipt_release now i s))"
proof -
  have more: "deliveries_done s \<subseteq> deliveries_done (snd (receipt_reserve now i s))"
    "deliveries_done s \<subseteq> deliveries_done (snd (receipt_mark now i s))"
    "deliveries_done s \<subseteq> deliveries_done (snd (receipt_release now i s))"
    using delivery_done_kept(1-3) [OF assms(2,1)] by (fastforce simp: deliveries_done_def)+
  obtain x1 s1 x2 s2 x3 s3 where runs: "receipt_reserve now i s = (x1, s1)"
    "receipt_mark now i s = (x2, s2)" "receipt_release now i s = (x3, s3)"
    by (metis surj_pair)
  show "receipts_moved i s (snd (receipt_reserve now i s))"
    using receipt_reserve_cases [OF assms(2) runs(1)] receipt_reserve_held(1) [OF assms(2), of now s s1] runs(1) more(1)
      receipts_moved_refl [of i s] by (auto simp: receipts_moved_def)
  show "receipts_moved i s (snd (receipt_mark now i s))"
    using receipt_mark_cases [OF assms(2,1) runs(2)] receipt_mark_held(1) [OF assms(2,1) runs(2)] runs(2) more(2)
      receipts_moved_refl [of i s] by (auto simp: receipts_moved_def delivered_db_def)
  show "receipts_moved i s (snd (receipt_release now i s))"
    using receipt_release_cases [OF assms(2) runs(3)] receipt_release_held(1) [OF assms(2) runs(3)] runs(3) more(3)
      receipts_moved_refl [of i s] by (auto simp: receipts_moved_def split: option.splits)
qed

text \<open>An action whose state after is related to its state before; it composes along the code.\<close>

definition keeps_rel :: "('s \<Rightarrow> 's \<Rightarrow> bool) \<Rightarrow> ('s \<Rightarrow> bool) \<Rightarrow> ('s, 'e, 'a) act \<Rightarrow> bool" where
  "keeps_rel R ok m \<longleftrightarrow> (\<forall>s. ok s \<longrightarrow> ok (snd (m s)) \<and> R s (snd (m s)))"

lemma keeps_rel_bind:
  assumes "transp R" "keeps_rel R ok m" "\<And>x. keeps_rel R ok (f x)"
  shows "keeps_rel R ok (act_bind m f)"
proof -
  have "ok (snd (act_bind m f s)) \<and> R s (snd (act_bind m f s))" if "ok s" for s
  proof -
    obtain r s1 where m: "m s = (r, s1)" by fastforce
    have s1: "ok s1" "R s s1" using assms(2) that m by (force simp: keeps_rel_def)+
    show ?thesis
    proof (cases r)
      case (Inl e)
      with m s1 show ?thesis by (simp add: act_bind_def)
    next
      case (Inr x)
      have "ok (snd (f x s1)) \<and> R s1 (snd (f x s1))" using assms(3) s1(1) by (simp add: keeps_rel_def)
      with Inr m s1(2) transpD [OF assms(1)] show ?thesis by (auto simp: act_bind_def)
    qed
  qed
  then show ?thesis by (simp add: keeps_rel_def)
qed

lemma keeps_rel_pure:
  assumes "reflp R"
  shows "keeps_rel R ok (act_return x)" "keeps_rel R ok (act_raise e)" "keeps_rel R ok (act_lift r)"
  using reflpD [OF assms] by (simp_all add: keeps_rel_def act_return_def act_raise_def act_lift_def)

lemma keeps_rel_map: "keeps_rel R ok m \<Longrightarrow> keeps_rel R ok (map_raise h m)"
  by (simp add: keeps_rel_def snd_map_raise)

lemma keeps_rel_if: "keeps_rel R ok m \<Longrightarrow> keeps_rel R ok n \<Longrightarrow> keeps_rel R ok (if b then m else n)"
  by simp

lemma send_loop_keeps:
  assumes "reflp R" "transp R" "keeps_rel R ok (dl_mark d (dr_id r))"
    "\<And>m s. ok s \<Longrightarrow> ok (snd (dl_send d m s)) \<and> R s (snd (dl_send d m s))" "\<And>t. keeps_rel R ok (dl_sleep d t)"
  shows "keeps_rel R ok (send_loop d r k n)"
proof (induction n arbitrary: k)
  case 0
  show ?case using reflpD [OF assms(1)] by (simp add: keeps_rel_def)
next
  case (Suc n)
  have rest: "keeps_rel R ok (act_bind (dl_mark d (dr_id r)) (\<lambda>_. act_return Delivery_sent))"
    "\<And>t. keeps_rel R ok (act_bind (dl_sleep d t) (\<lambda>_. send_loop d r (k + 1) n))"
    using assms(1-3,5) Suc by (auto intro!: keeps_rel_bind keeps_rel_pure)
  have "ok (snd (send_loop d r k (Suc n) s)) \<and> R s (snd (send_loop d r k (Suc n) s))" if "ok s" for s
  proof -
    obtain v s1 where send: "dl_send d (message_of d r) s = (v, s1)" by fastforce
    have s1: "ok s1" "R s s1" using assms(4) [OF that, of "message_of d r"] send by auto
    show ?thesis
      using send s1 rest transpD [OF assms(2) s1(2)]
      by (auto simp: keeps_rel_def split: sum.splits send_failure.splits)
  qed
  then show ?case unfolding keeps_rel_def by blast
qed

lemma deliver_keeps:
  assumes "reflp R" "transp R" "keeps_rel R ok (dl_is_delivered d (dr_id r))" "keeps_rel R ok (dl_reserve d (dr_id r))"
    "keeps_rel R ok (dl_mark d (dr_id r))" "keeps_rel R ok (dl_release d (dr_id r))"
    "\<And>m s. ok s \<Longrightarrow> ok (snd (dl_send d m s)) \<and> R s (snd (dl_send d m s))" "\<And>t. keeps_rel R ok (dl_sleep d t)"
  shows "keeps_rel R ok (deliver d r)"
proof -
  note loop = send_loop_keeps [OF assms(1,2,5,7,8), of 1 "dl_max_attempts d"]
  have rel: "\<And>e. keeps_rel R ok (act_bind (dl_release d (dr_id r)) (\<lambda>_. act_raise e))"
    using assms(1,2,6) by (auto intro!: keeps_rel_bind keeps_rel_pure)
  have "ok (snd (releasing (dl_release d (dr_id r)) (send_loop d r 1 (dl_max_attempts d)) s)) \<and>
      R s (snd (releasing (dl_release d (dr_id r)) (send_loop d r 1 (dl_max_attempts d)) s))" if "ok s" for s
  proof -
    obtain x s1 where run: "send_loop d r 1 (dl_max_attempts d) s = (x, s1)" by fastforce
    have "ok s1" "R s s1" using loop that run by (force simp: keeps_rel_def)+
    with run rel transpD [OF assms(2) \<open>R s s1\<close>] show ?thesis
      by (cases x) (auto simp: releasing_def keeps_rel_def)
  qed
  then have "keeps_rel R ok (releasing (dl_release d (dr_id r)) (send_loop d r 1 (dl_max_attempts d)))"
    by (simp add: keeps_rel_def)
  with assms(1-4) show ?thesis
    unfolding deliver_def by (intro keeps_rel_bind keeps_rel_if keeps_rel_pure) auto
qed

definition chat_moved :: "string \<Rightarrow> store chat \<Rightarrow> store chat \<Rightarrow> bool" where
  "chat_moved i s s' \<longleftrightarrow> receipts_moved i (ch_receipts s) (ch_receipts s')"

lemma chat_moved_rel: "reflp (chat_moved i)" "transp (chat_moved i)"
  by (auto simp: chat_moved_def receipts_moved_refl intro!: reflpI transpI intro: receipts_moved_trans)

lemma snd_on_receipts: "ch_receipts (snd (on_receipts m s)) = snd (m (ch_receipts s))"
  by (simp add: on_receipts_def split: prod.splits)

lemma on_receipts_keeps:
  assumes "\<And>s. db_inv (st_db s) \<Longrightarrow> db_inv (st_db (snd (m s))) \<and> receipts_moved i s (snd (m s))"
  shows "keeps_rel (chat_moved i) (\<lambda>s. db_inv (st_db (ch_receipts s))) (on_receipts m)"
  using assms by (simp add: keeps_rel_def chat_moved_def snd_on_receipts)

lemma sqlite_deliver_moved:
  assumes "db_inv (st_db (ch_receipts s))" "clean_delivery_key (dr_id r)"
  shows "receipts_moved (dr_id r) (ch_receipts s)
    (ch_receipts (snd (deliver (sqlite_delivery now to_float uuid5 script) r s)))"
    "db_inv (st_db (ch_receipts (snd (deliver (sqlite_delivery now to_float uuid5 script) r s))))"
proof -
  let ?d = "sqlite_delivery now to_float uuid5 script"
  have query: "keeps_rel (chat_moved i) (\<lambda>s. db_inv (st_db (ch_receipts s))) (on_receipts (act_query q))"
    for i and q :: "store \<Rightarrow> py_error + bool"
    by (rule on_receipts_keeps) (simp add: act_query_def receipts_moved_refl)
  have "keeps_rel (chat_moved (dr_id r)) (\<lambda>s. db_inv (st_db (ch_receipts s))) (deliver ?d r)"
  proof (rule deliver_keeps [OF chat_moved_rel])
    show "keeps_rel (chat_moved (dr_id r)) (\<lambda>s. db_inv (st_db (ch_receipts s))) (dl_is_delivered ?d (dr_id r))"
      by (simp add: sqlite_delivery_def query)
    show "keeps_rel (chat_moved (dr_id r)) (\<lambda>s. db_inv (st_db (ch_receipts s))) (dl_reserve ?d (dr_id r))"
      "keeps_rel (chat_moved (dr_id r)) (\<lambda>s. db_inv (st_db (ch_receipts s))) (dl_mark ?d (dr_id r))"
      "keeps_rel (chat_moved (dr_id r)) (\<lambda>s. db_inv (st_db (ch_receipts s))) (dl_release ?d (dr_id r))"
      using receipt_ops_moved [OF _ assms(2)] receipt_steps_keep
      by (simp_all add: sqlite_delivery_def on_receipts_keeps)
  qed (simp_all add: sqlite_delivery_def post_message_def keeps_rel_def chat_moved_def receipts_moved_refl)
  with assms(1) show "receipts_moved (dr_id r) (ch_receipts s) (ch_receipts (snd (deliver ?d r s)))"
    "db_inv (st_db (ch_receipts (snd (deliver ?d r s))))"
    by (simp_all add: keeps_rel_def chat_moved_def)
qed

section \<open>One round of the replay\<close>

lemma receipt_reserve_refused:
  assumes "clean_delivery_key i" "receipt_reserve now i s = (Inr False, s')"
  shows "i \<in> delivery_held s \<or> i \<in> deliveries_done s"
proof -
  have run: "transaction (reserve_delivery_body (new_reservation i now)) s = (Inr False, s')"
    using assms by (simp add: receipt_reserve_def reserve_delivery_def act_bind_def act_lift_def
        aware_time_def new_reservation_Ok)
  then have "i \<in> keys rc_id (db_receipts (st_db s))"
    by (auto simp: transaction_Ok reserve_delivery_body_Ok split: if_splits)
  then obtain row where "row_of rc_id i (db_receipts (st_db s)) = Some row" by (metis row_of_None not_Some_eq)
  then show ?thesis
    by (cases "rc_state row") (auto simp: delivery_held_def deliveries_done_def delivery_done_def)
qed

lemma send_loop_sent: "send_loop d r k n s = (Inr y, s') \<Longrightarrow> y = Delivery_sent"
  by (induction n arbitrary: k s)
    (auto simp: act_bind_def act_return_def split: prod.splits sum.splits send_failure.splits if_splits)

lemma deliver_cases:
  assumes "deliver d r s = (Inr y, s')"
  shows "y = Delivery_sent \<or> dl_is_delivered d (dr_id r) s = (Inr True, s') \<or>
    (\<exists>s1. dl_is_delivered d (dr_id r) s = (Inr False, s1) \<and> dl_reserve d (dr_id r) s1 = (Inr False, s'))"
proof -
  obtain b s1 where asked: "dl_is_delivered d (dr_id r) s = (Inr b, s1)"
    and rest: "(if b then act_return Delivery_duplicate
      else act_bind (dl_reserve d (dr_id r)) (\<lambda>reserved. if \<not> reserved then act_return Delivery_in_progress
        else releasing (dl_release d (dr_id r)) (send_loop d r 1 (dl_max_attempts d)))) s1 = (Inr y, s')"
    using assms by (auto simp: deliver_def act_bind_Ok)
  show ?thesis
  proof (cases b)
    case True
    with asked rest show ?thesis by (simp add: act_return_def)
  next
    case False
    with rest obtain g s2 where reserving: "dl_reserve d (dr_id r) s1 = (Inr g, s2)"
      and last: "(if \<not> g then act_return Delivery_in_progress
        else releasing (dl_release d (dr_id r)) (send_loop d r 1 (dl_max_attempts d))) s2 = (Inr y, s')"
      by (auto simp: act_bind_Ok)
    have "y = Delivery_sent" if g
    proof -
      have "send_loop d r 1 (dl_max_attempts d) s2 = (Inr y, s')"
        using that last by (auto simp: releasing_def act_bind_def act_raise_def split: prod.splits sum.splits)
      then show ?thesis by (rule send_loop_sent)
    qed
    with False asked reserving last show ?thesis by (cases g) (auto simp: act_return_def)
  qed
qed

lemma deliver_success:
  assumes "db_inv (st_db (ch_receipts s))" "clean_delivery_key (dr_id r)" "dr_id r \<notin> delivery_held (ch_receipts s)"
    "deliver (sqlite_delivery now to_float uuid5 script) r s = (Inr y, s')"
  shows "dr_id r \<in> deliveries_done (ch_receipts s')"
proof -
  let ?d = "sqlite_delivery now to_float uuid5 script"
  have "0 < dl_max_attempts ?d" by (simp add: sqlite_delivery_def)
  note post = sqlite_port.deliver_post [OF assms(1,2) this assms(4)]
  from deliver_cases [OF assms(4)] show ?thesis
  proof (elim disjE exE conjE)
    assume "y = Delivery_sent"
    with post show ?thesis by auto
  next
    assume "dl_is_delivered ?d (dr_id r) s = (Inr True, s')"
    from sqlite_port.is_delivered [OF assms(1,2) this] show ?thesis by auto
  next
    fix s1
    assume asked: "dl_is_delivered ?d (dr_id r) s = (Inr False, s1)"
      and refused: "dl_reserve ?d (dr_id r) s1 = (Inr False, s')"
    have s1: "s1 = s" using sqlite_port.is_delivered [OF assms(1,2) asked] by simp
    have "db_inv (st_db (ch_receipts s1))" using assms(1) s1 by simp
    from sqlite_port.reserve [OF this assms(2) refused] s1 refused assms(3)
    obtain st where st: "receipt_reserve now (dr_id r) (ch_receipts s) = (Inr False, st)" "ch_receipts s' = st"
      by (auto simp: sqlite_delivery_def map_error_Inr eq_commute [of "Inr False"] elim!: on_receipts_run)
    have "dr_id r \<in> deliveries_done (ch_receipts s)"
      using receipt_reserve_refused [OF assms(2) st(1)] assms(3) by blast
    moreover have "st = ch_receipts s"
      using receipt_reserve_cases [OF assms(2) st(1)] by auto
    ultimately show ?thesis using st(2) by simp
  qed
qed

lemma get_task_row:
  assumes "db_inv (st_db s)" "get_task i s = Inr t"
  shows "\<exists>row. row_of tk_id i (db_tasks (st_db s)) = Some row \<and> tk_json row = t \<and> valid_task t \<and> t_id t = i"
proof -
  obtain row where row: "row_of tk_id i (db_tasks (st_db s)) = Some row" "decode_task (tk_json row) = Inr t"
    using assms(2) by (auto simp: get_task_def read_store_def split: if_splits option.splits)
  have ok: "task_row_ok row" "tk_id row = i"
    using row_of_SomeD [OF row(1)] assms(1) by (auto simp: db_inv_def tables_ok_def tasks_ok_def)
  with row show ?thesis by (auto simp: task_row_ok_def)
qed

definition slack_routed :: "string \<Rightarrow> store \<Rightarrow> bool" where
  "slack_routed i s \<longleftrightarrow> (\<exists>r. get_task_route i s = Inr (Some r) \<and> route_source r = SLACK_SOURCE)"

lemma notify_slack_run:
  assumes "update_request target u = Inr r"
  shows "notify_slack d target u s = (case deliver d r s of (z, s') \<Rightarrow> (map_error NotifyDelivery z, s'))"
  using assms
  by (cases "deliver d r s"; cases "fst (deliver d r s)")
    (auto simp: notify_slack_def act_bind_def act_lift_def map_raise_def)

lemma notify_task_cases:
  assumes "valid_task t" "notify_task d t s = (x, s')"
  shows "s' = s \<and> (\<exists>e. x = Inl e) \<or>
    s' = s \<and> x = Inr None \<and> \<not> slack_routed (t_id t) (ch_receipts s) \<or>
    (\<exists>r z. dr_id r = update_id t \<and> deliver d r s = (z, s') \<and>
       x = (case z of Inl e \<Rightarrow> Inl (NotifierDelivery (NotifyDelivery e)) | Inr v \<Rightarrow> Inr (Some v)))"
proof (cases "\<exists>route events runs target. get_task_route (t_id t) (ch_receipts s) = Inr (Some route) \<and>
    route_source route = SLACK_SOURCE \<and> list_events (Some (t_id t)) 0 10000 (ch_receipts s) = Inr events \<and>
    list_runs (t_id t) (ch_receipts s) = Inr runs \<and> decode_slack_route_target (route_target route) = Inr target")
  case True
  then obtain route events runs target where
    q: "get_task_route (t_id t) (ch_receipts s) = Inr (Some route)" "route_source route = SLACK_SOURCE"
      "list_events (Some (t_id t)) 0 10000 (ch_receipts s) = Inr events"
      "list_runs (t_id t) (ch_receipts s) = Inr runs" "decode_slack_route_target (route_target route) = Inr target"
    by blast
  obtain u where u: "task_update t events runs = Inr u" "lu_notification u = t_id t @ '':'' @ status_value (t_status t)"
    using task_update_Ok [OF assms(1)] by blast
  have "clean TaskId (t_id t)" using assms(1) by (simp add: valid_task_iff fields_clean_def)
  from update_request_Ok [of u target] update_id_clean(2) [OF this, of "t_status t"] u(2)
  obtain r where r: "update_request target u = Inr r" "dr_id r = update_id t" by (auto simp: update_id_def)
  obtain z s1 where run: "deliver d r s = (z, s1)" by fastforce
  have "notify_task d t s = (case z of Inl e \<Rightarrow> Inl (NotifierDelivery (NotifyDelivery e)) | Inr v \<Rightarrow> Inr (Some v), s1)"
    using q u(1) run notify_slack_run [OF r(1), of d s]
    by (cases z) (simp_all add: notify_task_def act_bind_def asking_def act_lift_def act_return_def map_raise_def)
  with r(2) run assms(2) show ?thesis by auto
next
  case False
  then show ?thesis
    using assms(2)
    by (auto simp: notify_task_def act_bind_def asking_def act_lift_def act_return_def act_raise_def slack_routed_def
        map_error_Inr split: prod.splits sum.splits option.splits if_splits)
qed

lemma delivered_query_key:
  assumes "is_delivery_delivered now i s = Inr b" "clean OpaqueRouteValue i"
  shows "clean_delivery_key i"
proof -
  obtain r where "new_receipt i RESERVED now None = Inr r"
    using assms(1) by (auto simp: is_delivery_delivered_def get_delivery_receipt_def result_simps)
  then have "clean_delivery_key (strip i)" by (auto simp: new_receipt_Ok delivery_key_Ok)
  then show ?thesis using assms(2) by (simp add: clean_iff)
qed

lemma replay_round:
  assumes "db_inv (st_db (ch_receipts s))"
    "row_of tk_id (route_task route) (db_tasks (st_db (ch_receipts s))) = Some row"
    "row_of route_task (route_task route) (db_routes (st_db (ch_receipts s))) = Some route"
    "route_source route = SLACK_SOURCE"
    "replay_route now (sqlite_delivery clock to_float uuid5 script) route s = (x, s')"
  shows "receipts_moved (update_id (tk_json row)) (ch_receipts s) (ch_receipts s') \<and> db_inv (st_db (ch_receipts s')) \<and>
    (x = Inr () \<and> t_status (tk_json row) \<in> set REPLAYABLE_STATUSES \<and>
       update_id (tk_json row) \<notin> delivery_held (ch_receipts s) \<longrightarrow>
     update_id (tk_json row) \<in> deliveries_done (ch_receipts s'))"
proof (cases "get_task (route_task route) (ch_receipts s)")
  case (Inl e)
  with assms(1,5) receipts_moved_refl show ?thesis
    by (auto simp: replay_route_def act_bind_def asking_def)
next
  case (Inr t)
  let ?d = "sqlite_delivery clock to_float uuid5 script"
  have t: "tk_json row = t" "valid_task t" "t_id t = route_task route"
    using get_task_row [OF assms(1) Inr] assms(2) by auto
  have task_id: "clean TaskId (t_id t)" using t(2) by (simp add: valid_task_iff fields_clean_def)
  have reading: "\<not> st_closed (ch_receipts s)" "st_fault (ch_receipts s) = None"
    using Inr by (auto simp: get_task_def read_store_def split: if_splits option.splits)
  have "valid_route route"
    using row_of_SomeD [OF assms(3)] assms(1) by (auto simp: db_inv_def tables_ok_def routes_ok_def)
  then have routed: "slack_routed (t_id t) (ch_receipts s)"
    using assms(3,4) reading t(3)
    by (simp add: slack_routed_def get_task_route_def read_store_def decode_route_def valid_route_def)
  show ?thesis
  proof (cases "t_status t \<in> set REPLAYABLE_STATUSES")
    case False
    with Inr assms(1,5) t receipts_moved_refl show ?thesis
      by (auto simp: replay_route_def act_bind_def asking_def act_return_def)
  next
    case replayable: True
    show ?thesis
    proof (cases "is_delivery_delivered now (update_id t) (ch_receipts s)")
      case (Inl e)
      with replayable Inr assms(1,5) t receipts_moved_refl show ?thesis
        by (auto simp: replay_route_def act_bind_def asking_def)
    next
      case asked: (Inr b)
      have key: "clean_delivery_key (update_id t)"
        using delivered_query_key [OF asked] update_id_clean(3) [OF task_id, of "t_status t"]
        by (simp add: update_id_def)
      show ?thesis
      proof (cases b)
        case True
        have "update_id t \<in> deliveries_done (ch_receipts s)"
          using receipt_is_delivered_Ok [OF assms(1) key, of now b] asked True by (simp add: receipt_is_delivered_def)
        with True asked replayable Inr assms(1,5) t receipts_moved_refl show ?thesis
          by (auto simp: replay_route_def act_bind_def asking_def act_return_def)
      next
        case False
        obtain z s1 where notifying: "notify_task ?d t s = (z, s1)" by fastforce
        have x: "x = (case z of Inl e \<Rightarrow> Inl e | Inr _ \<Rightarrow> Inr ())" "s' = s1"
          using False asked replayable Inr assms(5) notifying
          by (auto simp: replay_route_def act_bind_def asking_def act_return_def split: sum.splits)
        from notify_task_cases [OF t(2) notifying] show ?thesis
        proof (elim disjE exE conjE)
          fix r y
          assume r: "dr_id r = update_id t" "deliver ?d r s = (y, s1)"
            "z = (case y of Inl e \<Rightarrow> Inl (NotifierDelivery (NotifyDelivery e)) | Inr v \<Rightarrow> Inr (Some v))"
          have "clean_delivery_key (dr_id r)" using key r(1) by simp
          from sqlite_deliver_moved [OF assms(1) this, of clock to_float uuid5 script]
            deliver_success [OF assms(1) this] r x t(1)
          show ?thesis by (auto split: sum.splits)
        qed (use x t(1) assms(1) routed receipts_moved_refl in auto)
      qed
    qed
  qed
qed

section \<open>The whole replay\<close>

lemma task_id_no_colon:
  assumes "clean TaskId i"
  shows "CHR '':'' \<notin> set i"
proof -
  let ?rest = "drop (length ''TASK-'') i"
  have pat: "take (length ''TASK-'') i = ''TASK-''" "record_id_tail ?rest"
    using task_id_word(4) [OF assms] unfolding record_id_pattern_def by auto
  have "CHR '':'' \<notin> set ?rest"
    using pat(2) by (cases ?rest) (auto simp: list_all_iff is_id_char_def is_upper_def is_digit_def in_range_def)
  moreover have "CHR '':'' \<notin> set ''TASK-''" by simp
  moreover have "set i = set (take (length ''TASK-'') i) \<union> set ?rest"
    by (metis append_take_drop_id set_append)
  ultimately show ?thesis using pat(1) by simp
qed

lemma update_id_inject:
  assumes "clean TaskId (t_id t)" "clean TaskId (t_id u)" "update_id t = update_id u"
  shows "t_id t = t_id u"
proof -
  have front: "takeWhile (\<lambda>c. c \<noteq> CHR '':'') (i @ CHR '':'' # v) = i" if "clean TaskId i" for i v
    using task_id_no_colon [OF that] by (auto simp: takeWhile_tail takeWhile_append)
  have "t_id t @ CHR '':'' # status_value (t_status t) = t_id u @ CHR '':'' # status_value (t_status u)"
    using assms(3) by (simp add: update_id_def)
  then show ?thesis
    using front [OF assms(1), of "status_value (t_status t)"] front [OF assms(2), of "status_value (t_status u)"]
    by simp
qed

text \<open>The routes are stored ones, each of them of a stored task.\<close>

definition stored_routes :: "store \<Rightarrow> task_route list \<Rightarrow> bool" where
  "stored_routes s routes \<longleftrightarrow>
     (\<forall>r \<in> set routes. row_of route_task (route_task r) (db_routes (st_db s)) = Some r \<and>
        (\<exists>row. row_of tk_id (route_task r) (db_tasks (st_db s)) = Some row))"

lemma receipts_moved_tables:
  assumes "receipts_moved i s s'"
  shows "db_tasks (st_db s') = db_tasks (st_db s)" "db_routes (st_db s') = db_routes (st_db s)"
    "db_runs (st_db s') = db_runs (st_db s)"
    "deliveries_done s \<subseteq> deliveries_done s'" "stored_routes s' routes = stored_routes s routes"
  using assms by (auto simp: receipts_moved_def stored_routes_def)

lemma replay_step:
  assumes "replay_routes now d (r # rs) s = (Inr failed, s')" "route_source r = SLACK_SOURCE"
    "replay_route now d r s = (x, s1)"
  shows "\<exists>more. replay_routes now d rs s1 = (Inr more, s') \<and> set more \<subseteq> set failed \<and>
    (x \<noteq> Inr () \<longrightarrow> route_task r \<in> set failed)"
  using assms by (auto simp: act_bind_def act_return_def split: sum.splits if_splits prod.splits)

lemma replay_routes_kept:
  assumes "db_inv (st_db (ch_receipts s))" "stored_routes (ch_receipts s) routes"
    "replay_routes now (sqlite_delivery clock to_float uuid5 script) routes s = (Inr failed, s')"
  shows "db_tasks (st_db (ch_receipts s')) = db_tasks (st_db (ch_receipts s)) \<and>
    db_runs (st_db (ch_receipts s')) = db_runs (st_db (ch_receipts s)) \<and>
    db_routes (st_db (ch_receipts s')) = db_routes (st_db (ch_receipts s)) \<and>
    deliveries_done (ch_receipts s) \<subseteq> deliveries_done (ch_receipts s')"
  using assms
proof (induction routes arbitrary: s failed s')
  case (Cons r rs)
  have later: "stored_routes (ch_receipts s) rs" using Cons.prems(2) by (simp add: stored_routes_def)
  show ?case
  proof (cases "route_source r = SLACK_SOURCE")
    case False
    with Cons.IH [OF Cons.prems(1) later] Cons.prems(3) show ?thesis by simp
  next
    case True
    obtain x s1 where round: "replay_route now (sqlite_delivery clock to_float uuid5 script) r s = (x, s1)" by fastforce
    obtain row where row: "row_of tk_id (route_task r) (db_tasks (st_db (ch_receipts s))) = Some row"
      "row_of route_task (route_task r) (db_routes (st_db (ch_receipts s))) = Some r"
      using Cons.prems(2) by (auto simp: stored_routes_def)
    note moved = replay_round [OF Cons.prems(1) row True round]
    note tables = receipts_moved_tables [OF moved [THEN conjunct1]]
    obtain more where rest: "replay_routes now (sqlite_delivery clock to_float uuid5 script) rs s1 = (Inr more, s')"
      using replay_step [OF Cons.prems(3) True round] by blast
    have stored: "stored_routes (ch_receipts s1) rs" using tables(5) later by simp
    from Cons.IH [OF moved [THEN conjunct2, THEN conjunct1] stored rest] tables(1-4) show ?thesis by auto
  qed
qed simp

lemma replay_routes_all:
  assumes "db_inv (st_db (ch_receipts s))" "stored_routes (ch_receipts s) routes" "distinct (map route_task routes)"
    "replay_routes now (sqlite_delivery clock to_float uuid5 script) routes s = (Inr failed, s')"
    "route \<in> set routes" "route_source route = SLACK_SOURCE"
    "row_of tk_id (route_task route) (db_tasks (st_db (ch_receipts s))) = Some row"
    "t_status (tk_json row) \<in> set REPLAYABLE_STATUSES" "update_id (tk_json row) \<notin> delivery_held (ch_receipts s)"
  shows "route_task route \<in> set failed \<or> update_id (tk_json row) \<in> deliveries_done (ch_receipts s')"
  using assms
proof (induction routes arbitrary: s failed s')
  case (Cons r rs)
  let ?d = "sqlite_delivery clock to_float uuid5 script"
  have later: "stored_routes (ch_receipts s) rs" "distinct (map route_task rs)"
    using Cons.prems(2,3) by (simp_all add: stored_routes_def)
  show ?case
  proof (cases "route_source r = SLACK_SOURCE")
    case False
    then have "route \<in> set rs" using Cons.prems(5,6) by auto
    from Cons.IH [OF Cons.prems(1) later _ this Cons.prems(6-9)] Cons.prems(4) False show ?thesis by simp
  next
    case True
    obtain x s1 where round: "replay_route now ?d r s = (x, s1)" by fastforce
    obtain row' where row': "row_of tk_id (route_task r) (db_tasks (st_db (ch_receipts s))) = Some row'"
      "row_of route_task (route_task r) (db_routes (st_db (ch_receipts s))) = Some r"
      using Cons.prems(2) by (auto simp: stored_routes_def)
    note moved = replay_round [OF Cons.prems(1) row' True round]
    obtain more where rest: "replay_routes now ?d rs s1 = (Inr more, s')"
      and ends: "set more \<subseteq> set failed" "x \<noteq> Inr () \<Longrightarrow> route_task r \<in> set failed"
      using replay_step [OF Cons.prems(4) True round] by blast
    have stored: "db_inv (st_db (ch_receipts s1))" "stored_routes (ch_receipts s1) rs"
      using moved receipts_moved_tables(5) later(1) by auto
    show ?thesis
    proof (cases "route = r")
      case same: True
      then have "row' = row" using row'(1) Cons.prems(7) by simp
      with moved Cons.prems(8,9) ends(2) same replay_routes_kept [OF stored rest] show ?thesis by auto
    next
      case False
      then have "route \<in> set rs" using Cons.prems(5) by simp
      then have "route_task route \<in> set (map route_task rs)" by simp
      then have "route_task route \<noteq> route_task r" using Cons.prems(3) by auto
      moreover have "clean TaskId (t_id (tk_json y)) \<and> t_id (tk_json y) = i"
        if "row_of tk_id i (db_tasks (st_db (ch_receipts s))) = Some y" for i y
        using row_of_SomeD [OF that] Cons.prems(1)
        by (auto simp: db_inv_def tables_ok_def tasks_ok_def task_row_ok_def valid_task_iff fields_clean_def)
      ultimately have "update_id (tk_json row) \<noteq> update_id (tk_json row')"
        using update_id_inject row'(1) Cons.prems(7) by metis
      then have "update_id (tk_json row) \<notin> delivery_held (ch_receipts s1)"
        using moved Cons.prems(9) by (auto simp: receipts_moved_def)
      moreover have "row_of tk_id (route_task route) (db_tasks (st_db (ch_receipts s1))) = Some row"
        using moved receipts_moved_tables(1) Cons.prems(7) by metis
      ultimately show ?thesis
        using Cons.IH [OF stored later(2) rest \<open>route \<in> set rs\<close> Cons.prems(6) _ Cons.prems(8)] ends(1) by auto
    qed
  qed
qed simp

text \<open>Without a cancellation the replay goes through all routes.\<close>

lemma map_error_Inl: "map_error h y = Inl e \<longleftrightarrow> (\<exists>x. y = Inl x \<and> e = h x)"
  by (cases y) auto

definition never :: "'e set \<Rightarrow> ('s, 'e, 'a) act \<Rightarrow> bool" where
  "never E m \<longleftrightarrow> (\<forall>s e. fst (m s) = Inl e \<longrightarrow> e \<notin> E)"

lemma never_bind: "never E m \<Longrightarrow> (\<And>x. never E (f x)) \<Longrightarrow> never E (act_bind m f)"
  by (auto simp: never_def act_bind_def split: prod.split sum.split) (metis fst_conv)

lemma never_pure [simp]: "never E (act_return x)" "never E (act_raise e) \<longleftrightarrow> e \<notin> E"
  "never E (act_lift r) \<longleftrightarrow> (\<forall>e. r = Inl e \<longrightarrow> e \<notin> E)"
  by (auto simp: never_def act_return_def act_raise_def act_lift_def)

lemma never_on_receipts [simp]: "ReceiptError \<notin> E \<Longrightarrow> never E (on_receipts m)"
  by (auto simp: never_def on_receipts_def map_error_Inl split: prod.splits)

lemma never_asking [simp]: "(\<And>e. NotifierStore e \<notin> E) \<Longrightarrow> never E (asking q)"
  by (auto simp: never_def asking_def map_error_Inl)

lemma never_map: "never {e. h e \<in> E} m \<Longrightarrow> never E (map_raise h m)"
  by (auto simp: never_def map_raise_def map_error_Inl split: prod.splits sum.splits) (metis fst_conv)

lemma never_releasing: "never E release \<Longrightarrow> never E m \<Longrightarrow> never E (releasing release m)"
  by (auto simp: never_def releasing_def act_bind_def act_raise_def split: prod.splits sum.splits) (metis fst_conv)+

lemma never_sleep [simp]: "never E (dl_sleep (sqlite_delivery clock to_float uuid5 script) t)"
  by (simp add: never_def sqlite_delivery_def)

lemma never_receipts [simp]:
  "ReceiptError \<notin> E \<Longrightarrow> never E (dl_is_delivered (sqlite_delivery clock to_float uuid5 script) i)"
  "ReceiptError \<notin> E \<Longrightarrow> never E (dl_reserve (sqlite_delivery clock to_float uuid5 script) i)"
  "ReceiptError \<notin> E \<Longrightarrow> never E (dl_mark (sqlite_delivery clock to_float uuid5 script) i)"
  "ReceiptError \<notin> E \<Longrightarrow> never E (dl_release (sqlite_delivery clock to_float uuid5 script) i)"
  by (simp_all add: sqlite_delivery_def)

lemma send_loop_uninterrupted:
  assumes "\<forall>n. script n \<noteq> Inl Send_interrupted"
  shows "never {DeliveryInterrupted} (send_loop (sqlite_delivery clock to_float uuid5 script) r k n)"
proof (induction n arbitrary: k)
  case (Suc n)
  let ?d = "sqlite_delivery clock to_float uuid5 script"
  have mark: "never {DeliveryInterrupted} (act_bind (dl_mark ?d (dr_id r)) (\<lambda>_. act_return Delivery_sent))"
    by (rule never_bind) simp_all
  have again: "never {DeliveryInterrupted} (act_bind (dl_sleep ?d t) (\<lambda>_. send_loop ?d r (k + 1) n))" for t
    by (rule never_bind) (simp, rule Suc.IH)
  show ?case
    unfolding never_def
  proof (intro allI impI)
    fix s e
    assume e: "fst (send_loop ?d r k (Suc n) s) = Inl e"
    obtain v s1 where sending: "dl_send ?d (message_of ?d r) s = (v, s1)" by fastforce
    have "v \<noteq> Inl Send_interrupted"
      using sending assms by (auto simp: sqlite_delivery_def post_message_def)
    with e sending mark again show "e \<notin> {DeliveryInterrupted}"
      by (cases v; cases "projl v") (auto simp: never_def split: if_splits)
  qed
qed (simp add: never_def)

lemma replay_route_uninterrupted:
  assumes "\<forall>n. script n \<noteq> Inl Send_interrupted"
  shows "never {e. interrupts e} (replay_route now (sqlite_delivery clock to_float uuid5 script) route)"
proof -
  let ?d = "sqlite_delivery clock to_float uuid5 script" and ?E = "{e. interrupts e}"
  have "never {DeliveryInterrupted} (deliver ?d r)" for r
    unfolding deliver_def
    by (intro never_bind never_releasing)
      (auto intro!: never_bind never_releasing send_loop_uninterrupted assms)
  then have deliver: "never {e. NotifyDelivery e \<in> {NotifyDelivery DeliveryInterrupted}} (deliver ?d r)" for r
    by simp
  have "never {NotifyDelivery DeliveryInterrupted} (notify_slack ?d target u)" for target u
    unfolding notify_slack_def by (intro never_bind never_map deliver) (auto simp: map_error_Inl)
  then have notify: "never {e. NotifierDelivery e \<in> ?E} (notify_slack ?d target u)" for target u
    by (simp add: interrupts_def)
  have lift: "never ?E (act_lift (map_error (\<lambda>_. NotifierValue) x))" "never ?E (asking q)" for x and q
    by (auto simp: map_error_Inl interrupts_def)
  have "never ?E (notify_task ?d t)" for t
    unfolding notify_task_def
    by (intro never_bind lift never_map notify) (auto intro!: never_bind lift never_map notify split: option.split)
  then show ?thesis
    unfolding replay_route_def
    by (auto intro!: never_bind lift)
qed

lemma replay_routes_total:
  assumes "\<forall>n. script n \<noteq> Inl Send_interrupted"
  shows "\<exists>failed s'. replay_routes now (sqlite_delivery clock to_float uuid5 script) routes s = (Inr failed, s')"
proof (induction routes arbitrary: s)
  case (Cons r rs)
  obtain x s1 where round: "replay_route now (sqlite_delivery clock to_float uuid5 script) r s = (x, s1)" by fastforce
  have "never {e. interrupts e} (replay_route now (sqlite_delivery clock to_float uuid5 script) r)"
    by (rule replay_route_uninterrupted [OF assms])
  with round have "\<not> interrupts e" if "x = Inl e" for e
    using that unfolding never_def by (metis fst_conv mem_Collect_eq)
  moreover obtain failed s' where
    "replay_routes now (sqlite_delivery clock to_float uuid5 script) rs s1 = (Inr failed, s')"
    using Cons.IH by blast
  ultimately show ?case
    using round Cons.IH [of s] by (cases x) (auto simp: act_bind_def act_return_def)
qed simp

end
