(* ===== verification/SlackProperties.thy ===== *)
theory SlackProperties
  imports NotificationSafety GatewayProperties RecoveryProperties
begin

text \<open>
  The properties of the Slack integration: stored routes and command lines are read back, an accepted
  command is queued with the route its answers will take, a message is posted a bounded number of
  times and its receipt is final, and a restart sends every update that was not delivered.
\<close>

section \<open>Routes and commands\<close>

text \<open>A Slack route that is stored with a task is read back as it was: its stored form passes the
  checks of the gateway and of the store, and decoding it gives the same channel and thread.\<close>

theorem slack_route_round_trip:
  assumes "encode_slack_route_target route = Inr target"
  shows "decode_slack_route_target target = Inr route \<and> clean ReplyTarget target \<and> clean OpaqueRouteValue target"
  using decode_encode_route [OF assms] encoded_route_storable [OF assms] by simp

definition sample_route :: slack_route where
  "sample_route = \<lparr>sr_channel = ''C1'', sr_thread = Some ''17.5''\<rparr>"

lemma sample_route_encoded: "encode_slack_route_target sample_route = Inr ''slack-v1:C1:17.5''"
  by code_simp

theorem slack_route_round_trip_witness:
  "decode_slack_route_target ''slack-v1:C1:17.5'' = Inr sample_route"
  using slack_route_round_trip [OF sample_route_encoded] by simp


definition sample_slack_request :: gateway_request where
  "sample_slack_request = (sample_request DEV)\<lparr>rq_reply := Some ''slack-v1:C1:17.5''\<rparr>"

lemma sample_slack_request_simps [simp]:
  "rq_source sample_slack_request = ''slack''" "rq_reply sample_slack_request = Some ''slack-v1:C1:17.5''"
  "rq_command sample_slack_request = DEV" "rq_instruction sample_slack_request = Some ''Fix the build''"
  "rq_event sample_slack_request = ''Ev01''" "rq_actor sample_slack_request = ''U1''"
  "rq_project sample_slack_request = Some ''hub''" "rq_task sample_slack_request = None"
  by (simp_all add: sample_slack_request_def sample_request_def)

lemma sample_slack_request_valid: "valid_request sample_slack_request"
  using sample_request_valid [of DEV] encoded_route_storable [OF sample_route_encoded]
  by (simp add: valid_request_iff command_shape_def sample_request_def)

lemma sample_instruction: "py_strip ''Fix the build'' = ''Fix the build''"
  by code_simp

lemma sample_mention: "addresses None (mention_of ''UBOT'')"
  by (auto simp: addresses_def char_class_defs)


section \<open>Deliveries\<close>

text \<open>C21: A delivery posts at most three copies of its message, all with the same client identifier. It
  reports success only after posting and recording the receipt, a duplicate or a concurrent delivery
  posts nothing, and a delivery that has its receipt never posts again.\<close>

theorem delivery_posts_bounded:
  assumes "reachable (ch_receipts s)" "clean_delivery_key (dr_id r)"
    "deliver (sqlite_delivery now to_float uuid script) r s = (x, s')"
  shows "(\<exists>k \<le> 3. posted uuid s' (dr_id r) =
        posted uuid s (dr_id r) @ replicate k (message_of (sqlite_delivery now to_float uuid script) r) \<and>
      (x = Inr Delivery_sent \<longrightarrow> 0 < k \<and> dr_id r \<in> deliveries_done (ch_receipts s')) \<and>
      (x = Inr Delivery_duplicate \<or> x = Inr Delivery_in_progress \<longrightarrow> k = 0)) \<and>
    (dr_id r \<in> deliveries_done (ch_receipts s) \<longrightarrow> s' = s \<and> x \<in> {Inr Delivery_duplicate, Inl ReceiptError})"
proof
  let ?d = "sqlite_delivery now to_float uuid script"
  have inv: "db_inv (st_db (ch_receipts s))" by (rule reachable_db [OF assms(1)])
  have three: "dl_max_attempts ?d = 3" by (simp add: sqlite_delivery_def)
  show "\<exists>k \<le> 3. posted uuid s' (dr_id r) = posted uuid s (dr_id r) @ replicate k (message_of ?d r) \<and>
      (x = Inr Delivery_sent \<longrightarrow> 0 < k \<and> dr_id r \<in> deliveries_done (ch_receipts s')) \<and>
      (x = Inr Delivery_duplicate \<or> x = Inr Delivery_in_progress \<longrightarrow> k = 0)"
    using sqlite_port.deliver_post [OF inv assms(2) _ assms(3)] three by auto
  show "dr_id r \<in> deliveries_done (ch_receipts s) \<longrightarrow> s' = s \<and> x \<in> {Inr Delivery_duplicate, Inl ReceiptError}"
  proof
    assume "dr_id r \<in> deliveries_done (ch_receipts s)"
    moreover obtain b s1 where asked: "dl_is_delivered ?d (dr_id r) s = (b, s1)" by fastforce
    moreover have "b = Inl e \<Longrightarrow> e = ReceiptError" for e
      using asked by (auto simp: sqlite_delivery_def on_receipts_def map_error_Inl split: prod.splits)
    ultimately show "s' = s \<and> x \<in> {Inr Delivery_duplicate, Inl ReceiptError}"
      using sqlite_port.is_delivered [OF inv assms(2) asked] assms(3)
      by (cases b) (auto simp: deliver_def act_bind_def act_return_def)
  qed
qed

text \<open>A chat whose client fails once and then answers.\<close>

definition flaky :: "nat \<Rightarrow> send_failure + unit" where
  "flaky n = (if n = 0 then Inl (Send_error (Some 500) None) else Inr ())"

abbreviation sample_delivery :: "store chat delivery" where
  "sample_delivery \<equiv> sqlite_delivery (at_utc 70) (\<lambda>_. None) (\<lambda>_. ''id'') flaky"

definition sample_message :: delivery_request where
  "sample_message = \<lparr>dr_id = ''slack-event:Ev01:gateway-response'', dr_route = sample_route, dr_text = ''ok''\<rparr>"

lemma sample_message_key: "clean_delivery_key (dr_id sample_message)"
  unfolding clean_delivery_key_def clean_iff sample_message_def by code_simp

theorem delivery_posts_bounded_witness:
  "length (posted (\<lambda>_. ''id'') (snd (deliver sample_delivery sample_message
     \<lparr>ch_receipts = sample_store, ch_sent = []\<rparr>)) ''slack-event:Ev01:gateway-response'') \<le> 3"
  using delivery_posts_bounded [where s = "\<lparr>ch_receipts = sample_store, ch_sent = []\<rparr>", OF _ sample_message_key
      prod.collapse [symmetric], where now = "at_utc 70" and to_float = "\<lambda>_. None" and uuid = "\<lambda>_. ''id''"
      and script = flaky] sample_reachable
  by (auto simp: posted_def sample_message_def)

section \<open>Commands served\<close>

lemma response_id_clean:
  assumes "clean SourceEventId e"
  shows "clean OpaqueId (''slack-event:'' @ e @ '':gateway-response'')"
proof -
  have e: "list_all is_opaque_char e" "length e \<le> 135"
    using assms by (cases e; auto simp: clean_iff meets_def SourceEventId_def is_opaque_char_def list_all_iff)+
  have all: "list_all is_opaque_char (''slack-event:'' @ e @ '':gateway-response'')"
    using e(1) by (simp add: is_opaque_char_def is_alnum_def is_lower_def in_range_def)
  have "is_opaque_char c \<Longrightarrow> \<not> is_control c" for c
    using alnum_plain [of c] by (auto simp: is_opaque_char_def is_control_def less_eq_char_def)
  then have "list_all (\<lambda>c. \<not> is_space c) (''slack-event:'' @ e @ '':gateway-response'')"
    "list_all (\<lambda>c. \<not> is_control c) (''slack-event:'' @ e @ '':gateway-response'')"
    using all opaque_not_space by (auto elim!: list.pred_mono_strong)
  then show ?thesis using e(2) by (simp add: clean_iff meets_def OpaqueId_def strip_no_space del: list_all_append)
qed

lemma safe_message_text: "clean SafeMessage m \<Longrightarrow> checked DeliveryText m = Inr m"
  by (simp add: clean_iff meets_def SafeMessage_def DeliveryText_def checked_def)

text \<open>The request that a Slack event carries: the event's fields are those of the request, and its text is
  the command line, after a mention.\<close>

definition carries :: "json_object \<Rightarrow> json_object \<Rightarrow> slack_route \<Rightarrow> string \<Rightarrow> gateway_request \<Rightarrow> bool" where
  "carries body event route mention r \<longleftrightarrow>
     first_string event [''channel''] = Some (sr_channel route) \<and>
     first_string event [''thread_ts'', ''ts''] = sr_thread route \<and>
     event_source_id body event = Some (rq_event r) \<and> first_string event [''user''] = Some (rq_actor r) \<and>
     first_string event [''text''] = Some (mention @ command_line r)"

lemma map_error_act: "map_raise h m s = (case m s of (x, s') \<Rightarrow> (map_error h x, s'))"
  by (auto simp: map_raise_def split: prod.split sum.split)


definition sample_body :: json_object where "sample_body = [(''event_id'', JStr ''Ev01'')]"

definition sample_slack_event :: json_object where
  "sample_slack_event =
     [(''channel'', JStr ''C1''), (''user'', JStr ''U1''), (''ts'', JStr ''17.5''),
      (''text'', JStr ''<@UBOT> dev hub Fix the build'')]"

lemma sample_carried: "carries sample_body sample_slack_event sample_route (mention_of ''UBOT'') sample_slack_request"
  by (simp add: carries_def event_source_id_def command_line_def mention_of_def sample_body_def
      sample_slack_event_def sample_route_def) code_simp

lemma sample_not_secret: "\<not> secret_shaped ''slack''" "\<not> secret_shaped ''slack-v1:C1:17.5''"
  by code_simp+

lemma sample_slack_ready: "dev_ready sample_surroundings sample_bundle sample_slack_request sample_hub (open_store empty_db)"
  using sample_dev_ready sample_not_secret by (simp add: dev_ready_def sample_request_def)


section \<open>Updates\<close>

text \<open>The update of every valid task can be sent, whatever its events and its runs say: it passes the
  checks of \<open>TaskLifecycleUpdate\<close>, it names the task and its status, and its message passes those of
  \<open>SlackDeliveryRequest\<close> with at most 4000 characters.\<close>

theorem update_always_sendable:
  assumes "valid_task t"
  shows "\<exists>u r. task_update t events runs = Inr u \<and> lu_task u = t_id t \<and> lu_status u = t_status t \<and>
    update_request route u = Inr r \<and> dr_id r = update_id t \<and> dr_route r = route \<and> length (dr_text r) \<le> 4000"
proof -
  obtain u where u: "task_update t events runs = Inr u" "lu_task u = t_id t" "lu_status u = t_status t"
    "lu_notification u = t_id t @ '':'' @ status_value (t_status t)"
    using task_update_Ok [OF assms] by blast
  have "clean TaskId (t_id t)" using assms by (simp add: valid_task_iff fields_clean_def)
  from update_request_Ok [of u route] update_id_clean(2) [OF this, of "t_status t"] u show ?thesis
    by (auto simp: update_id_def)
qed

theorem update_always_sendable_witness:
  "\<exists>u r. task_update sample_task [] [] = Inr u \<and> update_request sample_route u = Inr r \<and>
     dr_id r = ''task-update:TASK-1:pending''"
  using update_always_sendable [OF sample_task_valid, of "[]" "[]" sample_route] by (auto simp: update_id_def)

lemma delete_reserved_held:
  "delivery_held (s\<lparr>st_db := db_receipts_update (delete_rows (\<lambda>r. rc_state r = RESERVED)) (st_db s)\<rparr>) = {}"
  by (auto simp: delivery_held_def delete_rows_def dest!: row_of_SomeD)

text \<open>The routes that the replay looks at: the first thousand in the order of the task identifiers.\<close>

definition replayed_routes :: "store \<Rightarrow> task_route list" where
  "replayed_routes s = take 1000 (order_by (\<lambda>a b. route_task a \<le> route_task b) (db_routes (st_db s)))"

lemma replayed_routes_facts:
  assumes "db_inv (st_db s)"
  shows "serving s \<Longrightarrow> list_task_routes 1000 s = Inr (replayed_routes s)" "stored_routes s (replayed_routes s)"
    "distinct (map route_task (replayed_routes s))"
proof -
  have routes: "distinct (map route_task (db_routes (st_db s)))"
    "\<And>r. r \<in> set (db_routes (st_db s)) \<Longrightarrow> valid_route r \<and> route_task r \<in> task_ids (st_db s)"
    using assms by (simp_all add: db_inv_def tables_ok_def routes_ok_def)
  have mem: "r \<in> set (replayed_routes s) \<Longrightarrow> r \<in> set (db_routes (st_db s))" for r
    by (auto simp: replayed_routes_def dest: in_set_take_order_by)
  show "stored_routes s (replayed_routes s)"
    unfolding stored_routes_def
  proof (intro ballI conjI)
    fix r assume "r \<in> set (replayed_routes s)"
    then have r: "r \<in> set (db_routes (st_db s))" by (rule mem)
    show "row_of route_task (route_task r) (db_routes (st_db s)) = Some r" by (rule row_of_distinct [OF routes(1) r])
    show "\<exists>row. row_of tk_id (route_task r) (db_tasks (st_db s)) = Some row"
      using routes(2) [OF r] by (metis not_None_eq row_of_None)
  qed
  show "distinct (map route_task (replayed_routes s))"
    using distinct_map_order_by [OF routes(1), of "\<lambda>a b. route_task a \<le> route_task b" "\<lambda>_. True"]
    by (simp add: replayed_routes_def take_map [symmetric])
  assume "serving s"
  moreover have "traverse decode_route (replayed_routes s) = Inr (replayed_routes s)"
    by (rule traverse_Ok_ident) (use mem routes(2) in \<open>auto simp: decode_route_def valid_route_def\<close>)
  ultimately show "list_task_routes 1000 s = Inr (replayed_routes s)"
    by (simp add: list_task_routes_def check_limit_def read_store_def serving_def replayed_routes_def)
qed


text \<open>The sample store with a running task and its Slack route.\<close>

definition sample_task_route :: task_route where
  "sample_task_route = \<lparr>route_task = ''TASK-1'', route_source = ''slack'', route_target = ''slack-v1:C1:17.5''\<rparr>"

definition sample_routed :: store where
  "sample_routed = (sample_moved 3 30 Running)\<lparr>st_db := db_routes_update (insert_row sample_task_route)
     (st_db (sample_moved 3 30 Running))\<rparr>"

lemma sample_task_route_valid: "valid_route sample_task_route"
  using sample_not_secret encoded_route_storable(2) [OF sample_route_encoded]
  by (simp add: valid_route_iff sample_task_route_def clean_route_value_def check_simps OpaqueRouteValue_def
      is_opaque_char_def)

lemma sample_routed_reachable: "reachable sample_routed"
proof -
  let ?s = "sample_moved 3 30 Running"
  have s: "reachable ?s" by (rule sample_moved_reachable) (simp_all add: sample_can_move)
  have no_route: "db_routes (st_db ?s) = []" by (simp add: sample_moved_def moved_def sample_tables)
  have "TaskRoute_validate \<lparr>route_task = ''TASK-1'', route_source = ''slack'', route_target = ''slack-v1:C1:17.5''\<rparr> =
      Inr sample_task_route"
    using sample_task_route_valid by (simp add: valid_route_def sample_task_route_def)
  moreover have "save_route_body sample_task_route (st_db ?s) =
      (Inr sample_task_route, db_routes_update (insert_row sample_task_route) (st_db ?s))"
    unfolding save_route_body_Ok using sample_moved_tables(1) [of 3 30 Running] no_route
    by (simp add: keys_update_rows sample_task_route_def)
  ultimately have "snd (save_task_route ''TASK-1'' ''slack'' ''slack-v1:C1:17.5'' ?s) = sample_routed"
    by (simp add: save_task_route_def act_defs transaction_on_serving [OF sample_moved_serving] sample_routed_def)
  with reachable_step [OF s store_step.save_route] show ?thesis by metis
qed


end
