(* ===== verification/Workspaces.thy ===== *)
theory Workspaces
  imports Complex_Main PyText Config
begin

text \<open>
  \<open>projects/manager.py\<close>: the workspace of a registered project is cloned or selected, checked, and put
  on a fresh task branch, and \<open>ProjectExecutionAdapter\<close> of \<open>application/adapters.py\<close>, which holds the
  project lock around it. The file system and the \<open>git\<close> executable are the port \<open>machine\<close>: paths are
  texts that are compared by their parts, and \<open>mc_git\<close> answers with the exit code and the two outputs,
  or with the text of an \<open>OSError\<close> or of a timeout.
\<close>

section \<open>The machine\<close>

record completed =
  gr_code :: int
  gr_out :: string
  gr_err :: string

datatype ws_error =
    ProjectNotFound string
  | UnsafeWorkspace
  | RepositoryOrigin
  | DirtyWorkingTree
  | BranchCollision string
  | GitCommand string int string
  | NoArguments_given
  | Forbidden_command string
  | Forbidden_argument string
  | Unsafe_task_id
  | Invalid_branch string
  | Os_failure

record 's machine =
  mc_resolve :: "string \<Rightarrow> 's \<Rightarrow> string"
  mc_exists :: "string \<Rightarrow> 's \<Rightarrow> bool"
  mc_is_symlink :: "string \<Rightarrow> 's \<Rightarrow> bool"
  mc_is_dir :: "string \<Rightarrow> 's \<Rightarrow> bool"
  mc_mkdir :: "string \<Rightarrow> ('s, unit, unit) act"
  mc_git :: "string list \<Rightarrow> string \<Rightarrow> ('s, string, completed) act"

record 's manager =
  mg_machine :: "'s machine"
  mg_root :: string
  mg_workspaces :: string
  mg_projects :: "(string \<times> project) list"

text \<open>\<open>__init__\<close>: the roots are resolved (the repository must exist); \<open>None\<close> is an exception.\<close>

definition new_manager ::
  "'s machine \<Rightarrow> string \<Rightarrow> string \<Rightarrow> (string \<times> project) list \<Rightarrow> rat \<Rightarrow> 's \<Rightarrow> 's manager option" where
  "new_manager m repository workspaces projects timeout s =
     (if timeout \<le> 0 then None
      else if \<not> mc_exists m (mc_resolve m repository s) s then None
      else Some \<lparr>mg_machine = m, mg_root = mc_resolve m repository s,
                 mg_workspaces = mc_resolve m workspaces s, mg_projects = projects\<rparr>)"

section \<open>Running git\<close>

definition FORBIDDEN_GIT_COMMANDS :: "string list" where
  "FORBIDDEN_GIT_COMMANDS = [''clean'', ''merge'', ''push'', ''reset'']"

text \<open>In their order, so that the first that occurs is \<open>sorted(...)[0]\<close>.\<close>

definition FORBIDDEN_GIT_ARGUMENTS :: "string list" where
  "FORBIDDEN_GIT_ARGUMENTS = [''--force'', ''--force-with-lease'', ''--hard'', ''-f'']"

fun git_guard :: "string list \<Rightarrow> ws_error + string" where
  "git_guard [] = Inl NoArguments_given"
| "git_guard (command # arguments) =
     (if command \<in> set FORBIDDEN_GIT_COMMANDS then Inl (Forbidden_command command)
      else case find (\<lambda>a. a \<in> set (command # arguments)) FORBIDDEN_GIT_ARGUMENTS of
        Some a \<Rightarrow> Inl (Forbidden_argument a)
      | None \<Rightarrow> Inr command)"

definition make_directory :: "'s manager \<Rightarrow> string \<Rightarrow> ('s, ws_error, unit) act" where
  "make_directory g path = map_raise (\<lambda>_. Os_failure) (mc_mkdir (mg_machine g) path)"

definition run_git :: "'s manager \<Rightarrow> string list \<Rightarrow> string \<Rightarrow> bool \<Rightarrow> ('s, ws_error, completed) act" where
  "run_git g arguments cwd check =
     act_bind (act_lift (git_guard arguments)) (\<lambda>command.
     act_bind (map_raise (GitCommand command (-1)) (mc_git (mg_machine g) arguments cwd)) (\<lambda>result.
     act_bind (act_require (\<not> (check \<and> gr_code result \<noteq> 0)) (GitCommand command (gr_code result) (gr_err result))) (\<lambda>_.
     act_return result)))"

section \<open>Paths\<close>

definition same_path :: "string \<Rightarrow> string \<Rightarrow> bool" where
  "same_path p q \<longleftrightarrow> path_parts p = path_parts q"

definition is_relative_to :: "string \<Rightarrow> string \<Rightarrow> bool" where
  "is_relative_to p q \<longleftrightarrow> take (length (path_parts q)) (path_parts p) = path_parts q"

text \<open>\<open>path / name\<close>, and \<open>root.joinpath(a, b, ...)\<close>: an absolute component starts again.\<close>

definition child_path :: "string \<Rightarrow> string \<Rightarrow> string" where
  "child_path p name =
     (if is_absolute name then name
      else if p = [] \<or> endswith ''/'' p then p @ name
      else p @ ''/'' @ name)"

definition joined_path :: "string \<Rightarrow> string list \<Rightarrow> string" where
  "joined_path base components = foldl child_path base components"

text \<open>\<open>path.parent\<close> of an absolute path.\<close>

definition parent_path :: "string \<Rightarrow> string" where
  "parent_path p =
     (if path_components p = [] then as_posix p
      else as_posix (path_root p @ join ''/'' (butlast (path_components p))))"

definition below_workspaces :: "'s manager \<Rightarrow> string \<Rightarrow> bool" where
  "below_workspaces g p \<longleftrightarrow> is_relative_to p (mg_workspaces g) \<and> \<not> same_path p (mg_workspaces g)"

definition assert_contained :: "'s manager \<Rightarrow> string \<Rightarrow> ('s, ws_error, string) act" where
  "assert_contained g path s =
     (let canonical = mc_resolve (mg_machine g) path s in
      if same_path canonical (mg_workspaces g) \<or> \<not> is_relative_to canonical (mg_workspaces g)
      then (Inl UnsafeWorkspace, s) else (Inr canonical, s))"

definition project_of :: "'s manager \<Rightarrow> string \<Rightarrow> ('s, ws_error, project) act" where
  "project_of g project_id =
     act_lift (case map_of (mg_projects g) project_id of
       None \<Rightarrow> Inl (ProjectNotFound project_id) | Some p \<Rightarrow> Inr p)"

definition project_path :: "'s manager \<Rightarrow> project \<Rightarrow> ('s, ws_error, string) act" where
  "project_path g p = assert_contained g (joined_path (mg_root g) (split_on slash (pd_workspace p)))"

section \<open>Selecting a workspace\<close>

record project_workspace =
  pw_project :: string
  pw_path :: string
  pw_repository :: string
  pw_branch :: string
  pw_dirty :: bool

datatype dirty_tree_policy = Reject_dirty | Allow_dirty

definition working_tree_status :: "'s manager \<Rightarrow> string \<Rightarrow> ('s, ws_error, string) act" where
  "working_tree_status g workspace =
     act_bind (run_git g [''status'', ''--porcelain=v1'', ''--untracked-files=all''] workspace True)
       (\<lambda>r. act_return (gr_out r))"

definition current_branch :: "'s manager \<Rightarrow> string \<Rightarrow> ('s, ws_error, string) act" where
  "current_branch g workspace =
     act_bind (assert_contained g workspace) (\<lambda>canonical.
     act_bind (run_git g [''symbolic-ref'', ''--quiet'', ''--short'', ''HEAD''] canonical True) (\<lambda>r.
     act_return (py_strip (gr_out r))))"

text \<open>The target exists as a directory, or is cloned into.\<close>

definition clone_missing :: "'s manager \<Rightarrow> project \<Rightarrow> string \<Rightarrow> ('s, ws_error, unit) act" where
  "clone_missing g p target s =
     (if mc_exists (mg_machine g) target s \<or> mc_is_symlink (mg_machine g) target s
      then (if mc_is_dir (mg_machine g) target s then (Inr (), s) else (Inl UnsafeWorkspace, s))
      else act_bind (make_directory g (parent_path target)) (\<lambda>_.
           act_bind (run_git g [''clone'', ''--origin'', ''origin'', ''--'', pd_repository p, as_posix target]
             (parent_path target) True) (\<lambda>_. act_return ())) s)"

text \<open>\<open>Path(text).resolve(strict=True)\<close>.\<close>

definition resolve_existing :: "'s manager \<Rightarrow> string \<Rightarrow> ('s, ws_error, string) act" where
  "resolve_existing g path s =
     (let canonical = mc_resolve (mg_machine g) path s in
      if mc_exists (mg_machine g) canonical s then (Inr canonical, s) else (Inl Os_failure, s))"

definition clone_or_select ::
  "'s manager \<Rightarrow> string \<Rightarrow> dirty_tree_policy \<Rightarrow> ('s, ws_error, project_workspace) act" where
  "clone_or_select g project_id policy =
     act_bind (project_of g project_id) (\<lambda>p.
     act_bind (project_path g p) (\<lambda>target.
     act_bind (make_directory g (mg_workspaces g)) (\<lambda>_.
     act_bind (clone_missing g p target) (\<lambda>_.
     act_bind (assert_contained g target) (\<lambda>canonical.
     act_bind (run_git g [''rev-parse'', ''--show-toplevel''] canonical True) (\<lambda>top.
     act_bind (resolve_existing g (py_strip (gr_out top))) (\<lambda>reported.
     act_bind (act_require (same_path reported canonical) UnsafeWorkspace) (\<lambda>_.
     act_bind (run_git g [''remote'', ''get-url'', ''origin''] canonical True) (\<lambda>origin.
     act_bind (act_require (py_strip (gr_out origin) = pd_repository p) RepositoryOrigin) (\<lambda>_.
     act_bind (working_tree_status g canonical) (\<lambda>status.
     act_bind (act_require (\<not> (status \<noteq> [] \<and> policy = Reject_dirty)) DirtyWorkingTree) (\<lambda>_.
     act_bind (current_branch g canonical) (\<lambda>branch.
     act_return \<lparr>pw_project = project_id, pw_path = canonical, pw_repository = pd_repository p,
       pw_branch = branch, pw_dirty = (status \<noteq> [])\<rparr>)))))))))))))"

section \<open>Task branches\<close>

text \<open>\<open>^[A-Za-z0-9][A-Za-z0-9._-]{0,63}$\<close>.\<close>

fun branch_task_id :: "string \<Rightarrow> bool" where
  "branch_task_id [] \<longleftrightarrow> False"
| "branch_task_id (c # cs) \<longleftrightarrow>
     is_alnum c \<and> list_all (\<lambda>d. is_alnum d \<or> d \<in> {CHR ''.'', CHR ''_'', CHR ''-''}) cs \<and> length cs \<le> 63"

abbreviation dash :: char where "dash \<equiv> CHR ''-''"

text \<open>\<open>re.sub(r"[^a-z0-9]+", "-", text)\<close>.\<close>

fun dashed :: "bool \<Rightarrow> string \<Rightarrow> string" where
  "dashed inside [] = []"
| "dashed inside (c # cs) =
     (if is_lower c \<or> is_digit c then c # dashed False cs
      else (if inside then [] else [dash]) @ dashed True cs)"

definition rstrip_char :: "char \<Rightarrow> string \<Rightarrow> string" where
  "rstrip_char c s = rev (dropWhile (\<lambda>d. d = c) (rev s))"

definition strip_char :: "char \<Rightarrow> string \<Rightarrow> string" where
  "strip_char c s = rstrip_char c (dropWhile (\<lambda>d. d = c) s)"

definition or_task :: "string \<Rightarrow> string" where
  "or_task s = (if s = [] then ''task'' else s)"

text \<open>
  \<open>to_ascii\<close> is \<open>unicodedata.normalize("NFKD", text).encode("ascii", "ignore").decode()\<close>; \<open>None\<close> is the
  \<open>ValueError\<close>.
\<close>

definition task_branch_name :: "(string \<Rightarrow> string) \<Rightarrow> string \<Rightarrow> string \<Rightarrow> string option" where
  "task_branch_name to_ascii task_id description =
     (if \<not> branch_task_id task_id then None
      else
        (let slug = or_task (strip_char dash (dashed False (lower (to_ascii description))));
             available = max 1 (120 - length ''agent/'' - length task_id - 1);
             short = or_task (rstrip_char dash (take available slug))
         in Some (''agent/'' @ task_id @ ''-'' @ short)))"

record task_branch =
  tb_project :: string
  tb_workspace :: string
  tb_branch :: string

definition ORIGIN_REFS :: string where "ORIGIN_REFS = ''refs/remotes/origin/''"

definition task_base_ref :: "'s manager \<Rightarrow> string \<Rightarrow> project \<Rightarrow> ('s, ws_error, string) act" where
  "task_base_ref g workspace p =
     act_bind
       (case pd_base_branch p of
          Some branch \<Rightarrow> act_return (ORIGIN_REFS @ branch)
        | None \<Rightarrow>
            act_bind (run_git g [''symbolic-ref'', ''--quiet'', ''refs/remotes/origin/HEAD''] workspace True) (\<lambda>r.
            act_bind (act_require (startswith ORIGIN_REFS (py_strip (gr_out r))) RepositoryOrigin) (\<lambda>_.
            act_return (py_strip (gr_out r))))) (\<lambda>remote_ref.
     act_bind (run_git g [''show-ref'', ''--verify'', ''--quiet'', remote_ref] workspace False) (\<lambda>v.
     if gr_code v = 0 then act_return remote_ref
     else if gr_code v = 1 then act_raise RepositoryOrigin
     else act_raise (GitCommand ''show-ref'' (gr_code v) (gr_err v))))"

definition create_task_branch ::
  "'s manager \<Rightarrow> (string \<Rightarrow> string) \<Rightarrow> string \<Rightarrow> string \<Rightarrow> string \<Rightarrow> ('s, ws_error, task_branch) act" where
  "create_task_branch g to_ascii project_id task_id description =
     act_bind (clone_or_select g project_id Reject_dirty) (\<lambda>w.
     act_bind (act_lift (case task_branch_name to_ascii task_id description of
       None \<Rightarrow> Inl Unsafe_task_id | Some b \<Rightarrow> Inr b)) (\<lambda>branch.
     act_bind (run_git g [''check-ref-format'', ''--branch'', branch] (pw_path w) False) (\<lambda>valid.
     act_bind (act_require (gr_code valid = 0) (Invalid_branch branch)) (\<lambda>_.
     act_bind (run_git g [''show-ref'', ''--verify'', ''--quiet'', ''refs/heads/'' @ branch] (pw_path w) False) (\<lambda>collision.
     act_bind (act_require (gr_code collision \<noteq> 0) (BranchCollision branch)) (\<lambda>_.
     act_bind (act_require (gr_code collision = 1) (GitCommand ''show-ref'' (gr_code collision) (gr_err collision))) (\<lambda>_.
     act_bind (project_of g project_id) (\<lambda>p.
     act_bind (task_base_ref g (pw_path w) p) (\<lambda>base.
     act_bind (run_git g [''switch'', ''--create'', branch, base] (pw_path w) True) (\<lambda>_.
     act_return \<lparr>tb_project = project_id, tb_workspace = pw_path w, tb_branch = branch\<rparr>))))))))))"

section \<open>Changed files\<close>

text \<open>\<open>str.splitlines\<close>: the separators, with \<open>\r\n\<close> as one.\<close>

definition is_line_end :: "char \<Rightarrow> bool" where
  "is_line_end c \<longleftrightarrow> in_range (CHR 0x0A) (CHR 0x0D) c \<or> in_range (CHR 0x1C) (CHR 0x1E) c"

fun lines_from :: "string \<Rightarrow> string \<Rightarrow> string list" where
  "lines_from line [] = (if line = [] then [] else [rev line])"
| "lines_from line (c # cs) =
     (if is_line_end c
      then rev line # lines_from [] (if c = CHR 0x0D \<and> cs \<noteq> [] \<and> hd cs = CHR 0x0A then tl cs else cs)
      else lines_from (c # line) cs)"

definition splitlines :: "string \<Rightarrow> string list" where
  "splitlines s = lines_from [] s"

text \<open>The text after the last occurrence of the separator, if it occurs: \<open>rsplit(sep, maxsplit=1)[1]\<close>.\<close>

fun after_last :: "string \<Rightarrow> string \<Rightarrow> string option" where
  "after_last sep [] = (if sep = [] then Some [] else None)"
| "after_last sep (c # cs) =
     (case after_last sep cs of
        Some t \<Rightarrow> Some t
      | None \<Rightarrow> if startswith sep (c # cs) then Some (drop (length sep) (c # cs)) else None)"

definition status_path :: "string \<Rightarrow> string option" where
  "status_path line =
     (if length line < 4 then None
      else (let path = drop 3 line in
            case after_last '' -> '' path of Some t \<Rightarrow> Some t | None \<Rightarrow> Some path))"

definition changed_files :: "'s manager \<Rightarrow> string \<Rightarrow> ('s, ws_error, string list) act" where
  "changed_files g workspace =
     act_bind (assert_contained g workspace) (\<lambda>canonical.
     act_bind (working_tree_status g canonical) (\<lambda>status.
     act_return (sort (remdups (List.map_filter status_path (splitlines status))))))"

section \<open>Preparing a workspace under the lock of its project\<close>

text \<open>
  \<open>ProjectExecutionAdapter.open_task_workspace\<close>: the body of the \<open>async with\<close> is an argument. The lock
  is the port of \<open>ProjectFileLock\<close>; \<open>True\<close> is its \<open>LockTimeoutError\<close>, \<open>False\<close> any other exception.
\<close>

record 's execution =
  ex_manager :: "'s manager"
  ex_acquire :: "string \<Rightarrow> string \<Rightarrow> ('s, bool, unit) act"
  ex_release :: "string \<Rightarrow> string \<Rightarrow> ('s, unit, unit) act"

datatype preparation = Preparation_blocked | Preparation_failed | Preparation_exception

datatype 'e execution_error = Preparing preparation | Body_raised 'e | Release_failed

fun preparation_of :: "ws_error \<Rightarrow> preparation" where
  "preparation_of (BranchCollision _) = Preparation_blocked"
| "preparation_of DirtyWorkingTree = Preparation_blocked"
| "preparation_of (ProjectNotFound _) = Preparation_failed"
| "preparation_of UnsafeWorkspace = Preparation_failed"
| "preparation_of RepositoryOrigin = Preparation_failed"
| "preparation_of (GitCommand _ _ _) = Preparation_failed"
| "preparation_of _ = Preparation_exception"

definition prepared ::
  "'s execution \<Rightarrow> (string \<Rightarrow> string) \<Rightarrow> string \<Rightarrow> string \<Rightarrow> string \<Rightarrow>
   (task_branch \<Rightarrow> ('s, 'e, 'a) act) \<Rightarrow> ('s, 'e execution_error, 'a) act" where
  "prepared x to_ascii project_id task_id description body =
     act_bind (map_raise (\<lambda>e. Preparing (preparation_of e))
       (create_task_branch (ex_manager x) to_ascii project_id task_id description)) (\<lambda>branch.
     map_raise Body_raised (body branch))"

definition open_task_workspace ::
  "'s execution \<Rightarrow> (string \<Rightarrow> string) \<Rightarrow> string \<Rightarrow> string \<Rightarrow> string \<Rightarrow>
   (task_branch \<Rightarrow> ('s, 'e, 'a) act) \<Rightarrow> ('s, 'e execution_error, 'a) act" where
  "open_task_workspace x to_ascii project_id task_id description body s =
     (case ex_acquire x project_id task_id s of
        (Inl timed_out, s1) \<Rightarrow>
          (Inl (Preparing (if timed_out then Preparation_blocked else Preparation_exception)), s1)
      | (Inr _, s1) \<Rightarrow>
          (case prepared x to_ascii project_id task_id description body s1 of (r, s2) \<Rightarrow>
             (case ex_release x project_id task_id s2 of
                (Inl _, s3) \<Rightarrow> (Inl Release_failed, s3)
              | (Inr _, s3) \<Rightarrow> (r, s3))))"

end
