(* ===== verification/WorkspaceSafety.thy ===== *)
theory WorkspaceSafety
  imports Workspaces
begin

text \<open>
  Lemmas on the workspace manager: the names of task branches, and what the manager makes \<open>git\<close> do.
  For the latter a machine is \<open>recorded\<close>: the calls of \<open>git\<close> are logged with their directory and answer.
\<close>

section \<open>Branch names\<close>

definition slug_char :: "char \<Rightarrow> bool" where
  "slug_char c \<longleftrightarrow> is_lower c \<or> is_digit c \<or> c = dash"

lemma dashed_chars: "list_all slug_char (dashed b s)"
  by (induction b s rule: dashed.induct) (auto simp: slug_char_def)

lemma rstrip_char_subset: "set (rstrip_char c s) \<subseteq> set s"
  by (auto simp: rstrip_char_def dest: set_dropWhileD)

lemma rstrip_char_length: "length (rstrip_char c s) \<le> length s"
  using length_dropWhile_le [of "\<lambda>d. d = c" "rev s"] by (simp add: rstrip_char_def)

lemma strip_char_subset: "set (strip_char c s) \<subseteq> set s"
  using rstrip_char_subset [of c "dropWhile (\<lambda>d. d = c) s"] by (auto simp: strip_char_def dest: set_dropWhileD)

lemma or_task_chars: "list_all slug_char s \<Longrightarrow> list_all slug_char (or_task s)"
  by (simp add: or_task_def slug_char_def char_class_defs)

lemma branch_name_parts:
  assumes "branch_task_id i"
  shows "\<exists>slug. task_branch_name to_ascii i d = Some (''agent/'' @ i @ ''-'' @ slug) \<and> slug \<noteq> [] \<and>
    list_all slug_char slug \<and> length i + length slug \<le> 113"
proof -
  define full where "full = or_task (strip_char dash (dashed False (lower (to_ascii d))))"
  define n where "n = max 1 (120 - length ''agent/'' - length i - 1)"
  define slug where "slug = or_task (rstrip_char dash (take n full))"
  have "list_all slug_char full"
    unfolding full_def using dashed_chars strip_char_subset
    by (intro or_task_chars) (fastforce simp: list_all_iff)
  then have chars: "list_all slug_char slug"
    unfolding slug_def using rstrip_char_subset
    by (intro or_task_chars) (fastforce simp: list_all_iff dest: in_set_takeD)
  have i: "length i \<le> 64" using assms by (cases i) auto
  then have n: "n = 113 - length i" by (simp add: n_def)
  have "length slug \<le> n \<or> slug = ''task''"
    using rstrip_char_length [of dash "take n full"] by (auto simp: slug_def or_task_def)
  then have "length i + length slug \<le> 113" using i n by auto
  moreover have "slug \<noteq> []" by (simp add: slug_def or_task_def)
  moreover have "task_branch_name to_ascii i d = Some (''agent/'' @ i @ ''-'' @ slug)"
    using assms by (simp add: task_branch_name_def Let_def slug_def n_def full_def)
  ultimately show ?thesis using chars by blast
qed

text \<open>The rules of \<open>git check-ref-format\<close> for a branch.\<close>

definition ref_component_ok :: "string \<Rightarrow> bool" where
  "ref_component_ok w \<longleftrightarrow> w \<noteq> [] \<and> \<not> startswith ''.'' w \<and> \<not> endswith ''.lock'' w"

definition git_branch_ok :: "string \<Rightarrow> bool" where
  "git_branch_ok b \<longleftrightarrow>
     list_all ref_component_ok (split_on slash b) \<and> \<not> contains ''..'' b \<and>
     list_all (\<lambda>c. \<not> is_control c \<and> c \<notin> insert (CHR 0x5C) (set '' ~^:?*['')) b \<and>
     \<not> contains (CHR ''@'' # ''{'') b \<and> b \<noteq> ''@'' \<and> \<not> endswith ''.'' b \<and> \<not> startswith ''-'' b"

definition plain_ref_char :: "char \<Rightarrow> bool" where
  "plain_ref_char c \<longleftrightarrow> is_alnum c \<or> c = dash"

lemma plain_ref_chars:
  assumes "list_all plain_ref_char w" "c \<in> set '' .~^:?*[@/{_''"
  shows "c \<notin> set w"
proof -
  have "\<not> plain_ref_char c"
    using assms(2) by (auto simp: plain_ref_char_def char_class_defs)
  with assms(1) show ?thesis by (auto simp: list_all_iff)
qed

lemma contains_subset: "contains sub s \<Longrightarrow> set sub \<subseteq> set s"
proof (induction sub s rule: contains.induct)
  case (2 sub c cs)
  then show ?case
    by (auto simp: startswith_def dest: in_set_takeD) (metis in_set_takeD set_ConsD)+
qed simp

lemma endswith_subset: "endswith sub s \<Longrightarrow> set sub \<subseteq> set s"
  by (auto simp: endswith_def startswith_def) (metis in_set_takeD set_rev)

lemma startswith_subset: "startswith sub s \<Longrightarrow> set sub \<subseteq> set s"
  by (auto simp: startswith_def) (metis in_set_takeD)

lemma plain_branch_ok:
  assumes "list_all plain_ref_char w" "w \<noteq> []"
  shows "git_branch_ok (''agent/'' @ w)"
proof -
  have no_dot: "CHR ''.'' \<notin> set w" "CHR ''@'' \<notin> set w" "slash \<notin> set w"
    using plain_ref_chars [OF assms(1)] by auto
  have agent: "list_all plain_ref_char ''agent''" by (simp add: plain_ref_char_def char_class_defs)
  have "split_on slash (''agent'' @ slash # w) = [''agent'', w]"
    by (subst split_on_append) (simp_all add: split_on_no_sep no_dot(3))
  moreover have "ref_component_ok ''agent''" by (simp add: ref_component_ok_def endswith_def startswith_def)
  moreover have "ref_component_ok w"
    using assms(2) no_dot(1) startswith_subset [of "''.''" w] endswith_subset [of "''.lock''" w]
    by (auto simp: ref_component_ok_def)
  moreover have "CHR ''.'' \<notin> set (''agent/'' @ w)" "CHR ''@'' \<notin> set (''agent/'' @ w)" using no_dot by auto
  then have "\<not> contains ''..'' (''agent/'' @ w)" "\<not> contains (CHR ''@'' # ''{'') (''agent/'' @ w)"
    "\<not> endswith ''.'' (''agent/'' @ w)"
    using contains_subset endswith_subset by fastforce+
  moreover have "list_all (\<lambda>c. \<not> is_control c \<and> c \<notin> insert (CHR 0x5C) (set '' ~^:?*['')) (''agent/'' @ w)"
  proof -
    have "\<not> is_control c \<and> c \<notin> insert (CHR 0x5C) (set '' ~^:?*['')" if c: "plain_ref_char c \<or> c = slash" for c
      using that by (auto simp: plain_ref_char_def char_class_defs is_control_def less_eq_char_def)
    then show ?thesis using assms(1) agent by (auto simp: list_all_iff)
  qed
  ultimately show ?thesis by (simp add: git_branch_ok_def startswith_def)
qed

text \<open>The branch of a task whose identifier is valid and not too long.\<close>

lemma task_id_branch:
  assumes "clean TaskId i" "length i \<le> 64"
  shows "\<exists>b. task_branch_name to_ascii i d = Some b \<and> git_branch_ok b \<and> length b \<le> 120"
proof -
  have tail: "record_id_pattern ''TASK-'' i" using assms(1) by (simp add: clean_iff meets_def TaskId_def)
  have "list_all (\<lambda>c. is_upper c \<or> is_digit c \<or> c = dash) (''TASK-'' @ drop (length ''TASK-'') i)"
    using tail by (cases "drop (length ''TASK-'') i")
      (auto simp: record_id_pattern_def list_all_iff is_id_char_def is_upper_def is_digit_def in_range_def)
  moreover have i: "i = ''TASK-'' @ drop (length ''TASK-'') i"
    using tail append_take_drop_id [of "length ''TASK-''" i] unfolding record_id_pattern_def by metis
  ultimately have chars: "list_all (\<lambda>c. is_upper c \<or> is_digit c \<or> c = dash) i" by metis
  obtain c cs where cs: "i = c # cs" "c = CHR ''T''" using i by (cases i) auto
  have "branch_task_id i"
    using chars assms(2) cs by (auto simp: list_all_iff is_alnum_def is_upper_def in_range_def)
  from branch_name_parts [OF this] obtain slug where slug:
    "task_branch_name to_ascii i d = Some (''agent/'' @ i @ ''-'' @ slug)" "list_all slug_char slug"
    "length i + length slug \<le> 113" by blast
  have "list_all plain_ref_char (i @ ''-'' @ slug)"
    using chars slug(2) by (auto simp: list_all_iff plain_ref_char_def slug_char_def is_alnum_def)
  then have "git_branch_ok (''agent/'' @ i @ ''-'' @ slug)" using plain_branch_ok [of "i @ ''-'' @ slug"] by simp
  with slug show ?thesis by simp
qed

section \<open>What git is made to do\<close>

record git_call =
  gc_args :: "string list"
  gc_cwd :: string
  gc_answer :: "completed option"

definition recorded :: "'s machine \<Rightarrow> ('s \<times> git_call list) machine" where
  "recorded m =
     \<lparr>mc_resolve = (\<lambda>p s. mc_resolve m p (fst s)), mc_exists = (\<lambda>p s. mc_exists m p (fst s)),
      mc_is_symlink = (\<lambda>p s. mc_is_symlink m p (fst s)), mc_is_dir = (\<lambda>p s. mc_is_dir m p (fst s)),
      mc_mkdir = (\<lambda>p (s, calls). case mc_mkdir m p s of (r, s') \<Rightarrow> (r, (s', calls))),
      mc_git = (\<lambda>args cwd (s, calls). case mc_git m args cwd s of (r, s') \<Rightarrow>
        (r, (s', calls @ [\<lparr>gc_args = args, gc_cwd = cwd,
           gc_answer = (case r of Inl _ \<Rightarrow> None | Inr c \<Rightarrow> Some c)\<rparr>])))\<rparr>"

text \<open>The calls that an action makes, and its results.\<close>

definition makes :: "(git_call \<Rightarrow> bool) \<Rightarrow> ('s \<times> git_call list, 'e, 'a) act \<Rightarrow> bool" where
  "makes P m \<longleftrightarrow> (\<forall>s. \<exists>new. snd (snd (m s)) = snd s @ new \<and> list_all P new)"

definition yields :: "('a \<Rightarrow> bool) \<Rightarrow> ('s, 'e, 'a) act \<Rightarrow> bool" where
  "yields Q m \<longleftrightarrow> (\<forall>s x s'. m s = (Inr x, s') \<longrightarrow> Q x)"

lemma makes_bind:
  assumes "makes P m" "yields Q m" "\<And>x. Q x \<Longrightarrow> makes P (f x)"
  shows "makes P (act_bind m f)"
  unfolding makes_def
proof
  fix s
  obtain x s1 where run: "m s = (x, s1)" by (cases "m s")
  then obtain new where new: "snd s1 = snd s @ new" "list_all P new"
    using assms(1) unfolding makes_def by (metis snd_conv)
  show "\<exists>new. snd (snd (act_bind m f s)) = snd s @ new \<and> list_all P new"
  proof (cases x)
    case (Inl e)
    with run new show ?thesis by (simp add: act_bind_def)
  next
    case (Inr y)
    then have "Q y" using run assms(2) unfolding yields_def by blast
    then obtain more where "snd (snd (f y s1)) = snd s1 @ more" "list_all P more"
      using assms(3) unfolding makes_def by blast
    with run new Inr show ?thesis by (auto simp: act_bind_def)
  qed
qed

lemma yields_bind: "yields R m \<Longrightarrow> (\<And>x. R x \<Longrightarrow> yields Q (f x)) \<Longrightarrow> yields Q (act_bind m f)"
  unfolding yields_def act_bind_def by (auto split: prod.splits sum.splits) blast

lemma yields_True [simp]: "yields (\<lambda>_. True) m"
  by (simp add: yields_def)

lemma yields_pure [simp]:
  "yields Q (act_return x) \<longleftrightarrow> Q x" "yields Q (act_raise e)" "yields Q (act_lift r) \<longleftrightarrow> (\<forall>x. r = Inr x \<longrightarrow> Q x)"
  by (auto simp: yields_def act_return_def act_raise_def act_lift_def)

lemma makes_pure [simp]:
  "makes P (act_return x)" "makes P (act_raise e)" "makes P (act_lift r)" "makes P (act_require b e)"
  by (auto simp: makes_def act_return_def act_raise_def act_lift_def act_require_def)

lemma makes_then: "makes P m \<Longrightarrow> (\<And>x. makes P (f x)) \<Longrightarrow> makes P (act_bind m f)"
  by (rule makes_bind [where Q = "\<lambda>_. True"]) simp_all

text \<open>The calls before the switch: few commands, none of the dangerous arguments, and below the
  workspaces; only a clone runs beside its target.\<close>

definition CHECK_COMMANDS :: "string list" where
  "CHECK_COMMANDS =
     [''clone'', ''rev-parse'', ''remote'', ''status'', ''symbolic-ref'', ''check-ref-format'', ''show-ref'']"

definition checking_call :: "'s manager \<Rightarrow> git_call \<Rightarrow> bool" where
  "checking_call g c \<longleftrightarrow>
     gc_args c \<noteq> [] \<and> hd (gc_args c) \<in> set CHECK_COMMANDS \<and>
     set (gc_args c) \<inter> set FORBIDDEN_GIT_ARGUMENTS = {} \<and>
     (below_workspaces g (gc_cwd c) \<or>
      hd (gc_args c) = ''clone'' \<and>
      (\<exists>target. below_workspaces g target \<and> gc_cwd c = parent_path target \<and> last (gc_args c) = as_posix target))"

text \<open>A manager over a recorded machine.\<close>

definition recorder :: "'s manager \<Rightarrow> ('s \<times> git_call list) manager" where
  "recorder g = \<lparr>mg_machine = recorded (mg_machine g), mg_root = mg_root g,
     mg_workspaces = mg_workspaces g, mg_projects = mg_projects g\<rparr>"

lemma recorder_simps [simp]:
  "mg_machine (recorder g) = recorded (mg_machine g)" "mg_workspaces (recorder g) = mg_workspaces g"
  "mg_projects (recorder g) = mg_projects g" "mg_root (recorder g) = mg_root g"
  "below_workspaces (recorder g) = below_workspaces g" "checking_call (recorder g) = checking_call g"
  by (simp_all add: recorder_def below_workspaces_def checking_call_def fun_eq_iff)

lemma guard_Ok: "git_guard args = Inr command \<Longrightarrow> args \<noteq> [] \<and> command = hd args \<and>
    set args \<inter> set FORBIDDEN_GIT_ARGUMENTS = {}"
  by (cases args) (auto simp: find_None_iff split: if_splits option.splits)

lemma run_git_makes:
  assumes "\<And>answer. set args \<inter> set FORBIDDEN_GIT_ARGUMENTS = {} \<Longrightarrow>
    P \<lparr>gc_args = args, gc_cwd = cwd, gc_answer = answer\<rparr>"
  shows "makes P (run_git (recorder g) args cwd check)"
proof (cases "git_guard args")
  case (Inl e)
  then show ?thesis by (simp add: run_git_def makes_def act_bind_def act_lift_def)
next
  case (Inr command)
  have "makes P (map_raise h (mc_git (recorded (mg_machine g)) args cwd))" for h
    using assms guard_Ok [OF Inr]
    by (auto simp: makes_def map_raise_def recorded_def split: prod.splits sum.splits)
  then show ?thesis
    unfolding run_git_def recorder_simps Inr by (intro makes_then) simp_all
qed

lemma make_directory_makes: "makes P (make_directory (recorder g) p)"
  by (auto simp: makes_def make_directory_def map_raise_def recorded_def split: prod.splits sum.splits)

lemma assert_contained_facts:
  "makes P (assert_contained (recorder g) p)" "yields (below_workspaces g) (assert_contained (recorder g) p)"
  by (auto simp: makes_def yields_def assert_contained_def Let_def below_workspaces_def)

lemma yields_require: "yields Q (act_require b e) \<longleftrightarrow> (b \<longrightarrow> Q ())"
  by (auto simp: yields_def act_require_def act_return_def act_raise_def)

text \<open>Every call of the manager is allowed, whatever the machine answers.\<close>

lemma below_git:
  assumes "below_workspaces g cwd" "args \<noteq> []" "hd args \<in> set CHECK_COMMANDS"
  shows "makes (checking_call g) (run_git (recorder g) args cwd check)"
  using assms by (intro run_git_makes) (simp add: checking_call_def)

lemma working_tree_status_calls:
  "below_workspaces g cwd \<Longrightarrow> makes (checking_call g) (working_tree_status (recorder g) cwd)"
  unfolding working_tree_status_def by (intro makes_then below_git) (simp_all add: CHECK_COMMANDS_def)

lemma current_branch_calls: "makes (checking_call g) (current_branch (recorder g) p)"
  unfolding current_branch_def
  by (intro makes_bind [OF assert_contained_facts] makes_then below_git) (simp_all add: CHECK_COMMANDS_def)

lemma clone_missing_calls:
  assumes "below_workspaces g target"
  shows "makes (checking_call g) (clone_missing (recorder g) p target)"
proof -
  have "makes (checking_call g) (run_git (recorder g)
      [''clone'', ''--origin'', ''origin'', ''--'', pd_repository p, as_posix target] (parent_path target) True)"
    by (rule run_git_makes) (use assms in \<open>auto simp: checking_call_def CHECK_COMMANDS_def\<close>)
  then have "makes (checking_call g) (act_bind (make_directory (recorder g) (parent_path target)) (\<lambda>_.
      act_bind (run_git (recorder g) [''clone'', ''--origin'', ''origin'', ''--'', pd_repository p, as_posix target]
        (parent_path target) True) (\<lambda>_. act_return ())))"
    by (intro makes_then make_directory_makes) simp_all
  then show ?thesis by (auto simp: makes_def clone_missing_def)
qed

lemma resolve_existing_calls: "makes P (resolve_existing (recorder g) p)"
  by (auto simp: makes_def resolve_existing_def Let_def)

lemma clone_or_select_calls: "makes (checking_call g) (clone_or_select (recorder g) i policy)"
  unfolding clone_or_select_def project_of_def project_path_def
  by (intro makes_then makes_bind [OF assert_contained_facts] make_directory_makes clone_missing_calls
      resolve_existing_calls working_tree_status_calls current_branch_calls below_git)
    (simp_all add: CHECK_COMMANDS_def)

lemma clone_or_select_path: "yields (\<lambda>w. below_workspaces g (pw_path w)) (clone_or_select (recorder g) i policy)"
  unfolding clone_or_select_def project_of_def project_path_def
  by (intro yields_bind [OF yields_True] yields_bind [OF assert_contained_facts(2)]) simp

lemma task_base_ref_calls:
  "below_workspaces g cwd \<Longrightarrow> makes (checking_call g) (task_base_ref (recorder g) cwd p)"
  unfolding task_base_ref_def
  by (cases "pd_base_branch p")
    (auto intro!: makes_then below_git simp: CHECK_COMMANDS_def)

text \<open>\<open>create_task_branch\<close> up to the switch.\<close>

definition branch_checked ::
  "'s manager \<Rightarrow> (string \<Rightarrow> string) \<Rightarrow> string \<Rightarrow> string \<Rightarrow> string \<Rightarrow>
   ('s, ws_error, project_workspace \<times> string \<times> string) act" where
  "branch_checked g to_ascii project_id task_id description =
     act_bind (clone_or_select g project_id Reject_dirty) (\<lambda>w.
     act_bind (act_lift (case task_branch_name to_ascii task_id description of
       None \<Rightarrow> Inl Unsafe_task_id | Some b \<Rightarrow> Inr b)) (\<lambda>branch.
     act_bind (run_git g [''check-ref-format'', ''--branch'', branch] (pw_path w) False) (\<lambda>valid.
     act_bind (act_require (gr_code valid = 0) (Invalid_branch branch)) (\<lambda>_.
     act_bind (run_git g [''show-ref'', ''--verify'', ''--quiet'', ''refs/heads/'' @ branch] (pw_path w) False) (\<lambda>collision.
     act_bind (act_require (gr_code collision \<noteq> 0) (BranchCollision branch)) (\<lambda>_.
     act_bind (act_require (gr_code collision = 1) (GitCommand ''show-ref'' (gr_code collision) (gr_err collision))) (\<lambda>_.
     act_bind (project_of g project_id) (\<lambda>p.
     act_bind (task_base_ref g (pw_path w) p) (\<lambda>base.
     act_return (w, branch, base))))))))))"

lemma act_bind_assoc: "act_bind (act_bind m f) h = act_bind m (\<lambda>x. act_bind (f x) h)"
  by (auto simp: act_bind_def fun_eq_iff split: prod.split sum.split)

lemma act_bind_return: "act_bind (act_return x) f = f x"
  by (simp add: act_bind_def act_return_def fun_eq_iff)

lemma create_task_branch_split:
  "create_task_branch g to_ascii i task_id d =
     act_bind (branch_checked g to_ascii i task_id d) (\<lambda>(w, branch, base).
     act_bind (run_git g [''switch'', ''--create'', branch, base] (pw_path w) True) (\<lambda>_.
     act_return \<lparr>tb_project = i, tb_workspace = pw_path w, tb_branch = branch\<rparr>))"
  by (simp add: create_task_branch_def branch_checked_def act_bind_assoc act_bind_return)

text \<open>What has been answered, with exit code 0 or not, when a step returns.\<close>

definition was_answered :: "git_call list \<Rightarrow> string list \<Rightarrow> string \<Rightarrow> (completed \<Rightarrow> bool) \<Rightarrow> bool" where
  "was_answered calls args cwd P \<longleftrightarrow>
     (\<exists>r. \<lparr>gc_args = args, gc_cwd = cwd, gc_answer = Some r\<rparr> \<in> set calls \<and> P r)"

lemma was_answered_mono: "was_answered calls args cwd P \<Longrightarrow> set calls \<subseteq> set calls' \<Longrightarrow> was_answered calls' args cwd P"
  unfolding was_answered_def by blast

lemma makes_subset: "makes P m \<Longrightarrow> m s = (x, s') \<Longrightarrow> set (snd s) \<subseteq> set (snd s')"
  unfolding makes_def by (metis fst_conv snd_conv Un_upper1 set_append)

lemma run_git_Ok:
  assumes "run_git (recorder g) args cwd check s = (Inr r, s')"
  shows "was_answered (snd s') args cwd (\<lambda>x. x = r)" "check \<Longrightarrow> gr_code r = 0" "set (snd s) \<subseteq> set (snd s')"
    "snd s' = snd s @ [\<lparr>gc_args = args, gc_cwd = cwd, gc_answer = Some r\<rparr>]"
  using assms
  by (auto simp: run_git_def result_simps recorded_def was_answered_def map_raise_def split: prod.splits sum.splits)

lemma clone_or_select_Ok:
  assumes "clone_or_select (recorder g) i policy s = (Inr w, s')"
  shows "\<exists>p. map_of (mg_projects g) i = Some p \<and> below_workspaces g (pw_path w) \<and>
    was_answered (snd s') [''remote'', ''get-url'', ''origin''] (pw_path w)
      (\<lambda>r. gr_code r = 0 \<and> py_strip (gr_out r) = pd_repository p) \<and>
    was_answered (snd s') [''status'', ''--porcelain=v1'', ''--untracked-files=all''] (pw_path w)
      (\<lambda>r. gr_code r = 0 \<and> (policy = Reject_dirty \<longrightarrow> gr_out r = []))"
proof -
  obtain p canonical origin status branch s1 s2 s3 s4 where p: "map_of (mg_projects g) i = Some p"
    and origin: "run_git (recorder g) [''remote'', ''get-url'', ''origin''] canonical True s1 = (Inr origin, s2)"
      "py_strip (gr_out origin) = pd_repository p"
    and status: "run_git (recorder g) [''status'', ''--porcelain=v1'', ''--untracked-files=all''] canonical True s2 = (Inr status, s3)"
      "\<not> (gr_out status \<noteq> [] \<and> policy = Reject_dirty)"
    and branch: "current_branch (recorder g) canonical s3 = (Inr branch, s4)" and ends: "pw_path w = canonical" "s' = s4"
    using assms
    by (auto simp: clone_or_select_def project_of_def working_tree_status_def result_simps split: option.splits)
  have below: "below_workspaces g (pw_path w)"
    using clone_or_select_path [of g i policy] assms unfolding yields_def by blast
  have grown: "set (snd s3) \<subseteq> set (snd s')"
    using makes_subset [OF current_branch_calls branch] ends by simp
  note o = run_git_Ok [OF origin(1)] and st = run_git_Ok [OF status(1)]
  have "was_answered (snd s') [''status'', ''--porcelain=v1'', ''--untracked-files=all''] (pw_path w)
      (\<lambda>r. gr_code r = 0 \<and> (policy = Reject_dirty \<longrightarrow> gr_out r = []))"
    using was_answered_mono [OF st(1) grown] st(2) status(2) ends by (auto simp: was_answered_def)
  moreover have "was_answered (snd s') [''remote'', ''get-url'', ''origin''] (pw_path w)
      (\<lambda>r. gr_code r = 0 \<and> py_strip (gr_out r) = pd_repository p)"
    using was_answered_mono [OF was_answered_mono [OF o(1) st(3)] grown] o(2) origin(2) ends by (auto simp: was_answered_def)
  ultimately show ?thesis using p below by blast
qed

lemma branch_checked_calls: "makes (checking_call g) (branch_checked (recorder g) to_ascii i task_id d)"
  unfolding branch_checked_def project_of_def
  by (intro makes_bind [OF clone_or_select_calls clone_or_select_path] makes_then task_base_ref_calls below_git)
    (simp_all add: CHECK_COMMANDS_def)

lemma task_base_ref_Ok:
  assumes "task_base_ref (recorder g) cwd p s = (Inr base, s')"
  shows "startswith ORIGIN_REFS base" "was_answered (snd s') [''show-ref'', ''--verify'', ''--quiet'', base] cwd (\<lambda>r. gr_code r = 0)"
proof -
  obtain r s1 where v: "run_git (recorder g) [''show-ref'', ''--verify'', ''--quiet'', base] cwd False s1 = (Inr r, s')"
    "gr_code r = 0"
    using assms by (auto simp: task_base_ref_def result_simps split: option.splits if_splits)
  show "was_answered (snd s') [''show-ref'', ''--verify'', ''--quiet'', base] cwd (\<lambda>r. gr_code r = 0)"
    using run_git_Ok(1) [OF v(1)] v(2) by (auto simp: was_answered_def)
  show "startswith ORIGIN_REFS base"
    using assms by (auto simp: task_base_ref_def result_simps startswith_def split: option.splits if_splits)
qed

definition branch_ready ::
  "'s manager \<Rightarrow> (string \<Rightarrow> string) \<Rightarrow> string \<Rightarrow> string \<Rightarrow> string \<Rightarrow> string \<Rightarrow> string \<Rightarrow> string \<Rightarrow> git_call list \<Rightarrow> bool" where
  "branch_ready g to_ascii i task_id d cwd branch base calls \<longleftrightarrow>
     below_workspaces g cwd \<and> task_branch_name to_ascii task_id d = Some branch \<and> startswith ORIGIN_REFS base \<and>
     (\<exists>p. map_of (mg_projects g) i = Some p \<and>
        was_answered calls [''remote'', ''get-url'', ''origin''] cwd
          (\<lambda>r. gr_code r = 0 \<and> py_strip (gr_out r) = pd_repository p)) \<and>
     was_answered calls [''status'', ''--porcelain=v1'', ''--untracked-files=all''] cwd (\<lambda>r. gr_code r = 0 \<and> gr_out r = []) \<and>
     was_answered calls [''check-ref-format'', ''--branch'', branch] cwd (\<lambda>r. gr_code r = 0) \<and>
     was_answered calls [''show-ref'', ''--verify'', ''--quiet'', ''refs/heads/'' @ branch] cwd (\<lambda>r. gr_code r = 1) \<and>
     was_answered calls [''show-ref'', ''--verify'', ''--quiet'', base] cwd (\<lambda>r. gr_code r = 0)"

lemma branch_checked_Ok:
  assumes "branch_checked (recorder g) to_ascii i task_id d s = (Inr (w, branch, base), s')"
  shows "branch_ready g to_ascii i task_id d (pw_path w) branch base (snd s')"
proof -
  obtain valid collision p s1 s2 s3 where select: "clone_or_select (recorder g) i Reject_dirty s = (Inr w, s1)"
    and name: "task_branch_name to_ascii task_id d = Some branch"
    and valid: "run_git (recorder g) [''check-ref-format'', ''--branch'', branch] (pw_path w) False s1 = (Inr valid, s2)"
      "gr_code valid = 0"
    and collision: "run_git (recorder g) [''show-ref'', ''--verify'', ''--quiet'', ''refs/heads/'' @ branch] (pw_path w) False s2 =
      (Inr collision, s3)" "gr_code collision = 1"
    and base: "task_base_ref (recorder g) (pw_path w) p s3 = (Inr base, s')"
    using assms by (auto simp: branch_checked_def project_of_def result_simps split: option.splits)
  obtain q where q: "map_of (mg_projects g) i = Some q" "below_workspaces g (pw_path w)"
    "was_answered (snd s1) [''remote'', ''get-url'', ''origin''] (pw_path w)
      (\<lambda>r. gr_code r = 0 \<and> py_strip (gr_out r) = pd_repository q)"
    "was_answered (snd s1) [''status'', ''--porcelain=v1'', ''--untracked-files=all''] (pw_path w)
      (\<lambda>r. gr_code r = 0 \<and> gr_out r = [])"
    using clone_or_select_Ok [OF select] by auto
  note v = run_git_Ok [OF valid(1)] and c = run_git_Ok [OF collision(1)]
  have grown: "set (snd s3) \<subseteq> set (snd s')" by (rule makes_subset [OF task_base_ref_calls [OF q(2)] base])
  have all: "set (snd s1) \<subseteq> set (snd s')" "set (snd s2) \<subseteq> set (snd s')" using v(3) c(3) grown by auto
  have "was_answered (snd s') [''check-ref-format'', ''--branch'', branch] (pw_path w) (\<lambda>r. gr_code r = 0)"
    using was_answered_mono [OF v(1) all(2)] valid(2) by (auto simp: was_answered_def)
  moreover have "was_answered (snd s') [''show-ref'', ''--verify'', ''--quiet'', ''refs/heads/'' @ branch] (pw_path w)
      (\<lambda>r. gr_code r = 1)"
    using was_answered_mono [OF c(1) grown] collision(2) by (auto simp: was_answered_def)
  ultimately show ?thesis
    unfolding branch_ready_def
    using q name task_base_ref_Ok [OF base] was_answered_mono [OF q(3) all(1)] was_answered_mono [OF q(4) all(1)] by blast
qed

end
