(* ===== verification/WorkspaceProperties.thy ===== *)
theory WorkspaceProperties
  imports WorkspaceSafety ModelProperties
begin

text \<open>
  The properties of the workspace manager: the branch of a task has a safe name, and a workspace is
  put on it only after every check has passed, by the last command that \<open>git\<close> is given.
\<close>

text \<open>The branch of a task is safe: for every task identifier of at most 64 characters and every
  description, whatever the Unicode normalisation makes of it, the name has at most 120 characters and
  satisfies the rules of \<open>git check-ref-format\<close>. A valid task identifier may be longer, up to 69
  characters; then there is no branch, and the error is not one that the adapter translates.\<close>

theorem task_branch_safe:
  assumes "clean TaskId i"
  shows "if length i \<le> 64
    then \<exists>b. task_branch_name to_ascii i d = Some b \<and> git_branch_ok b \<and> length b \<le> 120
    else task_branch_name to_ascii i d = None \<and> preparation_of Unsafe_task_id = Preparation_exception"
proof (cases "length i \<le> 64")
  case True
  with task_id_branch [OF assms, of to_ascii d] show ?thesis by simp
next
  case False
  then have "\<not> branch_task_id i" by (cases i) auto
  with False show ?thesis by (simp add: task_branch_name_def)
qed

theorem task_branch_safe_witness:
  "\<exists>b. task_branch_name (\<lambda>s. s) ''TASK-1'' ''Fix: the   build!'' = Some b \<and> git_branch_ok b \<and> length b \<le> 120"
  using task_branch_safe [of "''TASK-1''" "\<lambda>s. s" "''Fix: the   build!''"] by (simp add: check_simps)

text \<open>C12: Preparing the workspace of a task changes the branch last or not at all. Whatever the machine
  answers: when the preparation succeeds, the last command switched to the new branch, in a directory
  below the workspaces, after the origin was found to be the registered repository, the tree clean,
  the name valid, the branch new and its base an existing branch of the origin; every command before
  it is one of few, without a force flag, below the workspaces (a clone runs beside its target). When
  it fails, no switch succeeded.\<close>

theorem branch_switched_last:
  assumes "create_task_branch (recorder g) to_ascii i task_id d (s, []) = (r, (s', calls))"
  shows "\<exists>checks. list_all (checking_call g) checks \<and>
    (case r of
       Inr tb \<Rightarrow> \<exists>base answer. calls = checks @ [\<lparr>gc_args = [''switch'', ''--create'', tb_branch tb, base],
           gc_cwd = tb_workspace tb, gc_answer = Some answer\<rparr>] \<and> gr_code answer = 0 \<and> tb_project tb = i \<and>
         branch_ready g to_ascii i task_id d (tb_workspace tb) (tb_branch tb) base checks
     | Inl e \<Rightarrow> calls = checks \<or>
         (\<exists>last_call. calls = checks @ [last_call] \<and> opt_all (\<lambda>answer. gr_code answer \<noteq> 0) (gc_answer last_call)))"
proof -
  obtain x s1 where checked: "branch_checked (recorder g) to_ascii i task_id d (s, []) = (x, s1)"
    by (cases "branch_checked (recorder g) to_ascii i task_id d (s, [])")
  have checks: "list_all (checking_call g) (snd s1)"
    using branch_checked_calls [of g to_ascii i task_id d] checked unfolding makes_def
    by (metis append_Nil snd_conv)
  show ?thesis
  proof (cases x)
    case (Inl e)
    then have "r = Inl e" "calls = snd s1"
      using assms checked by (auto simp: create_task_branch_split act_bind_def)
    with checks show ?thesis by auto
  next
    case (Inr y)
    obtain w branch base where y: "y = (w, branch, base)" by (cases y)
    let ?args = "[''switch'', ''--create'', branch, base]"
    obtain z s2 where switched: "run_git (recorder g) ?args (pw_path w) True s1 = (z, s2)"
      by (cases "run_git (recorder g) ?args (pw_path w) True s1")
    have end_state: "r = (case z of Inl e \<Rightarrow> Inl e
        | Inr _ \<Rightarrow> Inr \<lparr>tb_project = i, tb_workspace = pw_path w, tb_branch = branch\<rparr>)" "calls = snd s2"
      using assms checked switched Inr y
      by (auto simp: create_task_branch_split act_bind_def act_return_def split: sum.splits)
    show ?thesis
    proof (cases z)
      case z: (Inr answer)
      from run_git_Ok(2,4) [OF switched [unfolded z]] branch_checked_Ok [OF checked [unfolded Inr y]] checks end_state z
      show ?thesis by (auto intro!: exI [of _ "snd s1"])
    next
      case z: (Inl e)
      have "calls = snd s1 \<or> (\<exists>last_call. calls = snd s1 @ [last_call] \<and>
          opt_all (\<lambda>answer. gr_code answer \<noteq> 0) (gc_answer last_call))"
        using switched z end_state(2)
        by (auto simp: run_git_def act_bind_def act_lift_def act_require_def act_return_def act_raise_def
            map_raise_def recorded_def opt_all_iff split: sum.splits prod.splits if_splits)
      with checks end_state(1) z show ?thesis by auto
    qed
  qed
qed

text \<open>A machine on which everything is as it should be.\<close>

fun sample_git :: "string list \<Rightarrow> string \<Rightarrow> unit \<Rightarrow> (string + completed) \<times> unit" where
  "sample_git args cwd s =
     (Inr (if hd args = ''rev-parse'' then \<lparr>gr_code = 0, gr_out = ''/hub/workspace/projects/hub'', gr_err = []\<rparr>
       else if hd args = ''remote'' then \<lparr>gr_code = 0, gr_out = ''git@example.com:team/hub.git'', gr_err = []\<rparr>
       else if startswith ''refs/heads/'' (last args) then \<lparr>gr_code = 1, gr_out = [], gr_err = []\<rparr>
       else \<lparr>gr_code = 0, gr_out = [], gr_err = []\<rparr>), s)"

definition sample_machine :: "unit machine" where
  "sample_machine =
     \<lparr>mc_resolve = (\<lambda>p _. as_posix p), mc_exists = (\<lambda>_ _. True), mc_is_symlink = (\<lambda>_ _. False),
      mc_is_dir = (\<lambda>_ _. True), mc_mkdir = (\<lambda>_ s. (Inr (), s)), mc_git = sample_git\<rparr>"

definition sample_manager :: "unit manager" where
  "sample_manager =
     \<lparr>mg_machine = sample_machine, mg_root = ''/hub'', mg_workspaces = ''/hub/workspace/projects'',
      mg_projects = [(''hub'', (sample_project ''workspace/projects/hub'' ''core'')
        \<lparr>pd_repository := ''git@example.com:team/hub.git'', pd_base_branch := Some ''main''\<rparr>)]\<rparr>"

lemma sample_branch_created:
  "fst (create_task_branch (recorder sample_manager) (\<lambda>s. s) ''hub'' ''TASK-1'' ''Fix'' ((), [])) =
     Inr \<lparr>tb_project = ''hub'', tb_workspace = ''/hub/workspace/projects/hub'', tb_branch = ''agent/TASK-1-fix''\<rparr>"
  by code_simp

theorem branch_switched_last_witness:
  "\<exists>checks base answer. snd (snd (create_task_branch (recorder sample_manager) (\<lambda>s. s) ''hub'' ''TASK-1'' ''Fix'' ((), []))) =
     checks @ [\<lparr>gc_args = [''switch'', ''--create'', ''agent/TASK-1-fix'', base],
       gc_cwd = ''/hub/workspace/projects/hub'', gc_answer = Some answer\<rparr>] \<and> gr_code answer = 0"
proof -
  obtain r s' calls where run:
    "create_task_branch (recorder sample_manager) (\<lambda>s. s) ''hub'' ''TASK-1'' ''Fix'' ((), []) = (r, (s', calls))"
    by (metis surj_pair)
  have "r = Inr \<lparr>tb_project = ''hub'', tb_workspace = ''/hub/workspace/projects/hub'', tb_branch = ''agent/TASK-1-fix''\<rparr>"
    using sample_branch_created run by (metis fst_conv)
  with branch_switched_last [OF run] run show ?thesis by auto
qed

end
