(* ===== verification/Runtime.thy ===== *)
theory Runtime
  imports Complex_Main Redaction Orchestrator
begin

text \<open>
  \<open>runtime/base.py\<close> and \<open>runtime/codex.py\<close>: the requests and results of a runtime with their checks, the
  configuration of the Codex adapter, and the adapter itself: the table of running processes that
  \<open>execute\<close> and \<open>cancel\<close> share, the bounded reading of the outputs, and the list of changed files.
  What the operating system and the child process do is the record \<open>child\<close>; \<open>decode\<close> is
  \<open>bytes.decode("utf-8", errors="replace")\<close>.
\<close>

section \<open>\<open>runtime/base.py\<close>\<close>

definition Prompt :: constraint where
  "Prompt = \<lparr>min_len = 1, max_len = 100000, pattern = (\<lambda>_. True)\<rparr>"

record runtime_request =
  qr_task :: string
  qr_agent :: string
  qr_project :: string
  qr_workspace :: string
  qr_prompt :: string
  qr_timeout :: int

definition RuntimeRequest_validate :: "runtime_request \<Rightarrow> value_error + runtime_request" where
  "RuntimeRequest_validate r =
     and_then (checked TaskId (qr_task r)) (\<lambda>i.
     and_then (checked Identifier (qr_agent r)) (\<lambda>agent.
     and_then (checked Identifier (qr_project r)) (\<lambda>proj.
     and_then (require (is_absolute (qr_workspace r)) InvalidField) (\<lambda>_.
     and_then (checked Prompt (qr_prompt r)) (\<lambda>prompt.
     and_then (require (1 \<le> qr_timeout r \<and> qr_timeout r \<le> 86400) InvalidField) (\<lambda>_.
     Inr \<lparr>qr_task = i, qr_agent = agent, qr_project = proj, qr_workspace = qr_workspace r,
          qr_prompt = prompt, qr_timeout = qr_timeout r\<rparr>))))))"

record codex_result =
  cr_status :: runtime_status
  cr_started :: aware
  cr_completed :: aware
  cr_exit_code :: "int option"
  cr_stdout :: string
  cr_stderr :: string
  cr_changed_files :: "string list"

definition safe_changed_file :: "string \<Rightarrow> bool" where
  "safe_changed_file f \<longleftrightarrow> \<not> is_absolute f \<and> ''..'' \<notin> set (path_parts f)"

definition RuntimeResult_validate :: "codex_result \<Rightarrow> value_error + codex_result" where
  "RuntimeResult_validate r =
     and_then (require (distinct (cr_changed_files r)) InvalidField) (\<lambda>_.
     and_then (require (list_all safe_changed_file (cr_changed_files r)) InvalidField) (\<lambda>_.
     and_then (require (\<not> aware_less (cr_completed r) (cr_started r)) InvalidField) (\<lambda>_.
     Inr r)))"

text \<open>What the orchestrator uses of a result.\<close>

definition seen_result :: "codex_result \<Rightarrow> runtime_result" where
  "seen_result r = \<lparr>re_status = cr_status r, re_exit_code = cr_exit_code r, re_changed_files = cr_changed_files r\<rparr>"

text \<open>\<open>DisabledRuntime\<close> refuses everything.\<close>

datatype codex_error =
    RuntimeLaunchError | RuntimeTaskNotRunning | RuntimeExecutionDisabled | Execute_raised | Result_invalid

definition disabled_execute :: "runtime_request \<Rightarrow> codex_error + codex_result" where
  "disabled_execute request = Inl RuntimeExecutionDisabled"

definition disabled_cancel :: "string \<Rightarrow> codex_error + unit" where
  "disabled_cancel task_id = Inl RuntimeExecutionDisabled"

section \<open>Redaction of the output\<close>

definition word_char :: rx where "word_char = Chars (\<lambda>c. \<not> is_py_space c)"

definition equals :: rx where "equals = seq [Many blank, Chars (\<lambda>c. c = CHR '':'' \<or> c = CHR ''=''), Many blank]"

definition OUTPUT_AUTHORIZATION :: rx where
  "OUTPUT_AUTHORIZATION =
     seq [Group (seq [text_of any_case ''authorization'', equals]),
          maybe (seq [text_of any_case ''bearer'', at_least 1 blank]), at_least 1 word_char]"

definition OUTPUT_NAMED :: rx where
  "OUTPUT_NAMED =
     seq [Group (seq [one_of (map (text_of name_char) [''api~key'', ''token'', ''password'', ''secret'']), equals]),
          at_least 1 word_char]"

definition OUTPUT_TOKEN :: rx where
  "OUTPUT_TOKEN =
     seq [Word_edge,
          one_of [text_of exact_char ''sk'',
                  seq [text_of exact_char ''xox'', Chars (\<lambda>c. c \<in> set ''baprs'')],
                  text_of exact_char ''xapp''],
          exact_char (CHR ''-''), at_least 8 (Chars is_token_char), Word_edge]"

definition redact_runtime_output :: "string \<Rightarrow> string" where
  "redact_runtime_output value =
     (let redacted = sub_all PEM_PRIVATE_KEY (\<lambda>_. REDACTED) value;
          redacted = sub_all OUTPUT_AUTHORIZATION (keep_groups 1) redacted;
          redacted = sub_all OUTPUT_NAMED (keep_groups 1) redacted;
          redacted = sub_all OUTPUT_TOKEN (\<lambda>_. REDACTED) redacted
      in sub_all GITHUB_TOKEN (\<lambda>_. REDACTED) redacted)"

section \<open>The configuration\<close>

record codex_config =
  cx_executable :: string
  cx_arguments :: "string list"
  cx_git :: string
  cx_output_limit :: nat
  cx_grace :: rat
  cx_environment :: "string list"

definition default_config :: codex_config where
  "default_config =
     \<lparr>cx_executable = ''codex'',
      cx_arguments = [''--ask-for-approval'', ''untrusted'', ''exec'', ''--ignore-user-config'', ''--ephemeral'',
        ''--json'', ''--sandbox'', ''workspace-write'', ''--config'', ''sandbox_workspace_write.network_access=false'',
        ''--config'', ''web_search=\"disabled\"'', ''--config'', ''allow_login_shell=false'', ''-''],
      cx_git = ''git'', cx_output_limit = 1000000, cx_grace = 5,
      cx_environment = [''PATH'', ''HOME'', ''USERPROFILE'', ''TMPDIR'', ''TMP'', ''TEMP'', ''CODEX_HOME'', ''LANG'',
        ''LC_ALL'', ''TERM'', ''SSL_CERT_FILE'']\<rparr>"

definition command_part :: "string \<Rightarrow> bool" where
  "command_part s \<longleftrightarrow> 1 \<le> length s \<and> length s \<le> 2000"

definition plain_command :: "string \<Rightarrow> bool" where
  "plain_command s \<longleftrightarrow> list_all (\<lambda>c. c \<notin> {CHR 0x00, CHR 0x0D, CHR 0x0A}) s"

definition CodexRuntimeConfig_validate :: "codex_config \<Rightarrow> value_error + codex_config" where
  "CodexRuntimeConfig_validate c =
     and_then (require (command_part (cx_executable c) \<and> plain_command (cx_executable c)) InvalidField) (\<lambda>_.
     and_then (require (list_all (\<lambda>a. command_part a \<and> CHR 0x00 \<notin> set a) (cx_arguments c)) InvalidField) (\<lambda>_.
     and_then (require (command_part (cx_git c) \<and> plain_command (cx_git c)) InvalidField) (\<lambda>_.
     and_then (require (1024 \<le> cx_output_limit c \<and> cx_output_limit c \<le> 10000000) InvalidField) (\<lambda>_.
     and_then (require (0 < cx_grace c \<and> cx_grace c \<le> 30) InvalidField) (\<lambda>_.
     and_then (require (distinct (cx_environment c)) InvalidField) (\<lambda>_.
     Inr c))))))"

definition runtime_config_from_settings :: "string \<Rightarrow> nat \<Rightarrow> value_error + codex_config" where
  "runtime_config_from_settings executable limit =
     CodexRuntimeConfig_validate (default_config\<lparr>cx_executable := executable, cx_output_limit := limit\<rparr>)"

text \<open>The environment of the child: the named variables that are set.\<close>

definition child_environment :: "codex_config \<Rightarrow> (string \<Rightarrow> string option) \<Rightarrow> (string \<times> string) list" where
  "child_environment c source =
     List.map_filter (\<lambda>name. map_option (Pair name) (source name)) (cx_environment c)"

section \<open>Outputs\<close>

text \<open>\<open>_read_bounded\<close>: an empty chunk is the end of the stream.\<close>

fun read_chunks :: "nat \<Rightarrow> string list \<Rightarrow> string \<Rightarrow> bool \<Rightarrow> string \<times> bool" where
  "read_chunks limit [] output truncated = (output, truncated)"
| "read_chunks limit (chunk # chunks) output truncated =
     (if chunk = [] then (output, truncated)
      else
        (let remaining = limit - length output in
         read_chunks limit chunks (if 0 < remaining then output @ take remaining chunk else output)
           (truncated \<or> remaining < length chunk)))"

definition read_bounded :: "nat \<Rightarrow> string list option \<Rightarrow> string \<times> bool" where
  "read_bounded limit stream =
     (case stream of None \<Rightarrow> ([], False) | Some chunks \<Rightarrow> read_chunks limit chunks [] False)"

definition TRUNCATED_MARKER :: string where
  "TRUNCATED_MARKER = CHR 0x0A # ''[output truncated by AI Hub]''"

definition decode_output :: "(string \<Rightarrow> string) \<Rightarrow> (string \<Rightarrow> string) \<Rightarrow> string \<times> bool \<Rightarrow> string" where
  "decode_output decode redactor output =
     redactor (decode (fst output) @ (if snd output then TRUNCATED_MARKER else []))"

section \<open>Changed files\<close>

text \<open>The path in a record of \<open>git status -z\<close>, if it is one that is kept.\<close>

definition changed_path :: "string \<Rightarrow> string option" where
  "changed_path rec =
     (let candidate = (if 3 \<le> length rec \<and> rec ! 2 = CHR '' '' then drop 3 rec else rec) in
      if is_absolute candidate \<or> ''..'' \<in> set (path_parts candidate) \<or> candidate = [] then None
      else Some (as_posix candidate))"

definition changed_files_of :: "(string \<Rightarrow> string) \<Rightarrow> string \<Rightarrow> string list" where
  "changed_files_of decode output =
     sort (remdups (List.map_filter (\<lambda>raw. if raw = [] then None else changed_path (decode raw))
       (split_on (CHR 0x00) output)))"

text \<open>\<open>None\<close>: git could not be launched; otherwise its exit code and output.\<close>

definition collect_changed_files :: "(string \<Rightarrow> string) \<Rightarrow> (int \<times> string) option \<Rightarrow> string list" where
  "collect_changed_files decode status =
     (case status of
        None \<Rightarrow> []
      | Some (code, output) \<Rightarrow> if code \<noteq> 0 then [] else changed_files_of decode output)"

section \<open>The process table\<close>

text \<open>
  \<open>rt_processes\<close> and \<open>rt_cancelled\<close> are the fields of the adapter, guarded by its lock; \<open>rt_live\<close> holds
  the child processes that are running.
\<close>

record runtime_state =
  rt_processes :: "string \<rightharpoonup> nat"
  rt_cancelled :: "string set"
  rt_live :: "nat set"

definition fresh_runtime :: runtime_state where
  "fresh_runtime = \<lparr>rt_processes = Map.empty, rt_cancelled = {}, rt_live = {}\<rparr>"

text \<open>\<open>_terminate\<close> ends with the process gone: it returned, or it was terminated or killed and awaited.\<close>

definition terminate :: "nat \<Rightarrow> runtime_state \<Rightarrow> runtime_state" where
  "terminate p s = s\<lparr>rt_live := rt_live s - {p}\<rparr>"

datatype stdin_outcome = Written | Pipe_broken | Stdin_raised

datatype wait_outcome = Exited | Timed_out | Wait_raised

datatype wait_point = At_register | At_running | At_ended | At_unregister

text \<open>
  One run of a child: its process number (or a failed launch), whether the coroutine is cancelled while
  it waits for the lock, what happens on its pipes, how the wait ends, and \<open>ch_meanwhile\<close>: what the
  other coroutines do to the table in between.
\<close>

record child =
  ch_process :: "nat option"
  ch_lock_interrupted :: bool
  ch_stdin :: "stdin_outcome option"
  ch_wait :: wait_outcome
  ch_exit :: int
  ch_stdout :: "string list option"
  ch_stderr :: "string list option"
  ch_git :: "(int \<times> string) option"
  ch_started :: aware
  ch_completed :: aware
  ch_meanwhile :: "wait_point \<Rightarrow> runtime_state \<Rightarrow> runtime_state"

text \<open>
  The body of the \<open>try\<close>: the status, or \<open>None\<close> when something was raised and the process terminated.
  \<open>ch_stdin = None\<close> is the missing pipe.
\<close>

definition run_child :: "child \<Rightarrow> string \<Rightarrow> nat \<Rightarrow> runtime_state \<Rightarrow> (codex_error + runtime_status) \<times> runtime_state" where
  "run_child c task_id p s =
     (case ch_stdin c of
        None \<Rightarrow> (Inl RuntimeLaunchError, terminate p s)
      | Some Stdin_raised \<Rightarrow> (Inl Execute_raised, terminate p s)
      | Some _ \<Rightarrow>
          (let s1 = ch_meanwhile c At_running s in
           case ch_wait c of
             Wait_raised \<Rightarrow> (Inl Execute_raised, terminate p s1)
           | Timed_out \<Rightarrow> (Inr RuntimeTimedOut, terminate p s1)
           | Exited \<Rightarrow>
               (let s2 = ch_meanwhile c At_ended (terminate p s1) in
                if task_id \<in> rt_cancelled s2 then (Inr RuntimeCancelled, s2)
                else if ch_exit c = 0 then (Inr RuntimeSucceeded, s2)
                else (Inr RuntimeFailed, s2))))"

text \<open>The \<open>finally\<close>.\<close>

definition unregister :: "child \<Rightarrow> string \<Rightarrow> runtime_state \<Rightarrow> runtime_state" where
  "unregister c task_id s =
     (let s1 = ch_meanwhile c At_unregister s in
      s1\<lparr>rt_processes := (rt_processes s1)(task_id := None), rt_cancelled := rt_cancelled s1 - {task_id}\<rparr>)"

definition result_of_child ::
  "codex_config \<Rightarrow> (string \<Rightarrow> string) \<Rightarrow> (string \<Rightarrow> string) \<Rightarrow> child \<Rightarrow> runtime_status \<Rightarrow> codex_error + codex_result" where
  "result_of_child cfg decode redactor c status =
     map_error (\<lambda>_. Result_invalid) (RuntimeResult_validate
       \<lparr>cr_status = status, cr_started = ch_started c, cr_completed = ch_completed c, cr_exit_code = Some (ch_exit c),
        cr_stdout = decode_output decode redactor (read_bounded (cx_output_limit cfg) (ch_stdout c)),
        cr_stderr = decode_output decode redactor (read_bounded (cx_output_limit cfg) (ch_stderr c)),
        cr_changed_files = collect_changed_files decode (ch_git c)\<rparr>)"

definition execute ::
  "codex_config \<Rightarrow> (string \<Rightarrow> string) \<Rightarrow> (string \<Rightarrow> string) \<Rightarrow> child \<Rightarrow> runtime_request \<Rightarrow>
   runtime_state \<Rightarrow> (codex_error + codex_result) \<times> runtime_state" where
  "execute cfg decode redactor c request s =
     (case ch_process c of
        None \<Rightarrow> (Inl RuntimeLaunchError, s)
      | Some p \<Rightarrow>
          (let s1 = ch_meanwhile c At_register (s\<lparr>rt_live := insert p (rt_live s)\<rparr>) in
           if ch_lock_interrupted c then (Inl Execute_raised, s1)
           else if rt_processes s1 (qr_task request) \<noteq> None then (Inl RuntimeLaunchError, terminate p s1)
           else
             (case run_child c (qr_task request) p (s1\<lparr>rt_processes := (rt_processes s1)(qr_task request \<mapsto> p)\<rparr>) of
                (outcome, s2) \<Rightarrow>
                  (case outcome of
                     Inl e \<Rightarrow> (Inl e, unregister c (qr_task request) s2)
                   | Inr status \<Rightarrow>
                       (result_of_child cfg decode redactor c status, unregister c (qr_task request) s2)))))"

definition cancel_run :: "string \<Rightarrow> runtime_state \<Rightarrow> (codex_error + unit) \<times> runtime_state" where
  "cancel_run task_id s =
     (case rt_processes s task_id of
        None \<Rightarrow> (Inl RuntimeTaskNotRunning, s)
      | Some p \<Rightarrow> (Inr (), terminate p (s\<lparr>rt_cancelled := insert task_id (rt_cancelled s)\<rparr>)))"

end
