(* ===== verification/Startup.thy ===== *)
theory Startup
  imports Workspaces Slack
begin

text \<open>
  What must hold before the hub starts: the operational settings of \<open>config/runtime.py\<close> with the paths
  they resolve to, the loading of the registries in \<open>config/loader.py\<close>, and the checks of
  \<open>application/composition.py\<close> that tie the two together. The file system is the port \<open>machine\<close> of the
  workspace manager; parsing YAML is a parameter.
\<close>

section \<open>Operational settings\<close>

datatype settings_error =
    Field_invalid
  | Missing_tokens
  | No_allowed_users
  | Database_outside
  | Not_a_checkout
  | Workspace_mismatch
  | Project_outside string
  | Config_unreadable
  | Config_empty
  | Config_not_mapping
  | Config_invalid

datatype log_level = Debug_level | Info_level | Warning_level | Error_level

definition ExecutableName :: constraint where
  "ExecutableName = \<lparr>min_len = 1, max_len = 500, pattern = (\<lambda>_. True)\<rparr>"

record operational_settings =
  os_environment :: environment
  os_repository_root :: string
  os_config_dir :: string
  os_workspace_dir :: string
  os_database_path :: string
  os_use_example :: bool
  os_host :: string
  os_port :: int
  os_log_level :: log_level
  os_max_concurrent :: int
  os_poll_interval :: rat
  os_shutdown_timeout :: int
  os_codex_executable :: string
  os_codex_timeout :: int
  os_output_limit :: int
  os_slack_enabled :: bool
  os_bot_token :: "string option"
  os_app_token :: "string option"
  os_signing_secret :: "string option"
  os_allowed_user_ids :: string

definition default_settings :: operational_settings where
  "default_settings =
     \<lparr>os_environment = Development, os_repository_root = ''.'', os_config_dir = ''config'',
      os_workspace_dir = ''workspace'', os_database_path = ''workspace/tasks/ai-hub.sqlite3'', os_use_example = False,
      os_host = ''127.0.0.1'', os_port = 8765, os_log_level = Info_level, os_max_concurrent = 2, os_poll_interval = 1, os_shutdown_timeout = 30,
      os_codex_executable = ''codex'', os_codex_timeout = 3600, os_output_limit = 1000000, os_slack_enabled = False,
      os_bot_token = None, os_app_token = None, os_signing_secret = None, os_allowed_user_ids = []\<rparr>"

definition allowed_slack_users :: "operational_settings \<Rightarrow> string set" where
  "allowed_slack_users s =
     set (filter (\<lambda>u. u \<noteq> []) (map py_strip (split_on (CHR '','') (os_allowed_user_ids s))))"

definition in_bounds :: "'a :: linorder \<Rightarrow> 'a \<Rightarrow> 'a \<Rightarrow> bool" where
  "in_bounds low high x \<longleftrightarrow> low \<le> x \<and> x \<le> high"

definition missing_token :: "string option \<Rightarrow> bool" where
  "missing_token secret \<longleftrightarrow> secret = None \<or> secret = Some []"

definition validate_slack :: "operational_settings \<Rightarrow> settings_error + operational_settings" where
  "validate_slack s =
     (if os_slack_enabled s then
        (if missing_token (os_bot_token s) \<or> missing_token (os_app_token s) then Inl Missing_tokens
         else if allowed_slack_users s = {} then Inl No_allowed_users
         else Inr s)
      else Inr s)"

definition LOOPBACK_HOSTS :: "string list" where
  "LOOPBACK_HOSTS = [''127.0.0.1'', ''::1'', ''localhost'']"

definition OperationalSettings_validate :: "operational_settings \<Rightarrow> settings_error + operational_settings" where
  "OperationalSettings_validate s =
     and_then (require (os_host s \<in> set LOOPBACK_HOSTS) Field_invalid) (\<lambda>_.
     and_then (require (in_bounds 1 65535 (os_port s)) Field_invalid) (\<lambda>_.
     and_then (require (in_bounds 1 16 (os_max_concurrent s)) Field_invalid) (\<lambda>_.
     and_then (require (0 < os_poll_interval s \<and> os_poll_interval s \<le> 60) Field_invalid) (\<lambda>_.
     and_then (require (in_bounds 1 300 (os_shutdown_timeout s)) Field_invalid) (\<lambda>_.
     and_then (map_error (\<lambda>_. Field_invalid) (checked ExecutableName (os_codex_executable s))) (\<lambda>executable.
     and_then (require (list_all (\<lambda>c. c \<notin> {CHR 0x00, CHR 0x0A, CHR 0x0D}) executable) Field_invalid) (\<lambda>_.
     and_then (require (in_bounds 1 86400 (os_codex_timeout s)) Field_invalid) (\<lambda>_.
     and_then (require (in_bounds 1024 10000000 (os_output_limit s)) Field_invalid) (\<lambda>_.
     validate_slack (s\<lparr>os_codex_executable := executable\<rparr>))))))))))"

section \<open>Paths\<close>

record runtime_paths =
  rp_repository :: string
  rp_config :: string
  rp_workspace :: string
  rp_projects :: string
  rp_database :: string
  rp_logs :: string
  rp_locks :: string

definition resolve_paths :: "'s machine \<Rightarrow> 's \<Rightarrow> operational_settings \<Rightarrow> settings_error + runtime_paths" where
  "resolve_paths m fs s =
     (let root_path = mc_resolve m (os_repository_root s) fs;
          from_root = (\<lambda>p. mc_resolve m (child_path root_path p) fs);
          workspace = from_root (os_workspace_dir s);
          database = from_root (os_database_path s)
      in if \<not> is_relative_to database workspace then Inl Database_outside
         else Inr \<lparr>rp_repository = root_path, rp_config = from_root (os_config_dir s), rp_workspace = workspace,
                   rp_projects = child_path workspace ''projects'', rp_database = database,
                   rp_logs = child_path workspace ''logs'', rp_locks = child_path workspace ''locks''\<rparr>)"

section \<open>Loading the registries\<close>

text \<open>
  A YAML mapping as its list of keys and values: a key that cannot be hashed or that occurs twice is
  refused.
\<close>

datatype 'k yaml_key = Hashable 'k | Unhashable

fun unique_mapping :: "('k yaml_key \<times> 'v) list \<Rightarrow> ('k \<times> 'v) list \<Rightarrow> ('k \<times> 'v) list option" where
  "unique_mapping [] mapping = Some mapping"
| "unique_mapping ((Unhashable, v) # entries) mapping = None"
| "unique_mapping ((Hashable k, v) # entries) mapping =
     (if k \<in> fst ` set mapping then None else unique_mapping entries (mapping @ [(k, v)]))"

datatype yaml_document = Yaml_none | Yaml_mapping json_object | Yaml_other

text \<open>\<open>read_yaml\<close> opens and parses a file; \<open>validate\<close> is the model's \<open>model_validate\<close>.\<close>

definition load_yaml_model ::
  "(string \<Rightarrow> yaml_document option) \<Rightarrow> (json_object \<Rightarrow> 'm option) \<Rightarrow> string \<Rightarrow> settings_error + 'm" where
  "load_yaml_model read_yaml validate path =
     (case read_yaml path of
        None \<Rightarrow> Inl Config_unreadable
      | Some Yaml_none \<Rightarrow> Inl Config_empty
      | Some Yaml_other \<Rightarrow> Inl Config_not_mapping
      | Some (Yaml_mapping doc) \<Rightarrow> (case validate doc of None \<Rightarrow> Inl Config_invalid | Some m \<Rightarrow> Inr m))"

record registries =
  rg_settings :: "json_object \<Rightarrow> settings option"
  rg_agents :: "json_object \<Rightarrow> agent registry option"
  rg_teams :: "json_object \<Rightarrow> team registry option"
  rg_projects :: "json_object \<Rightarrow> project registry option"
  rg_permissions :: "json_object \<Rightarrow> capability list registry option"

definition load_config_bundle ::
  "(string \<Rightarrow> yaml_document option) \<Rightarrow> registries \<Rightarrow> string \<Rightarrow> bool \<Rightarrow> settings_error + config_bundle" where
  "load_config_bundle read_yaml rg directory use_examples =
     (let file = (\<lambda>name. child_path directory (name @ (if use_examples then ''.example.yaml'' else ''.yaml''))) in
      and_then (load_yaml_model read_yaml (rg_settings rg) (file ''settings'')) (\<lambda>se.
      and_then (load_yaml_model read_yaml (rg_agents rg) (file ''agents'')) (\<lambda>ag.
      and_then (load_yaml_model read_yaml (rg_teams rg) (file ''teams'')) (\<lambda>te.
      and_then (load_yaml_model read_yaml (rg_projects rg) (file ''projects'')) (\<lambda>pr.
      and_then (load_yaml_model read_yaml (rg_permissions rg) (file ''permissions'')) (\<lambda>pe.
      map_error (\<lambda>_. Config_invalid) (validate_relationships
        \<lparr>cb_settings = se, cb_agents = ag, cb_teams = te, cb_projects = pr, cb_permissions = pe\<rparr>)))))))"

section \<open>Startup checks\<close>

definition validate_repository_root :: "'s machine \<Rightarrow> (string \<Rightarrow> 's \<Rightarrow> bool) \<Rightarrow> 's \<Rightarrow> string \<Rightarrow> settings_error + unit" where
  "validate_repository_root m is_file fs repository =
     require (mc_is_dir m repository fs \<and> mc_exists m (child_path repository ''.git'') fs \<and>
              is_file (child_path repository ''pyproject.toml'') fs) Not_a_checkout"

definition project_target :: "'s machine \<Rightarrow> 's \<Rightarrow> string \<Rightarrow> project \<Rightarrow> string" where
  "project_target m fs repository p =
     mc_resolve m (joined_path repository (split_on slash (pd_workspace p))) fs"

definition validate_workspace_contract ::
  "'s machine \<Rightarrow> 's \<Rightarrow> runtime_paths \<Rightarrow> config_bundle \<Rightarrow> settings_error + unit" where
  "validate_workspace_contract m fs paths b =
     and_then (require (same_path
       (mc_resolve m (child_path (rp_repository paths) (set_workspace_root (cb_settings b))) fs) (rp_workspace paths))
       Workspace_mismatch) (\<lambda>_.
     and_then (traverse (\<lambda>(project_id, p).
         let target = project_target m fs (rp_repository paths) p in
         require (\<not> (same_path target (rp_projects paths) \<or> \<not> is_relative_to target (rp_projects paths)))
           (Project_outside project_id)) (cb_projects b)) (\<lambda>_. Inr ()))"

definition validate_startup_configuration ::
  "'s machine \<Rightarrow> (string \<Rightarrow> 's \<Rightarrow> bool) \<Rightarrow> (string \<Rightarrow> yaml_document option) \<Rightarrow> registries \<Rightarrow> 's \<Rightarrow>
   operational_settings \<Rightarrow> settings_error + runtime_paths \<times> config_bundle" where
  "validate_startup_configuration m is_file read_yaml rg fs s =
     and_then (resolve_paths m fs s) (\<lambda>paths.
     and_then (validate_repository_root m is_file fs (rp_repository paths)) (\<lambda>_.
     and_then (load_config_bundle read_yaml rg (rp_config paths) (os_use_example s)) (\<lambda>b.
     and_then (validate_workspace_contract m fs paths b) (\<lambda>_.
     Inr (paths, b)))))"

definition prepared_directories :: "runtime_paths \<Rightarrow> string list" where
  "prepared_directories paths =
     [rp_workspace paths, rp_projects paths, parent_path (rp_database paths), rp_logs paths, rp_locks paths,
      child_path (rp_workspace paths) ''memory'', child_path (rp_workspace paths) ''indexes'',
      child_path (rp_workspace paths) ''artifacts'']"

fun make_directories :: "'s machine \<Rightarrow> string list \<Rightarrow> ('s, unit, unit) act" where
  "make_directories m [] = act_return ()"
| "make_directories m (directory # directories) =
     act_bind (mc_mkdir m directory) (\<lambda>_. make_directories m directories)"

definition prepare_runtime_directories :: "'s machine \<Rightarrow> runtime_paths \<Rightarrow> ('s, unit, unit) act" where
  "prepare_runtime_directories m paths = make_directories m (prepared_directories paths)"

text \<open>The manager that \<open>build_application\<close> constructs.\<close>

definition startup_manager :: "'s machine \<Rightarrow> 's \<Rightarrow> runtime_paths \<Rightarrow> config_bundle \<Rightarrow> 's manager option" where
  "startup_manager m fs paths b =
     new_manager m (rp_repository paths) (rp_projects paths) (cb_projects b) 120 fs"

text \<open>
  The tokens with which \<open>build_application\<close> constructs the Slack service; the service refuses blank
  ones. \<open>None\<close> is no service, \<open>Inl\<close> an exception: the store is closed and the hub does not start.
\<close>

datatype build_error = Incomplete_settings | Blank_token

definition service_tokens :: "string \<Rightarrow> string \<Rightarrow> build_error + string \<times> string" where
  "service_tokens bot_token app_token =
     and_then (require (\<not> (py_strip bot_token = [] \<or> py_strip app_token = [])) Blank_token)
       (\<lambda>_. Inr (bot_token, app_token))"

definition build_slack :: "operational_settings \<Rightarrow> build_error + (string \<times> string) option" where
  "build_slack s =
     (if os_slack_enabled s
      then (case (os_bot_token s, os_app_token s) of
          (Some bot_token, Some app_token) \<Rightarrow> and_then (service_tokens bot_token app_token) (\<lambda>tokens. Inr (Some tokens))
        | _ \<Rightarrow> Inl Incomplete_settings)
      else Inr None)"

section \<open>\<open>DeferredSlackDelivery\<close>\<close>

text \<open>The delivery is bound once; before that it refuses. \<open>None\<close> is a \<open>RuntimeError\<close>.\<close>

definition bind_delivery :: "'s delivery \<Rightarrow> 's delivery option \<Rightarrow> 's delivery option option" where
  "bind_delivery target bound = (case bound of Some _ \<Rightarrow> None | None \<Rightarrow> Some (Some target))"

definition deferred_deliver ::
  "'s delivery option \<Rightarrow> delivery_request \<Rightarrow> ('s, delivery_error, delivery_outcome) act option" where
  "deferred_deliver bound r = (case bound of None \<Rightarrow> None | Some d \<Rightarrow> Some (deliver d r))"

end
