(* ===== verification/StartupProperties.thy ===== *)
theory StartupProperties
  imports Startup ModelProperties
begin

text \<open>
  The properties of the startup checks: after them every configured project has its workspace inside
  the workspace directory, as the manager that the hub builds will see it, and which Slack settings
  they let through.
\<close>

section \<open>Paths\<close>

lemma split_on_two: "split_on sep (a @ sep # b) = split_on sep a @ split_on sep b"
  by (induction a) (auto split: list.splits)

lemma endswith_slash: "endswith ''/'' w \<longleftrightarrow> (\<exists>v. w = v @ ''/'')"
  by (cases w rule: rev_cases) (auto simp: endswith_def startswith_def)

lemma startswith_list [simp]:
  "startswith [] s" "startswith (c # p) (x # xs) \<longleftrightarrow> c = x \<and> startswith p xs" "\<not> startswith (c # p) []"
  by (auto simp: startswith_def)

lemma root_kept:
  assumes "name \<noteq> []" "slash \<notin> set name"
  shows "path_root (slash # v @ slash # name) = path_root (if v = [] then ''//'' else slash # v @ ''/'')"
    "v \<noteq> [] \<Longrightarrow> last v \<noteq> slash \<Longrightarrow> path_root (slash # v @ slash # name) = path_root (slash # v)"
proof -
  obtain c cs where "name = c # cs" "c \<noteq> slash" using assms by (cases name) auto
  then show "path_root (slash # v @ slash # name) = path_root (if v = [] then ''//'' else slash # v @ ''/'')"
    by (cases v; cases "tl v") (auto simp: path_root_def is_absolute_def)
  show "v \<noteq> [] \<Longrightarrow> last v \<noteq> slash \<Longrightarrow> path_root (slash # v @ slash # name) = path_root (slash # v)"
    using \<open>name = c # cs\<close> \<open>c \<noteq> slash\<close> by (cases v; cases "tl v") (auto simp: path_root_def is_absolute_def)
qed

lemma child_parts:
  assumes "is_absolute w" "name \<noteq> []" "name \<noteq> ''.''" "slash \<notin> set name"
  shows "path_parts (child_path w name) = path_parts w @ [name]" "is_absolute (child_path w name)"
proof -
  obtain w' where w': "w = slash # w'" using assms(1) by (cases w) (auto simp: is_absolute_def)
  have name: "\<not> is_absolute name" "path_root (slash # name) = ''/''"
    using assms(2,4) by (cases name; auto simp: is_absolute_def path_root_def)+
  have "path_components (child_path w name) = path_components w @ [name] \<and> path_root (child_path w name) = path_root w"
  proof (cases "endswith ''/'' w")
    case True
    then obtain v where v: "w = v @ ''/''" unfolding endswith_slash by blast
    then have child: "child_path w name = v @ slash # name" using name(1) True by (simp add: child_path_def)
    have "path_root (v @ slash # name) = path_root w"
    proof (cases v)
      case Nil
      with v name(2) show ?thesis by (simp add: path_root_def is_absolute_def)
    next
      case (Cons c u)
      then show ?thesis using v w' root_kept(1) [OF assms(2,4), of u] by (cases "u = []") auto
    qed
    then show ?thesis
      using assms(2-4) unfolding child by (simp add: v path_components_def split_on_two split_on_no_sep)
  next
    case False
    then have child: "child_path w name = w @ slash # name" using name(1) w' by (simp add: child_path_def)
    have "w' \<noteq> [] \<and> last w' \<noteq> slash"
      using False w' unfolding endswith_slash by (metis append_Cons append_Nil append_butlast_last_id)
    then have "path_root (w @ slash # name) = path_root w" using root_kept(2) [OF assms(2,4)] w' by simp
    then show ?thesis
      using assms(2-4) unfolding child by (simp add: path_components_def split_on_two split_on_no_sep)
  qed
  then show "path_parts (child_path w name) = path_parts w @ [name]" by (simp add: path_parts_def)
  show "is_absolute (child_path w name)"
    using name(1) w' by (simp add: child_path_def is_absolute_def)
qed

lemma is_relative_trans:
  assumes "is_relative_to p q" "is_relative_to q r"
  shows "is_relative_to p r"
proof -
  have "length (path_parts r) \<le> length (path_parts q)"
    using assms(2) unfolding is_relative_to_def by (metis length_take min.cobounded1)
  with assms show ?thesis unfolding is_relative_to_def by (metis min.absorb1 take_take)
qed

section \<open>Projects stay inside the workspace\<close>

text \<open>
  The documented behaviour of \<open>Path.resolve\<close>: its result is absolute and without symbolic links, so it
  and every directory above it resolve to themselves.
\<close>

definition canonical_machine :: "'s machine \<Rightarrow> 's \<Rightarrow> bool" where
  "canonical_machine m fs \<longleftrightarrow>
     (\<forall>p. is_absolute (mc_resolve m p fs) \<and> mc_resolve m (mc_resolve m p fs) fs = mc_resolve m p fs) \<and>
     (\<forall>p q. is_absolute q \<and> is_relative_to (mc_resolve m p fs) q \<longrightarrow> same_path (mc_resolve m q fs) q)"

lemma resolve_paths_Ok:
  assumes "resolve_paths m fs s = Inr paths"
  shows "is_relative_to (rp_database paths) (rp_workspace paths)"
    "rp_projects paths = child_path (rp_workspace paths) ''projects''"
    "\<exists>p. rp_workspace paths = mc_resolve m p fs" "rp_repository paths = mc_resolve m (os_repository_root s) fs"
  using assms by (auto simp: resolve_paths_def Let_def split: if_splits)

lemma traverse_checked: "traverse f xs = Inr ys \<Longrightarrow> x \<in> set xs \<Longrightarrow> \<exists>y. f x = Inr y"
  by (induction xs arbitrary: ys) (auto simp: result_simps)

lemma validate_workspace_contract_Ok:
  assumes "validate_workspace_contract m fs paths b = Inr ()" "(i, p) \<in> set (cb_projects b)"
  shows "is_relative_to (project_target m fs (rp_repository paths) p) (rp_projects paths)"
    "\<not> same_path (project_target m fs (rp_repository paths) p) (rp_projects paths)"
  using assms by (auto simp: validate_workspace_contract_def Let_def result_simps dest!: traverse_checked)

lemma validated_startup:
  assumes "validate_startup_configuration m is_file read_yaml rg fs s = Inr (paths, b)"
  shows "resolve_paths m fs s = Inr paths" "validate_workspace_contract m fs paths b = Inr ()"
    "validate_relationships b = Inr b"
  using assms
  by (auto simp: validate_startup_configuration_def load_config_bundle_def Let_def result_simps
      validate_relationships_def split: if_splits)

text \<open>C10: A hub that starts works only inside its workspace. When the startup checks accept the settings and
  the registries, then for every configured project the manager that the hub builds finds a workspace,
  and it lies strictly below the projects directory inside the workspace directory, as the database
  does, although the check and the manager compare with differently computed directories and symbolic
  links are allowed; and the registries refer to each other correctly.\<close>

theorem startup_projects_contained:
  assumes "validate_startup_configuration m is_file read_yaml rg fs s = Inr (paths, b)"
    "startup_manager m fs paths b = Some g" "canonical_machine m fs"
  shows "is_relative_to (rp_database paths) (rp_workspace paths) \<and> validate_relationships b = Inr b \<and>
    (\<forall>(i, p) \<in> set (mg_projects g). \<exists>target. project_path g p fs = (Inr target, fs) \<and> below_workspaces g target \<and>
       is_relative_to target (rp_workspace paths) \<and> \<not> same_path target (rp_workspace paths))"
proof -
  note paths = resolve_paths_Ok [OF validated_startup(1) [OF assms(1)]]
  have canonical: "\<And>p. is_absolute (mc_resolve m p fs) \<and> mc_resolve m (mc_resolve m p fs) fs = mc_resolve m p fs"
    "\<And>p q. is_absolute q \<Longrightarrow> is_relative_to (mc_resolve m p fs) q \<Longrightarrow> same_path (mc_resolve m q fs) q"
    using assms(3) unfolding canonical_machine_def by blast+
  have "is_absolute (rp_workspace paths)" using paths(3) canonical(1) by metis
  note projects = child_parts [OF this, of "''projects''", folded paths(2), simplified]
  have g: "mg_machine g = m" "mg_projects g = cb_projects b" "mg_root g = mc_resolve m (rp_repository paths) fs"
    "mg_workspaces g = mc_resolve m (rp_projects paths) fs"
    using assms(2) by (auto simp: startup_manager_def new_manager_def split: if_splits)
  have root: "mg_root g = rp_repository paths" using paths(4) canonical(1) g(3) by metis
  have inside: "is_relative_to (rp_projects paths) (rp_workspace paths)" using projects(1) by (simp add: is_relative_to_def)
  have "\<exists>target. project_path g p fs = (Inr target, fs) \<and> below_workspaces g target \<and>
      is_relative_to target (rp_workspace paths) \<and> \<not> same_path target (rp_workspace paths)"
    if "(i, p) \<in> set (cb_projects b)" for i p
  proof -
    let ?t = "project_target m fs (rp_repository paths) p"
    note t = validate_workspace_contract_Ok [OF validated_startup(2) [OF assms(1)] that]
    have "same_path (mg_workspaces g) (rp_projects paths)"
      unfolding g(4) using canonical(2) [OF projects(2)] t(1) unfolding project_target_def by blast
    then have below: "below_workspaces g ?t" using t by (simp add: below_workspaces_def same_path_def is_relative_to_def)
    have "project_path g p fs = (Inr ?t, fs)"
      using below g(1) root by (auto simp: project_path_def assert_contained_def Let_def below_workspaces_def project_target_def)
    moreover have "\<not> same_path ?t (rp_workspace paths)"
    proof
      assume "same_path ?t (rp_workspace paths)"
      then have "length (path_parts (rp_projects paths)) \<le> length (path_parts (rp_workspace paths))"
        using t(1) unfolding same_path_def is_relative_to_def by (metis length_take min.cobounded1)
      with projects(1) show False by simp
    qed
    ultimately show ?thesis using below is_relative_trans [OF t(1) inside] by blast
  qed
  then show ?thesis using paths(1) validated_startup(3) [OF assms(1)] g(2) by auto
qed

text \<open>A machine whose directories are all real: \<open>resolve\<close> only completes and normalises a path.\<close>

lemma components_join: "path_components (join ''/'' (path_components p)) = path_components p"
proof (cases "path_components p = []")
  case True
  then show ?thesis by (simp add: path_components_def)
next
  case False
  then show ?thesis by (rule path_components_join) (auto dest: path_component_props)
qed

lemma slash_components: "path_components (slash # s) = path_components s"
  by (simp add: path_components_def)

lemma absolute_normal:
  assumes "is_absolute p"
  shows "is_absolute (as_posix p)" "path_parts (as_posix p) = path_parts p" "as_posix (as_posix p) = as_posix p"
proof -
  let ?j = "join ''/'' (path_components p)"
  have roots: "path_root p = ''/'' \<or> path_root p = ''//''" using assms by (auto simp: path_root_def)
  then have form: "as_posix p = path_root p @ ?j" by (auto simp: as_posix_def)
  have "\<not> is_absolute ?j"
  proof (cases "path_components p = []")
    case False
    then show ?thesis by (rule join_not_absolute) (auto dest: path_component_props)
  qed (simp add: is_absolute_def)
  then have root: "path_root (as_posix p) = path_root p"
    using roots unfolding form by (cases ?j) (auto simp: path_root_def is_absolute_def)
  have components: "path_components (as_posix p) = path_components p"
    using roots components_join unfolding form by (auto simp: slash_components)
  show "path_parts (as_posix p) = path_parts p" by (simp add: path_parts_def root components)
  show "as_posix (as_posix p) = as_posix p"
    by (rule trans [OF as_posix_def [of "as_posix p", unfolded root components] as_posix_def [of p, symmetric]])
  show "is_absolute (as_posix p)" using roots unfolding form by (auto simp: is_absolute_def)
qed

definition plain_machine :: "unit machine" where
  "plain_machine =
     \<lparr>mc_resolve = (\<lambda>p _. as_posix (if is_absolute p then p else ''/hub/'' @ p)), mc_exists = (\<lambda>_ _. True),
      mc_is_symlink = (\<lambda>_ _. False), mc_is_dir = (\<lambda>_ _. True), mc_mkdir = (\<lambda>_ s. (Inr (), s)),
      mc_git = (\<lambda>_ _ s. (Inl [], s))\<rparr>"

lemma plain_machine_canonical: "canonical_machine plain_machine ()"
proof -
  have "is_absolute (''/hub/'' @ p)" for p by (simp add: is_absolute_def)
  then show ?thesis
    using absolute_normal by (auto simp: canonical_machine_def plain_machine_def same_path_def)
qed

definition sample_registries :: registries where
  "sample_registries =
     \<lparr>rg_settings = (\<lambda>_. Some (cb_settings sample_bundle)), rg_agents = (\<lambda>_. Some (cb_agents sample_bundle)),
      rg_teams = (\<lambda>_. Some (cb_teams sample_bundle)), rg_projects = (\<lambda>_. Some (cb_projects sample_bundle)),
      rg_permissions = (\<lambda>_. Some (cb_permissions sample_bundle))\<rparr>"

definition sample_paths :: runtime_paths where
  "sample_paths =
     \<lparr>rp_repository = ''/hub'', rp_config = ''/hub/config'', rp_workspace = ''/hub/workspace'',
      rp_projects = ''/hub/workspace/projects'', rp_database = ''/hub/workspace/tasks/ai-hub.sqlite3'',
      rp_logs = ''/hub/workspace/logs'', rp_locks = ''/hub/workspace/locks''\<rparr>"

lemma sample_startup:
  "resolve_paths plain_machine () default_settings = Inr sample_paths"
  "validate_workspace_contract plain_machine () sample_paths sample_bundle = Inr ()"
  "startup_manager plain_machine () sample_paths sample_bundle =
     Some \<lparr>mg_machine = plain_machine, mg_root = ''/hub'', mg_workspaces = ''/hub/workspace/projects'',
       mg_projects = cb_projects sample_bundle\<rparr>"
proof -
  show "resolve_paths plain_machine () default_settings = Inr sample_paths" by code_simp
  show "validate_workspace_contract plain_machine () sample_paths sample_bundle = Inr ()" by code_simp
  show "startup_manager plain_machine () sample_paths sample_bundle =
     Some \<lparr>mg_machine = plain_machine, mg_root = ''/hub'', mg_workspaces = ''/hub/workspace/projects'',
       mg_projects = cb_projects sample_bundle\<rparr>"
    by (simp add: startup_manager_def new_manager_def plain_machine_def sample_paths_def) code_simp
qed

lemma sample_config_loads:
  "load_config_bundle (\<lambda>_. Some (Yaml_mapping [])) sample_registries d e = Inr sample_bundle"
proof -
  have eta: "\<lparr>cb_settings = cb_settings sample_bundle, cb_agents = cb_agents sample_bundle, cb_teams = cb_teams sample_bundle,
      cb_projects = cb_projects sample_bundle, cb_permissions = cb_permissions sample_bundle\<rparr> = sample_bundle"
    by (simp add: sample_bundle_def)
  show ?thesis
    using sample_bundle_checked by (simp add: eta load_config_bundle_def Let_def load_yaml_model_def sample_registries_def)
qed

lemma sample_root_valid: "validate_repository_root plain_machine (\<lambda>_ _. True) () r = Inr ()"
  by (simp add: validate_repository_root_def plain_machine_def require_def)

lemma sample_startup_valid:
  "validate_startup_configuration plain_machine (\<lambda>_ _. True) (\<lambda>_. Some (Yaml_mapping [])) sample_registries ()
     default_settings = Inr (sample_paths, sample_bundle)"
  using sample_startup(1,2) by (simp add: validate_startup_configuration_def sample_config_loads sample_root_valid)

theorem startup_projects_contained_witness:
  "\<exists>g target. startup_manager plain_machine () sample_paths sample_bundle = Some g \<and>
     project_path g (sample_project ''workspace/projects/hub'' ''core'') () = (Inr target, ()) \<and> below_workspaces g target"
  using startup_projects_contained [OF sample_startup_valid sample_startup(3) plain_machine_canonical]
    sample_startup(3)
  by (simp add: sample_bundle_def) blast

section \<open>Slack settings\<close>

text \<open>Settings that pass their checks bind to the loopback interface, and with Slack enabled they carry
  both tokens and at least one allowed user, whose identifiers are not empty; so the hub never finds
  them incomplete. A token of blanks passes the checks all the same, and is refused only when the
  service is built.\<close>

theorem checked_slack_settings:
  assumes "OperationalSettings_validate s = Inr s'"
  shows "os_host s' \<in> set LOOPBACK_HOSTS \<and>
    (if os_slack_enabled s'
     then allowed_slack_users s' \<noteq> {} \<and> [] \<notin> allowed_slack_users s' \<and>
       (\<exists>bot_token app_token. os_bot_token s' = Some bot_token \<and> bot_token \<noteq> [] \<and>
          os_app_token s' = Some app_token \<and> app_token \<noteq> [] \<and>
          build_slack s' = (if py_strip bot_token = [] \<or> py_strip app_token = [] then Inl Blank_token
            else Inr (Some (bot_token, app_token))))
     else build_slack s' = Inr None)"
proof -
  obtain executable where valid: "os_host s \<in> set LOOPBACK_HOSTS"
    "validate_slack (s\<lparr>os_codex_executable := executable\<rparr>) = Inr s'"
    using assms by (auto simp: OperationalSettings_validate_def result_simps)
  then have s': "s' = s\<lparr>os_codex_executable := executable\<rparr>"
    by (auto simp: validate_slack_def split: if_splits)
  with valid show ?thesis
    by (auto simp: validate_slack_def missing_token_def build_slack_def service_tokens_def require_def
        allowed_slack_users_def split: if_splits)
qed

theorem checked_slack_settings_witness:
  "build_slack (default_settings\<lparr>os_slack_enabled := True, os_bot_token := Some ''xoxb'', os_app_token := Some '' '',
     os_allowed_user_ids := ''U1, U2''\<rparr>) = Inl Blank_token"
proof -
  have "OperationalSettings_validate (default_settings\<lparr>os_slack_enabled := True, os_bot_token := Some ''xoxb'',
      os_app_token := Some '' '', os_allowed_user_ids := ''U1, U2''\<rparr>) =
    Inr (default_settings\<lparr>os_slack_enabled := True, os_bot_token := Some ''xoxb'', os_app_token := Some '' '',
      os_allowed_user_ids := ''U1, U2''\<rparr>)" by code_simp
  from checked_slack_settings [OF this] show ?thesis
    by (auto simp: default_settings_def py_strip_def split: if_splits) code_simp
qed

end
