(* ===== verification/Operations.thy ===== *)
theory Operations
  imports Startup FileLock Database
begin

text \<open>
  How an operator sees the hub: the readiness endpoint of \<open>api/app.py\<close> with the probes of
  \<open>application/adapters.py\<close>, the command line of \<open>cli.py\<close>, and the checks of
  \<open>scripts/doctor_portable.py\<close>. Answers of the file system, of \<open>sqlite3\<close> and of HTTP are arguments.
\<close>

section \<open>Readiness\<close>

text \<open>What \<open>asyncio.wait_for(probe.check(), timeout)\<close> does.\<close>

datatype probe_outcome = Probe_answers bool | Probe_raises | Probe_late

fun check_probe :: "probe_outcome \<Rightarrow> string" where
  "check_probe (Probe_answers is_ready) = (if is_ready then ''ok'' else ''unavailable'')"
| "check_probe Probe_raises = ''unavailable''"
| "check_probe Probe_late = ''unavailable''"

text \<open>The names of the probes of the application; \<open>None\<close> is the \<open>ValueError\<close>.\<close>

definition create_app :: "string list \<Rightarrow> rat \<Rightarrow> string list option" where
  "create_app names timeout =
     (if timeout \<le> 0 then None else if \<not> distinct names then None else Some names)"

record readiness =
  rd_code :: nat
  rd_status :: string
  rd_components :: "(string \<times> string) list"

definition ready :: "string list \<Rightarrow> (string \<Rightarrow> probe_outcome) \<Rightarrow> readiness" where
  "ready names outcome =
     (let components = zip names (map (\<lambda>name. check_probe (outcome name)) names);
          is_ready = list_all (\<lambda>(name, value). value = ''ok'') components
      in \<lparr>rd_code = (if is_ready then 200 else 503), rd_status = (if is_ready then ''ok'' else ''unavailable''),
          rd_components = components\<rparr>)"

definition readiness_document :: "readiness \<Rightarrow> json" where
  "readiness_document r =
     JObj [(''status'', JStr (rd_status r)), (''components'', JObj (map (\<lambda>(n, v). (n, JStr v)) (rd_components r)))]"

text \<open>The three probes. \<open>version\<close> is the \<open>user_version\<close> of the file.\<close>

definition schema_version :: "int \<Rightarrow> store \<Rightarrow> py_error + int" where
  "schema_version version s = read_store (\<lambda>_. Inr version) s"

definition storage_probe :: "int \<Rightarrow> store \<Rightarrow> probe_outcome" where
  "storage_probe version s =
     (case schema_version version s of
        Inr v \<Rightarrow> Probe_answers (0 < v)
      | Inl (StorageError _) \<Rightarrow> Probe_answers False
      | Inl _ \<Rightarrow> Probe_raises)"

definition workspace_probe :: "(string \<Rightarrow> bool) \<Rightarrow> (string \<Rightarrow> bool) \<Rightarrow> string \<Rightarrow> probe_outcome" where
  "workspace_probe is_dir accessible workspace = Probe_answers (is_dir workspace \<and> accessible workspace)"

definition runtime_probe ::
  "(string \<Rightarrow> bool) \<Rightarrow> (string \<Rightarrow> bool) \<Rightarrow> (string \<Rightarrow> string option) \<Rightarrow> string \<Rightarrow> probe_outcome" where
  "runtime_probe is_file executable_file which executable =
     Probe_answers (if is_absolute executable then is_file executable \<and> executable_file executable
       else which executable \<noteq> None)"

definition HUB_PROBES :: "string list" where
  "HUB_PROBES = [''storage'', ''workspace'', ''runtime'']"

section \<open>Asking the endpoint\<close>

text \<open>
  What \<open>urlopen\<close> gives: a reply with its document if the text is JSON, an \<open>HTTPError\<close> for a code that is
  not a success, or another \<open>OSError\<close>.
\<close>

datatype http_answer = Http_reply nat "json option" | Http_error nat | Http_unreachable

definition ready_answer :: "readiness \<Rightarrow> http_answer" where
  "ready_answer r =
     (if rd_code r = 200 then Http_reply 200 (Some (readiness_document r)) else Http_error (rd_code r))"

text \<open>\<open>None\<close> is the \<open>AttributeError\<close> of a document that is not an object.\<close>

fun answers_ready :: "http_answer \<Rightarrow> bool option" where
  "answers_ready (Http_reply code None) = Some False"
| "answers_ready (Http_reply code (Some (JObj doc))) = Some (code = 200 \<and> map_of doc ''status'' = Some (JStr ''ok''))"
| "answers_ready (Http_reply code (Some doc)) = (if code = 200 then None else Some False)"
| "answers_ready (Http_error code) = Some False"
| "answers_ready Http_unreachable = Some False"

section \<open>The command line\<close>

datatype cli_command = Check_config | Migrate | Serve | Status

text \<open>How a call ends: with a value, with an \<open>Exception\<close>, or with \<open>KeyboardInterrupt\<close>.\<close>

datatype 'a ending = Returned 'a | Raised | Interrupted

fun ending_bind :: "'a ending \<Rightarrow> ('a \<Rightarrow> 'b ending) \<Rightarrow> 'b ending" where
  "ending_bind (Returned x) f = f x"
| "ending_bind Raised f = Raised"
| "ending_bind Interrupted f = Interrupted"

fun ending_of :: "'e + 'a \<Rightarrow> 'a ending" where
  "ending_of (Inl e) = Raised"
| "ending_of (Inr x) = Returned x"

text \<open>\<open>_status\<close>: \<open>opened\<close> is opening the store and reading its version.\<close>

definition status_command ::
  "(settings_error + runtime_paths \<times> config_bundle) \<Rightarrow> (string \<Rightarrow> bool) \<Rightarrow> (string \<Rightarrow> int ending) \<Rightarrow> http_answer \<Rightarrow> int ending" where
  "status_command startup is_file opened answer =
     ending_bind (ending_of startup) (\<lambda>(paths, _).
       if \<not> is_file (rp_database paths) then Returned 1
       else ending_bind (opened (rp_database paths)) (\<lambda>_.
         case answers_ready answer of
           None \<Rightarrow> Raised
         | Some is_ready \<Rightarrow> Returned (if is_ready then 0 else 1)))"

fun exit_code :: "int ending \<Rightarrow> int" where
  "exit_code (Returned n) = n"
| "exit_code Interrupted = 130"
| "exit_code Raised = 1"

record cli =
  cl_settings :: "unit ending"
  cl_startup :: "settings_error + runtime_paths \<times> config_bundle"
  cl_build :: "unit ending"
  cl_version :: "unit ending"
  cl_serve :: "unit ending"
  cl_status :: "int ending"

text \<open>The exit code, and whether the application that was built was closed.\<close>

definition with_application :: "cli \<Rightarrow> unit ending \<Rightarrow> int ending \<times> bool" where
  "with_application c body =
     (case cl_build c of
        Returned _ \<Rightarrow> (ending_bind body (\<lambda>_. Returned 0), True)
      | Raised \<Rightarrow> (Raised, False)
      | Interrupted \<Rightarrow> (Interrupted, False))"

fun run_command :: "cli \<Rightarrow> cli_command \<Rightarrow> int ending \<times> bool" where
  "run_command c Check_config = (ending_bind (ending_of (cl_startup c)) (\<lambda>_. Returned 0), False)"
| "run_command c Migrate = with_application c (cl_version c)"
| "run_command c Status = (cl_status c, False)"
| "run_command c Serve = with_application c (cl_serve c)"

definition cli_main :: "cli \<Rightarrow> cli_command \<Rightarrow> int \<times> bool" where
  "cli_main c command =
     (case cl_settings c of
        Returned _ \<Rightarrow> (case run_command c command of (r, shut) \<Rightarrow> (exit_code r, shut))
      | Raised \<Rightarrow> (exit_code Raised, False)
      | Interrupted \<Rightarrow> (exit_code Interrupted, False))"

section \<open>The doctor\<close>

datatype diagnostic_level = PASS | WARN | FAIL

record diagnostic =
  dg_level :: diagnostic_level
  dg_message :: string

datatype quick_check = Check_failed | Check_row "string option"

text \<open>What the doctor sees; the text of a lock file is \<open>None\<close> when it cannot be read or is not JSON.\<close>

record surroundings_view =
  sv_is_dir :: "string \<Rightarrow> bool"
  sv_writable :: "string \<Rightarrow> bool"
  sv_exists :: "string \<Rightarrow> bool"
  sv_is_file :: "string \<Rightarrow> bool"
  sv_quick_check :: "string \<Rightarrow> quick_check"
  sv_locks :: "string \<Rightarrow> json option list"
  sv_http :: "string \<Rightarrow> http_answer"

definition directory_diagnostic :: "surroundings_view \<Rightarrow> string \<times> string \<Rightarrow> diagnostic" where
  "directory_diagnostic v = (\<lambda>(name, path).
     if sv_is_dir v path \<and> sv_writable v path
     then \<lparr>dg_level = PASS, dg_message = name @ '' directory exists and is writable''\<rparr>
     else if sv_is_dir v path then \<lparr>dg_level = FAIL, dg_message = name @ '' directory is not writable''\<rparr>
     else \<lparr>dg_level = FAIL, dg_message = name @ '' directory is missing''\<rparr>)"

definition database_diagnostics :: "surroundings_view \<Rightarrow> string \<Rightarrow> diagnostic list" where
  "database_diagnostics v path =
     (if \<not> sv_exists v path then [\<lparr>dg_level = WARN, dg_message = ''SQLite database is not initialized''\<rparr>]
      else if \<not> sv_is_file v path
      then [\<lparr>dg_level = FAIL, dg_message = ''SQLite database path is not a regular file''\<rparr>]
      else case sv_quick_check v path of
        Check_failed \<Rightarrow> [\<lparr>dg_level = FAIL, dg_message = ''SQLite database cannot be opened or checked''\<rparr>]
      | Check_row result \<Rightarrow>
          if result \<noteq> Some ''ok'' then [\<lparr>dg_level = FAIL, dg_message = ''SQLite quick_check did not return ok''\<rparr>]
          else [\<lparr>dg_level = PASS, dg_message = ''SQLite database quick_check passed''\<rparr>])"

definition valid_lock :: "(string \<Rightarrow> int option) \<Rightarrow> json option \<Rightarrow> bool" where
  "valid_lock parse text = (case text of None \<Rightarrow> False | Some value \<Rightarrow> from_mapping parse value \<noteq> None)"

definition lock_diagnostics :: "surroundings_view \<Rightarrow> (string \<Rightarrow> int option) \<Rightarrow> string \<Rightarrow> diagnostic list" where
  "lock_diagnostics v parse directory =
     (if \<not> sv_is_dir v directory then []
      else
        (let valid = length (filter (valid_lock parse) (sv_locks v directory));
             malformed = length (filter (\<lambda>t. \<not> valid_lock parse t) (sv_locks v directory))
         in if malformed \<noteq> 0
            then [\<lparr>dg_level = FAIL, dg_message =
              ''lock directory contains '' @ show_nat malformed @ '' malformed lock(s); no lock was removed''\<rparr>]
            else if valid \<noteq> 0
            then [\<lparr>dg_level = WARN, dg_message = ''lock directory contains '' @ show_nat valid @ '' active lock(s)''\<rparr>]
            else [\<lparr>dg_level = PASS, dg_message = ''lock directory contains no active locks''\<rparr>]))"

fun endpoint_diagnostic :: "string \<Rightarrow> http_answer \<Rightarrow> diagnostic" where
  "endpoint_diagnostic name (Http_error code) =
     \<lparr>dg_level = FAIL, dg_message = ''local '' @ name @ '' endpoint returned HTTP '' @ show_nat code\<rparr>"
| "endpoint_diagnostic name Http_unreachable =
     \<lparr>dg_level = WARN, dg_message = ''local '' @ name @ '' endpoint is not reachable''\<rparr>"
| "endpoint_diagnostic name (Http_reply code doc) =
     (if code = 200 then \<lparr>dg_level = PASS, dg_message = ''local '' @ name @ '' endpoint responded successfully''\<rparr>
      else \<lparr>dg_level = FAIL, dg_message = ''local '' @ name @ '' endpoint returned HTTP '' @ show_nat code\<rparr>)"

definition http_diagnostics :: "surroundings_view \<Rightarrow> diagnostic list" where
  "http_diagnostics v =
     [endpoint_diagnostic ''health'' (sv_http v ''/health''), endpoint_diagnostic ''readiness'' (sv_http v ''/ready'')]"

definition checked_directories :: "runtime_paths \<Rightarrow> (string \<times> string) list" where
  "checked_directories paths =
     [(''workspace'', rp_workspace paths), (''projects'', rp_projects paths), (''logs'', rp_logs paths),
      (''locks'', rp_locks paths), (''tasks'', parent_path (rp_database paths))]"

definition collect_diagnostics ::
  "surroundings_view \<Rightarrow> 's machine \<Rightarrow> 's \<Rightarrow> (string \<Rightarrow> yaml_document option) \<Rightarrow> registries \<Rightarrow>
   (string \<Rightarrow> int option) \<Rightarrow> settings_error + operational_settings \<Rightarrow> diagnostic list" where
  "collect_diagnostics v m fs read_yaml rg parse settings =
     (case and_then settings (\<lambda>s. and_then (resolve_paths m fs s) (\<lambda>paths. Inr (s, paths))) of
        Inl _ \<Rightarrow> [\<lparr>dg_level = FAIL, dg_message = ''operational configuration is invalid (values redacted)''\<rparr>]
      | Inr (s, paths) \<Rightarrow>
          \<lparr>dg_level = PASS, dg_message = ''operational configuration is valid''\<rparr> #
          (case load_config_bundle read_yaml rg (rp_config paths) (os_use_example s) of
             Inl _ \<Rightarrow> \<lparr>dg_level = FAIL, dg_message = ''registry configuration '' @
               (if os_use_example s then ''*.example.yaml'' else ''*.yaml'') @ '' is missing or invalid''\<rparr>
           | Inr _ \<Rightarrow> \<lparr>dg_level = PASS, dg_message = ''registry configuration is valid''\<rparr>) #
          map (directory_diagnostic v) (checked_directories paths) @
          database_diagnostics v (rp_database paths) @ lock_diagnostics v parse (rp_locks paths) @
          [if os_slack_enabled s
           then \<lparr>dg_level = PASS, dg_message = ''Slack is enabled with required token presence and actor allowlist''\<rparr>
           else \<lparr>dg_level = WARN, dg_message = ''Slack is disabled by configuration''\<rparr>] @
          http_diagnostics v)"

definition doctor_main :: "diagnostic list \<Rightarrow> int" where
  "doctor_main diagnostics = (if list_ex (\<lambda>d. dg_level d = FAIL) diagnostics then 1 else 0)"

end
