(* ===== verification/OperationsProperties.thy ===== *)
theory OperationsProperties
  imports Operations StartupProperties
begin

text \<open>
  The properties of what an operator sees: readiness is reported exactly when every probe answers, as
  the endpoint and as the exit code of \<open>ai-hub status\<close>, and what a clean run of the doctor shows.
\<close>

section \<open>Readiness\<close>

lemma check_probe_ok: "check_probe p = ''ok'' \<longleftrightarrow> p = Probe_answers True"
  by (cases p) auto

lemma ready_components: "rd_components (ready names outcome) = map (\<lambda>n. (n, check_probe (outcome n))) names"
  by (simp add: ready_def Let_def zip_map2 zip_same_conv_map)

lemma ready_code:
  "rd_code (ready names outcome) = (if \<forall>n \<in> set names. outcome n = Probe_answers True then 200 else 503)"
  "rd_status (ready names outcome) = (if rd_code (ready names outcome) = 200 then ''ok'' else ''unavailable'')"
  using ready_components [of names outcome] by (auto simp: ready_def Let_def list_all_iff check_probe_ok)

text \<open>C34: Readiness is exact, from the probes to the exit code. With distinct probe names (which the
  application insists on), the endpoint answers 200 exactly when every probe answered yes in time, and
  503 otherwise; whatever a probe does (a refusal, an exception, a timeout), the answer tells for each
  of them whether it is available. With valid settings, \<open>ai-hub status\<close> then exits with 0 exactly when the
  database file is there, its version can be read, and every probe answered yes; no outcome of it is
  an exception unless the store cannot be opened.\<close>

theorem status_exact:
  assumes "create_app names timeout = Some probes" "startup = Inr (paths, b)"
  shows "rd_code (ready probes outcome) = (if \<forall>n \<in> set names. outcome n = Probe_answers True then 200 else 503) \<and>
    map fst (rd_components (ready probes outcome)) = names \<and>
    (\<forall>n \<in> set names. map_of (rd_components (ready probes outcome)) n =
       Some (if outcome n = Probe_answers True then ''ok'' else ''unavailable'')) \<and>
    (status_command startup is_file opened (ready_answer (ready probes outcome)) = Returned 0 \<longleftrightarrow>
       is_file (rp_database paths) \<and> (\<exists>version. opened (rp_database paths) = Returned version) \<and>
       (\<forall>n \<in> set names. outcome n = Probe_answers True)) \<and>
    (status_command startup is_file opened (ready_answer (ready probes outcome)) = Raised \<longleftrightarrow>
       is_file (rp_database paths) \<and> opened (rp_database paths) = Raised)"
proof -
  have names: "probes = names" "distinct names" using assms(1) by (auto simp: create_app_def split: if_splits)
  let ?r = "ready names outcome"
  have "check_probe p = (if p = Probe_answers True then ''ok'' else ''unavailable'')" for p by (cases p) auto
  then have each: "\<forall>n \<in> set names. map_of (rd_components ?r) n =
      Some (if outcome n = Probe_answers True then ''ok'' else ''unavailable'')"
    unfolding ready_components by (auto simp: map_of_map_restrict)
  have answer: "answers_ready (ready_answer ?r) = Some (rd_code ?r = 200)"
    using ready_code(2) [of names outcome] by (simp add: ready_answer_def readiness_document_def)
  have status: "status_command startup is_file opened (ready_answer ?r) =
      (if \<not> is_file (rp_database paths) then Returned 1
       else ending_bind (opened (rp_database paths)) (\<lambda>_. Returned (if rd_code ?r = 200 then 0 else 1)))"
    using assms(2) by (simp add: status_command_def answer)
  show ?thesis
    unfolding names(1) status using ready_code(1) [of names outcome] ready_components [of names outcome] each
    by (cases "opened (rp_database paths)") (auto simp: comp_def)
qed

theorem status_exact_witness:
  "status_command (Inr (sample_paths, sample_bundle)) (\<lambda>_. True) (\<lambda>_. Returned 3)
     (ready_answer (ready HUB_PROBES (\<lambda>n. if n = ''storage'' then storage_probe 3 (open_store empty_db) else Probe_answers True))) =
   Returned 0 \<and>
   status_command (Inr (sample_paths, sample_bundle)) (\<lambda>_. True) (\<lambda>_. Returned 3)
     (ready_answer (ready HUB_PROBES (\<lambda>n. if n = ''runtime'' then Probe_late else Probe_answers True))) \<noteq> Returned 0"
proof -
  have app: "create_app HUB_PROBES 2 = Some HUB_PROBES" by (simp add: create_app_def HUB_PROBES_def)
  have "storage_probe 3 (open_store empty_db) = Probe_answers True"
    by (simp add: storage_probe_def schema_version_def read_store_def open_store_def)
  then show ?thesis
    using status_exact [OF app refl, where is_file = "\<lambda>_. True" and opened = "\<lambda>_. Returned 3" and paths = sample_paths
        and b = sample_bundle]
    by (auto simp: HUB_PROBES_def)
qed

section \<open>The doctor\<close>

definition no_failure :: "diagnostic \<Rightarrow> bool" where
  "no_failure d \<longleftrightarrow> dg_level d \<noteq> FAIL"

definition endpoint_fine :: "http_answer \<Rightarrow> bool" where
  "endpoint_fine a \<longleftrightarrow> (case a of Http_reply code _ \<Rightarrow> code = 200 | Http_error _ \<Rightarrow> False | Http_unreachable \<Rightarrow> True)"

lemma doctor_main_iff: "doctor_main ds = 0 \<longleftrightarrow> list_all no_failure ds"
  by (auto simp: doctor_main_def list_ex_iff list_all_iff no_failure_def)

lemma directory_no_failure: "no_failure (directory_diagnostic v (n, p)) \<longleftrightarrow> sv_is_dir v p \<and> sv_writable v p"
  by (simp add: directory_diagnostic_def no_failure_def)

lemma database_no_failure: "list_all no_failure (database_diagnostics v p) \<longleftrightarrow>
    (sv_exists v p \<longrightarrow> sv_is_file v p \<and> sv_quick_check v p = Check_row (Some ''ok''))"
  by (auto simp: database_diagnostics_def no_failure_def split: quick_check.split)

lemma lock_no_failure: "list_all no_failure (lock_diagnostics v parse p) \<longleftrightarrow>
    (sv_is_dir v p \<longrightarrow> list_all (valid_lock parse) (sv_locks v p))"
  by (auto simp: lock_diagnostics_def no_failure_def Let_def list_all_iff filter_empty_conv)

lemma endpoint_no_failure: "no_failure (endpoint_diagnostic n a) \<longleftrightarrow> endpoint_fine a"
  by (cases a) (auto simp: no_failure_def endpoint_fine_def)

text \<open>A doctor that exits with 0 has seen exactly this: valid settings, registries that load and agree, the
  five directories present and writable, a database that is missing or passes its check, no malformed
  lock file, and two endpoints that answer 200 or cannot be reached.\<close>

theorem doctor_exact:
  assumes "resolve_paths m fs s = Inr paths"
  shows "doctor_main (collect_diagnostics v m fs read_yaml rg parse (Inr s)) = 0 \<longleftrightarrow>
    (\<exists>b. load_config_bundle read_yaml rg (rp_config paths) (os_use_example s) = Inr b) \<and>
    (\<forall>(n, p) \<in> set (checked_directories paths). sv_is_dir v p \<and> sv_writable v p) \<and>
    (sv_exists v (rp_database paths) \<longrightarrow>
       sv_is_file v (rp_database paths) \<and> sv_quick_check v (rp_database paths) = Check_row (Some ''ok'')) \<and>
    (sv_is_dir v (rp_locks paths) \<longrightarrow> list_all (valid_lock parse) (sv_locks v (rp_locks paths))) \<and>
    endpoint_fine (sv_http v ''/health'') \<and> endpoint_fine (sv_http v ''/ready'')"
proof -
  let ?slack = "if os_slack_enabled s
      then \<lparr>dg_level = PASS, dg_message = ''Slack is enabled with required token presence and actor allowlist''\<rparr>
      else \<lparr>dg_level = WARN, dg_message = ''Slack is disabled by configuration''\<rparr>"
  let ?config = "case load_config_bundle read_yaml rg (rp_config paths) (os_use_example s) of
      Inl _ \<Rightarrow> \<lparr>dg_level = FAIL, dg_message = ''registry configuration '' @
        (if os_use_example s then ''*.example.yaml'' else ''*.yaml'') @ '' is missing or invalid''\<rparr>
    | Inr _ \<Rightarrow> \<lparr>dg_level = PASS, dg_message = ''registry configuration is valid''\<rparr>"
  have parts: "no_failure \<lparr>dg_level = PASS, dg_message = t\<rparr>" "no_failure ?slack" for t by (auto simp: no_failure_def)
  have config: "no_failure ?config \<longleftrightarrow> (\<exists>b. load_config_bundle read_yaml rg (rp_config paths) (os_use_example s) = Inr b)"
    by (auto simp: no_failure_def split: sum.split)
  have dirs: "list_all no_failure (map (directory_diagnostic v) (checked_directories paths)) \<longleftrightarrow>
      (\<forall>(n, p) \<in> set (checked_directories paths). sv_is_dir v p \<and> sv_writable v p)"
    by (simp add: checked_directories_def directory_no_failure)
  have "collect_diagnostics v m fs read_yaml rg parse (Inr s) =
      \<lparr>dg_level = PASS, dg_message = ''operational configuration is valid''\<rparr> # ?config #
      map (directory_diagnostic v) (checked_directories paths) @ database_diagnostics v (rp_database paths) @
      lock_diagnostics v parse (rp_locks paths) @ [?slack] @ http_diagnostics v"
    using assms by (simp add: collect_diagnostics_def)
  then show ?thesis
    by (simp only: doctor_main_iff list_all_append list.pred_inject parts config dirs database_no_failure lock_no_failure
        http_diagnostics_def endpoint_no_failure simp_thms conj_assoc)
qed

definition healthy_view :: surroundings_view where
  "healthy_view =
     \<lparr>sv_is_dir = (\<lambda>_. True), sv_writable = (\<lambda>_. True), sv_exists = (\<lambda>_. False), sv_is_file = (\<lambda>_. False),
      sv_quick_check = (\<lambda>_. Check_failed), sv_locks = (\<lambda>_. []), sv_http = (\<lambda>_. Http_unreachable)\<rparr>"

theorem doctor_exact_witness:
  "doctor_main (collect_diagnostics healthy_view plain_machine () (\<lambda>_. Some (Yaml_mapping [])) sample_registries
     (\<lambda>_. None) (Inr default_settings)) = 0"
proof -
  show ?thesis
    using doctor_exact [OF sample_startup(1)] by (simp add: sample_config_loads healthy_view_def endpoint_fine_def)
qed

text \<open>The doctor may find nothing wrong with a hub that refuses to start: it loads the registries but does
  not compare their workspace root with the one of the settings, nor the project workspaces with the
  projects directory, nor does it look for the checkout.\<close>

theorem doctor_passes_unstartable:
  "\<exists>s. doctor_main (collect_diagnostics healthy_view plain_machine () (\<lambda>_. Some (Yaml_mapping [])) sample_registries
       (\<lambda>_. None) (Inr s)) = 0 \<and>
     OperationalSettings_validate s = Inr s \<and>
     validate_startup_configuration plain_machine (\<lambda>_ _. True) (\<lambda>_. Some (Yaml_mapping [])) sample_registries () s =
       Inl Workspace_mismatch"
proof -
  let ?s = "default_settings\<lparr>os_workspace_dir := ''other'', os_database_path := ''other/hub.sqlite3''\<rparr>"
  let ?paths = "sample_paths\<lparr>rp_workspace := ''/hub/other'', rp_projects := ''/hub/other/projects'',
    rp_database := ''/hub/other/hub.sqlite3'', rp_logs := ''/hub/other/logs'', rp_locks := ''/hub/other/locks''\<rparr>"
  have paths: "resolve_paths plain_machine () ?s = Inr ?paths" by code_simp
  have "validate_workspace_contract plain_machine () ?paths sample_bundle = Inl Workspace_mismatch" by code_simp
  then have "validate_startup_configuration plain_machine (\<lambda>_ _. True) (\<lambda>_. Some (Yaml_mapping [])) sample_registries () ?s =
      Inl Workspace_mismatch"
    using paths by (simp add: validate_startup_configuration_def sample_config_loads sample_root_valid)
  moreover have "doctor_main (collect_diagnostics healthy_view plain_machine () (\<lambda>_. Some (Yaml_mapping []))
      sample_registries (\<lambda>_. None) (Inr ?s)) = 0"
    using paths by (simp add: collect_diagnostics_def doctor_main_iff no_failure_def sample_config_loads
        checked_directories_def directory_diagnostic_def database_diagnostics_def lock_diagnostics_def
        http_diagnostics_def healthy_view_def Let_def)
  moreover have "OperationalSettings_validate ?s = Inr ?s" by code_simp
  ultimately show ?thesis by blast
qed

end
