(* ===== verification/Logging.thy ===== *)
theory Logging
  imports Workspaces RedactionSafety Samples
begin

text \<open>
  \<open>observability/structured.py\<close> and \<open>observability/logging.py\<close>: the records made from events, the
  documents that the formatter writes, and the handlers of the root logger; and that they hide secrets.
\<close>

section \<open>Structured records\<close>

text \<open>\<open>^[A-Za-z0-9_.-]+$\<close>.\<close>

definition LoggerName :: constraint where
  "LoggerName = \<lparr>min_len = 1, max_len = 120,
     pattern = (\<lambda>s. s \<noteq> [] \<and> list_all (\<lambda>c. is_alnum c \<or> c \<in> {CHR ''_'', CHR ''.'', CHR ''-''}) s)\<rparr>"

record structured_record =
  sr_schema :: int
  sr_timestamp :: aware
  sr_level :: event_level
  sr_logger :: string
  sr_message :: string
  sr_event :: "uuid option"
  sr_type :: "event_type option"
  sr_task :: "string option"
  sr_project :: "string option"
  sr_team :: "string option"
  sr_agent :: "string option"
  sr_correlation :: "uuid option"
  sr_causation :: "uuid option"
  sr_details :: json_object

datatype record_error = Invalid_logger value_error | Payload_not_mapping

text \<open>
  \<open>StructuredRecord.from_event\<close>. The fields taken from the event are of the types the event was
  validated with; only the logger name can be refused.
\<close>

definition from_event :: "event \<Rightarrow> string \<Rightarrow> record_error + structured_record" where
  "from_event e logger =
     (let message = (case ev_message e of
          Some m \<Rightarrow> if m = [] then event_type_value (ev_type e) else m
        | None \<Rightarrow> event_type_value (ev_type e))
      in case redact_secrets (JObj (ev_payload e)) of
        JObj details \<Rightarrow>
          and_then (map_error Invalid_logger (checked LoggerName logger)) (\<lambda>name.
          Inr \<lparr>sr_schema = 1, sr_timestamp = ev_time e, sr_level = ev_level e, sr_logger = name,
            sr_message = redact_text message, sr_event = Some (ev_id e), sr_type = Some (ev_type e),
            sr_task = ev_task e, sr_project = ev_project e, sr_team = ev_team e, sr_agent = ev_agent e,
            sr_correlation = ev_correlation e, sr_causation = ev_causation e, sr_details = details\<rparr>)
      | _ \<Rightarrow> Inl Payload_not_mapping)"

section \<open>The log formatter\<close>

text \<open>A \<open>LogRecord\<close>; an extra attribute that is not a text is \<open>None\<close>.\<close>

record log_record =
  lr_created :: string
  lr_level :: string
  lr_name :: string
  lr_message :: string
  lr_extra :: "string \<Rightarrow> string option"
  lr_exception :: "string option"

definition CONTEXT_NAMES :: "string list" where
  "CONTEXT_NAMES = [''task_id'', ''project'', ''team'', ''agent'']"

text \<open>The document of \<open>RedactedJsonFormatter.format\<close>.\<close>

definition format_record :: "log_record \<Rightarrow> (string \<times> string) list" where
  "format_record r =
     [(''timestamp'', lr_created r), (''level'', lr_level r), (''logger'', lr_name r),
      (''message'', take 4000 (redact_text (lr_message r)))] @
     List.map_filter (\<lambda>name. case lr_extra r name of
         Some value \<Rightarrow> if value = [] then None else Some (name, take 200 (redact_text value))
       | None \<Rightarrow> None) CONTEXT_NAMES @
     (case lr_exception r of None \<Rightarrow> [] | Some text \<Rightarrow> [(''exception'', take 8000 (redact_text text))])"

record log_handler =
  lh_path :: string
  lh_max_bytes :: int
  lh_backup_count :: int

record root_logger =
  rl_handlers :: "log_handler list"
  rl_level :: string

text \<open>\<open>configure_rotating_json_logging\<close>; \<open>None\<close> is the \<open>ValueError\<close>. The directory is created as well.\<close>

definition configure_logging :: "string \<Rightarrow> string \<Rightarrow> int \<Rightarrow> int \<Rightarrow> root_logger \<Rightarrow> (string \<times> root_logger) option" where
  "configure_logging directory level max_bytes backup_count logger =
     (if max_bytes < 1 \<or> backup_count < 1 then None
      else (let path = child_path directory ''ai-hub.jsonl'' in
        Some (path, logger\<lparr>rl_handlers := [\<lparr>lh_path = path, lh_max_bytes = max_bytes, lh_backup_count = backup_count\<rparr>],
          rl_level := level\<rparr>)))"

section \<open>What they hide\<close>

text \<open>\<open>v\<close> is the redaction of a text.\<close>

definition is_redacted :: "string \<Rightarrow> bool" where
  "is_redacted v \<longleftrightarrow> (\<exists>text. v = redact_text text)"

text \<open>Every text of a document is redacted, and every secret key hides its value.\<close>

fun json_redacted :: "json \<Rightarrow> bool" where
  "json_redacted (JObj doc) \<longleftrightarrow>
     list_all (\<lambda>(key, child). if is_secret_key key then child = JStr REDACTED else json_redacted child) doc"
| "json_redacted (JArr vs) \<longleftrightarrow> list_all json_redacted vs"
| "json_redacted (JStr s) \<longleftrightarrow> is_redacted s"
| "json_redacted _ \<longleftrightarrow> True"

lemma redact_secrets_redacted: "json_redacted (redact_secrets v)"
  by (induction v rule: redact_secrets.induct) (auto simp: list_all_iff is_redacted_def)

text \<open>The shape of a document: its keys and the constructors of its values.\<close>

fun same_shape :: "json \<Rightarrow> json \<Rightarrow> bool" where
  "same_shape (JObj doc) (JObj doc') \<longleftrightarrow>
     list_all2 (\<lambda>(k, v) (k', v'). k = k' \<and> (is_secret_key k \<or> same_shape v v')) doc doc'"
| "same_shape (JArr vs) (JArr vs') \<longleftrightarrow> list_all2 same_shape vs vs'"
| "same_shape (JStr s) (JStr s') \<longleftrightarrow> True"
| "same_shape v v' \<longleftrightarrow> v = v'"

lemma redact_secrets_shape: "same_shape v (redact_secrets v)"
proof (induction v rule: redact_secrets.induct)
  case (1 doc)
  then show ?case by (auto simp: list_all2_conv_all_nth split: prod.splits) (metis nth_mem surjective_pairing)
next
  case (2 vs)
  then show ?case by (simp add: list_all2_conv_all_nth)
qed simp_all

lemma format_record_bounded:
  assumes "(key, value) \<in> set (drop 3 (format_record l))"
  shows "\<exists>v. is_redacted v \<and>
    value = take (if key = ''message'' then 4000 else if key = ''exception'' then 8000 else 200) v"
proof -
  have entry: "drop 3 (format_record l) = (''message'', take 4000 (redact_text (lr_message l))) #
      List.map_filter (\<lambda>name. case lr_extra l name of
        Some value \<Rightarrow> if value = [] then None else Some (name, take 200 (redact_text value))
      | None \<Rightarrow> None) CONTEXT_NAMES @
      (case lr_exception l of None \<Rightarrow> [] | Some t \<Rightarrow> [(''exception'', take 8000 (redact_text t))])"
    by (simp add: format_record_def numeral_3_eq_3)
  have context_entry: "\<exists>t. value = take 200 (redact_text t) \<and> key \<in> set CONTEXT_NAMES"
    if "(key, value) \<in> set (List.map_filter (\<lambda>name. case lr_extra l name of
        Some value \<Rightarrow> if value = [] then None else Some (name, take 200 (redact_text value))
      | None \<Rightarrow> None) CONTEXT_NAMES)"
    using that by (auto simp: map_filter_def split: option.splits if_splits)
  have names: "''message'' \<notin> set CONTEXT_NAMES" "''exception'' \<notin> set CONTEXT_NAMES" by (simp_all add: CONTEXT_NAMES_def)
  from assms consider
      (message) "key = ''message''" "value = take 4000 (redact_text (lr_message l))"
    | (extra) t where "value = take 200 (redact_text t)" "key \<in> set CONTEXT_NAMES"
    | (exception) t where "key = ''exception''" "value = take 8000 (redact_text t)"
    unfolding entry using context_entry by (auto split: option.splits)
  then show ?thesis
  proof cases
    case extra
    then show ?thesis using names by (auto simp: is_redacted_def)
  qed (auto simp: is_redacted_def)
qed



end
