(* ===== verification/Scheduler.thy ===== *)
theory Scheduler
  imports Complex_Main Orchestrator
begin

text \<open>
  The loop of the orchestrator, \<open>run_forever\<close> and \<open>run_once\<close> of \<open>orchestrator/service.py\<close>, as a labelled
  transition system. The coroutines of \<open>process_task\<close> that a batch starts are numbered jobs: a job first
  waits for the semaphore, then holds it while it runs (what it does there is \<open>process_task\<close>), and
  ends with a result, an exception or a cancellation. Every step is what the event loop does without
  giving way; in between anything else may happen: \<open>enqueue_task\<close>, the stop event, and the cancellation
  of the loop itself, which \<open>gather\<close> passes on to the jobs of the batch.
\<close>

datatype loop_point =
    Reconciling
  | Polling
  | Gathering "nat set"
  | Unwinding "nat set"
  | Pausing
  | Sleeping
  | Loop_ended
  | Loop_failed
  | Loop_cancelled

record scheduler =
  sd_at :: loop_point
  sd_wake :: bool
  sd_stop :: bool
  sd_waiting :: "nat set"
  sd_active :: "nat set"
  sd_doomed :: "nat set"
  sd_started :: "string list"

text \<open>The constructor: the three bounds; \<open>None\<close> is a \<open>ValueError\<close>.\<close>

definition new_scheduler :: "int \<Rightarrow> rat \<Rightarrow> int \<Rightarrow> scheduler option" where
  "new_scheduler max_concurrent poll_interval runtime_timeout =
     (if \<not> (1 \<le> max_concurrent \<and> max_concurrent \<le> 16) then None
      else if poll_interval \<le> 0 then None
      else if \<not> (1 \<le> runtime_timeout \<and> runtime_timeout \<le> 86400) then None
      else Some \<lparr>sd_at = Reconciling, sd_wake = False, sd_stop = False, sd_waiting = {}, sd_active = {},
                 sd_doomed = {}, sd_started = []\<rparr>)"

definition enqueue_task :: "scheduler \<Rightarrow> scheduler" where
  "enqueue_task s = s\<lparr>sd_wake := True\<rparr>"

text \<open>\<open>run_once\<close> with the queued tasks it was given: a job per task.\<close>

definition start_batch :: "string list \<Rightarrow> scheduler \<Rightarrow> scheduler" where
  "start_batch ids s =
     (let jobs = {length (sd_started s) ..< length (sd_started s) + length ids}
      in s\<lparr>sd_at := (if ids = [] then Pausing else Gathering jobs), sd_waiting := sd_waiting s \<union> jobs,
           sd_started := sd_started s @ ids\<rparr>)"

text \<open>
  \<open>gather\<close> ends with its last job, or with the first one that raises or is cancelled; the others then go
  on. When it was asked to cancel and every job returned, it raises \<open>CancelledError\<close> all the same; when
  a job raises first, the loop sees that exception, which it logs.
\<close>

datatype job_end = Job_returned | Job_raised | Job_cancelled

definition after_job :: "nat \<Rightarrow> job_end \<Rightarrow> loop_point \<Rightarrow> loop_point" where
  "after_job j e p =
     (case p of
        Gathering jobs \<Rightarrow>
          if j \<notin> jobs then p
          else if e \<noteq> Job_returned \<or> jobs - {j} = {} then Pausing
          else Gathering (jobs - {j})
      | Unwinding jobs \<Rightarrow>
          if j \<notin> jobs then p
          else (case e of
              Job_raised \<Rightarrow> Pausing
            | Job_cancelled \<Rightarrow> Loop_cancelled
            | Job_returned \<Rightarrow> if jobs - {j} = {} then Loop_cancelled else Unwinding (jobs - {j}))
      | _ \<Rightarrow> p)"

definition end_job :: "nat \<Rightarrow> job_end \<Rightarrow> scheduler \<Rightarrow> scheduler" where
  "end_job j e s =
     s\<lparr>sd_waiting := sd_waiting s - {j}, sd_active := sd_active s - {j}, sd_at := after_job j e (sd_at s)\<rparr>"

text \<open>
  \<open>cancel()\<close> on the task of the loop: in a batch it goes to the jobs, elsewhere the \<open>CancelledError\<close>
  leaves the loop.
\<close>

definition cancel_loop :: "scheduler \<Rightarrow> scheduler" where
  "cancel_loop s =
     (case sd_at s of
        Gathering jobs \<Rightarrow> s\<lparr>sd_at := Unwinding jobs, sd_doomed := sd_doomed s \<union> jobs\<rparr>
      | Unwinding jobs \<Rightarrow> s
      | Loop_ended \<Rightarrow> s
      | Loop_failed \<Rightarrow> s
      | _ \<Rightarrow> s\<lparr>sd_at := Loop_cancelled\<rparr>)"

datatype loop_event =
    Reconciled bool
  | Stop_seen
  | Listed "string list"
  | Listing_failed
  | Acquired nat
  | Job_ended nat job_end
  | Wake_cleared
  | Woken
  | Timed_out_poll
  | Enqueued
  | Stop_set
  | Loop_cancel

text \<open>\<open>limit\<close> is \<open>max_concurrent_tasks\<close>; the store lists at most as many tasks as it is asked for.\<close>

inductive loop_step :: "nat \<Rightarrow> scheduler \<Rightarrow> loop_event \<Rightarrow> scheduler \<Rightarrow> bool" for limit where
  Reconciled: "sd_at s = Reconciling \<Longrightarrow>
    loop_step limit s (Reconciled ok) (s\<lparr>sd_at := (if ok then Polling else Loop_failed)\<rparr>)"
| Stop_seen: "sd_at s = Polling \<Longrightarrow> sd_stop s \<Longrightarrow> loop_step limit s Stop_seen (s\<lparr>sd_at := Loop_ended\<rparr>)"
| Listed: "sd_at s = Polling \<Longrightarrow> \<not> sd_stop s \<Longrightarrow> length ids \<le> limit \<Longrightarrow>
    loop_step limit s (Listed ids) (start_batch ids s)"
| Listing_failed: "sd_at s = Polling \<Longrightarrow> \<not> sd_stop s \<Longrightarrow> loop_step limit s Listing_failed (s\<lparr>sd_at := Pausing\<rparr>)"
| Acquired: "j \<in> sd_waiting s \<Longrightarrow> card (sd_active s) < limit \<Longrightarrow> j \<notin> sd_doomed s \<Longrightarrow>
    loop_step limit s (Acquired j) (s\<lparr>sd_waiting := sd_waiting s - {j}, sd_active := insert j (sd_active s)\<rparr>)"
| Job_ended: "j \<in> sd_active s \<Longrightarrow> e = Job_cancelled \<longrightarrow> j \<in> sd_doomed s \<Longrightarrow>
    loop_step limit s (Job_ended j e) (end_job j e s)"
| Job_dropped: "j \<in> sd_waiting s \<Longrightarrow> j \<in> sd_doomed s \<Longrightarrow>
    loop_step limit s (Job_ended j Job_cancelled) (end_job j Job_cancelled s)"
| Wake_cleared: "sd_at s = Pausing \<Longrightarrow> loop_step limit s Wake_cleared (s\<lparr>sd_at := Sleeping, sd_wake := False\<rparr>)"
| Woken: "sd_at s = Sleeping \<Longrightarrow> sd_wake s \<or> sd_stop s \<Longrightarrow> loop_step limit s Woken (s\<lparr>sd_at := Polling\<rparr>)"
| Timed_out_poll: "sd_at s = Sleeping \<Longrightarrow> loop_step limit s Timed_out_poll (s\<lparr>sd_at := Polling\<rparr>)"
| Enqueued: "loop_step limit s Enqueued (enqueue_task s)"
| Stop_set: "loop_step limit s Stop_set (s\<lparr>sd_stop := True\<rparr>)"
| Loop_cancel: "loop_step limit s Loop_cancel (cancel_loop s)"

inductive loop_run :: "nat \<Rightarrow> scheduler \<Rightarrow> loop_event list \<Rightarrow> scheduler \<Rightarrow> bool" for limit where
  loop_run_Nil: "loop_run limit s [] s"
| loop_run_snoc: "loop_run limit s es t \<Longrightarrow> loop_step limit t e u \<Longrightarrow> loop_run limit s (es @ [e]) u"

lemma loop_run_one: "loop_step limit s e t \<Longrightarrow> loop_run limit s [e] t"
  using loop_run_snoc [OF loop_run_Nil] by simp

lemma loop_run_append: "loop_run limit t es' u \<Longrightarrow> loop_run limit s es t \<Longrightarrow> loop_run limit s (es @ es') u"
  by (induction rule: loop_run.induct) (auto simp flip: append_assoc intro: loop_run_snoc)

lemma loop_run_Cons: "loop_step limit s e t \<Longrightarrow> loop_run limit t es u \<Longrightarrow> loop_run limit s (e # es) u"
  using loop_run_append [OF _ loop_run_one] by fastforce

inductive_cases loop_stepE: "loop_step limit s e t"

section \<open>The invariant of the loop\<close>

text \<open>The jobs that the loop waits for.\<close>

fun batch :: "loop_point \<Rightarrow> nat set option" where
  "batch (Gathering jobs) = Some jobs"
| "batch (Unwinding jobs) = Some jobs"
| "batch _ = None"

definition loop_ok :: "nat \<Rightarrow> scheduler \<Rightarrow> bool" where
  "loop_ok limit s \<longleftrightarrow>
     finite (sd_active s) \<and> card (sd_active s) \<le> limit \<and> sd_waiting s \<inter> sd_active s = {} \<and>
     sd_waiting s \<union> sd_active s \<subseteq> {..< length (sd_started s)} \<and>
     (\<forall>jobs. batch (sd_at s) = Some jobs \<longrightarrow> jobs \<noteq> {} \<and> jobs \<subseteq> sd_waiting s \<union> sd_active s \<and> card jobs \<le> limit)"

lemma loop_ok_start: "new_scheduler n p t = Some s \<Longrightarrow> loop_ok limit s"
  by (auto simp: new_scheduler_def loop_ok_def split: if_splits)

lemma loop_ok_batch:
  assumes "loop_ok limit s" "sd_at s = Polling" "length ids \<le> limit"
  shows "loop_ok limit (start_batch ids s)"
proof -
  have "x < length (sd_started s)" if "x \<in> sd_active s" for x
    using assms(1) that unfolding loop_ok_def by auto
  then have "{length (sd_started s) ..< length (sd_started s) + length ids} \<inter> sd_active s = {}" by force
  with assms show ?thesis by (auto simp: loop_ok_def start_batch_def Let_def)
qed

lemma batch_after_job:
  assumes "batch (after_job j e p) = Some jobs'"
  shows "\<exists>jobs. batch p = Some jobs \<and> jobs' = (if j \<in> jobs then jobs - {j} else jobs) \<and> (jobs \<noteq> {} \<longrightarrow> jobs' \<noteq> {})"
  using assms by (cases p; cases e) (auto simp: after_job_def split: if_splits)

lemma loop_ok_end:
  assumes "loop_ok limit s"
  shows "loop_ok limit (end_job j e s)"
proof -
  have "card (sd_active s - {j}) \<le> limit"
    using assms card_Diff1_le [of "sd_active s" j] unfolding loop_ok_def by linarith
  moreover have "jobs' \<noteq> {} \<and> jobs' \<subseteq> (sd_waiting s - {j}) \<union> (sd_active s - {j}) \<and> card jobs' \<le> limit"
    if "batch (after_job j e (sd_at s)) = Some jobs'" for jobs'
  proof -
    note left = batch_after_job [OF that]
    obtain jobs where jobs: "batch (sd_at s) = Some jobs" "jobs' = (if j \<in> jobs then jobs - {j} else jobs)"
      "jobs \<noteq> {} \<longrightarrow> jobs' \<noteq> {}"
      using left by blast
    have "jobs \<noteq> {}" "jobs \<subseteq> sd_waiting s \<union> sd_active s" "card jobs \<le> limit"
      using assms jobs(1) unfolding loop_ok_def by auto
    moreover have "card (jobs - {j}) \<le> card jobs" by (rule card_Diff1_le)
    ultimately show ?thesis using jobs(2,3) by auto
  qed
  ultimately show ?thesis using assms by (auto simp: loop_ok_def end_job_def)
qed

lemma loop_ok_cancel: "loop_ok limit s \<Longrightarrow> loop_ok limit (cancel_loop s)"
  by (cases "sd_at s") (auto simp: cancel_loop_def loop_ok_def)

lemma loop_ok_step: "loop_step limit s e t \<Longrightarrow> loop_ok limit s \<Longrightarrow> loop_ok limit t"
proof (induction rule: loop_step.induct)
  case (Acquired j s)
  then have "card (insert j (sd_active s)) \<le> limit"
    unfolding loop_ok_def by (simp add: card_insert_if)
  with Acquired show ?case by (auto simp: loop_ok_def)
qed (auto simp: loop_ok_batch loop_ok_end loop_ok_cancel enqueue_task_def, auto simp: loop_ok_def)

lemma loop_ok_run: "loop_run limit s es t \<Longrightarrow> loop_ok limit s \<Longrightarrow> loop_ok limit t"
  by (induction rule: loop_run.induct) (auto intro: loop_ok_step)

section \<open>Properties\<close>

text \<open>C24: Whatever the event loop does, and also when a job of a batch fails and the loop goes on while the
  others still run, at most \<open>max_concurrent_tasks\<close> tasks are processed at a time; a job is waiting or
  running, never both; and a batch consists of at most that many jobs, all of them started.\<close>

theorem concurrency_bounded:
  assumes "new_scheduler max_concurrent poll timeout = Some s0" "loop_run (nat max_concurrent) s0 es s"
  shows "finite (sd_active s) \<and> card (sd_active s) \<le> nat max_concurrent \<and> sd_waiting s \<inter> sd_active s = {} \<and>
    (\<forall>j \<in> sd_waiting s \<union> sd_active s. j < length (sd_started s)) \<and>
    (\<forall>jobs. batch (sd_at s) = Some jobs \<longrightarrow>
       jobs \<noteq> {} \<and> jobs \<subseteq> sd_waiting s \<union> sd_active s \<and> card jobs \<le> nat max_concurrent)"
  using loop_ok_run [OF assms(2) loop_ok_start [OF assms(1)]] unfolding loop_ok_def by auto

definition idle_scheduler :: scheduler where
  "idle_scheduler = \<lparr>sd_at = Reconciling, sd_wake = False, sd_stop = False, sd_waiting = {}, sd_active = {},
     sd_doomed = {}, sd_started = []\<rparr>"

definition busy_scheduler :: scheduler where
  "busy_scheduler = \<lparr>sd_at = Gathering {0}, sd_wake = False, sd_stop = False, sd_waiting = {}, sd_active = {0},
     sd_doomed = {}, sd_started = [''TASK-1'']\<rparr>"

lemma idle_new: "new_scheduler 2 1 3600 = Some idle_scheduler"
  by (simp add: new_scheduler_def idle_scheduler_def)

lemma busy_reached: "loop_run 2 idle_scheduler [Reconciled True, Listed [''TASK-1''], Acquired 0] busy_scheduler"
proof -
  let ?polling = "idle_scheduler\<lparr>sd_at := Polling\<rparr>" and ?waiting = "busy_scheduler\<lparr>sd_waiting := {0}, sd_active := {}\<rparr>"
  have reconciled: "loop_step 2 idle_scheduler (Reconciled True) ?polling"
    using loop_step.Reconciled [of idle_scheduler 2 True] by (simp add: idle_scheduler_def)
  have "start_batch [''TASK-1''] ?polling = ?waiting"
    by (auto simp: start_batch_def idle_scheduler_def busy_scheduler_def Let_def)
  then have listed: "loop_step 2 ?polling (Listed [''TASK-1'']) ?waiting"
    using loop_step.Listed [of ?polling "[''TASK-1'']" 2] by (simp add: idle_scheduler_def)
  have acquired: "loop_step 2 ?waiting (Acquired 0) busy_scheduler"
    using loop_step.Acquired [of 0 ?waiting 2] by (simp add: busy_scheduler_def)
  show ?thesis by (rule loop_run_Cons [OF reconciled loop_run_Cons [OF listed loop_run_one [OF acquired]]])
qed

theorem concurrency_bounded_witness: "card (sd_active busy_scheduler) \<le> 2 \<and> sd_active busy_scheduler \<noteq> {}"
  using concurrency_bounded [OF idle_new, of _ busy_scheduler] busy_reached by (auto simp: busy_scheduler_def)

text \<open>A wake-up counts only while the loop sleeps. Then \<open>enqueue_task\<close> lets it poll at once; but when it
  comes while the loop waits for the last job of its batch, the loop clears it afterwards and sleeps,
  and with no further wake-up nothing but the end of the poll interval lets it look at the queue again.\<close>

theorem wakeup_only_while_sleeping:
  assumes "\<not> sd_stop s"
  shows "(sd_at s = Sleeping \<longrightarrow> loop_run limit s [Enqueued, Woken] (s\<lparr>sd_wake := True, sd_at := Polling\<rparr>)) \<and>
    (sd_at s = Gathering {j} \<and> j \<in> sd_active s \<longrightarrow>
       (\<exists>t. loop_run limit s [Enqueued, Job_ended j Job_returned, Wake_cleared] t \<and> sd_at t = Sleeping \<and>
          (\<forall>e u. loop_step limit t e u \<and> sd_at u = Polling \<longrightarrow> e = Timed_out_poll)))"
proof (intro conjI impI)
  assume "sd_at s = Sleeping"
  then have "loop_step limit (enqueue_task s) Woken (enqueue_task s\<lparr>sd_at := Polling\<rparr>)"
    by (intro loop_step.Woken) (simp_all add: enqueue_task_def)
  from loop_run_Cons [OF loop_step.Enqueued loop_run_one [OF this]]
  show "loop_run limit s [Enqueued, Woken] (s\<lparr>sd_wake := True, sd_at := Polling\<rparr>)" by (simp add: enqueue_task_def)
next
  assume busy: "sd_at s = Gathering {j} \<and> j \<in> sd_active s"
  let ?s2 = "end_job j Job_returned (enqueue_task s)"
  let ?t = "?s2\<lparr>sd_at := Sleeping, sd_wake := False\<rparr>"
  have "sd_at ?s2 = Pausing" using busy by (simp add: end_job_def enqueue_task_def after_job_def)
  then have cleared: "loop_step limit ?s2 Wake_cleared ?t" by (rule loop_step.Wake_cleared)
  have ended: "loop_step limit (enqueue_task s) (Job_ended j Job_returned) ?s2"
    using busy by (intro loop_step.Job_ended) (simp_all add: enqueue_task_def)
  have "loop_run limit s [Enqueued, Job_ended j Job_returned, Wake_cleared] ?t"
    by (rule loop_run_Cons [OF loop_step.Enqueued loop_run_Cons [OF ended loop_run_one [OF cleared]]])
  moreover have "e = Timed_out_poll" if "loop_step limit ?t e u" "sd_at u = Polling" for e u
    using that assms
    by (cases rule: loop_step.cases) (auto simp: end_job_def enqueue_task_def after_job_def cancel_loop_def)
  ultimately show "\<exists>t. loop_run limit s [Enqueued, Job_ended j Job_returned, Wake_cleared] t \<and> sd_at t = Sleeping \<and>
      (\<forall>e u. loop_step limit t e u \<and> sd_at u = Polling \<longrightarrow> e = Timed_out_poll)"
    by (intro exI [of _ ?t]) auto
qed

theorem wakeup_only_while_sleeping_witness:
  "\<exists>t. loop_run 2 busy_scheduler [Enqueued, Job_ended 0 Job_returned, Wake_cleared] t \<and> sd_at t = Sleeping"
  using wakeup_only_while_sleeping [of busy_scheduler 2 0] by (auto simp: busy_scheduler_def)

section \<open>How the loop ends\<close>

text \<open>As long as no job raises, the loop watches over every job: all that wait or run belong to its batch, or
  were asked to cancel when it was cancelled itself.\<close>

definition watched :: "scheduler \<Rightarrow> bool" where
  "watched s \<longleftrightarrow>
     (case sd_at s of
        Gathering jobs \<Rightarrow> sd_waiting s \<union> sd_active s \<subseteq> jobs
      | Unwinding jobs \<Rightarrow> sd_waiting s \<union> sd_active s \<subseteq> jobs \<and> jobs \<subseteq> sd_doomed s
      | Loop_cancelled \<Rightarrow> sd_waiting s \<union> sd_active s \<subseteq> sd_doomed s
      | _ \<Rightarrow> sd_waiting s \<union> sd_active s = {})"

definition calm :: "loop_event \<Rightarrow> bool" where
  "calm e \<longleftrightarrow> (\<forall>j. e \<noteq> Job_ended j Job_raised)"

definition no_early_cancel :: "scheduler \<Rightarrow> bool" where
  "no_early_cancel s \<longleftrightarrow> (\<forall>jobs. sd_at s = Gathering jobs \<longrightarrow> jobs \<inter> sd_doomed s = {}) \<and>
     (\<forall>j \<in> sd_doomed s. j < length (sd_started s))"

lemma watched_end:
  assumes "watched s" "no_early_cancel s" "j \<in> sd_waiting s \<union> sd_active s" "e \<noteq> Job_raised"
    "e = Job_cancelled \<longrightarrow> j \<in> sd_doomed s"
  shows "watched (end_job j e s)"
  using assms by (cases "sd_at s"; cases e)
    (auto simp: watched_def end_job_def after_job_def no_early_cancel_def)

lemma watched_step:
  assumes "loop_step limit s e t" "watched s" "no_early_cancel s" "calm e" "loop_ok limit s"
  shows "watched t \<and> no_early_cancel t"
proof -
  have "watched t"
    using assms
  proof (induction rule: loop_step.induct)
    case (Job_ended j s e)
    then show ?case by (intro watched_end) (auto simp: calm_def)
  next
    case (Job_dropped j s)
    then show ?case by (intro watched_end) (auto simp: calm_def)
  next
    case (Loop_cancel s)
    then show ?case by (cases "sd_at s") (auto simp: watched_def cancel_loop_def)
  qed (auto simp: watched_def enqueue_task_def start_batch_def Let_def split: loop_point.splits)
  moreover have "no_early_cancel t"
    using assms
  proof (induction rule: loop_step.induct)
    case (Job_ended j s e)
    then show ?case by (cases "sd_at s"; cases e)
      (auto simp: no_early_cancel_def end_job_def after_job_def split: if_splits)
  next
    case (Job_dropped j s)
    then show ?case by (cases "sd_at s")
      (auto simp: no_early_cancel_def end_job_def after_job_def split: if_splits)
  next
    case (Loop_cancel s)
    then show ?case
      by (cases "sd_at s") (auto simp: no_early_cancel_def cancel_loop_def loop_ok_def dest!: subsetD)
  next
    case (Listed s ids)
    then show ?case by (force simp: no_early_cancel_def start_batch_def Let_def split: if_splits)
  qed (auto simp: no_early_cancel_def enqueue_task_def)
  ultimately show ?thesis by blast
qed

lemma watched_run:
  assumes "loop_run limit s es t" "loop_ok limit s" "watched s" "no_early_cancel s" "\<forall>e \<in> set es. calm e"
  shows "watched t \<and> no_early_cancel t"
  using assms
proof (induction rule: loop_run.induct)
  case (loop_run_snoc s es t e u)
  then have "loop_ok limit t" using loop_ok_run by blast
  with loop_run_snoc watched_step show ?case by auto
qed auto

text \<open>A job that raises takes the other job of its batch out of sight.\<close>

lemma abandoned_job:
  assumes "2 \<le> n"
  shows "\<exists>es s. loop_run n idle_scheduler es s \<and> sd_at s = Loop_ended \<and> sd_active s = {1} \<and> sd_doomed s = {}"
proof -
  let ?ids = "[''TASK-1'', ''TASK-2'']"
  let ?s1 = "idle_scheduler\<lparr>sd_at := Polling\<rparr>"
  let ?s2 = "start_batch ?ids ?s1"
  let ?s3 = "?s2\<lparr>sd_waiting := {1}, sd_active := {0}\<rparr>"
  let ?s4 = "?s2\<lparr>sd_waiting := {}, sd_active := {0, 1}\<rparr>"
  let ?s5 = "end_job 0 Job_raised ?s4"
  let ?s6 = "?s5\<lparr>sd_at := Sleeping, sd_wake := False\<rparr>"
  let ?s7 = "?s6\<lparr>sd_stop := True\<rparr>"
  let ?s8 = "?s7\<lparr>sd_at := Polling\<rparr>"
  let ?s9 = "?s8\<lparr>sd_at := Loop_ended\<rparr>"
  have jobs: "sd_at ?s2 = Gathering {0, 1}" "sd_waiting ?s2 = {0, 1}" "sd_active ?s2 = {}" "sd_doomed ?s2 = {}"
    by (auto simp: start_batch_def idle_scheduler_def Let_def)
  have "loop_step n idle_scheduler (Reconciled True) ?s1"
    using loop_step.Reconciled [of idle_scheduler n True] by (simp add: idle_scheduler_def)
  moreover have "loop_step n ?s1 (Listed ?ids) ?s2"
    using assms by (intro loop_step.Listed) (simp_all add: idle_scheduler_def)
  moreover have "loop_step n ?s2 (Acquired 0) ?s3"
    using loop_step.Acquired [of 0 ?s2 n] assms jobs by (simp add: insert_Diff_if)
  moreover have "loop_step n ?s3 (Acquired 1) ?s4"
    using loop_step.Acquired [of 1 ?s3 n] assms jobs by (simp add: insert_commute)
  moreover have "loop_step n ?s4 (Job_ended 0 Job_raised) ?s5" by (intro loop_step.Job_ended) simp_all
  moreover have "sd_at ?s5 = Pausing" using jobs by (simp add: end_job_def after_job_def)
  then have "loop_step n ?s5 Wake_cleared ?s6" by (rule loop_step.Wake_cleared)
  moreover have "loop_step n ?s6 Stop_set ?s7" by (rule loop_step.Stop_set)
  moreover have "loop_step n ?s7 Woken ?s8" by (intro loop_step.Woken) simp_all
  moreover have "loop_step n ?s8 Stop_seen ?s9" by (intro loop_step.Stop_seen) simp_all
  ultimately have "loop_run n idle_scheduler [Reconciled True, Listed ?ids, Acquired 0, Acquired 1, Job_ended 0 Job_raised,
      Wake_cleared, Stop_set, Woken, Stop_seen] ?s9"
    by (meson loop_run_Cons loop_run_one)
  moreover have "sd_at ?s9 = Loop_ended" "sd_active ?s9 = {1}" "sd_doomed ?s9 = {}" using jobs by (simp_all add: end_job_def)
  ultimately show ?thesis by blast
qed

text \<open>C25: When the loop ends it has left nothing running, unless a job raised: as long as every job returns
  or is cancelled, no job waits or runs when the loop has ended after a stop, and when the loop was
  cancelled every job that still waits or runs was asked to cancel. One job that raises is enough to
  break this: \<open>gather\<close> hands its exception on, the loop goes on without the other job of the batch, and
  after a stop it ends while that job runs, and nobody will wait for it or cancel it.\<close>

theorem loop_leaves_no_jobs:
  assumes "new_scheduler max_concurrent poll timeout = Some s0"
  shows "(\<forall>es s. loop_run (nat max_concurrent) s0 es s \<longrightarrow> (\<forall>j. Job_ended j Job_raised \<notin> set es) \<longrightarrow>
       (sd_at s \<in> {Loop_ended, Loop_failed} \<longrightarrow> sd_waiting s \<union> sd_active s = {}) \<and>
       (sd_at s = Loop_cancelled \<longrightarrow> sd_waiting s \<union> sd_active s \<subseteq> sd_doomed s)) \<and>
    (2 \<le> max_concurrent \<longrightarrow>
       (\<exists>es s. loop_run (nat max_concurrent) s0 es s \<and> sd_at s = Loop_ended \<and> sd_active s = {1} \<and> sd_doomed s = {}))"
proof (intro conjI allI impI)
  fix es s assume run: "loop_run (nat max_concurrent) s0 es s" "\<forall>j. Job_ended j Job_raised \<notin> set es"
  have start: "watched s0" "no_early_cancel s0"
    using assms by (auto simp: new_scheduler_def watched_def no_early_cancel_def split: if_splits)
  have "\<forall>e \<in> set es. calm e" using run(2) by (auto simp: calm_def)
  then have "watched s" using watched_run [OF run(1) loop_ok_start [OF assms] start] by blast
  then show "sd_at s \<in> {Loop_ended, Loop_failed} \<Longrightarrow> sd_waiting s \<union> sd_active s = {}"
    "sd_at s = Loop_cancelled \<Longrightarrow> sd_waiting s \<union> sd_active s \<subseteq> sd_doomed s"
    by (auto simp: watched_def)
next
  assume two: "2 \<le> max_concurrent"
  have "s0 = idle_scheduler" using assms by (auto simp: new_scheduler_def idle_scheduler_def split: if_splits)
  with two abandoned_job [of "nat max_concurrent"]
  show "\<exists>es s. loop_run (nat max_concurrent) s0 es s \<and> sd_at s = Loop_ended \<and> sd_active s = {1} \<and> sd_doomed s = {}"
    by simp
qed

theorem loop_leaves_no_jobs_witness:
  "\<exists>es s. loop_run 2 idle_scheduler es s \<and> sd_at s = Loop_ended \<and> sd_active s = {1} \<and> sd_doomed s = {}"
  using loop_leaves_no_jobs [OF idle_new] by simp

end
