(* ===== verification/Hub.thy ===== *)
theory Hub
  imports WorkspaceProperties RuntimeProperties OrchestratorProperties
begin

text \<open>
  The worker as \<open>build_application\<close> composes it: its project port is \<open>ProjectExecutionAdapter\<close> over the
  workspace manager, its runtime the Codex adapter. What a task goes through from the queue to the
  event that ends it.
\<close>

section \<open>The composed worker\<close>

fun workspace_error_of :: "preparation \<Rightarrow> workspace_error" where
  "workspace_error_of Preparation_blocked = PreparationBlocked"
| "workspace_error_of Preparation_failed = PreparationError"
| "workspace_error_of Preparation_exception = OpenException"

text \<open>
  Entering \<open>open_task_workspace\<close>, up to the \<open>yield\<close>, on a machine in the state \<open>fs\<close>; leaving it is the
  \<open>wk_release_fails\<close> of the worker.
\<close>

definition hub_open :: "'s execution \<Rightarrow> (string \<Rightarrow> string) \<Rightarrow> 's \<Rightarrow> task \<Rightarrow> workspace_error + task_branch" where
  "hub_open x to_ascii fs t =
     (case ex_acquire x (t_project t) (t_id t) fs of
        (Inl timed_out, _) \<Rightarrow> Inl (if timed_out then PreparationBlocked else OpenException)
      | (Inr _, fs1) \<Rightarrow>
          map_error (\<lambda>e. workspace_error_of (preparation_of e))
            (fst (create_task_branch (ex_manager x) to_ascii (t_project t) (t_id t) (t_request t) fs1)))"

text \<open>\<open>_execute_runtime\<close>: the request, and what the orchestrator looks at in the result.\<close>

definition hub_request :: "int \<Rightarrow> string \<Rightarrow> task \<Rightarrow> string \<Rightarrow> runtime_request" where
  "hub_request timeout path t agent =
     \<lparr>qr_task = t_id t, qr_agent = agent, qr_project = t_project t, qr_workspace = path,
      qr_prompt = t_request t, qr_timeout = timeout\<rparr>"

record codex =
  cd_config :: codex_config
  cd_decode :: "string \<Rightarrow> string"
  cd_child :: child
  cd_state :: runtime_state
  cd_timeout :: int

definition hub_execute :: "codex \<Rightarrow> string \<Rightarrow> task \<Rightarrow> string \<Rightarrow> runtime_result option" where
  "hub_execute cd path t agent =
     (case RuntimeRequest_validate (hub_request (cd_timeout cd) path t agent) of
        Inl _ \<Rightarrow> None
      | Inr request \<Rightarrow>
          (case fst (execute (cd_config cd) (cd_decode cd) redact_runtime_output (cd_child cd) request (cd_state cd)) of
             Inl _ \<Rightarrow> None
           | Inr r \<Rightarrow> Some (seen_result r)))"

definition hub_opening :: "'s execution \<Rightarrow> (string \<Rightarrow> string) \<Rightarrow> 's \<Rightarrow> task \<Rightarrow> workspace_error + string" where
  "hub_opening x to_ascii fs t = (case hub_open x to_ascii fs t of Inl e \<Rightarrow> Inl e | Inr tb \<Rightarrow> Inr (tb_branch tb))"

definition hub_running ::
  "'s execution \<Rightarrow> (string \<Rightarrow> string) \<Rightarrow> 's \<Rightarrow> codex \<Rightarrow> task \<Rightarrow> string \<Rightarrow> runtime_result option" where
  "hub_running x to_ascii fs cd t agent =
     (case hub_open x to_ascii fs t of
        Inl _ \<Rightarrow> None
      | Inr tb \<Rightarrow> hub_execute cd (tb_workspace tb) t agent)"

definition with_ports ::
  "(task \<Rightarrow> workspace_error + string) \<Rightarrow> (task \<Rightarrow> string \<Rightarrow> runtime_result option) \<Rightarrow> worker \<Rightarrow> worker" where
  "with_ports opener runner w = w\<lparr>wk_runtime := ''codex'', wk_open := opener, wk_execute := runner\<rparr>"

definition hub_worker :: "'s execution \<Rightarrow> (string \<Rightarrow> string) \<Rightarrow> 's \<Rightarrow> codex \<Rightarrow> worker \<Rightarrow> worker" where
  "hub_worker x to_ascii fs cd w = with_ports (hub_opening x to_ascii fs) (hub_running x to_ascii fs cd) w"

lemma with_ports_simps [simp]:
  "wk_event (with_ports opener runner w) = wk_event w" "wk_clock (with_ports opener runner w) = wk_clock w"
  "wk_run_id (with_ports opener runner w) = wk_run_id w" "wk_bundle (with_ports opener runner w) = wk_bundle w"
  "wk_meanwhile (with_ports opener runner w) = wk_meanwhile w" "wk_open (with_ports opener runner w) = opener"
  "wk_release_fails (with_ports opener runner w) = wk_release_fails w" "wk_runtime (with_ports opener runner w) = ''codex''"
  "wk_execute (with_ports opener runner w) = runner"
  by (simp_all add: with_ports_def)

section \<open>The contract of the two ports\<close>

text \<open>
  What the orchestrator may rely on: both ports look at the identity, the project and the request of a
  task only; a branch that is opened has a safe name; and a result tells safe files and is a success
  only with exit code 0.
\<close>

locale work_ports =
  fixes opener :: "task \<Rightarrow> workspace_error + string"
    and runner :: "task \<Rightarrow> string \<Rightarrow> runtime_result option"
  assumes opener_job: "same_job t t' \<Longrightarrow> opener t' = opener t"
    and runner_job: "same_job t t' \<Longrightarrow> runner t' agent = runner t agent"
    and branch_safe: "clean TaskId (t_id t) \<Longrightarrow> opener t = Inr branch \<Longrightarrow> git_branch_ok branch \<and> length branch \<le> 120"
    and files_safe: "runner t agent = Some result \<Longrightarrow>
      distinct (re_changed_files result) \<and> list_all safe_changed_file (re_changed_files result)"
    and success_exit: "runner t agent = Some result \<Longrightarrow> re_status result = RuntimeSucceeded \<Longrightarrow>
      re_exit_code result = Some 0"
begin

lemma smooth_with_ports:
  assumes "smooth w t developer branch0 result0" "opener t = Inr branch"
    "runner t (sl_agent developer) = Some result"
  shows "smooth (with_ports opener runner w) t developer branch result"
  using assms opener_job runner_job by (simp add: smooth_def check_simps)

lemma smooth_ports:
  assumes "smooth (with_ports opener runner w) t developer branch result"
  shows "opener t = Inr branch" "runner t (sl_agent developer) = Some result"
proof -
  have "same_job t t" by (simp add: same_job_def)
  then show "opener t = Inr branch" "runner t (sl_agent developer) = Some result"
    using assms by (simp_all add: smooth_def)
qed

lemma told:
  assumes "reachable s" "serving s" "get_task i s = Inr t" "t_status t = Queued"
    "smooth (with_ports opener runner w) t developer branch result" "wk_run_id w \<notin> keys rr_id (db_runs (st_db s))"
    "\<forall>p \<in> {Start_planning, Assign_developer, Start_running, Finish_task}.
       fst (wk_event w p) \<notin> keys er_id (db_events (st_db s))"
  shows "\<exists>s' t' e. process_task (with_ports opener runner w) i s =
      (Inr \<lparr>ps_task = i, ps_status = ended_status (re_status result), ps_error = None\<rparr>, s') \<and>
    get_task i s' = Inr t' \<and> t_status t' = ended_status (re_status result) \<and>
    last (map er_json (db_events (st_db s'))) = e \<and> ev_type e = event_for_status (ended_status (re_status result)) \<and>
    tells_outcome branch (re_changed_files result) e \<and> git_branch_ok branch \<and> length branch \<le> 120 \<and>
    distinct (re_changed_files result) \<and> list_all safe_changed_file (re_changed_files result) \<and>
    (ended_status (re_status result) = Completed \<longrightarrow> re_exit_code result = Some 0)"
proof -
  let ?w = "with_ports opener runner w"
  note held = holding_of_queries [OF assms(1-3)] and ports = smooth_ports [OF assms(5)]
  have "clean TaskId (t_id t)" using holding_row [OF held(1)] held(2) by (metis valid_task_iff fields_clean_def)
  note name = branch_safe [OF this ports(1)]
  have new: "wk_run_id ?w \<notin> run_id ` set (map rr_json (db_runs (st_db s)))"
    using assms(6) run_rows_ids(1) [OF assms(1)] by simp
  have fresh: "\<forall>p \<in> {Start_planning, Assign_developer, Start_running, Finish_task}.
      fst (wk_event ?w p) \<notin> keys er_id (db_events (st_db s))" using assms(7) by simp
  obtain s' e1 e2 e3 e4 where run: "process_task ?w i s =
      (Inr \<lparr>ps_task = i, ps_status = ended_status (re_status result), ps_error = None\<rparr>, s')"
    and h: "holding s' (processed ?w t (sl_agent developer) (re_status result))
      (map er_json (db_events (st_db s)) @ [e1, e2, e3, e4])
      (map rr_json (db_runs (st_db s)) @ [ended_run ?w t (sl_agent developer) result])"
    and types: "map ev_type [e1, e2, e3, e4] =
      [TASK_STARTED, AGENT_ASSIGNED, TASK_STARTED, event_for_status (ended_status (re_status result))]"
      "tells_outcome branch (re_changed_files result) e4"
    using process_task_runs [OF held(1) assms(5,4) new, unfolded event_keys [OF assms(1)] held(2), OF fresh]
    by (elim exE conjE)
  have stored: "get_task i s' = Inr (processed ?w t (sl_agent developer) (re_status result))"
    "t_status (processed ?w t (sl_agent developer) (re_status result)) = ended_status (re_status result)"
    using holding_get [OF h] held(2) by (simp_all add: processed_def assigned_task_def planned_def)
  have "last (map er_json (db_events (st_db s'))) = e4" using h by (simp add: holding_def)
  moreover have "ended_status (re_status result) = Completed \<longrightarrow> re_exit_code result = Some 0"
    using success_exit [OF ports(2)] by (cases "re_status result") simp_all
  ultimately show ?thesis using run stored types name files_safe [OF ports(2)] by auto
qed

end

section \<open>The workspace manager and Codex satisfy it\<close>

lemma hub_same:
  assumes "same_job t t'"
  shows "hub_open x to_ascii fs t' = hub_open x to_ascii fs t" "hub_execute cd path t' agent = hub_execute cd path t agent"
proof -
  have same: "t_id t' = t_id t" "t_project t' = t_project t" "t_request t' = t_request t"
    using assms by (simp_all add: same_job_def)
  show "hub_open x to_ascii fs t' = hub_open x to_ascii fs t" unfolding hub_open_def same by (rule refl)
  show "hub_execute cd path t' agent = hub_execute cd path t agent"
    unfolding hub_execute_def hub_request_def same by (rule refl)
qed

lemma assert_contained_Ok: "assert_contained g p s = (Inr q, s') \<Longrightarrow> below_workspaces g q"
  by (auto simp: assert_contained_def Let_def below_workspaces_def split: if_splits)

lemma selected_below: "clone_or_select g i policy s = (Inr w, s') \<Longrightarrow> below_workspaces g (pw_path w)"
  by (auto simp: clone_or_select_def result_simps dest: assert_contained_Ok)

lemma created_branch:
  assumes "create_task_branch g to_ascii i task_id d s = (Inr tb, s')"
  shows "task_branch_name to_ascii task_id d = Some (tb_branch tb)" "below_workspaces g (tb_workspace tb)"
    "tb_project tb = i"
  using assms by (auto simp: create_task_branch_def result_simps split: option.splits dest: selected_below)

lemma hub_open_Ok:
  assumes "hub_open x to_ascii fs t = Inr tb"
  shows "task_branch_name to_ascii (t_id t) (t_request t) = Some (tb_branch tb)"
    "below_workspaces (ex_manager x) (tb_workspace tb)" "tb_project tb = t_project t"
proof -
  obtain fs1 fs2 where "create_task_branch (ex_manager x) to_ascii (t_project t) (t_id t) (t_request t) fs1 = (Inr tb, fs2)"
    using assms by (auto simp: hub_open_def map_error_Ok split: prod.splits sum.splits) (metis prod.collapse)
  from created_branch [OF this] show "task_branch_name to_ascii (t_id t) (t_request t) = Some (tb_branch tb)"
    "below_workspaces (ex_manager x) (tb_workspace tb)" "tb_project tb = t_project t" by auto
qed

lemma run_child_succeeded: "run_child c i p s = (Inr status, s') \<Longrightarrow> status = RuntimeSucceeded \<longrightarrow> ch_exit c = 0"
  by (auto simp: run_child_def Let_def split: option.splits stdin_outcome.splits wait_outcome.splits if_splits)

lemma execute_Inr:
  assumes "fst (execute cfg decode redactor c request s) = Inr r"
  shows "distinct (cr_changed_files r)" "list_all safe_changed_file (cr_changed_files r)"
    "cr_status r = RuntimeSucceeded \<Longrightarrow> cr_exit_code r = Some 0"
proof -
  obtain status p s1 s2 where status: "result_of_child cfg decode redactor c status = Inr r"
    "run_child c (qr_task request) p s1 = (Inr status, s2)"
    using assms by (auto simp: execute_def Let_def split: option.splits prod.splits sum.splits if_splits)
  from status(1) run_child_succeeded [OF status(2)] show "distinct (cr_changed_files r)" "list_all safe_changed_file (cr_changed_files r)"
    "cr_status r = RuntimeSucceeded \<Longrightarrow> cr_exit_code r = Some 0"
    using collected_files_safe [of decode "ch_git c"]
    by (auto simp: result_of_child_def RuntimeResult_validate_def result_simps split: if_splits)
qed

lemma hub_execute_Some:
  assumes "hub_execute cd path t agent = Some result"
  shows "distinct (re_changed_files result)" "list_all safe_changed_file (re_changed_files result)"
    "re_status result = RuntimeSucceeded \<Longrightarrow> re_exit_code result = Some 0"
  using assms execute_Inr
  by (auto simp: hub_execute_def seen_result_def split: sum.splits)

lemma hub_opening_branch:
  assumes "clean TaskId (t_id t)" "hub_opening x to_ascii fs t = Inr branch"
  shows "git_branch_ok branch \<and> length branch \<le> 120"
proof -
  obtain tb where tb: "hub_open x to_ascii fs t = Inr tb" "tb_branch tb = branch"
    using assms(2) by (auto simp: hub_opening_def split: sum.splits)
  note name = hub_open_Ok(1) [OF tb(1), unfolded tb(2)]
  have "length (t_id t) \<le> 64" using name by (cases "t_id t") (auto simp: task_branch_name_def split: if_splits)
  with task_id_branch [OF assms(1), of to_ascii "t_request t"] name show ?thesis by auto
qed

lemma hub_running_Some:
  assumes "hub_running x to_ascii fs cd t agent = Some result"
  shows "\<exists>path. hub_execute cd path t agent = Some result"
  using assms by (auto simp: hub_running_def split: sum.splits)

interpretation hub_ports: work_ports "hub_opening x to_ascii fs" "hub_running x to_ascii fs cd" for x to_ascii fs cd
proof
  show "hub_opening x to_ascii fs t' = hub_opening x to_ascii fs t" if "same_job t t'" for t t'
    unfolding hub_opening_def hub_same [OF that] by (rule refl)
  show "hub_running x to_ascii fs cd t' agent = hub_running x to_ascii fs cd t agent" if "same_job t t'" for t t' agent
    unfolding hub_running_def hub_same [OF that] by (rule refl)
  show "git_branch_ok branch \<and> length branch \<le> 120"
    if "clean TaskId (t_id t)" "hub_opening x to_ascii fs t = Inr branch" for t branch
    using that by (rule hub_opening_branch)
  show "distinct (re_changed_files result) \<and> list_all safe_changed_file (re_changed_files result)"
    if "hub_running x to_ascii fs cd t agent = Some result" for t agent result
    using hub_running_Some [OF that] hub_execute_Some(1,2) by blast
  show "re_exit_code result = Some 0"
    if "hub_running x to_ascii fs cd t agent = Some result" "re_status result = RuntimeSucceeded" for t agent result
    using hub_running_Some [OF that(1)] hub_execute_Some(3) that(2) by blast
qed

section \<open>From the queue to the last event\<close>

text \<open>C7: A task that the composed hub processes undisturbed is told truly. When its workspace opens and Codex
  ends, the task is stored as ended with the status of the run; the last event of the log has the type
  of that status and names the branch that was made and the files that were changed. That branch is
  the one derived from the task, satisfies the rules of git and was made in a directory below the
  workspaces; the files are distinct relative paths that stay inside it; and the task is completed
  only if Codex ended with exit code 0.\<close>

theorem hub_task_told:
  assumes "reachable s" "serving s" "get_task i s = Inr t" "t_status t = Queued"
    "smooth (hub_worker x to_ascii fs cd w) t developer branch result" "wk_run_id w \<notin> keys rr_id (db_runs (st_db s))"
    "\<forall>p \<in> {Start_planning, Assign_developer, Start_running, Finish_task}.
       fst (wk_event w p) \<notin> keys er_id (db_events (st_db s))"
  shows "\<exists>tb s' e. hub_open x to_ascii fs t = Inr tb \<and> tb_branch tb = branch \<and>
    process_task (hub_worker x to_ascii fs cd w) i s =
      (Inr \<lparr>ps_task = i, ps_status = ended_status (re_status result), ps_error = None\<rparr>, s') \<and>
    (\<exists>t'. get_task i s' = Inr t' \<and> t_status t' = ended_status (re_status result)) \<and>
    last (map er_json (db_events (st_db s'))) = e \<and> ev_type e = event_for_status (ended_status (re_status result)) \<and>
    tells_outcome branch (re_changed_files result) e \<and>
    task_branch_name to_ascii i (t_request t) = Some branch \<and> git_branch_ok branch \<and> length branch \<le> 120 \<and>
    below_workspaces (ex_manager x) (tb_workspace tb) \<and>
    distinct (re_changed_files result) \<and> list_all safe_changed_file (re_changed_files result) \<and>
    (ended_status (re_status result) = Completed \<longrightarrow> re_exit_code result = Some 0)"
proof -
  note smooth = assms(5) [unfolded hub_worker_def]
  obtain tb where tb: "hub_open x to_ascii fs t = Inr tb" "tb_branch tb = branch"
    using hub_ports.smooth_ports(1) [OF smooth] by (auto simp: hub_opening_def split: sum.splits)
  note opened = hub_open_Ok [OF tb(1), unfolded tb(2) holding_of_queries(2) [OF assms(1-3)]]
  show ?thesis
    using hub_ports.told [OF assms(1-4) smooth assms(6,7)] tb opened(1,2) unfolding hub_worker_def by blast
qed

definition sample_execution :: "unit execution" where
  "sample_execution =
     \<lparr>ex_manager = sample_manager, ex_acquire = (\<lambda>_ _ s. (Inr (), s)), ex_release = (\<lambda>_ _ s. (Inr (), s))\<rparr>"

definition sample_codex :: codex where
  "sample_codex =
     \<lparr>cd_config = default_config, cd_decode = (\<lambda>s. s), cd_child = quiet_child, cd_state = fresh_runtime, cd_timeout = 3600\<rparr>"

abbreviation composed_worker :: worker where
  "composed_worker \<equiv> hub_worker sample_execution (\<lambda>s. s) () sample_codex (smooth_worker RuntimeFailed)"

lemma sample_opened:
  "hub_open sample_execution (\<lambda>s. s) () (tk_json sample_row) =
     Inr \<lparr>tb_project = ''hub'', tb_workspace = ''/hub/workspace/projects/hub'', tb_branch = ''agent/TASK-1-fix-the-build''\<rparr>"
proof -
  have "create_task_branch sample_manager (\<lambda>s. s) ''hub'' ''TASK-1'' ''Fix the build'' () =
      (Inr \<lparr>tb_project = ''hub'', tb_workspace = ''/hub/workspace/projects/hub'', tb_branch = ''agent/TASK-1-fix-the-build''\<rparr>, ())"
    by code_simp
  then show ?thesis by (simp add: hub_open_def sample_execution_def sample_task_def stamp_transition_def)
qed

lemma sample_executed:
  "\<exists>result. hub_execute sample_codex ''/hub/workspace/projects/hub'' (tk_json sample_row) ''coder'' = Some result \<and>
     re_status result = RuntimeSucceeded \<and> re_changed_files result = [''a/b.py'']"
proof -
  let ?request = "hub_request 3600 ''/hub/workspace/projects/hub'' (tk_json sample_row) ''coder''"
  have request: "RuntimeRequest_validate ?request = Inr ?request"
    by (simp add: RuntimeRequest_validate_def hub_request_def sample_task_def stamp_transition_def check_simps Prompt_def
        require_def is_absolute_def startswith_def)
  have files: "collect_changed_files (\<lambda>s. s) (Some (0, '' M a/b.py'')) = [''a/b.py'']" by code_simp
  have safe: "safe_changed_file ''a/b.py''" by code_simp
  show ?thesis
    unfolding hub_execute_def sample_codex_def codex.simps request sum.case
    by (simp add: execute_def quiet_child_def fresh_runtime_def run_child_def Let_def terminate_def result_of_child_def
        RuntimeResult_validate_def files safe require_def seen_result_def aware_less_def)
qed

theorem hub_task_told_witness:
  "\<exists>s' e. process_task composed_worker ''TASK-1'' sample_store =
       (Inr \<lparr>ps_task = ''TASK-1'', ps_status = Completed, ps_error = None\<rparr>, s') \<and>
     last (map er_json (db_events (st_db s'))) = e \<and> tells_outcome ''agent/TASK-1-fix-the-build'' [''a/b.py''] e"
proof -
  obtain result where result:
    "hub_execute sample_codex ''/hub/workspace/projects/hub'' (tk_json sample_row) ''coder'' = Some result"
    "re_status result = RuntimeSucceeded" "re_changed_files result = [''a/b.py'']"
    using sample_executed by blast
  have ports: "hub_opening sample_execution (\<lambda>s. s) () (tk_json sample_row) = Inr ''agent/TASK-1-fix-the-build''"
    "hub_running sample_execution (\<lambda>s. s) () sample_codex (tk_json sample_row) ''coder'' = Some result"
    unfolding hub_opening_def hub_running_def sample_opened sum.case
    using result(1) by simp_all
  have "smooth composed_worker (tk_json sample_row) sample_selection ''agent/TASK-1-fix-the-build'' result"
    unfolding hub_worker_def
    by (rule hub_ports.smooth_with_ports [OF sample_smooth])
      (simp_all only: ports sample_selection_def selection.simps)
  from hub_task_told [OF sample_reachable sample_serving sample_queued_task sample_row_queued this] sample_unused
  show ?thesis using result(2,3) by auto
qed

end
