(* ===== verification/Serving.thy ===== *)
theory Serving
  imports Startup Operations Runtime Scheduler
begin

text \<open>
  \<open>build_application\<close> and the supervision in \<open>serve\<close> of \<open>application/composition.py\<close>: every adapter is
  constructed once, from settings that were checked elsewhere, and the store is closed when one of
  the constructors refuses. The configuration checks of the parts are those of their own theories.
\<close>

section \<open>Building the application\<close>

datatype build_failure =
    Startup_refused settings_error
  | Directories_failed
  | Store_failed
  | Manager_refused
  | Runtime_refused
  | Orchestrator_refused
  | Slack_refused build_error
  | Probes_refused

datatype store_handle = Not_opened | Handle_open | Handle_closed

record 's application =
  ap_paths :: runtime_paths
  ap_bundle :: config_bundle
  ap_manager :: "'s manager"
  ap_runtime :: codex_config
  ap_scheduler :: scheduler
  ap_allowed :: "string set"
  ap_slack :: "(string \<times> string) option"
  ap_notifies :: bool
  ap_probes :: "string list"

text \<open>The body of the \<open>try\<close>.\<close>

definition compose_application ::
  "'s machine \<Rightarrow> 's \<Rightarrow> operational_settings \<Rightarrow> runtime_paths \<Rightarrow> config_bundle \<Rightarrow> build_failure + 's application" where
  "compose_application m fs s paths b =
     (case startup_manager m fs paths b of
        None \<Rightarrow> Inl Manager_refused
      | Some g \<Rightarrow>
          and_then (map_error (\<lambda>_. Runtime_refused)
            (runtime_config_from_settings (os_codex_executable s) (nat (os_output_limit s)))) (\<lambda>cfg.
          case new_scheduler (os_max_concurrent s) (os_poll_interval s) (os_codex_timeout s) of
            None \<Rightarrow> Inl Orchestrator_refused
          | Some sd \<Rightarrow>
              and_then (map_error Slack_refused (build_slack s)) (\<lambda>slack.
              case create_app HUB_PROBES 2 of
                None \<Rightarrow> Inl Probes_refused
              | Some probes \<Rightarrow>
                  Inr \<lparr>ap_paths = paths, ap_bundle = b, ap_manager = g, ap_runtime = cfg, ap_scheduler = sd,
                       ap_allowed = allowed_slack_users s, ap_slack = slack, ap_notifies = os_slack_enabled s,
                       ap_probes = probes\<rparr>)))"

text \<open>\<open>can_open\<close> says whether \<open>SQLiteStore(path)\<close> returns.\<close>

definition build_application ::
  "'s machine \<Rightarrow> (string \<Rightarrow> 's \<Rightarrow> bool) \<Rightarrow> (string \<Rightarrow> yaml_document option) \<Rightarrow> registries \<Rightarrow> (string \<Rightarrow> bool) \<Rightarrow>
   operational_settings \<Rightarrow> 's \<Rightarrow> (build_failure + 's application) \<times> store_handle \<times> 's" where
  "build_application m is_file read_yaml rg can_open s fs =
     (case validate_startup_configuration m is_file read_yaml rg fs s of
        Inl e \<Rightarrow> (Inl (Startup_refused e), Not_opened, fs)
      | Inr (paths, b) \<Rightarrow>
          (case prepare_runtime_directories m paths fs of
             (Inl _, fs1) \<Rightarrow> (Inl Directories_failed, Not_opened, fs1)
           | (Inr _, fs1) \<Rightarrow>
               if \<not> can_open (rp_database paths) then (Inl Store_failed, Not_opened, fs1)
               else (case compose_application m fs1 s paths b of
                   Inl e \<Rightarrow> (Inl e, Handle_closed, fs1)
                 | Inr app \<Rightarrow> (Inr app, Handle_open, fs1))))"

section \<open>Supervising the services\<close>

datatype service = Http_server | Orchestrator_loop | Slack_socket

datatype service_end = Service_returned | Service_raised | Service_cancelled

datatype serve_failure = Service_failed service | Stopped_unexpectedly

text \<open>The services that \<open>asyncio.wait\<close> found ended, in the order of the loop over them.\<close>

fun first_failure :: "(service \<times> service_end) list \<Rightarrow> service option" where
  "first_failure [] = None"
| "first_failure ((sv, e) # ended) = (if e = Service_raised then Some sv else first_failure ended)"

definition serve_error :: "(service \<times> service_end) list \<Rightarrow> serve_failure option" where
  "serve_error ended =
     (case first_failure ended of
        Some sv \<Rightarrow> Some (Service_failed sv)
      | None \<Rightarrow> if Http_server \<notin> fst ` set ended then Some Stopped_unexpectedly else None)"

end
