(* ===== verification/ServingProperties.thy ===== *)
theory ServingProperties
  imports Serving StartupProperties
begin

text \<open>
  The settings that pass their own checks satisfy the checks of every part that is built from them, so
  a hub that is configured validly starts; and the store is never left open by a build that fails.
\<close>

lemma settings_facts:
  assumes "OperationalSettings_validate s0 = Inr s"
  shows "os_host s \<in> set LOOPBACK_HOSTS" "1 \<le> os_max_concurrent s \<and> os_max_concurrent s \<le> 16"
    "0 < os_poll_interval s" "1 \<le> os_codex_timeout s \<and> os_codex_timeout s \<le> 86400"
    "1024 \<le> os_output_limit s \<and> os_output_limit s \<le> 10000000"
    "command_part (os_codex_executable s)" "plain_command (os_codex_executable s)" "validate_slack s = Inr s"
proof -
  obtain executable where ok: "os_host s0 \<in> set LOOPBACK_HOSTS" "1 \<le> os_max_concurrent s0 \<and> os_max_concurrent s0 \<le> 16"
    "0 < os_poll_interval s0" "1 \<le> os_codex_timeout s0 \<and> os_codex_timeout s0 \<le> 86400"
    "1024 \<le> os_output_limit s0 \<and> os_output_limit s0 \<le> 10000000"
    "meets ExecutableName executable" "list_all (\<lambda>c. c \<notin> {CHR 0x00, CHR 0x0A, CHR 0x0D}) executable"
    "validate_slack (s0\<lparr>os_codex_executable := executable\<rparr>) = Inr s"
    using assms by (auto simp: OperationalSettings_validate_def result_simps in_bounds_def)
  from ok(8) have s: "s = s0\<lparr>os_codex_executable := executable\<rparr>" by (auto simp: validate_slack_def split: if_splits)
  show "os_host s \<in> set LOOPBACK_HOSTS" "1 \<le> os_max_concurrent s \<and> os_max_concurrent s \<le> 16"
    "0 < os_poll_interval s" "1 \<le> os_codex_timeout s \<and> os_codex_timeout s \<le> 86400"
    "1024 \<le> os_output_limit s \<and> os_output_limit s \<le> 10000000"
    using ok(1-5) by (simp_all add: s)
  show "command_part (os_codex_executable s)" "plain_command (os_codex_executable s)"
    using ok(6,7) by (auto simp: s command_part_def plain_command_def meets_def ExecutableName_def list_all_iff)
  show "validate_slack s = Inr s" using ok(8) s by simp
qed

lemma default_arguments: "list_all (\<lambda>a. command_part a \<and> CHR 0x00 \<notin> set a) (cx_arguments default_config)"
  "command_part (cx_git default_config)" "plain_command (cx_git default_config)" "distinct (cx_environment default_config)"
  by (simp_all add: default_config_def command_part_def plain_command_def)

lemma runtime_config_accepted:
  assumes "command_part executable" "plain_command executable" "1024 \<le> limit" "limit \<le> 10000000"
  shows "runtime_config_from_settings executable limit =
    Inr (default_config\<lparr>cx_executable := executable, cx_output_limit := limit\<rparr>)"
  using assms default_arguments
  by (simp add: runtime_config_from_settings_def CodexRuntimeConfig_validate_def require_def)
    (simp add: default_config_def)

definition blank_token :: "operational_settings \<Rightarrow> bool" where
  "blank_token s \<longleftrightarrow> os_slack_enabled s \<and>
     (py_strip (the (os_bot_token s)) = [] \<or> py_strip (the (os_app_token s)) = [])"

lemma build_slack_exact:
  assumes "validate_slack s = Inr s"
  shows "build_slack s = (if blank_token s then Inl Blank_token
    else Inr (if os_slack_enabled s then Some (the (os_bot_token s), the (os_app_token s)) else None))"
  using assms
  by (auto simp: validate_slack_def missing_token_def build_slack_def service_tokens_def require_def blank_token_def
      split: if_splits)

lemma handle_open_iff:
  "fst (snd (build_application m is_file read_yaml rg can_open s fs)) = Handle_open \<longleftrightarrow>
    (\<exists>app. fst (build_application m is_file read_yaml rg can_open s fs) = Inr app)"
  by (simp add: build_application_def split: sum.split prod.split)

text \<open>C11: A validly configured hub starts. Settings that pass their checks pass those of every part that is
  built from them (the runtime, the orchestrator, the Slack service, the probes); so once the startup
  checks accept them, the directories are made, the store opens and the repository is still there,
  the build succeeds, with the one exception of a Slack token of blanks. Whatever happens, the store
  is left open exactly when the build succeeds.\<close>

theorem valid_settings_build:
  assumes "OperationalSettings_validate s0 = Inr s"
    "validate_startup_configuration m is_file read_yaml rg fs s = Inr (paths, b)"
    "prepare_runtime_directories m paths fs = (Inr (), fs1)" "can_open (rp_database paths)"
    "mc_exists m (mc_resolve m (rp_repository paths) fs1) fs1"
  shows "(if blank_token s
      then build_application m is_file read_yaml rg can_open s fs = (Inl (Slack_refused Blank_token), Handle_closed, fs1)
      else \<exists>app. build_application m is_file read_yaml rg can_open s fs = (Inr app, Handle_open, fs1) \<and>
        ap_paths app = paths \<and> ap_bundle app = b \<and> ap_probes app = HUB_PROBES \<and> sd_at (ap_scheduler app) = Reconciling \<and>
        cx_executable (ap_runtime app) = os_codex_executable s \<and>
        int (cx_output_limit (ap_runtime app)) = os_output_limit s \<and>
        (ap_slack app \<noteq> None \<longleftrightarrow> os_slack_enabled s) \<and> (os_slack_enabled s \<longrightarrow> ap_allowed app \<noteq> {})) \<and>
    (\<forall>s' fs'. fst (snd (build_application m is_file read_yaml rg can_open s' fs')) = Handle_open \<longleftrightarrow>
       (\<exists>app. fst (build_application m is_file read_yaml rg can_open s' fs') = Inr app))"
proof -
  note facts = settings_facts [OF assms(1)]
  obtain g where g: "startup_manager m fs1 paths b = Some g"
    using assms(5) by (simp add: startup_manager_def new_manager_def)
  have cfg: "runtime_config_from_settings (os_codex_executable s) (nat (os_output_limit s)) =
      Inr (default_config\<lparr>cx_executable := os_codex_executable s, cx_output_limit := nat (os_output_limit s)\<rparr>)"
    using facts(5-7) by (intro runtime_config_accepted) auto
  obtain sd where sd: "new_scheduler (os_max_concurrent s) (os_poll_interval s) (os_codex_timeout s) = Some sd"
    "sd_at sd = Reconciling"
    using facts(2-4) by (auto simp: new_scheduler_def)
  have probes: "create_app HUB_PROBES 2 = Some HUB_PROBES" by (simp add: create_app_def HUB_PROBES_def)
  have users: "os_slack_enabled s \<longrightarrow> allowed_slack_users s \<noteq> {}"
    using facts(8) by (auto simp: validate_slack_def split: if_splits)
  have composed: "compose_application m fs1 s paths b = (if blank_token s then Inl (Slack_refused Blank_token)
      else Inr \<lparr>ap_paths = paths, ap_bundle = b, ap_manager = g,
        ap_runtime = default_config\<lparr>cx_executable := os_codex_executable s, cx_output_limit := nat (os_output_limit s)\<rparr>,
        ap_scheduler = sd, ap_allowed = allowed_slack_users s,
        ap_slack = (if os_slack_enabled s then Some (the (os_bot_token s), the (os_app_token s)) else None),
        ap_notifies = os_slack_enabled s, ap_probes = HUB_PROBES\<rparr>)"
    by (simp add: compose_application_def g cfg sd(1) probes build_slack_exact [OF facts(8)])
  have "build_application m is_file read_yaml rg can_open s fs =
      (case compose_application m fs1 s paths b of Inl e \<Rightarrow> (Inl e, Handle_closed, fs1) | Inr app \<Rightarrow> (Inr app, Handle_open, fs1))"
    using assms(2-4) by (simp add: build_application_def)
  then have built: "build_application m is_file read_yaml rg can_open s fs =
      (case compose_application m fs1 s paths b of Inl e \<Rightarrow> (Inl e, Handle_closed, fs1) | Inr app \<Rightarrow> (Inr app, Handle_open, fs1))" .
  show ?thesis
  proof (intro conjI allI)
    show "fst (snd (build_application m is_file read_yaml rg can_open s' fs')) = Handle_open \<longleftrightarrow>
        (\<exists>app. fst (build_application m is_file read_yaml rg can_open s' fs') = Inr app)" for s' fs'
      by (rule handle_open_iff)
  qed (use built composed sd(2) users facts(5) in auto)
qed

lemma sample_directories: "prepare_runtime_directories plain_machine sample_paths () = (Inr (), ())"
  by (simp add: prepare_runtime_directories_def prepared_directories_def plain_machine_def act_defs)

theorem valid_settings_build_witness:
  "\<exists>app. build_application plain_machine (\<lambda>_ _. True) (\<lambda>_. Some (Yaml_mapping [])) sample_registries (\<lambda>_. True)
     default_settings () = (Inr app, Handle_open, ()) \<and> ap_probes app = HUB_PROBES"
proof -
  have valid: "OperationalSettings_validate default_settings = Inr default_settings" by code_simp
  have "\<not> blank_token default_settings" by (simp add: blank_token_def default_settings_def)
  moreover have there: "mc_exists plain_machine (mc_resolve plain_machine (rp_repository sample_paths) ()) ()"
    by (simp add: plain_machine_def)
  ultimately show ?thesis
    using valid_settings_build [OF valid sample_startup_valid sample_directories, of "\<lambda>_. True"] by auto
qed

text \<open>\<open>serve\<close> ends without an error exactly when the HTTP server was among the first services to end and
  none of these raised; a service that was cancelled does not count as a failure. The loop over the
  ended services is over a set, but its order matters only for which exception is reported.\<close>

theorem serve_error_exact:
  assumes "set ended' = set ended"
  shows "(serve_error ended = None \<longleftrightarrow> Http_server \<in> fst ` set ended \<and> (\<forall>sv. (sv, Service_raised) \<notin> set ended)) \<and>
    (serve_error ended = None \<longleftrightarrow> serve_error ended' = None) \<and>
    (\<forall>sv. serve_error ended = Some (Service_failed sv) \<longrightarrow> (sv, Service_raised) \<in> set ended)"
proof -
  have none: "first_failure es = None \<longleftrightarrow> (\<forall>sv. (sv, Service_raised) \<notin> set es)" for es
    by (induction es rule: first_failure.induct) auto
  have some: "first_failure es = Some sv \<Longrightarrow> (sv, Service_raised) \<in> set es" for es sv
    by (induction es rule: first_failure.induct) (auto split: if_splits)
  have exact: "serve_error es = None \<longleftrightarrow> Http_server \<in> fst ` set es \<and> (\<forall>sv. (sv, Service_raised) \<notin> set es)" for es
    using none [of es] by (auto simp: serve_error_def split: option.split)
  show ?thesis
    using exact [of ended] exact [of ended'] some assms by (auto simp: serve_error_def split: option.splits if_splits)
qed

theorem serve_error_exact_witness:
  "serve_error [(Http_server, Service_returned)] = None \<and> serve_error [(Slack_socket, Service_returned)] \<noteq> None"
  using serve_error_exact [of "[(Http_server, Service_returned)]" "[(Http_server, Service_returned)]"]
    serve_error_exact [of "[(Slack_socket, Service_returned)]" "[(Slack_socket, Service_returned)]"]
  by auto

end
