(* ===== verification/QueueProperties.thy ===== *)
theory QueueProperties
  imports StoreProperties Calendar
begin

text \<open>
  The queue in the order of time. The store compares the texts of the creation times; with
  \<open>isoformat_less\<close> this is the order in which the tasks were created, as long as the times carry one
  offset, which the clock of the gateway, \<open>datetime.now(UTC)\<close>, ensures.
\<close>

definition created_by_clock :: "task_row \<Rightarrow> bool" where
  "created_by_clock r \<longleftrightarrow> showable (tk_created r) \<and> offset (tk_created r) = 0"

lemma oldest_first_utc:
  assumes "created_by_clock a" "created_by_clock b" "oldest_first a b"
  shows "utc (tk_created a) \<le> utc (tk_created b)"
  using assms by (auto simp: created_by_clock_def oldest_first_def isoformat_less isoformat_eq)

text \<open>C31: The queue is served in the order of creation. When the queued tasks were created by the clock
  of the gateway, \<open>list_queued_tasks\<close> returns stored queued tasks, each once and as many as there are up
  to the limit, from the oldest to the newest; and no queued task that it leaves out is older than one
  that it returns.\<close>

theorem queue_in_time_order:
  assumes "reachable s" "list_queued_tasks limit s = Inr ts"
    "\<forall>r \<in> set (db_tasks (st_db s)). tk_status r = Queued \<longrightarrow> created_by_clock r"
  shows "sorted_wrt (\<lambda>t u. utc (t_created t) \<le> utc (t_created u)) ts \<and> distinct (map t_id ts) \<and>
    length ts = min (nat limit) (length (filter (\<lambda>r. tk_status r = Queued) (db_tasks (st_db s)))) \<and>
    (\<forall>t \<in> set ts. t_status t = Queued \<and> get_task (t_id t) s = Inr t) \<and>
    (\<forall>u. get_task (t_id u) s = Inr u \<longrightarrow> t_status u = Queued \<longrightarrow> u \<notin> set ts \<longrightarrow>
       (\<forall>t \<in> set ts. utc (t_created t) \<le> utc (t_created u)))"
proof -
  obtain rows where ts: "ts = map tk_json rows" and sorted: "sorted_wrt oldest_first rows"
    and rows: "distinct rows" "set rows \<subseteq> {r \<in> set (db_tasks (st_db s)). tk_status r = Queued}"
    and len: "length rows = min (nat limit) (length (filter (\<lambda>r. tk_status r = Queued) (db_tasks (st_db s))))"
    and left: "\<forall>r \<in> set (db_tasks (st_db s)). tk_status r = Queued \<longrightarrow> r \<notin> set rows \<longrightarrow> (\<forall>r' \<in> set rows. oldest_first r' r)"
    using queue_is_fifo [OF assms(1,2)] by auto
  have tabs: "tasks_ok (db_tasks (st_db s))" using reachable_tables [OF assms(1)] by (simp add: tables_ok_def)
  then have ok: "task_row_ok r" if "r \<in> set (db_tasks (st_db s))" for r using that by (simp add: tasks_ok_def)
  have unique: "row_of tk_id (tk_id r) (db_tasks (st_db s)) = Some r" if "r \<in> set (db_tasks (st_db s))" for r
    using tabs that by (intro row_of_distinct) (simp_all add: tasks_ok_def)
  have open_store: "\<not> st_closed s" "st_fault s = None"
    using assms(2) by (auto simp: list_queued_tasks_def read_store_def result_simps split: if_splits option.splits)
  have get: "get_task i s = Inr t \<longleftrightarrow> (\<exists>r \<in> set (db_tasks (st_db s)). tk_id r = i \<and> tk_json r = t)" for i t
  proof (cases "row_of tk_id i (db_tasks (st_db s))")
    case None
    then have "i \<notin> keys tk_id (db_tasks (st_db s))" by (simp add: row_of_None)
    with None open_store show ?thesis by (auto simp: get_task_def read_store_def)
  next
    case (Some r)
    note r = row_of_SomeD [OF Some]
    then have "get_task i s = Inr (tk_json r)"
      using Some open_store ok [of r] by (simp add: get_task_def read_store_def task_row_ok_def)
    moreover have "r' = r" if "r' \<in> set (db_tasks (st_db s))" "tk_id r' = i" for r'
      using unique [OF that(1)] that(2) Some by simp
    ultimately show ?thesis using r by auto
  qed
  have chosen: "r \<in> set (db_tasks (st_db s)) \<and> created_by_clock r \<and> tk_created r = t_created (tk_json r)"
    if "r \<in> set rows" for r
  proof -
    have "r \<in> set (db_tasks (st_db s))" "tk_status r = Queued" using rows(2) that by auto
    then show ?thesis using assms(3) ok [of r] by (auto simp: task_row_ok_def)
  qed
  have "sorted_wrt (\<lambda>t u. utc (t_created t) \<le> utc (t_created u)) ts"
    unfolding ts sorted_wrt_map using sorted
  proof (rule sorted_wrt_mono_rel [rotated])
    fix a b assume "a \<in> set rows" "b \<in> set rows" "oldest_first a b"
    with oldest_first_utc [of a b] chosen show "utc (t_created (tk_json a)) \<le> utc (t_created (tk_json b))" by auto
  qed
  moreover have "distinct (map t_id ts)"
  proof -
    have "map t_id ts = map tk_id rows" using rows(2) ok by (auto simp: ts task_row_ok_def)
    moreover have "inj_on tk_id (set rows)"
      using tabs rows(2) unfolding tasks_ok_def distinct_map by (auto intro: inj_on_subset)
    ultimately show ?thesis using rows(1) by (simp add: distinct_map)
  qed
  moreover have "\<forall>t \<in> set ts. t_status t = Queued \<and> get_task (t_id t) s = Inr t"
    using rows(2) ok by (auto simp: ts get task_row_ok_def)
  moreover have "utc (t_created t) \<le> utc (t_created u)"
    if u: "get_task (t_id u) s = Inr u" "t_status u = Queued" "u \<notin> set ts" and t: "t \<in> set ts" for t u
  proof -
    obtain r where r: "r \<in> set (db_tasks (st_db s))" "tk_json r = u" using u(1) get by blast
    obtain r' where r': "r' \<in> set rows" "tk_json r' = t" using t ts by auto
    have "tk_status r = Queued" "r \<notin> set rows" using r u ok [OF r(1)] by (auto simp: ts task_row_ok_def)
    then have "oldest_first r' r" "created_by_clock r" using left r r'(1) assms(3) by auto
    then have "utc (tk_created r') \<le> utc (tk_created r)" using chosen [OF r'(1)] by (intro oldest_first_utc) auto
    then show ?thesis using chosen [OF r'(1)] ok [OF r(1)] r r' by (simp add: task_row_ok_def)
  qed
  ultimately show ?thesis using len by (simp add: ts)
qed

theorem queue_in_time_order_witness:
  "list_queued_tasks 5 sample_store = Inr [tk_json sample_row] \<and>
     get_task (t_id (tk_json sample_row)) sample_store = Inr (tk_json sample_row)"
proof -
  have "valid_task (tk_json sample_row)"
    using sample_inv sample_row_mem by (auto simp: db_inv_def tables_ok_def tasks_ok_def task_row_ok_def)
  then have run: "list_queued_tasks 5 sample_store = Inr [tk_json sample_row]"
    using sample_serving
    by (simp add: list_queued_tasks_def check_limit_def read_serving queued_rows_def sample_tables sample_row_def)
  have "\<forall>r \<in> set (db_tasks (st_db sample_store)). tk_status r = Queued \<longrightarrow> created_by_clock r"
    by (simp add: sample_tables sample_row_def created_by_clock_def showable_def wall_clock_def)
  from queue_in_time_order [OF sample_reachable run this] run show ?thesis by simp
qed

end
