(* ===== verification/LockTimes.thy ===== *)
theory LockTimes
  imports LockProperties PyText
begin

text \<open>
  The time stamps of \<open>locks/file_lock.py\<close>: \<open>_utc_now\<close>, \<open>_format_timestamp\<close> and \<open>_parse_timestamp\<close>, and the
  project lock that uses them. \<open>datetime.fromisoformat\<close> is an argument of the reader; what is used of it
  is that it reads back what \<open>isoformat\<close> writes. \<open>read_iso\<close> is such a function.
\<close>

section \<open>Writing and reading\<close>

text \<open>\<open>_utc_now\<close> on the value of the clock.\<close>

fun utc_now :: "pydatetime \<Rightarrow> value_error + aware" where
  "utc_now (Naive _) = Inl NaiveTimestamp"
| "utc_now (Aware a) = Inr (at_utc (utc a))"

text \<open>\<open>isoformat(timespec="microseconds")\<close>.\<close>

definition iso_micros :: "aware \<Rightarrow> string" where
  "iso_micros a =
     iso_date (civil_of_days (shown_days a)) @ ''T'' @
     pad2 (shown_seconds a div 3600) @ '':'' @ pad2 (shown_seconds a div 60 mod 60) @ '':'' @
     pad2 (shown_seconds a mod 60) @ ''.'' @ pad6 (shown_micros a) @ iso_offset (offset a)"

text \<open>\<open>text.replace(old, new)\<close> for a text \<open>old\<close> that is not empty.\<close>

fun py_replace :: "string \<Rightarrow> string \<Rightarrow> string \<Rightarrow> string" where
  "py_replace old new [] = []"
| "py_replace old new (c # cs) =
     (if startswith old (c # cs) then new @ py_replace old new (drop (length old - 1) cs)
      else c # py_replace old new cs)"

definition format_timestamp :: "aware \<Rightarrow> string" where
  "format_timestamp a = py_replace ''+00:00'' ''Z'' (iso_micros (at_utc (utc a)))"

definition parse_timestamp :: "(string \<Rightarrow> pydatetime option) \<Rightarrow> string \<Rightarrow> aware option" where
  "parse_timestamp from_iso text0 =
     (case from_iso (py_replace ''Z'' ''+00:00'' text0) of
        Some (Aware a) \<Rightarrow> Some (at_utc (utc a))
      | _ \<Rightarrow> None)"

text \<open>The lock with these functions.\<close>

definition timed_lock :: "(string \<Rightarrow> pydatetime option) \<Rightarrow> lock_params \<Rightarrow> lock_params" where
  "timed_lock from_iso k =
     k\<lparr>lk_parse := (\<lambda>s. map_option utc (parse_timestamp from_iso s)), lk_format := (\<lambda>t. format_timestamp (at_utc t))\<rparr>"

section \<open>A reader of this format\<close>

definition read_iso :: "string \<Rightarrow> pydatetime option" where
  "read_iso s =
     (case (nat_of_literal (take 4 s), nat_of_literal (take 2 (drop 5 s)), nat_of_literal (take 2 (drop 8 s)),
            nat_of_literal (take 2 (drop 11 s)), nat_of_literal (take 2 (drop 14 s)),
            nat_of_literal (take 2 (drop 17 s)), nat_of_literal (take 6 (drop 20 s))) of
        (Some y, Some m, Some d, Some hour, Some minute, Some second, Some micros) \<Rightarrow>
          if drop 26 s = ''+00:00'' \<and> 1 \<le> y \<and> valid_date (int y, int m, int d) \<and> hour < 24 \<and> minute < 60 \<and> second < 60
          then Some (Aware (at_utc ((days_of_civil (int y, int m, int d) * 86400 +
                 int (hour * 3600 + minute * 60 + second)) * 1000000 + int micros)))
          else None
      | _ \<Rightarrow> None)"

definition read_digits :: "string \<Rightarrow> nat" where
  "read_digits s = foldl (\<lambda>n c. 10 * n + digit_value c) 0 s"

lemma foldl_digits:
  "foldl (\<lambda>n c. 10 * n + digit_value c) k s = k * 10 ^ length s + read_digits s"
proof (induction s arbitrary: k rule: rev_induct)
  case (snoc c s)
  show ?case using snoc [of k] by (simp add: read_digits_def algebra_simps)
qed (simp add: read_digits_def)

lemma read_digits_append: "read_digits (s @ t) = read_digits s * 10 ^ length t + read_digits t"
  using foldl_digits [of "read_digits s" t] by (simp add: read_digits_def)

lemma pad2_read:
  assumes "n < 100"
  shows "list_all is_digit (pad2 n)" "read_digits (pad2 n) = n"
  using assms digit_digit [of "n div 10"] digit_digit [of "n mod 10"]
  by (simp_all add: pad2_def read_digits_def less_mult_imp_div_less)

lemma pad4_read:
  assumes "n < 10000"
  shows "list_all is_digit (pad4 n)" "read_digits (pad4 n) = n"
  using assms pad2_read [of "n div 100"] pad2_read [of "n mod 100"]
  by (simp_all add: pad4_def read_digits_append less_mult_imp_div_less)

lemma pad6_read:
  assumes "n < 1000000"
  shows "list_all is_digit (pad6 n)" "read_digits (pad6 n) = n"
  using assms pad2_read [of "n div 10000"] pad4_read [of "n mod 10000"]
  by (simp_all add: pad6_def read_digits_append less_mult_imp_div_less)

lemma literal_pad [simp]:
  "n < 100 \<Longrightarrow> nat_of_literal (pad2 n) = Some n" "n < 10000 \<Longrightarrow> nat_of_literal (pad4 n) = Some n"
  "n < 1000000 \<Longrightarrow> nat_of_literal (pad6 n) = Some n"
  using pad2_read [of n] pad4_read [of n] pad6_read [of n] length_pad [of n]
  by (auto simp: nat_of_literal_def read_digits_def simp del: length_pad)

lemma clock_parts:
  assumes "n < 86400"
  shows "n div 3600 < 24" "n div 60 mod 60 < 60" "n mod 60 < (60::nat)"
    "n div 3600 * 3600 + n div 60 mod 60 * 60 + n mod 60 = n"
proof -
  show "n div 3600 < 24" using assms by (simp add: less_mult_imp_div_less)
  have "n div 60 div 60 = n div 3600" by (simp add: div_mult2_eq [symmetric])
  then have "n div 3600 * 60 + n div 60 mod 60 = n div 60" using div_mult_mod_eq [of "n div 60" 60] by simp
  then show "n div 3600 * 3600 + n div 60 mod 60 * 60 + n mod 60 = n"
    using div_mult_mod_eq [of n 60] by linarith
qed simp_all

lemma read_iso_fields:
  assumes "y < 10000" "m < 100" "d < 100" "hour < 100" "minute < 100" "second < 100" "micros < 1000000"
  shows "read_iso (pad4 y @ ''-'' @ pad2 m @ ''-'' @ pad2 d @ ''T'' @ pad2 hour @ '':'' @ pad2 minute @ '':'' @
      pad2 second @ ''.'' @ pad6 micros @ ''+00:00'') =
    (if 1 \<le> y \<and> valid_date (int y, int m, int d) \<and> hour < 24 \<and> minute < 60 \<and> second < 60
     then Some (Aware (at_utc ((days_of_civil (int y, int m, int d) * 86400 +
            int (hour * 3600 + minute * 60 + second)) * 1000000 + int micros)))
     else None)"
  using assms by (simp add: read_iso_def del: valid_date.simps days_of_civil.simps)

lemma read_iso_micros:
  assumes "showable (at_utc t)"
  shows "read_iso (iso_micros (at_utc t)) = Some (Aware (at_utc t))"
proof -
  let ?a = "at_utc t"
  let ?n = "shown_seconds ?a"
  obtain y m d where date: "civil_of_days (shown_days ?a) = (y, m, d)" by (metis prod_cases3)
  note shown = shown_date [OF shown_days_bounds [OF assms] date]
  have ints: "int (nat y) = y" "int (nat m) = m" "int (nat d) = d" using shown by simp_all
  note clock = clock_parts [OF shown_bounds(1) [of ?a]]
  have small: "nat y < 10000" "nat m < 100" "nat d < 100" "?n div 3600 < 100" "?n div 60 mod 60 < 100" "?n mod 60 < 100"
    using shown clock(1-3) by linarith+
  have shape: "iso_micros ?a = pad4 (nat y) @ ''-'' @ pad2 (nat m) @ ''-'' @ pad2 (nat d) @ ''T'' @
      pad2 (?n div 3600) @ '':'' @ pad2 (?n div 60 mod 60) @ '':'' @ pad2 (?n mod 60) @ ''.'' @
      pad6 (shown_micros ?a) @ ''+00:00''"
    by (simp add: iso_micros_def date iso_date_def iso_offset_def pad2_def digit_def)
  have "valid_date (y, m, d)" "days_of_civil (y, m, d) = shown_days ?a"
    using civil_of_days_valid [of "shown_days ?a"] days_of_civil_of_days [of "shown_days ?a"] unfolding date .
  moreover have "1 \<le> nat y" using shown(1) by simp
  moreover have "(shown_days ?a * 86400 + int ?n) * 1000000 + int (shown_micros ?a) = t"
    using wall_clock_parts [of ?a] by (simp add: wall_clock_def)
  ultimately show ?thesis
    unfolding shape read_iso_fields [OF small shown_bounds(2)] ints clock(4) using clock(1-3) by simp
qed

section \<open>Round trips\<close>

definition reads_own_texts :: "(string \<Rightarrow> pydatetime option) \<Rightarrow> bool" where
  "reads_own_texts from_iso \<longleftrightarrow>
     (\<forall>t. showable (at_utc t) \<longrightarrow> from_iso (iso_micros (at_utc t)) = Some (Aware (at_utc t)))"

lemma read_iso_reads: "reads_own_texts read_iso"
  by (simp add: reads_own_texts_def read_iso_micros)

lemma py_replace_skips:
  assumes "old \<noteq> []" "hd old \<notin> set s"
  shows "py_replace old new (s @ t) = s @ py_replace old new t"
  using assms by (induction s) (cases old; auto simp: startswith_def)+

lemma digit_char: "is_digit c \<Longrightarrow> c \<noteq> CHR ''+'' \<and> c \<noteq> CHR ''Z''"
  by (auto simp: is_digit_def in_range_def less_eq_char_def)

lemma pad_chars:
  "CHR ''+'' \<notin> set (pad2 n) \<and> CHR ''Z'' \<notin> set (pad2 n)"
  "CHR ''+'' \<notin> set (pad4 n) \<and> CHR ''Z'' \<notin> set (pad4 n)"
  "CHR ''+'' \<notin> set (pad6 n) \<and> CHR ''Z'' \<notin> set (pad6 n)"
proof -
  have two: "CHR ''+'' \<notin> set (pad2 n) \<and> CHR ''Z'' \<notin> set (pad2 n)" for n
    using digit_char [OF digit_digit(2) [of "n div 10 mod 10"]] digit_char [OF digit_digit(2) [of "n mod 10"]]
    by (auto simp: pad2_def)
  then have four: "CHR ''+'' \<notin> set (pad4 n) \<and> CHR ''Z'' \<notin> set (pad4 n)" for n by (simp add: pad4_def)
  show "CHR ''+'' \<notin> set (pad2 n) \<and> CHR ''Z'' \<notin> set (pad2 n)" by (rule two)
  show "CHR ''+'' \<notin> set (pad4 n) \<and> CHR ''Z'' \<notin> set (pad4 n)" by (rule four)
  show "CHR ''+'' \<notin> set (pad6 n) \<and> CHR ''Z'' \<notin> set (pad6 n)" using two four by (simp add: pad6_def)
qed

text \<open>The text of a time in UTC, without its offset.\<close>

definition stamp :: "int \<Rightarrow> string" where
  "stamp t =
     iso_date (civil_of_days (shown_days (at_utc t))) @ ''T'' @
     pad2 (shown_seconds (at_utc t) div 3600) @ '':'' @ pad2 (shown_seconds (at_utc t) div 60 mod 60) @ '':'' @
     pad2 (shown_seconds (at_utc t) mod 60) @ ''.'' @ pad6 (shown_micros (at_utc t))"

lemma iso_micros_stamp: "iso_micros (at_utc t) = stamp t @ ''+00:00''"
  by (simp add: iso_micros_def stamp_def iso_offset_def pad2_def digit_def)

lemma stamp_chars: "CHR ''+'' \<notin> set (stamp t)" "CHR ''Z'' \<notin> set (stamp t)"
  using pad_chars by (auto simp: stamp_def iso_date_def split: prod.split)

lemma length_stamp: "length (stamp t) = 26"
  by (simp add: stamp_def length_iso_date)

lemma format_timestamp_stamp: "format_timestamp a = stamp (utc a) @ ''Z''"
  unfolding format_timestamp_def iso_micros_stamp
  using stamp_chars [of "utc a"] by (simp add: py_replace_skips startswith_def)

lemma parse_format:
  assumes "reads_own_texts from_iso" "showable (at_utc (utc a))"
  shows "parse_timestamp from_iso (format_timestamp a) = Some (at_utc (utc a))"
proof -
  have "py_replace ''Z'' ''+00:00'' (stamp (utc a) @ ''Z'') = iso_micros (at_utc (utc a))"
    using stamp_chars [of "utc a"] by (simp add: iso_micros_stamp py_replace_skips startswith_def)
  then show ?thesis
    using assms by (simp add: parse_timestamp_def format_timestamp_stamp reads_own_texts_def)
qed

lemma stamp_less:
  assumes "showable (at_utc t)" "showable (at_utc u)"
  shows "stamp t < stamp u \<longleftrightarrow> t < u"
proof -
  note days = shown_days_bounds [OF assms(1)] shown_days_bounds [OF assms(2)]
  have "t < u \<longleftrightarrow> wall_clock (at_utc t) < wall_clock (at_utc u)" by (simp add: wall_clock_def)
  then show ?thesis
    unfolding wall_clock_less stamp_def
    by (simp add: append_less length_iso_date iso_date_less [OF days] iso_date_eq [OF days] pad6_less shown_bounds
        clock_less [OF shown_bounds(1) shown_bounds(1), simplified])
qed

text \<open>C32: A lock knows how old it is. What \<open>acquire\<close> writes as the time of a lock has a fixed length, sorts
  as the times do, and is read back as the instant it was written at; the metadata of a lock that was
  constructed properly is read back as it was written, and the lock is stale exactly when its process
  is gone and the time since it was written has reached \<open>stale_after\<close>.\<close>

theorem lock_age_exact:
  assumes "reads_own_texts from_iso" "showable (at_utc (utc a))" "showable (at_utc (utc b))"
    "new_lock k = Some k" "0 < pid" "length token = 32"
  shows "parse_timestamp from_iso (format_timestamp a) = Some (at_utc (utc a)) \<and>
    length (format_timestamp a) = 27 \<and> (format_timestamp a < format_timestamp b \<longleftrightarrow> utc a < utc b) \<and>
    writes_valid (timed_lock from_iso k) pid \<and>
    from_mapping (lk_parse (timed_lock from_iso k))
      (metadata_document (fresh_metadata (timed_lock from_iso k) pid (utc a) token)) =
      Some (fresh_metadata (timed_lock from_iso k) pid (utc a) token) \<and>
    (is_stale (timed_lock from_iso k) now kill (fresh_metadata (timed_lock from_iso k) pid (utc a) token) \<longleftrightarrow>
       lk_stale_after k \<le> now - utc a \<and> \<not> process_is_alive (kill pid))"
proof -
  have read: "parse_timestamp from_iso (format_timestamp (at_utc t)) = Some (at_utc t)" if "showable (at_utc t)" for t
    using parse_format [OF assms(1), of "at_utc t"] that by simp
  have valid: "writes_valid (timed_lock from_iso k) pid"
    using assms(4,5) read
    by (auto simp: writes_valid_def timed_lock_def new_lock_def split: if_splits)
  have "stamp (utc a) @ ''Z'' < stamp (utc b) @ ''Z'' \<longleftrightarrow> utc a < utc b"
    using stamp_less [OF assms(2,3)] by (simp add: append_less length_stamp)
  moreover have "from_mapping (lk_parse (timed_lock from_iso k))
      (metadata_document (fresh_metadata (timed_lock from_iso k) pid (utc a) token)) =
      Some (fresh_metadata (timed_lock from_iso k) pid (utc a) token)"
    by (rule lock_metadata_round_trip [OF valid assms(6,2)])
  moreover have "is_stale (timed_lock from_iso k) now kill (fresh_metadata (timed_lock from_iso k) pid (utc a) token) \<longleftrightarrow>
       lk_stale_after k \<le> now - utc a \<and> \<not> process_is_alive (kill pid)"
    using read [OF assms(2)] by (simp add: is_stale_def timed_lock_def fresh_metadata_def)
  ultimately show ?thesis
    using parse_format [OF assms(1,2)] valid length_stamp [of "utc a"] by (simp add: format_timestamp_stamp)
qed

theorem lock_age_exact_witness:
  "parse_timestamp read_iso (format_timestamp \<lparr>utc = 1709249400000001, offset = 32400\<rparr>) = Some (at_utc 1709249400000001) \<and>
     (\<exists>m. is_stale (timed_lock read_iso (sample_lock 0)) 1709249400000011 (signal {}) m \<and>
        \<not> is_stale (timed_lock read_iso (sample_lock 0)) 1709249400000010 (signal {}) m)"
proof -
  have new: "new_lock (sample_lock 0) = Some (sample_lock 0)" using sample_lock_valid [of 0] by (simp add: writes_valid_def)
  have pid: "0 < (1::nat)" by simp
  have token: "length sample_token = 32" by (simp add: sample_token_def)
  let ?a = "\<lparr>utc = 1709249400000001, offset = 32400\<rparr> :: aware"
  have shown: "showable (at_utc (utc ?a))" by (simp add: showable_def wall_clock_def)
  note exact = lock_age_exact [OF read_iso_reads shown shown new pid token, of _ "signal {}"]
  have "lk_stale_after (sample_lock 0) = 10" by (simp add: sample_lock_def)
  then show ?thesis
    using exact [of 1709249400000011] exact [of 1709249400000010] by (auto simp: signal_def)
qed

end
