(* ===== verification/StoreOpening.thy ===== *)
theory StoreOpening
  imports MigrationProperties Reachability Progress
begin

text \<open>
  \<open>SQLiteStore.__init__\<close> of \<open>storage/sqlite.py\<close>: the checks of the arguments, the connection with its
  settings, the migrations, and the handlers that close the connection when one of these fails. What
  the file system says of the path and what the engine answers are arguments; the file holds the
  schema of \<open>Migrations\<close> and the tables of \<open>Database\<close>.
\<close>

section \<open>Opening\<close>

record database_file =
  df_schema :: schema
  df_tables :: db

text \<open>\<open>busy_timeout_ms\<close>: a Python \<open>bool\<close> is an \<open>int\<close>, and is refused.\<close>

datatype timeout_argument = Truth bool | Whole int

fun busy_timeout :: "timeout_argument \<Rightarrow> value_error + nat" where
  "busy_timeout (Truth _) = Inl InvalidLimit"
| "busy_timeout (Whole n) = (if 1 \<le> n \<and> n \<le> 60000 then Inr (nat n) else Inl InvalidLimit)"

record path_answers =
  pa_name :: string
  pa_parent_is_dir :: bool
  pa_exists :: bool
  pa_is_file :: bool

definition check_path :: "path_answers \<Rightarrow> storage_error + unit" where
  "check_path p =
     (if pa_name p = '':memory:'' then Inl StorageUnavailableError
      else if \<not> pa_parent_is_dir p then Inl StorageUnavailableError
      else if pa_exists p \<and> \<not> pa_is_file p then Inl StorageUnavailableError
      else Inr ())"

text \<open>What the engine answers: to \<open>connect\<close>, to each statement, to the journal pragma, to each migration.\<close>

record engine_answers =
  en_connect :: "sqlite_error option"
  en_statement :: "string \<Rightarrow> sqlite_error option"
  en_journal_mode :: string
  en_accepts :: "ddl \<Rightarrow> bool"

datatype connection = Not_connected | Connected | Disconnected

fun run_statements :: "engine_answers \<Rightarrow> string list \<Rightarrow> py_error + unit" where
  "run_statements en [] = Inr ()"
| "run_statements en (q # qs) =
     (case en_statement en q of Some e \<Rightarrow> Inl (SqliteError e) | None \<Rightarrow> run_statements en qs)"

definition connection_settings :: "nat \<Rightarrow> string list" where
  "connection_settings timeout =
     [''PRAGMA foreign_keys = ON'', ''PRAGMA busy_timeout = '' @ show_nat timeout, ''PRAGMA synchronous = FULL'',
      ''PRAGMA journal_mode = WAL'']"

definition history_statements :: "string list" where
  "history_statements =
     [''CREATE TABLE IF NOT EXISTS schema_migrations'', ''SELECT version, name FROM schema_migrations ORDER BY version'']"

text \<open>The body of the \<open>try\<close> after \<open>connect\<close>.\<close>

definition prepare_connection :: "engine_answers \<Rightarrow> nat \<Rightarrow> (database_file, py_error, unit) act" where
  "prepare_connection en timeout =
     act_bind (act_lift (run_statements en (connection_settings timeout))) (\<lambda>_.
     act_bind (act_require (lower (en_journal_mode en) = ''wal'') (StorageError StorageUnavailableError)) (\<lambda>_.
     act_bind (act_lift (run_statements en history_statements)) (\<lambda>_ f.
       (case apply_migrations (en_accepts en) (df_schema f) of
          (r, sc) \<Rightarrow> (map_error StorageError r, f\<lparr>df_schema := sc\<rparr>)))))"

text \<open>The two \<open>except\<close> clauses.\<close>

fun opening_error :: "py_error \<Rightarrow> py_error" where
  "opening_error (SqliteError e) = StorageError (database_error e)"
| "opening_error err = err"

definition open_database ::
  "engine_answers \<Rightarrow> nat \<Rightarrow> database_file \<Rightarrow> (py_error + store) \<times> connection \<times> database_file" where
  "open_database en timeout f =
     (case en_connect en of
        Some e \<Rightarrow> (Inl (opening_error (SqliteError e)), Not_connected, f)
      | None \<Rightarrow>
          (case prepare_connection en timeout f of
             (Inl e, f') \<Rightarrow> (Inl (opening_error e), Disconnected, f')
           | (Inr _, f') \<Rightarrow> (Inr (open_store (df_tables f')), Connected, f')))"

definition sqlite_store ::
  "path_answers \<Rightarrow> engine_answers \<Rightarrow> timeout_argument \<Rightarrow> database_file \<Rightarrow>
   (py_error + store) \<times> connection \<times> database_file" where
  "sqlite_store p en timeout f =
     (case busy_timeout timeout of
        Inl e \<Rightarrow> (Inl (ValueError e), Not_connected, f)
      | Inr n \<Rightarrow>
          (case check_path p of
             Inl e \<Rightarrow> (Inl (StorageError e), Not_connected, f)
           | Inr _ \<Rightarrow> open_database en n f))"

text \<open>\<open>__enter__\<close> and \<open>__exit__\<close>.\<close>

definition enter_store :: "store \<Rightarrow> py_error + store" where
  "enter_store s = (if st_closed s then Inl (StorageError StorageUnavailableError) else Inr s)"

definition exit_store :: "store \<Rightarrow> store" where
  "exit_store s = close_store s"

section \<open>What opening leaves\<close>

definition settings_accepted :: "engine_answers \<Rightarrow> nat \<Rightarrow> bool" where
  "settings_accepted en timeout \<longleftrightarrow>
     en_connect en = None \<and> (\<forall>q \<in> set (connection_settings timeout @ history_statements). en_statement en q = None) \<and>
     lower (en_journal_mode en) = ''wal''"

lemma run_statements_Ok: "run_statements en qs = Inr u \<longleftrightarrow> (\<forall>q \<in> set qs. en_statement en q = None)"
  by (induction qs) (auto split: option.split)

lemma run_statements_Raise: "run_statements en qs = Inl e \<Longrightarrow> \<exists>x. e = SqliteError x"
  by (induction qs) (auto split: option.splits)

text \<open>The versions that the engine accepts from \<open>k\<close> on.\<close>

definition all_accepted :: "engine_answers \<Rightarrow> nat \<Rightarrow> bool" where
  "all_accepted en k \<longleftrightarrow> (\<forall>j < 4. k \<le> j \<longrightarrow> list_all (en_accepts en) (mg_statements (MIGRATIONS ! j)))"

lemma migrated:
  assumes "k \<le> 4"
  obtains k' where "k \<le> k'" "k' \<le> 4"
    "apply_migrations engine (schema_at k) = (if k' = 4 then Inr () else Inl MigrationError, schema_at k')"
    "k' = 4 \<longleftrightarrow> (\<forall>j < 4. k \<le> j \<longrightarrow> list_all engine (mg_statements (MIGRATIONS ! j)))"
proof -
  obtain k' where k': "k \<le> k'" "k' \<le> 4" "snd (apply_migrations engine (schema_at k)) = schema_at k'"
    "\<forall>j. k \<le> j \<and> j < k' \<longrightarrow> list_all engine (mg_statements (MIGRATIONS ! j))"
    "k' < 4 \<longrightarrow> \<not> list_all engine (mg_statements (MIGRATIONS ! k'))"
    using migrations_stop_at_a_version [OF assms, of engine] by blast
  have "\<exists>k''. apply_migrations engine (schema_at k) = (if k'' = 4 then Inr () else Inl MigrationError, schema_at k'')"
    unfolding apply_migrations_at [OF assms] Let_def by blast
  then obtain k'' where k'': "apply_migrations engine (schema_at k) =
      (if k'' = 4 then Inr () else Inl MigrationError, schema_at k'')" by blast
  have "schema_at k'' = schema_at k'" using k'' k'(3) by simp
  then have "sc_user_version (schema_at k'') = sc_user_version (schema_at k')" by simp
  then have "k'' = k'" by (simp add: schema_at_def)
  moreover have "k' = 4 \<longleftrightarrow> (\<forall>j < 4. k \<le> j \<longrightarrow> list_all engine (mg_statements (MIGRATIONS ! j)))"
    using k'(1,2,4,5) by (metis le_neq_implies_less less_irrefl)
  ultimately show ?thesis using that k'(1,2) k'' by simp
qed

lemma prepared:
  assumes "k \<le> 4" "df_schema f = schema_at k" "en_connect en = None"
  obtains k' r where "k \<le> k'" "k' \<le> 4" "prepare_connection en timeout f = (r, f\<lparr>df_schema := schema_at k'\<rparr>)"
    "r = Inr () \<longleftrightarrow> settings_accepted en timeout \<and> all_accepted en k" "r = Inr () \<Longrightarrow> k' = 4"
    "\<And>e. r = Inl e \<Longrightarrow> (\<exists>x. e = SqliteError x) \<or> (\<exists>x. e = StorageError x)"
proof (cases "settings_accepted en timeout")
  case False
  have same: "f\<lparr>df_schema := schema_at k\<rparr> = f" using assms(2) by (metis database_file.surjective database_file.update_convs(1))
  have "\<exists>e. prepare_connection en timeout f = (Inl e, f) \<and> ((\<exists>x. e = SqliteError x) \<or> (\<exists>x. e = StorageError x))"
  proof (cases "run_statements en (connection_settings timeout)")
    case (Inl e)
    with run_statements_Raise [OF Inl] show ?thesis by (simp add: prepare_connection_def act_defs)
  next
    case settings: (Inr u)
    show ?thesis
    proof (cases "lower (en_journal_mode en) = ''wal''")
      case True
      then have "run_statements en history_statements \<noteq> Inr ()"
        using False settings assms(3) by (auto simp: settings_accepted_def run_statements_Ok)
      then obtain e where "run_statements en history_statements = Inl e" by (cases "run_statements en history_statements") auto
      with run_statements_Raise [OF this] settings True show ?thesis by (simp add: prepare_connection_def act_defs)
    qed (simp add: settings prepare_connection_def act_defs)
  qed
  then show ?thesis using that [of k] assms(1) False same by fastforce
next
  case True
  obtain k' where k': "k \<le> k'" "k' \<le> 4"
    "apply_migrations (en_accepts en) (schema_at k) = (if k' = 4 then Inr () else Inl MigrationError, schema_at k')"
    "k' = 4 \<longleftrightarrow> all_accepted en k"
    using migrated [OF assms(1), of "en_accepts en"] unfolding all_accepted_def by metis
  have "run_statements en (connection_settings timeout) = Inr ()" "run_statements en history_statements = Inr ()"
    "lower (en_journal_mode en) = ''wal''"
    using True by (simp_all add: settings_accepted_def run_statements_Ok)
  then have "prepare_connection en timeout f =
      (map_error StorageError (if k' = 4 then Inr () else Inl MigrationError), f\<lparr>df_schema := schema_at k'\<rparr>)"
    by (simp add: prepare_connection_def act_defs assms(2) k'(3))
  with k' True that [of k'] show ?thesis by (auto split: if_splits)
qed

text \<open>An engine that accepts everything opens the database at every version.\<close>

lemma opened_again:
  assumes ok: "j \<le> 4" "check_path p' = Inr ()" "busy_timeout timeout = Inr n" "settings_accepted en' n" "en_accepts en' = (\<lambda>_. True)"
  shows "\<exists>s. sqlite_store p' en' timeout (f\<lparr>df_schema := schema_at j\<rparr>) = (Inr s, Connected, f\<lparr>df_schema := schema_at 4\<rparr>)"
proof -
  have connect: "en_connect en' = None" using ok(4) by (simp add: settings_accepted_def)
  have "all_accepted en' j" using ok(5) by (simp add: all_accepted_def list_all_iff)
  moreover obtain k'' r where run: "prepare_connection en' n (f\<lparr>df_schema := schema_at j\<rparr>) =
      (r, f\<lparr>df_schema := schema_at j\<rparr>\<lparr>df_schema := schema_at k''\<rparr>)"
    "r = Inr () \<longleftrightarrow> settings_accepted en' n \<and> all_accepted en' j" "r = Inr () \<Longrightarrow> k'' = 4"
    by (rule prepared [OF ok(1) _ connect, of "f\<lparr>df_schema := schema_at j\<rparr>" n]) simp_all
  ultimately have "prepare_connection en' n (f\<lparr>df_schema := schema_at j\<rparr>) = (Inr (), f\<lparr>df_schema := schema_at 4\<rparr>)"
    using ok(4) by simp
  then show ?thesis using ok(2,3) connect by (simp add: sqlite_store_def open_database_def)
qed

lemma not_connected:
  assumes "\<not> (\<exists>n. busy_timeout timeout = Inr n \<and> check_path p = Inr () \<and> en_connect en = None)"
  obtains e where "sqlite_store p en timeout f = (Inl e, Not_connected, f)" "(\<exists>x. e = ValueError x) \<or> (\<exists>x. e = StorageError x)"
    "\<not> ((\<exists>n. busy_timeout timeout = Inr n \<and> settings_accepted en n) \<and> check_path p = Inr ())"
proof -
  have "\<exists>e. sqlite_store p en timeout f = (Inl e, Not_connected, f) \<and> ((\<exists>x. e = ValueError x) \<or> (\<exists>x. e = StorageError x))"
    using assms by (auto simp: sqlite_store_def open_database_def split: sum.split option.split)
  moreover have "\<not> ((\<exists>n. busy_timeout timeout = Inr n \<and> settings_accepted en n) \<and> check_path p = Inr ())"
    using assms by (auto simp: settings_accepted_def)
  ultimately show ?thesis using that by blast
qed

text \<open>C30: Opening the store, on every branch. On a database that earlier starts of the program left behind,
  \<open>SQLiteStore\<close> returns exactly when its arguments are legal, the engine accepts the connection and its
  settings, and every pending version can be applied. Then the connection is open, the schema is the
  latest, the data are what they were, and the store serves (a store that was reachable before is
  reachable again). Otherwise the error is a \<open>ValueError\<close> or a storage error, no connection is left
  open, the data are untouched, the schema stops between two versions, and the next opening that the
  engine accepts succeeds.\<close>

theorem store_opening_exact:
  assumes "k \<le> 4" "df_schema f = schema_at k"
  shows "\<exists>r c k'. sqlite_store p en timeout f = (r, c, f\<lparr>df_schema := schema_at k'\<rparr>) \<and> k \<le> k' \<and> k' \<le> 4 \<and>
    ((\<exists>s. r = Inr s) \<longleftrightarrow> (\<exists>n. busy_timeout timeout = Inr n \<and> settings_accepted en n) \<and> check_path p = Inr () \<and>
       all_accepted en k) \<and>
    (\<forall>s. r = Inr s \<longrightarrow> c = Connected \<and> k' = 4 \<and> serving s \<and> st_db s = df_tables f \<and>
       (\<forall>s0. reachable s0 \<longrightarrow> st_db s0 = df_tables f \<longrightarrow> reachable s)) \<and>
    (\<forall>e. r = Inl e \<longrightarrow> c \<noteq> Connected \<and> ((\<exists>x. e = ValueError x) \<or> (\<exists>x. e = StorageError x)) \<and>
       (\<forall>p' en' n. check_path p' = Inr () \<longrightarrow> busy_timeout timeout = Inr n \<longrightarrow> settings_accepted en' n \<longrightarrow>
          en_accepts en' = (\<lambda>_. True) \<longrightarrow>
          (\<exists>s. sqlite_store p' en' timeout (f\<lparr>df_schema := schema_at k'\<rparr>) =
             (Inr s, Connected, f\<lparr>df_schema := schema_at 4\<rparr>))))"
proof -
  have same: "f\<lparr>df_schema := schema_at k\<rparr> = f" using assms(2) by (metis database_file.surjective database_file.update_convs(1))
  show ?thesis
  proof (cases "\<exists>n. busy_timeout timeout = Inr n \<and> check_path p = Inr () \<and> en_connect en = None")
    case False
    from not_connected [OF this, of f] obtain e where "sqlite_store p en timeout f = (Inl e, Not_connected, f)"
      "(\<exists>x. e = ValueError x) \<or> (\<exists>x. e = StorageError x)"
      "\<not> ((\<exists>n. busy_timeout timeout = Inr n \<and> settings_accepted en n) \<and> check_path p = Inr ())" .
    then show ?thesis using opened_again [of k, where f = f] same assms(1) by (intro exI [of _ "Inl e"] exI [of _ Not_connected] exI [of _ k]) auto
  next
    case True
    then obtain n where n: "busy_timeout timeout = Inr n" "check_path p = Inr ()" "en_connect en = None" by blast
    obtain k' r where run: "k \<le> k'" "k' \<le> 4" "prepare_connection en n f = (r, f\<lparr>df_schema := schema_at k'\<rparr>)"
      "r = Inr () \<longleftrightarrow> settings_accepted en n \<and> all_accepted en k" "r = Inr () \<Longrightarrow> k' = 4"
      "\<And>e. r = Inl e \<Longrightarrow> (\<exists>x. e = SqliteError x) \<or> (\<exists>x. e = StorageError x)"
      using prepared [OF assms n(3), of n] by metis
    show ?thesis
    proof (cases r)
      case (Inl e)
      have "sqlite_store p en timeout f = (Inl (opening_error e), Disconnected, f\<lparr>df_schema := schema_at k'\<rparr>)"
        using n run(3) Inl by (simp add: sqlite_store_def open_database_def)
      moreover have "\<exists>x. opening_error e = StorageError x" using run(6) [OF Inl] by auto
      ultimately show ?thesis using run(1,2,4) Inl n opened_again [of k']
        by (intro exI [of _ "Inl (opening_error e)"] exI [of _ Disconnected] exI [of _ k']) auto
    next
      case (Inr u)
      have "sqlite_store p en timeout f = (Inr (open_store (df_tables f)), Connected, f\<lparr>df_schema := schema_at k'\<rparr>)"
        using n run(3) Inr by (simp add: sqlite_store_def open_database_def)
      moreover have "serving (open_store (df_tables f))" by (simp add: serving_def open_store_def)
      moreover have "reachable (open_store (df_tables f))" if "reachable s0" "st_db s0 = df_tables f" for s0
        using reachable_step [OF that(1) store_step.open_again] that(2) by simp
      ultimately show ?thesis using run(1,2,4,5) Inr n
        by (intro exI [of _ "Inr (open_store (df_tables f))"] exI [of _ Connected] exI [of _ k'])
          (auto simp: open_store_def)
    qed
  qed
qed

definition calm_engine :: engine_answers where
  "calm_engine =
     \<lparr>en_connect = None, en_statement = (\<lambda>_. None), en_journal_mode = ''WAL'', en_accepts = (\<lambda>_. True)\<rparr>"

definition new_path :: path_answers where
  "new_path = \<lparr>pa_name = ''ai-hub.db'', pa_parent_is_dir = True, pa_exists = False, pa_is_file = False\<rparr>"

definition new_file :: database_file where
  "new_file = \<lparr>df_schema = schema_at 0, df_tables = empty_db\<rparr>"

theorem store_opening_exact_witness:
  "\<exists>s f. sqlite_store new_path calm_engine (Whole 5000) new_file = (Inr s, Connected, f) \<and> serving s \<and> reachable s \<and>
     df_schema f = schema_at 4"
proof -
  have small: "(0::nat) \<le> 4" and schema: "df_schema new_file = schema_at 0" by (simp_all add: new_file_def)
  have wal: "lower ''WAL'' = ''wal''" by code_simp
  have ok: "check_path new_path = Inr ()" "busy_timeout (Whole 5000) = Inr 5000" "settings_accepted calm_engine 5000"
    "all_accepted calm_engine 0"
    using wal by (simp_all add: check_path_def new_path_def settings_accepted_def calm_engine_def all_accepted_def list_all_iff)
  have empty: "st_db (open_store empty_db) = df_tables new_file" by (simp add: new_file_def open_store_def)
  from store_opening_exact [OF small schema, of new_path calm_engine "Whole 5000"]
  obtain r c k' where opened: "sqlite_store new_path calm_engine (Whole 5000) new_file = (r, c, new_file\<lparr>df_schema := schema_at k'\<rparr>)"
    "\<exists>s. r = Inr s"
    "\<forall>s. r = Inr s \<longrightarrow> c = Connected \<and> k' = 4 \<and> serving s \<and> st_db s = df_tables new_file \<and>
       (\<forall>s0. reachable s0 \<longrightarrow> st_db s0 = df_tables new_file \<longrightarrow> reachable s)"
    using ok by blast
  then obtain s where s: "r = Inr s" by blast
  with opened have "c = Connected" "k' = 4" "serving s" "reachable s" using reachable_start empty by blast+
  with opened(1) s show ?thesis by simp
qed

end
