(* ===== verification/Shutdown.thy ===== *)
theory Shutdown
  imports Serving
begin

text \<open>
  \<open>HubApplication.serve\<close> of \<open>application/composition.py\<close> as a labelled transition system: the services it
  starts, the wait for the first of them to end, and the \<open>finally\<close> block that stops the others, first
  by asking and then, when the shutdown time is over, by cancelling. A step is what \<open>serve\<close> does without
  giving way, or the end of one service. A \<open>TimeoutError\<close> of \<open>slack.stop\<close> is caught like that of \<open>wait_for\<close>
  (\<open>Shutdown_timeout\<close>). \<open>gather\<close> and \<open>wait_for\<close> hand a cancellation of \<open>serve\<close> on
  to what they wait for.
\<close>

section \<open>The states of serve\<close>

datatype service_state = Absent | Live | Over service_end

datatype serve_cause = Caused_by serve_failure | Slack_stop_raised | Serve_cancelled

datatype serve_point =
    Supervising
  | Stopping_slack
  | Joining
  | Cancelling
  | Serve_returned
  | Serve_raised serve_cause

record supervision =
  su_at :: serve_point
  su_state :: "service \<Rightarrow> service_state"
  su_asked :: "service set"
  su_stop :: bool
  su_exit :: bool
  su_error :: "serve_cause option"

definition live :: "supervision \<Rightarrow> service set" where
  "live u = {sv. su_state u sv = Live}"

text \<open>After \<open>initialize\<close>: the tasks are created.\<close>

definition start_services :: "bool \<Rightarrow> supervision" where
  "start_services slack =
     \<lparr>su_at = Supervising,
      su_state = (\<lambda>sv. if sv = Slack_socket \<and> \<not> slack then Absent else Live),
      su_asked = {}, su_stop = False, su_exit = False, su_error = None\<rparr>"

text \<open>The loop over the tasks that \<open>asyncio.wait\<close> found done, in any order.\<close>

definition ended_services :: "supervision \<Rightarrow> (service \<times> service_end) list \<Rightarrow> bool" where
  "ended_services u ended \<longleftrightarrow> distinct ended \<and> set ended = {(sv, e). su_state u sv = Over e}"

text \<open>Entering the \<open>finally\<close> block.\<close>

definition begin_shutdown :: "serve_cause option \<Rightarrow> supervision \<Rightarrow> supervision" where
  "begin_shutdown cause u =
     u\<lparr>su_error := cause, su_stop := True, su_exit := True,
       su_at := (if su_state u Slack_socket = Absent then Joining else Stopping_slack)\<rparr>"

text \<open>\<open>slack.stop()\<close> returned: the Slack task is cancelled unless it is done.\<close>

definition after_slack_stop :: "supervision \<Rightarrow> supervision" where
  "after_slack_stop u =
     u\<lparr>su_asked := su_asked u \<union> (live u \<inter> {Slack_socket}), su_at := Joining\<rparr>"

definition cancel_services :: "supervision \<Rightarrow> supervision" where
  "cancel_services u = u\<lparr>su_asked := su_asked u \<union> live u, su_at := Cancelling\<rparr>"

fun leave_serve :: "serve_cause option \<Rightarrow> serve_point" where
  "leave_serve None = Serve_returned"
| "leave_serve (Some c) = Serve_raised c"

datatype serve_event =
    Service_ended service service_end
  | First_ended "(service \<times> service_end) list"
  | Slack_stopped
  | Slack_stop_failed
  | Shutdown_timeout
  | All_joined
  | Cancel_serve

inductive serve_step :: "supervision \<Rightarrow> serve_event \<Rightarrow> supervision \<Rightarrow> bool" where
  Service_ended: "su_state u sv = Live \<Longrightarrow> e = Service_cancelled \<longrightarrow> sv \<in> su_asked u \<Longrightarrow>
    serve_step u (Service_ended sv e) (u\<lparr>su_state := (su_state u)(sv := Over e)\<rparr>)"
| First_ended: "su_at u = Supervising \<Longrightarrow> ended_services u ended \<Longrightarrow> ended \<noteq> [] \<Longrightarrow>
    serve_step u (First_ended ended) (begin_shutdown (map_option Caused_by (serve_error ended)) u)"
| Cancel_supervising: "su_at u = Supervising \<Longrightarrow>
    serve_step u Cancel_serve (begin_shutdown (Some Serve_cancelled) u)"
| Slack_stopped: "su_at u = Stopping_slack \<Longrightarrow> serve_step u Slack_stopped (after_slack_stop u)"
| Slack_stop_failed: "su_at u = Stopping_slack \<Longrightarrow>
    serve_step u Slack_stop_failed (u\<lparr>su_at := Serve_raised Slack_stop_raised\<rparr>)"
| Cancel_stopping: "su_at u = Stopping_slack \<Longrightarrow>
    serve_step u Cancel_serve (u\<lparr>su_at := Serve_raised Serve_cancelled\<rparr>)"
| Shutdown_timeout: "su_at u \<in> {Stopping_slack, Joining} \<Longrightarrow>
    serve_step u Shutdown_timeout (cancel_services u)"
| All_joined: "su_at u \<in> {Joining, Cancelling} \<Longrightarrow> live u = {} \<Longrightarrow>
    serve_step u All_joined (u\<lparr>su_at := leave_serve (su_error u)\<rparr>)"
| Cancel_joining: "su_at u \<in> {Joining, Cancelling} \<Longrightarrow> live u \<noteq> {} \<Longrightarrow>
    serve_step u Cancel_serve (cancel_services (u\<lparr>su_error := Some Serve_cancelled\<rparr>))"

inductive serve_run :: "supervision \<Rightarrow> serve_event list \<Rightarrow> supervision \<Rightarrow> bool" where
  serve_run_Nil: "serve_run u [] u"
| serve_run_Cons: "serve_step u e v \<Longrightarrow> serve_run v es w \<Longrightarrow> serve_run u (e # es) w"

inductive_cases serve_run_ConsE: "serve_run u (e # es) w"

lemma serve_run_snoc:
  assumes "serve_run u es v" "serve_step v e w"
  shows "serve_run u (es @ [e]) w"
  using assms by (induction rule: serve_run.induct) (auto intro: serve_run.intros)

fun serve_over :: "serve_point \<Rightarrow> bool" where
  "serve_over Serve_returned = True"
| "serve_over (Serve_raised _) = True"
| "serve_over _ = False"

section \<open>The invariant\<close>

text \<open>\<open>cause_ok\<close>: how \<open>serve\<close> will end was decided by a service, by the cancellation of \<open>serve\<close>, or not at all.\<close>

fun cause_ok :: "supervision \<Rightarrow> serve_cause option \<Rightarrow> bool" where
  "cause_ok u None \<longleftrightarrow> (\<exists>e. su_state u Http_server = Over e)"
| "cause_ok u (Some (Caused_by (Service_failed sv))) \<longleftrightarrow> su_state u sv = Over Service_raised"
| "cause_ok u (Some (Caused_by Stopped_unexpectedly)) \<longleftrightarrow> (\<exists>sv e. sv \<noteq> Http_server \<and> su_state u sv = Over e)"
| "cause_ok u (Some c) \<longleftrightarrow> c = Serve_cancelled"

definition serve_ok :: "supervision \<Rightarrow> bool" where
  "serve_ok u \<longleftrightarrow> su_state u Http_server \<noteq> Absent \<and>
     (case su_at u of
        Supervising \<Rightarrow> \<not> su_stop u \<and> \<not> su_exit u \<and> su_asked u = {}
      | Stopping_slack \<Rightarrow> su_stop u \<and> su_exit u \<and> cause_ok u (su_error u)
      | Joining \<Rightarrow> su_stop u \<and> su_exit u \<and> cause_ok u (su_error u) \<and> live u \<inter> {Slack_socket} \<subseteq> su_asked u
      | Cancelling \<Rightarrow> su_stop u \<and> su_exit u \<and> cause_ok u (su_error u) \<and> live u \<subseteq> su_asked u
      | Serve_returned \<Rightarrow> su_stop u \<and> su_exit u \<and> cause_ok u None \<and> live u = {}
      | Serve_raised c \<Rightarrow> su_stop u \<and> su_exit u \<and>
          (c = Slack_stop_raised \<or> c = Serve_cancelled \<or> cause_ok u (Some c) \<and> live u = {}))"

lemma serve_ok_start: "serve_ok (start_services slack)"
  by (simp add: serve_ok_def start_services_def)

lemma serve_error_cause:
  assumes "ended_services u ended" "ended \<noteq> []"
  shows "cause_ok u (map_option Caused_by (serve_error ended))"
proof -
  have some: "first_failure es = Some sv \<Longrightarrow> (sv, Service_raised) \<in> set es" for es sv
    by (induction es rule: first_failure.induct) (auto split: if_splits)
  have state: "(sv, e) \<in> set ended \<longleftrightarrow> su_state u sv = Over e" for sv e
    using assms(1) by (auto simp: ended_services_def)
  obtain sv e where "(sv, e) \<in> set ended" using assms(2) by (cases ended) auto
  then have "su_state u sv = Over e" "sv \<in> fst ` set ended" using state by force+
  then have "Http_server \<notin> fst ` set ended \<Longrightarrow> \<exists>sv e. sv \<noteq> Http_server \<and> su_state u sv = Over e" by metis
  then show ?thesis
    using some [of ended] state by (auto simp: serve_error_def split: option.split)
qed

lemma cause_ok_mono:
  assumes "cause_ok u c" "\<And>sv e. su_state u sv = Over e \<Longrightarrow> su_state v sv = Over e"
  shows "cause_ok v c"
  using assms by (cases "(u, c)" rule: cause_ok.cases) auto

lemma serve_step_ok:
  assumes "serve_step u e v" "serve_ok u"
  shows "serve_ok v"
  using assms
proof (induction rule: serve_step.induct)
  case (Service_ended u sv e)
  let ?v = "u\<lparr>su_state := (su_state u)(sv := Over e)\<rparr>"
  have keep: "cause_ok u c \<Longrightarrow> cause_ok ?v c" for c
    by (rule cause_ok_mono) (use Service_ended in auto)
  have "live ?v = live u - {sv}" by (auto simp: live_def)
  then show ?case
    using Service_ended keep by (auto simp: serve_ok_def split: serve_point.splits)
next
  case (First_ended u ended)
  have "cause_ok (begin_shutdown c u) c'" if "cause_ok u c'" for c c'
    using that by (rule cause_ok_mono) (simp add: begin_shutdown_def)
  with First_ended serve_error_cause [OF First_ended(2,3)] show ?case
    by (auto simp: serve_ok_def begin_shutdown_def live_def)
next
  case (Slack_stopped u)
  have "cause_ok (after_slack_stop u) c" if "cause_ok u c" for c
    using that by (rule cause_ok_mono) (simp add: after_slack_stop_def)
  with Slack_stopped show ?case by (auto simp: serve_ok_def after_slack_stop_def live_def)
next
  case (Shutdown_timeout u)
  have "cause_ok (cancel_services u) c" if "cause_ok u c" for c
    using that by (rule cause_ok_mono) (simp add: cancel_services_def)
  with Shutdown_timeout show ?case by (auto simp: serve_ok_def cancel_services_def live_def)
next
  case (All_joined u)
  have "cause_ok (u\<lparr>su_at := p\<rparr>) c" if "cause_ok u c" for c p using that by (rule cause_ok_mono) simp
  with All_joined show ?case
    by (cases "su_error u") (auto simp: serve_ok_def live_def split: serve_cause.splits)
qed (auto simp: serve_ok_def begin_shutdown_def cancel_services_def live_def)

lemma serve_run_ok: "serve_run u es v \<Longrightarrow> serve_ok u \<Longrightarrow> serve_ok v"
  by (induction rule: serve_run.induct) (auto intro: serve_step_ok)

section \<open>Termination\<close>

fun stage :: "serve_point \<Rightarrow> nat" where
  "stage Supervising = 4"
| "stage Stopping_slack = 3"
| "stage Joining = 2"
| "stage Cancelling = 1"
| "stage _ = 0"

definition steps_left :: "supervision \<Rightarrow> nat" where
  "steps_left u = stage (su_at u) + card (live u)"

lemma finite_services [simp]: "finite (A :: service set)"
proof (rule finite_subset)
  show "A \<subseteq> {Http_server, Orchestrator_loop, Slack_socket}" using service.exhaust by blast
qed simp

lemma serve_step_decreases:
  assumes "serve_step u e v" "e \<noteq> Cancel_serve"
  shows "steps_left v < steps_left u"
  using assms
proof (induction rule: serve_step.induct)
  case (Service_ended u sv e)
  have "live (u\<lparr>su_state := (su_state u)(sv := Over e)\<rparr>) = live u - {sv}" "sv \<in> live u"
    using Service_ended by (auto simp: live_def)
  then show ?case using card_Diff1_less [of "live u" sv] by (simp add: steps_left_def)
next
  case (All_joined u)
  then show ?case by (cases "su_error u") (auto simp: steps_left_def live_def)
qed (auto simp: steps_left_def begin_shutdown_def after_slack_stop_def cancel_services_def live_def)

lemma steps_left_bounds: "length es + steps_left v \<le> steps_left u"
  if "serve_run u es v" "Cancel_serve \<notin> set es"
  using that
proof (induction rule: serve_run.induct)
  case (serve_run_Cons u e v es w)
  with serve_step_decreases [of u e v] show ?case by auto
qed simp

lemma steps_left_start: "steps_left (start_services slack) \<le> 7"
proof -
  have "card (live (start_services slack)) \<le> card {Http_server, Orchestrator_loop, Slack_socket}"
    using service.exhaust by (intro card_mono) auto
  then show ?thesis by (simp add: steps_left_def start_services_def)
qed

text \<open>Something can always happen, and it need not be a cancellation of \<open>serve\<close> or a failure of Slack.\<close>

lemma serve_not_stuck:
  assumes "serve_ok u" "\<not> serve_over (su_at u)"
  shows "\<exists>e v. serve_step u e v \<and> e \<noteq> Cancel_serve \<and> e \<noteq> Slack_stop_failed \<and> e \<noteq> Shutdown_timeout"
proof (cases "su_at u")
  case Supervising
  show ?thesis
  proof (cases "live u = {}")
    case True
    have "finite {(sv, e). su_state u sv = Over e}"
      by (rule finite_subset [of _ "(\<lambda>sv. (sv, the_inv Over (su_state u sv))) ` UNIV"])
        (force simp: image_iff the_inv_f_f inj_def, simp)
    then obtain ended where "set ended = {(sv, e). su_state u sv = Over e}" "distinct ended"
      using finite_distinct_list by blast
    then have "ended_services u ended" "ended \<noteq> []"
      using assms(1) True by (auto simp: ended_services_def serve_ok_def live_def) (metis service_state.exhaust)
    with Supervising serve_step.First_ended show ?thesis by blast
  next
    case False
    then obtain sv where "su_state u sv = Live" by (auto simp: live_def)
    with serve_step.Service_ended [of u sv Service_returned] show ?thesis by auto
  qed
next
  case Stopping_slack
  with serve_step.Slack_stopped show ?thesis by blast
next
  case Joining
  show ?thesis
  proof (cases "live u = {}")
    case False
    then obtain sv where "su_state u sv = Live" by (auto simp: live_def)
    with serve_step.Service_ended [of u sv Service_returned] show ?thesis by auto
  qed (use Joining serve_step.All_joined in blast)
next
  case Cancelling
  show ?thesis
  proof (cases "live u = {}")
    case False
    then obtain sv where "su_state u sv = Live" by (auto simp: live_def)
    with serve_step.Service_ended [of u sv Service_returned] show ?thesis by auto
  qed (use Cancelling serve_step.All_joined in blast)
qed (use assms(2) in auto)

section \<open>Properties\<close>


definition plain_stop :: "serve_event list" where
  "plain_stop =
     [Service_ended Http_server Service_returned, First_ended [(Http_server, Service_returned)],
      Service_ended Orchestrator_loop Service_returned, All_joined]"

lemma plain_stop_run:
  "\<exists>u. serve_run (start_services False) plain_stop u \<and> su_at u = Serve_returned"
proof -
  let ?u0 = "start_services False"
  let ?u1 = "?u0\<lparr>su_state := (su_state ?u0)(Http_server := Over Service_returned)\<rparr>"
  let ?u2 = "begin_shutdown (map_option Caused_by (serve_error [(Http_server, Service_returned)])) ?u1"
  let ?u3 = "?u2\<lparr>su_state := (su_state ?u2)(Orchestrator_loop := Over Service_returned)\<rparr>"
  let ?u4 = "?u3\<lparr>su_at := leave_serve (su_error ?u3)\<rparr>"
  have "serve_step ?u0 (Service_ended Http_server Service_returned) ?u1"
    by (rule serve_step.Service_ended) (simp_all add: start_services_def)
  moreover have "ended_services ?u1 [(Http_server, Service_returned)]"
    by (auto simp: ended_services_def start_services_def split: if_splits)
  then have "serve_step ?u1 (First_ended [(Http_server, Service_returned)]) ?u2"
    by (intro serve_step.First_ended) (simp_all add: start_services_def)
  moreover have "serve_step ?u2 (Service_ended Orchestrator_loop Service_returned) ?u3"
    by (rule serve_step.Service_ended) (simp_all add: begin_shutdown_def start_services_def)
  moreover have "live ?u3 = {}" by (auto simp: live_def begin_shutdown_def start_services_def) (metis service.exhaust)
  then have "serve_step ?u3 All_joined ?u4"
    by (intro serve_step.All_joined) (simp_all add: begin_shutdown_def start_services_def)
  ultimately have "serve_run ?u0 plain_stop ?u4" unfolding plain_stop_def by (meson serve_run.intros)
  moreover have "su_at ?u4 = Serve_returned" by (simp add: begin_shutdown_def serve_error_def)
  ultimately show ?thesis by blast
qed


text \<open>C26: When \<open>serve\<close> has ended the stop event is set and the HTTP server was told to exit; and unless the
  stop of Slack raised or \<open>serve\<close> was cancelled, every service has ended. It returns only if the HTTP
  server was among the services that ended, and the exception of a service that it raises is one that
  this service ended with. Without that proviso the services are abandoned: when the stop of Slack
  raises, \<open>serve\<close> ends while the server and the orchestrator run, and nobody asked them to cancel.\<close>

theorem serve_ends_services:
  assumes "serve_run (start_services slack) es u" "serve_over (su_at u)"
  shows "su_stop u \<and> su_exit u \<and>
    (su_at u \<notin> {Serve_raised Slack_stop_raised, Serve_raised Serve_cancelled} \<longrightarrow>
       (\<forall>sv. su_state u sv = Absent \<or> (\<exists>e. su_state u sv = Over e))) \<and>
    (su_at u = Serve_returned \<longrightarrow> (\<exists>e. su_state u Http_server = Over e)) \<and>
    (\<forall>sv. su_at u = Serve_raised (Caused_by (Service_failed sv)) \<longrightarrow> su_state u sv = Over Service_raised) \<and>
    (\<exists>es' v. serve_run (start_services True) es' v \<and> su_at v = Serve_raised Slack_stop_raised \<and>
       {Http_server, Orchestrator_loop} \<subseteq> live v \<and> su_asked v = {})"
proof -
  have ok: "serve_ok u" by (rule serve_run_ok [OF assms(1) serve_ok_start])
  have ended: "su_state u sv = Absent \<or> (\<exists>e. su_state u sv = Over e)" if "live u = {}" for sv
    using that by (cases "su_state u sv") (auto simp: live_def)
  let ?u0 = "start_services True"
  let ?u1 = "?u0\<lparr>su_state := (su_state ?u0)(Slack_socket := Over Service_raised)\<rparr>"
  let ?ended = "[(Slack_socket, Service_raised)]"
  let ?u2 = "begin_shutdown (map_option Caused_by (serve_error ?ended)) ?u1"
  let ?u3 = "?u2\<lparr>su_at := Serve_raised Slack_stop_raised\<rparr>"
  have "serve_step ?u0 (Service_ended Slack_socket Service_raised) ?u1"
    by (rule serve_step.Service_ended) (simp_all add: start_services_def)
  moreover have "ended_services ?u1 ?ended" by (auto simp: ended_services_def start_services_def split: if_splits)
  then have "serve_step ?u1 (First_ended ?ended) ?u2"
    by (intro serve_step.First_ended) (simp_all add: start_services_def)
  moreover have "serve_step ?u2 Slack_stop_failed ?u3"
    by (rule serve_step.Slack_stop_failed) (simp add: begin_shutdown_def)
  ultimately have "serve_run ?u0 [Service_ended Slack_socket Service_raised, First_ended ?ended, Slack_stop_failed] ?u3"
    by (meson serve_run.intros)
  moreover have "{Http_server, Orchestrator_loop} \<subseteq> live ?u3" "su_asked ?u3 = {}"
    by (auto simp: live_def begin_shutdown_def start_services_def)
  ultimately have abandoned: "\<exists>es' v. serve_run (start_services True) es' v \<and> su_at v = Serve_raised Slack_stop_raised \<and>
       {Http_server, Orchestrator_loop} \<subseteq> live v \<and> su_asked v = {}"
    by (intro exI conjI) (assumption, simp_all)
  show ?thesis
    using ok assms(2) abandoned ended by (cases "su_at u") (auto simp: serve_ok_def)
qed

theorem serve_ends_services_witness:
  "\<exists>u. serve_run (start_services False) plain_stop u \<and> (\<exists>e. su_state u Orchestrator_loop = Over e)"
proof -
  obtain u where u: "serve_run (start_services False) plain_stop u" "su_at u = Serve_returned"
    using plain_stop_run by blast
  moreover have "su_state u Orchestrator_loop \<noteq> Absent"
  proof -
    have "su_state v Orchestrator_loop \<noteq> Absent" if "serve_run w es v" "su_state w Orchestrator_loop \<noteq> Absent" for w es v
      using that
    proof (induction rule: serve_run.induct)
      case (serve_run_Cons u e v es w)
      then show ?case by (cases rule: serve_step.cases)
        (auto simp: begin_shutdown_def after_slack_stop_def cancel_services_def)
    qed
    from this [OF u(1)] show ?thesis by (simp add: start_services_def)
  qed
  ultimately show ?thesis using serve_ends_services [OF u(1)] by auto
qed

end
