(* ===== verification/SlackLifecycle.thy ===== *)
theory SlackLifecycle
  imports SlackService
begin

text \<open>
  The life of \<open>SlackSocketModeService\<close> in \<open>integrations/slack.py\<close>: \<open>build\<close>, the listener, the background
  tasks with their done callback, \<open>stop\<close> and \<open>drain\<close>, as a labelled transition system. A background
  task is the number of the event it processes (\<open>process_event\<close> of \<open>Slack\<close>); it ends with the outcome of
  that, or with a cancellation. Slack Bolt is a library: it calls the listener whenever it likes, also
  while the service stops, and answers \<open>close_async\<close> or raises.
\<close>

section \<open>The state of the service\<close>

datatype task_ending = Ended_with "event_error + delivery_outcome" | Ended_cancelled

datatype stop_point = Not_stopping | Closing | Awaiting "nat set" | Stop_done | Stop_raised

datatype drain_point = Not_draining | Draining "nat set" | Drained

text \<open>\<open>sk_over\<close> lists the tasks that are done; no operation reads it.\<close>

record slack_app =
  sk_given :: bool
  sk_built :: bool
  sk_listeners :: nat
  sk_events :: "(json_object \<times> json_object) list"
  sk_background :: "nat set"
  sk_asked :: "nat set"
  sk_reported :: "(nat \<times> event_error) list"
  sk_over :: "(nat \<times> task_ending) list"
  sk_stop :: stop_point
  sk_drain :: drain_point

text \<open>The constructor; \<open>given\<close> says whether a delivery was passed to it.\<close>

definition new_slack :: "bool \<Rightarrow> slack_app" where
  "new_slack given =
     \<lparr>sk_given = given, sk_built = False, sk_listeners = 0, sk_events = [], sk_background = {}, sk_asked = {},
      sk_reported = [], sk_over = [], sk_stop = Not_stopping, sk_drain = Not_draining\<rparr>"

definition build :: "slack_app \<Rightarrow> slack_app" where
  "build s = (if sk_built s then s else s\<lparr>sk_built := True, sk_listeners := sk_listeners s + 1\<rparr>)"

text \<open>The property \<open>delivery\<close>: \<open>None\<close> is the \<open>RuntimeError\<close> of a service that was not built; the result says
  whether it is the delivery that was passed.\<close>

definition delivery_of :: "slack_app \<Rightarrow> bool option" where
  "delivery_of s = (if sk_given s then Some True else if sk_built s then Some False else None)"

definition background_task_count :: "slack_app \<Rightarrow> nat" where
  "background_task_count s = card (sk_background s)"

text \<open>The listener of \<open>build\<close>, which calls \<open>accept_event\<close>.\<close>

definition handle_app_mention :: "json_object \<Rightarrow> json_object \<Rightarrow> slack_app \<Rightarrow> slack_app" where
  "handle_app_mention body event s =
     (if from_bot event then s
      else s\<lparr>sk_events := sk_events s @ [(body, event)],
             sk_background := insert (length (sk_events s)) (sk_background s)\<rparr>)"

text \<open>A task is done: \<open>_finish_background_task\<close>.\<close>

definition finish_background_task :: "nat \<Rightarrow> task_ending \<Rightarrow> slack_app \<Rightarrow> slack_app" where
  "finish_background_task n e s0 =
     (let s = s0\<lparr>sk_background := sk_background s0 - {n}, sk_over := sk_over s0 @ [(n, e)]\<rparr>
      in case e of
           Ended_cancelled \<Rightarrow> s
         | Ended_with (Inl err) \<Rightarrow> s\<lparr>sk_reported := sk_reported s @ [(n, err)]\<rparr>
         | Ended_with (Inr _) \<Rightarrow> s)"

text \<open>\<open>stop\<close> up to the closing of the handler, and after it.\<close>

definition cancel_background :: "slack_app \<Rightarrow> slack_app" where
  "cancel_background s =
     s\<lparr>sk_asked := sk_asked s \<union> sk_background s,
       sk_stop := (if sk_background s = {} then Stop_done else Awaiting (sk_background s))\<rparr>"

definition begin_stop :: "slack_app \<Rightarrow> slack_app" where
  "begin_stop s = (if sk_built s then s\<lparr>sk_stop := Closing\<rparr> else cancel_background s)"

text \<open>The head of the loop of \<open>drain\<close>.\<close>

definition drain_round :: "slack_app \<Rightarrow> slack_app" where
  "drain_round s = s\<lparr>sk_drain := (if sk_background s = {} then Drained else Draining (sk_background s))\<rparr>"

datatype slack_event =
    Built
  | Mentioned json_object json_object
  | Task_over nat task_ending
  | Stop_called
  | Closed bool
  | Stop_joined
  | Drain_called
  | Drain_joined

inductive slack_step :: "slack_app \<Rightarrow> slack_event \<Rightarrow> slack_app \<Rightarrow> bool" where
  Built: "slack_step s Built (build s)"
| Mentioned: "sk_built s \<Longrightarrow> slack_step s (Mentioned body event) (handle_app_mention body event s)"
| Task_over: "n \<in> sk_background s \<Longrightarrow> e = Ended_cancelled \<longrightarrow> n \<in> sk_asked s \<Longrightarrow>
    slack_step s (Task_over n e) (finish_background_task n e s)"
| Stop_called: "sk_stop s = Not_stopping \<Longrightarrow> slack_step s Stop_called (begin_stop s)"
| Closed: "sk_stop s = Closing \<Longrightarrow>
    slack_step s (Closed ok) (if ok then cancel_background s else s\<lparr>sk_stop := Stop_raised\<rparr>)"
| Stop_joined: "sk_stop s = Awaiting tasks \<Longrightarrow> tasks \<inter> sk_background s = {} \<Longrightarrow>
    slack_step s Stop_joined (s\<lparr>sk_stop := Stop_done\<rparr>)"
| Drain_called: "sk_drain s = Not_draining \<Longrightarrow> slack_step s Drain_called (drain_round s)"
| Drain_joined: "sk_drain s = Draining tasks \<Longrightarrow> tasks \<inter> sk_background s = {} \<Longrightarrow>
    slack_step s Drain_joined (drain_round s)"

inductive slack_run :: "slack_app \<Rightarrow> slack_event list \<Rightarrow> slack_app \<Rightarrow> bool" where
  slack_run_Nil: "slack_run s [] s"
| slack_run_snoc: "slack_run s es t \<Longrightarrow> slack_step t e u \<Longrightarrow> slack_run s (es @ [e]) u"

lemmas slack_op_defs = build_def handle_app_mention_def finish_background_task_def begin_stop_def cancel_background_def
  drain_round_def Let_def

section \<open>The invariant\<close>

text \<open>The errors among the endings, in order.\<close>

fun errors_of :: "(nat \<times> task_ending) list \<Rightarrow> (nat \<times> event_error) list" where
  "errors_of [] = []"
| "errors_of ((n, Ended_with (Inl e)) # over) = (n, e) # errors_of over"
| "errors_of ((n, _) # over) = errors_of over"

lemma errors_of_append: "errors_of (xs @ ys) = errors_of xs @ errors_of ys"
  by (induction xs rule: errors_of.induct) auto

definition slack_ok :: "slack_app \<Rightarrow> bool" where
  "slack_ok s \<longleftrightarrow>
     sk_listeners s = (if sk_built s then 1 else 0) \<and>
     sk_background s = {..< length (sk_events s)} - fst ` set (sk_over s) \<and>
     distinct (map fst (sk_over s)) \<and> fst ` set (sk_over s) \<subseteq> {..< length (sk_events s)} \<and>
     sk_reported s = errors_of (sk_over s) \<and>
     list_all (\<lambda>(body, event). \<not> from_bot event) (sk_events s) \<and>
     (\<forall>tasks. sk_stop s = Awaiting tasks \<longrightarrow> tasks \<subseteq> sk_asked s)"

lemma slack_ok_new: "slack_ok (new_slack given)"
  by (simp add: slack_ok_def new_slack_def)

lemma slack_ok_step: "slack_step s e t \<Longrightarrow> slack_ok s \<Longrightarrow> slack_ok t"
proof (induction rule: slack_step.induct)
  case (Task_over n s e)
  have "errors_of (sk_over s @ [(n, e)]) =
      errors_of (sk_over s) @ (case e of Ended_with (Inl err) \<Rightarrow> [(n, err)] | _ \<Rightarrow> [])"
    by (auto simp: errors_of_append split: task_ending.split sum.split)
  with Task_over show ?case
    by (auto simp: slack_ok_def finish_background_task_def Let_def split: task_ending.split sum.split)
next
  case (Mentioned s body event)
  then show ?case by (auto simp: slack_ok_def handle_app_mention_def less_Suc_eq)
qed (auto simp: slack_ok_def build_def begin_stop_def cancel_background_def drain_round_def)

lemma slack_ok_run: "slack_run s es t \<Longrightarrow> slack_ok s \<Longrightarrow> slack_ok t"
  by (induction rule: slack_run.induct) (auto intro: slack_ok_step)

text \<open>What a stop has ended: the tasks that were there when the handler had closed.\<close>

lemma tasks_stay_over:
  "slack_run s es t \<Longrightarrow> slack_ok s \<Longrightarrow> n < length (sk_events s) \<Longrightarrow> n \<notin> sk_background s \<Longrightarrow> n \<notin> sk_background t"
proof (induction rule: slack_run.induct)
  case (slack_run_snoc s es t e u)
  have grows: "length (sk_events v) \<le> length (sk_events w)" if "slack_step v e' w" for v e' w
    using that by (cases rule: slack_step.cases)
      (auto simp: slack_op_defs split: task_ending.split sum.split)
  have "length (sk_events s) \<le> length (sk_events t)"
    using slack_run_snoc(1) by (induction rule: slack_run.induct) (auto dest: grows)
  with slack_run_snoc show ?case
    by (cases rule: slack_step.cases [OF slack_run_snoc(2)])
      (auto simp: slack_op_defs split: task_ending.splits sum.splits if_splits)
qed simp

text \<open>\<open>stop_covers k\<close>: the stop has passed the closing of the handler, when \<open>k\<close> events had been accepted.\<close>

definition stop_covers :: "nat \<Rightarrow> slack_app \<Rightarrow> bool" where
  "stop_covers k s \<longleftrightarrow> k \<le> length (sk_events s) \<and>
     (case sk_stop s of
        Awaiting tasks \<Rightarrow> sk_background s \<inter> {..<k} \<subseteq> tasks
      | Stop_done \<Rightarrow> sk_background s \<inter> {..<k} = {}
      | _ \<Rightarrow> False)"

lemma stop_covers_step:
  assumes "slack_step s e t" "slack_ok s" "stop_covers k s"
  shows "stop_covers k t"
  using assms
  by (cases rule: slack_step.cases)
    (auto simp: stop_covers_def slack_op_defs split: stop_point.splits task_ending.splits sum.splits if_splits)

lemma stop_covers_run:
  "slack_run s es t \<Longrightarrow> slack_ok s \<Longrightarrow> stop_covers k s \<Longrightarrow> stop_covers k t"
  by (induction rule: slack_run.induct) (auto intro: stop_covers_step slack_ok_run)

lemma cancel_background_covers: "stop_covers (length (sk_events s)) (cancel_background s)"
  by (simp add: stop_covers_def cancel_background_def)

lemma errors_of_first: "fst ` set (errors_of over) \<subseteq> fst ` set over"
  by (induction over rule: errors_of.induct) auto

lemma errors_of_distinct: "distinct (map fst over) \<Longrightarrow> distinct (map fst (errors_of over))"
  by (induction over rule: errors_of.induct) (use errors_of_first in auto)

lemma stays_built: "slack_run a es b \<Longrightarrow> sk_built a \<Longrightarrow> sk_built b"
proof (induction rule: slack_run.induct)
  case (slack_run_snoc a es b e c)
  then show ?case by (cases rule: slack_step.cases [OF slack_run_snoc(2)])
    (auto simp: slack_op_defs split: task_ending.splits sum.splits if_splits)
qed simp

lemma built_when_closing:
  "slack_run a es b \<Longrightarrow> sk_stop a = Not_stopping \<Longrightarrow> sk_stop b = Closing \<longrightarrow> sk_built b"
proof (induction rule: slack_run.induct)
  case (slack_run_snoc a es b e c)
  then show ?case by (cases rule: slack_step.cases [OF slack_run_snoc(2)])
    (auto simp: slack_op_defs split: task_ending.splits sum.splits if_splits)
qed simp

section \<open>Properties\<close>

text \<open>C28: Stopping Slack leaves no task behind. Whatever Bolt, the events and the tasks do before, meanwhile
  and after, when \<open>stop\<close> has returned every task that was there when the connection had closed is done,
  so nothing is left unless an event was accepted after that; while \<open>stop\<close> waits it waits for tasks it
  has cancelled. \<open>drain\<close> returns only when no task is left. The listener is registered once however
  often \<open>build\<close> is called, the messages of bots are never processed, and each error of a task is
  reported once, results and cancellations never.\<close>

theorem slack_stop_leaves_nothing:
  assumes "slack_run (new_slack given) es s" "slack_step s (Closed True) t" "slack_run t es' u"
  shows "(sk_stop u = Stop_done \<longrightarrow> (\<forall>n < length (sk_events s). n \<notin> sk_background u) \<and>
       (length (sk_events u) = length (sk_events s) \<longrightarrow> background_task_count u = 0)) \<and>
    (\<forall>tasks. sk_stop u = Awaiting tasks \<longrightarrow> tasks \<subseteq> sk_asked u) \<and>
    (\<forall>e v. slack_step u e v \<longrightarrow> sk_drain u \<noteq> Drained \<longrightarrow> sk_drain v = Drained \<longrightarrow> sk_background v = {}) \<and>
    sk_listeners u = 1 \<and> (\<forall>(body, event) \<in> set (sk_events u). \<not> from_bot event) \<and>
    sk_reported u = errors_of (sk_over u) \<and> distinct (map fst (sk_reported u))"
proof -
  have ok: "slack_ok s" by (rule slack_ok_run [OF assms(1) slack_ok_new])
  have t: "t = cancel_background s" "sk_stop s = Closing" using assms(2) by (auto elim: slack_step.cases)
  have oks: "slack_ok t" "slack_ok u"
    using slack_ok_step [OF assms(2) ok] slack_ok_run [OF assms(3)] by auto
  have covers: "stop_covers (length (sk_events s)) u"
    by (rule stop_covers_run [OF assms(3) oks(1)]) (simp add: t(1) cancel_background_covers)
  have "sk_built s" using built_when_closing [OF assms(1)] t(2) by (simp add: new_slack_def)
  then have "sk_built u" using stays_built [OF assms(3)] by (simp add: t(1) cancel_background_def)
  then have listeners: "sk_listeners u = 1" using oks(2) by (simp add: slack_ok_def)
  have drained: "sk_background v = {}" if "slack_step u e v" "sk_drain u \<noteq> Drained" "sk_drain v = Drained" for e v
    using that by (cases rule: slack_step.cases)
      (auto simp: slack_op_defs split: task_ending.splits sum.splits if_splits)
  have left: "sk_background u \<subseteq> {..< length (sk_events u)}" using oks(2) by (auto simp: slack_ok_def)
  have stopped: "(\<forall>n < length (sk_events s). n \<notin> sk_background u) \<and>
      (length (sk_events u) = length (sk_events s) \<longrightarrow> background_task_count u = 0)" if "sk_stop u = Stop_done"
  proof -
    have "sk_background u \<inter> {..< length (sk_events s)} = {}" using covers that by (simp add: stop_covers_def)
    moreover from this left have "length (sk_events u) = length (sk_events s) \<Longrightarrow> sk_background u = {}" by auto
    ultimately show ?thesis by (auto simp: background_task_count_def)
  qed
  show ?thesis
    using oks(2) listeners drained stopped errors_of_distinct [of "sk_over u"]
    by (auto simp: slack_ok_def list_all_iff)
qed

definition mention :: json_object where
  "mention = [(''channel'', JStr ''C1''), (''user'', JStr ''U1''), (''text'', JStr ''help'')]"

text \<open>A service with one task that is running when the connection closes.\<close>

definition busy_slack :: slack_app where
  "busy_slack = begin_stop (handle_app_mention [] mention (build (new_slack False)))"

theorem slack_stop_leaves_nothing_witness:
  "\<exists>u. sk_stop u = Stop_done \<and> background_task_count u = 0 \<and> sk_over u = [(0, Ended_cancelled)] \<and> sk_reported u = []"
proof -
  let ?s2 = "handle_app_mention [] mention (build (new_slack False))"
  let ?t = "cancel_background busy_slack"
  let ?u1 = "finish_background_task 0 Ended_cancelled ?t"
  let ?u = "?u1\<lparr>sk_stop := Stop_done\<rparr>"
  have states: "?s2 = (new_slack False)\<lparr>sk_built := True, sk_listeners := 1, sk_events := [([], mention)], sk_background := {0}\<rparr>"
    by (simp add: handle_app_mention_def build_def new_slack_def from_bot_def mention_def)
  have busy: "busy_slack = ?s2\<lparr>sk_stop := Closing\<rparr>" unfolding busy_slack_def begin_stop_def states by (simp add: new_slack_def)
  have "slack_run (new_slack False) [Built] (build (new_slack False))"
    using slack_run_snoc [OF slack_run_Nil slack_step.Built] by simp
  moreover have "slack_step (build (new_slack False)) (Mentioned [] mention) ?s2"
    by (rule slack_step.Mentioned) (simp add: build_def)
  moreover have "slack_step ?s2 Stop_called busy_slack"
    unfolding busy_slack_def by (rule slack_step.Stop_called) (unfold states, simp add: new_slack_def)
  ultimately have run: "slack_run (new_slack False) [Built, Mentioned [] mention, Stop_called] busy_slack"
    by (metis append_Cons append_Nil slack_run_snoc)
  have closed: "slack_step busy_slack (Closed True) ?t"
    using slack_step.Closed [of busy_slack True] by (simp add: busy)
  have t: "sk_background ?t = {0}" "sk_asked ?t = {0}" "sk_stop ?t = Awaiting {0}" "sk_events ?t = [([], mention)]"
    "sk_over ?t = []" "sk_reported ?t = []"
    unfolding busy cancel_background_def states by (simp_all add: new_slack_def)
  have "slack_step ?t (Task_over 0 Ended_cancelled) ?u1" by (rule slack_step.Task_over) (simp_all add: t)
  moreover have "slack_step ?u1 Stop_joined ?u"
    by (rule slack_step.Stop_joined [of _ "{0}"]) (simp_all add: finish_background_task_def Let_def t)
  ultimately have rest: "slack_run ?t [Task_over 0 Ended_cancelled, Stop_joined] ?u"
    using slack_run_snoc [OF slack_run_snoc [OF slack_run_Nil]] by (metis append_Cons append_Nil)
  have "sk_events ?u = sk_events busy_slack"
    by (simp add: finish_background_task_def Let_def cancel_background_def)
  then have "background_task_count ?u = 0"
    using slack_stop_leaves_nothing [OF run closed rest] by simp
  then show ?thesis by (intro exI [of _ ?u]) (simp add: finish_background_task_def Let_def t)
qed

end
