(* ===== verification/Coroutines.thy ===== *)
theory Coroutines
  imports Prelude
begin

text \<open>
  Coroutines that can be cancelled. At an \<open>await\<close> a coroutine has asked for something, mostly for work
  in a thread; either that is done and the coroutine goes on with its result, or a \<open>CancelledError\<close> is
  raised in the coroutine, which then runs its handlers. The work in a thread cannot be cancelled: it is
  never done, or was done before the handlers run, or is done only after them.
\<close>

section \<open>Coroutines\<close>

text \<open>\<open>Awaiting effect resume unwind\<close>: what the awaited work does to the state, how the coroutine goes on
  with what the work found there, and how it goes on when it is cancelled instead.\<close>

datatype ('s, 'e, 'r) coroutine =
    Ended "'e + 'r"
  | Awaiting "'s \<Rightarrow> 's" "'s \<Rightarrow> ('s, 'e, 'r) coroutine" "('s, 'e, 'r) coroutine"

text \<open>\<open>CancelledError\<close> is a \<open>BaseException\<close>: \<open>except Exception\<close> does not catch it, \<open>finally\<close> sees it.\<close>

datatype 'e leaving = Thrown 'e | Cancelled_error

text \<open>Statements in sequence, \<open>try\<close>, \<open>finally\<close>: \<open>h\<close> gets the result or the exception of the first part.\<close>

primrec co_then ::
  "('s, 'e, 'a) coroutine \<Rightarrow> ('e + 'a \<Rightarrow> ('s, 'f, 'b) coroutine) \<Rightarrow> ('s, 'f, 'b) coroutine" where
  "co_then (Ended r) h = h r"
| "co_then (Awaiting effect resume unwind) h =
     Awaiting effect (\<lambda>s. co_then (resume s) h) (co_then unwind h)"

definition co_bind :: "('s, 'e, 'a) coroutine \<Rightarrow> ('a \<Rightarrow> ('s, 'e, 'b) coroutine) \<Rightarrow> ('s, 'e, 'b) coroutine" where
  "co_bind c f = co_then c (\<lambda>r. case r of Inl e \<Rightarrow> Ended (Inl e) | Inr x \<Rightarrow> f x)"

definition co_await :: "('s, 'e, 'a) act \<Rightarrow> ('s, 'e leaving, 'a) coroutine" where
  "co_await m = Awaiting (\<lambda>s. snd (m s)) (\<lambda>s. Ended (map_error Thrown (fst (m s)))) (Ended (Inl Cancelled_error))"

section \<open>Running and cancelling\<close>

datatype thread_fate = Never_done | Done_before | Done_after

text \<open>
  Each cancellation strikes a number of awaits after the one before it. A coroutine that has ended is not
  cancelled any more.
\<close>

type_synonym cancellations = "(nat \<times> thread_fate) list"

primrec play :: "('s, 'e, 'r) coroutine \<Rightarrow> cancellations \<Rightarrow> 's \<Rightarrow> ('e + 'r) \<times> 's" where
  "play (Ended r) = (\<lambda>cs s. (r, s))"
| "play (Awaiting effect resume unwind) = (\<lambda>cs s.
     case cs of
       [] \<Rightarrow> play (resume s) [] (effect s)
     | (Suc n, fate) # rest \<Rightarrow> play (resume s) ((n, fate) # rest) (effect s)
     | (0, fate) # rest \<Rightarrow>
         (case fate of
            Never_done \<Rightarrow> play unwind rest s
          | Done_before \<Rightarrow> play unwind rest (effect s)
          | Done_after \<Rightarrow> (case play unwind rest s of (r, s') \<Rightarrow> (r, effect s'))))"

lemma play_then: "play (co_then c h) [] s = (case play c [] s of (r, s') \<Rightarrow> play (h r) [] s')"
  by (induction c arbitrary: s) simp_all

lemma play_bind:
  "play (co_bind c f) [] s =
     (case play c [] s of (Inl e, s') \<Rightarrow> (Inl e, s') | (Inr x, s') \<Rightarrow> play (f x) [] s')"
  by (simp add: co_bind_def play_then split: prod.split sum.split)

lemma play_await: "play (co_await m) [] s = (map_error Thrown (fst (m s)), snd (m s))"
  by (simp add: co_await_def)

text \<open>A coroutine that plays an action when it is not cancelled; \<open>h\<close> renames the exceptions.\<close>

definition plays :: "('e \<Rightarrow> 'f) \<Rightarrow> ('s, 'f, 'r) coroutine \<Rightarrow> ('s, 'e, 'r) act \<Rightarrow> bool" where
  "plays h c m \<longleftrightarrow> (\<forall>s. play c [] s = (map_error h (fst (m s)), snd (m s)))"

lemma map_error_Thrown: "map_error Thrown r = Inl e \<Longrightarrow> \<exists>x. e = Thrown x"
  by (cases r) auto

lemma plays_await: "plays Thrown (co_await m) m"
  by (simp add: plays_def play_await)

lemma plays_ended: "plays h (Ended (Inr x)) (act_return x)" "plays h (Ended (Inl (h e))) (act_raise e)"
  by (simp_all add: plays_def act_return_def act_raise_def)

lemma plays_bind:
  assumes "plays h c m" "\<And>x. plays h (f x) (g x)"
  shows "plays h (co_bind c f) (act_bind m g)"
  unfolding plays_def
proof
  fix s
  show "play (co_bind c f) [] s = (map_error h (fst (act_bind m g s)), snd (act_bind m g s))"
    using assms by (cases "m s"; cases "fst (m s)") (simp_all add: plays_def play_bind act_bind_def)
qed

lemma plays_if: "(b \<Longrightarrow> plays h c m) \<Longrightarrow> (\<not> b \<Longrightarrow> plays h c' m') \<Longrightarrow> plays h (if b then c else c') (if b then m else m')"
  by simp

section \<open>What a relation on states tells of every cancelled run\<close>

primrec moves :: "('s \<Rightarrow> 's \<Rightarrow> bool) \<Rightarrow> ('s, 'e, 'r) coroutine \<Rightarrow> bool" where
  "moves R (Ended r) = True"
| "moves R (Awaiting effect resume unwind) \<longleftrightarrow>
     (\<forall>s. R s (effect s)) \<and> (\<forall>s. moves R (resume s)) \<and> moves R unwind"

lemma moves_then: "moves R c \<Longrightarrow> (\<And>r. moves R (h r)) \<Longrightarrow> moves R (co_then c h)"
  by (induction c) auto

lemma moves_bind: "moves R c \<Longrightarrow> (\<And>x. moves R (f x)) \<Longrightarrow> moves R (co_bind c f)"
  unfolding co_bind_def by (auto intro!: moves_then split: sum.split)

lemma moves_await: "(\<And>s. R s (snd (m s))) \<Longrightarrow> moves R (co_await m)"
  by (simp add: co_await_def)

lemma moves_if: "(b \<Longrightarrow> moves R c) \<Longrightarrow> (\<not> b \<Longrightarrow> moves R c') \<Longrightarrow> moves R (if b then c else c')"
  by simp

lemma play_moves:
  assumes "moves R c" "reflp R" "transp R"
  shows "R s (snd (play c cs s))"
  using assms(1)
proof (induction c arbitrary: cs s)
  case (Ended r)
  then show ?case using assms(2) by (simp add: reflp_def)
next
  case (Awaiting effect resume unwind)
  have step: "R u (effect u)" "moves R (resume u)" for u using Awaiting.prems by auto
  have rest: "R u (snd (play (resume v) ds u))" for u v ds using Awaiting.IH(1) step(2) by blast
  have after: "R u (snd (play unwind ds u))" for u ds using Awaiting.IH(2) Awaiting.prems by simp
  have trans: "R a b \<Longrightarrow> R b d \<Longrightarrow> R a d" for a b d using assms(3) by (blast dest: transpD)
  show ?case
  proof (cases cs)
    case Nil
    then show ?thesis using trans [OF step(1) rest] by simp
  next
    case (Cons p ds)
    obtain n fate where p: "p = (n, fate)" by fastforce
    show ?thesis
    proof (cases n)
      case 0
      obtain r s' where run: "play unwind ds s = (r, s')" by fastforce
      then have "R s (effect s')" using trans [OF after step(1), of s ds] by simp
      then show ?thesis using Cons p 0 run after [of s ds] trans [OF step(1) after] by (cases fate) simp_all
    next
      case (Suc k)
      then show ?thesis using Cons p trans [OF step(1) rest] by simp
    qed
  qed
qed

section \<open>Coroutines that only clean up after a cancellation\<close>

text \<open>\<open>resigned\<close>: nothing is changed any more, and the cancellation comes out.\<close>

primrec resigned :: "('s, 'e leaving, 'r) coroutine \<Rightarrow> bool" where
  "resigned (Ended r) \<longleftrightarrow> r = Inl Cancelled_error"
| "resigned (Awaiting effect resume unwind) \<longleftrightarrow>
     (\<forall>s. effect s = s) \<and> (\<forall>s. resigned (resume s)) \<and> resigned unwind"

primrec yielding :: "('s, 'e leaving, 'r) coroutine \<Rightarrow> bool" where
  "yielding (Ended r) = True"
| "yielding (Awaiting effect resume unwind) \<longleftrightarrow> (\<forall>s. yielding (resume s)) \<and> resigned unwind"

lemma play_resigned: "resigned c \<Longrightarrow> play c cs s = (Inl Cancelled_error, s)"
proof (induction c arbitrary: cs s)
  case (Awaiting effect resume unwind)
  then show ?case
    by (auto split: list.split prod.split nat.split thread_fate.split)
qed simp

lemma resigned_then:
  "resigned c \<Longrightarrow> resigned (h (Inl Cancelled_error)) \<Longrightarrow> resigned (co_then c h)"
  by (induction c) auto

lemma yielding_then:
  "yielding c \<Longrightarrow> (\<And>r. yielding (h r)) \<Longrightarrow> resigned (h (Inl Cancelled_error)) \<Longrightarrow> yielding (co_then c h)"
  by (induction c) (auto intro: resigned_then)

lemma yielding_bind: "yielding c \<Longrightarrow> (\<And>x. yielding (f x)) \<Longrightarrow> yielding (co_bind c f)"
  unfolding co_bind_def by (auto intro!: yielding_then split: sum.split)

lemma yielding_await: "yielding (co_await m)"
  by (simp add: co_await_def)

lemma yielding_if: "(b \<Longrightarrow> yielding c) \<Longrightarrow> (\<not> b \<Longrightarrow> yielding c') \<Longrightarrow> yielding (if b then c else c')"
  by simp

text \<open>A cancelled run stops on the way of the run that is not cancelled, or is that run.\<close>

lemma play_yielding:
  assumes "yielding c" "moves R c" "reflp R" "transp R"
  shows "(fst (play c cs s) = Inl Cancelled_error \<or> play c cs s = play c [] s) \<and>
    R (snd (play c cs s)) (snd (play c [] s))"
  using assms(1,2)
proof (induction c arbitrary: cs s)
  case (Ended r)
  then show ?case using assms(3) by (simp add: reflp_def)
next
  case (Awaiting effect resume unwind)
  have rest: "(fst (play (resume v) ds u) = Inl Cancelled_error \<or> play (resume v) ds u = play (resume v) [] u) \<and>
      R (snd (play (resume v) ds u)) (snd (play (resume v) [] u))" for u v ds
    using Awaiting by (intro Awaiting.IH(1)) auto
  have whole: "R u (snd (play (resume u) [] (effect u)))" for u
    using Awaiting.prems play_moves [of R "Awaiting effect resume unwind" u "[]"] assms(3,4) by simp
  have after: "R (effect u) (snd (play (resume u) [] (effect u)))" for u
    using Awaiting.prems play_moves [of R "resume u" "effect u" "[]"] assms(3,4) by simp
  have gone: "play unwind ds u = (Inl Cancelled_error, u)" for ds u
    using Awaiting.prems by (intro play_resigned) simp
  have refl: "R u u" for u using assms(3) by (simp add: reflp_def)
  show ?case
  proof (cases cs)
    case Nil
    then show ?thesis using refl by simp
  next
    case (Cons p ds)
    obtain n fate where p: "p = (n, fate)" by fastforce
    show ?thesis
    proof (cases n)
      case 0
      then show ?thesis using Cons p gone whole [of s] after [of s] by (cases fate) simp_all
    next
      case (Suc k)
      then show ?thesis using Cons p rest [of s "(k, fate) # ds" "effect s"] by simp
    qed
  qed
qed

end
