(* ===== verification/AsyncStore.thy ===== *)
theory AsyncStore
  imports Coroutines OrchestratorSafety
begin

text \<open>
  \<open>AsyncSQLiteOrchestrationStore\<close> of \<open>storage/adapters.py\<close>: each method runs one operation of the store in a
  thread and awaits it. \<open>others\<close> is what the rest of the program does to the store until the thread gets
  to run; the result of an operation that the method drops is dropped by the caller.
\<close>

definition co_lift :: "'e + 'a \<Rightarrow> ('s, 'e leaving, 'a) coroutine" where
  "co_lift r = Ended (map_error Thrown r)"

text \<open>\<open>asyncio.to_thread\<close>.\<close>

definition to_thread :: "(store \<Rightarrow> store) \<Rightarrow> 'a store_act \<Rightarrow> (store, py_error leaving, 'a) coroutine" where
  "to_thread others op = co_await (\<lambda>s. op (others s))"

definition async_get_task :: "(store \<Rightarrow> store) \<Rightarrow> string \<Rightarrow> (store, py_error leaving, task) coroutine" where
  "async_get_task others i = to_thread others (act_query (get_task i))"

definition async_list_queued_tasks :: "(store \<Rightarrow> store) \<Rightarrow> int \<Rightarrow> (store, py_error leaving, task list) coroutine" where
  "async_list_queued_tasks others limit = to_thread others (act_query (list_queued_tasks limit))"

definition async_transition_task ::
  "(store \<Rightarrow> store) \<Rightarrow> aware \<Rightarrow> string \<Rightarrow> task_status \<Rightarrow> event \<Rightarrow> (store, py_error leaving, task) coroutine" where
  "async_transition_task others now i target e = to_thread others (transition_stored_task now i target e)"

definition async_assign_task ::
  "(store \<Rightarrow> store) \<Rightarrow> string \<Rightarrow> string \<Rightarrow> event \<Rightarrow> (store, py_error leaving, task) coroutine" where
  "async_assign_task others i agent e = to_thread others (assign_task i agent e)"

definition async_cancel_task ::
  "(store \<Rightarrow> store) \<Rightarrow> aware \<Rightarrow> string \<Rightarrow> event \<Rightarrow> (store, py_error leaving, task) coroutine" where
  "async_cancel_task others now i e = to_thread others (cancel_stored_task now i e)"

text \<open>\<open>fresh\<close> is the answer of \<open>run_id_factory\<close>, \<open>now\<close> the default of \<open>created_at\<close>.\<close>

definition async_create_run ::
  "(store \<Rightarrow> store) \<Rightarrow> aware \<Rightarrow> string \<Rightarrow> string \<Rightarrow> string \<Rightarrow> string \<Rightarrow> (store, py_error leaving, string) coroutine" where
  "async_create_run others now fresh i agent runtime =
     co_bind (co_lift (map_error ValueError (RunRecord_validate
       \<lparr>run_id = fresh, run_task = i, run_agent = agent, run_runtime = runtime, run_status = RunQueued,
        run_created = now, run_started = None, run_completed = None, run_exit_code = None,
        run_error_code = None\<rparr>))) (\<lambda>r.
     co_bind (to_thread others (create_run r)) (\<lambda>_. Ended (Inr (run_id r))))"

definition async_start_run :: "(store \<Rightarrow> store) \<Rightarrow> aware \<Rightarrow> string \<Rightarrow> (store, py_error leaving, run_record) coroutine" where
  "async_start_run others now i = to_thread others (start_run now i None)"

definition async_finish_run ::
  "(store \<Rightarrow> store) \<Rightarrow> aware \<Rightarrow> string \<Rightarrow> run_status \<Rightarrow> int option \<Rightarrow> string option \<Rightarrow>
   (store, py_error leaving, run_record) coroutine" where
  "async_finish_run others now i outcome exit_code error_code =
     to_thread others (finish_run now i outcome None exit_code error_code)"

definition async_reconcile_interrupted ::
  "(store \<Rightarrow> store) \<Rightarrow> aware \<Rightarrow> (nat \<Rightarrow> uuid) \<Rightarrow> (store, py_error leaving, reconciliation) coroutine" where
  "async_reconcile_interrupted others now fresh = to_thread others (reconcile_interrupted_running now fresh None)"

section \<open>What the methods play, and where they can be cancelled\<close>

lemma plays_lift: "plays Thrown (co_lift r) (act_lift r)"
  by (simp add: plays_def co_lift_def act_lift_def)

lemma plays_thread: "plays Thrown (to_thread (wk_meanwhile w p) op) (during w p op)"
  by (simp add: plays_def to_thread_def play_await during_def)

lemmas plays_methods =
  plays_thread [of w p "act_query (get_task i)" for w p i, folded async_get_task_def]
  plays_thread [of w p "transition_stored_task now i target e" for w p now i target e, folded async_transition_task_def]
  plays_thread [of w p "assign_task i agent e" for w p i agent e, folded async_assign_task_def]
  plays_thread [of w p "cancel_stored_task now i e" for w p now i e, folded async_cancel_task_def]
  plays_thread [of w p "start_run now i None" for w p now i, folded async_start_run_def]
  plays_thread [of w p "finish_run now i outcome None exit_code error_code" for w p now i outcome exit_code error_code,
    folded async_finish_run_def]

lemma plays_create_run:
  "plays Thrown (async_create_run (wk_meanwhile w Create_run) (wk_clock w Create_run) (wk_run_id w) (t_id t) agent (wk_runtime w))
     (record_run w t agent)"
  unfolding async_create_run_def record_run_def by (intro plays_bind plays_lift plays_thread plays_ended)

abbreviation stepping :: "(store, 'e, 'r) coroutine \<Rightarrow> bool" where
  "stepping \<equiv> moves store_step\<^sup>*\<^sup>*"

lemma stepping_await: "steps_act m \<Longrightarrow> stepping (co_await m)"
  by (rule moves_await) (simp add: steps_act_def)

lemma stepping_lift: "stepping (co_lift r)"
  by (simp add: co_lift_def)

lemma stepping_lift_bind: "(\<And>x. r = Inr x \<Longrightarrow> stepping (f x)) \<Longrightarrow> stepping (co_bind (co_lift r) f)"
  by (cases r) (simp_all add: co_lift_def co_bind_def)

lemma stepping_thread:
  assumes "lawful w" "steps_act op"
  shows "stepping (to_thread (wk_meanwhile w p) op)"
proof -
  have "(\<lambda>s. op (wk_meanwhile w p s)) = during w p op" by (simp add: fun_eq_iff during_def)
  with stepping_await [OF steps_during [OF assms, of p]] show ?thesis by (simp add: to_thread_def)
qed

lemma stepping_methods:
  assumes "lawful w"
  shows "stepping (async_get_task (wk_meanwhile w p) i)"
    "valid_event e \<Longrightarrow> stepping (async_transition_task (wk_meanwhile w p) now i target e)"
    "valid_event e \<Longrightarrow> stepping (async_assign_task (wk_meanwhile w p) i agent e)"
    "valid_event e \<Longrightarrow> stepping (async_cancel_task (wk_meanwhile w p) now i e)"
    "stepping (async_create_run (wk_meanwhile w p) now fresh i agent runtime)"
    "stepping (async_start_run (wk_meanwhile w p) now i)"
    "stepping (async_finish_run (wk_meanwhile w p) now i outcome exit_code error_code)"
  unfolding async_get_task_def async_transition_task_def async_assign_task_def async_cancel_task_def
    async_create_run_def async_start_run_def async_finish_run_def
  by (intro stepping_thread assms steps_simple steps_transition_task steps_operations stepping_lift_bind moves_bind;
      auto simp: result_simps dest: RunRecord_validate_valid)+

lemma yielding_lift: "yielding (co_lift r)"
  by (simp add: co_lift_def)

lemma yielding_thread: "yielding (to_thread others op)"
  by (simp add: to_thread_def yielding_await)

lemma yielding_methods:
  "yielding (async_get_task others i)" "yielding (async_transition_task others now i target e)"
  "yielding (async_assign_task others i agent e)" "yielding (async_cancel_task others now i e)"
  "yielding (async_create_run others now fresh i agent runtime)" "yielding (async_start_run others now i)"
  "yielding (async_finish_run others now i outcome exit_code error_code)"
  unfolding async_get_task_def async_transition_task_def async_assign_task_def async_cancel_task_def
    async_create_run_def async_start_run_def async_finish_run_def
  by (intro yielding_bind yielding_lift yielding_thread; simp)+

end
