(* ===== verification/Processing.thy ===== *)
theory Processing
  imports AsyncStore OrchestratorProperties RecoveryProperties
begin

text \<open>
  \<open>process_task\<close> of \<open>orchestrator/service.py\<close> as a coroutine that can be cancelled wherever it waits: when
  \<open>serve\<close> gives up waiting for the orchestrator, or the loop of \<open>Scheduler\<close> is cancelled. The store is used
  through the methods of \<open>AsyncStore\<close>. The handlers are those of the code: \<open>except Exception\<close>
  lets a cancellation pass, and leaving the workspace releases the lock of the project.
\<close>

section \<open>The coroutine\<close>

definition transition_coroutine ::
  "worker \<Rightarrow> await_point \<Rightarrow> task \<Rightarrow> task_status \<Rightarrow> string option \<Rightarrow> event_level \<Rightarrow> json_object \<Rightarrow>
   (store, py_error leaving, task) coroutine" where
  "transition_coroutine w p t target agent level payload =
     (case transition_event_type target of
        None \<Rightarrow> Ended (Inl (Thrown RuntimeError))
      | Some ty \<Rightarrow>
          co_bind (co_lift (worker_event w p t ty agent level
            (dict_merge [(''status'', JStr (status_value target))] payload))) (\<lambda>e.
          async_transition_task (wk_meanwhile w p) (wk_clock w p) (t_id t) target e))"

definition conclude_coroutine ::
  "worker \<Rightarrow> task \<Rightarrow> task_status \<Rightarrow> event_level \<Rightarrow> string \<Rightarrow> (store, py_error leaving, process_result) coroutine" where
  "conclude_coroutine w t target level code =
     co_bind (async_get_task (wk_meanwhile w Reread_task) (t_id t)) (\<lambda>current.
     co_bind (transition_coroutine w Conclude current target None level [(''reason'', JStr code)]) (\<lambda>ended.
     co_bind (co_await (notify w Notify_result)) (\<lambda>_.
     Ended (Inr (result_of ended (Some code))))))"

definition finish_coroutine ::
  "worker \<Rightarrow> task \<Rightarrow> runtime_result \<Rightarrow> string \<Rightarrow> (store, py_error leaving, task) coroutine" where
  "finish_coroutine w t result branch =
     (case re_status result of
        RuntimeSucceeded \<Rightarrow>
          transition_coroutine w Finish_task t Completed None INFO
            (dict_merge (outcome_payload result branch) [(''status'', JStr ''completed'')])
      | RuntimeCancelled \<Rightarrow>
          co_bind (co_lift (worker_event w Finish_task t TASK_CANCELLED None WARNING
            (dict_merge (outcome_payload result branch) [(''status'', JStr ''cancelled'')]))) (\<lambda>e.
          async_cancel_task (wk_meanwhile w Finish_task) (wk_clock w Finish_task) (t_id t) e)
      | _ \<Rightarrow>
          transition_coroutine w Finish_task t Failed None ERROR
            (dict_merge (outcome_payload result branch)
              [(''status'', JStr ''failed''),
               (''reason'', JStr (''runtime-'' @ runtime_status_value (re_status result)))]))"

definition finish_run_coroutine ::
  "worker \<Rightarrow> string \<Rightarrow> runtime_result \<Rightarrow> (store, py_error leaving, run_record) coroutine" where
  "finish_run_coroutine w i result =
     async_finish_run (wk_meanwhile w Finish_run) (wk_clock w Finish_run) i (run_outcome (re_status result))
       (re_exit_code result)
       (if re_status result = RuntimeSucceeded then None
        else Some (''runtime-'' @ runtime_status_value (re_status result)))"

definition assign_coroutine :: "worker \<Rightarrow> task \<Rightarrow> selection \<Rightarrow> (store, py_error leaving, task) coroutine" where
  "assign_coroutine w t developer =
     co_bind (co_lift (worker_event w Assign_developer t AGENT_ASSIGNED (Some (sl_agent developer)) INFO
       (assignment_payload t developer))) (\<lambda>e.
     async_assign_task (wk_meanwhile w Assign_developer) (t_id t) (sl_agent developer) e)"

text \<open>What leaves the body of \<open>async with\<close>, with the local variables at that point.\<close>

datatype work_leaving = Work_thrown run_progress | Work_cancelled run_progress

fun at_progress :: "run_progress \<Rightarrow> 'e leaving \<Rightarrow> work_leaving" where
  "at_progress p (Thrown _) = Work_thrown p"
| "at_progress p Cancelled_error = Work_cancelled p"

definition at_stage :: "run_progress \<Rightarrow> (store, py_error leaving, 'a) coroutine \<Rightarrow> (store, work_leaving, 'a) coroutine" where
  "at_stage p c = co_then c (\<lambda>r. Ended (map_error (at_progress p) r))"

definition work_coroutine :: "worker \<Rightarrow> string \<Rightarrow> task \<Rightarrow> string \<Rightarrow> (store, work_leaving, task \<times> bool) coroutine" where
  "work_coroutine w agent t0 branch =
     co_bind (at_stage No_run (transition_coroutine w Start_running t0 Running (Some agent) INFO
       [(''branch'', JStr branch)])) (\<lambda>t.
     co_bind (at_stage No_run (co_await (notify w Notify_running))) (\<lambda>_.
     co_bind (at_stage No_run (async_create_run (wk_meanwhile w Create_run) (wk_clock w Create_run) (wk_run_id w)
       (t_id t) agent (wk_runtime w))) (\<lambda>run.
     co_bind (at_stage (Run_open run) (async_start_run (wk_meanwhile w Begin_run) (wk_clock w Begin_run) run)) (\<lambda>_.
     co_bind (at_stage (Run_open run) (co_await (run_runtime_on w t agent))) (\<lambda>result.
     co_bind (at_stage (Run_open run) (finish_run_coroutine w run result)) (\<lambda>_.
     co_bind (at_stage Run_done (async_get_task (wk_meanwhile w Get_executed) (t_id t))) (\<lambda>current.
     if t_status current = Cancelled
     then co_bind (at_stage Run_done (co_await (notify w Notify_cancelled))) (\<lambda>_. Ended (Inr (current, True)))
     else co_bind (at_stage Run_done (finish_coroutine w current result branch)) (\<lambda>final.
          Ended (Inr (final, False))))))))))"

text \<open>Entering and leaving the workspace. The exception of the release replaces a cancellation.\<close>

fun opened_workspace :: "workspace_error + string \<Rightarrow> work_error + string" where
  "opened_workspace (Inl PreparationBlocked) = Inl Work_blocked"
| "opened_workspace (Inl PreparationError) = Inl Work_refused"
| "opened_workspace (Inl OpenException) = Inl (Work_exception No_run)"
| "opened_workspace (Inr branch) = Inr branch"

definition enter_workspace :: "worker \<Rightarrow> task \<Rightarrow> (store, work_error, string) act" where
  "enter_workspace w t s = (opened_workspace (wk_open w t), wk_meanwhile w Open_workspace s)"

definition release_workspace :: "worker \<Rightarrow> (store, unit, unit) act" where
  "release_workspace w s = (if wk_release_fails w then Inl () else Inr (), wk_meanwhile w Close_workspace s)"

fun progress_left :: "work_leaving + 'a \<Rightarrow> run_progress" where
  "progress_left (Inl (Work_thrown p)) = p"
| "progress_left (Inl (Work_cancelled p)) = p"
| "progress_left (Inr _) = Run_done"

fun left_by :: "work_leaving \<Rightarrow> work_error leaving" where
  "left_by (Work_thrown p) = Thrown (Work_exception p)"
| "left_by (Work_cancelled _) = Cancelled_error"

definition leave_workspace ::
  "work_leaving + 'a \<Rightarrow> unit leaving + unit \<Rightarrow> work_error leaving + 'a" where
  "leave_workspace body released =
     (case released of
        Inl Cancelled_error \<Rightarrow> Inl Cancelled_error
      | Inl (Thrown _) \<Rightarrow> Inl (Thrown (Work_exception (progress_left body)))
      | Inr _ \<Rightarrow> map_error left_by body)"

definition workspace_coroutine :: "worker \<Rightarrow> string \<Rightarrow> task \<Rightarrow> (store, work_error leaving, task \<times> bool) coroutine" where
  "workspace_coroutine w agent t =
     co_bind (co_await (enter_workspace w t)) (\<lambda>branch.
     co_then (work_coroutine w agent t branch) (\<lambda>body.
     co_then (co_await (release_workspace w)) (\<lambda>released.
     Ended (leave_workspace body released))))"

definition close_run_coroutine :: "worker \<Rightarrow> run_progress \<Rightarrow> (store, py_error leaving, unit) coroutine" where
  "close_run_coroutine w p =
     (case p of
        Run_open i \<Rightarrow>
          co_then (async_finish_run (wk_meanwhile w Close_run) (wk_clock w Close_run) i RunFailed None
            (Some ''runtime-exception'')) (\<lambda>r.
          case r of Inl Cancelled_error \<Rightarrow> Ended (Inl Cancelled_error) | _ \<Rightarrow> Ended (Inr ()))
      | _ \<Rightarrow> Ended (Inr ()))"

definition rescue_coroutine :: "worker \<Rightarrow> task \<Rightarrow> run_progress \<Rightarrow> (store, py_error leaving, process_result) coroutine" where
  "rescue_coroutine w t p =
     co_bind (close_run_coroutine w p) (\<lambda>_.
     co_bind (async_get_task (wk_meanwhile w Get_failed) (t_id t)) (\<lambda>current.
     if is_terminal (t_status current) then Ended (Inr (result_of current None))
     else conclude_coroutine w current Failed ERROR ''runtime-exception''))"

definition attempt_coroutine :: "worker \<Rightarrow> string \<Rightarrow> task \<Rightarrow> (store, py_error leaving, process_result) coroutine" where
  "attempt_coroutine w agent t =
     co_then (workspace_coroutine w agent t) (\<lambda>r.
     case r of
       Inl (Thrown Work_blocked) \<Rightarrow> conclude_coroutine w t Blocked WARNING ''project-preparation''
     | Inl (Thrown Work_refused) \<Rightarrow> conclude_coroutine w t Failed ERROR ''project-preparation''
     | Inl (Thrown (Work_exception p)) \<Rightarrow> rescue_coroutine w t p
     | Inl Cancelled_error \<Rightarrow> Ended (Inl Cancelled_error)
     | Inr (final, cancelled) \<Rightarrow>
         if cancelled then Ended (Inr (result_of final None))
         else co_bind (co_await (notify w Notify_result)) (\<lambda>_. Ended (Inr (result_of final None))))"

definition process_coroutine :: "worker \<Rightarrow> string \<Rightarrow> (store, py_error leaving, process_result) coroutine" where
  "process_coroutine w i =
     co_bind (async_get_task (wk_meanwhile w Get_queued) i) (\<lambda>t.
     if t_status t \<noteq> Queued then Ended (Inr (result_of t None))
     else
       co_bind (transition_coroutine w Start_planning t Planning None INFO []) (\<lambda>t.
       case select_developer (wk_bundle w) t of
         Inl (KeyError _) \<Rightarrow> Ended (Inl (Thrown RuntimeError))
       | Inl _ \<Rightarrow> conclude_coroutine w t Failed ERROR ''developer-selection''
       | Inr developer \<Rightarrow>
           co_bind (assign_coroutine w t developer) (\<lambda>t. attempt_coroutine w (sl_agent developer) t)))"

section \<open>Without a cancellation it is process_task\<close>

lemma plays_transition:
  "plays Thrown (transition_coroutine w p t target agent level payload) (worker_transition w p t target agent level payload)"
  unfolding transition_coroutine_def worker_transition_def
  by (auto split: option.split intro!: plays_bind plays_lift plays_methods plays_ended)

lemma plays_conclude: "plays Thrown (conclude_coroutine w t target level code) (conclude_task w t target level code)"
  unfolding conclude_coroutine_def conclude_task_def
  by (intro plays_bind plays_await plays_methods plays_transition plays_ended)

lemma plays_finish: "plays Thrown (finish_coroutine w t result branch) (finish_task w t result branch)"
  unfolding finish_coroutine_def finish_task_def
  by (auto split: runtime_status.split intro!: plays_bind plays_lift plays_methods plays_transition)

lemma plays_assign: "plays Thrown (assign_coroutine w t developer) (assign_developer w t developer)"
  unfolding assign_coroutine_def assign_developer_def by (intro plays_bind plays_lift plays_methods)

lemma plays_finish_run: "plays Thrown (finish_run_coroutine w i result) (finish_runtime_run w i result)"
  unfolding finish_run_coroutine_def finish_runtime_run_def by (rule plays_methods)

lemma plays_at_stage: "plays Thrown c m \<Longrightarrow> plays Work_thrown (at_stage p c) (map_raise (\<lambda>_. p) m)"
  by (auto simp: plays_def at_stage_def play_then map_raise_def split: prod.split sum.split)

lemma plays_stage_notify: "plays Work_thrown (at_stage p (co_await (notify w q))) (notify w q)"
  by (auto simp: plays_def at_stage_def play_then play_await notify_def act_modify_def)

lemma plays_work: "plays Work_thrown (work_coroutine w agent t branch) (do_work w agent t branch)"
  unfolding work_coroutine_def do_work_def
  by (intro plays_bind plays_if plays_stage_notify plays_at_stage plays_transition plays_create_run plays_methods
      plays_await plays_finish_run plays_finish plays_ended)

lemma plays_workspace: "plays Thrown (workspace_coroutine w agent t) (in_workspace w agent t)"
  unfolding plays_def
proof
  fix s
  let ?s1 = "wk_meanwhile w Open_workspace s"
  show "play (workspace_coroutine w agent t) [] s = (map_error Thrown (fst (in_workspace w agent t s)), snd (in_workspace w agent t s))"
  proof (cases "wk_open w t")
    case (Inl e)
    then show ?thesis
      by (cases e) (simp_all add: workspace_coroutine_def play_bind play_await enter_workspace_def in_workspace_def Let_def)
  next
    case (Inr branch)
    obtain r s2 where work: "do_work w agent t branch ?s1 = (r, s2)" by fastforce
    then have "play (work_coroutine w agent t branch) [] ?s1 = (map_error Work_thrown r, s2)"
      using plays_work [of w agent t branch] by (simp add: plays_def)
    with Inr work show ?thesis
      by (cases r) (simp_all add: workspace_coroutine_def play_bind play_then play_await enter_workspace_def
          release_workspace_def leave_workspace_def in_workspace_def Let_def)
  qed
qed

lemma plays_rescue: "plays Thrown (rescue_coroutine w t p) (rescue w t p)"
proof -
  have "plays Thrown (close_run_coroutine w p) (close_open_run w p)"
    using plays_methods(6) [of w Close_run]
    by (cases p) (auto simp: plays_def close_run_coroutine_def close_open_run_def play_then
        dest!: map_error_Thrown split: sum.split)
  then show ?thesis
    unfolding rescue_coroutine_def rescue_def fail_task_def
    by (intro plays_bind plays_if plays_methods plays_ended plays_conclude)
qed

lemma plays_attempt: "plays Thrown (attempt_coroutine w agent t) (attempt w agent t)"
  unfolding plays_def
proof
  fix s
  obtain r s1 where ws: "in_workspace w agent t s = (r, s1)" by fastforce
  then have play: "play (workspace_coroutine w agent t) [] s = (map_error Thrown r, s1)"
    using plays_workspace [of w agent t] by (simp add: plays_def)
  note parts = plays_conclude [unfolded plays_def, rule_format] plays_rescue [unfolded plays_def, rule_format]
  show "play (attempt_coroutine w agent t) [] s = (map_error Thrown (fst (attempt w agent t s)), snd (attempt w agent t s))"
    using play ws parts
    by (auto simp: attempt_coroutine_def attempt_def play_then play_bind play_await notify_def act_modify_def act_defs
        hold_task_def fail_task_def split: sum.split work_error.split)
qed

lemma plays_process: "plays Thrown (process_coroutine w i) (process_task w i)"
proof -
  have "plays Thrown
      (case select_developer (wk_bundle w) t of
         Inl (KeyError k) \<Rightarrow> Ended (Inl (Thrown RuntimeError))
       | Inl _ \<Rightarrow> conclude_coroutine w t Failed ERROR ''developer-selection''
       | Inr developer \<Rightarrow>
           co_bind (assign_coroutine w t developer) (\<lambda>t. attempt_coroutine w (sl_agent developer) t))
      (case select_developer (wk_bundle w) t of
         Inl (KeyError k) \<Rightarrow> act_raise RuntimeError
       | Inl _ \<Rightarrow> fail_task w t ''developer-selection''
       | Inr developer \<Rightarrow> act_bind (assign_developer w t developer) (\<lambda>t. attempt w (sl_agent developer) t))" for t
    by (auto split: sum.split selection_error.split simp: fail_task_def
        intro!: plays_ended plays_conclude plays_bind plays_assign plays_attempt)
  then show ?thesis
    unfolding process_coroutine_def process_task_def
    by (intro plays_bind plays_if plays_methods plays_transition plays_ended)
qed

section \<open>What every cancelled run does to the store\<close>

lemma stepping_worker_event:
  assumes "json_wf (JObj payload)" "\<And>e. valid_event e \<Longrightarrow> stepping (f e)"
  shows "stepping (co_bind (co_lift (worker_event w p t ty agent level payload)) f)"
  using assms by (blast intro: stepping_lift_bind worker_event_valid)

lemma stepping_transition:
  assumes "lawful w" "list_all (\<lambda>e. json_wf (snd e)) payload"
  shows "stepping (transition_coroutine w p t target agent level payload)"
proof (cases "transition_event_type target")
  case (Some ty)
  have "json_wf (JObj (dict_merge [(''status'', JStr (status_value target))] payload))"
    by (rule json_wf_merge [OF _ assms(2)]) simp
  then show ?thesis
    unfolding transition_coroutine_def Some option.case
    by (intro stepping_worker_event stepping_methods(2) [OF assms(1)])
qed (simp add: transition_coroutine_def)

lemma outcome_wf:
  "list_all (\<lambda>e. json_wf (snd e)) xs \<Longrightarrow> json_wf (JObj (dict_merge (outcome_payload result branch) xs))"
  by (rule json_wf_merge) (simp add: outcome_payload_def texts_wf del: json_wf.simps(1))

lemma stepping_finish:
  assumes "lawful w"
  shows "stepping (finish_coroutine w t result branch)"
proof -
  have entries: "list_all (\<lambda>e. json_wf (snd e)) (dict_merge (outcome_payload result branch) xs)"
    if "list_all (\<lambda>e. json_wf (snd e)) xs" for xs
    using outcome_wf [OF that] by simp
  show ?thesis
    unfolding finish_coroutine_def
    by (cases "re_status result")
      (auto intro!: stepping_transition stepping_worker_event stepping_methods assms entries outcome_wf
        simp del: json_wf.simps(2))
qed

lemma stepping_assign:
  assumes "lawful w"
  shows "stepping (assign_coroutine w t developer)"
  unfolding assign_coroutine_def
  by (intro stepping_worker_event stepping_methods assms) (simp_all add: assignment_payload_def)

lemma stepping_at_stage: "stepping c \<Longrightarrow> stepping (at_stage p c)"
  unfolding at_stage_def by (intro moves_then) simp_all

lemma stepping_work:
  assumes "lawful w"
  shows "stepping (work_coroutine w agent t branch)"
  unfolding work_coroutine_def finish_run_coroutine_def
  by (intro moves_bind moves_if stepping_at_stage stepping_transition stepping_await steps_notify stepping_methods
      steps_run_runtime_on stepping_finish assms) simp_all

lemma stepping_workspace:
  assumes "lawful w"
  shows "stepping (workspace_coroutine w agent t)"
proof -
  have "steps_act (enter_workspace w t)" "steps_act (release_workspace w)"
    using assms by (simp_all add: steps_act_def lawful_def enter_workspace_def release_workspace_def)
  then show ?thesis
    unfolding workspace_coroutine_def
    by (intro moves_bind moves_then stepping_await stepping_work assms) simp_all
qed

lemma stepping_conclude:
  assumes "lawful w"
  shows "stepping (conclude_coroutine w t target level code)"
  unfolding conclude_coroutine_def
  by (intro moves_bind stepping_await stepping_methods stepping_transition steps_notify assms) simp_all

lemma stepping_rescue:
  assumes "lawful w"
  shows "stepping (rescue_coroutine w t p)"
proof -
  have "stepping (close_run_coroutine w p)"
    by (cases p) (auto simp: close_run_coroutine_def intro!: moves_then stepping_methods assms
        split: sum.split leaving.split)
  then show ?thesis
    unfolding rescue_coroutine_def
    by (intro moves_bind moves_if stepping_methods stepping_conclude assms) simp_all
qed

lemma stepping_attempt:
  assumes "lawful w"
  shows "stepping (attempt_coroutine w agent t)"
  unfolding attempt_coroutine_def
  by (auto intro!: moves_then moves_bind stepping_workspace stepping_conclude stepping_rescue stepping_await steps_notify assms
      split: sum.split leaving.split work_error.split)

lemma stepping_process:
  assumes "lawful w"
  shows "stepping (process_coroutine w i)"
  unfolding process_coroutine_def
  by (auto intro!: moves_bind moves_if stepping_methods stepping_transition stepping_assign stepping_conclude stepping_attempt assms split: sum.split selection_error.split)

text \<open>With a lock that can be released a cancellation is never caught.\<close>

definition releases_quietly :: "worker \<Rightarrow> bool" where
  "releases_quietly w \<longleftrightarrow> \<not> wk_release_fails w \<and> (\<forall>s. wk_meanwhile w Close_workspace s = s)"

lemma yielding_transition: "yielding (transition_coroutine w p t target agent level payload)"
  unfolding transition_coroutine_def
  by (auto split: option.split intro!: yielding_bind yielding_lift yielding_methods)

lemma yielding_conclude: "yielding (conclude_coroutine w t target level code)"
  unfolding conclude_coroutine_def
  by (intro yielding_bind yielding_await yielding_methods yielding_transition) simp

lemma yielding_finish: "yielding (finish_coroutine w t result branch)"
  unfolding finish_coroutine_def
  by (auto split: runtime_status.split intro!: yielding_bind yielding_lift yielding_methods yielding_transition)

lemma yielding_assign: "yielding (assign_coroutine w t developer)"
  unfolding assign_coroutine_def by (intro yielding_bind yielding_lift yielding_methods)

primrec unwound :: "(store, work_leaving, 'r) coroutine \<Rightarrow> bool" where
  "unwound (Ended r) \<longleftrightarrow> (\<exists>p. r = Inl (Work_cancelled p))"
| "unwound (Awaiting effect resume unwind) \<longleftrightarrow> (\<forall>s. effect s = s) \<and> (\<forall>s. unwound (resume s)) \<and> unwound unwind"

primrec unwinding :: "(store, work_leaving, 'r) coroutine \<Rightarrow> bool" where
  "unwinding (Ended r) = True"
| "unwinding (Awaiting effect resume unwind) \<longleftrightarrow> (\<forall>s. unwinding (resume s)) \<and> unwound unwind"

lemma unwound_bind: "unwound c \<Longrightarrow> unwound (co_bind c f)"
  unfolding co_bind_def by (induction c) auto

lemma unwinding_bind: "unwinding c \<Longrightarrow> (\<And>x. unwinding (f x)) \<Longrightarrow> unwinding (co_bind c f)"
  unfolding co_bind_def by (induction c) (auto split: sum.split simp: unwound_bind [unfolded co_bind_def])

lemma unwinding_at_stage:
  assumes "yielding c"
  shows "unwinding (at_stage p c)"
proof -
  have "unwound (at_stage p c)" if "resigned c" for c :: "(store, py_error leaving, 'a) coroutine"
    using that unfolding at_stage_def by (induction c) auto
  with assms show ?thesis unfolding at_stage_def by (induction c) auto
qed

lemma unwinding_work: "unwinding (work_coroutine w agent t branch)"
  unfolding work_coroutine_def finish_run_coroutine_def
  by (auto intro!: unwinding_bind unwinding_at_stage yielding_transition yielding_await yielding_methods yielding_finish)

lemma yielding_workspace:
  assumes "releases_quietly w"
  shows "yielding (workspace_coroutine w agent t)"
proof -
  let ?leave = "\<lambda>body. co_then (co_await (release_workspace w)) (\<lambda>released. Ended (leave_workspace body released))"
  have leave: "yielding (?leave body)" for body :: "work_leaving + task \<times> bool"
    by (simp add: co_await_def leave_workspace_def)
  have resign: "resigned (?leave (Inl (Work_cancelled p) :: work_leaving + task \<times> bool))" for p
    using assms by (simp add: co_await_def leave_workspace_def release_workspace_def releases_quietly_def)
  have resigns: "resigned (co_then c ?leave)" if "unwound c" for c :: "(store, work_leaving, task \<times> bool) coroutine"
    using that resign by (induction c) auto
  have "yielding (co_then c ?leave)" if "unwinding c" for c :: "(store, work_leaving, task \<times> bool) coroutine"
    using that leave resigns by (induction c) auto
  then show ?thesis
    unfolding workspace_coroutine_def by (intro yielding_bind yielding_await) (simp add: unwinding_work)
qed

lemma yielding_rescue: "yielding (rescue_coroutine w t p)"
proof -
  have "yielding (close_run_coroutine w p)"
    by (cases p) (auto simp: close_run_coroutine_def intro!: yielding_then yielding_methods split: sum.split leaving.split)
  then show ?thesis
    unfolding rescue_coroutine_def
    by (intro yielding_bind yielding_if yielding_methods yielding_conclude) simp_all
qed

lemma yielding_attempt:
  assumes "releases_quietly w"
  shows "yielding (attempt_coroutine w agent t)"
  unfolding attempt_coroutine_def
  by (auto intro!: yielding_then yielding_bind yielding_workspace yielding_conclude yielding_rescue yielding_await assms
      split: sum.split leaving.split work_error.split)

lemma yielding_process:
  assumes "releases_quietly w"
  shows "yielding (process_coroutine w i)"
  unfolding process_coroutine_def
  by (auto intro!: yielding_bind yielding_if yielding_methods yielding_transition yielding_assign yielding_conclude yielding_attempt assms
      split: sum.split selection_error.split)

section \<open>Properties\<close>

text \<open>C15: Cancelling the processing of a task is safe wherever it strikes. However often and at whichever
  awaits \<open>process_task\<close> is cancelled, and whatever becomes of the work in the threads, the store stays
  lawful, its log grows, and the next start finds every run and every task that was in progress and
  ends or blocks it. As long as the lock of the project is released without an error, the cancellation
  always comes out, and what was done up to it is the beginning of what \<open>process_task\<close> does.\<close>

theorem cancelled_processing_recovers:
  assumes "reachable s" "lawful w" "play (process_coroutine w i) cs s = (r, s1)"
  shows "(cs = [] \<longrightarrow> r = map_error Thrown (fst (process_task w i s)) \<and> s1 = snd (process_task w i s)) \<and>
    reachable s1 \<and> prefix (db_events (st_db s)) (db_events (st_db s1)) \<and>
    (releases_quietly w \<longrightarrow>
       (r = Inl Cancelled_error \<or> r = map_error Thrown (fst (process_task w i s)) \<and> s1 = snd (process_task w i s)) \<and>
       prefix (db_events (st_db s1)) (db_events (st_db (snd (process_task w i s))))) \<and>
    (\<forall>now fresh at. fresh_supply fresh (st_db s1) \<longrightarrow> restart_time_ok (st_db s1) at \<longrightarrow>
       (\<exists>recovered s2. reconcile_interrupted_running now fresh (Some (Aware at)) (open_store (st_db s1)) =
          (Inr recovered, s2) \<and> no_active_work (st_db s2) \<and> reachable s2))"
proof -
  have closure: "reflp store_step\<^sup>*\<^sup>*" "transp store_step\<^sup>*\<^sup>*" by (auto simp: reflp_def transp_def)
  note whole = plays_process [of w i, unfolded plays_def, rule_format]
  have steps: "store_step\<^sup>*\<^sup>* s s1"
    using play_moves [OF stepping_process [OF assms(2)] closure, of s i cs] assms(3) by simp
  then have lawful_end: "reachable s1" by (rule steps_reachable [OF _ assms(1)])
  have grows: "prefix (db_events (st_db a)) (db_events (st_db b))" if "reachable a" "store_step\<^sup>*\<^sup>* a b" for a b
    using steps_evolve [OF that(2) reachable_db [OF that(1)]] by (simp add: evolves_def)
  have rest: "(r = Inl Cancelled_error \<or> r = map_error Thrown (fst (process_task w i s)) \<and> s1 = snd (process_task w i s)) \<and>
      store_step\<^sup>*\<^sup>* s1 (snd (process_task w i s))" if "releases_quietly w"
    using play_yielding [OF yielding_process [OF that] stepping_process [OF assms(2)] closure, of i cs s] assms(3) whole
    by auto
  have again: "reachable (open_store (st_db s1))" "serving (open_store (st_db s1))" "st_db (open_store (st_db s1)) = st_db s1"
    using reachable_step [OF lawful_end store_step.open_again] by (simp_all add: serving_def open_store_def)
  show ?thesis
    using whole [of s] assms(3) lawful_end grows [OF assms(1) steps] rest grows [OF lawful_end]
      restart_recovers [OF again(1,2), unfolded again(3)]
    by (auto, (metis)+)
qed

theorem cancelled_processing_recovers_witness:
  "reachable (snd (play (process_coroutine (smooth_worker RuntimeFailed) ''TASK-1'') [(4, Done_after)] sample_store))"
  using cancelled_processing_recovers [OF sample_reachable smooth_worker_lawful prod.collapse [symmetric]] by blast

end
