(* ===== verification/WorkspaceSession.thy ===== *)
theory WorkspaceSession
  imports Coroutines Workspaces
begin

text \<open>
  \<open>ProjectExecutionAdapter.open_task_workspace\<close> of \<open>application/adapters.py\<close> as a coroutine: the lock of
  the project is acquired, used and released in threads, and a cancellation may strike at each of
  these awaits and at those of the body.
\<close>

section \<open>The session\<close>

fun body_left :: "'e leaving \<Rightarrow> 'e execution_error leaving" where
  "body_left (Thrown e) = Thrown (Body_raised e)"
| "body_left Cancelled_error = Cancelled_error"

definition prepared_session ::
  "'s execution \<Rightarrow> (string \<Rightarrow> string) \<Rightarrow> string \<Rightarrow> string \<Rightarrow> string \<Rightarrow>
   (task_branch \<Rightarrow> ('s, 'e leaving, 'a) coroutine) \<Rightarrow> ('s, 'e execution_error leaving, 'a) coroutine" where
  "prepared_session x to_ascii project_id task_id description body =
     co_bind (co_await (map_raise (\<lambda>e. Preparing (preparation_of e))
       (create_task_branch (ex_manager x) to_ascii project_id task_id description))) (\<lambda>branch.
     co_then (body branch) (\<lambda>r. Ended (map_error body_left r)))"

text \<open>The \<open>finally\<close> clause when the lock was acquired.\<close>

definition finally_release ::
  "'s execution \<Rightarrow> string \<Rightarrow> string \<Rightarrow> 'e execution_error leaving + 'a \<Rightarrow> ('s, 'e execution_error leaving, 'a) coroutine" where
  "finally_release x project_id task_id r =
     co_then (co_await (ex_release x project_id task_id)) (\<lambda>released.
     Ended (case released of
        Inl Cancelled_error \<Rightarrow> Inl Cancelled_error
      | Inl (Thrown _) \<Rightarrow> Inl (Thrown Release_failed)
      | Inr _ \<Rightarrow> r))"

definition workspace_session ::
  "'s execution \<Rightarrow> (string \<Rightarrow> string) \<Rightarrow> string \<Rightarrow> string \<Rightarrow> string \<Rightarrow>
   (task_branch \<Rightarrow> ('s, 'e leaving, 'a) coroutine) \<Rightarrow> ('s, 'e execution_error leaving, 'a) coroutine" where
  "workspace_session x to_ascii project_id task_id description body =
     co_then (co_await (ex_acquire x project_id task_id)) (\<lambda>r.
     case r of
       Inl Cancelled_error \<Rightarrow> Ended (Inl Cancelled_error)
     | Inl (Thrown timed_out) \<Rightarrow>
         Ended (Inl (Thrown (Preparing (if timed_out then Preparation_blocked else Preparation_exception))))
     | Inr _ \<Rightarrow> co_then (prepared_session x to_ascii project_id task_id description body) (finally_release x project_id task_id))"

section \<open>Without a cancellation\<close>

lemma plays_prepared:
  assumes "\<And>b. plays Thrown (body b) (m b)"
  shows "plays Thrown (prepared_session x to_ascii project_id task_id description body)
    (prepared x to_ascii project_id task_id description m)"
proof -
  have "plays Thrown (co_then (body b) (\<lambda>r. Ended (map_error body_left r))) (map_raise Body_raised (m b))" for b
    using assms [of b] by (auto simp: plays_def play_then map_raise_def split: prod.split sum.split)
  then show ?thesis
    unfolding prepared_session_def prepared_def by (intro plays_bind plays_await)
qed

lemma plays_session:
  assumes "\<And>b. plays Thrown (body b) (m b)"
  shows "plays Thrown (workspace_session x to_ascii project_id task_id description body)
    (open_task_workspace x to_ascii project_id task_id description m)"
  unfolding plays_def
proof
  fix s
  let ?c = "workspace_session x to_ascii project_id task_id description body"
  let ?m = "open_task_workspace x to_ascii project_id task_id description m"
  have inside: "play (prepared_session x to_ascii project_id task_id description body) [] s1 =
      (map_error Thrown (fst (prepared x to_ascii project_id task_id description m s1)),
       snd (prepared x to_ascii project_id task_id description m s1))" for s1
    using plays_prepared [OF assms] by (simp add: plays_def)
  show "play ?c [] s = (map_error Thrown (fst (?m s)), snd (?m s))"
    by (auto simp: workspace_session_def open_task_workspace_def play_then play_await inside finally_release_def
        split: prod.split sum.split)
qed

section \<open>The lock\<close>

text \<open>The lock port, and a machine whose git and directories are elsewhere.\<close>

definition untouched :: "('s \<Rightarrow> bool) \<Rightarrow> ('s, 'e, 'a) act \<Rightarrow> bool" where
  "untouched held m \<longleftrightarrow> (\<forall>s. held (snd (m s)) \<longleftrightarrow> held s)"

definition lock_port :: "('s \<Rightarrow> bool) \<Rightarrow> 's execution \<Rightarrow> bool" where
  "lock_port held x \<longleftrightarrow>
     (\<forall>p t s. held (snd (ex_acquire x p t s)) \<longleftrightarrow> held s \<or> fst (ex_acquire x p t s) = Inr ()) \<and>
     (\<forall>p t s. fst (ex_release x p t s) = Inr () \<and> \<not> held (snd (ex_release x p t s))) \<and>
     (\<forall>path. untouched held (mc_mkdir (mg_machine (ex_manager x)) path)) \<and>
     (\<forall>arguments cwd. untouched held (mc_git (mg_machine (ex_manager x)) arguments cwd))"

lemma untouched_bind: "untouched held m \<Longrightarrow> (\<And>y. untouched held (f y)) \<Longrightarrow> untouched held (act_bind m f)"
  by (auto simp: untouched_def act_bind_def split: prod.split sum.split) (metis snd_conv)+

lemma untouched_if: "untouched held m \<Longrightarrow> untouched held m' \<Longrightarrow> untouched held (if b then m else m')"
  by simp

lemma untouched_simps [simp]:
  "untouched held (act_return y)" "untouched held (act_raise e)" "untouched held (act_lift r)"
  "untouched held (act_require b e)" "untouched held (map_raise h m) \<longleftrightarrow> untouched held m"
  "untouched held (project_of g i)" "untouched held (assert_contained g path)" "untouched held (resolve_existing g path)"
  by (auto simp: untouched_def act_defs project_of_def assert_contained_def resolve_existing_def Let_def)

lemma untouched_branch:
  assumes "lock_port held x"
  shows "untouched held (create_task_branch (ex_manager x) to_ascii p t d)"
proof -
  let ?g = "ex_manager x"
  have git: "untouched held (run_git ?g arguments cwd check)" for arguments cwd check
    using assms unfolding run_git_def lock_port_def by (intro untouched_bind) simp_all
  have mkdir: "untouched held (make_directory ?g path)" for path
    using assms unfolding make_directory_def lock_port_def by simp
  have missing: "untouched held (clone_missing ?g q target)" for q target
  proof -
    have "untouched held (act_bind (make_directory ?g (parent_path target)) (\<lambda>_.
        act_bind (run_git ?g [''clone'', ''--origin'', ''origin'', ''--'', pd_repository q, as_posix target]
          (parent_path target) True) (\<lambda>_. act_return ())))"
      by (intro untouched_bind git mkdir) simp
    then show ?thesis by (auto simp: untouched_def clone_missing_def)
  qed
  note steps = untouched_bind untouched_if git mkdir missing untouched_simps(1-4,6-8)
  have base: "untouched held (task_base_ref ?g workspace q)" for workspace q
    unfolding task_base_ref_def by (cases "pd_base_branch q"; simp only: option.case; intro steps)
  have selected: "untouched held (clone_or_select ?g i policy)" for i policy
    unfolding clone_or_select_def project_path_def working_tree_status_def current_branch_def by (intro steps)
  show ?thesis unfolding create_task_branch_def by (intro steps base selected)
qed

abbreviation keeps_lock :: "('s \<Rightarrow> bool) \<Rightarrow> ('s, 'e, 'a) coroutine \<Rightarrow> bool" where
  "keeps_lock held \<equiv> moves (\<lambda>s s'. held s' \<longleftrightarrow> held s)"

lemma released_at_the_end:
  assumes "lock_port held x" "keeps_lock held c" "length cs \<le> 1" "Never_done \<notin> snd ` set cs"
  shows "\<not> held (snd (play (co_then c (finally_release x p t)) cs s))"
  using assms(2-)
proof (induction c arbitrary: cs s)
  case (Ended r)
  have released: "\<not> held (snd (ex_release x p t u))" for u using assms(1) by (simp add: lock_port_def)
  show ?case
  proof (cases cs)
    case (Cons e rest)
    then have "cs = [(fst e, snd e)]" "snd e \<noteq> Never_done" using Ended by auto
    then show ?thesis
      using released by (cases "fst e"; cases "snd e") (simp_all add: finally_release_def co_await_def)
  qed (simp add: finally_release_def co_await_def released)
next
  case (Awaiting effect resume unwind)
  have kept: "held (effect u) \<longleftrightarrow> held u" for u using Awaiting.prems by simp
  have on: "\<not> held (snd (play (co_then (resume v) (finally_release x p t)) ds u))"
    if "length ds \<le> 1" "Never_done \<notin> snd ` set ds" for u v ds
    using Awaiting.prems that by (intro Awaiting.IH(1)) auto
  have off: "\<not> held (snd (play (co_then unwind (finally_release x p t)) [] u))" for u
    using Awaiting.prems by (intro Awaiting.IH(2)) auto
  show ?case
  proof (cases cs)
    case (Cons e rest)
    then obtain n fate where cs: "cs = [(n, fate)]" "fate \<noteq> Never_done" using Awaiting.prems(2,3) by (cases e) auto
    show ?thesis
    proof (cases n)
      case 0
      obtain r u where run: "play (co_then unwind (finally_release x p t)) [] s = (r, u)" by fastforce
      then have "\<not> held (effect u)" using off [of s] kept by simp
      with 0 cs run off [of "effect s"] show ?thesis by (cases fate) simp_all
    next
      case (Suc k)
      then show ?thesis using cs on by simp
    qed
  qed (simp add: on)
qed


text \<open>A machine with the lock as its only state, on which git fails.\<close>

definition locked_machine :: "bool execution" where
  "locked_machine =
     \<lparr>ex_manager =
        \<lparr>mg_machine =
           \<lparr>mc_resolve = (\<lambda>path _. path), mc_exists = (\<lambda>_ _. True), mc_is_symlink = (\<lambda>_ _. False),
            mc_is_dir = (\<lambda>_ _. True), mc_mkdir = (\<lambda>_ s. (Inr (), s)), mc_git = (\<lambda>_ _ s. (Inl ''git failed'', s))\<rparr>,
         mg_root = ''/hub'', mg_workspaces = ''/hub/workspace'', mg_projects = []\<rparr>,
      ex_acquire = (\<lambda>_ _ locked. if locked then (Inl True, locked) else (Inr (), True)),
      ex_release = (\<lambda>_ _ _. (Inr (), False))\<rparr>"

definition idle_body :: "task_branch \<Rightarrow> (bool, unit leaving, unit) coroutine" where
  "idle_body b = co_await (act_return ())"


end
