(* ===== verification/Spec2Isabelle.thy ===== *)
theory Spec2Isabelle
  imports StoreProperties RecoveryProperties LedgerProperties ReplayProperties MigrationProperties
    ModelProperties GatewayProperties OrchestratorProperties LockProperties SlackProperties
    WorkspaceProperties RuntimeProperties StartupProperties OperationsProperties Logging Scheduler Hub
    ServingProperties QueueProperties LockTimes StoreOpening Shutdown SlackLifecycle
    Processing WorkspaceSession
begin

text \<open>
  Verification development of the Mac Mini AI Hub, the Python program under \<open>src/src/macmini_ai_hub\<close>
  (paths below are relative to it).

  \<^bold>\<open>The program.\<close> A service on one machine accepts development requests from Slack, keeps them as
  tasks in a SQLite database, and lets one developer agent work on each: the gateway checks a request,
  answers repeated deliveries from a ledger, and creates and queues a task; the orchestrator polls the
  queue, selects the developer, prepares a git branch under the lock of the project, runs the Codex
  command line, and stores the outcome; notifications tell the thread the request came from. A restart
  first reconciles what a crash left behind. The database is the only shared state: gateway,
  orchestrator, notifications and the Slack delivery meet in it, and every change of a task is a
  transaction that appends the event which tells it.

  \<^bold>\<open>Theories and code.\<close>
  \<^item> Foundations: \<open>Prelude\<close> (results, state-passing actions, tables), \<open>PyErrors\<close> (exceptions as values,
    \<open>storage/errors.py\<close>), \<open>PyTime\<close>, \<open>Calendar\<close> (dates, and the order of the texts that \<open>isoformat\<close>
    writes), \<open>Validation\<close> (constrained strings), \<open>Paths\<close>, \<open>PyText\<close> (strings and
    regular expressions), \<open>Json\<close>.
  \<^item> Data models: \<open>Tasks\<close> and \<open>Events\<close> (\<open>domain/\<close>), \<open>StoreModels\<close> (\<open>storage/models.py\<close>), \<open>GatewayModels\<close>
    (\<open>gateway/models.py\<close>), \<open>Config\<close> (\<open>config/models.py\<close>), \<open>Selection\<close> (\<open>orchestrator/selection.py\<close>).
    A pydantic model \<open>M\<close> is a record with \<open>M_validate\<close>.
  \<^item> The store, \<open>storage/sqlite.py\<close>: \<open>Database\<close> (tables, constraints, transactions), \<open>TaskStore\<close>,
    \<open>RunStore\<close>, \<open>Ledgers\<close>, \<open>Recovery\<close>; \<open>Migrations\<close> (\<open>storage/migrations.py\<close>); \<open>StoreOpening\<close> (the constructor). A public method is the
    checks before its transaction and the transaction around a named body; the state is the record
    \<open>store\<close> with the tables, the closed flag and what the SQLite engine currently answers.
  \<^item> \<open>Projections\<close> (\<open>observability/projections.py\<close>): tasks rebuilt from events.
  \<^item> The gateway: \<open>Dedup\<close> (\<open>gateway/dedup.py\<close>), \<open>Gateway\<close> (\<open>gateway/service.py\<close> over its ports),
    \<open>Adapters\<close> (\<open>application/adapters.py\<close>: the gateway on the store).
  \<^item> The orchestrator, \<open>orchestrator/service.py\<close>: \<open>Orchestrator\<close> (\<open>process_task\<close> and \<open>cancel_task\<close>, with what
    the others do at every await as an argument) and \<open>Scheduler\<close> (\<open>run_forever\<close>, \<open>run_once\<close> and the
    semaphore, and the cancellation of the loop, as a labelled transition system). \<open>Coroutines\<close> has
    coroutines that can be cancelled at every await; \<open>AsyncStore\<close> (\<open>storage/adapters.py\<close>), \<open>Processing\<close>
    (\<open>process_task\<close>) and \<open>WorkspaceSession\<close> (\<open>open_task_workspace\<close>) are such coroutines.
  \<^item> What the orchestrator drives: \<open>FileLock\<close> (\<open>locks/file_lock.py\<close>, cut at every file system call and
    interleaved), \<open>LockTimes\<close> (its time stamps), \<open>Workspaces\<close> (\<open>projects/manager.py\<close> and \<open>ProjectExecutionAdapter\<close>), \<open>Runtime\<close>
    (\<open>runtime/\<close>).
    \<open>Hub\<close> is the worker as \<open>build_application\<close> composes it of these.
  \<^item> Interfaces: \<open>Redaction\<close> (\<open>gateway/security.py\<close>, \<open>observability/redaction.py\<close>), \<open>Logging\<close>
    (\<open>observability/structured.py\<close>, \<open>logging.py\<close>), \<open>Slack\<close> and \<open>SlackService\<close> (\<open>integrations/slack.py\<close>),
    \<open>SlackLifecycle\<close> (\<open>SlackSocketModeService\<close> with its background tasks as a labelled transition system),
    \<open>Notifications\<close> (\<open>application/notifications.py\<close>).
  \<^item> Starting and watching: \<open>Startup\<close> (\<open>config/runtime.py\<close>, \<open>config/loader.py\<close>, \<open>application/composition.py\<close>),
    \<open>Serving\<close> (\<open>build_application\<close> and the errors of \<open>serve\<close>), \<open>Shutdown\<close> (\<open>serve\<close> as a labelled transition system), \<open>Operations\<close> (\<open>api/app.py\<close>, \<open>cli.py\<close>,
    \<open>scripts/doctor_portable.py\<close>).

  \<^bold>\<open>What the lemmas show.\<close>
  \<^item> \<open>StoreInvariant\<close>, \<open>TaskSafety\<close>, \<open>LedgerSafety\<close>, \<open>RecoverySafety\<close>: each transaction body is an instance of
    the contract \<open>db_operation\<close> and keeps the invariant; \<open>Reachability\<close> lifts this to every execution of
    \<open>store_step\<close>, with the growth of the log and the forward movement of tasks (\<open>db_evolution\<close>);
    \<open>Progress\<close> says when operations succeed. \<open>StoreProperties\<close>, \<open>RecoveryProperties\<close>, \<open>LedgerProperties\<close>,
    \<open>ReplayProperties\<close> and \<open>MigrationProperties\<close> state the properties: the invariant, the audit trail,
    exact outcomes, atomicity, recovery, ledgers that never lose an answer, and replay as a refinement
    of the stored task. \<open>QueueProperties\<close> rests on \<open>Calendar\<close>: the order of the stored texts is the order
    of time. \<open>StoreOpening\<close> says when a database can be opened and what a failed opening leaves.
  \<^item> \<open>GatewaySafety\<close> has the two contracts of the gateway's ports (\<open>port_relation\<close>, \<open>answering\<close>), interpreted
    on the composed gateway; \<open>GatewayProperties\<close> draws the consequences. \<open>OrchestratorSafety\<close>,
    \<open>OrchestratorOutcomes\<close> and \<open>OrchestratorRun\<close> do the same for the worker.
  \<^item> \<open>LockSafety\<close> and \<open>LockProperties\<close>: mutual exclusion, and the race by which it fails after a crash;
    \<open>LockTimes\<close>: a lock knows its age.
  \<^item> \<open>SlackSafety\<close>, \<open>NotificationSafety\<close>, \<open>SlackProperties\<close>: round trips, the contract of a delivery, a
    command served from end to end, and what a restart sends again; \<open>SlackLifecycle\<close>: a stop leaves no
    task behind.
  \<^item> \<open>Processing\<close> and \<open>WorkspaceSession\<close>: without a cancellation the coroutines play the actions of
    \<open>Orchestrator\<close> and \<open>Workspaces\<close>; what a cancellation leaves behind, and where the lock is left.
  \<^item> \<open>Scheduler\<close> and \<open>Shutdown\<close> have invariants of their steps: bounded concurrency, what the end of the loop and
    of \<open>serve\<close> leaves running, and that \<open>serve\<close> ends (\<open>steps_left\<close> decreases).
  \<^item> \<open>WorkspaceSafety\<close>, \<open>WorkspaceProperties\<close>, \<open>RuntimeProperties\<close>, \<open>StartupProperties\<close>, \<open>ServingProperties\<close>,
    \<open>OperationsProperties\<close>, \<open>RedactionSafety\<close>: the git commands that are run and where, the child
    processes that are left, containment of the configured projects, that valid settings suffice to build the hub, exact readiness, hidden secrets;
    \<open>Hub\<close> follows a task from the queue through git and Codex to the event that ends it.
  \<^item> \<open>ModelProperties\<close> and \<open>Samples\<close>: the data models, and the concrete values of the witnesses.

  \<^bold>\<open>Conventions.\<close> An exception is a value of \<open>Inl\<close>; an action on a state is a function to a result and
  the new state. Strings are ASCII. Clock readings, fresh identifiers, \<open>uuid5\<close>, Unicode normalisation,
  decoding, \<open>float(text)\<close>, YAML parsing, and the answers of the file system, of git, of the child
  process, of the Slack client, of HTTP and of the SQLite engine are parameters. No definition needs
  fuel: every loop of the code that is modelled runs over a list that was read before, or over the
  fixed number of attempts of a delivery; the loops that need not end (\<open>acquire\<close>, \<open>run_forever\<close>,
  \<open>drain\<close>) and \<open>serve\<close> are step relations; \<open>serve\<close> is shown to end. Hypotheses on parameters state documented
  behaviour only: that \<open>resolve\<close> returns canonical paths, that fresh identifiers are new, that the others
  keep to the operations of the store, that \<open>fromisoformat\<close> reads what \<open>isoformat\<close> wrote, and that git
  does not touch the lock file.

  \<^bold>\<open>Not modelled.\<close>
  \<^item> The insides of uvicorn, of Slack Bolt and of the SQLite engine, which are libraries: they end, call back
    and answer as they like.
  \<^item> Threads: \<open>asyncio.to_thread\<close> and the reentrant lock of \<open>SQLiteStore\<close> make each operation one step; what
    becomes of that step when its awaiter is cancelled is modelled (\<open>Coroutines\<close>).
  \<^item> The rotation of log files; the parser of \<open>argparse\<close> and the output of the command line.
  \<^item> The preemption of a batch: the jobs of \<open>Scheduler\<close> are the runs of \<open>process_task\<close>, whose interference is
    the argument \<open>wk_meanwhile\<close> of \<open>Orchestrator\<close>; a job that is cancelled may end in any way there.
  \<^item> Cancellation inside \<open>execute\<close> of the runtime is modelled by \<open>Runtime\<close>, in the gateway by the exception
    \<open>Interruption\<close>; \<open>cancel_task\<close> of the orchestrator is not cancelled.
  \<^item> The package initialisers, which only export names.
\<close>

end
